(* ===== verification/Prelude.thy ===== *)
theory Prelude
  imports Main "HOL-Library.Sublist" "HOL-Library.Multiset"
begin

text \<open>
  Shared vocabulary of the development: the result type of fallible Go functions, the
  named collections the component theories extend, the generic lemmas on lists that several
  components use, and the two interfaces on queues of blocked goroutines and on capacity.

  Go's \<^verbatim>\<open>(T, error)\<close> results are values of \<open>'e + 'a\<close>: \<open>Inl\<close> carries the error, \<open>Inr\<close>
  the value. Every component declares its own error type, with one constructor per message.
\<close>

named_theorems queue_simps \<open>how the operations of a component change its queue of waiters\<close>
named_theorems inv_intros \<open>preservation of a component's invariant by one operation\<close>
named_theorems row_simps \<open>effect of a repository operation on the rows of the tables\<close>

definition bind_result :: "'e + 'a \<Rightarrow> ('a \<Rightarrow> 'e + 'b) \<Rightarrow> 'e + 'b" where
  "bind_result r k = (case r of Inl e \<Rightarrow> Inl e | Inr x \<Rightarrow> k x)"

lemma bind_result_simps [simp]:
  "bind_result (Inl e) k = Inl e"
  "bind_result (Inr x) k = k x"
  by (simp_all add: bind_result_def)

lemma bind_result_eq_Inr [simp]:
  "bind_result r k = Inr y \<longleftrightarrow> (\<exists>x. r = Inr x \<and> k x = Inr y)"
  by (cases r) simp_all

lemma if_SomeE:
  "(if c then Some x else e) = Some y \<Longrightarrow> (x = y \<Longrightarrow> P) \<Longrightarrow> (e = Some y \<Longrightarrow> P) \<Longrightarrow> P"
  by (auto split: if_splits)

definition of_option :: "'e \<Rightarrow> 'a option \<Rightarrow> 'e + 'a" where
  "of_option e r = (case r of None \<Rightarrow> Inl e | Some x \<Rightarrow> Inr x)"

lemma of_option_simps [simp]:
  "of_option e None = Inl e"
  "of_option e (Some x) = Inr x"
  by (simp_all add: of_option_def)

lemma of_option_eq_Inr [simp]: "of_option e r = Inr x \<longleftrightarrow> r = Some x"
  by (cases r) simp_all

subsection \<open>Lists\<close>

lemma filter_length_le_1_iff:
  "length (filter P xs) \<le> 1 \<longleftrightarrow>
    (\<forall>i j. i < length xs \<longrightarrow> j < length xs \<longrightarrow> P (xs ! i) \<longrightarrow> P (xs ! j) \<longrightarrow> i = j)"
proof (induction xs)
  case Nil
  then show ?case by simp
next
  case (Cons x xs)
  show ?case
  proof (cases "P x")
    case True
    have "length (filter P xs) = 0 \<longleftrightarrow> (\<forall>j < length xs. \<not> P (xs ! j))"
      by (simp add: filter_empty_conv all_set_conv_all_nth)
    with True show ?thesis
      by (auto simp: nth_Cons less_Suc_eq_0_disj split: nat.splits)
  next
    case False
    with Cons.IH show ?thesis
      by (auto simp: nth_Cons less_Suc_eq_0_disj split: nat.splits)
  qed
qed

lemma distinct_map_filterI: "distinct (map f xs) \<Longrightarrow> distinct (map f (filter P xs))"
  by (induction xs) auto

lemma length_filter_map_le:
  "(\<And>x. x \<in> set xs \<Longrightarrow> P (f x) \<Longrightarrow> Q x) \<Longrightarrow> length (filter P (map f xs)) \<le> length (filter Q xs)"
  by (induction xs) (auto intro: le_SucI)

lemma butlast_snoc_last: "xs \<noteq> [] \<Longrightarrow> butlast xs @ [last xs] = xs"
  by simp

lemma map_of_filter_key:
  "map_of (filter (\<lambda>(k, v). P k) xs) k = (if P k then map_of xs k else None)"
  by (induction xs) auto

text \<open>No element occurs twice.\<close>

definition unique_mset :: "'a multiset \<Rightarrow> bool" where
  "unique_mset M \<longleftrightarrow> (\<forall>x. count M x \<le> 1)"

lemma unique_mset_empty [simp]: "unique_mset {#}"
  by (simp add: unique_mset_def)

lemma unique_mset_mono: "unique_mset M \<Longrightarrow> N \<subseteq># M \<Longrightarrow> unique_mset N"
  by (meson mset_subset_eq_count order_trans unique_mset_def)

lemma unique_mset_add: "unique_mset (add_mset x M) \<longleftrightarrow> x \<notin># M \<and> unique_mset M"
proof
  assume u: "unique_mset (add_mset x M)"
  then have "count (add_mset x M) x \<le> 1" unfolding unique_mset_def by blast
  then have "x \<notin># M" by (simp add: not_in_iff)
  moreover have "unique_mset M" by (rule unique_mset_mono [OF u]) simp
  ultimately show "x \<notin># M \<and> unique_mset M" ..
next
  assume "x \<notin># M \<and> unique_mset M"
  then show "unique_mset (add_mset x M)" by (simp add: unique_mset_def not_in_iff)
qed

lemma unique_mset_mset [simp]: "unique_mset (mset xs) \<longleftrightarrow> distinct xs"
  by (induction xs) (auto simp: unique_mset_add)

subsection \<open>Queues of blocked goroutines\<close>

text \<open>
  The subagent process pool of the Agent Runtime and the permit budget of the Gateway serve
  their blocked callers the same way: while a caller is queued and the resource has room, the
  head of the queue is removed and sent its grant. The interface names the three parts of that
  loop; its lemmas say that the loop serves a prefix of the queue, in order, leaves the rest
  alone, and stops only when the queue is empty or the room is used up.
\<close>

locale fifo_dispatch =
  fixes queue :: "'s \<Rightarrow> 'w list"
    and can_grant :: "'s \<Rightarrow> bool"
    and grant :: "'s \<Rightarrow> 's"
    and dispatch :: "'s \<Rightarrow> 's"
  assumes dispatch_unfold:
      "dispatch s = (if queue s \<noteq> [] \<and> can_grant s then dispatch (grant s) else s)"
    and queue_grant: "queue s \<noteq> [] \<Longrightarrow> can_grant s \<Longrightarrow> queue (grant s) = tl (queue s)"
begin

lemma dispatch_step: "queue s \<noteq> [] \<Longrightarrow> can_grant s \<Longrightarrow> dispatch s = dispatch (grant s)"
  by (subst dispatch_unfold) simp

lemma dispatch_stop: "queue s = [] \<or> \<not> can_grant s \<Longrightarrow> dispatch s = s"
  by (subst dispatch_unfold) auto

lemma dispatch_induct [case_names stop step]:
  assumes stop: "\<And>s. queue s = [] \<or> \<not> can_grant s \<Longrightarrow> P s"
    and step: "\<And>s. queue s \<noteq> [] \<Longrightarrow> can_grant s \<Longrightarrow> P (grant s) \<Longrightarrow> P s"
  shows "P s"
proof (induction "length (queue s)" arbitrary: s rule: less_induct)
  case less
  show ?case
  proof (cases "queue s \<noteq> [] \<and> can_grant s")
    case True
    then have "length (queue (grant s)) < length (queue s)"
      by (simp add: queue_grant)
    with less have "P (grant s)" by blast
    with True step show ?thesis by blast
  qed (use stop in blast)
qed

lemma dispatch_invariant:
  assumes "I s"
    and "\<And>s. I s \<Longrightarrow> queue s \<noteq> [] \<Longrightarrow> can_grant s \<Longrightarrow> I (grant s)"
  shows "I (dispatch s)"
  using assms
proof (induction s rule: dispatch_induct)
  case (stop s)
  then show ?case by (simp add: dispatch_stop)
next
  case (step s)
  then show ?case by (simp add: dispatch_step)
qed

lemma dispatch_exhausts: "queue (dispatch s) = [] \<or> \<not> can_grant (dispatch s)"
proof (induction s rule: dispatch_induct)
  case (stop s)
  then show ?case by (simp add: dispatch_stop)
next
  case (step s)
  then show ?case by (simp add: dispatch_step)
qed

lemma dispatch_serves_prefix: "\<exists>n. queue (dispatch s) = drop n (queue s)"
proof (induction s rule: dispatch_induct)
  case (stop s)
  then have "queue (dispatch s) = drop 0 (queue s)" by (simp add: dispatch_stop)
  then show ?case ..
next
  case (step s)
  then obtain n where "queue (dispatch (grant s)) = drop n (queue (grant s))" by blast
  with step have "queue (dispatch s) = drop (Suc n) (queue s)"
    by (simp add: dispatch_step queue_grant drop_Suc)
  then show ?case ..
qed

lemma dispatch_queue_suffix: "suffix (queue (dispatch s)) (queue s)"
  using dispatch_serves_prefix [of s] by (auto intro: suffix_drop)

lemma dispatch_idem: "dispatch (dispatch s) = dispatch s"
  using dispatch_exhausts [of s] by (intro dispatch_stop) auto

lemma dispatch_unchanged:
  assumes "\<And>s. queue s \<noteq> [] \<Longrightarrow> can_grant s \<Longrightarrow> f (grant s) = f s"
  shows "f (dispatch s) = f s"
  by (rule dispatch_invariant [where I = "\<lambda>t. f t = f s"]) (simp_all add: assms)

end

subsection \<open>Mailboxes\<close>

text \<open>
  A blocked caller waits on a one-slot channel of its own. \<open>blocked\<close> lists the calls inside
  their \<^verbatim>\<open>select\<close>, \<open>queue\<close> those of them still to be answered: each is queued with an empty
  channel, or out of the queue with exactly one message in its channel. So a send made under
  the component's mutex never blocks, and no call is forgotten.
\<close>

definition mailbox_inv ::
  "('w \<Rightarrow> nat) \<Rightarrow> nat \<Rightarrow> 'w list \<Rightarrow> 'w list \<Rightarrow> (nat \<Rightarrow> 'm list) \<Rightarrow> bool" where
  "mailbox_inv ref next blocked queue chan \<longleftrightarrow>
     distinct (map ref blocked) \<and> distinct (map ref queue) \<and> set queue \<subseteq> set blocked
     \<and> (\<forall>w \<in> set blocked. ref w < next)
     \<and> (\<forall>r \<ge> next. chan r = [])
     \<and> (\<forall>w \<in> set blocked. length (chan (ref w)) = (if w \<in> set queue then 0 else 1))"

text \<open>Removal of the waiter with a given identity, by a linear search.\<close>

fun remove_by :: "('w \<Rightarrow> nat) \<Rightarrow> nat \<Rightarrow> 'w list \<Rightarrow> 'w list option" where
  "remove_by ref r [] = None"
| "remove_by ref r (w # ws) =
     (if ref w = r then Some ws else map_option ((#) w) (remove_by ref r ws))"

lemma remove_by_None: "remove_by ref r ws = None \<longleftrightarrow> r \<notin> ref ` set ws"
  by (induction ws) auto

lemma remove_by_Some:
  "remove_by ref r ws = Some vs \<Longrightarrow>
    \<exists>xs w ys. ws = xs @ w # ys \<and> vs = xs @ ys \<and> ref w = r \<and> r \<notin> ref ` set xs"
proof (induction ws arbitrary: vs)
  case Nil
  then show ?case by simp
next
  case (Cons w ws)
  show ?case
  proof (cases "ref w = r")
    case True
    with Cons.prems have "w # ws = [] @ w # ws \<and> vs = [] @ ws" by simp
    with True show ?thesis by fastforce
  next
    case False
    with Cons obtain us xs v ys where "vs = w # us" "ws = xs @ v # ys" "us = xs @ ys"
      "ref v = r" "r \<notin> ref ` set xs"
      by auto
    with False have "w # ws = (w # xs) @ v # ys \<and> vs = (w # xs) @ ys \<and> ref v = r
      \<and> r \<notin> ref ` set (w # xs)" by simp
    then show ?thesis by blast
  qed
qed

lemma distinct_map_eqD:
  "distinct (map f xs) \<Longrightarrow> x \<in> set xs \<Longrightarrow> y \<in> set xs \<Longrightarrow> f x = f y \<Longrightarrow> x = y"
  by (metis distinct_map inj_onD)

lemma mailbox_empty: "mailbox_inv ref 0 [] [] (\<lambda>_. [])"
  by (simp add: mailbox_inv_def)

lemma mailbox_answer_head:
  assumes "mailbox_inv ref next blocked (w # ws) chan"
  shows "mailbox_inv ref next blocked ws (chan(ref w := chan (ref w) @ [m]))"
  using assms unfolding mailbox_inv_def
  by (auto dest: distinct_map_eqD [of ref blocked])

lemma mailbox_enqueue:
  "mailbox_inv ref next blocked queue chan \<Longrightarrow> ref w = next \<Longrightarrow>
    mailbox_inv ref (Suc next) (blocked @ [w]) (queue @ [w]) chan"
  unfolding mailbox_inv_def by (auto simp: less_Suc_eq)

lemma mailbox_forget:
  assumes "mailbox_inv ref next blocked queue chan" and "w \<in> set blocked" and "w \<notin> set queue"
  shows "mailbox_inv ref next (remove1 w blocked) queue chan"
  using assms unfolding mailbox_inv_def
  by (auto simp: distinct_map distinct_remove1 inj_on_def)

lemma mailbox_receive:
  assumes "mailbox_inv ref next blocked queue chan" and "w \<in> set blocked"
    and "chan (ref w) = m # ms"
  shows "mailbox_inv ref next (remove1 w blocked) queue (chan(ref w := ms))"
  using assms unfolding mailbox_inv_def
  by (auto simp: distinct_map distinct_remove1 inj_on_def split: if_splits)

lemma mailbox_leave:
  assumes inv: "mailbox_inv ref next blocked queue chan" and w: "w \<in> set blocked"
    and rem: "remove_by ref (ref w) queue = Some ws"
  shows "mailbox_inv ref next (remove1 w blocked) ws chan"
proof -
  obtain xs v ys where q: "queue = xs @ v # ys" "ws = xs @ ys" "ref v = ref w"
    using remove_by_Some [OF rem] by blast
  with inv w have "v = w"
    unfolding mailbox_inv_def by (metis Un_iff distinct_map_eqD list.set_intros(1) set_append subsetD)
  have "distinct blocked" using inv by (simp add: mailbox_inv_def distinct_map)
  then have s: "set (remove1 w blocked) = set blocked - {w}" by (rule set_remove1_eq)
  have "distinct (map ref (remove1 w blocked))"
    using inv \<open>distinct blocked\<close> s
    by (simp add: mailbox_inv_def distinct_map distinct_remove1 inj_on_diff)
  with inv q \<open>v = w\<close> s show ?thesis
    unfolding mailbox_inv_def by auto
qed

lemma mailbox_answer_all:
  assumes inv: "mailbox_inv ref next blocked queue chan"
  shows "mailbox_inv ref next blocked (filter P queue)
    (\<lambda>r. if r \<in> ref ` {w \<in> set queue. \<not> P w} then chan r @ [m] else chan r)"
proof -
  have "ref w \<in> ref ` {v \<in> set queue. \<not> P v} \<longleftrightarrow> w \<in> set queue \<and> \<not> P w"
    if "w \<in> set blocked" for w
    using inv that by (auto simp: mailbox_inv_def dest: distinct_map_eqD [of ref blocked])
  moreover have "r \<notin> ref ` {v \<in> set queue. \<not> P v}" if "r \<ge> next" for r
    using inv that by (fastforce simp: mailbox_inv_def)
  ultimately show ?thesis
    using inv by (auto simp: mailbox_inv_def distinct_map_filterI)
qed

text \<open>The messages sent and not yet received.\<close>

definition letters :: "('w \<Rightarrow> nat) \<Rightarrow> 'w list \<Rightarrow> (nat \<Rightarrow> 'm list) \<Rightarrow> 'm multiset" where
  "letters ref blocked chan = mset (concat (map (\<lambda>w. chan (ref w)) blocked))"

lemma letters_Nil [simp]: "letters ref [] chan = {#}"
  by (simp add: letters_def)

lemma letters_Cons [simp]: "letters ref (w # ws) chan = mset (chan (ref w)) + letters ref ws chan"
  by (simp add: letters_def)

lemma letters_snoc [simp]: "letters ref (ws @ [w]) chan = letters ref ws chan + mset (chan (ref w))"
  by (simp add: letters_def)

lemma letters_other: "r \<notin> ref ` set ws \<Longrightarrow> letters ref ws (chan(r := ms)) = letters ref ws chan"
  by (induction ws) auto

lemma letters_send:
  "distinct (map ref ws) \<Longrightarrow> w \<in> set ws \<Longrightarrow>
    letters ref ws (chan(ref w := chan (ref w) @ [m])) = add_mset m (letters ref ws chan)"
  by (induction ws) (auto simp: letters_other)

lemma letters_remove1:
  "w \<in> set ws \<Longrightarrow> letters ref ws chan = mset (chan (ref w)) + letters ref (remove1 w ws) chan"
  by (induction ws) auto

lemma letters_receive:
  assumes "distinct (map ref ws)" and "w \<in> set ws" and "chan (ref w) = [m]"
  shows "letters ref ws chan = add_mset m (letters ref (remove1 w ws) (chan(ref w := [])))"
proof -
  have "ref w \<notin> ref ` set (remove1 w ws)"
    using assms(1,2) by (auto simp: distinct_map inj_on_def)
  with letters_remove1 [OF assms(2), of ref chan] assms(3) show ?thesis
    by (simp add: letters_other)
qed

text \<open>A FIFO service whose every grant is one message to the head of the queue.\<close>

locale fifo_mailbox = fifo_dispatch queue can_grant grant dispatch
  for queue :: "'s \<Rightarrow> 'w list" and can_grant grant dispatch +
  fixes ref :: "'w \<Rightarrow> nat"
    and chan :: "'s \<Rightarrow> nat \<Rightarrow> 'm list"
  assumes chan_grant: "queue s = w # ws \<Longrightarrow> can_grant s \<Longrightarrow>
      \<exists>m. chan (grant s) = (chan s)(ref w := chan s (ref w) @ [m])"
begin

lemma mailbox_dispatch:
  assumes "mailbox_inv ref next blocked (queue s) (chan s)"
  shows "mailbox_inv ref next blocked (queue (dispatch s)) (chan (dispatch s))"
  using assms
proof (rule dispatch_invariant)
  fix t
  assume inv: "mailbox_inv ref next blocked (queue t) (chan t)" and "queue t \<noteq> []" "can_grant t"
  then obtain w ws where q: "queue t = w # ws" by (cases "queue t") auto
  with chan_grant \<open>can_grant t\<close> obtain m
    where "chan (grant t) = (chan t)(ref w := chan t (ref w) @ [m])" by blast
  moreover have "queue (grant t) = ws" using q \<open>can_grant t\<close> by (simp add: queue_grant)
  ultimately show "mailbox_inv ref next blocked (queue (grant t)) (chan (grant t))"
    using inv q by (simp add: mailbox_answer_head)
qed

lemma dispatch_other_chan:
  assumes "r \<notin> ref ` set (queue s)"
  shows "chan (dispatch s) r = chan s r"
  using assms
proof (induction s rule: dispatch_induct)
  case (stop s)
  then show ?case by (simp add: dispatch_stop)
next
  case (step s)
  then obtain w ws where q: "queue s = w # ws" by (cases "queue s") auto
  with chan_grant step.hyps obtain m
    where "chan (grant s) = (chan s)(ref w := chan s (ref w) @ [m])" by blast
  with step q show ?case by (simp add: dispatch_step queue_grant)
qed

end

end
