(* ===== verification/Go_Strings.thy ===== *)
theory Go_Strings
  imports Prelude "HOL-Library.Char_ord" "HOL-Library.List_Lexorder" "HOL-Library.Code_Target_Int" Complex_Main
begin

text \<open>
  The part of Go's string library the program uses, over byte strings: a Go \<^verbatim>\<open>string\<close> is a
  sequence of bytes, here \<open>string\<close> (one \<open>char\<close> per byte), and its order is the byte order.
  Runes are the segments UTF-8 decoding cuts a string into; an invalid byte is a segment of
  its own, as \<^verbatim>\<open>utf8.DecodeRune\<close> reports it, and becomes U+FFFD when runes are encoded again.

  \<^verbatim>\<open>strings.ToLower\<close> is given on every rune whose lower case is ASCII (the ASCII letters,
  U+0130 and the Kelvin sign) and on the two letters whose lower case takes more bytes (U+023A
  and U+023E); the other letters are left as they are. The program lowers a string only to
  compare it with ASCII literals or to find one in it, and a letter whose lower case is not
  ASCII makes such a comparison fail either way.

  The second part holds the dynamic values (\<^verbatim>\<open>any\<close>) that tool arguments, run options and
  event payloads are made of once decoded from JSON, and the functions that read them.
\<close>

subsection \<open>UTF-8 runes\<close>

definition byte_in :: "nat \<Rightarrow> nat \<Rightarrow> char \<Rightarrow> bool" where
  "byte_in lo hi c \<longleftrightarrow> lo \<le> of_char c \<and> of_char c \<le> hi"

text \<open>Width of the rune at the head of a string, \<open>0\<close> where the encoding is invalid.\<close>

definition rune_width :: "string \<Rightarrow> nat" where
  "rune_width s = (case s of
     [] \<Rightarrow> 0
   | a # r \<Rightarrow>
      if byte_in 0x00 0x7F a then 1
      else case r of
        [] \<Rightarrow> 0
      | b # r2 \<Rightarrow>
        if byte_in 0xC2 0xDF a then (if byte_in 0x80 0xBF b then 2 else 0)
        else case r2 of
          [] \<Rightarrow> 0
        | c # r3 \<Rightarrow>
          if byte_in 0xE0 0xEF a then
            (if byte_in (if of_char a = (0xE0::nat) then 0xA0 else 0x80)
                        (if of_char a = (0xED::nat) then 0x9F else 0xBF) b
                \<and> byte_in 0x80 0xBF c then 3 else 0)
          else case r3 of
            [] \<Rightarrow> 0
          | d # _ \<Rightarrow>
            if byte_in 0xF0 0xF4 a
               \<and> byte_in (if of_char a = (0xF0::nat) then 0x90 else 0x80)
                         (if of_char a = (0xF4::nat) then 0x8F else 0xBF) b
               \<and> byte_in 0x80 0xBF c \<and> byte_in 0x80 0xBF d then 4 else 0)"

function runes :: "string \<Rightarrow> string list" where
  "runes s = (if s = [] then [] else
     take (max 1 (rune_width s)) s # runes (drop (max 1 (rune_width s)) s))"
  by pat_completeness auto
termination
  by (relation "measure length") auto

declare runes.simps [simp del]

lemma runes_Nil [simp]: "runes [] = []"
  by (simp add: runes.simps)

lemma concat_runes [simp]: "concat (runes s) = s"
proof (induction s rule: runes.induct)
  case (1 s)
  then show ?case by (subst runes.simps) auto
qed

lemma runes_eq_Nil [simp]: "runes s = [] \<longleftrightarrow> s = []"
  by (metis concat.simps(1) concat_runes runes_Nil)

lemma Nil_notin_runes: "[] \<notin> set (runes s)"
proof (induction s rule: runes.induct)
  case (1 s)
  then show ?case by (subst runes.simps) (auto simp: take_eq_Nil max_def)
qed

definition rune_error :: string where
  "rune_error = [char_of (0xEF::nat), char_of (0xBF::nat), char_of (0xBD::nat)]"

definition encode_rune :: "string \<Rightarrow> string" where
  "encode_rune r = (if rune_width r = 0 then rune_error else r)"

definition rune_count :: "string \<Rightarrow> nat" where
  "rune_count s = length (runes s)"

subsection \<open>Trimming, case, prefixes\<close>

definition space_runes :: "string list" where
  "space_runes =
     [[CHR 0x09], [CHR 0x0A], [CHR 0x0B], [CHR 0x0C], [CHR 0x0D], [CHR 0x20],
      [CHR 0xC2, CHR 0x85], [CHR 0xC2, CHR 0xA0], [CHR 0xE1, CHR 0x9A, CHR 0x80],
      [CHR 0xE2, CHR 0x80, CHR 0x80], [CHR 0xE2, CHR 0x80, CHR 0x81],
      [CHR 0xE2, CHR 0x80, CHR 0x82], [CHR 0xE2, CHR 0x80, CHR 0x83],
      [CHR 0xE2, CHR 0x80, CHR 0x84], [CHR 0xE2, CHR 0x80, CHR 0x85],
      [CHR 0xE2, CHR 0x80, CHR 0x86], [CHR 0xE2, CHR 0x80, CHR 0x87],
      [CHR 0xE2, CHR 0x80, CHR 0x88], [CHR 0xE2, CHR 0x80, CHR 0x89],
      [CHR 0xE2, CHR 0x80, CHR 0x8A], [CHR 0xE2, CHR 0x80, CHR 0xA8],
      [CHR 0xE2, CHR 0x80, CHR 0xA9], [CHR 0xE2, CHR 0x80, CHR 0xAF],
      [CHR 0xE2, CHR 0x81, CHR 0x9F], [CHR 0xE3, CHR 0x80, CHR 0x80]]"

definition is_space_rune :: "string \<Rightarrow> bool" where
  "is_space_rune r \<longleftrightarrow> r \<in> set space_runes"

definition trim_space :: "string \<Rightarrow> string" where
  "trim_space s =
     concat (rev (dropWhile is_space_rune (rev (dropWhile is_space_rune (runes s)))))"

text \<open>Trimming is idempotent: the runes of a part of a string that starts and ends at runes are its runes.\<close>

lemma rune_width_step:
  "rune_width (a # b # c # d # r) = rune_width [a, b, c, d]"
  "rune_width [a] > 0 \<Longrightarrow> rune_width (a # r) = rune_width [a]"
  "rune_width [a, b] > 0 \<Longrightarrow> rune_width (a # b # r) = rune_width [a, b]"
  "rune_width [a, b, c] > 0 \<Longrightarrow> rune_width (a # b # c # r) = rune_width [a, b, c]"
  by (simp_all add: rune_width_def split: if_split_asm list.split)

lemma rune_width_append:
  assumes "rune_width s > 0"
  shows "rune_width (s @ t) = rune_width s"
proof -
  consider "s = []" | a where "s = [a]" | a b where "s = [a, b]" | a b c where "s = [a, b, c]"
    | a b c d r where "s = a # b # c # d # r"
    by (metis list.exhaust)
  then show ?thesis
  proof cases
    case 1 with assms show ?thesis by (simp add: rune_width_def)
  next
    case 2 with assms rune_width_step(2) [of a t] show ?thesis by simp
  next
    case 3 with assms rune_width_step(3) [of a b t] show ?thesis by simp
  next
    case 4 with assms rune_width_step(4) [of a b c t] show ?thesis by simp
  next
    case (5 a b c d r) with rune_width_step(1) [of a b c d r] rune_width_step(1) [of a b c d "r @ t"] show ?thesis by simp
  qed
qed

lemma rune_width_alone:
  "rune_width (a # r) = 1 \<Longrightarrow> rune_width [a] = 1"
  "rune_width (a # b # r) = 2 \<Longrightarrow> rune_width [a, b] = 2"
  "rune_width (a # b # c # r) = 3 \<Longrightarrow> rune_width [a, b, c] = 3"
  by (auto simp: rune_width_def split: if_split_asm list.split_asm)

lemma rune_width_le: "rune_width s \<le> length s \<and> rune_width s \<le> 4"
  by (auto simp: rune_width_def split: list.split)

lemma rune_width_take: "rune_width (take (rune_width s) s) = rune_width s"
proof -
  note le = rune_width_le [of s]
  consider "rune_width s = 0" | a r where "s = a # r" "rune_width s = 1"
    | a b r where "s = a # b # r" "rune_width s = 2" | a b c r where "s = a # b # c # r" "rune_width s = 3"
    | a b c d r where "s = a # b # c # d # r" "rune_width s = 4"
  proof -
    have "rune_width s = 0 \<or> rune_width s = 1 \<or> rune_width s = 2 \<or> rune_width s = 3 \<or> rune_width s = 4"
      using le by linarith
    with le that show thesis
      by (cases s; cases "tl s"; cases "tl (tl s)"; cases "tl (tl (tl s))") auto
  qed
  then show ?thesis
  proof cases
    case 1 then show ?thesis by (simp add: rune_width_def)
  next
    case (2 a r) with rune_width_alone(1) [of a r] show ?thesis by simp
  next
    case (3 a b r) with rune_width_alone(2) [of a b r] show ?thesis by (simp add: numeral_2_eq_2)
  next
    case (4 a b c r) with rune_width_alone(3) [of a b c r] show ?thesis by (simp add: numeral_3_eq_3)
  next
    case (5 a b c d r) with rune_width_step(1) [of a b c d r] show ?thesis by (simp add: eval_nat_numeral)
  qed
qed

text \<open>A prefix that contains the first rune starts with the same rune.\<close>

lemma rune_width_prefix:
  assumes "max 1 (rune_width s) \<le> n"
  shows "rune_width (take n s) = rune_width s"
proof (cases "rune_width s = 0")
  case True
  then show ?thesis
    using rune_width_append [of "take n s" "drop n s"] by (cases "rune_width (take n s) = 0") auto
next
  case False
  have "take n s = take (rune_width s) s @ drop (rune_width s) (take n s)"
    using assms by (metis append_take_drop_id max.bounded_iff min.absorb1 take_take)
  then show ?thesis
    using False rune_width_append [of "take (rune_width s) s"] by (metis gr0I rune_width_take)
qed

lemma runes_step: "s \<noteq> [] \<Longrightarrow>
  runes s = take (max 1 (rune_width s)) s # runes (drop (max 1 (rune_width s)) s)"
  by (subst runes.simps) simp

lemma runes_take: "runes (concat (take n (runes s))) = take n (runes s)"
proof (induction n arbitrary: s)
  case (Suc n)
  show ?case
  proof (cases "s = []")
    case False
    let ?w = "max 1 (rune_width s)"
    let ?rest = "concat (take n (runes (drop ?w s)))"
    have w: "?w \<le> length s" using False rune_width_le [of s] by (cases s) auto
    have "s = take ?w s @ ?rest @ concat (drop n (runes (drop ?w s)))"
      by (metis append_take_drop_id concat_append concat_runes)
    then have "take ?w s @ ?rest = take (?w + length ?rest) s"
      by (metis append_assoc append_eq_conv_conj length_append length_take min.absorb2 w)
    then have "rune_width (take ?w s @ ?rest) = rune_width s"
      by (metis le_add1 rune_width_prefix)
    moreover have "take ?w s @ ?rest \<noteq> []" using False w by auto
    ultimately have "runes (take ?w s @ ?rest) = take ?w s # runes ?rest"
      using w by (subst runes_step) auto
    then show ?thesis using Suc False by (simp add: runes_step [OF False])
  qed simp
qed simp

lemma runes_drop: "runes (concat (drop n (runes s))) = drop n (runes s)"
proof (induction n arbitrary: s)
  case (Suc n)
  then show ?case by (cases "s = []") (auto simp: runes_step)
qed simp

lemma runes_trim: "runes (trim_space s) = rev (dropWhile is_space_rune (rev (dropWhile is_space_rune (runes s))))"
proof -
  let ?t = "dropWhile is_space_rune (runes s)"
  obtain i where i: "?t = drop i (runes s)" by (metis dropWhile_eq_drop)
  obtain j where j: "dropWhile is_space_rune (rev ?t) = drop j (rev ?t)" by (metis dropWhile_eq_drop)
  have "runes (concat ?t) = ?t" unfolding i by (rule runes_drop)
  then have "runes (concat (take k ?t)) = take k ?t" for k by (metis runes_take)
  then show ?thesis unfolding trim_space_def j by (simp add: drop_rev rev_rev_ident)
qed

lemma trim_space_idem [simp]: "trim_space (trim_space s) = trim_space s"
proof -
  let ?t = "rev (dropWhile is_space_rune (rev (dropWhile is_space_rune (runes s))))"
  have "dropWhile is_space_rune ?t = ?t"
  proof (cases "?t")
    case (Cons r rs)
    let ?d = "dropWhile is_space_rune (runes s)" and ?x = "dropWhile is_space_rune (rev (dropWhile is_space_rune (runes s)))"
    from Cons have x: "?x \<noteq> []" and r: "r = last ?x" by (auto simp: last_rev dest: arg_cong [where f = hd] simp flip: hd_rev)
    then have d: "?d \<noteq> []" by (metis dropWhile.simps(1) rev.simps(1))
    have "last ?x = last (rev ?d)" using x by (metis dropWhile_eq_drop last_drop drop_eq_Nil not_less)
    then have "r = hd ?d" using r d by (simp add: last_rev)
    then have "\<not> is_space_rune r" using d hd_dropWhile by metis
    with Cons show ?thesis by simp
  next
    case Nil
    then show ?thesis by (simp only: dropWhile.simps)
  qed
  then show ?thesis unfolding trim_space_def [of "trim_space s"] runes_trim
    by (simp add: trim_space_def)
qed

text \<open>On ASCII text, runes are characters.\<close>

definition ascii_text :: "string \<Rightarrow> bool" where
  "ascii_text s \<longleftrightarrow> list_all (byte_in 0x00 0x7F) s"

definition ascii_space :: "char \<Rightarrow> bool" where
  "ascii_space c \<longleftrightarrow> c \<in> {CHR 0x09, CHR 0x0A, CHR 0x0B, CHR 0x0C, CHR 0x0D, CHR 0x20}"

lemma runes_ascii: "ascii_text s \<Longrightarrow> runes s = map (\<lambda>c. [c]) s"
proof (induction s)
  case (Cons c s)
  then have "rune_width (c # s) = 1" by (simp add: rune_width_def ascii_text_def)
  with Cons show ?case by (subst runes.simps) (simp add: ascii_text_def)
qed simp

lemma is_space_ascii: "is_space_rune [c] \<longleftrightarrow> ascii_space c"
  by (simp add: is_space_rune_def space_runes_def ascii_space_def)

lemma concat_singletons: "concat (map (\<lambda>c. [c]) s) = s"
  by (induction s) simp_all

lemma trim_space_ascii:
  assumes "ascii_text s"
  shows "trim_space s = rev (dropWhile ascii_space (rev (dropWhile ascii_space s)))"
proof -
  have "is_space_rune \<circ> (\<lambda>c. [c]) = ascii_space" by (auto simp: is_space_ascii)
  then show ?thesis
    by (simp add: trim_space_def runes_ascii [OF assms] dropWhile_map rev_map concat_singletons)
qed

lemma trim_space_tight:
  assumes "ascii_text s" and "s \<noteq> [] \<Longrightarrow> \<not> ascii_space (hd s) \<and> \<not> ascii_space (last s)"
  shows "trim_space s = s"
proof (cases "s = []")
  case True
  then show ?thesis by (simp add: trim_space_ascii ascii_text_def)
next
  case False
  then obtain c r where c: "s = c # r" by (cases s) auto
  obtain q l where l: "s = q @ [l]" using False by (cases s rule: rev_cases) auto
  have "dropWhile ascii_space s = s" using assms(2) [OF False] unfolding c by simp
  moreover have "dropWhile ascii_space (rev s) = rev s" using assms(2) [OF False] unfolding l by simp
  ultimately show ?thesis using assms(1) by (simp add: trim_space_ascii)
qed

definition lower_ascii :: "char \<Rightarrow> char" where
  "lower_ascii c = (if byte_in 0x41 0x5A c then char_of (of_char c + 0x20 :: nat) else c)"

text \<open>A string given by the bytes of its UTF-8 encoding.\<close>

definition utf8 :: "nat list \<Rightarrow> string" where "utf8 bytes = map char_of bytes"

definition lower_rune :: "string \<Rightarrow> string" where
  "lower_rune r =
     (if length r = 1 \<and> rune_width r = 1 then map lower_ascii r
      else if r = [char_of (0xC4::nat), char_of (0xB0::nat)] then ''i''
      else if r = [char_of (0xE2::nat), char_of (0x84::nat), char_of (0xAA::nat)] then ''k''
      else if r = utf8 [0xC8, 0xBA] then utf8 [0xE2, 0xB1, 0xA5]
      else if r = utf8 [0xC8, 0xBE] then utf8 [0xE2, 0xB1, 0xA6]
      else encode_rune r)"

definition to_lower :: "string \<Rightarrow> string" where
  "to_lower s = concat (map lower_rune (runes s))"

lemma to_lower_ascii: "ascii_text s \<Longrightarrow> to_lower s = map lower_ascii s"
proof -
  assume a: "ascii_text s"
  then have "concat (map (\<lambda>c. lower_rune [c]) s) = map lower_ascii s"
    by (induction s) (auto simp: lower_rune_def rune_width_def ascii_text_def)
  with a show ?thesis by (simp add: to_lower_def runes_ascii comp_def)
qed

definition equal_fold_ascii :: "string \<Rightarrow> string \<Rightarrow> bool" where
  "equal_fold_ascii s t \<longleftrightarrow> map lower_ascii s = map lower_ascii t"

definition has_prefix :: "string \<Rightarrow> string \<Rightarrow> bool" where
  "has_prefix s p \<longleftrightarrow> take (length p) s = p"

definition has_suffix :: "string \<Rightarrow> string \<Rightarrow> bool" where
  "has_suffix s p \<longleftrightarrow> length p \<le> length s \<and> drop (length s - length p) s = p"

definition trim_prefix :: "string \<Rightarrow> string \<Rightarrow> string" where
  "trim_prefix s p = (if has_prefix s p then drop (length p) s else s)"

lemma has_prefix_append [simp]: "has_prefix (p @ s) p"
  by (simp add: has_prefix_def)

lemma has_prefix_iff: "has_prefix s p \<longleftrightarrow> (\<exists>t. s = p @ t)"
  by (metis append_eq_conv_conj has_prefix_append has_prefix_def append_take_drop_id)

lemma trim_prefix_append [simp]: "trim_prefix (p @ s) p = s"
  by (simp add: trim_prefix_def)

fun first_non_empty :: "string list \<Rightarrow> string" where
  "first_non_empty [] = []"
| "first_non_empty (v # vs) = (if v \<noteq> [] then v else first_non_empty vs)"

subsection \<open>Splitting, joining, replacing\<close>

fun split_on :: "char \<Rightarrow> string \<Rightarrow> string list" where
  "split_on d [] = [[]]"
| "split_on d (c # s) =
     (if c = d then [] # split_on d s
      else case split_on d s of [] \<Rightarrow> [[c]] | w # ws \<Rightarrow> (c # w) # ws)"

fun join_with :: "string \<Rightarrow> string list \<Rightarrow> string" where
  "join_with sep [] = []"
| "join_with sep [w] = w"
| "join_with sep (w # v # ws) = w @ sep @ join_with sep (v # ws)"

lemma split_on_not_Nil [simp]: "split_on d s \<noteq> []"
  by (induction s) (auto split: list.splits)

lemma split_on_no_sep: "d \<notin> set w \<Longrightarrow> split_on d w = [w]"
  by (induction w) auto

lemma split_on_append: "d \<notin> set w \<Longrightarrow> split_on d (w @ d # s) = w # split_on d s"
  by (induction w) auto

lemma split_on_pieces: "w \<in> set (split_on d s) \<Longrightarrow> d \<notin> set w"
proof (induction s arbitrary: w)
  case Nil
  then show ?case by simp
next
  case (Cons c s)
  then show ?case by (cases "split_on d s") (auto split: if_splits)
qed

lemma join_split: "join_with [d] (split_on d s) = s"
proof (induction s)
  case Nil
  then show ?case by simp
next
  case (Cons c s)
  then show ?case
    by (cases "split_on d s"; cases "tl (split_on d s)") (auto split: list.splits)
qed

lemma split_join:
  "ws \<noteq> [] \<Longrightarrow> (\<And>w. w \<in> set ws \<Longrightarrow> d \<notin> set w) \<Longrightarrow> split_on d (join_with [d] ws) = ws"
  by (induction "[d]" ws rule: join_with.induct) (auto simp: split_on_no_sep split_on_append)

lemma split_on_terminated:
  "(\<And>w. w \<in> set ws \<Longrightarrow> d \<notin> set w) \<Longrightarrow>
    split_on d (concat (map (\<lambda>w. w @ [d]) ws)) = ws @ [[]]"
  by (induction ws) (auto simp: split_on_append)

text \<open>Non-overlapping occurrences, left to right, of a non-empty pattern.\<close>

function count_sub :: "string \<Rightarrow> string \<Rightarrow> nat" where
  "count_sub s p =
     (if p = [] \<or> s = [] then 0
      else if has_prefix s p then Suc (count_sub (drop (length p) s) p)
      else count_sub (tl s) p)"
  by pat_completeness auto
termination
  by (relation "measure (\<lambda>(s, p). length s)") auto

function replace_all :: "string \<Rightarrow> string \<Rightarrow> string \<Rightarrow> string" where
  "replace_all s p q =
     (if p = [] \<or> s = [] then s
      else if has_prefix s p then q @ replace_all (drop (length p) s) p q
      else hd s # replace_all (tl s) p q)"
  by pat_completeness auto
termination
  by (relation "measure (\<lambda>(s, p, q). length s)") auto

declare count_sub.simps [simp del] replace_all.simps [simp del]

fun replace_first :: "string \<Rightarrow> string \<Rightarrow> string \<Rightarrow> string" where
  "replace_first [] p q = []"
| "replace_first (c # s) p q =
     (if has_prefix (c # s) p then q @ drop (length p) (c # s)
      else c # replace_first s p q)"

lemma replace_all_none: "count_sub s p = 0 \<Longrightarrow> replace_all s p q = s"
proof (induction s p rule: count_sub.induct)
  case (1 s p)
  show ?case
  proof (cases "p = [] \<or> s = []")
    case True
    then show ?thesis by (simp add: replace_all.simps)
  next
    case False
    with 1 show ?thesis
      by (auto simp: replace_all.simps [of s p q] count_sub.simps [of s p] split: if_splits)
  qed
qed

lemma replace_all_absent_char:
  assumes "c \<notin> set s" and "c \<in> set p"
  shows "replace_all s p q = s"
  using assms(1)
proof (induction s)
  case Nil
  then show ?case by (simp add: replace_all.simps)
next
  case (Cons d s)
  have "\<not> has_prefix (d # s) p"
    using Cons.prems assms(2) set_take_subset [of "length p" "d # s"]
    unfolding has_prefix_def by (metis subsetD)
  with Cons show ?case by (subst replace_all.simps) auto
qed

subsection \<open>Decimal numbers\<close>

fun nat_digits :: "nat \<Rightarrow> string" where
  "nat_digits n =
     (if n < 10 then [char_of (n + 0x30)] else nat_digits (n div 10) @ [char_of (n mod 10 + 0x30)])"

declare nat_digits.simps [simp del]

definition int_dec :: "int \<Rightarrow> string" where
  "int_dec i = (if i < 0 then ''-'' @ nat_digits (nat (- i)) else nat_digits (nat i))"

definition is_digit :: "char \<Rightarrow> bool" where
  "is_digit c \<longleftrightarrow> byte_in 0x30 0x39 c"

definition digit_value :: "char \<Rightarrow> int" where
  "digit_value c = int (of_char c) - 0x30"

fun digits_value :: "int \<Rightarrow> string \<Rightarrow> int" where
  "digits_value acc [] = acc"
| "digits_value acc (c # s) = digits_value (10 * acc + digit_value c) s"

definition in_int64 :: "int \<Rightarrow> bool" where
  "in_int64 i \<longleftrightarrow> - (2 ^ 63) \<le> i \<and> i < 2 ^ 63"

text \<open>\<^verbatim>\<open>strconv.ParseInt(s, 10, 64)\<close>, which \<^verbatim>\<open>strconv.Atoi\<close> is on 64-bit platforms.\<close>

definition parse_int64 :: "string \<Rightarrow> int option" where
  "parse_int64 s =
     (let neg = has_prefix s ''-'';
          body = (if neg \<or> has_prefix s ''+'' then tl s else s);
          v = (if neg then - digits_value 0 body else digits_value 0 body)
      in if body \<noteq> [] \<and> (\<forall>c \<in> set body. is_digit c) \<and> in_int64 v then Some v else None)"

lemma is_digit_char_of: "n < 10 \<Longrightarrow> is_digit (char_of (n + 0x30 :: nat))"
  by (simp add: is_digit_def byte_in_def of_char_of)

lemma digit_value_char_of: "n < 10 \<Longrightarrow> digit_value (char_of (n + 0x30 :: nat)) = int n"
  by (simp add: digit_value_def of_char_of)

lemma nat_digits_digits: "c \<in> set (nat_digits n) \<Longrightarrow> is_digit c"
proof (induction n arbitrary: c rule: nat_digits.induct)
  case (1 n)
  then show ?case
    by (subst (asm) (2) nat_digits.simps) (auto simp: is_digit_char_of split: if_splits)
qed

lemma nat_digits_not_Nil [simp]: "nat_digits n \<noteq> []"
  by (subst nat_digits.simps) simp

lemma digits_value_append: "digits_value a (s @ t) = digits_value (digits_value a s) t"
  by (induction s arbitrary: a) auto

lemma digits_value_nat_digits: "digits_value 0 (nat_digits n) = int n"
proof (induction n rule: nat_digits.induct)
  case (1 n)
  have "10 * int (n div 10) + int (n mod 10) = int n"
    by presburger
  with 1 show ?case
    by (subst nat_digits.simps) (simp add: digits_value_append digit_value_char_of)
qed

lemma parse_int64_nat_digits:
  "int n < 2 ^ 63 \<Longrightarrow> parse_int64 (nat_digits n) = Some (int n)"
proof -
  assume "int n < 2 ^ 63"
  moreover have "\<not> has_prefix (nat_digits n) [c]" if "\<not> is_digit c" for c
    using that nat_digits_digits [of c n] by (cases "nat_digits n") (auto simp: has_prefix_def)
  moreover have "\<not> is_digit CHR ''-''" "\<not> is_digit CHR ''+''"
    by (simp_all add: is_digit_def byte_in_def)
  ultimately show ?thesis
    by (auto simp: parse_int64_def Let_def in_int64_def digits_value_nat_digits nat_digits_digits)
qed

subsection \<open>Dynamic values\<close>

text \<open>\<^verbatim>\<open>strings.Cut\<close>, \<^verbatim>\<open>strings.Contains\<close> and the verb \<^verbatim>\<open>%q\<close>.\<close>

fun cut_at :: "string \<Rightarrow> string \<Rightarrow> string \<times> string \<times> bool" where
  "cut_at sep [] = ([], [], sep = [])"
| "cut_at sep (c # cs) =
     (if has_prefix (c # cs) sep then ([], drop (length sep) (c # cs), True)
      else case cut_at sep cs of (before, after, found) \<Rightarrow> (c # before, after, found))"

lemma cut_at_found: "cut_at sep s = (before, after, True) \<Longrightarrow> s = before @ sep @ after"
  by (induction s arbitrary: "before")
     (auto simp: has_prefix_iff split: if_splits prod.splits)

lemma cut_at_missing: "cut_at sep s = (before, after, False) \<Longrightarrow> before = s \<and> after = []"
  by (induction s arbitrary: "before") (auto split: if_splits prod.splits)

text \<open>\<^verbatim>\<open>strings.Index\<close>, and the slices \<^verbatim>\<open>s[i:]\<close> and \<^verbatim>\<open>s[:i]\<close>, which panic beyond the end.\<close>

fun index_of :: "string \<Rightarrow> string \<Rightarrow> nat option" where
  "index_of sub [] = (if sub = [] then Some 0 else None)"
| "index_of sub (c # cs) =
     (if has_prefix (c # cs) sub then Some 0 else map_option Suc (index_of sub cs))"

definition slice_from :: "string \<Rightarrow> nat \<Rightarrow> string option" where
  "slice_from s i = (if i \<le> length s then Some (drop i s) else None)"

definition slice_to :: "string \<Rightarrow> nat \<Rightarrow> string option" where
  "slice_to s i = (if i \<le> length s then Some (take i s) else None)"

lemma index_of_Some:
  "index_of sub s = Some i \<Longrightarrow> i + length sub \<le> length s \<and> take (length sub) (drop i s) = sub"
  by (induction s arbitrary: i)
     (auto simp: has_prefix_iff split: if_splits dest: arg_cong [where f = length])

lemma index_of_None: "index_of sub s = None \<longleftrightarrow> (\<forall>a b. s \<noteq> a @ sub @ b)"
proof (induction s)
  case Nil
  then show ?case by auto
next
  case (Cons c cs)
  have "(\<exists>a b. c # cs = a @ sub @ b) \<longleftrightarrow> has_prefix (c # cs) sub \<or> (\<exists>a b. cs = a @ sub @ b)"
    by (auto simp: has_prefix_iff Cons_eq_append_conv; metis)
  with Cons show ?case by auto
qed

fun contains_sub :: "string \<Rightarrow> string \<Rightarrow> bool" where
  "contains_sub [] t = (t = [])"
| "contains_sub (c # s) t = (has_prefix (c # s) t \<or> contains_sub s t)"

definition hex_digit :: "nat \<Rightarrow> char" where
  "hex_digit n = ''0123456789abcdef'' ! n"

text \<open>
  Printable text is kept, which covers the names quoted by the program; the other ASCII
  characters are escaped as Go does.
\<close>

definition quote_char :: "char \<Rightarrow> string" where
  "quote_char c =
     (if c = CHR 0x22 then [CHR 0x5C, CHR 0x22]
      else if c = CHR 0x5C then [CHR 0x5C, CHR 0x5C]
      else if c = CHR 0x0A then [CHR 0x5C, CHR ''n'']
      else if c = CHR 0x09 then [CHR 0x5C, CHR ''t'']
      else if c = CHR 0x0D then [CHR 0x5C, CHR ''r'']
      else if c = CHR 0x07 then [CHR 0x5C, CHR ''a'']
      else if c = CHR 0x08 then [CHR 0x5C, CHR ''b'']
      else if c = CHR 0x0C then [CHR 0x5C, CHR ''f'']
      else if c = CHR 0x0B then [CHR 0x5C, CHR ''v'']
      else if of_char c < (0x20::nat) \<or> c = CHR 0x7F
      then [CHR 0x5C, CHR ''x'', hex_digit (of_char c div 16), hex_digit (of_char c mod 16)]
      else [c])"

definition go_quote :: "string \<Rightarrow> string" where
  "go_quote s = [CHR 0x22] @ concat (map quote_char s) @ [CHR 0x22]"

text \<open>Go's \<^verbatim>\<open>int\<close> is 64 bits wide and wraps around.\<close>

definition wrap_int64 :: "int \<Rightarrow> int" where
  "wrap_int64 x = (x + 2 ^ 63) mod 2 ^ 64 - 2 ^ 63"

lemma wrap_int64_id: "- (2 ^ 63) \<le> x \<Longrightarrow> x < 2 ^ 63 \<Longrightarrow> wrap_int64 x = x"
  by (simp add: wrap_int64_def)

text \<open>
  A value of Go's type \<^verbatim>\<open>any\<close> as the program meets it: what \<^verbatim>\<open>encoding/json\<close> decodes
  (\<open>GNil\<close>, \<open>GBool\<close>, \<open>GFloat\<close>, \<open>GStr\<close>, \<open>GList\<close>, \<open>GMap\<close>), the integers Go code
  stores itself, and \<^verbatim>\<open>json.Number\<close>. The keys of a \<open>GMap\<close> are unique, as in a Go map.
\<close>

datatype go_value =
    GNil
  | GBool bool
  | GInt int
  | GFloat rat
  | GNumber string
  | GStr string
  | GList "go_value list"
  | GMap "(string \<times> go_value) list"

type_synonym go_map = "(string \<times> go_value) list"

text \<open>Conversion of a \<^verbatim>\<open>float64\<close> to \<^verbatim>\<open>int\<close> drops the fraction.\<close>

definition trunc_rat :: "rat \<Rightarrow> int" where
  "trunc_rat x = (if 0 \<le> x then \<lfloor>x\<rfloor> else \<lceil>x\<rceil>)"

definition string_arg :: "go_map \<Rightarrow> string \<Rightarrow> string" where
  "string_arg args key = (case map_of args key of Some (GStr s) \<Rightarrow> s | _ \<Rightarrow> [])"

definition int_arg :: "go_map \<Rightarrow> string \<Rightarrow> int \<Rightarrow> int" where
  "int_arg args key fallback =
     (case map_of args key of
        Some (GInt i) \<Rightarrow> i
      | Some (GFloat x) \<Rightarrow> trunc_rat x
      | Some (GNumber s) \<Rightarrow> (case parse_int64 s of Some i \<Rightarrow> i | None \<Rightarrow> fallback)
      | _ \<Rightarrow> fallback)"

definition bool_arg :: "go_map \<Rightarrow> string \<Rightarrow> bool \<Rightarrow> bool" where
  "bool_arg args key def =
     (case map_of args key of
        Some (GBool b) \<Rightarrow> b
      | Some (GStr t) \<Rightarrow> to_lower (trim_space t) \<in> {''1'', ''true'', ''yes''}
      | _ \<Rightarrow> def)"

text \<open>\<^verbatim>\<open>truncateRunes\<close>; the last three bytes are the UTF-8 encoding of the ellipsis.\<close>

definition ellipsis :: string where
  "ellipsis = [char_of (0xE2::nat), char_of (0x80::nat), char_of (0xA6::nat)]"

definition encode_runes :: "string list \<Rightarrow> string" where
  "encode_runes rs = concat (map encode_rune rs)"

definition truncate_runes :: "string \<Rightarrow> int \<Rightarrow> string" where
  "truncate_runes v limit =
     (if limit \<le> 0 \<or> v = [] then v
      else if int (rune_count v) \<le> limit then v
      else if limit < 4 then encode_runes (take (nat limit) (runes v))
      else encode_runes (take (nat (limit - 1)) (runes v)) @ ellipsis)"

end
