(* ===== verification/Resource_Budget.thy ===== *)
theory Resource_Budget
  imports Go_Strings "HOL-Library.AList"
begin

text \<open>
  The permit budget of the Gateway (\<^verbatim>\<open>service/resource_budget.go\<close>), used once for worker
  processes and once for provider requests. A budget holds the permits in use (permit id to
  owning root run), the queue of blocked callers and, per caller, the one-slot channel it
  waits on. Every operation runs under the budget's mutex, so it is one function on the
  state; a call of \<^verbatim>\<open>Acquire\<close> is two of them, the part before the \<^verbatim>\<open>select\<close> and the branch
  the \<^verbatim>\<open>select\<close> takes, and the step relation at the end interleaves the parts of any number
  of calls. A nil \<^verbatim>\<open>*ResourceBudget\<close> is \<open>None\<close>.
\<close>

subsection \<open>State\<close>

record permit_params =
  permit_id :: string
  root_run_id :: string
  worker_id :: string

datatype permit_error = Permit_Fields_Required | Root_Run_Ended | Context_Done

text \<open>\<open>waiter_ref\<close> is the identity of the waiter's heap object.\<close>

record budget_waiter =
  waiter_ref :: nat
  waiter_params :: permit_params

text \<open>
  \<open>rb_chan\<close> is the buffer of each waiter's result channel: \<open>None\<close> stands for the nil
  error of a grant.
\<close>

record resource_budget =
  rb_limit :: int
  rb_active :: "(string \<times> string) list"
  rb_waiters :: "budget_waiter list"
  rb_chan :: "nat \<Rightarrow> permit_error option list"

definition resolve_bounded_env :: "string \<Rightarrow> int \<Rightarrow> int \<Rightarrow> int" where
  "resolve_bounded_env env fallback cap =
     (case parse_int64 (trim_space env) of
        None \<Rightarrow> fallback
      | Some parsed \<Rightarrow> if parsed \<le> 0 then fallback else if parsed > cap then cap else parsed)"

definition default_max_workers :: int where "default_max_workers = 6"
definition max_workers_cap :: int where "max_workers_cap = 64"
definition default_max_provider_requests :: int where "default_max_provider_requests = 4"
definition max_provider_requests_cap :: int where "max_provider_requests_cap = 32"

definition resolve_max_workers :: "string \<Rightarrow> int" where
  "resolve_max_workers env = resolve_bounded_env env default_max_workers max_workers_cap"

definition new_resource_budget_with :: "int \<Rightarrow> resource_budget" where
  "new_resource_budget_with limit =
     \<lparr>rb_limit = limit, rb_active = [], rb_waiters = [], rb_chan = (\<lambda>_. [])\<rparr>"

definition new_resource_budget :: "string \<Rightarrow> resource_budget" where
  "new_resource_budget env = new_resource_budget_with (resolve_max_workers env)"

definition new_provider_budget :: "string \<Rightarrow> resource_budget" where
  "new_provider_budget env =
     new_resource_budget_with
       (resolve_bounded_env env default_max_provider_requests max_provider_requests_cap)"

subsection \<open>Operations\<close>

definition chan_send :: "nat \<Rightarrow> permit_error option \<Rightarrow> resource_budget \<Rightarrow> resource_budget" where
  "chan_send r v b = b\<lparr>rb_chan := (rb_chan b)(r := rb_chan b r @ [v])\<rparr>"

definition budget_has_room :: "resource_budget \<Rightarrow> bool" where
  "budget_has_room b \<longleftrightarrow> int (length (rb_active b)) < rb_limit b"

definition budget_grant :: "resource_budget \<Rightarrow> resource_budget" where
  "budget_grant b =
     (case rb_waiters b of
        [] \<Rightarrow> b
      | w # ws \<Rightarrow>
          chan_send (waiter_ref w) None
            (b\<lparr>rb_waiters := ws,
               rb_active := AList.update (permit_id (waiter_params w))
                              (root_run_id (waiter_params w)) (rb_active b)\<rparr>))"

function budget_dispatch :: "resource_budget \<Rightarrow> resource_budget" where
  "budget_dispatch b =
     (if rb_waiters b \<noteq> [] \<and> budget_has_room b then budget_dispatch (budget_grant b) else b)"
  by pat_completeness auto
termination
  by (relation "measure (length \<circ> rb_waiters)")
     (auto simp: budget_grant_def chan_send_def split: list.splits)

declare budget_dispatch.simps [simp del]

definition remove_waiter :: "nat \<Rightarrow> budget_waiter list \<Rightarrow> budget_waiter list option" where
  "remove_waiter r ws = remove_by waiter_ref r ws"

datatype acquire_outcome = Acquire_Failed permit_error | Acquire_Granted | Acquire_Blocked

text \<open>\<^verbatim>\<open>Acquire\<close> up to its \<^verbatim>\<open>select\<close>.\<close>

definition acquire_enter ::
  "resource_budget option \<Rightarrow> nat \<Rightarrow> permit_params \<Rightarrow> resource_budget option \<times> acquire_outcome" where
  "acquire_enter ob r p =
     (case ob of
        None \<Rightarrow> (None, Acquire_Granted)
      | Some b \<Rightarrow>
          if permit_id p = [] \<or> root_run_id p = [] \<or> worker_id p = []
          then (Some b, Acquire_Failed Permit_Fields_Required)
          else if map_of (rb_active b) (permit_id p) \<noteq> None then (Some b, Acquire_Granted)
          else (Some (budget_dispatch
                  (b\<lparr>rb_waiters := rb_waiters b @ [\<lparr>waiter_ref = r, waiter_params = p\<rparr>]\<rparr>)),
                Acquire_Blocked))"

text \<open>The branch \<^verbatim>\<open>case err := <-waiter.result\<close>; \<open>None\<close> while the channel is empty.\<close>

definition acquire_receive ::
  "resource_budget \<Rightarrow> budget_waiter \<Rightarrow> (resource_budget \<times> acquire_outcome) option" where
  "acquire_receive b w =
     (case rb_chan b (waiter_ref w) of
        [] \<Rightarrow> None
      | v # vs \<Rightarrow>
          Some (b\<lparr>rb_chan := (rb_chan b)(waiter_ref w := vs)\<rparr>,
                case v of None \<Rightarrow> Acquire_Granted | Some e \<Rightarrow> Acquire_Failed e))"

text \<open>The branch \<^verbatim>\<open>case <-ctx.Done()\<close>.\<close>

definition acquire_cancel ::
  "resource_budget \<Rightarrow> budget_waiter \<Rightarrow> resource_budget \<times> acquire_outcome" where
  "acquire_cancel b w =
     (case remove_waiter (waiter_ref w) (rb_waiters b) of
        Some ws \<Rightarrow> (b\<lparr>rb_waiters := ws\<rparr>, Acquire_Failed Context_Done)
      | None \<Rightarrow>
          (budget_dispatch
             (b\<lparr>rb_active := AList.delete (permit_id (waiter_params w)) (rb_active b)\<rparr>),
           Acquire_Failed Context_Done))"

definition budget_release ::
  "resource_budget option \<Rightarrow> permit_params \<Rightarrow> resource_budget option \<times> bool" where
  "budget_release ob p =
     (case ob of
        None \<Rightarrow> (None, False)
      | Some b \<Rightarrow>
          if permit_id p = [] then (Some b, False)
          else (Some (budget_dispatch
                  (b\<lparr>rb_active := AList.delete (permit_id p) (rb_active b)\<rparr>)),
                map_of (rb_active b) (permit_id p) \<noteq> None))"

text \<open>The loops of \<^verbatim>\<open>ReleaseRun\<close>, before its dispatch.\<close>

definition drop_run :: "string \<Rightarrow> resource_budget \<Rightarrow> resource_budget" where
  "drop_run run b =
     b\<lparr>rb_active := filter (\<lambda>(p, owner). owner \<noteq> run) (rb_active b),
       rb_waiters := filter (\<lambda>w. root_run_id (waiter_params w) \<noteq> run) (rb_waiters b),
       rb_chan := (\<lambda>r. if r \<in> waiter_ref ` {w \<in> set (rb_waiters b).
                                root_run_id (waiter_params w) = run}
                       then rb_chan b r @ [Some Root_Run_Ended] else rb_chan b r)\<rparr>"

definition release_run :: "resource_budget option \<Rightarrow> string \<Rightarrow> resource_budget option" where
  "release_run ob run =
     (case ob of
        None \<Rightarrow> None
      | Some b \<Rightarrow> if run = [] then Some b else Some (budget_dispatch (drop_run run b)))"

definition budget_status :: "resource_budget option \<Rightarrow> int \<times> nat \<times> nat" where
  "budget_status ob =
     (case ob of
        None \<Rightarrow> (0, 0, 0)
      | Some b \<Rightarrow> (rb_limit b, length (rb_active b), length (rb_waiters b)))"

subsection \<open>The dispatch loop serves the queue in order\<close>

lemma budget_grant_queue [queue_simps]: "rb_waiters (budget_grant b) = tl (rb_waiters b)"
  by (simp add: budget_grant_def chan_send_def split: list.splits)

lemma budget_grant_limit [queue_simps]: "rb_limit (budget_grant b) = rb_limit b"
  by (simp add: budget_grant_def chan_send_def split: list.splits)

interpretation budget: fifo_mailbox rb_waiters budget_has_room budget_grant budget_dispatch
  waiter_ref rb_chan
  by unfold_locales
     (auto simp: budget_grant_queue budget_dispatch.simps, auto simp: budget_grant_def chan_send_def)

lemma budget_dispatch_limit [queue_simps]: "rb_limit (budget_dispatch b) = rb_limit b"
  by (rule budget.dispatch_unchanged) (simp add: budget_grant_limit)

subsection \<open>Invariants of a single budget\<close>

text \<open>
  The permits in use never exceed the limit, and nobody is queued while there is room: the two
  halves of an admission policy that neither overcommits nor wastes capacity.
\<close>

definition budget_inv :: "resource_budget \<Rightarrow> bool" where
  "budget_inv b \<longleftrightarrow>
     distinct (map fst (rb_active b)) \<and> int (length (rb_active b)) \<le> rb_limit b
     \<and> (rb_waiters b = [] \<or> \<not> budget_has_room b)"

definition permits_inv :: "resource_budget \<Rightarrow> bool" where
  "permits_inv b \<longleftrightarrow>
     distinct (map fst (rb_active b)) \<and> int (length (rb_active b)) \<le> rb_limit b"

lemma budget_inv_permits: "budget_inv b \<Longrightarrow> permits_inv b"
  by (simp add: budget_inv_def permits_inv_def)

lemma length_alist_update: "length (AList.update k v xs) \<le> Suc (length xs)"
  by (induction xs) auto

lemma length_alist_delete: "length (AList.delete k xs) \<le> length xs"
  by (simp add: AList.delete_eq)

lemma permits_inv_grant:
  assumes "permits_inv b" and "budget_has_room b"
  shows "permits_inv (budget_grant b)"
proof (cases "rb_waiters b")
  case Nil
  with assms show ?thesis by (simp add: budget_grant_def)
next
  case (Cons w ws)
  have "length (AList.update (permit_id (waiter_params w)) (root_run_id (waiter_params w))
      (rb_active b)) \<le> Suc (length (rb_active b))"
    by (rule length_alist_update)
  with Cons assms show ?thesis
    by (simp add: permits_inv_def budget_has_room_def budget_grant_def chan_send_def
        distinct_update)
qed

lemma budget_inv_dispatch [inv_intros]: "permits_inv b \<Longrightarrow> budget_inv (budget_dispatch b)"
  using budget.dispatch_exhausts [of b]
    budget.dispatch_invariant [of permits_inv b, OF _ permits_inv_grant]
  by (simp add: budget_inv_def permits_inv_def)

lemma permits_inv_delete:
  "budget_inv b \<Longrightarrow> permits_inv (b\<lparr>rb_active := AList.delete k (rb_active b)\<rparr>)"
  using length_alist_delete [of k "rb_active b"]
  by (simp add: budget_inv_def permits_inv_def distinct_delete)

lemma permits_inv_enqueue: "budget_inv b \<Longrightarrow> permits_inv (b\<lparr>rb_waiters := ws\<rparr>)"
  by (simp add: permits_inv_def budget_inv_def)

lemma permits_inv_drop_run: "budget_inv b \<Longrightarrow> permits_inv (drop_run run b)"
  by (auto simp: permits_inv_def budget_inv_def drop_run_def distinct_map_filterI
      intro: order_trans [OF of_nat_mono [OF length_filter_le]])

lemma budget_inv_enter [inv_intros]:
  "budget_inv b \<Longrightarrow> acquire_enter (Some b) r p = (Some b', out) \<Longrightarrow> budget_inv b'"
  by (auto simp: acquire_enter_def split: if_splits
      intro!: budget_inv_dispatch permits_inv_enqueue)

lemma budget_inv_receive [inv_intros]:
  "budget_inv b \<Longrightarrow> acquire_receive b w = Some (b', out) \<Longrightarrow> budget_inv b'"
  by (auto simp: acquire_receive_def budget_inv_def budget_has_room_def split: list.splits)

lemma budget_inv_cancel [inv_intros]:
  "budget_inv b \<Longrightarrow> acquire_cancel b w = (b', out) \<Longrightarrow> budget_inv b'"
  by (auto simp: acquire_cancel_def intro!: budget_inv_dispatch permits_inv_delete
      split: option.splits)
     (auto dest!: remove_by_Some simp: remove_waiter_def budget_inv_def budget_has_room_def)

lemma budget_inv_release [inv_intros]:
  "budget_inv b \<Longrightarrow> budget_release (Some b) p = (Some b', g) \<Longrightarrow> budget_inv b'"
  by (auto simp: budget_release_def intro!: budget_inv_dispatch permits_inv_delete
      split: if_splits)

lemma budget_inv_release_run [inv_intros]:
  "budget_inv b \<Longrightarrow> release_run (Some b) run = Some b' \<Longrightarrow> budget_inv b'"
  by (auto simp: release_run_def intro!: budget_inv_dispatch permits_inv_drop_run
      split: if_splits)

subsection \<open>Callers: every blocked call is queued or has its answer\<close>

definition callers_inv :: "nat \<Rightarrow> budget_waiter list \<Rightarrow> resource_budget \<Rightarrow> bool" where
  "callers_inv next blocked b \<longleftrightarrow> mailbox_inv waiter_ref next blocked (rb_waiters b) (rb_chan b)"

lemma callers_inv_dispatch [inv_intros]:
  "callers_inv next blocked b \<Longrightarrow> callers_inv next blocked (budget_dispatch b)"
  unfolding callers_inv_def by (rule budget.mailbox_dispatch)

lemma callers_inv_active [simp]:
  "callers_inv next blocked (b\<lparr>rb_active := a\<rparr>) = callers_inv next blocked b"
  by (simp add: callers_inv_def)

lemma callers_inv_enter [inv_intros]:
  assumes inv: "callers_inv r blocked b" and enter: "acquire_enter (Some b) r p = (Some b', out)"
  shows "callers_inv (if out = Acquire_Blocked then Suc r else r)
           (if out = Acquire_Blocked
            then blocked @ [\<lparr>waiter_ref = r, waiter_params = p\<rparr>] else blocked) b'"
proof (cases "out = Acquire_Blocked")
  case False
  with enter inv show ?thesis by (auto simp: acquire_enter_def split: if_splits)
next
  case True
  let ?w = "\<lparr>waiter_ref = r, waiter_params = p\<rparr>"
  from True enter have b': "b' = budget_dispatch (b\<lparr>rb_waiters := rb_waiters b @ [?w]\<rparr>)"
    by (auto simp: acquire_enter_def split: if_splits)
  have "callers_inv (Suc r) (blocked @ [?w]) (b\<lparr>rb_waiters := rb_waiters b @ [?w]\<rparr>)"
    using inv by (simp add: callers_inv_def mailbox_enqueue)
  with True b' show ?thesis by (simp add: callers_inv_dispatch)
qed

lemma callers_inv_receive [inv_intros]:
  "callers_inv next blocked b \<Longrightarrow> w \<in> set blocked \<Longrightarrow> acquire_receive b w = Some (b', out) \<Longrightarrow>
    callers_inv next (remove1 w blocked) b'"
  by (auto simp: callers_inv_def acquire_receive_def intro: mailbox_receive split: list.splits)

lemma callers_inv_cancel [inv_intros]:
  assumes inv: "callers_inv next blocked b" and w: "w \<in> set blocked"
    and cancel: "acquire_cancel b w = (b', out)"
  shows "callers_inv next (remove1 w blocked) b'"
proof (cases "remove_waiter (waiter_ref w) (rb_waiters b)")
  case (Some ws)
  with inv w cancel show ?thesis
    by (auto simp: acquire_cancel_def remove_waiter_def callers_inv_def intro: mailbox_leave)
next
  case None
  then have "w \<notin> set (rb_waiters b)" by (auto simp: remove_waiter_def remove_by_None)
  with inv w have "callers_inv next (remove1 w blocked) b"
    unfolding callers_inv_def by (rule mailbox_forget)
  with None cancel show ?thesis
    by (auto simp: acquire_cancel_def intro!: callers_inv_dispatch)
qed

lemma callers_inv_release [inv_intros]:
  "callers_inv next blocked b \<Longrightarrow> budget_release (Some b) p = (Some b', g) \<Longrightarrow>
    callers_inv next blocked b'"
  by (auto simp: budget_release_def intro!: callers_inv_dispatch split: if_splits)

lemma callers_inv_release_run [inv_intros]:
  assumes inv: "callers_inv next blocked b" and rel: "release_run (Some b) run = Some b'"
  shows "callers_inv next blocked b'"
proof -
  have "callers_inv next blocked (drop_run run b)"
    using mailbox_answer_all [OF inv [unfolded callers_inv_def],
        of "\<lambda>w. root_run_id (waiter_params w) \<noteq> run"]
    by (simp add: callers_inv_def drop_run_def)
  with rel inv show ?thesis
    by (auto simp: release_run_def intro!: callers_inv_dispatch split: if_splits)
qed

subsection \<open>Interleavings\<close>

text \<open>
  The steps of the budget with any number of callers: which call moves next, and which branch
  of a \<^verbatim>\<open>select\<close> is taken when both are ready, is left open.
\<close>

record budget_sys =
  sys_budget :: resource_budget
  sys_blocked :: "budget_waiter list"
  sys_next :: nat

definition init_budget_sys :: "int \<Rightarrow> budget_sys" where
  "init_budget_sys limit =
     \<lparr>sys_budget = new_resource_budget_with limit, sys_blocked = [], sys_next = 0\<rparr>"

inductive budget_step :: "budget_sys \<Rightarrow> budget_sys \<Rightarrow> bool" where
  acquire_returns:
    "acquire_enter (Some (sys_budget s)) (sys_next s) p = (Some b', out) \<Longrightarrow>
     out \<noteq> Acquire_Blocked \<Longrightarrow> budget_step s (s\<lparr>sys_budget := b'\<rparr>)"
| acquire_blocks:
    "acquire_enter (Some (sys_budget s)) (sys_next s) p = (Some b', Acquire_Blocked) \<Longrightarrow>
     budget_step s (s\<lparr>sys_budget := b',
       sys_blocked := sys_blocked s @ [\<lparr>waiter_ref = sys_next s, waiter_params = p\<rparr>],
       sys_next := Suc (sys_next s)\<rparr>)"
| caller_receives:
    "w \<in> set (sys_blocked s) \<Longrightarrow> acquire_receive (sys_budget s) w = Some (b', out) \<Longrightarrow>
     budget_step s (s\<lparr>sys_budget := b', sys_blocked := remove1 w (sys_blocked s)\<rparr>)"
| caller_cancels:
    "w \<in> set (sys_blocked s) \<Longrightarrow> acquire_cancel (sys_budget s) w = (b', out) \<Longrightarrow>
     budget_step s (s\<lparr>sys_budget := b', sys_blocked := remove1 w (sys_blocked s)\<rparr>)"
| permit_released:
    "budget_release (Some (sys_budget s)) p = (Some b', g) \<Longrightarrow>
     budget_step s (s\<lparr>sys_budget := b'\<rparr>)"
| run_released:
    "release_run (Some (sys_budget s)) run = Some b' \<Longrightarrow>
     budget_step s (s\<lparr>sys_budget := b'\<rparr>)"

inductive budget_reachable :: "int \<Rightarrow> budget_sys \<Rightarrow> bool" for limit where
  init: "budget_reachable limit (init_budget_sys limit)"
| step: "budget_reachable limit s \<Longrightarrow> budget_step s t \<Longrightarrow> budget_reachable limit t"

inductive_cases budget_stepE: "budget_step s t"

definition budget_sys_inv :: "int \<Rightarrow> budget_sys \<Rightarrow> bool" where
  "budget_sys_inv limit s \<longleftrightarrow>
     rb_limit (sys_budget s) = limit \<and> budget_inv (sys_budget s)
     \<and> callers_inv (sys_next s) (sys_blocked s) (sys_budget s)"

lemma budget_ops_limit [queue_simps]:
  "acquire_enter (Some b) r p = (Some b', out) \<Longrightarrow> rb_limit b' = rb_limit b"
  "acquire_receive b w = Some (b', out) \<Longrightarrow> rb_limit b' = rb_limit b"
  "acquire_cancel b w = (b', out) \<Longrightarrow> rb_limit b' = rb_limit b"
  "budget_release (Some b) p = (Some b', g) \<Longrightarrow> rb_limit b' = rb_limit b"
  "release_run (Some b) run = Some b' \<Longrightarrow> rb_limit b' = rb_limit b"
  by (auto simp: acquire_enter_def acquire_receive_def acquire_cancel_def budget_release_def
      release_run_def drop_run_def budget_dispatch_limit
      split: if_splits list.splits option.splits)

lemma budget_sys_inv_step: "budget_step s t \<Longrightarrow> budget_sys_inv limit s \<Longrightarrow> budget_sys_inv limit t"
proof (induction rule: budget_step.induct)
  case (acquire_returns s p b' out)
  then show ?case
    using callers_inv_enter [of "sys_next s" "sys_blocked s" "sys_budget s" p b' out]
    by (auto simp: budget_sys_inv_def budget_ops_limit budget_inv_enter)
next
  case (acquire_blocks s p b')
  then show ?case
    using callers_inv_enter [of "sys_next s" "sys_blocked s" "sys_budget s" p b' Acquire_Blocked]
    by (auto simp: budget_sys_inv_def budget_ops_limit budget_inv_enter)
next
  case (caller_receives w s b' out)
  then show ?case
    by (auto simp: budget_sys_inv_def budget_ops_limit budget_inv_receive dest: callers_inv_receive)
next
  case (caller_cancels w s b' out)
  then show ?case
    by (auto simp: budget_sys_inv_def budget_ops_limit budget_inv_cancel callers_inv_cancel)
next
  case (permit_released s p b' g)
  then show ?case
    by (auto simp: budget_sys_inv_def budget_ops_limit budget_inv_release callers_inv_release)
next
  case (run_released s run b')
  then show ?case
    by (auto simp: budget_sys_inv_def budget_ops_limit budget_inv_release_run callers_inv_release_run)
qed

lemma budget_sys_inv_init: "0 \<le> limit \<Longrightarrow> budget_sys_inv limit (init_budget_sys limit)"
  by (simp add: budget_sys_inv_def init_budget_sys_def new_resource_budget_with_def
      budget_inv_def callers_inv_def mailbox_empty)

lemma budget_reachable_inv: "budget_reachable limit s \<Longrightarrow> 0 \<le> limit \<Longrightarrow> budget_sys_inv limit s"
  by (induction rule: budget_reachable.induct) (auto intro: budget_sys_inv_init budget_sys_inv_step)

subsection \<open>Properties\<close>

text \<open>
  C1. In every state any interleaving of calls reaches, the permits in use are at most the
  limit, every permit id is counted once, and callers are queued only when the limit is
  exactly used up: the budget neither overcommits nor leaves capacity idle.
\<close>

theorem budget_admission:
  assumes "budget_reachable limit s" and "0 \<le> limit"
  shows "distinct (map fst (rb_active (sys_budget s)))
    \<and> int (length (rb_active (sys_budget s))) \<le> limit
    \<and> (rb_waiters (sys_budget s) \<noteq> [] \<longrightarrow> int (length (rb_active (sys_budget s))) = limit)"
  using budget_reachable_inv [OF assms]
  by (auto simp: budget_sys_inv_def budget_inv_def budget_has_room_def)

definition witness_permit :: "string \<Rightarrow> permit_params" where
  "witness_permit w = \<lparr>permit_id = ''run_1:'' @ w, root_run_id = ''run_1'', worker_id = w\<rparr>"

text \<open>A reachable state with one permit in use and one caller queued, for the witnesses.\<close>

definition witness_sys :: budget_sys where
  "witness_sys =
     \<lparr>sys_budget = \<lparr>rb_limit = 1, rb_active = [(''run_1:a'', ''run_1'')],
        rb_waiters = [\<lparr>waiter_ref = 1, waiter_params = witness_permit ''b''\<rparr>],
        rb_chan = (\<lambda>_. [])(0 := [None])\<rparr>,
      sys_blocked = [\<lparr>waiter_ref = 0, waiter_params = witness_permit ''a''\<rparr>,
        \<lparr>waiter_ref = 1, waiter_params = witness_permit ''b''\<rparr>],
      sys_next = 2\<rparr>"

lemma witness_sys_reachable: "budget_reachable 1 witness_sys"
proof -
  note evals = acquire_enter_def budget_dispatch.simps budget_has_room_def budget_grant_def
    chan_send_def init_budget_sys_def new_resource_budget_with_def witness_permit_def
  define s0 where "s0 = init_budget_sys 1"
  define b1 where "b1 = the (fst (acquire_enter (Some (sys_budget s0)) 0 (witness_permit ''a'')))"
  define s1 where "s1 = s0\<lparr>sys_budget := b1,
    sys_blocked := sys_blocked s0 @ [\<lparr>waiter_ref = sys_next s0, waiter_params = witness_permit ''a''\<rparr>],
    sys_next := Suc (sys_next s0)\<rparr>"
  define b2 where "b2 = the (fst (acquire_enter (Some b1) 1 (witness_permit ''b'')))"
  have "budget_step s0 s1"
    unfolding s1_def by (rule acquire_blocks) (simp add: s0_def b1_def evals)
  moreover have "budget_step s1 (s1\<lparr>sys_budget := b2,
    sys_blocked := sys_blocked s1 @ [\<lparr>waiter_ref = sys_next s1, waiter_params = witness_permit ''b''\<rparr>],
    sys_next := Suc (sys_next s1)\<rparr>)" (is "budget_step s1 ?s2")
    by (rule acquire_blocks) (simp add: s1_def s0_def b1_def b2_def evals)
  moreover have "?s2 = witness_sys"
    by (simp add: witness_sys_def s1_def s0_def b1_def b2_def evals)
  ultimately show ?thesis
    using budget_reachable.init [of 1] unfolding s0_def by (metis budget_reachable.step)
qed

theorem budget_admission_witness:
  "int (length (rb_active (sys_budget witness_sys))) = 1"
  using budget_admission [OF witness_sys_reachable] by (simp add: witness_sys_def)

text \<open>
  C2. No caller is lost and no send can block while the mutex is held: in every reachable
  state, a call inside its \<^verbatim>\<open>select\<close> is either queued with nothing in its channel, or out of
  the queue with exactly one answer in its one-slot channel, and nobody else is queued.
\<close>

theorem budget_no_lost_caller:
  assumes "budget_reachable limit s" and "0 \<le> limit"
  shows "set (rb_waiters (sys_budget s)) \<subseteq> set (sys_blocked s)
    \<and> distinct (rb_waiters (sys_budget s))
    \<and> (\<forall>w \<in> set (sys_blocked s).
         (w \<in> set (rb_waiters (sys_budget s)) \<longrightarrow> rb_chan (sys_budget s) (waiter_ref w) = [])
         \<and> (w \<notin> set (rb_waiters (sys_budget s)) \<longrightarrow>
              (\<exists>answer. rb_chan (sys_budget s) (waiter_ref w) = [answer])))"
  using budget_reachable_inv [OF assms]
  by (auto simp: budget_sys_inv_def callers_inv_def mailbox_inv_def distinct_map length_Suc_conv)

theorem budget_no_lost_caller_witness:
  "\<exists>answer. rb_chan (sys_budget witness_sys) 0 = [answer]"
  using budget_no_lost_caller [OF witness_sys_reachable]
  by (simp add: witness_sys_def)

lemma set_alist_update: "set (AList.update k v xs) \<subseteq> insert (k, v) (set xs)"
  by (induction xs) auto

text \<open>What a dispatch does to permits that are not those of the queue it serves.\<close>

lemma dispatch_keeps:
  assumes "run \<notin> root_run_id ` waiter_params ` set (rb_waiters b)"
  shows "(run \<notin> snd ` set (rb_active b) \<longrightarrow> run \<notin> snd ` set (rb_active (budget_dispatch b)))
    \<and> fst ` set (rb_active b) \<subseteq> fst ` set (rb_active (budget_dispatch b))"
  using assms
proof (induction b rule: budget.dispatch_induct)
  case (stop b)
  then show ?case by (simp add: budget.dispatch_stop)
next
  case (step b)
  then obtain w ws where q: "rb_waiters b = w # ws" by (cases "rb_waiters b") auto
  with step.prems have "run \<notin> root_run_id ` waiter_params ` set (rb_waiters (budget_grant b))"
    and w: "root_run_id (waiter_params w) \<noteq> run"
    by (auto simp: budget_grant_queue)
  note IH = step.IH [OF this(1)]
  have "run \<notin> snd ` set (rb_active b) \<longrightarrow> run \<notin> snd ` set (rb_active (budget_grant b))"
    using q w set_alist_update [of "permit_id (waiter_params w)" "root_run_id (waiter_params w)"
        "rb_active b"]
    by (fastforce simp: budget_grant_def chan_send_def)
  moreover have "fst ` set (rb_active b) \<subseteq> fst ` set (rb_active (budget_dispatch (budget_grant b)))"
  proof (rule subset_trans)
    show "fst ` set (rb_active b) \<subseteq> fst ` set (rb_active (budget_grant b))"
      using q by (auto simp: budget_grant_def chan_send_def AList.dom_update)
  qed (use IH in blast)
  ultimately show ?case
    using IH step.hyps by (simp add: budget.dispatch_step)
qed

text \<open>
  Releasing a run frees everything the run holds and touches nothing else: none of its
  permits stays in use, none of its callers stays queued and each of them is sent the error;
  permits of other runs stay in use, and the other queued callers are served from the front
  of their own queue.
\<close>

theorem release_run_frees_run:
  assumes "budget_reachable limit s" and "0 \<le> limit" and "run \<noteq> []"
    and "release_run (Some (sys_budget s)) run = Some b'"
  shows "run \<notin> snd ` set (rb_active b')
    \<and> suffix (rb_waiters b')
        (filter (\<lambda>w. root_run_id (waiter_params w) \<noteq> run) (rb_waiters (sys_budget s)))
    \<and> (\<forall>w \<in> set (rb_waiters (sys_budget s)). root_run_id (waiter_params w) = run \<longrightarrow>
         rb_chan b' (waiter_ref w) = [Some Root_Run_Ended])
    \<and> (\<forall>(p, owner) \<in> set (rb_active (sys_budget s)). owner \<noteq> run \<longrightarrow> p \<in> fst ` set (rb_active b'))"
proof -
  let ?b = "sys_budget s" and ?d = "drop_run run (sys_budget s)"
  have callers: "callers_inv (sys_next s) (sys_blocked s) ?b"
    using budget_reachable_inv [OF assms(1,2)] by (simp add: budget_sys_inv_def)
  have b': "b' = budget_dispatch ?d" using assms(3,4) by (simp add: release_run_def)
  have "run \<notin> root_run_id ` waiter_params ` set (rb_waiters ?d)"
    by (auto simp: drop_run_def)
  note keeps = dispatch_keeps [OF this, folded b'] budget.dispatch_other_chan [of _ ?d, folded b']
  have "run \<notin> snd ` set (rb_active ?d)" by (auto simp: drop_run_def)
  moreover have "rb_chan ?d (waiter_ref w) = [Some Root_Run_Ended]
      \<and> waiter_ref w \<notin> waiter_ref ` set (rb_waiters ?d)"
    if "w \<in> set (rb_waiters ?b)" "root_run_id (waiter_params w) = run" for w
  proof -
    have "w \<in> set (sys_blocked s)" using callers that(1) by (auto simp: callers_inv_def mailbox_inv_def)
    then have "length (rb_chan ?b (waiter_ref w)) = 0"
      using callers that(1) by (auto simp: callers_inv_def mailbox_inv_def)
    with callers that show ?thesis
      by (auto simp: callers_inv_def mailbox_inv_def drop_run_def dest: distinct_map_eqD)
  qed
  moreover have "p \<in> fst ` set (rb_active ?d)"
    if "(p, owner) \<in> set (rb_active ?b)" "owner \<noteq> run" for p owner
    using that by (force simp: drop_run_def)
  moreover have "suffix (rb_waiters b') (rb_waiters ?d)"
    unfolding b' by (rule budget.dispatch_queue_suffix)
  ultimately show ?thesis
    using keeps by (fastforce simp: drop_run_def)
qed

theorem release_run_frees_run_witness:
  "\<exists>b'. release_run (Some (sys_budget witness_sys)) ''run_1'' = Some b'
    \<and> ''run_1'' \<notin> snd ` set (rb_active b') \<and> rb_chan b' 1 = [Some Root_Run_Ended]"
proof -
  have "release_run (Some (sys_budget witness_sys)) ''run_1''
      = Some (budget_dispatch (drop_run ''run_1'' (sys_budget witness_sys)))"
    by (simp add: release_run_def)
  from release_run_frees_run [OF witness_sys_reachable _ _ this] this show ?thesis
    by (auto simp: witness_sys_def witness_permit_def)
qed

text \<open>
  The environment may set the limit, but only within bounds the Gateway owns.
\<close>

lemma resolve_bounded_env_range:
  "1 \<le> fallback \<Longrightarrow> fallback \<le> cap \<Longrightarrow>
    1 \<le> resolve_bounded_env env fallback cap \<and> resolve_bounded_env env fallback cap \<le> cap"
  by (auto simp: resolve_bounded_env_def split: option.splits)

text \<open>
  Whatever the environment variables hold, the worker budget admits between 1 and 64
  workers and the provider budget between 1 and 32 requests.
\<close>

theorem budget_limits_bounded:
  "1 \<le> rb_limit (new_resource_budget env) \<and> rb_limit (new_resource_budget env) \<le> 64
   \<and> 1 \<le> rb_limit (new_provider_budget env) \<and> rb_limit (new_provider_budget env) \<le> 32"
  using resolve_bounded_env_range [of default_max_workers max_workers_cap env]
    resolve_bounded_env_range [of default_max_provider_requests max_provider_requests_cap env]
  by (simp add: new_resource_budget_def new_provider_budget_def new_resource_budget_with_def
      resolve_max_workers_def default_max_workers_def max_workers_cap_def
      default_max_provider_requests_def max_provider_requests_cap_def)

end
