(* ===== verification/Subagent_Pool.thy ===== *)
theory Subagent_Pool
  imports Go_Strings
begin

text \<open>
  The process pool of the Agent Runtime (\<^verbatim>\<open>runtime/subagent_pool.go\<close>). A pool counts its
  live or reserved child processes (\<open>sp_active\<close>), keeps the idle ones and a queue of
  waiters, and sends each waiter one grant: an idle child, the right to create one, or the
  error of a closed pool. As in \<open>Resource_Budget\<close>, each section under the mutex is one
  function; \<^verbatim>\<open>Acquire\<close> is split at its \<^verbatim>\<open>select\<close>, and \<^verbatim>\<open>acceptGrant\<close> at its calls of
  \<^verbatim>\<open>Ping\<close> and of the process factory, whose outcomes are arguments. The step relation at
  the end interleaves the sections of any number of goroutines.
\<close>

subsection \<open>State\<close>

type_synonym child = nat

record pool_grant =
  gr_child :: "child option"
  gr_create :: bool
  gr_err :: bool

record pool_waiter =
  pw_ref :: nat
  pw_enqueued_at :: int

record subagent_pool =
  sp_limit :: int
  sp_active :: int
  sp_idle :: "child list"
  sp_waiters :: "pool_waiter list"
  sp_closed :: bool
  sp_total_waits :: int
  sp_last_wait :: int
  sp_max_wait :: int
  sp_chan :: "nat \<Rightarrow> pool_grant list"

record pool_status =
  st_limit :: int
  st_active :: int
  st_idle :: int
  st_in_use :: int
  st_queued :: int
  st_max :: int
  st_total_waits :: int
  st_last_wait_ms :: int
  st_max_wait_ms :: int

definition default_pool_size :: int where "default_pool_size = 2"
definition max_pool_size :: int where "max_pool_size = 8"

definition clamp_pool_limit :: "int \<Rightarrow> int" where
  "clamp_pool_limit limit =
     (let l = (if limit \<le> 0 then default_pool_size else limit)
      in if l > max_pool_size then max_pool_size else l)"

definition new_pool :: "int \<Rightarrow> subagent_pool" where
  "new_pool limit =
     \<lparr>sp_limit = clamp_pool_limit limit, sp_active = 0, sp_idle = [], sp_waiters = [],
      sp_closed = False, sp_total_waits = 0, sp_last_wait = 0, sp_max_wait = 0,
      sp_chan = (\<lambda>_. [])\<rparr>"

definition pool_size_from_env :: "string \<Rightarrow> int" where
  "pool_size_from_env env =
     (case parse_int64 env of
        None \<Rightarrow> default_pool_size
      | Some value \<Rightarrow>
          if value \<le> 0 then default_pool_size
          else if value > max_pool_size then max_pool_size else value)"

subsection \<open>Dispatching\<close>

definition error_grant :: pool_grant where
  "error_grant = \<lparr>gr_child = None, gr_create = False, gr_err = True\<rparr>"

definition send_grant :: "pool_waiter \<Rightarrow> pool_grant \<Rightarrow> subagent_pool \<Rightarrow> subagent_pool" where
  "send_grant w g p = p\<lparr>sp_chan := (sp_chan p)(pw_ref w := sp_chan p (pw_ref w) @ [g])\<rparr>"

text \<open>The loop of a closed pool: every waiter gets the error.\<close>

definition fail_head :: "subagent_pool \<Rightarrow> subagent_pool" where
  "fail_head p =
     (case sp_waiters p of
        [] \<Rightarrow> p
      | w # ws \<Rightarrow> send_grant w error_grant (p\<lparr>sp_waiters := ws\<rparr>))"

function fail_waiters :: "subagent_pool \<Rightarrow> subagent_pool" where
  "fail_waiters p = (if sp_waiters p \<noteq> [] then fail_waiters (fail_head p) else p)"
  by pat_completeness auto
termination
  by (relation "measure (length \<circ> sp_waiters)")
     (auto simp: fail_head_def send_grant_def split: list.splits)

text \<open>
  The loop of an open pool: the head waiter gets the idle child put back last, or the right
  to create one; \<open>now\<close> is the clock reading of the iteration that serves it.
\<close>

definition pool_has_room :: "subagent_pool \<Rightarrow> bool" where
  "pool_has_room p \<longleftrightarrow>
     (sp_idle p \<noteq> [] \<and> sp_active p \<le> sp_limit p) \<or> sp_active p < sp_limit p"

definition record_wait :: "int \<Rightarrow> subagent_pool \<Rightarrow> subagent_pool" where
  "record_wait wait p =
     p\<lparr>sp_total_waits := sp_total_waits p + 1, sp_last_wait := wait,
       sp_max_wait := (if wait > sp_max_wait p then wait else sp_max_wait p)\<rparr>"

definition serve_head :: "(pool_waiter \<Rightarrow> int) \<Rightarrow> subagent_pool \<Rightarrow> subagent_pool" where
  "serve_head now p =
     (case sp_waiters p of
        [] \<Rightarrow> p
      | w # ws \<Rightarrow>
          if sp_idle p \<noteq> [] \<and> sp_active p \<le> sp_limit p
          then send_grant w \<lparr>gr_child = Some (last (sp_idle p)), gr_create = False, gr_err = False\<rparr>
                 (record_wait (now w - pw_enqueued_at w)
                    (p\<lparr>sp_idle := butlast (sp_idle p), sp_waiters := ws\<rparr>))
          else if sp_active p < sp_limit p
          then send_grant w \<lparr>gr_child = None, gr_create = True, gr_err = False\<rparr>
                 (record_wait (now w - pw_enqueued_at w)
                    (p\<lparr>sp_active := sp_active p + 1, sp_waiters := ws\<rparr>))
          else p)"

lemma serve_head_queue [queue_simps]:
  "sp_waiters p \<noteq> [] \<Longrightarrow> pool_has_room p \<Longrightarrow> sp_waiters (serve_head now p) = tl (sp_waiters p)"
  by (auto simp: serve_head_def pool_has_room_def send_grant_def record_wait_def split: list.splits)

function serve_waiters :: "(pool_waiter \<Rightarrow> int) \<Rightarrow> subagent_pool \<Rightarrow> subagent_pool" where
  "serve_waiters now p =
     (if sp_waiters p \<noteq> [] \<and> pool_has_room p then serve_waiters now (serve_head now p) else p)"
  by pat_completeness auto
termination
  by (relation "measure (\<lambda>(now, p). length (sp_waiters p))") (auto simp: serve_head_queue)

declare fail_waiters.simps [simp del] serve_waiters.simps [simp del]

definition pool_dispatch :: "(pool_waiter \<Rightarrow> int) \<Rightarrow> subagent_pool \<Rightarrow> subagent_pool" where
  "pool_dispatch now p = (if sp_closed p then fail_waiters p else serve_waiters now p)"

text \<open>Both loops at once: the shared reading of \<^verbatim>\<open>dispatchLocked\<close> as a FIFO service.\<close>

definition pool_can_answer :: "subagent_pool \<Rightarrow> bool" where
  "pool_can_answer p \<longleftrightarrow> sp_closed p \<or> pool_has_room p"

definition answer_head :: "(pool_waiter \<Rightarrow> int) \<Rightarrow> subagent_pool \<Rightarrow> subagent_pool" where
  "answer_head now p = (if sp_closed p then fail_head p else serve_head now p)"

lemma answer_head_closed [simp]: "sp_closed (answer_head now p) = sp_closed p"
  by (auto simp: answer_head_def fail_head_def serve_head_def send_grant_def record_wait_def
      split: list.splits)

interpretation pool: fifo_mailbox sp_waiters pool_can_answer "answer_head now" "pool_dispatch now"
  pw_ref sp_chan for now
proof unfold_locales
  fix p
  show "pool_dispatch now p =
      (if sp_waiters p \<noteq> [] \<and> pool_can_answer p then pool_dispatch now (answer_head now p) else p)"
    using answer_head_closed [of now p]
    by (auto simp: pool_dispatch_def pool_can_answer_def answer_head_def
        fail_waiters.simps [of p] serve_waiters.simps [of now p])
next
  fix p
  show "sp_waiters p \<noteq> [] \<Longrightarrow> pool_can_answer p \<Longrightarrow>
      sp_waiters (answer_head now p) = tl (sp_waiters p)"
    by (auto simp: pool_can_answer_def answer_head_def serve_head_queue fail_head_def
        send_grant_def split: list.splits)
next
  fix p w ws
  show "sp_waiters p = w # ws \<Longrightarrow> pool_can_answer p \<Longrightarrow>
      \<exists>m. sp_chan (answer_head now p) = (sp_chan p)(pw_ref w := sp_chan p (pw_ref w) @ [m])"
    by (auto simp: pool_can_answer_def pool_has_room_def answer_head_def serve_head_def
        fail_head_def send_grant_def record_wait_def split: if_splits)
qed

subsection \<open>Operations\<close>

datatype pool_error = Pool_Closed | Pool_Ctx_Done | Create_Error

definition acquire_enqueue ::
  "(pool_waiter \<Rightarrow> int) \<Rightarrow> pool_waiter \<Rightarrow> subagent_pool \<Rightarrow> pool_error + subagent_pool" where
  "acquire_enqueue now w p =
     (if sp_closed p then Inl Pool_Closed
      else Inr (pool_dispatch now (p\<lparr>sp_waiters := sp_waiters p @ [w]\<rparr>)))"

definition drop_waiter :: "nat \<Rightarrow> pool_waiter list \<Rightarrow> pool_waiter list option" where
  "drop_waiter r ws = remove_by pw_ref r ws"

definition receive_grant :: "pool_waiter \<Rightarrow> subagent_pool \<Rightarrow> (pool_grant \<times> subagent_pool) option" where
  "receive_grant w p =
     (case sp_chan p (pw_ref w) of
        [] \<Rightarrow> None
      | g # gs \<Rightarrow> Some (g, p\<lparr>sp_chan := (sp_chan p)(pw_ref w := gs)\<rparr>))"

text \<open>Giving a reserved slot back: \<^verbatim>\<open>p.active--; p.dispatchLocked()\<close>.\<close>

definition free_slot :: "(pool_waiter \<Rightarrow> int) \<Rightarrow> subagent_pool \<Rightarrow> subagent_pool" where
  "free_slot now p = pool_dispatch now (p\<lparr>sp_active := sp_active p - 1\<rparr>)"

text \<open>
  The body of the function \<^verbatim>\<open>releaseFunc\<close> returns, which \<^verbatim>\<open>sync.Once\<close> runs at most once;
  the second component says whether the child is closed.
\<close>

definition release_child ::
  "(pool_waiter \<Rightarrow> int) \<Rightarrow> bool \<Rightarrow> child option \<Rightarrow> subagent_pool \<Rightarrow> subagent_pool \<times> bool" where
  "release_child now reusable c p =
     (case c of
        None \<Rightarrow> (p, False)
      | Some child \<Rightarrow>
          if reusable \<and> \<not> sp_closed p \<and> sp_active p \<le> sp_limit p
          then (pool_dispatch now (p\<lparr>sp_idle := sp_idle p @ [child]\<rparr>), False)
          else (free_slot now p, True))"

definition discard_grant ::
  "(pool_waiter \<Rightarrow> int) \<Rightarrow> pool_grant \<Rightarrow> subagent_pool \<Rightarrow> subagent_pool" where
  "discard_grant now g p =
     (if gr_err g then p
      else case gr_child g of
             Some c \<Rightarrow> fst (release_child now True (Some c) p)
           | None \<Rightarrow> if gr_create g then free_slot now p else p)"

text \<open>
  The branch \<^verbatim>\<open>case <-ctx.Done()\<close> of \<^verbatim>\<open>AcquireWithStart\<close>. A waiter that left the queue
  meanwhile takes its grant from the channel and gives it back; \<open>None\<close> while that receive
  still blocks.
\<close>

definition acquire_abort ::
  "(pool_waiter \<Rightarrow> int) \<Rightarrow> pool_waiter \<Rightarrow> subagent_pool \<Rightarrow> subagent_pool option" where
  "acquire_abort now w p =
     (case drop_waiter (pw_ref w) (sp_waiters p) of
        Some ws \<Rightarrow> Some (pool_dispatch now (p\<lparr>sp_waiters := ws\<rparr>))
      | None \<Rightarrow> map_option (\<lambda>(g, p'). discard_grant now g p') (receive_grant w p))"

text \<open>
  \<^verbatim>\<open>acceptGrant\<close> after a failed health check: the dead child's slot is given up, and taken
  again at once when the pool is open and below its limit. The flag is \<^verbatim>\<open>canReplace\<close>; without
  it the caller starts over with \<^verbatim>\<open>AcquireWithStart\<close>.
\<close>

definition replace_unhealthy ::
  "(pool_waiter \<Rightarrow> int) \<Rightarrow> subagent_pool \<Rightarrow> subagent_pool \<times> bool" where
  "replace_unhealthy now p =
     (let p1 = p\<lparr>sp_active := sp_active p - 1\<rparr>;
          can_replace = (\<not> sp_closed p1 \<and> sp_active p1 < sp_limit p1);
          p2 = (if can_replace then p1\<lparr>sp_active := sp_active p1 + 1\<rparr> else p1)
      in (pool_dispatch now p2, can_replace))"

text \<open>What \<^verbatim>\<open>acceptGrant\<close> does with a grant before it calls out.\<close>

datatype accept_action = Return_Error | Use_Child "child option" | Ping_Child child | Create_Child

definition accept_grant :: "pool_grant \<Rightarrow> (child \<Rightarrow> bool) \<Rightarrow> accept_action" where
  "accept_grant g has_ping =
     (if gr_err g then Return_Error
      else if gr_create g then Create_Child
      else case gr_child g of
             Some c \<Rightarrow> if has_ping c then Ping_Child c else Use_Child (Some c)
           | None \<Rightarrow> Use_Child None)"

definition pool_status_of :: "subagent_pool \<Rightarrow> pool_status" where
  "pool_status_of p =
     \<lparr>st_limit = sp_limit p, st_active = sp_active p, st_idle = int (length (sp_idle p)),
      st_in_use = sp_active p - int (length (sp_idle p)),
      st_queued = int (length (sp_waiters p)), st_max = max_pool_size,
      st_total_waits = sp_total_waits p,
      st_last_wait_ms = sp_last_wait p div 1000000, st_max_wait_ms = sp_max_wait p div 1000000\<rparr>"

text \<open>\<^verbatim>\<open>SetLimit\<close>: idle children are closed from the end of the list; they are returned.\<close>

function shrink_idle :: "int \<Rightarrow> subagent_pool \<Rightarrow> child list \<Rightarrow> subagent_pool \<times> child list" where
  "shrink_idle limit p overflow =
     (if sp_idle p \<noteq> [] \<and> (sp_active p > limit \<or> int (length (sp_idle p)) > limit)
      then shrink_idle limit
             (p\<lparr>sp_idle := butlast (sp_idle p), sp_active := sp_active p - 1\<rparr>)
             (overflow @ [last (sp_idle p)])
      else (p, overflow))"
  by pat_completeness auto
termination
  by (relation "measure (\<lambda>(l, p, _). length (sp_idle p))") auto

declare shrink_idle.simps [simp del]

definition set_limit ::
  "(pool_waiter \<Rightarrow> int) \<Rightarrow> int \<Rightarrow> subagent_pool \<Rightarrow> subagent_pool \<times> child list" where
  "set_limit now limit p =
     (let l = clamp_pool_limit limit;
          (p', overflow) = shrink_idle l (p\<lparr>sp_limit := l\<rparr>) []
      in (pool_dispatch now p', overflow))"

definition reset_pool ::
  "(pool_waiter \<Rightarrow> int) \<Rightarrow> subagent_pool \<Rightarrow> subagent_pool \<times> child list" where
  "reset_pool now p =
     (pool_dispatch now
        (p\<lparr>sp_idle := [], sp_active := sp_active p - int (length (sp_idle p))\<rparr>),
      sp_idle p)"

definition close_pool ::
  "(pool_waiter \<Rightarrow> int) \<Rightarrow> subagent_pool \<Rightarrow> subagent_pool \<times> child list" where
  "close_pool now p =
     (if sp_closed p then (p, [])
      else (pool_dispatch now
              (p\<lparr>sp_closed := True, sp_idle := [],
                 sp_active := sp_active p - int (length (sp_idle p))\<rparr>),
            sp_idle p))"

subsection \<open>Accounting\<close>

text \<open>
  A slot is held by an idle child, by a grant on its way to a waiter, by a child being pinged
  or in use, or by a call of the process factory. \<open>extra\<close> counts the last three, \<open>kids\<close> the
  children among them.
\<close>

definition wf_grant :: "pool_grant \<Rightarrow> bool" where
  "wf_grant g \<longleftrightarrow>
     (if gr_err g then gr_child g = None \<and> \<not> gr_create g else gr_create g = (gr_child g = None))"

definition grant_slots :: "pool_grant multiset \<Rightarrow> int" where
  "grant_slots L = int (size (filter_mset (\<lambda>g. \<not> gr_err g) L))"

definition grant_kids :: "pool_grant multiset \<Rightarrow> child multiset" where
  "grant_kids L = (\<Sum>g \<in># L. case gr_child g of None \<Rightarrow> {#} | Some c \<Rightarrow> {#c#})"

lemma grant_simps [simp]:
  "grant_slots {#} = 0"
  "grant_slots (add_mset g L) = (if gr_err g then 0 else 1) + grant_slots L"
  "grant_kids {#} = {#}"
  "grant_kids (add_mset g L) = (case gr_child g of None \<Rightarrow> {#} | Some c \<Rightarrow> {#c#}) + grant_kids L"
  by (simp_all add: grant_slots_def grant_kids_def)

abbreviation pool_letters :: "pool_waiter list \<Rightarrow> subagent_pool \<Rightarrow> pool_grant multiset" where
  "pool_letters blocked p \<equiv> letters pw_ref blocked (sp_chan p)"

definition pool_core :: "nat \<Rightarrow> pool_waiter list \<Rightarrow> int \<Rightarrow> child multiset \<Rightarrow> subagent_pool \<Rightarrow> bool" where
  "pool_core next blocked extra kids p \<longleftrightarrow>
     mailbox_inv pw_ref next blocked (sp_waiters p) (sp_chan p)
     \<and> (\<forall>g \<in># pool_letters blocked p. wf_grant g)
     \<and> sp_active p = int (length (sp_idle p)) + grant_slots (pool_letters blocked p) + extra
     \<and> unique_mset (mset (sp_idle p) + grant_kids (pool_letters blocked p) + kids)
     \<and> (sp_closed p \<longrightarrow> sp_idle p = [])
     \<and> (sp_idle p \<noteq> [] \<longrightarrow> sp_active p \<le> sp_limit p)"

lemma wf_grant_simps [simp]:
  "wf_grant error_grant"
  "wf_grant \<lparr>gr_child = Some c, gr_create = False, gr_err = False\<rparr>"
  "wf_grant \<lparr>gr_child = None, gr_create = True, gr_err = False\<rparr>"
  by (simp_all add: wf_grant_def error_grant_def)

lemma mset_butlast_last: "xs \<noteq> [] \<Longrightarrow> mset xs = add_mset (last xs) (mset (butlast xs))"
  by (cases xs rule: rev_cases) auto

lemma pool_core_answer:
  assumes core: "pool_core next blocked extra kids p"
    and q: "sp_waiters p = w # ws" and can: "pool_can_answer p"
  shows "pool_core next blocked extra kids (answer_head now p)"
proof -
  have mail: "mailbox_inv pw_ref next blocked (w # ws) (sp_chan p)"
    using core q by (simp add: pool_core_def)
  then have send: "letters pw_ref blocked ((sp_chan p)(pw_ref w := sp_chan p (pw_ref w) @ [m]))
      = add_mset m (pool_letters blocked p)" for m
    by (intro letters_send) (auto simp: mailbox_inv_def)
  note mail' = mailbox_answer_head [OF mail]
  have "sp_closed p \<or> \<not> sp_closed p \<and> sp_idle p \<noteq> [] \<and> sp_active p \<le> sp_limit p
      \<or> \<not> sp_closed p \<and> sp_idle p = [] \<and> sp_active p < sp_limit p"
    using can core by (auto simp: pool_can_answer_def pool_has_room_def pool_core_def)
  then consider (closed) "sp_closed p"
    | (idle) "\<not> sp_closed p" "sp_idle p \<noteq> []" "sp_active p \<le> sp_limit p"
    | (create) "\<not> sp_closed p" "sp_idle p = []" "sp_active p < sp_limit p"
    by blast
  then show ?thesis
  proof cases
    case closed
    then have "sp_idle p = []" using core by (simp add: pool_core_def)
    with closed core mail' send q show ?thesis
      by (simp add: pool_core_def answer_head_def fail_head_def send_grant_def)
         (simp add: error_grant_def)
  next
    case idle
    with core mail' send q mset_butlast_last [of "sp_idle p"] show ?thesis
      by (simp add: pool_core_def answer_head_def serve_head_def send_grant_def record_wait_def
          of_nat_diff Suc_le_eq)
  next
    case create
    with core mail' send q show ?thesis
      by (simp add: pool_core_def answer_head_def serve_head_def send_grant_def record_wait_def)
  qed
qed

lemma pool_core_dispatch [inv_intros]:
  assumes "pool_core next blocked extra kids p"
  shows "pool_core next blocked extra kids (pool_dispatch now p)"
  using assms
proof (rule pool.dispatch_invariant [of "pool_core next blocked extra kids" p now])
  fix t
  assume "pool_core next blocked extra kids t" "sp_waiters t \<noteq> []" "pool_can_answer t"
  then show "pool_core next blocked extra kids (answer_head now t)"
    by (cases "sp_waiters t") (auto intro: pool_core_answer)
qed

lemma core_open_room: "pool_core next blocked extra kids p \<Longrightarrow> sp_idle p \<noteq> [] \<Longrightarrow> \<not> sp_closed p"
  by (auto simp: pool_core_def)

text \<open>How each operation moves slots and children.\<close>

lemma core_enqueue [inv_intros]:
  assumes "pool_core r blocked extra kids p" and "pw_ref w = r"
    and "acquire_enqueue now w p = Inr p'"
  shows "pool_core (Suc r) (blocked @ [w]) extra kids p'"
proof -
  have "sp_chan p r = []" using assms(1) by (simp add: pool_core_def mailbox_inv_def)
  with assms(1,2) have "pool_core (Suc r) (blocked @ [w]) extra kids (p\<lparr>sp_waiters := sp_waiters p @ [w]\<rparr>)"
    by (auto simp: pool_core_def mailbox_enqueue)
  with assms(3) show ?thesis
    by (auto simp: acquire_enqueue_def pool_core_dispatch split: if_splits)
qed

lemma core_receive [inv_intros]:
  assumes core: "pool_core next blocked extra kids p" and w: "w \<in> set blocked"
    and rec: "receive_grant w p = Some (g, p')"
  shows "wf_grant g"
    and "pool_core next (remove1 w blocked) (extra + (if gr_err g then 0 else 1))
           (kids + (case gr_child g of None \<Rightarrow> {#} | Some c \<Rightarrow> {#c#})) p'"
    and "sp_active p' = sp_active p" and "sp_closed p' = sp_closed p" and "sp_limit p' = sp_limit p"
    and "sp_waiters p' = sp_waiters p" and "sp_idle p' = sp_idle p"
proof -
  have mail: "mailbox_inv pw_ref next blocked (sp_waiters p) (sp_chan p)"
    using core by (simp add: pool_core_def)
  obtain gs where chan: "sp_chan p (pw_ref w) = g # gs"
    and p': "p' = p\<lparr>sp_chan := (sp_chan p)(pw_ref w := gs)\<rparr>"
    using rec by (auto simp: receive_grant_def split: list.splits)
  with mail w have "gs = []"
    by (auto simp: mailbox_inv_def split: if_splits)
  with chan mail w have L: "pool_letters blocked p
      = add_mset g (letters pw_ref (remove1 w blocked) ((sp_chan p)(pw_ref w := [])))"
    by (intro letters_receive) (auto simp: mailbox_inv_def)
  show "wf_grant g" using core L by (simp add: pool_core_def)
  show "pool_core next (remove1 w blocked) (extra + (if gr_err g then 0 else 1))
      (kids + (case gr_child g of None \<Rightarrow> {#} | Some c \<Rightarrow> {#c#})) p'"
    using core L mailbox_receive [OF mail w chan] \<open>gs = []\<close>
    unfolding p' by (auto simp: pool_core_def ac_simps)
  show "sp_active p' = sp_active p" "sp_closed p' = sp_closed p" "sp_limit p' = sp_limit p"
    "sp_waiters p' = sp_waiters p" "sp_idle p' = sp_idle p"
    by (simp_all add: p')
qed

lemma core_free_slot [inv_intros]:
  assumes core: "pool_core next blocked extra kids p"
  shows "pool_core next blocked (extra - 1) kids (free_slot now p)"
proof -
  have "pool_core next blocked (extra - 1) kids (p\<lparr>sp_active := sp_active p - 1\<rparr>)"
    using core by (auto simp: pool_core_def)
  then show ?thesis by (simp add: free_slot_def pool_core_dispatch)
qed

lemma core_drop_kid: "pool_core next blocked extra (add_mset c kids) p \<Longrightarrow> pool_core next blocked extra kids p"
  unfolding pool_core_def by (auto elim!: unique_mset_mono)

lemma core_release [inv_intros]:
  assumes core: "pool_core next blocked extra (add_mset c kids) p"
    and rel: "release_child now reusable (Some c) p = (p', cl)"
  shows "pool_core next blocked (extra - 1) kids p'"
proof (cases "reusable \<and> \<not> sp_closed p \<and> sp_active p \<le> sp_limit p")
  case True
  with core have "pool_core next blocked (extra - 1) kids (p\<lparr>sp_idle := sp_idle p @ [c]\<rparr>)"
    by (auto simp: pool_core_def)
  with True rel show ?thesis
    by (auto simp: release_child_def pool_core_dispatch)
next
  case False
  with rel core_free_slot [OF core_drop_kid [OF core], of now] show ?thesis
    by (auto simp: release_child_def split: if_splits)
qed

lemma core_discard [inv_intros]:
  assumes "wf_grant g"
    and "pool_core next blocked (extra + (if gr_err g then 0 else 1))
           (kids + (case gr_child g of None \<Rightarrow> {#} | Some c \<Rightarrow> {#c#})) p"
  shows "pool_core next blocked extra kids (discard_grant now g p)"
proof (cases "gr_child g")
  case None
  with assms core_free_slot [of "next" blocked "extra + 1" kids p now] show ?thesis
    by (auto simp: discard_grant_def wf_grant_def split: if_splits)
next
  case (Some c)
  with assms core_release [of "next" blocked "extra + 1" c kids p now True] show ?thesis
    by (cases "release_child now True (Some c) p")
       (auto simp: discard_grant_def wf_grant_def split: if_splits)
qed

lemma core_abort [inv_intros]:
  assumes core: "pool_core next blocked extra kids p" and w: "w \<in> set blocked"
    and abort: "acquire_abort now w p = Some p'"
  shows "pool_core next (remove1 w blocked) extra kids p'"
proof (cases "drop_waiter (pw_ref w) (sp_waiters p)")
  case (Some ws)
  have mail: "mailbox_inv pw_ref next blocked (sp_waiters p) (sp_chan p)"
    using core by (simp add: pool_core_def)
  obtain xs v ys where "sp_waiters p = xs @ v # ys" "pw_ref v = pw_ref w"
    using Some remove_by_Some [of pw_ref] unfolding drop_waiter_def by blast
  with mail w have "w \<in> set (sp_waiters p)"
    by (auto simp: mailbox_inv_def dest: distinct_map_eqD)
  with mail w have "sp_chan p (pw_ref w) = []" by (auto simp: mailbox_inv_def)
  with letters_remove1 [OF w, of pw_ref "sp_chan p"]
  have "pool_letters blocked p = pool_letters (remove1 w blocked) p" by simp
  moreover have "mailbox_inv pw_ref next (remove1 w blocked) ws (sp_chan p)"
    using mailbox_leave [OF mail w] Some by (simp add: drop_waiter_def)
  ultimately have "pool_core next (remove1 w blocked) extra kids (p\<lparr>sp_waiters := ws\<rparr>)"
    using core by (auto simp: pool_core_def)
  with Some abort show ?thesis by (auto simp: acquire_abort_def pool_core_dispatch)
next
  case None
  then obtain g q where r: "receive_grant w p = Some (g, q)" and "p' = discard_grant now g q"
    using abort by (auto simp: acquire_abort_def)
  with core_discard [OF core_receive(1,2) [OF core w r]] show ?thesis by simp
qed

lemma core_replace [inv_intros]:
  assumes core: "pool_core next blocked extra kids p"
    and rep: "replace_unhealthy now p = (p', can)"
  shows "pool_core next blocked (if can then extra else extra - 1) kids p'"
proof -
  have drop: "pool_core next blocked (extra - 1) kids (p\<lparr>sp_active := sp_active p - 1\<rparr>)"
    using core by (auto simp: pool_core_def)
  show ?thesis
  proof (cases can)
    case True
    with rep have "p' = pool_dispatch now p" by (auto simp: replace_unhealthy_def Let_def split: if_splits)
    with True core show ?thesis by (simp add: pool_core_dispatch)
  next
    case False
    with rep have "p' = pool_dispatch now (p\<lparr>sp_active := sp_active p - 1\<rparr>)"
      by (auto simp: replace_unhealthy_def Let_def split: if_splits)
    with False drop show ?thesis by (simp add: pool_core_dispatch)
  qed
qed

lemma core_clear_idle:
  "pool_core next blocked extra kids p \<Longrightarrow>
    pool_core next blocked extra kids
      (p\<lparr>sp_idle := [], sp_active := sp_active p - int (length (sp_idle p))\<rparr>)"
  unfolding pool_core_def by (auto elim!: unique_mset_mono)

text \<open>Shrinking drops idle children from the end, until the limit is met or none is left.\<close>

lemma shrink_idle_closed_form:
  "shrink_idle limit p ov = (p', ov') \<Longrightarrow>
    \<exists>n \<le> length (sp_idle p).
      p' = p\<lparr>sp_idle := take n (sp_idle p),
             sp_active := sp_active p - int (length (sp_idle p) - n)\<rparr>
      \<and> ov' = ov @ rev (drop n (sp_idle p))
      \<and> (0 < n \<longrightarrow> sp_active p' \<le> limit)"
proof (induction limit p ov rule: shrink_idle.induct)
  case (1 limit p ov)
  show ?case
  proof (cases "sp_idle p \<noteq> [] \<and> (sp_active p > limit \<or> int (length (sp_idle p)) > limit)")
    case True
    let ?q = "p\<lparr>sp_idle := butlast (sp_idle p), sp_active := sp_active p - 1\<rparr>"
    obtain xs c where idle: "sp_idle p = xs @ [c]" using True by (cases "sp_idle p" rule: rev_cases) auto
    have "shrink_idle limit ?q (ov @ [last (sp_idle p)]) = (p', ov')"
      using "1.prems" True by (simp add: shrink_idle.simps [of limit p ov])
    from "1.IH" [OF True this] obtain n where n: "n \<le> length (sp_idle ?q)"
      "p' = ?q\<lparr>sp_idle := take n (sp_idle ?q),
                sp_active := sp_active ?q - int (length (sp_idle ?q) - n)\<rparr>"
      "ov' = (ov @ [last (sp_idle p)]) @ rev (drop n (sp_idle ?q))"
      "0 < n \<longrightarrow> sp_active p' \<le> limit" by blast
    then show ?thesis by (intro exI [of _ n]) (simp add: idle of_nat_diff)
  next
    case False
    with "1.prems" have "p' = p" "ov' = ov" by (simp_all add: shrink_idle.simps [of limit p ov])
    with False show ?thesis by (intro exI [of _ "length (sp_idle p)"]) auto
  qed
qed

lemma core_shrink:
  assumes core: "pool_core next blocked extra kids p"
    and shrink: "shrink_idle limit (p\<lparr>sp_limit := limit\<rparr>) [] = (p', ov)"
  shows "pool_core next blocked extra kids p'"
proof -
  let ?q = "p\<lparr>sp_limit := limit\<rparr>"
  obtain n where n: "n \<le> length (sp_idle ?q)" "0 < n \<longrightarrow> sp_active p' \<le> limit"
    and p': "p' = ?q\<lparr>sp_idle := take n (sp_idle ?q),
      sp_active := sp_active ?q - int (length (sp_idle ?q) - n)\<rparr>"
    using shrink_idle_closed_form [OF shrink] by blast
  have "mset (take n (sp_idle p)) \<subseteq># mset (sp_idle p)"
    by (metis append_take_drop_id mset_append mset_subset_eq_add_left)
  then have "mset (take n (sp_idle p)) + grant_kids (pool_letters blocked p) + kids
      \<subseteq># mset (sp_idle p) + grant_kids (pool_letters blocked p) + kids" by simp
  with core n p' show ?thesis
    by (auto simp: pool_core_def min_def of_nat_diff elim!: unique_mset_mono)
qed

lemma core_set_limit [inv_intros]:
  assumes "pool_core next blocked extra kids p" and "set_limit now limit p = (p', ov)"
  shows "pool_core next blocked extra kids p'"
proof -
  obtain q where "shrink_idle (clamp_pool_limit limit) (p\<lparr>sp_limit := clamp_pool_limit limit\<rparr>) []
      = (q, ov)" "p' = pool_dispatch now q"
    using assms(2) by (auto simp: set_limit_def Let_def split: prod.splits)
  with core_shrink [OF assms(1)] show ?thesis by (auto intro: pool_core_dispatch)
qed

lemma core_reset [inv_intros]:
  "pool_core next blocked extra kids p \<Longrightarrow> reset_pool now p = (p', ov) \<Longrightarrow>
    pool_core next blocked extra kids p'"
  by (auto simp: reset_pool_def intro!: pool_core_dispatch core_clear_idle)

lemma core_close [inv_intros]:
  assumes core: "pool_core next blocked extra kids p" and close: "close_pool now p = (p', ov)"
  shows "pool_core next blocked extra kids p'"
proof (cases "sp_closed p")
  case True
  with assms show ?thesis by (simp add: close_pool_def)
next
  case False
  have "pool_core next blocked extra kids
      (p\<lparr>sp_closed := True, sp_idle := [], sp_active := sp_active p - int (length (sp_idle p))\<rparr>)"
    using core_clear_idle [OF core] by (auto simp: pool_core_def)
  with False close show ?thesis by (auto simp: close_pool_def intro: pool_core_dispatch)
qed

subsection \<open>No idle capacity, no growth past the limit\<close>

definition pool_settled :: "subagent_pool \<Rightarrow> bool" where
  "pool_settled p \<longleftrightarrow> sp_waiters p = [] \<or> \<not> pool_can_answer p"

lemma settled_dispatch [inv_intros]: "pool_settled (pool_dispatch now p)"
  using pool.dispatch_exhausts [of now p] by (simp add: pool_settled_def)

lemma dispatch_limit [simp]: "sp_limit (pool_dispatch now p) = sp_limit p"
  by (rule pool.dispatch_unchanged)
     (auto simp: answer_head_def fail_head_def serve_head_def send_grant_def record_wait_def
       split: list.splits)

lemma dispatch_closed [simp]: "sp_closed (pool_dispatch now p) = sp_closed p"
  by (rule pool.dispatch_unchanged) simp

lemma dispatch_active: "sp_active (pool_dispatch now p) \<le> max (sp_active p) (sp_limit p)"
proof -
  have "sp_limit (pool_dispatch now p) = sp_limit p
      \<and> sp_active (pool_dispatch now p) \<le> max (sp_active p) (sp_limit p)"
    by (rule pool.dispatch_invariant
          [where I = "\<lambda>t. sp_limit t = sp_limit p \<and> sp_active t \<le> max (sp_active p) (sp_limit p)"])
       (auto simp: answer_head_def fail_head_def serve_head_def send_grant_def record_wait_def
         split: list.splits)
  then show ?thesis ..
qed

text \<open>
  \<open>pool_moves p p'\<close>: the pool is settled after the operation, and it grew only below its limit.
\<close>

definition pool_moves :: "subagent_pool \<Rightarrow> subagent_pool \<Rightarrow> bool" where
  "pool_moves p p' \<longleftrightarrow> pool_settled p' \<and> sp_active p' \<le> max (sp_active p) (sp_limit p')"

lemma moves_dispatch:
  "sp_active q \<le> max (sp_active p) (sp_limit q) \<Longrightarrow> pool_moves p (pool_dispatch now q)"
  using dispatch_active [of now q] by (auto simp: pool_moves_def settled_dispatch)

lemma moves_refl: "pool_settled p \<Longrightarrow> pool_moves p p"
  by (simp add: pool_moves_def)

lemma moves_enqueue [inv_intros]: "acquire_enqueue now w p = Inr p' \<Longrightarrow> pool_moves p p'"
  by (auto simp: acquire_enqueue_def intro: moves_dispatch split: if_splits)

lemma moves_receive [inv_intros]:
  "receive_grant w p = Some (g, p') \<Longrightarrow> pool_settled p \<Longrightarrow> pool_moves p p'"
  by (auto simp: receive_grant_def pool_moves_def pool_settled_def pool_can_answer_def
      pool_has_room_def split: list.splits)

lemma moves_free_slot [inv_intros]: "pool_moves p (free_slot now p)"
  by (auto simp: free_slot_def intro: moves_dispatch)

lemma moves_release [inv_intros]:
  "release_child now reusable (Some c) p = (p', cl) \<Longrightarrow> pool_moves p p'"
  by (auto simp: release_child_def intro: moves_dispatch moves_free_slot split: if_splits)

lemma moves_discard: "pool_settled p \<Longrightarrow> pool_moves p (discard_grant now g p)"
  by (cases "release_child now True (gr_child g) p")
     (auto simp: discard_grant_def intro: moves_release moves_free_slot moves_refl split: option.splits)

lemma receive_keeps:
  "receive_grant w p = Some (g, p') \<Longrightarrow>
    sp_active p' = sp_active p \<and> sp_limit p' = sp_limit p \<and> sp_closed p' = sp_closed p
    \<and> sp_waiters p' = sp_waiters p \<and> sp_idle p' = sp_idle p"
  by (auto simp: receive_grant_def split: list.splits)

lemma moves_abort [inv_intros]:
  "acquire_abort now w p = Some p' \<Longrightarrow> pool_settled p \<Longrightarrow> pool_moves p p'"
proof (cases "drop_waiter (pw_ref w) (sp_waiters p)")
  case None
  assume "acquire_abort now w p = Some p'" "pool_settled p"
  with None obtain g q where q: "receive_grant w p = Some (g, q)" "p' = discard_grant now g q"
    by (auto simp: acquire_abort_def)
  with \<open>pool_settled p\<close> have "pool_moves q p'"
    using moves_receive [OF q(1)] moves_discard [of q now g] by (simp add: pool_moves_def)
  then show ?thesis using receive_keeps [OF q(1)] by (simp add: pool_moves_def)
qed (auto simp: acquire_abort_def intro: moves_dispatch)

lemma moves_replace [inv_intros]: "replace_unhealthy now p = (p', can) \<Longrightarrow> pool_moves p p'"
  by (auto simp: replace_unhealthy_def Let_def intro: moves_dispatch split: if_splits)

lemma moves_set_limit [inv_intros]: "set_limit now limit p = (p', ov) \<Longrightarrow> pool_moves p p'"
proof -
  assume "set_limit now limit p = (p', ov)"
  then obtain q where "shrink_idle (clamp_pool_limit limit) (p\<lparr>sp_limit := clamp_pool_limit limit\<rparr>) []
      = (q, ov)" and p': "p' = pool_dispatch now q"
    by (auto simp: set_limit_def Let_def split: prod.splits)
  from shrink_idle_closed_form [OF this(1)] have "sp_active q \<le> sp_active p" by auto
  with p' show ?thesis by (auto intro: moves_dispatch)
qed

lemma moves_reset [inv_intros]: "reset_pool now p = (p', ov) \<Longrightarrow> pool_moves p p'"
  by (auto simp: reset_pool_def intro: moves_dispatch)

lemma moves_close [inv_intros]:
  "close_pool now p = (p', ov) \<Longrightarrow> pool_settled p \<Longrightarrow> pool_moves p p'"
  by (auto simp: close_pool_def intro: moves_dispatch moves_refl split: if_splits)

subsection \<open>Interleavings\<close>

text \<open>
  The goroutines that share the pool: \<open>ps_blocked\<close> are inside the \<^verbatim>\<open>select\<close> of
  \<^verbatim>\<open>AcquireWithStart\<close>, \<open>ps_pinging\<close> in the health check of their child, \<open>ps_creating\<close> counts
  those in the process factory, \<open>ps_in_use\<close> are the children whose release function has not
  run yet. A receive from a caller's own channel is one step with what the caller does next
  up to its next call or critical section. The factory returns a process object no other
  goroutine holds; \<^verbatim>\<open>sync.Once\<close> is the removal of a child from \<open>ps_in_use\<close>.
\<close>

record pool_sys =
  ps_pool :: subagent_pool
  ps_blocked :: "pool_waiter list"
  ps_pinging :: "child list"
  ps_creating :: nat
  ps_in_use :: "child list"
  ps_next :: nat

definition init_pool_sys :: "int \<Rightarrow> pool_sys" where
  "init_pool_sys limit =
     \<lparr>ps_pool = new_pool limit, ps_blocked = [], ps_pinging = [], ps_creating = 0,
      ps_in_use = [], ps_next = 0\<rparr>"

definition held_children :: "pool_sys \<Rightarrow> child multiset" where
  "held_children s =
     mset (sp_idle (ps_pool s)) + grant_kids (pool_letters (ps_blocked s) (ps_pool s))
     + mset (ps_pinging s) + mset (ps_in_use s)"

inductive pool_step :: "pool_sys \<Rightarrow> pool_sys \<Rightarrow> bool" where
  pool_acquire:
    "acquire_enqueue now w (ps_pool s) = Inr p' \<Longrightarrow> pw_ref w = ps_next s \<Longrightarrow>
     pool_step s (s\<lparr>ps_pool := p', ps_blocked := ps_blocked s @ [w], ps_next := Suc (ps_next s)\<rparr>)"
| pool_grant_error:
    "w \<in> set (ps_blocked s) \<Longrightarrow> receive_grant w (ps_pool s) = Some (g, p') \<Longrightarrow>
     accept_grant g has_ping = Return_Error \<Longrightarrow>
     pool_step s (s\<lparr>ps_pool := p', ps_blocked := remove1 w (ps_blocked s)\<rparr>)"
| pool_grant_used:
    "w \<in> set (ps_blocked s) \<Longrightarrow> receive_grant w (ps_pool s) = Some (g, p') \<Longrightarrow>
     accept_grant g has_ping = Use_Child (Some c) \<Longrightarrow>
     pool_step s (s\<lparr>ps_pool := p', ps_blocked := remove1 w (ps_blocked s),
       ps_in_use := c # ps_in_use s\<rparr>)"
| pool_grant_pinged:
    "w \<in> set (ps_blocked s) \<Longrightarrow> receive_grant w (ps_pool s) = Some (g, p') \<Longrightarrow>
     accept_grant g has_ping = Ping_Child c \<Longrightarrow>
     pool_step s (s\<lparr>ps_pool := p', ps_blocked := remove1 w (ps_blocked s),
       ps_pinging := c # ps_pinging s\<rparr>)"
| pool_grant_create:
    "w \<in> set (ps_blocked s) \<Longrightarrow> receive_grant w (ps_pool s) = Some (g, p') \<Longrightarrow>
     accept_grant g has_ping = Create_Child \<Longrightarrow>
     pool_step s (s\<lparr>ps_pool := p', ps_blocked := remove1 w (ps_blocked s),
       ps_creating := Suc (ps_creating s)\<rparr>)"
| pool_ping_ok:
    "c \<in> set (ps_pinging s) \<Longrightarrow>
     pool_step s (s\<lparr>ps_pinging := remove1 c (ps_pinging s), ps_in_use := c # ps_in_use s\<rparr>)"
| pool_ping_replaced:
    "c \<in> set (ps_pinging s) \<Longrightarrow> replace_unhealthy now (ps_pool s) = (p', True) \<Longrightarrow>
     pool_step s (s\<lparr>ps_pool := p', ps_pinging := remove1 c (ps_pinging s),
       ps_creating := Suc (ps_creating s)\<rparr>)"
| pool_ping_retry:
    "c \<in> set (ps_pinging s) \<Longrightarrow> replace_unhealthy now (ps_pool s) = (p', False) \<Longrightarrow>
     pool_step s (s\<lparr>ps_pool := p', ps_pinging := remove1 c (ps_pinging s)\<rparr>)"
| pool_created:
    "ps_creating s = Suc n \<Longrightarrow> c \<notin># held_children s \<Longrightarrow>
     pool_step s (s\<lparr>ps_creating := n, ps_in_use := c # ps_in_use s\<rparr>)"
| pool_create_failed:
    "ps_creating s = Suc n \<Longrightarrow>
     pool_step s (s\<lparr>ps_pool := free_slot now (ps_pool s), ps_creating := n\<rparr>)"
| pool_released:
    "c \<in> set (ps_in_use s) \<Longrightarrow> release_child now reusable (Some c) (ps_pool s) = (p', cl) \<Longrightarrow>
     pool_step s (s\<lparr>ps_pool := p', ps_in_use := remove1 c (ps_in_use s)\<rparr>)"
| pool_aborted:
    "w \<in> set (ps_blocked s) \<Longrightarrow> acquire_abort now w (ps_pool s) = Some p' \<Longrightarrow>
     pool_step s (s\<lparr>ps_pool := p', ps_blocked := remove1 w (ps_blocked s)\<rparr>)"
| pool_limit_set:
    "set_limit now limit (ps_pool s) = (p', overflow) \<Longrightarrow> pool_step s (s\<lparr>ps_pool := p'\<rparr>)"
| pool_was_reset:
    "reset_pool now (ps_pool s) = (p', dropped) \<Longrightarrow> pool_step s (s\<lparr>ps_pool := p'\<rparr>)"
| pool_was_closed:
    "close_pool now (ps_pool s) = (p', dropped) \<Longrightarrow> pool_step s (s\<lparr>ps_pool := p'\<rparr>)"

inductive pool_reachable :: "int \<Rightarrow> pool_sys \<Rightarrow> bool" for limit where
  pool_init: "pool_reachable limit (init_pool_sys limit)"
| pool_next: "pool_reachable limit s \<Longrightarrow> pool_step s t \<Longrightarrow> pool_reachable limit t"

definition pool_outstanding :: "pool_sys \<Rightarrow> nat" where
  "pool_outstanding s = length (ps_pinging s) + ps_creating s + length (ps_in_use s)"

definition pool_sys_inv :: "pool_sys \<Rightarrow> bool" where
  "pool_sys_inv s \<longleftrightarrow>
     pool_core (ps_next s) (ps_blocked s) (int (pool_outstanding s))
       (mset (ps_pinging s) + mset (ps_in_use s)) (ps_pool s)
     \<and> pool_settled (ps_pool s)"

lemma take_out_child:
  assumes "c \<in> set xs"
  obtains ys where "remove1 c xs = ys" "mset xs = add_mset c (mset ys)" "length xs = Suc (length ys)"
proof (rule that [OF refl])
  show "mset xs = add_mset c (mset (remove1 c xs))" using assms by simp
  have "length xs \<noteq> 0" using assms by (cases xs) auto
  with assms show "length xs = Suc (length (remove1 c xs))" by (simp add: length_remove1)
qed

lemma core_resize:
  "pool_core next blocked extra kids p \<Longrightarrow> extra = extra' \<Longrightarrow> kids' \<subseteq># kids \<Longrightarrow>
    pool_core next blocked extra' kids' p"
  unfolding pool_core_def by (auto elim!: unique_mset_mono)

lemma core_fresh_child:
  "pool_core next blocked extra kids p \<Longrightarrow>
    c \<notin># mset (sp_idle p) + grant_kids (pool_letters blocked p) + kids \<Longrightarrow>
    pool_core next blocked extra (add_mset c kids) p"
  unfolding pool_core_def by (auto simp: unique_mset_add)

lemma core_accept:
  assumes core: "pool_core next blocked extra kids p" and w: "w \<in> set blocked"
    and rec: "receive_grant w p = Some (g, p')"
  shows "accept_grant g has_ping = Return_Error \<Longrightarrow>
      pool_core next (remove1 w blocked) extra kids p'"
    and "accept_grant g has_ping = Use_Child (Some c) \<Longrightarrow>
      pool_core next (remove1 w blocked) (extra + 1) (add_mset c kids) p'"
    and "accept_grant g has_ping = Ping_Child c \<Longrightarrow>
      pool_core next (remove1 w blocked) (extra + 1) (add_mset c kids) p'"
    and "accept_grant g has_ping = Create_Child \<Longrightarrow>
      pool_core next (remove1 w blocked) (extra + 1) kids p'"
  using core_receive(1,2) [OF assms]
  by (auto simp: accept_grant_def wf_grant_def split: if_splits option.splits)

lemma pool_sys_inv_step: "pool_step s t \<Longrightarrow> pool_sys_inv s \<Longrightarrow> pool_sys_inv t"
proof (induction rule: pool_step.induct)
  case (pool_acquire now w s p')
  then show ?case
    using core_enqueue [of "ps_next s" "ps_blocked s"] moves_enqueue
    by (auto simp: pool_sys_inv_def pool_moves_def pool_outstanding_def)
next
  case (pool_grant_error w s g p' has_ping)
  then show ?case
    using core_accept(1) moves_receive
    by (auto simp: pool_sys_inv_def pool_moves_def pool_outstanding_def)
next
  case (pool_grant_used w s g p' has_ping c)
  then show ?case
    using core_accept(2) [OF _ pool_grant_used(1,2,3)] moves_receive
    by (fastforce simp: pool_sys_inv_def pool_moves_def pool_outstanding_def ac_simps)
next
  case (pool_grant_pinged w s g p' has_ping c)
  then show ?case
    using core_accept(3) [OF _ pool_grant_pinged(1,2,3)] moves_receive
    by (fastforce simp: pool_sys_inv_def pool_moves_def pool_outstanding_def ac_simps)
next
  case (pool_grant_create w s g p' has_ping)
  then show ?case
    using core_accept(4) [OF _ pool_grant_create(1,2,3)] moves_receive
    by (fastforce simp: pool_sys_inv_def pool_moves_def pool_outstanding_def ac_simps)
next
  case (pool_ping_ok c s)
  from pool_ping_ok(1) obtain ys where
    "remove1 c (ps_pinging s) = ys" "mset (ps_pinging s) = add_mset c (mset ys)"
    "length (ps_pinging s) = Suc (length ys)" by (rule take_out_child)
  with pool_ping_ok(2) show ?case
    by (simp add: pool_sys_inv_def pool_outstanding_def)
next
  case (pool_ping_replaced c s now p')
  from pool_ping_replaced(1) obtain ys where
    "remove1 c (ps_pinging s) = ys" "mset (ps_pinging s) = add_mset c (mset ys)"
    "length (ps_pinging s) = Suc (length ys)" by (rule take_out_child)
  with pool_ping_replaced(3) core_drop_kid [OF core_replace [OF _ pool_ping_replaced(2), simplified],
      of "ps_next s" "ps_blocked s" "int (pool_outstanding s)" c "mset ys + mset (ps_in_use s)"]
    moves_replace [OF pool_ping_replaced(2)] show ?case
    by (simp add: pool_sys_inv_def pool_outstanding_def pool_moves_def)
next
  case (pool_ping_retry c s now p')
  from pool_ping_retry(1) obtain ys where
    "remove1 c (ps_pinging s) = ys" "mset (ps_pinging s) = add_mset c (mset ys)"
    "length (ps_pinging s) = Suc (length ys)" by (rule take_out_child)
  with pool_ping_retry(3) core_drop_kid [OF core_replace [OF _ pool_ping_retry(2), simplified],
      of "ps_next s" "ps_blocked s" "int (pool_outstanding s)" c "mset ys + mset (ps_in_use s)"]
    moves_replace [OF pool_ping_retry(2)] show ?case
    by (simp add: pool_sys_inv_def pool_outstanding_def pool_moves_def)
next
  case (pool_created s n c)
  then show ?case
    using core_fresh_child [of "ps_next s" "ps_blocked s" _ _ "ps_pool s" c]
    by (auto simp: pool_sys_inv_def pool_outstanding_def held_children_def ac_simps)
next
  case (pool_create_failed s n now)
  then show ?case
    using core_free_slot [of "ps_next s" "ps_blocked s"] moves_free_slot [of "ps_pool s" now]
    by (fastforce simp: pool_sys_inv_def pool_outstanding_def pool_moves_def)
next
  case (pool_released c s now reusable p' cl)
  from pool_released(1) obtain ys where
    "remove1 c (ps_in_use s) = ys" "mset (ps_in_use s) = add_mset c (mset ys)"
    "length (ps_in_use s) = Suc (length ys)" by (rule take_out_child)
  with pool_released(3) core_release [OF _ pool_released(2), of "ps_next s" "ps_blocked s"
      "int (pool_outstanding s)" "mset (ps_pinging s) + mset ys"]
    moves_release [OF pool_released(2)] show ?case
    by (simp add: pool_sys_inv_def pool_outstanding_def pool_moves_def)
next
  case (pool_aborted w s now p')
  then show ?case
    using core_abort moves_abort
    by (auto simp: pool_sys_inv_def pool_outstanding_def pool_moves_def)
next
  case (pool_limit_set now limit s p' overflow)
  then show ?case
    using core_set_limit moves_set_limit
    by (auto simp: pool_sys_inv_def pool_outstanding_def pool_moves_def)
next
  case (pool_was_reset now s p' dropped)
  then show ?case
    using core_reset moves_reset
    by (auto simp: pool_sys_inv_def pool_outstanding_def pool_moves_def)
next
  case (pool_was_closed now s p' dropped)
  then show ?case
    using core_close moves_close
    by (auto simp: pool_sys_inv_def pool_outstanding_def pool_moves_def)
qed

lemma pool_sys_inv_init: "pool_sys_inv (init_pool_sys limit)"
  by (simp add: pool_sys_inv_def init_pool_sys_def new_pool_def pool_core_def pool_settled_def
      pool_outstanding_def mailbox_empty unique_mset_def)

lemma pool_reachable_inv: "pool_reachable limit s \<Longrightarrow> pool_sys_inv s"
  by (induction rule: pool_reachable.induct) (auto intro: pool_sys_inv_init pool_sys_inv_step)

lemma pool_step_moves:
  assumes "pool_step s t" and "pool_settled (ps_pool s)"
  shows "pool_moves (ps_pool s) (ps_pool t)"
  using assms
  by (induction rule: pool_step.induct)
     (auto intro: moves_enqueue moves_receive moves_refl moves_replace moves_free_slot moves_release
       moves_abort moves_set_limit moves_reset moves_close)

lemma clamp_pool_limit_range: "1 \<le> clamp_pool_limit l \<and> clamp_pool_limit l \<le> max_pool_size"
  by (simp add: clamp_pool_limit_def Let_def default_pool_size_def max_pool_size_def)

lemma set_limit_limit: "set_limit now l p = (p', ov) \<Longrightarrow> sp_limit p' = clamp_pool_limit l"
  using shrink_idle_closed_form [of "clamp_pool_limit l" "p\<lparr>sp_limit := clamp_pool_limit l\<rparr>" "[]"]
  by (fastforce simp: set_limit_def Let_def split: prod.splits)

lemma discard_limit: "sp_limit (discard_grant now g p) = sp_limit p"
  by (auto simp: discard_grant_def release_child_def free_slot_def split: option.splits)

lemma abort_limit: "acquire_abort now w p = Some p' \<Longrightarrow> sp_limit p' = sp_limit p"
  by (auto simp: acquire_abort_def discard_limit dest: receive_keeps split: option.splits)

lemma pool_step_limit:
  "pool_step s t \<Longrightarrow>
    sp_limit (ps_pool t) = sp_limit (ps_pool s) \<or> (\<exists>l. sp_limit (ps_pool t) = clamp_pool_limit l)"
  by (induction rule: pool_step.induct)
     (auto simp: acquire_enqueue_def replace_unhealthy_def Let_def free_slot_def release_child_def
       reset_pool_def close_pool_def dest: receive_keeps abort_limit set_limit_limit
       split: if_splits)

lemma pool_reachable_bounds:
  "pool_reachable limit s \<Longrightarrow>
    1 \<le> sp_limit (ps_pool s) \<and> sp_limit (ps_pool s) \<le> max_pool_size
    \<and> sp_active (ps_pool s) \<le> max_pool_size"
proof (induction rule: pool_reachable.induct)
  case pool_init
  show ?case
    using clamp_pool_limit_range [of limit]
    by (simp add: init_pool_sys_def new_pool_def max_pool_size_def)
next
  case (pool_next s t)
  have "pool_settled (ps_pool s)"
    using pool_reachable_inv [OF pool_next.hyps(1)] by (simp add: pool_sys_inv_def)
  then have "sp_active (ps_pool t) \<le> max (sp_active (ps_pool s)) (sp_limit (ps_pool t))"
    using pool_step_moves [OF pool_next.hyps(2)] by (simp add: pool_moves_def)
  moreover have "1 \<le> sp_limit (ps_pool t) \<and> sp_limit (ps_pool t) \<le> max_pool_size"
    using pool_step_limit [OF pool_next.hyps(2)] pool_next.IH clamp_pool_limit_range by auto
  ultimately show ?case using pool_next.IH by (auto simp: max_def split: if_splits)
qed

text \<open>The queue is only ever served from its front; a caller leaves it otherwise only by itself.\<close>

definition queue_moves :: "pool_waiter list \<Rightarrow> pool_waiter list \<Rightarrow> bool" where
  "queue_moves ws ws' \<longleftrightarrow>
     suffix ws' ws \<or> (\<exists>w. suffix ws' (ws @ [w]))
     \<or> (\<exists>xs w ys. ws = xs @ w # ys \<and> suffix ws' (xs @ ys))"

lemma queue_dispatch: "suffix (sp_waiters (pool_dispatch now p)) (sp_waiters p)"
  by (rule pool.dispatch_queue_suffix)

lemma queue_free_slot: "suffix (sp_waiters (free_slot now p)) (sp_waiters p)"
  using queue_dispatch [of now "p\<lparr>sp_active := sp_active p - 1\<rparr>"] by (simp add: free_slot_def)

lemma queue_release:
  "release_child now reusable c p = (p', cl) \<Longrightarrow> suffix (sp_waiters p') (sp_waiters p)"
  using queue_free_slot [of now p] queue_dispatch [of now "p\<lparr>sp_idle := sp_idle p @ [the c]\<rparr>"]
  by (auto simp: release_child_def split: option.splits if_splits)

lemma queue_discard: "suffix (sp_waiters (discard_grant now g p)) (sp_waiters p)"
  using queue_free_slot [of now p] queue_release [of now True "gr_child g" p]
  by (cases "release_child now True (gr_child g) p")
     (auto simp: discard_grant_def split: option.splits)

lemma queue_abort:
  assumes "acquire_abort now w p = Some p'"
  shows "queue_moves (sp_waiters p) (sp_waiters p')"
proof (cases "drop_waiter (pw_ref w) (sp_waiters p)")
  case None
  with assms obtain g q where q: "receive_grant w p = Some (g, q)" "p' = discard_grant now g q"
    by (auto simp: acquire_abort_def)
  with queue_discard [of now g q] receive_keeps [OF q(1)] show ?thesis
    by (simp add: queue_moves_def)
next
  case (Some ws)
  with assms have p': "p' = pool_dispatch now (p\<lparr>sp_waiters := ws\<rparr>)" by (simp add: acquire_abort_def)
  obtain xs v ys where "sp_waiters p = xs @ v # ys" "ws = xs @ ys"
    using Some remove_by_Some [of pw_ref] unfolding drop_waiter_def by blast
  with queue_dispatch [of now "p\<lparr>sp_waiters := ws\<rparr>"] p' show ?thesis
    by (auto simp: queue_moves_def)
qed

lemma queue_set_limit:
  assumes "set_limit now l p = (p', ov)"
  shows "suffix (sp_waiters p') (sp_waiters p)"
proof -
  obtain q where s: "shrink_idle (clamp_pool_limit l) (p\<lparr>sp_limit := clamp_pool_limit l\<rparr>) [] = (q, ov)"
    and p': "p' = pool_dispatch now q"
    using assms by (auto simp: set_limit_def Let_def split: prod.splits)
  have "sp_waiters q = sp_waiters p" using shrink_idle_closed_form [OF s] by auto
  with queue_dispatch [of now q] p' show ?thesis by simp
qed

lemma queue_replace: "replace_unhealthy now p = (p', can) \<Longrightarrow> suffix (sp_waiters p') (sp_waiters p)"
  using queue_dispatch [of now p] queue_dispatch [of now "p\<lparr>sp_active := sp_active p - 1\<rparr>"]
  by (auto simp: replace_unhealthy_def Let_def split: if_splits)

lemma queue_enqueue:
  "acquire_enqueue now w p = Inr p' \<Longrightarrow> suffix (sp_waiters p') (sp_waiters p @ [w])"
  using queue_dispatch [of now "p\<lparr>sp_waiters := sp_waiters p @ [w]\<rparr>"]
  by (auto simp: acquire_enqueue_def split: if_splits)

lemma queue_clear:
  "reset_pool now p = (p', ov) \<Longrightarrow> suffix (sp_waiters p') (sp_waiters p)"
  "close_pool now p = (p', ov) \<Longrightarrow> suffix (sp_waiters p') (sp_waiters p)"
  using queue_dispatch [of now "p\<lparr>sp_idle := [], sp_active := sp_active p - int (length (sp_idle p))\<rparr>"]
    queue_dispatch [of now "p\<lparr>sp_closed := True, sp_idle := [],
      sp_active := sp_active p - int (length (sp_idle p))\<rparr>"]
  by (auto simp: reset_pool_def close_pool_def split: if_splits)

subsection \<open>Properties\<close>

definition witness_waiter :: "nat \<Rightarrow> pool_waiter" where
  "witness_waiter r = \<lparr>pw_ref = r, pw_enqueued_at = 0\<rparr>"

text \<open>A pool of limit 1 after two calls: one holds the right to create, one is queued.\<close>

definition witness_pool :: pool_sys where
  "witness_pool =
     \<lparr>ps_pool = \<lparr>sp_limit = 1, sp_active = 1, sp_idle = [], sp_waiters = [witness_waiter 1],
        sp_closed = False, sp_total_waits = 1, sp_last_wait = 0, sp_max_wait = 0,
        sp_chan = (\<lambda>_. [])(0 := [\<lparr>gr_child = None, gr_create = True, gr_err = False\<rparr>])\<rparr>,
      ps_blocked = [witness_waiter 0, witness_waiter 1], ps_pinging = [], ps_creating = 0,
      ps_in_use = [], ps_next = 2\<rparr>"

lemma witness_pool_reachable: "pool_reachable 1 witness_pool"
proof -
  note evals = acquire_enqueue_def pool_dispatch_def serve_waiters.simps pool_has_room_def
    serve_head_def send_grant_def record_wait_def init_pool_sys_def new_pool_def
    clamp_pool_limit_def max_pool_size_def witness_waiter_def
  define s0 where "s0 = init_pool_sys 1"
  define p1 where "p1 = projr (acquire_enqueue (\<lambda>_. 0) (witness_waiter 0) (ps_pool s0))"
  define p2 where "p2 = projr (acquire_enqueue (\<lambda>_. 0) (witness_waiter 1) p1)"
  define s1 where "s1 = s0\<lparr>ps_pool := p1, ps_blocked := ps_blocked s0 @ [witness_waiter 0],
    ps_next := Suc (ps_next s0)\<rparr>"
  have "pool_step s0 s1"
    unfolding s1_def by (rule pool_acquire [of "\<lambda>_. 0"]) (simp_all add: s0_def p1_def evals)
  moreover have "pool_step s1 (s1\<lparr>ps_pool := p2, ps_blocked := ps_blocked s1 @ [witness_waiter 1],
      ps_next := Suc (ps_next s1)\<rparr>)" (is "pool_step s1 ?s2")
    by (rule pool_acquire [of "\<lambda>_. 0"]) (simp_all add: s0_def s1_def p1_def p2_def evals)
  moreover have "?s2 = witness_pool"
    by (simp add: witness_pool_def s0_def s1_def p1_def p2_def evals)
  ultimately show ?thesis
    using pool_init [of 1] unfolding s0_def by (metis pool_next)
qed

text \<open>
  C3. Capacity never leaks. In every reachable state \<^verbatim>\<open>active\<close> is exactly the idle children
  plus the grants on their way to a caller plus the callers in a health check, in the process
  factory or using their child; so once every call has returned and every child is released,
  all that is counted active is idle and can be handed out again.
\<close>

theorem pool_slot_accounting:
  assumes "pool_reachable limit s"
  shows "sp_active (ps_pool s) = int (length (sp_idle (ps_pool s)))
      + grant_slots (pool_letters (ps_blocked s) (ps_pool s)) + int (pool_outstanding s)
    \<and> (ps_blocked s = [] \<and> pool_outstanding s = 0 \<longrightarrow>
        sp_active (ps_pool s) = int (length (sp_idle (ps_pool s))))
    \<and> 0 \<le> st_in_use (pool_status_of (ps_pool s))"
  using pool_reachable_inv [OF assms]
  by (auto simp: pool_sys_inv_def pool_core_def pool_status_of_def grant_slots_def)

theorem pool_slot_accounting_witness:
  "grant_slots (pool_letters (ps_blocked witness_pool) (ps_pool witness_pool)) = 1"
  using pool_slot_accounting [OF witness_pool_reachable]
  by (simp add: witness_pool_def pool_outstanding_def)

text \<open>
  C4. A child process has one holder: in every reachable state each child is at most once
  among the idle list, the grants in flight, the children being health-checked and those in
  use, so no two callers are ever given the same process.
\<close>

theorem pool_children_exclusive:
  assumes "pool_reachable limit s"
  shows "\<forall>c. count (held_children s) c \<le> 1"
  using pool_reachable_inv [OF assms]
  by (auto simp: pool_sys_inv_def pool_core_def held_children_def unique_mset_def add.assoc)

theorem pool_children_exclusive_witness: "count (held_children witness_pool) 0 \<le> 1"
  using pool_children_exclusive [OF witness_pool_reachable] by blast

text \<open>
  The pool stays within its bounds: in every reachable state the limit is between 1 and 8
  and at most 8 children exist or are reserved, and no step makes their number grow past the
  limit it leaves; after a shrink they only become fewer until the limit is met.
\<close>

theorem pool_bounded:
  assumes "pool_reachable limit s" and "pool_step s t"
  shows "1 \<le> sp_limit (ps_pool s) \<and> sp_limit (ps_pool s) \<le> 8 \<and> sp_active (ps_pool s) \<le> 8
    \<and> sp_active (ps_pool t) \<le> max (sp_active (ps_pool s)) (sp_limit (ps_pool t))"
  using pool_reachable_bounds [OF assms(1)] pool_reachable_inv [OF assms(1)]
    pool_step_moves [OF assms(2)]
  by (simp add: pool_sys_inv_def pool_moves_def max_pool_size_def)

lemma witness_pool_step:
  "pool_step witness_pool (witness_pool\<lparr>ps_pool := snd (the (receive_grant (witness_waiter 0)
     (ps_pool witness_pool))), ps_blocked := [witness_waiter 1], ps_creating := 1\<rparr>)"
  using pool_grant_create [of "witness_waiter 0" witness_pool
      "\<lparr>gr_child = None, gr_create = True, gr_err = False\<rparr>"
      "snd (the (receive_grant (witness_waiter 0) (ps_pool witness_pool)))" "\<lambda>_. True"]
  by (simp add: witness_pool_def receive_grant_def witness_waiter_def accept_grant_def)

theorem pool_bounded_witness:
  "sp_limit (ps_pool witness_pool) \<le> 8 \<and> sp_active (ps_pool witness_pool) \<le> 8"
  using pool_bounded [OF witness_pool_reachable witness_pool_step] by simp

text \<open>
  C5. Nobody waits without reason and nobody is forgotten: in every reachable state a caller
  blocked in \<^verbatim>\<open>Acquire\<close> is queued, or has exactly one grant in its channel; callers are queued
  only while the pool is open with no idle child it may hand out and no slot to create one;
  a closed pool has neither waiters nor idle children.
\<close>

theorem pool_no_lost_caller:
  assumes "pool_reachable limit s"
  shows "(\<forall>w \<in> set (ps_blocked s).
       if w \<in> set (sp_waiters (ps_pool s)) then sp_chan (ps_pool s) (pw_ref w) = []
       else \<exists>g. sp_chan (ps_pool s) (pw_ref w) = [g])
    \<and> set (sp_waiters (ps_pool s)) \<subseteq> set (ps_blocked s)
    \<and> (sp_waiters (ps_pool s) \<noteq> [] \<longrightarrow> \<not> sp_closed (ps_pool s) \<and> \<not> pool_has_room (ps_pool s))
    \<and> (sp_closed (ps_pool s) \<longrightarrow> sp_waiters (ps_pool s) = [] \<and> sp_idle (ps_pool s) = [])"
  using pool_reachable_inv [OF assms]
  by (auto simp: pool_sys_inv_def pool_core_def pool_settled_def pool_can_answer_def
      mailbox_inv_def length_Suc_conv)

theorem pool_no_lost_caller_witness:
  "\<not> pool_has_room (ps_pool witness_pool)"
  using pool_no_lost_caller [OF witness_pool_reachable] by (simp add: witness_pool_def)

text \<open>
  Waiters are served first come, first served: whatever a step does, the queue after it
  is what remains of the queue before it after serving some callers from the front, once the
  step's own caller has joined at the end or given up its place.
\<close>

theorem pool_fifo:
  assumes "pool_step s t"
  shows "queue_moves (sp_waiters (ps_pool s)) (sp_waiters (ps_pool t))"
  using assms
proof (induction rule: pool_step.induct)
  case (pool_aborted w s now p')
  then show ?case by (simp add: queue_abort)
next
  case (pool_acquire now w s p')
  from queue_enqueue [OF pool_acquire(1)] show ?case by (auto simp: queue_moves_def simp del: suffix_snoc)
qed (auto simp: queue_moves_def queue_free_slot
    dest: receive_keeps queue_enqueue queue_replace queue_release queue_set_limit queue_clear)

theorem pool_fifo_witness:
  "queue_moves [witness_waiter 1] (sp_waiters (snd (the (receive_grant (witness_waiter 0)
     (ps_pool witness_pool)))))"
  using pool_fifo [OF witness_pool_step] by (simp add: witness_pool_def)

text \<open>
  \<^verbatim>\<open>SetLimit\<close> clamps the limit to 1..8 and closes idle children only as far as needed: it
  closes those released last, and then the pool meets the new limit or has closed every idle
  child.
\<close>

theorem set_limit_shrinks:
  assumes "set_limit now limit p = (p', closed_children)"
  shows "sp_limit p' = clamp_pool_limit limit \<and> 1 \<le> sp_limit p' \<and> sp_limit p' \<le> max_pool_size
    \<and> suffix (rev closed_children) (sp_idle p)
    \<and> (sp_active p' \<le> sp_limit p' \<or> closed_children = rev (sp_idle p))"
proof -
  let ?l = "clamp_pool_limit limit"
  obtain q where q: "shrink_idle ?l (p\<lparr>sp_limit := ?l\<rparr>) [] = (q, closed_children)"
    and p': "p' = pool_dispatch now q"
    using assms by (auto simp: set_limit_def Let_def split: prod.splits)
  let ?p = "p\<lparr>sp_limit := ?l\<rparr>"
  obtain n where n: "q = ?p\<lparr>sp_idle := take n (sp_idle ?p),
      sp_active := sp_active ?p - int (length (sp_idle ?p) - n)\<rparr>"
    "closed_children = [] @ rev (drop n (sp_idle ?p))" "0 < n \<longrightarrow> sp_active q \<le> ?l"
    using shrink_idle_closed_form [OF q] by blast
  then have "sp_limit p' = ?l" by (simp add: p')
  moreover have "suffix (rev closed_children) (sp_idle p)" using n by (simp add: suffix_drop)
  moreover have "sp_active p' \<le> ?l \<or> closed_children = rev (sp_idle p)"
  proof (cases "n = 0")
    case False
    with n have "sp_active q \<le> ?l" "sp_limit q = ?l" by simp_all
    with dispatch_active [of now q] show ?thesis by (simp add: p')
  qed (use n in simp)
  ultimately show ?thesis using clamp_pool_limit_range [of limit] by simp
qed

theorem set_limit_shrinks_witness:
  "\<exists>p'. set_limit (\<lambda>_. 0) 1 (\<lparr>sp_limit = 4, sp_active = 3, sp_idle = [7, 8], sp_waiters = [],
      sp_closed = False, sp_total_waits = 0, sp_last_wait = 0, sp_max_wait = 0,
      sp_chan = \<lambda>_. []\<rparr>) = (p', [8, 7]) \<and> sp_limit p' = 1"
proof -
  let ?p = "\<lparr>sp_limit = 4, sp_active = 3, sp_idle = [7, 8], sp_waiters = [], sp_closed = False,
      sp_total_waits = 0, sp_last_wait = 0, sp_max_wait = 0, sp_chan = \<lambda>_. []\<rparr> :: subagent_pool"
  have "snd (set_limit (\<lambda>_. 0) 1 ?p) = [8, 7]"
    by (simp add: set_limit_def Let_def clamp_pool_limit_def max_pool_size_def shrink_idle.simps
        split: prod.splits)
  then obtain p' where eq: "set_limit (\<lambda>_. 0) 1 ?p = (p', [8, 7])"
    by (cases "set_limit (\<lambda>_. 0) 1 ?p") auto
  from set_limit_shrinks [OF eq] eq show ?thesis
    by (auto simp: clamp_pool_limit_def max_pool_size_def)
qed

end
