(* ===== verification/Tool_Table.thy ===== *)
theory Tool_Table
  imports Go_Strings
begin

text \<open>
  The tools the Agent Runtime offers (\<^verbatim>\<open>AvailableTools\<close> of \<^verbatim>\<open>runtime/tools.go\<close>): one
  definition per entry, with its risk class, its texts and its JSON schema, and the table of
  all of them in the order of the code. The types are those of \<^verbatim>\<open>protocol/tools/tools.go\<close>.
\<close>

type_synonym tool_risk = string

definition risk_low :: tool_risk where "risk_low = ''low''"
definition risk_medium :: tool_risk where "risk_medium = ''medium''"
definition risk_high :: tool_risk where "risk_high = ''high''"

lemmas risk_defs = risk_low_def risk_medium_def risk_high_def

record tool_definition =
  td_name :: string
  td_display_name :: string
  td_description :: string
  td_risk :: tool_risk
  td_parameters :: go_value

definition tool_workspace_read_file :: tool_definition where
  "tool_workspace_read_file =
     \<lparr>td_name = ''workspace.read_file'',
      td_display_name = ''Read file'',
      td_description = ''Read a text file inside the active workspace.'',
      td_risk = risk_low,
      td_parameters = GMap [(''type'', GStr ''object''),
        (''properties'', GMap [(''path'', GMap [(''type'', GStr ''string''),
        (''description'', GStr ''Workspace-relative file path.'')])]),
        (''required'', GList [GStr ''path''])]\<rparr>"

definition tool_workspace_list :: tool_definition where
  "tool_workspace_list =
     \<lparr>td_name = ''workspace.list'',
      td_display_name = ''List files'',
      td_description = ''List files and directories inside the active workspace.'',
      td_risk = risk_low,
      td_parameters = GMap [(''type'', GStr ''object''),
        (''properties'', GMap [(''path'', GMap [(''type'', GStr ''string''),
        (''description'', GStr ''Workspace-relative directory or file path.'')]),
        (''max_depth'', GMap [(''type'', GStr ''integer''),
        (''description'', GStr ''Maximum directory depth to include.'')])])]\<rparr>"

definition tool_workspace_stats :: tool_definition where
  "tool_workspace_stats =
     \<lparr>td_name = ''workspace.stats'',
      td_display_name = ''Workspace stats'',
      td_description = ''Summarize directory structure and file counts for split planning. Root agent MUST call this before multi-area analysis. Use total_files / top_level[].files to set each subagent.run file_count or max_turns using formula max_turns = file_count + summary_turns (summary_turns is included as suggested_max_turns).'',
      td_risk = risk_low,
      td_parameters = GMap [(''type'', GStr ''object''),
        (''properties'', GMap [(''path'', GMap [(''type'', GStr ''string''),
        (''description'', GStr ''Workspace-relative directory path. Defaults to workspace root.'')]),
        (''max_depth'', GMap [(''type'', GStr ''integer''),
        (''description'', GStr ''How deep to walk when counting (default 4, max 8).'')])])]\<rparr>"

definition tool_workspace_grep :: tool_definition where
  "tool_workspace_grep =
     \<lparr>td_name = ''workspace.grep'',
      td_display_name = ''Search files'',
      td_description = ''Search text files inside the active workspace with a regular expression.'',
      td_risk = risk_low,
      td_parameters = GMap [(''type'', GStr ''object''),
        (''properties'', GMap [(''pattern'', GMap [(''type'', GStr ''string''),
        (''description'', GStr ''Regular expression to search for.'')]),
        (''path'', GMap [(''type'', GStr ''string''),
        (''description'', GStr ''Workspace-relative directory or file path.'')]),
        (''max_matches'', GMap [(''type'', GStr ''integer''),
        (''description'', GStr ''Maximum number of matches to return.'')])]),
        (''required'', GList [GStr ''pattern''])]\<rparr>"

definition tool_workspace_write_file :: tool_definition where
  "tool_workspace_write_file =
     \<lparr>td_name = ''workspace.write_file'',
      td_display_name = ''Write file'',
      td_description = ''Write text content to a file inside the active workspace.'',
      td_risk = risk_high,
      td_parameters = GMap [(''type'', GStr ''object''),
        (''properties'', GMap [(''path'', GMap [(''type'', GStr ''string''),
        (''description'', GStr ''Workspace-relative file path.'')]),
        (''content'', GMap [(''type'', GStr ''string''),
        (''description'', GStr ''Text content to write.'')])]),
        (''required'', GList [GStr ''path'', GStr ''content''])]\<rparr>"

definition tool_workspace_edit_file :: tool_definition where
  "tool_workspace_edit_file =
     \<lparr>td_name = ''workspace.edit_file'',
      td_display_name = ''Edit file'',
      td_description = ''Replace exact text inside a file in the active workspace.'',
      td_risk = risk_high,
      td_parameters = GMap [(''type'', GStr ''object''),
        (''properties'', GMap [(''path'', GMap [(''type'', GStr ''string''),
        (''description'', GStr ''Workspace-relative file path.'')]),
        (''old_text'', GMap [(''type'', GStr ''string''),
        (''description'', GStr ''Exact text to replace.'')]),
        (''new_text'', GMap [(''type'', GStr ''string''),
        (''description'', GStr ''Replacement text.'')]),
        (''replace_all'', GMap [(''type'', GStr ''boolean''),
        (''description'', GStr ''Replace all occurrences instead of requiring exactly one match.'')])]),
        (''required'', GList [GStr ''path'', GStr ''old_text'', GStr ''new_text''])]\<rparr>"

definition tool_workspace_diff_file :: tool_definition where
  "tool_workspace_diff_file =
     \<lparr>td_name = ''workspace.diff_file'',
      td_display_name = ''Preview diff'',
      td_description = ''Preview a unified diff for a proposed text change to one workspace file.'',
      td_risk = risk_low,
      td_parameters = GMap [(''type'', GStr ''object''),
        (''properties'', GMap [(''path'', GMap [(''type'', GStr ''string''),
        (''description'', GStr ''Workspace-relative file path.'')]),
        (''content'', GMap [(''type'', GStr ''string''),
        (''description'', GStr ''Full proposed file content.'')]),
        (''old_text'', GMap [(''type'', GStr ''string''),
        (''description'', GStr ''Exact text to replace for preview.'')]),
        (''new_text'', GMap [(''type'', GStr ''string''),
        (''description'', GStr ''Replacement text for preview.'')]),
        (''replace_all'', GMap [(''type'', GStr ''boolean''),
        (''description'', GStr ''Replace all occurrences when previewing old_text/new_text.'')])]),
        (''required'', GList [GStr ''path''])]\<rparr>"

definition tool_workspace_apply_patch :: tool_definition where
  "tool_workspace_apply_patch =
     \<lparr>td_name = ''workspace.apply_patch'',
      td_display_name = ''Apply patch'',
      td_description = ''Apply a workspace-scoped unified patch to text files.'',
      td_risk = risk_high,
      td_parameters = GMap [(''type'', GStr ''object''),
        (''properties'', GMap [(''patch'', GMap [(''type'', GStr ''string''),
        (''description'', GStr ''Unified diff patch to apply inside the workspace.'')])]),
        (''required'', GList [GStr ''patch''])]\<rparr>"

definition tool_shell_exec :: tool_definition where
  "tool_shell_exec =
     \<lparr>td_name = ''shell.exec'',
      td_display_name = ''Shell'',
      td_description = ''Run a shell command in the active workspace.'',
      td_risk = risk_high,
      td_parameters = GMap [(''type'', GStr ''object''),
        (''properties'', GMap [(''command'', GMap [(''type'', GStr ''string''),
        (''description'', GStr ''Command to execute.'')])]),
        (''required'', GList [GStr ''command''])]\<rparr>"

definition tool_skill_list :: tool_definition where
  "tool_skill_list =
     \<lparr>td_name = ''skill.list'',
      td_display_name = ''List skills'',
      td_description = ''List managed workspace skills under .codex/skills with name and description only. The catalog is also injected at conversation start; call this to re-check after skill.create/update/delete in the same run.'',
      td_risk = risk_low,
      td_parameters = GMap [(''type'', GStr ''object''),
        (''properties'', GMap [])]\<rparr>"

definition tool_skill_create :: tool_definition where
  "tool_skill_create =
     \<lparr>td_name = ''skill.create'',
      td_display_name = ''Create skill'',
      td_description = ''Create a managed SKILL.md under .codex/skills in the active workspace.'',
      td_risk = risk_high,
      td_parameters = GMap [(''type'', GStr ''object''),
        (''properties'', GMap [(''name'', GMap [(''type'', GStr ''string''),
        (''description'', GStr ''Lowercase skill name using letters, digits, and hyphens.'')]),
        (''description'', GMap [(''type'', GStr ''string''),
        (''description'', GStr ''Short description used to select the skill.'')]),
        (''instructions'', GMap [(''type'', GStr ''string''),
        (''description'', GStr ''Complete Markdown instructions for the skill.'')])]),
        (''required'', GList [GStr ''name'', GStr ''description'', GStr ''instructions''])]\<rparr>"

definition tool_skill_update :: tool_definition where
  "tool_skill_update =
     \<lparr>td_name = ''skill.update'',
      td_display_name = ''Update skill'',
      td_description = ''Replace an existing managed SKILL.md under .codex/skills in the active workspace.'',
      td_risk = risk_high,
      td_parameters = GMap [(''type'', GStr ''object''),
        (''properties'', GMap [(''name'', GMap [(''type'', GStr ''string''),
        (''description'', GStr ''Existing lowercase skill name.'')]),
        (''description'', GMap [(''type'', GStr ''string''),
        (''description'', GStr ''Replacement description used to select the skill.'')]),
        (''instructions'', GMap [(''type'', GStr ''string''),
        (''description'', GStr ''Complete replacement Markdown instructions.'')])]),
        (''required'', GList [GStr ''name'', GStr ''description'', GStr ''instructions''])]\<rparr>"

definition tool_skill_delete :: tool_definition where
  "tool_skill_delete =
     \<lparr>td_name = ''skill.delete'',
      td_display_name = ''Delete skill'',
      td_description = ''Delete a managed SKILL.md under .codex/skills in the active workspace.'',
      td_risk = risk_high,
      td_parameters = GMap [(''type'', GStr ''object''),
        (''properties'', GMap [(''name'', GMap [(''type'', GStr ''string''),
        (''description'', GStr ''Existing lowercase skill name.'')])]),
        (''required'', GList [GStr ''name''])]\<rparr>"

definition tool_skill_run :: tool_definition where
  "tool_skill_run =
     \<lparr>td_name = ''skill.run'',
      td_display_name = ''Run skill'',
      td_description = ''Run a managed workspace skill in an isolated runtime-process subagent and return only its final result. Prefer names from the skills catalog injected for this conversation.'',
      td_risk = risk_high,
      td_parameters = GMap [(''type'', GStr ''object''),
        (''properties'', GMap [(''name'', GMap [(''type'', GStr ''string''),
        (''description'', GStr ''Existing managed skill name.'')]),
        (''task'', GMap [(''type'', GStr ''string''),
        (''description'', GStr ''Task for the isolated skill subagent.'')])]),
        (''required'', GList [GStr ''name'', GStr ''task''])]\<rparr>"

definition tool_subagent_run :: tool_definition where
  "tool_subagent_run =
     \<lparr>td_name = ''subagent.run'',
      td_display_name = ''Run subagent'',
      td_description = ''Spawn a process-pool specialist and return its final report. For Goal multi-step work use phase names exactly: goal-analyst, goal-planner, goal-implementer, goal-verifier, goal-evaluator (tool policy and prompts are applied automatically). For broad codebase analysis without Goal, call workspace.stats first and set file_count/max_turns; split non-overlapping scopes; synthesize results instead of re-reading.'',
      td_risk = risk_medium,
      td_parameters = GMap [(''type'', GStr ''object''),
        (''properties'', GMap [(''task'', GMap [(''type'', GStr ''string''),
        (''description'', GStr ''Focused task for the subagent. Include scope, goals, and expected output.'')]),
        (''name'', GMap [(''type'', GStr ''string''),
        (''description'', GStr ''Specialist id. Goal pipeline: goal-analyst|goal-planner|goal-implementer|goal-verifier|goal-evaluator. Otherwise e.g. desktop-analyst.'')]),
        (''path'', GMap [(''type'', GStr ''string''),
        (''description'', GStr ''Workspace-relative directory this specialist owns. Used to count files when file_count/max_turns are omitted.'')]),
        (''file_count'', GMap [(''type'', GStr ''integer''),
        (''description'', GStr ''Number of files in the specialist scope from workspace.stats. When set (and max_turns omitted), max_turns becomes file_count + summary turns.''),
        (''minimum'', GInt 0)]),
        (''max_turns'', GMap [(''type'', GStr ''integer''),
        (''description'', GStr ''Optional explicit tool-turn budget. Prefer max_turns = file_count + summary turns from workspace.stats (suggested_max_turns). No fixed maximum.''),
        (''minimum'', GInt 1)])]),
        (''required'', GList [GStr ''task''])]\<rparr>"

definition tool_subagent_list :: tool_definition where
  "tool_subagent_list =
     \<lparr>td_name = ''subagent.list'',
      td_display_name = ''List subagents'',
      td_description = ''List subagents for the current root run and show process-pool occupancy. Use this to manage specialists.'',
      td_risk = risk_low,
      td_parameters = GMap [(''type'', GStr ''object''),
        (''properties'', GMap [(''run_id'', GMap [(''type'', GStr ''string''),
        (''description'', GStr ''Optional root run id. Defaults to the current run.'')]),
        (''subagent_id'', GMap [(''type'', GStr ''string''),
        (''description'', GStr ''Optional subagent id filter.'')])])]\<rparr>"

definition tool_subagent_cancel :: tool_definition where
  "tool_subagent_cancel =
     \<lparr>td_name = ''subagent.cancel'',
      td_display_name = ''Cancel subagent'',
      td_description = ''Cancel a running subagent managed by the parent agent.'',
      td_risk = risk_medium,
      td_parameters = GMap [(''type'', GStr ''object''),
        (''properties'', GMap [(''subagent_id'', GMap [(''type'', GStr ''string''),
        (''description'', GStr ''Subagent id to cancel.'')]),
        (''run_id'', GMap [(''type'', GStr ''string''),
        (''description'', GStr ''Optional root run id. Defaults to the current run.'')])]),
        (''required'', GList [GStr ''subagent_id''])]\<rparr>"

definition tool_subagent_reset :: tool_definition where
  "tool_subagent_reset =
     \<lparr>td_name = ''subagent.reset'',
      td_display_name = ''Reset subagent'',
      td_description = ''Cancel a subagent if it is still running, mark it reset, and remove it from the active registry so a fresh specialist can be started. Optionally also reset idle process-pool workers.'',
      td_risk = risk_medium,
      td_parameters = GMap [(''type'', GStr ''object''),
        (''properties'', GMap [(''subagent_id'', GMap [(''type'', GStr ''string''),
        (''description'', GStr ''Subagent id to reset.'')]),
        (''run_id'', GMap [(''type'', GStr ''string''),
        (''description'', GStr ''Optional root run id. Defaults to the current run.'')]),
        (''reset_pool'', GMap [(''type'', GStr ''boolean''),
        (''description'', GStr ''If true, also discard idle process-pool workers.'')])]),
        (''required'', GList [GStr ''subagent_id''])]\<rparr>"

definition tool_subagent_pool_status :: tool_definition where
  "tool_subagent_pool_status =
     \<lparr>td_name = ''subagent.pool_status'',
      td_display_name = ''Subagent pool status'',
      td_description = ''Inspect the subagent process pool: limit, active workers, idle workers, and in-use count.'',
      td_risk = risk_low,
      td_parameters = GMap [(''type'', GStr ''object''),
        (''properties'', GMap [])]\<rparr>"

definition tool_subagent_pool_resize :: tool_definition where
  "tool_subagent_pool_resize =
     \<lparr>td_name = ''subagent.pool_resize'',
      td_display_name = ''Resize subagent pool'',
      td_description = ''Change the subagent process pool size (1-8). Excess idle workers are closed immediately.'',
      td_risk = risk_medium,
      td_parameters = GMap [(''type'', GStr ''object''),
        (''properties'', GMap [(''size'', GMap [(''type'', GStr ''integer''),
        (''description'', GStr ''Desired pool size between 1 and 8.'')])]),
        (''required'', GList [GStr ''size''])]\<rparr>"

definition tool_subagent_pool_reset :: tool_definition where
  "tool_subagent_pool_reset =
     \<lparr>td_name = ''subagent.pool_reset'',
      td_display_name = ''Reset subagent pool'',
      td_description = ''Discard all idle process-pool workers so the next subagent.run creates fresh processes. In-use workers are left running until completion.'',
      td_risk = risk_medium,
      td_parameters = GMap [(''type'', GStr ''object''),
        (''properties'', GMap [])]\<rparr>"

definition tool_todo_write :: tool_definition where
  "tool_todo_write =
     \<lparr>td_name = ''todo.write'',
      td_display_name = ''Update todos'',
      td_description = ''REQUIRED for multi-step work: create/update the session checklist shown to the user above the chat input. Call at plan start and whenever a step starts/finishes/changes. Prefer the full list each time. todos[].id = your short key ('' @ [CHR 0x22] @ ''1'' @ [CHR 0x22] @ '','' @ [CHR 0x22] @ ''2'' @ [CHR 0x22] @ '') or a prior Gateway id. status: pending|in_progress|completed|cancelled (at most one in_progress). merge defaults true (omitted items kept). Do NOT use memory.create for a work queue. Skip only for trivial one-shot Q&A.'',
      td_risk = risk_low,
      td_parameters = GMap [(''type'', GStr ''object''),
        (''properties'', GMap [(''todos'', GMap [(''type'', GStr ''array''),
        (''description'', GStr ''Task list entries. Prefer full active plan each call.''),
        (''items'', GMap [(''type'', GStr ''object''),
        (''properties'', GMap [(''id'', GMap [(''type'', GStr ''string''),
        (''description'', GStr ''Short stable key or Gateway id from a prior result.'')]),
        (''client_key'', GMap [(''type'', GStr ''string''),
        (''description'', GStr ''Optional explicit short key.'')]),
        (''content'', GMap [(''type'', GStr ''string''),
        (''description'', GStr ''Short actionable task text.'')]),
        (''status'', GMap [(''type'', GStr ''string''),
        (''description'', GStr ''pending | in_progress | completed | cancelled'')]),
        (''priority'', GMap [(''type'', GStr ''string''),
        (''description'', GStr ''low | medium | high'')]),
        (''active_form'', GMap [(''type'', GStr ''string''),
        (''description'', GStr ''Optional present continuous UI form while in_progress.'')])]),
        (''required'', GList [GStr ''content'', GStr ''status''])])]),
        (''merge'', GMap [(''type'', GStr ''boolean''),
        (''description'', GStr ''true (default): keep items not listed. false: replace entire list.'')])]),
        (''required'', GList [GStr ''todos''])]\<rparr>"

definition tool_goal_write :: tool_definition where
  "tool_goal_write =
     \<lparr>td_name = ''goal.write'',
      td_display_name = ''Create goal'',
      td_description = ''Create a session Goal after analyzing the user request. Provide objective; set activate=true with success_criteria to start long-horizon work. Then write steps with todo.write. Do not skip analysis.'',
      td_risk = risk_low,
      td_parameters = GMap [(''type'', GStr ''object''),
        (''properties'', GMap [(''title'', GMap [(''type'', GStr ''string'')]),
        (''objective'', GMap [(''type'', GStr ''string'')]),
        (''success_criteria'', GMap [(''type'', GStr ''string'')]),
        (''analysis_summary'', GMap [(''type'', GStr ''string'')]),
        (''activate'', GMap [(''type'', GStr ''boolean'')])]),
        (''required'', GList [GStr ''objective''])]\<rparr>"

definition tool_goal_update :: tool_definition where
  "tool_goal_update =
     \<lparr>td_name = ''goal.update'',
      td_display_name = ''Update goal'',
      td_description = ''Update goal fields, pipeline_phase, or action=cancel. Use activate=true to activate a pending goal.'',
      td_risk = risk_low,
      td_parameters = GMap [(''type'', GStr ''object''),
        (''properties'', GMap [(''goal_id'', GMap [(''type'', GStr ''string'')]),
        (''title'', GMap [(''type'', GStr ''string'')]),
        (''objective'', GMap [(''type'', GStr ''string'')]),
        (''success_criteria'', GMap [(''type'', GStr ''string'')]),
        (''analysis_summary'', GMap [(''type'', GStr ''string'')]),
        (''pipeline_phase'', GMap [(''type'', GStr ''string'')]),
        (''activate'', GMap [(''type'', GStr ''boolean'')]),
        (''action'', GMap [(''type'', GStr ''string''),
        (''description'', GStr ''cancel to cancel the goal'')])]),
        (''required'', GList [GStr ''goal_id''])]\<rparr>"

definition tool_goal_checkpoint :: tool_definition where
  "tool_goal_checkpoint =
     \<lparr>td_name = ''goal.checkpoint'',
      td_display_name = ''Goal checkpoint'',
      td_description = ''Save progress summary after verifying a step. Required for durable recovery across continues.'',
      td_risk = risk_low,
      td_parameters = GMap [(''type'', GStr ''object''),
        (''properties'', GMap [(''goal_id'', GMap [(''type'', GStr ''string'')]),
        (''summary'', GMap [(''type'', GStr ''string'')]),
        (''progress_note'', GMap [(''type'', GStr ''string'')]),
        (''pipeline_phase'', GMap [(''type'', GStr ''string'')]),
        (''checkpoint_summary'', GMap [(''type'', GStr ''string'')])]),
        (''required'', GList [GStr ''summary''])]\<rparr>"

definition tool_goal_complete :: tool_definition where
  "tool_goal_complete =
     \<lparr>td_name = ''goal.complete'',
      td_display_name = ''Complete goal'',
      td_description = ''Mark goal succeeded or failed AFTER final evaluation and user-facing completion report. Requires summary.'',
      td_risk = risk_low,
      td_parameters = GMap [(''type'', GStr ''object''),
        (''properties'', GMap [(''goal_id'', GMap [(''type'', GStr ''string'')]),
        (''status'', GMap [(''type'', GStr ''string''),
        (''description'', GStr ''succeeded | failed'')]),
        (''summary'', GMap [(''type'', GStr ''string'')]),
        (''report_markdown'', GMap [(''type'', GStr ''string'')]),
        (''report'', GMap [(''type'', GStr ''object'')])]),
        (''required'', GList [GStr ''status'', GStr ''summary''])]\<rparr>"

definition tool_goal_list :: tool_definition where
  "tool_goal_list =
     \<lparr>td_name = ''goal.list'',
      td_display_name = ''List goals'',
      td_description = ''List session goals. Prefer injected Goal context when present.'',
      td_risk = risk_low,
      td_parameters = GMap [(''type'', GStr ''object''),
        (''properties'', GMap [])]\<rparr>"

definition tool_todo_list :: tool_definition where
  "tool_todo_list =
     \<lparr>td_name = ''todo.list'',
      td_display_name = ''List todos'',
      td_description = ''Read the current session checklist. Prefer relying on injected Todo context after writes; call this if you need an explicit refresh. Not for durable memory.'',
      td_risk = risk_low,
      td_parameters = GMap [(''type'', GStr ''object''),
        (''properties'', GMap [(''status'', GMap [(''type'', GStr ''string''),
        (''description'', GStr ''all|open|pending|in_progress|completed|cancelled'')]),
        (''limit'', GMap [(''type'', GStr ''integer'')])])]\<rparr>"

definition tool_memory_list :: tool_definition where
  "tool_memory_list =
     \<lparr>td_name = ''memory.list'',
      td_display_name = ''List memory'',
      td_description = ''List active or disabled project/session memory visible to the current run.'',
      td_risk = risk_medium,
      td_parameters = GMap [(''type'', GStr ''object''),
        (''properties'', GMap [(''scope'', GMap [(''type'', GStr ''string''),
        (''description'', GStr ''Optional memory scope: project or session.'')]),
        (''status'', GMap [(''type'', GStr ''string''),
        (''description'', GStr ''Optional status: active or disabled.'')]),
        (''limit'', GMap [(''type'', GStr ''integer''),
        (''description'', GStr ''Maximum number of records to return.'')])])]\<rparr>"

definition tool_memory_create :: tool_definition where
  "tool_memory_create =
     \<lparr>td_name = ''memory.create'',
      td_display_name = ''Create memory'',
      td_description = ''Create a project or session memory record for future runs.'',
      td_risk = risk_high,
      td_parameters = GMap [(''type'', GStr ''object''),
        (''properties'', GMap [(''scope'', GMap [(''type'', GStr ''string''),
        (''description'', GStr ''Memory scope: project or session.'')]),
        (''kind'', GMap [(''type'', GStr ''string''),
        (''description'', GStr ''Memory kind.'')]),
        (''title'', GMap [(''type'', GStr ''string''),
        (''description'', GStr ''Short title.'')]),
        (''content'', GMap [(''type'', GStr ''string''),
        (''description'', GStr ''Memory content.'')]),
        (''confidence'', GMap [(''type'', GStr ''string''),
        (''description'', GStr ''Confidence: low, medium, or high.'')])]),
        (''required'', GList [GStr ''scope'', GStr ''content''])]\<rparr>"

definition tool_memory_update :: tool_definition where
  "tool_memory_update =
     \<lparr>td_name = ''memory.update'',
      td_display_name = ''Update memory'',
      td_description = ''Update a project or session memory record visible to the current run.'',
      td_risk = risk_high,
      td_parameters = GMap [(''type'', GStr ''object''),
        (''properties'', GMap [(''id'', GMap [(''type'', GStr ''string''),
        (''description'', GStr ''Memory record id.'')]),
        (''kind'', GMap [(''type'', GStr ''string''),
        (''description'', GStr ''Memory kind.'')]),
        (''status'', GMap [(''type'', GStr ''string''),
        (''description'', GStr ''Status: active or disabled.'')]),
        (''title'', GMap [(''type'', GStr ''string''),
        (''description'', GStr ''Short title.'')]),
        (''content'', GMap [(''type'', GStr ''string''),
        (''description'', GStr ''Memory content.'')]),
        (''confidence'', GMap [(''type'', GStr ''string''),
        (''description'', GStr ''Confidence: low, medium, or high.'')])]),
        (''required'', GList [GStr ''id''])]\<rparr>"

definition tool_memory_delete :: tool_definition where
  "tool_memory_delete =
     \<lparr>td_name = ''memory.delete'',
      td_display_name = ''Delete memory'',
      td_description = ''Soft-delete a project or session memory record visible to the current run.'',
      td_risk = risk_high,
      td_parameters = GMap [(''type'', GStr ''object''),
        (''properties'', GMap [(''id'', GMap [(''type'', GStr ''string''),
        (''description'', GStr ''Memory record id.'')])]),
        (''required'', GList [GStr ''id''])]\<rparr>"

definition tool_web_search :: tool_definition where
  "tool_web_search =
     \<lparr>td_name = ''web.search'',
      td_display_name = ''Web search'',
      td_description = ''Search the public web and return titles, URLs, and snippets. Uses Tavily when configured (recommended), otherwise DuckDuckGo. May include a short answer field when Tavily is used.'',
      td_risk = risk_high,
      td_parameters = GMap [(''type'', GStr ''object''),
        (''properties'', GMap [(''query'', GMap [(''type'', GStr ''string''),
        (''description'', GStr ''Search query text.'')]),
        (''max_results'', GMap [(''type'', GStr ''integer''),
        (''description'', GStr ''Maximum number of results to return.'')])]),
        (''required'', GList [GStr ''query''])]\<rparr>"

definition tool_web_fetch :: tool_definition where
  "tool_web_fetch =
     \<lparr>td_name = ''web.fetch'',
      td_display_name = ''Web fetch'',
      td_description = ''Download a single http or https URL and return readable text from the page.'',
      td_risk = risk_high,
      td_parameters = GMap [(''type'', GStr ''object''),
        (''properties'', GMap [(''url'', GMap [(''type'', GStr ''string''),
        (''description'', GStr ''Absolute http or https URL to fetch.'')]),
        (''max_bytes'', GMap [(''type'', GStr ''integer''),
        (''description'', GStr ''Maximum response body size in bytes.'')])]),
        (''required'', GList [GStr ''url''])]\<rparr>"

definition available_tools :: "tool_definition list" where
  "available_tools =
     [tool_workspace_read_file, tool_workspace_list, tool_workspace_stats, tool_workspace_grep,
      tool_workspace_write_file, tool_workspace_edit_file, tool_workspace_diff_file,
      tool_workspace_apply_patch, tool_shell_exec, tool_skill_list, tool_skill_create,
      tool_skill_update, tool_skill_delete, tool_skill_run, tool_subagent_run, tool_subagent_list,
      tool_subagent_cancel, tool_subagent_reset, tool_subagent_pool_status,
      tool_subagent_pool_resize, tool_subagent_pool_reset, tool_todo_write, tool_goal_write,
      tool_goal_update, tool_goal_checkpoint, tool_goal_complete, tool_goal_list, tool_todo_list,
      tool_memory_list, tool_memory_create, tool_memory_update, tool_memory_delete,
      tool_web_search, tool_web_fetch]"

lemmas tool_defs =
  tool_workspace_read_file_def
  tool_workspace_list_def
  tool_workspace_stats_def
  tool_workspace_grep_def
  tool_workspace_write_file_def
  tool_workspace_edit_file_def
  tool_workspace_diff_file_def
  tool_workspace_apply_patch_def
  tool_shell_exec_def
  tool_skill_list_def
  tool_skill_create_def
  tool_skill_update_def
  tool_skill_delete_def
  tool_skill_run_def
  tool_subagent_run_def
  tool_subagent_list_def
  tool_subagent_cancel_def
  tool_subagent_reset_def
  tool_subagent_pool_status_def
  tool_subagent_pool_resize_def
  tool_subagent_pool_reset_def
  tool_todo_write_def
  tool_goal_write_def
  tool_goal_update_def
  tool_goal_checkpoint_def
  tool_goal_complete_def
  tool_goal_list_def
  tool_todo_list_def
  tool_memory_list_def
  tool_memory_create_def
  tool_memory_update_def
  tool_memory_delete_def
  tool_web_search_def
  tool_web_fetch_def

text \<open>What the rest of the model reads of the table.\<close>

lemma available_tool_names:
  "map td_name available_tools =
    [''workspace.read_file'', ''workspace.list'', ''workspace.stats'', ''workspace.grep'',
     ''workspace.write_file'', ''workspace.edit_file'', ''workspace.diff_file'',
     ''workspace.apply_patch'', ''shell.exec'', ''skill.list'', ''skill.create'',
     ''skill.update'', ''skill.delete'', ''skill.run'', ''subagent.run'', ''subagent.list'',
     ''subagent.cancel'', ''subagent.reset'', ''subagent.pool_status'', ''subagent.pool_resize'',
     ''subagent.pool_reset'', ''todo.write'', ''goal.write'', ''goal.update'',
     ''goal.checkpoint'', ''goal.complete'', ''goal.list'', ''todo.list'', ''memory.list'',
     ''memory.create'', ''memory.update'', ''memory.delete'', ''web.search'', ''web.fetch'']"
  by (simp add: available_tools_def tool_defs)

lemma available_tool_names_distinct: "distinct (map td_name available_tools)"
  by (simp add: available_tool_names)

lemma available_tool_risks:
  "map td_risk available_tools =
    [risk_low, risk_low, risk_low, risk_low, risk_high, risk_high, risk_low, risk_high, risk_high,
     risk_low, risk_high, risk_high, risk_high, risk_high, risk_medium, risk_low, risk_medium,
     risk_medium, risk_low, risk_medium, risk_medium, risk_low, risk_low, risk_low, risk_low,
     risk_low, risk_low, risk_low, risk_medium, risk_high, risk_high, risk_high, risk_high,
     risk_high]"
  by (simp add: available_tools_def tool_defs)

end
