(* ===== verification/Tool_Policy.thy ===== *)
theory Tool_Policy
  imports Tool_Table
begin

text \<open>
  The gate in front of every tool call of the Agent Runtime: the policy of
  \<^verbatim>\<open>runtime/policy.go\<close>, the resolution of a model's call against the tool table and the slash
  commands (\<^verbatim>\<open>InvocationFromCall\<close>, \<^verbatim>\<open>Parse\<close> and \<^verbatim>\<open>toolTimeoutFor\<close> of \<^verbatim>\<open>runtime/tools.go\<close>), and
  \<^verbatim>\<open>executeTool\<close> of \<^verbatim>\<open>runtime/runtime.go\<close>, with the permission round trip and the tool itself as
  arguments and the events it emits as a trace.
\<close>

subsection \<open>Options of a reply\<close>

text \<open>
  The fields of \<^verbatim>\<open>methods.ReplyOptions\<close> that the gate reads or that the set-up of a worker
  changes. A nil slice and an empty one are treated alike by this code, so the tool lists are
  lists; \<^verbatim>\<open>GoalsEnabled\<close> is a pointer.
\<close>

record memory_context =
  mc_items :: "go_value list"
  mc_context :: string

record reply_options =
  opt_permission_mode :: string
  opt_tool_policy :: string
  opt_tool_allowlist :: "string list"
  opt_tool_denylist :: "string list"
  opt_require_permission :: bool
  opt_spawn_subagents :: bool
  opt_subagent_backend :: string
  opt_memory_context :: "memory_context option"
  opt_todo_context :: "go_value option"
  opt_goal_context :: "go_value option"
  opt_goals_enabled :: "bool option"
  opt_goal_id :: string
  opt_max_tool_turns :: int
  opt_worker_max_turns :: int

record tool_call =
  tc_id :: string
  tc_name :: string
  tc_display_name :: string
  tc_risk :: tool_risk
  tc_arguments :: "go_map option"

subsection \<open>Policy\<close>

datatype decision_action = Decision_Allow | Decision_Require_Permission | Decision_Deny

record tool_decision =
  dec_action :: decision_action
  dec_reason :: string

definition contains_string :: "string list \<Rightarrow> string \<Rightarrow> bool" where
  "contains_string items v = list_ex (\<lambda>item. item = v) items"

definition goals_disabled :: "reply_options \<Rightarrow> string \<Rightarrow> bool" where
  "goals_disabled opts name \<longleftrightarrow> opt_goals_enabled opts = Some False \<and> has_prefix name ''goal.''"

definition risk_based_decision :: "string \<Rightarrow> tool_risk \<Rightarrow> tool_decision" where
  "risk_based_decision mode risk =
     (if risk = risk_low
      then \<lparr>dec_action = Decision_Allow, dec_reason = ''low risk tool''\<rparr>
      else if mode = ''allow_all''
      then \<lparr>dec_action = Decision_Allow, dec_reason = ''permission_mode allow_all''\<rparr>
      else if mode = ''deny_all''
      then \<lparr>dec_action = Decision_Deny, dec_reason = ''permission_mode deny_all''\<rparr>
      else if mode = ''permissive''
      then if risk = risk_high
           then \<lparr>dec_action = Decision_Require_Permission,
                 dec_reason = ''high risk tool in permissive mode''\<rparr>
           else \<lparr>dec_action = Decision_Allow,
                 dec_reason = ''non-high risk tool in permissive mode''\<rparr>
      else \<lparr>dec_action = Decision_Require_Permission, dec_reason = ''strict permission mode''\<rparr>)"

definition evaluate_tool_policy :: "reply_options \<Rightarrow> tool_call \<Rightarrow> tool_decision" where
  "evaluate_tool_policy opts call =
     (if goals_disabled opts (tc_name call)
      then \<lparr>dec_action = Decision_Deny, dec_reason = ''goals are disabled''\<rparr>
      else if contains_string (opt_tool_denylist opts) (tc_name call)
      then \<lparr>dec_action = Decision_Deny, dec_reason = ''tool is denied by tool_denylist''\<rparr>
      else if opt_tool_allowlist opts \<noteq> []
            \<and> \<not> contains_string (opt_tool_allowlist opts) (tc_name call)
      then \<lparr>dec_action = Decision_Deny, dec_reason = ''tool is not in tool_allowlist''\<rparr>
      else if opt_tool_policy opts = ''deny_all''
      then \<lparr>dec_action = Decision_Deny, dec_reason = ''tool_policy denied all tools''\<rparr>
      else if opt_tool_policy opts = ''allow_all''
      then \<lparr>dec_action = Decision_Allow, dec_reason = ''tool_policy allowed all tools''\<rparr>
      else if opt_tool_policy opts = ''ask_all''
      then \<lparr>dec_action = Decision_Require_Permission,
            dec_reason = ''tool_policy requires permission for all tools''\<rparr>
      else if opt_tool_policy opts = ''risk_based'' \<or> opt_tool_policy opts = []
      then risk_based_decision (opt_permission_mode opts) (tc_risk call)
      else \<lparr>dec_action = Decision_Deny,
            dec_reason = ''unknown tool_policy '' @ go_quote (opt_tool_policy opts)\<rparr>)"

definition tool_offered :: "reply_options \<Rightarrow> string \<Rightarrow> bool" where
  "tool_offered opts name \<longleftrightarrow>
     \<not> goals_disabled opts name \<and> \<not> contains_string (opt_tool_denylist opts) name
     \<and> (opt_tool_allowlist opts = [] \<or> contains_string (opt_tool_allowlist opts) name)"

definition available_tools_for_options ::
  "tool_definition list \<Rightarrow> reply_options \<Rightarrow> tool_definition list" where
  "available_tools_for_options defs opts = filter (\<lambda>d. tool_offered opts (td_name d)) defs"

lemma contains_string_iff [simp]: "contains_string xs v \<longleftrightarrow> v \<in> set xs"
  by (auto simp: contains_string_def list_ex_iff)

subsection \<open>From a call of the model to an invocation\<close>

definition find_tool :: "string \<Rightarrow> tool_definition option" where
  "find_tool name = find (\<lambda>d. td_name d = name) available_tools"

definition invocation_from_call :: "string \<Rightarrow> nat \<Rightarrow> tool_call \<Rightarrow> string + tool_call" where
  "invocation_from_call run index call =
     (if tc_name call = [] then Inl ''tool name is required''
      else let call1 = (if tc_id call = []
                        then call\<lparr>tc_id := ''tool_'' @ run @ ''_model_'' @ int_dec (int index + 1)\<rparr>
                        else call)
           in case find_tool (tc_name call) of
                None \<Rightarrow> Inl (''unknown tool '' @ tc_name call)
              | Some d \<Rightarrow>
                  Inr (call1\<lparr>
                    tc_display_name := (if tc_display_name call = [] then td_display_name d
                                        else tc_display_name call),
                    tc_risk := (if tc_risk call = [] then td_risk d else tc_risk call),
                    tc_arguments := (case tc_arguments call of
                                       None \<Rightarrow> Some [] | Some a \<Rightarrow> Some a)\<rparr>))"

text \<open>The outer time limit of a tool, in seconds; 0 for a tool with a deadline of its own.\<close>

definition default_local_tool_timeout :: int where "default_local_tool_timeout = 30"
definition default_gateway_tool_timeout :: int where "default_gateway_tool_timeout = 30"

definition tool_timeout_for :: "string \<Rightarrow> int" where
  "tool_timeout_for name =
     (if name \<in> set [''shell.exec'', ''web.search'', ''web.fetch'', ''skill.run'', ''subagent.run'']
      then 0
      else if name \<in> set [''memory.list'', ''memory.create'', ''memory.update'', ''memory.delete'',
        ''todo.write'', ''todo_write'', ''todo.list'', ''goal.write'', ''goal.update'',
        ''goal.checkpoint'', ''goal.complete'', ''goal.list'']
      then default_gateway_tool_timeout
      else default_local_tool_timeout)"

subsection \<open>Slash commands\<close>

definition default_list_depth :: int where "default_list_depth = 3"
definition default_grep_matches :: int where "default_grep_matches = 100"

definition command_call ::
  "string \<Rightarrow> string \<Rightarrow> string \<Rightarrow> string \<Rightarrow> tool_risk \<Rightarrow> go_map \<Rightarrow> tool_call" where
  "command_call run ending name display risk args =
     \<lparr>tc_id = ''tool_'' @ run @ ending, tc_name = name, tc_display_name = display,
      tc_risk = risk, tc_arguments = Some args\<rparr>"

definition read_invocation :: "string \<Rightarrow> string \<Rightarrow> tool_call" where
  "read_invocation run path =
     command_call run ''_read'' ''workspace.read_file'' ''Read file'' risk_low [(''path'', GStr path)]"

definition list_invocation :: "string \<Rightarrow> string \<Rightarrow> tool_call" where
  "list_invocation run path =
     command_call run ''_list'' ''workspace.list'' ''List files'' risk_low
       [(''path'', GStr (if trim_space path = [] then ''.'' else path)),
        (''max_depth'', GInt default_list_depth)]"

definition grep_invocation :: "string \<Rightarrow> string \<Rightarrow> tool_call" where
  "grep_invocation run rest =
     (case cut_at '' '' (trim_space rest) of (pattern, path, found) \<Rightarrow>
        command_call run ''_grep'' ''workspace.grep'' ''Search files'' risk_low
          [(''pattern'', GStr pattern),
           (''path'', GStr (trim_space (if found then path else ''.''))),
           (''max_matches'', GInt default_grep_matches)])"

definition shell_invocation :: "string \<Rightarrow> string \<Rightarrow> tool_call" where
  "shell_invocation run command =
     command_call run ''_shell'' ''shell.exec'' ''Shell'' risk_high [(''command'', GStr command)]"

definition write_invocation :: "string \<Rightarrow> string \<Rightarrow> tool_call" where
  "write_invocation run rest =
     (case cut_at '' '' rest of (path, content, found) \<Rightarrow>
        command_call run ''_write'' ''workspace.write_file'' ''Write file'' risk_high
          [(''path'', GStr (if found then path else rest)),
           (''content'', GStr (if found then content else []))])"

definition edit_texts :: "string \<Rightarrow> string \<times> string \<times> string" where
  "edit_texts rest =
     (case cut_at '' '' rest of (path, replacement, found) \<Rightarrow>
        if found then (case cut_at ''=>'' replacement of (old, new, _) \<Rightarrow> (path, old, new))
        else (path, [], []))"

definition edit_arguments :: "string \<Rightarrow> go_map" where
  "edit_arguments rest =
     (case edit_texts rest of (path, old, new) \<Rightarrow>
        [(''path'', GStr (trim_space path)), (''old_text'', GStr (trim_space old)),
         (''new_text'', GStr (trim_space new)), (''replace_all'', GBool False)])"

definition edit_invocation :: "string \<Rightarrow> string \<Rightarrow> tool_call" where
  "edit_invocation run rest =
     command_call run ''_edit'' ''workspace.edit_file'' ''Edit file'' risk_high (edit_arguments rest)"

definition diff_invocation :: "string \<Rightarrow> string \<Rightarrow> tool_call" where
  "diff_invocation run rest =
     command_call run ''_diff'' ''workspace.diff_file'' ''Preview diff'' risk_low (edit_arguments rest)"

definition patch_invocation :: "string \<Rightarrow> string \<Rightarrow> tool_call" where
  "patch_invocation run patch =
     command_call run ''_patch'' ''workspace.apply_patch'' ''Apply patch'' risk_high
       [(''patch'', GStr patch)]"

definition command_rest :: "string \<Rightarrow> string \<Rightarrow> string" where
  "command_rest line cmd = trim_space (trim_prefix line cmd)"

definition parse_tool_command :: "string \<Rightarrow> string \<Rightarrow> tool_call option" where
  "parse_tool_command text run =
     (let line = trim_space text;
          arg = command_rest line
      in if has_prefix line ''/tool read '' then Some (read_invocation run (arg ''/tool read ''))
         else if has_prefix line ''/read '' then Some (read_invocation run (arg ''/read ''))
         else if line = ''/tool list'' \<or> has_prefix line ''/tool list ''
         then Some (list_invocation run (arg ''/tool list''))
         else if line = ''/list'' \<or> has_prefix line ''/list ''
         then Some (list_invocation run (arg ''/list''))
         else if has_prefix line ''/tool grep '' then Some (grep_invocation run (arg ''/tool grep ''))
         else if has_prefix line ''/grep '' then Some (grep_invocation run (arg ''/grep ''))
         else if has_prefix line ''/tool shell '' then Some (shell_invocation run (arg ''/tool shell ''))
         else if has_prefix line ''/shell '' then Some (shell_invocation run (arg ''/shell ''))
         else if has_prefix line ''/tool write '' then Some (write_invocation run (arg ''/tool write ''))
         else if has_prefix line ''/write '' then Some (write_invocation run (arg ''/write ''))
         else if has_prefix line ''/tool edit '' then Some (edit_invocation run (arg ''/tool edit ''))
         else if has_prefix line ''/edit '' then Some (edit_invocation run (arg ''/edit ''))
         else if has_prefix line ''/tool diff '' then Some (diff_invocation run (arg ''/tool diff ''))
         else if has_prefix line ''/diff '' then Some (diff_invocation run (arg ''/diff ''))
         else if has_prefix line ''/tool patch '' then Some (patch_invocation run (arg ''/tool patch ''))
         else if has_prefix line ''/patch '' then Some (patch_invocation run (arg ''/patch ''))
         else None)"

subsection \<open>Executing a tool\<close>

record tool_result =
  tr_tool_call_id :: string
  tr_name :: string
  tr_status :: string
  tr_exit_code :: int
  tr_output :: string
  tr_error :: string
  tr_duration_ms :: int

record permission_request =
  pr_permission_id :: string
  pr_run_id :: string
  pr_tool_call_id :: string
  pr_tool_name :: string
  pr_risk :: string
  pr_summary :: string
  pr_detail :: string
  pr_arguments :: "go_map option"

text \<open>
  The events of one call, in order. \<open>Tool_Ran\<close> is not an event of the protocol: it marks the
  point where \<^verbatim>\<open>RunWithContext\<close> runs the tool.
\<close>

datatype exec_event =
    Tool_Started tool_call tool_decision
  | Permission_Requested permission_request
  | Tool_Ran tool_call
  | Tool_Output_Sent bool string
  | Tool_Failed_Sent tool_result
  | Tool_Finished_Sent tool_result
  | Todo_Updated_Sent
  | Goal_Updated_Sent string

definition denied_result :: "tool_call \<Rightarrow> string \<Rightarrow> tool_result" where
  "denied_result call reason =
     \<lparr>tr_tool_call_id = tc_id call, tr_name = tc_name call, tr_status = ''denied'',
      tr_exit_code = 0, tr_output = [], tr_error = reason, tr_duration_ms = 0\<rparr>"

definition permission_request_for :: "string \<Rightarrow> tool_call \<Rightarrow> permission_request" where
  "permission_request_for run call =
     \<lparr>pr_permission_id = ''perm_'' @ tc_id call, pr_run_id = run, pr_tool_call_id = tc_id call,
      pr_tool_name = tc_name call, pr_risk = tc_risk call,
      pr_summary = ''Allow '' @ tc_display_name call @ '' to run.'',
      pr_detail = ''The Agent Runtime is waiting for permission before executing this tool.'',
      pr_arguments = tc_arguments call\<rparr>"

text \<open>
  The part of \<^verbatim>\<open>executeTool\<close> after the gate: run the tool and report. \<open>has_goal\<close> says whether
  the run has a goal once the tool has run.
\<close>

definition run_and_report ::
  "bool \<Rightarrow> (tool_call \<Rightarrow> tool_result \<times> string) \<Rightarrow> tool_call
    \<Rightarrow> tool_result \<times> string \<times> bool \<times> exec_event list" where
  "run_and_report has_goal run_tool call =
     (case run_tool call of (result, output) \<Rightarrow>
        let failed = (tr_status result = ''failed'');
            sent = (if output \<noteq> [] then [Tool_Output_Sent failed output] else [])
        in if failed
           then (result, output, False, [Tool_Ran call] @ sent @ [Tool_Failed_Sent result])
           else (result, output, True,
             [Tool_Ran call] @ sent @ [Tool_Finished_Sent result]
             @ (if tc_name call = ''todo.write'' \<or> tc_name call = ''todo_write''
                then [Todo_Updated_Sent] else [])
             @ (if tc_name call \<in> set [''goal.write'', ''goal.update'', ''goal.checkpoint'',
                     ''goal.complete''] \<and> has_goal
                then [Goal_Updated_Sent (trim_prefix (tc_name call) ''goal.'')] else [])))"

text \<open>
  \<open>ask\<close> is \<^verbatim>\<open>requestPermission\<close>: the decision received, or \<open>None\<close> when the run was cancelled
  or five minutes passed.
\<close>

definition execute_tool ::
  "reply_options \<Rightarrow> string \<Rightarrow> bool \<Rightarrow> (permission_request \<Rightarrow> string option)
    \<Rightarrow> (tool_call \<Rightarrow> tool_result \<times> string) \<Rightarrow> tool_call
    \<Rightarrow> tool_result \<times> string \<times> bool \<times> exec_event list" where
  "execute_tool opts run has_goal ask run_tool call =
     (let decision = evaluate_tool_policy opts call;
          started = Tool_Started call decision;
          go = (\<lambda>sent. case run_and_report has_goal run_tool call of (result, output, ok, events) \<Rightarrow>
                  (result, output, ok, [started] @ sent @ events));
          deny = (\<lambda>sent reason. let r = denied_result call reason in
                  (r, [], False, [started] @ sent @ [Tool_Failed_Sent r]))
      in case dec_action decision of
           Decision_Deny \<Rightarrow> deny [] (dec_reason decision)
         | Decision_Require_Permission \<Rightarrow>
             (let request = permission_request_for run call
              in if ask request = Some ''approve'' then go [Permission_Requested request]
                 else deny [Permission_Requested request] ''permission denied'')
         | Decision_Allow \<Rightarrow> go [])"

subsection \<open>Lemmas\<close>

lemmas policy_defs = evaluate_tool_policy_def risk_based_decision_def goals_disabled_def

lemma risks_distinct [simp]:
  "risk_low \<noteq> risk_medium" "risk_low \<noteq> risk_high" "risk_medium \<noteq> risk_high"
  "risk_low \<noteq> []" "risk_medium \<noteq> []" "risk_high \<noteq> []"
  "risk_medium \<noteq> risk_low" "risk_high \<noteq> risk_low" "risk_high \<noteq> risk_medium"
  by (simp_all add: risk_defs)

lemma not_offered_denied:
  "\<not> tool_offered opts (tc_name call) \<Longrightarrow> dec_action (evaluate_tool_policy opts call) = Decision_Deny"
  by (auto simp: tool_offered_def evaluate_tool_policy_def)

lemma offered_decision:
  assumes "tool_offered opts (tc_name call)"
  shows "evaluate_tool_policy opts call =
      (if opt_tool_policy opts = ''deny_all''
       then \<lparr>dec_action = Decision_Deny, dec_reason = ''tool_policy denied all tools''\<rparr>
       else if opt_tool_policy opts = ''allow_all''
       then \<lparr>dec_action = Decision_Allow, dec_reason = ''tool_policy allowed all tools''\<rparr>
       else if opt_tool_policy opts = ''ask_all''
       then \<lparr>dec_action = Decision_Require_Permission,
             dec_reason = ''tool_policy requires permission for all tools''\<rparr>
       else if opt_tool_policy opts = ''risk_based'' \<or> opt_tool_policy opts = []
       then risk_based_decision (opt_permission_mode opts) (tc_risk call)
       else \<lparr>dec_action = Decision_Deny,
             dec_reason = ''unknown tool_policy '' @ go_quote (opt_tool_policy opts)\<rparr>)"
proof -
  have g: "\<not> goals_disabled opts (tc_name call)"
    and d: "\<not> contains_string (opt_tool_denylist opts) (tc_name call)"
    and a: "\<not> (opt_tool_allowlist opts \<noteq> []
      \<and> \<not> contains_string (opt_tool_allowlist opts) (tc_name call))"
    using assms by (auto simp: tool_offered_def)
  show ?thesis
    unfolding evaluate_tool_policy_def if_not_P [OF g] if_not_P [OF d] if_not_P [OF a] ..
qed

lemma allow_cases:
  assumes "dec_action (evaluate_tool_policy opts call) = Decision_Allow"
  shows "tool_offered opts (tc_name call)"
    and "opt_tool_policy opts = ''allow_all''
      \<or> (opt_tool_policy opts \<in> {''risk_based'', []}
         \<and> (tc_risk call = risk_low \<or> opt_permission_mode opts = ''allow_all''
            \<or> opt_permission_mode opts = ''permissive'' \<and> tc_risk call \<noteq> risk_high))"
proof -
  show offered: "tool_offered opts (tc_name call)"
    using assms not_offered_denied by fastforce
  show "opt_tool_policy opts = ''allow_all''
      \<or> (opt_tool_policy opts \<in> {''risk_based'', []}
         \<and> (tc_risk call = risk_low \<or> opt_permission_mode opts = ''allow_all''
            \<or> opt_permission_mode opts = ''permissive'' \<and> tc_risk call \<noteq> risk_high))"
    using assms unfolding offered_decision [OF offered] risk_based_decision_def
    by (auto split: if_splits)
qed

lemma find_tool_name: "find_tool name = Some d \<Longrightarrow> td_name d = name \<and> d \<in> set available_tools"
  by (auto simp: find_tool_def find_Some_iff)

lemma find_map: "find (\<lambda>d. f d = x) xs = map_of (map (\<lambda>d. (f d, d)) xs) x"
  by (induction xs) auto

lemma find_tool_risk:
  "map_option td_risk (find_tool name) = map_of (zip (map td_name available_tools)
     (map td_risk available_tools)) name"
proof -
  have "map_option g (find (\<lambda>d. f d = x) ds) = map_of (zip (map f ds) (map g ds)) x"
    for f :: "tool_definition \<Rightarrow> string" and g :: "tool_definition \<Rightarrow> tool_risk" and ds x
    by (induction ds) auto
  then show ?thesis by (simp add: find_tool_def)
qed

lemma invocation_from_call_Inr:
  assumes "invocation_from_call run index call = Inr call'"
  obtains d where "find_tool (tc_name call) = Some d" "tc_name call' = tc_name call"
    "tc_risk call' = (if tc_risk call = [] then td_risk d else tc_risk call)"
    "tc_id call' \<noteq> []" "tc_arguments call' \<noteq> None"
  using assms
  by (auto simp: invocation_from_call_def Let_def split: if_splits option.splits)

lemma read_invocation_kind [simp]:
  "tc_name (read_invocation run a) = ''workspace.read_file''" "tc_risk (read_invocation run a) = risk_low"
  "\<exists>args. tc_arguments (read_invocation run a) = Some args" "tc_id (read_invocation run a) \<noteq> []"
  by (simp_all add: read_invocation_def command_call_def split: prod.splits)

lemma list_invocation_kind [simp]:
  "tc_name (list_invocation run a) = ''workspace.list''" "tc_risk (list_invocation run a) = risk_low"
  "\<exists>args. tc_arguments (list_invocation run a) = Some args" "tc_id (list_invocation run a) \<noteq> []"
  by (simp_all add: list_invocation_def command_call_def split: prod.splits)

lemma grep_invocation_kind [simp]:
  "tc_name (grep_invocation run a) = ''workspace.grep''" "tc_risk (grep_invocation run a) = risk_low"
  "\<exists>args. tc_arguments (grep_invocation run a) = Some args" "tc_id (grep_invocation run a) \<noteq> []"
  by (simp_all add: grep_invocation_def command_call_def split: prod.splits)

lemma shell_invocation_kind [simp]:
  "tc_name (shell_invocation run a) = ''shell.exec''" "tc_risk (shell_invocation run a) = risk_high"
  "\<exists>args. tc_arguments (shell_invocation run a) = Some args" "tc_id (shell_invocation run a) \<noteq> []"
  by (simp_all add: shell_invocation_def command_call_def split: prod.splits)

lemma write_invocation_kind [simp]:
  "tc_name (write_invocation run a) = ''workspace.write_file''" "tc_risk (write_invocation run a) = risk_high"
  "\<exists>args. tc_arguments (write_invocation run a) = Some args" "tc_id (write_invocation run a) \<noteq> []"
  by (simp_all add: write_invocation_def command_call_def split: prod.splits)

lemma edit_invocation_kind [simp]:
  "tc_name (edit_invocation run a) = ''workspace.edit_file''" "tc_risk (edit_invocation run a) = risk_high"
  "\<exists>args. tc_arguments (edit_invocation run a) = Some args" "tc_id (edit_invocation run a) \<noteq> []"
  by (simp_all add: edit_invocation_def command_call_def split: prod.splits)

lemma diff_invocation_kind [simp]:
  "tc_name (diff_invocation run a) = ''workspace.diff_file''" "tc_risk (diff_invocation run a) = risk_low"
  "\<exists>args. tc_arguments (diff_invocation run a) = Some args" "tc_id (diff_invocation run a) \<noteq> []"
  by (simp_all add: diff_invocation_def command_call_def split: prod.splits)

lemma patch_invocation_kind [simp]:
  "tc_name (patch_invocation run a) = ''workspace.apply_patch''" "tc_risk (patch_invocation run a) = risk_high"
  "\<exists>args. tc_arguments (patch_invocation run a) = Some args" "tc_id (patch_invocation run a) \<noteq> []"
  by (simp_all add: patch_invocation_def command_call_def split: prod.splits)

text \<open>The tools that change the workspace, the machine, the skills or the memory, or reach out.\<close>

definition guarded_tools :: "string list" where
  "guarded_tools =
     [''workspace.write_file'', ''workspace.edit_file'', ''workspace.apply_patch'', ''shell.exec'',
      ''skill.create'', ''skill.update'', ''skill.delete'', ''skill.run'',
      ''memory.create'', ''memory.update'', ''memory.delete'', ''web.search'', ''web.fetch'']"

lemma guarded_tools_high: "\<forall>name \<in> set guarded_tools. map_option td_risk (find_tool name) = Some risk_high"
  unfolding find_tool_risk available_tool_names available_tool_risks
  by (simp add: guarded_tools_def)

subsection \<open>Properties\<close>


definition closing_event :: "exec_event \<Rightarrow> bool" where
  "closing_event e \<longleftrightarrow>
     (case e of Tool_Failed_Sent r \<Rightarrow> True | Tool_Finished_Sent r \<Rightarrow> True | _ \<Rightarrow> False)"

lemma closing_event_simps [simp]:
  "\<not> closing_event (Tool_Started c d)" "\<not> closing_event (Permission_Requested q)"
  "\<not> closing_event (Tool_Ran c)" "\<not> closing_event (Tool_Output_Sent f t)"
  "closing_event (Tool_Failed_Sent r)" "closing_event (Tool_Finished_Sent r)"
  "\<not> closing_event Todo_Updated_Sent" "\<not> closing_event (Goal_Updated_Sent a)"
  by (simp_all add: closing_event_def)


text \<open>
  No tool that changes files, runs commands, edits skills or memory or reaches the network
  runs without a permission by default: a call of the model carries no risk of its own, gets
  the high risk of the table, and under the risk-based policy is then never allowed outright
  unless the permission mode is \<^verbatim>\<open>allow_all\<close>.
\<close>

theorem guarded_tools_need_permission:
  assumes "tc_name call \<in> set guarded_tools" and "tc_risk call = []"
    and "invocation_from_call run index call = Inr call'"
    and "opt_tool_policy opts \<in> {''risk_based'', []}" and "opt_permission_mode opts \<noteq> ''allow_all''"
  shows "tc_risk call' = risk_high
    \<and> dec_action (evaluate_tool_policy opts call') \<noteq> Decision_Allow"
proof -
  obtain d where d: "find_tool (tc_name call) = Some d" "tc_risk call' = td_risk d"
    using assms(2,3) by (auto elim!: invocation_from_call_Inr)
  with guarded_tools_high assms(1) have "tc_risk call' = risk_high" by force
  then show ?thesis
    using allow_cases(2) [of opts call'] assms(4,5) by auto
qed

definition witness_options :: reply_options where
  "witness_options =
     \<lparr>opt_permission_mode = ''strict'', opt_tool_policy = [], opt_tool_allowlist = [],
      opt_tool_denylist = [], opt_require_permission = True, opt_spawn_subagents = True,
      opt_subagent_backend = [], opt_memory_context = None, opt_todo_context = None,
      opt_goal_context = None, opt_goals_enabled = None, opt_goal_id = [],
      opt_max_tool_turns = 0, opt_worker_max_turns = 0\<rparr>"

definition witness_call :: "string \<Rightarrow> tool_call" where
  "witness_call name =
     \<lparr>tc_id = ''call_1'', tc_name = name, tc_display_name = [], tc_risk = [], tc_arguments = None\<rparr>"

theorem guarded_tools_need_permission_witness:
  "\<exists>call'. invocation_from_call ''run_1'' 0 (witness_call ''shell.exec'') = Inr call'
    \<and> dec_action (evaluate_tool_policy witness_options call') \<noteq> Decision_Allow"
proof -
  have "map_option td_risk (find_tool ''shell.exec'') = Some risk_high"
    using guarded_tools_high by (simp add: guarded_tools_def)
  then obtain d where "find_tool ''shell.exec'' = Some d" by auto
  then obtain call' where "invocation_from_call ''run_1'' 0 (witness_call ''shell.exec'') = Inr call'"
    by (auto simp: invocation_from_call_def witness_call_def Let_def)
  with guarded_tools_need_permission [OF _ _ this, of witness_options] show ?thesis
    by (simp add: witness_call_def guarded_tools_def witness_options_def)
qed

text \<open>
  C8. What the model is shown and what it may call agree: a tool that is not offered is denied
  when called anyway, and under the policies that do not deny as such every offered tool can
  be called, with or without a permission.
\<close>

theorem offered_iff_callable:
  assumes "tc_name call = td_name d" and "d \<in> set defs"
  shows "(d \<notin> set (available_tools_for_options defs opts) \<longrightarrow>
        dec_action (evaluate_tool_policy opts call) = Decision_Deny)
    \<and> (d \<in> set (available_tools_for_options defs opts)
        \<and> (opt_tool_policy opts \<in> {''allow_all'', ''ask_all''}
           \<or> opt_tool_policy opts \<in> {''risk_based'', []} \<and> opt_permission_mode opts \<noteq> ''deny_all'') \<longrightarrow>
        dec_action (evaluate_tool_policy opts call) \<noteq> Decision_Deny)"
proof (cases "tool_offered opts (tc_name call)")
  case True
  with assms show ?thesis
    unfolding available_tools_for_options_def offered_decision [OF True]
    by (auto simp: risk_based_decision_def)
next
  case False
  with not_offered_denied [OF this] assms show ?thesis
    by (auto simp: available_tools_for_options_def)
qed

theorem offered_iff_callable_witness:
  "dec_action (evaluate_tool_policy (witness_options\<lparr>opt_tool_denylist := [''shell.exec'']\<rparr>)
     (witness_call ''shell.exec'')) = Decision_Deny"
proof -
  let ?opts = "witness_options\<lparr>opt_tool_denylist := [''shell.exec'']\<rparr>"
  have name: "tc_name (witness_call ''shell.exec'') = td_name tool_shell_exec"
    by (simp add: witness_call_def tool_shell_exec_def)
  have "tool_shell_exec \<in> set [tool_shell_exec]" by simp
  from offered_iff_callable [OF name this, of ?opts] show ?thesis
    by (simp add: available_tools_for_options_def tool_offered_def tool_shell_exec_def)
qed

text \<open>
  A slash command is a tool call like any other: it is parsed only into tools of the
  table, and with the risk the table gives that tool, so it passes the same gate.
\<close>

theorem parsed_command_in_table:
  assumes "parse_tool_command text run = Some call"
  shows "map_option td_risk (find_tool (tc_name call)) = Some (tc_risk call)
    \<and> tc_arguments call \<noteq> None \<and> tc_id call \<noteq> []"
proof -
  note lookup = find_tool_risk available_tool_names available_tool_risks
  have table:
    "map_option td_risk (find_tool ''workspace.read_file'') = Some risk_low"
    "map_option td_risk (find_tool ''workspace.list'') = Some risk_low"
    "map_option td_risk (find_tool ''workspace.grep'') = Some risk_low"
    "map_option td_risk (find_tool ''shell.exec'') = Some risk_high"
    "map_option td_risk (find_tool ''workspace.write_file'') = Some risk_high"
    "map_option td_risk (find_tool ''workspace.edit_file'') = Some risk_high"
    "map_option td_risk (find_tool ''workspace.diff_file'') = Some risk_low"
    "map_option td_risk (find_tool ''workspace.apply_patch'') = Some risk_high"
    by (simp_all add: lookup)
  have kinds: "\<exists>arg. call = read_invocation run arg \<or> call = list_invocation run arg
      \<or> call = grep_invocation run arg \<or> call = shell_invocation run arg
      \<or> call = write_invocation run arg \<or> call = edit_invocation run arg
      \<or> call = diff_invocation run arg \<or> call = patch_invocation run arg"
    using assms unfolding parse_tool_command_def Let_def by (elim if_SomeE) auto
  then show ?thesis by (elim exE disjE) (simp_all add: table)
qed

theorem parsed_command_in_table_witness:
  "map_option td_risk (find_tool ''shell.exec'') = Some risk_high"
proof -
  have "trim_space ''/shell ls'' = ''/shell ls''" "trim_space ''ls'' = ''ls''"
    by (rule trim_space_tight; simp add: ascii_text_def byte_in_def ascii_space_def)+
  then have "parse_tool_command ''/shell ls'' ''r'' = Some (shell_invocation ''r'' ''ls'')"
    by (simp add: parse_tool_command_def Let_def command_rest_def has_prefix_def trim_prefix_def)
  from parsed_command_in_table [OF this] show ?thesis
    by (simp add: shell_invocation_def command_call_def)
qed

end
