(* ===== verification/Workers.thy ===== *)
theory Workers
  imports Tool_Policy
begin

text \<open>
  How the Agent Runtime configures a worker, the child run that \<^verbatim>\<open>subagent.run\<close> and
  \<^verbatim>\<open>skill.run\<close> start (\<^verbatim>\<open>runtime/goal_specialists.go\<close>, and the parts of
  \<^verbatim>\<open>runtime/subagent_tools.go\<close> and \<^verbatim>\<open>runtime/skill_subagent.go\<close> before and after the call of
  the process pool): the specialists of the goal pipeline, the turn budget of a worker, and
  the options the child run gets. What the worker then does is bounded by these options alone,
  since the child applies \<open>evaluate_tool_policy\<close> to them.
\<close>

subsection \<open>Specialists of the goal pipeline\<close>

record goal_specialist =
  gs_key :: string
  gs_name_zh :: string
  gs_phase :: string
  gs_default_max_turns :: int
  gs_allowlist :: "string list"
  gs_extra_denylist :: "string list"
  gs_system_prompt :: string
  gs_cap_max_turns :: int

definition workspace_read_tools :: "string list" where
  "workspace_read_tools =
     [''workspace.read_file'', ''workspace.list'', ''workspace.grep'', ''workspace.diff_file'',
      ''workspace.stats'']"

definition workspace_write_tools :: "string list" where
  "workspace_write_tools =
     [''workspace.write_file'', ''workspace.edit_file'', ''workspace.apply_patch'']"

text \<open>In the prompts below a backquote stands for a double quote.\<close>

definition with_quotes :: "string \<Rightarrow> string" where
  "with_quotes s = map (\<lambda>c. if c = CHR 0x60 then CHR 0x22 else c) s"

definition spec_goal_analyst :: goal_specialist where
  "spec_goal_analyst =
     \<lparr>gs_key = ''goal-analyst'', gs_name_zh =
        [CHR 0xE7, CHR 0x9B, CHR 0xAE, CHR 0xE6, CHR 0xA0, CHR 0x87, CHR 0xE5, CHR 0x88,
         CHR 0x86, CHR 0xE6, CHR 0x9E, CHR 0x90, CHR 0xE5, CHR 0xB8, CHR 0x88],
      gs_phase = ''analyze'', gs_default_max_turns = 12,
      gs_allowlist = workspace_read_tools @ [''web.search'', ''web.fetch''],
      gs_extra_denylist = workspace_write_tools @ [''shell.exec''],
      gs_system_prompt =
        with_quotes (join_with [CHR 0x0A]
         [''You are goal-analyst for red_panda ('' @ [CHR 0xE7, CHR 0x9B, CHR 0xAE, CHR 0xE6,
         CHR 0xA0, CHR 0x87, CHR 0xE5, CHR 0x88, CHR 0x86, CHR 0xE6, CHR 0x9E, CHR 0x90,
         CHR 0xE5, CHR 0xB8, CHR 0x88] @ '').'',
          [],
          ''Role: analyze the user request and codebase only. Read-only.'',
          [],
          ''Rules:'',
          ''- Do NOT modify files or run write/shell commands.'',
          ''- Do NOT call goal.* or todo.* tools.'',
          ''- Do NOT spawn nested subagents.'',
          ''- Produce a clear final report the parent can trust.'',
          [],
          ''Preferred final report shape (JSON in a fenced block is ideal):'',
          ''{'',
          ''  `intent`: `...`,'',
          ''  `in_scope`: [`...`],'',
          ''  `out_of_scope`: [`...`],'',
          ''  `constraints`: [`...`],'',
          ''  `success_signals`: [`...`],'',
          ''  `risks`: [`...`],'',
          ''  `suggested_approach`: `...`,'',
          ''  `trivial`: false,'',
          ''  `key_paths`: [`...`]'',
          ''}'',
          [],
          ''If the request is trivial one-shot Q&A, set `trivial`: true and explain why a Goal is unnecessary.'']),
      gs_cap_max_turns = 24\<rparr>"

definition spec_goal_planner :: goal_specialist where
  "spec_goal_planner =
     \<lparr>gs_key = ''goal-planner'', gs_name_zh =
        [CHR 0xE7, CHR 0x9B, CHR 0xAE, CHR 0xE6, CHR 0xA0, CHR 0x87, CHR 0xE8, CHR 0xA7,
         CHR 0x84, CHR 0xE5, CHR 0x88, CHR 0x92, CHR 0xE5, CHR 0xB8, CHR 0x88],
      gs_phase = ''plan'', gs_default_max_turns = 8,
      gs_allowlist = workspace_read_tools,
      gs_extra_denylist = workspace_write_tools @ [''shell.exec'', ''web.search'', ''web.fetch''],
      gs_system_prompt =
        with_quotes (join_with [CHR 0x0A]
         [''You are goal-planner for red_panda ('' @ [CHR 0xE7, CHR 0x9B, CHR 0xAE, CHR 0xE6,
         CHR 0xA0, CHR 0x87, CHR 0xE8, CHR 0xA7, CHR 0x84, CHR 0xE5, CHR 0x88, CHR 0x92,
         CHR 0xE5, CHR 0xB8, CHR 0x88] @ '').'',
          [],
          ''Role: turn analysis into an executable plan. Read-only.'',
          [],
          ''Rules:'',
          ''- Do NOT write files or claim tools that create goals/todos (parent owns goal.write / todo.write).'',
          ''- Steps must be verifiable and ordered; keep granularity practical.'',
          ''- success_criteria must be checkable (tests, files, behaviors).'',
          [],
          ''Preferred final report JSON:'',
          ''{'',
          ''  `title`: `...`,'',
          ''  `objective`: `...`,'',
          ''  `success_criteria`: `multi-line criteria`,'',
          ''  `steps`: [{`id`:`1`,`content`:`...`,`verify_hint`:`...`}],'',
          ''  `notes`: `...`'',
          ''}'']),
      gs_cap_max_turns = 12\<rparr>"

definition spec_goal_implementer :: goal_specialist where
  "spec_goal_implementer =
     \<lparr>gs_key = ''goal-implementer'', gs_name_zh =
        [CHR 0xE7, CHR 0x9B, CHR 0xAE, CHR 0xE6, CHR 0xA0, CHR 0x87, CHR 0xE5, CHR 0xAE,
         CHR 0x9E, CHR 0xE6, CHR 0x96, CHR 0xBD, CHR 0xE8, CHR 0x80, CHR 0x85],
      gs_phase = ''execute'', gs_default_max_turns = 24,
      gs_allowlist = [],
      gs_extra_denylist = [''web.search'', ''web.fetch'', ''skill.run'', ''skill.create'', ''skill.update'', ''skill.delete''],
      gs_system_prompt =
        with_quotes (join_with [CHR 0x0A]
         [''You are goal-implementer for red_panda ('' @ [CHR 0xE7, CHR 0x9B, CHR 0xAE, CHR 0xE6,
         CHR 0xA0, CHR 0x87, CHR 0xE5, CHR 0xAE, CHR 0x9E, CHR 0xE6, CHR 0x96, CHR 0xBD,
         CHR 0xE8, CHR 0x80, CHR 0x85] @ '').'',
          [],
          ''Role: implement ONLY the current assigned step. Prefer minimal diffs.'',
          [],
          ''Rules:'',
          ''- Stay inside the step scope; do not rewrite unrelated modules.'',
          ''- Do NOT call goal.* / todo.* / subagent.* (parent owns session state).'',
          ''- End with a concrete ImplementationReport the verifier can check.'',
          [],
          ''Preferred final report JSON:'',
          ''{'',
          ''  `step_id`: `...`,'',
          ''  `done_claim`: true,'',
          ''  `changes`: [{`path`:`...`,`summary`:`...`}],'',
          ''  `commands_run`: [`...`],'',
          ''  `blockers`: [],'',
          ''  `notes_for_verifier`: `...`'',
          ''}'']),
      gs_cap_max_turns = 48\<rparr>"

definition spec_goal_verifier :: goal_specialist where
  "spec_goal_verifier =
     \<lparr>gs_key = ''goal-verifier'', gs_name_zh =
        [CHR 0xE7, CHR 0x9B, CHR 0xAE, CHR 0xE6, CHR 0xA0, CHR 0x87, CHR 0xE9, CHR 0xAA,
         CHR 0x8C, CHR 0xE8, CHR 0xAF, CHR 0x81, CHR 0xE8, CHR 0x80, CHR 0x85],
      gs_phase = ''verify'', gs_default_max_turns = 12,
      gs_allowlist = workspace_read_tools @ [''shell.exec''],
      gs_extra_denylist = workspace_write_tools,
      gs_system_prompt =
        with_quotes (join_with [CHR 0x0A]
         [''You are goal-verifier for red_panda ('' @ [CHR 0xE7, CHR 0x9B, CHR 0xAE, CHR 0xE6,
         CHR 0xA0, CHR 0x87, CHR 0xE9, CHR 0xAA, CHR 0x8C, CHR 0xE8, CHR 0xAF, CHR 0x81,
         CHR 0xE8, CHR 0x80, CHR 0x85] @ '').'',
          [],
          ''Role: skeptically verify the current step with evidence (read/tests/commands).'',
          [],
          ''Rules:'',
          ''- Prefer evidence over the implementer'' @ [CHR 0x27] @ ''s claims.'',
          ''- Do NOT edit product source in v1 (no write/edit/apply_patch).'',
          ''- shell.exec is only for tests/builds that validate the step.'',
          ''- Do NOT call goal.* / todo.* / subagent.*.'',
          [],
          ''Preferred final report JSON:'',
          ''{'',
          ''  `step_id`: `...`,'',
          ''  `passed`: true,'',
          ''  `evidence`: [{`kind`:`test|read|command`,`detail`:`...`}],'',
          ''  `failures`: [],'',
          ''  `retry_suggestion`: `...`'',
          ''}'']),
      gs_cap_max_turns = 16\<rparr>"

definition spec_goal_evaluator :: goal_specialist where
  "spec_goal_evaluator =
     \<lparr>gs_key = ''goal-evaluator'', gs_name_zh =
        [CHR 0xE7, CHR 0x9B, CHR 0xAE, CHR 0xE6, CHR 0xA0, CHR 0x87, CHR 0xE7, CHR 0xBB,
         CHR 0x88, CHR 0xE8, CHR 0xAF, CHR 0x84, CHR 0xE5, CHR 0xAE, CHR 0x98],
      gs_phase = ''evaluate'', gs_default_max_turns = 8,
      gs_allowlist = workspace_read_tools,
      gs_extra_denylist = workspace_write_tools @ [''shell.exec'', ''web.search'', ''web.fetch''],
      gs_system_prompt =
        with_quotes (join_with [CHR 0x0A]
         [''You are goal-evaluator for red_panda ('' @ [CHR 0xE7, CHR 0x9B, CHR 0xAE, CHR 0xE6,
         CHR 0xA0, CHR 0x87, CHR 0xE7, CHR 0xBB, CHR 0x88, CHR 0xE8, CHR 0xAF, CHR 0x84,
         CHR 0xE5, CHR 0xAE, CHR 0x98] @ '').'',
          [],
          ''Role: evaluate the whole goal against success_criteria and draft the user-facing completion report.'',
          [],
          ''Rules:'',
          ''- Read-only. Do not write files or run shell.'',
          ''- Compare evidence from prior specialist reports and the workspace.'',
          ''- Do NOT call goal.complete (parent does after publishing the report).'',
          [],
          ''Preferred final report JSON:'',
          ''{'',
          ''  `verdict`: `succeeded|partial|failed`,'',
          ''  `criteria`: [{`item`:`...`,`result`:`met|partial|not_met|blocked`,`evidence`:`...`}],'',
          ''  `steps_summary`: [{`id`:`...`,`status`:`completed`,`note`:`...`}],'',
          ''  `risks`: [`...`],'',
          ''  `followups`: [`...`],'',
          ''  `report_markdown`: `## '' @ [CHR 0xE7, CHR 0x9B, CHR 0xAE, CHR 0xE6, CHR 0xA0,
         CHR 0x87, CHR 0xE5, CHR 0xAE, CHR 0x8C, CHR 0xE6, CHR 0x88, CHR 0x90, CHR 0xE6,
         CHR 0x8A, CHR 0xA5, CHR 0xE5, CHR 0x91, CHR 0x8A, CHR 0x5C, CHR 0x5C] @ ''n...`'',
          ''}'']),
      gs_cap_max_turns = 12\<rparr>"

definition builtin_goal_specialists :: "(string \<times> goal_specialist) list" where
  "builtin_goal_specialists =
     [(''goal-analyst'', spec_goal_analyst), (''goal-planner'', spec_goal_planner),
      (''goal-implementer'', spec_goal_implementer), (''goal-verifier'', spec_goal_verifier),
      (''goal-evaluator'', spec_goal_evaluator)]"

definition normalize_specialist_key :: "string \<Rightarrow> string" where
  "normalize_specialist_key name =
     map (\<lambda>c. if c = CHR ''_'' then CHR ''-'' else c) (to_lower (trim_space name))"

definition lookup_goal_specialist :: "string \<Rightarrow> goal_specialist option" where
  "lookup_goal_specialist name =
     (let key = normalize_specialist_key name
      in if key = [] then None else map_of builtin_goal_specialists key)"

definition is_goal_specialist_name :: "string \<Rightarrow> bool" where
  "is_goal_specialist_name name \<longleftrightarrow> lookup_goal_specialist name \<noteq> None"

definition specialist_display_name :: "string \<Rightarrow> string" where
  "specialist_display_name name =
     (case lookup_goal_specialist name of
        Some spec \<Rightarrow> if gs_name_zh spec \<noteq> [] then gs_name_zh spec else name
      | None \<Rightarrow> name)"

text \<open>The goal state of the run, as far as the phase check reads it.\<close>

record run_goal =
  rg_id :: string
  rg_pipeline_phase :: string
  rg_terminal :: bool

definition validate_specialist_phase :: "run_goal option \<Rightarrow> goal_specialist \<Rightarrow> string option" where
  "validate_specialist_phase state spec =
     (case state of
        None \<Rightarrow> Some (gs_key spec @ '' requires an active goal'')
      | Some g \<Rightarrow>
          if trim_space (rg_id g) = [] \<or> rg_terminal g
          then Some (gs_key spec @ '' requires an active goal'')
          else let current = (if trim_space (rg_pipeline_phase g) = [] then ''analyze''
                              else trim_space (rg_pipeline_phase g))
               in if current \<noteq> gs_phase spec
                  then Some (gs_key spec @ '' is only valid in goal phase '' @ go_quote (gs_phase spec)
                        @ ''; current phase is '' @ go_quote current)
                  else None)"

subsection \<open>Tool lists\<close>

definition subagent_run_denylist :: "string list" where
  "subagent_run_denylist =
     [''subagent.run'', ''subagent.list'', ''subagent.cancel'', ''subagent.reset'',
      ''subagent.pool_status'', ''subagent.pool_resize'', ''subagent.pool_reset'', ''skill.run'',
      ''todo.write'', ''todo.list'', ''todo_write'', ''goal.write'', ''goal.update'',
      ''goal.checkpoint'', ''goal.complete'', ''goal.list'']"

fun append_unique_strings :: "string list \<Rightarrow> string list \<Rightarrow> string list" where
  "append_unique_strings items [] = items"
| "append_unique_strings items (v # vs) =
     append_unique_strings (if contains_string items v then items else items @ [v]) vs"

text \<open>The loop of \<^verbatim>\<open>intersectStrings\<close>; \<open>seen\<close> is the part of the result built so far.\<close>

fun intersect_loop :: "string list \<Rightarrow> string list \<Rightarrow> string list \<Rightarrow> string list" where
  "intersect_loop keep seen [] = seen"
| "intersect_loop keep seen (item # items) =
     (let t = trim_space item
      in if t = [] \<or> t \<notin> set keep \<or> t \<in> set seen then intersect_loop keep seen items
         else intersect_loop keep (seen @ [t]) items)"

definition intersect_strings :: "string list \<Rightarrow> string list \<Rightarrow> string list" where
  "intersect_strings a b = intersect_loop (map trim_space b) [] a"

text \<open>A worker's allowlist: the parent's one cut down to the specialist's, if both are set.\<close>

definition narrow_allowlist :: "string list \<Rightarrow> string list \<Rightarrow> string list" where
  "narrow_allowlist parent own =
     (if own = [] then parent else if parent \<noteq> [] then intersect_strings parent own else own)"

subsection \<open>Child options\<close>

record child_params =
  cp_text :: string
  cp_options :: reply_options

definition disable_goal_pipeline_for_child :: "reply_options \<Rightarrow> reply_options" where
  "disable_goal_pipeline_for_child opts =
     opts\<lparr>opt_goals_enabled := Some False, opt_goal_id := [], opt_goal_context := None\<rparr>"

definition specialist_turns :: "goal_specialist \<Rightarrow> int \<Rightarrow> int" where
  "specialist_turns spec turns =
     (let t1 = (if turns \<le> 0 then gs_default_max_turns spec else turns);
          t2 = (if gs_cap_max_turns spec > 0 \<and> t1 > gs_cap_max_turns spec
                then gs_cap_max_turns spec else t1)
      in if t2 < 1 then 1 else t2)"

definition specialist_prompt :: "goal_specialist \<Rightarrow> int \<Rightarrow> string" where
  "specialist_prompt spec turns =
     (if trim_space (gs_system_prompt spec) = []
      then ''You are specialist '' @ go_quote (gs_key spec) @ ''.''
      else trim_space (gs_system_prompt spec))
     @ [CHR 0x0A, CHR 0x0A] @ ''Specialist key='' @ gs_key spec @ '' phase='' @ gs_phase spec
     @ '' ('' @ gs_name_zh spec @ ''). Tool-turn budget='' @ int_dec turns
     @ ''. Return one final report for the parent. Do not nest subagents.''"

definition apply_goal_specialist ::
  "child_params \<Rightarrow> goal_specialist \<Rightarrow> string \<Rightarrow> int \<Rightarrow> child_params \<times> int" where
  "apply_goal_specialist child spec task turns =
     (let t = specialist_turns spec turns;
          o1 = disable_goal_pipeline_for_child ((cp_options child)\<lparr>opt_todo_context := None\<rparr>);
          o2 = o1\<lparr>opt_spawn_subagents := False, opt_subagent_backend := [], opt_max_tool_turns := t,
                  opt_tool_denylist :=
                    append_unique_strings
                      (append_unique_strings (opt_tool_denylist o1) subagent_run_denylist)
                      (gs_extra_denylist spec),
                  opt_tool_allowlist := narrow_allowlist (opt_tool_allowlist o1) (gs_allowlist spec),
                  opt_memory_context :=
                    Some \<lparr>mc_items = [], mc_context = specialist_prompt spec t\<rparr>\<rparr>;
          text = (if trim_space task \<noteq> [] \<and> \<not> contains_sub (cp_text child) task
                  then trim_space task @ [CHR 0x0A, CHR 0x0A] @ trim_space (cp_text child)
                  else cp_text child)
      in (child\<lparr>cp_text := text, cp_options := o2\<rparr>, t))"

text \<open>
  A user's agent definition; a nil tool list differs from an empty one where it overrides a
  specialist.
\<close>

record agent_definition =
  ad_key :: string
  ad_name :: string
  ad_name_zh :: string
  ad_phase :: string
  ad_system_prompt :: string
  ad_tool_allowlist :: "string list option"
  ad_tool_denylist :: "string list option"
  ad_default_max_turns :: int
  ad_enabled :: bool
  ad_builtin :: bool

definition list_of_slice :: "'a list option \<Rightarrow> 'a list" where
  "list_of_slice xs = (case xs of None \<Rightarrow> [] | Some ys \<Rightarrow> ys)"

definition agent_definition_for :: "agent_definition list \<Rightarrow> string \<Rightarrow> agent_definition option" where
  "agent_definition_for defs name =
     find (\<lambda>d. normalize_specialist_key (ad_key d) = normalize_specialist_key name) defs"

definition override_goal_specialist :: "goal_specialist \<Rightarrow> agent_definition \<Rightarrow> goal_specialist" where
  "override_goal_specialist spec d =
     spec\<lparr>gs_name_zh := (if trim_space (ad_name_zh d) \<noteq> [] then trim_space (ad_name_zh d)
                         else gs_name_zh spec),
          gs_phase := (if trim_space (ad_phase d) \<noteq> [] then trim_space (ad_phase d)
                       else gs_phase spec),
          gs_system_prompt := (if trim_space (ad_system_prompt d) \<noteq> []
                               then trim_space (ad_system_prompt d) else gs_system_prompt spec),
          gs_default_max_turns := (if ad_default_max_turns d > 0 then ad_default_max_turns d
                                   else gs_default_max_turns spec),
          gs_allowlist := (case ad_tool_allowlist d of Some l \<Rightarrow> l | None \<Rightarrow> gs_allowlist spec),
          gs_extra_denylist := (case ad_tool_denylist d of Some l \<Rightarrow> l
                                | None \<Rightarrow> gs_extra_denylist spec)\<rparr>"

definition apply_agent_definition ::
  "child_params \<Rightarrow> agent_definition \<Rightarrow> string \<Rightarrow> int \<Rightarrow> child_params \<times> int" where
  "apply_agent_definition child d task turns =
     (let t1 = (if ad_default_max_turns d > 0 \<and> turns \<le> 0 then ad_default_max_turns d else turns);
          t = (if t1 < 1 then 1 else t1);
          o1 = cp_options child;
          prompt = (if trim_space (ad_system_prompt d) = []
                    then ''You are a focused agent named '' @ go_quote (ad_key d) @ ''.''
                    else trim_space (ad_system_prompt d));
          o2 = o1\<lparr>opt_max_tool_turns := t,
                  opt_tool_denylist :=
                    append_unique_strings (opt_tool_denylist o1) (list_of_slice (ad_tool_denylist d)),
                  opt_tool_allowlist :=
                    narrow_allowlist (opt_tool_allowlist o1) (list_of_slice (ad_tool_allowlist d)),
                  opt_memory_context :=
                    Some \<lparr>mc_items = [],
                          mc_context = prompt @ [CHR 0x0A, CHR 0x0A] @ ''Assigned task:'' @ [CHR 0x0A]
                            @ task @ [CHR 0x0A, CHR 0x0A] @ ''Tool-turn budget='' @ int_dec t
                            @ ''. Return one final report.''\<rparr>\<rparr>
      in (child\<lparr>cp_options := o2\<rparr>, t))"

subsection \<open>Turn budget\<close>

definition subagent_summary_turns :: int where "subagent_summary_turns = 8"
definition default_subagent_tool_turns :: int where "default_subagent_tool_turns = 16"
definition default_subagent_max_turns :: int where "default_subagent_max_turns = 48"

definition recommended_subagent_turns :: "int \<Rightarrow> int" where
  "recommended_subagent_turns files =
     wrap_int64 ((if files < 1 then 1 else files) + subagent_summary_turns)"

definition effective_subagent_tool_turns :: "int \<Rightarrow> int \<Rightarrow> int" where
  "effective_subagent_tool_turns explicit files =
     (let turns = (if explicit > 0 then explicit
                   else if files > 0 then recommended_subagent_turns files
                   else default_subagent_tool_turns)
      in if turns > default_subagent_max_turns then default_subagent_max_turns else turns)"

definition worker_turn_cap :: "reply_options \<Rightarrow> int" where
  "worker_turn_cap opts =
     (if opt_worker_max_turns opts \<le> 0 then default_subagent_max_turns else opt_worker_max_turns opts)"

text \<open>The budget \<^verbatim>\<open>executeSubagentRun\<close> settles on before it reserves a worker.\<close>

definition requested_turns ::
  "reply_options \<Rightarrow> goal_specialist option \<Rightarrow> agent_definition option \<Rightarrow> int \<Rightarrow> int \<Rightarrow> int" where
  "requested_turns opts spec def explicit files =
     (let t0 = effective_subagent_tool_turns explicit files;
          t1 = (case def of
                  Some d \<Rightarrow> if explicit \<le> 0 \<and> files \<le> 0 \<and> ad_default_max_turns d > 0
                           then ad_default_max_turns d else t0
                | None \<Rightarrow> t0);
          t2 = (case spec of
                  Some s \<Rightarrow> if explicit \<le> 0 \<and> files \<le> 0 then gs_default_max_turns s else t1
                | None \<Rightarrow> t1);
          t3 = (case spec of
                  Some s \<Rightarrow> if gs_cap_max_turns s > 0 \<and> t2 > gs_cap_max_turns s
                           then gs_cap_max_turns s else t2
                | None \<Rightarrow> t2)
      in if t3 > worker_turn_cap opts then worker_turn_cap opts else t3)"

text \<open>
  \<^verbatim>\<open>sanitizeSubagentName\<close>: each run of characters outside \<^verbatim>\<open>a-zA-Z0-9._-\<close> becomes one dash.
\<close>

definition name_char :: "char \<Rightarrow> bool" where
  "name_char c \<longleftrightarrow>
     byte_in 0x61 0x7A c \<or> byte_in 0x41 0x5A c \<or> byte_in 0x30 0x39 c
     \<or> c \<in> {CHR ''.'', CHR ''_'', CHR ''-''}"

fun dash_runs :: "bool \<Rightarrow> string \<Rightarrow> string" where
  "dash_runs inside [] = []"
| "dash_runs inside (c # cs) =
     (if name_char c then c # dash_runs False cs
      else if inside then dash_runs True cs else CHR ''-'' # dash_runs True cs)"

definition trim_dashes :: "string \<Rightarrow> string" where
  "trim_dashes s = rev (dropWhile (\<lambda>c. c = CHR ''-'') (rev (dropWhile (\<lambda>c. c = CHR ''-'') s)))"

definition sanitize_subagent_name :: "string \<Rightarrow> string" where
  "sanitize_subagent_name name =
     (let cleaned = trim_dashes (dash_runs False (trim_space name))
      in if cleaned = [] then ''worker'' else if length cleaned > 48 then take 48 cleaned else cleaned)"

text \<open>\<^verbatim>\<open>reserveWorkerFanOut\<close>: workers started per root run.\<close>

definition reserve_worker_fan_out ::
  "(string \<Rightarrow> int) \<Rightarrow> string \<Rightarrow> int \<Rightarrow> (string \<Rightarrow> int) option" where
  "reserve_worker_fan_out counts run limit =
     (let l = (if limit \<le> 0 then 8 else limit)
      in if counts run \<ge> l then None else Some (counts(run := counts run + 1)))"

subsection \<open>Setting up a worker\<close>

text \<open>
  The options part of \<^verbatim>\<open>executeSubagentRun\<close>: which worker is asked for, and why it may be
  refused. \<open>files\<close> is the file count after the workspace was counted where the caller gave
  only a path.
\<close>

definition select_worker ::
  "agent_definition list \<Rightarrow> run_goal option \<Rightarrow> string
    \<Rightarrow> string + (goal_specialist option \<times> agent_definition option)" where
  "select_worker defs goal name =
     (let def = agent_definition_for defs name
      in case def of
           Some d \<Rightarrow>
             if \<not> ad_enabled d then Inl (''agent '' @ name @ '' is disabled'')
             else (case lookup_goal_specialist name of
                     None \<Rightarrow> Inr (None, Some d)
                   | Some s \<Rightarrow>
                       (let s' = override_goal_specialist s d
                        in case validate_specialist_phase goal s' of
                             Some err \<Rightarrow> Inl err | None \<Rightarrow> Inr (Some s', Some d)))
         | None \<Rightarrow>
             (case lookup_goal_specialist name of
                None \<Rightarrow> Inr (None, None)
              | Some s \<Rightarrow>
                  if defs \<noteq> []
                  then Inl (''goal specialist '' @ name @ '' is disabled or unavailable'')
                  else (case validate_specialist_phase goal s of
                          Some err \<Rightarrow> Inl err | None \<Rightarrow> Inr (Some s, None))))"

definition worker_intro :: "string \<Rightarrow> int \<Rightarrow> int \<Rightarrow> string" where
  "worker_intro name turns files =
     ''You are a focused subagent named '' @ go_quote name
     @ ''. Complete only the assigned task using workspace tools as needed. ''
     @ ''Your tool-turn budget is '' @ int_dec turns @ '' (derived from file_count='' @ int_dec files
     @ '' plus '' @ int_dec subagent_summary_turns @ '' turns for analysis summary). ''
     @ ''Return a clear final report for the parent agent. Do not spawn nested subagents.''"

text \<open>The child's parameters; \<open>text\<close> is the task text composed for it.\<close>

definition worker_child ::
  "reply_options \<Rightarrow> goal_specialist option \<Rightarrow> agent_definition option \<Rightarrow> string \<Rightarrow> string \<Rightarrow> string
    \<Rightarrow> int \<Rightarrow> int \<Rightarrow> child_params \<times> int" where
  "worker_child opts spec def name task text turns files =
     (let o1 = opts\<lparr>opt_memory_context :=
                      Some \<lparr>mc_items = [], mc_context = worker_intro name turns files\<rparr>,
                    opt_todo_context := None\<rparr>;
          o2 = (disable_goal_pipeline_for_child o1)
                 \<lparr>opt_spawn_subagents := False, opt_subagent_backend := [],
                  opt_tool_denylist := append_unique_strings (opt_tool_denylist opts) subagent_run_denylist,
                  opt_max_tool_turns := turns\<rparr>;
          c0 = \<lparr>cp_text = text, cp_options = o2\<rparr>;
          (c1, t1) = (case (def, spec) of
                        (Some d, None) \<Rightarrow> apply_agent_definition c0 d task turns
                      | _ \<Rightarrow> (c0, turns));
          (c2, t2) = (case spec of Some s \<Rightarrow> apply_goal_specialist c1 s task t1 | None \<Rightarrow> (c1, t1));
          cap = worker_turn_cap opts
      in if t2 > cap
         then (c2\<lparr>cp_options := (cp_options c2)\<lparr>opt_max_tool_turns := cap\<rparr>\<rparr>, cap)
         else (c2, t2))"

text \<open>The options of a skill's child run.\<close>

definition skill_subagent_denylist :: "string list" where
  "skill_subagent_denylist =
     [''workspace.write_file'', ''workspace.edit_file'', ''workspace.apply_patch'', ''shell.exec'',
      ''memory.list'', ''memory.create'', ''memory.update'', ''memory.delete'', ''todo.write'',
      ''goal.write'', ''goal.update'', ''goal.checkpoint'', ''goal.complete'', ''goal.list'',
      ''todo.list'', ''todo_write'', ''skill.create'', ''skill.update'', ''skill.delete'',
      ''skill.run'']"

definition skill_child_options :: "reply_options \<Rightarrow> string \<Rightarrow> string \<Rightarrow> reply_options" where
  "skill_child_options opts name skill =
     (disable_goal_pipeline_for_child
        (opts\<lparr>opt_memory_context :=
                Some \<lparr>mc_items = [],
                      mc_context = ''Managed skill '' @ go_quote name @ '' instructions:''
                        @ [CHR 0x0A, CHR 0x0A] @ skill\<rparr>,
              opt_todo_context := None\<rparr>))
       \<lparr>opt_require_permission := False, opt_spawn_subagents := False, opt_subagent_backend := [],
        opt_tool_denylist := append_unique_strings (opt_tool_denylist opts) skill_subagent_denylist\<rparr>"

subsection \<open>Lemmas on the tool lists\<close>

lemma set_append_unique [simp]: "set (append_unique_strings xs vs) = set xs \<union> set vs"
  by (induction xs vs rule: append_unique_strings.induct) auto

lemma set_intersect_loop:
  "set (intersect_loop keep seen items) =
    set seen \<union> {t. t \<in> trim_space ` set items \<and> t \<noteq> [] \<and> t \<in> set keep}"
  by (induction keep seen items rule: intersect_loop.induct) (auto simp: Let_def)

lemma set_intersect_strings:
  "set (intersect_strings a b) = {t. t \<in> trim_space ` set a \<and> t \<noteq> [] \<and> t \<in> trim_space ` set b}"
  by (simp add: intersect_strings_def set_intersect_loop)

lemma narrow_within:
  assumes "tool \<in> set (narrow_allowlist parent own)" and "parent \<noteq> []"
    and "\<forall>a \<in> set parent. trim_space a = a"
  shows "tool \<in> set parent"
  using assms by (auto simp: narrow_allowlist_def set_intersect_strings split: if_splits)

text \<open>What every way of setting up a worker leaves of the parent's options.\<close>

definition restricts :: "reply_options \<Rightarrow> reply_options \<Rightarrow> bool" where
  "restricts parent child \<longleftrightarrow>
     opt_tool_policy child = opt_tool_policy parent
     \<and> opt_permission_mode child = opt_permission_mode parent
     \<and> opt_goals_enabled child = Some False
     \<and> set (opt_tool_denylist parent) \<union> set subagent_run_denylist \<subseteq> set (opt_tool_denylist child)
     \<and> (\<exists>own. opt_tool_allowlist child = narrow_allowlist (opt_tool_allowlist parent) own)
     \<and> opt_spawn_subagents child = False"

lemma narrow_Nil [simp]: "narrow_allowlist parent [] = parent"
  by (simp add: narrow_allowlist_def)

lemma worker_child_cases:
  "worker_child opts spec def name task text turns files = (child, t) \<Longrightarrow>
    restricts opts (cp_options child) \<and> opt_max_tool_turns (cp_options child) = t
    \<and> (\<forall>s. spec = Some s \<longrightarrow> set (gs_extra_denylist s) \<subseteq> set (opt_tool_denylist (cp_options child))
         \<and> opt_tool_allowlist (cp_options child) = narrow_allowlist (opt_tool_allowlist opts) (gs_allowlist s))"
  by (cases spec; cases "def")
     (auto simp: worker_child_def Let_def apply_goal_specialist_def apply_agent_definition_def
       disable_goal_pipeline_for_child_def restricts_def split: if_splits intro: exI [of _ "[]"])

lemma restricts_offered:
  assumes "restricts parent child" and "tool_offered child tool"
    and "\<forall>a \<in> set (opt_tool_allowlist parent). trim_space a = a"
    and "opt_tool_allowlist parent = [] \<or> opt_tool_allowlist child \<noteq> []"
  shows "tool_offered parent tool" and "\<not> has_prefix tool ''goal.''"
    and "tool \<notin> set subagent_run_denylist"
proof -
  obtain own where own: "opt_tool_allowlist child = narrow_allowlist (opt_tool_allowlist parent) own"
    using assms(1) by (auto simp: restricts_def)
  show goal: "\<not> has_prefix tool ''goal.''"
    using assms(1,2) by (simp add: restricts_def tool_offered_def goals_disabled_def)
  show "tool \<notin> set subagent_run_denylist"
    using assms(1,2) by (auto simp: restricts_def tool_offered_def)
  show "tool_offered parent tool"
  proof (cases "opt_tool_allowlist parent = []")
    case True
    with assms(1,2) goal show ?thesis
      by (auto simp: restricts_def tool_offered_def goals_disabled_def)
  next
    case False
    with assms(2,4) own have "tool \<in> set (narrow_allowlist (opt_tool_allowlist parent) own)"
      by (auto simp: tool_offered_def)
    from narrow_within [OF this False assms(3)] assms(1,2) goal show ?thesis
      by (auto simp: restricts_def tool_offered_def goals_disabled_def)
  qed
qed

lemma requested_turns_cap: "requested_turns opts spec def explicit files \<le> worker_turn_cap opts"
  by (simp add: requested_turns_def Let_def split: option.splits)

lemma worker_turn_cap_pos: "1 \<le> worker_turn_cap opts"
  by (simp add: worker_turn_cap_def default_subagent_max_turns_def)

lemma worker_child_turns:
  "worker_child opts spec def name task text turns files = (child, t) \<Longrightarrow>
    t \<le> worker_turn_cap opts \<and> (1 \<le> turns \<longrightarrow> 1 \<le> t)
    \<and> (\<forall>s. spec = Some s \<and> 0 < gs_cap_max_turns s \<longrightarrow> t \<le> gs_cap_max_turns s)"
  using worker_turn_cap_pos [of opts]
  by (cases spec; cases "def")
     (auto simp: worker_child_def Let_def apply_goal_specialist_def apply_agent_definition_def
       specialist_turns_def split: if_splits)

lemma restricts_decision:
  assumes "restricts parent child" and "tool_offered child (tc_name call)"
    and "tool_offered parent (tc_name call)"
  shows "evaluate_tool_policy child call = evaluate_tool_policy parent call"
  using assms(1) unfolding offered_decision [OF assms(2)] offered_decision [OF assms(3)]
  by (simp add: restricts_def)

subsection \<open>Properties\<close>



definition narrow_parent :: reply_options where
  "narrow_parent =
     witness_options\<lparr>opt_tool_policy := ''allow_all'', opt_tool_allowlist := [''subagent.run'']\<rparr>"

lemma trim_tool_names [simp]:
  "trim_space ''workspace.read_file'' = ''workspace.read_file''"
  "trim_space ''workspace.list'' = ''workspace.list''"
  "trim_space ''workspace.grep'' = ''workspace.grep''"
  "trim_space ''workspace.diff_file'' = ''workspace.diff_file''"
  "trim_space ''workspace.stats'' = ''workspace.stats''"
  "trim_space ''shell.exec'' = ''shell.exec''"
  "trim_space ''subagent.run'' = ''subagent.run''"
  by (rule trim_space_tight; simp add: ascii_text_def byte_in_def ascii_space_def)+

text \<open>
  Without that last condition it fails: where the parent's allowlist and the specialist's
  have no tool in common, the intersection is empty, an empty allowlist means no allowlist,
  and the worker may call what its parent may not. Here a parent restricted to
  \<^verbatim>\<open>subagent.run\<close> starts the verifier, and the verifier may run shell commands.
\<close>

theorem empty_intersection_widens:
  "opt_tool_allowlist (cp_options (fst (worker_child narrow_parent (Some spec_goal_verifier) None
       ''goal-verifier'' ''check'' ''check'' 12 0))) = []
   \<and> dec_action (evaluate_tool_policy narrow_parent (witness_call ''shell.exec'')) = Decision_Deny
   \<and> dec_action (evaluate_tool_policy
       (cp_options (fst (worker_child narrow_parent (Some spec_goal_verifier) None
         ''goal-verifier'' ''check'' ''check'' 12 0)))
       (witness_call ''shell.exec'')) = Decision_Allow"
proof -
  obtain child t where c: "worker_child narrow_parent (Some spec_goal_verifier) None
      ''goal-verifier'' ''check'' ''check'' 12 0 = (child, t)" by (metis surj_pair)
  have allow: "gs_allowlist spec_goal_verifier = workspace_read_tools @ [''shell.exec'']"
    by (simp add: spec_goal_verifier_def)
  from worker_child_cases [OF c]
  have "opt_tool_allowlist (cp_options child)
      = narrow_allowlist [''subagent.run''] (workspace_read_tools @ [''shell.exec''])"
    by (simp add: narrow_parent_def allow)
  then have empty: "opt_tool_allowlist (cp_options child) = []"
    by (simp add: narrow_allowlist_def intersect_strings_def workspace_read_tools_def)
  have "opt_tool_denylist (cp_options child) = append_unique_strings
      (append_unique_strings (append_unique_strings [] subagent_run_denylist) subagent_run_denylist)
      (gs_extra_denylist spec_goal_verifier)"
    using c
    by (auto simp: worker_child_def Let_def apply_goal_specialist_def narrow_parent_def
        witness_options_def disable_goal_pipeline_for_child_def split: if_splits)
  then have "set (opt_tool_denylist (cp_options child))
      = set subagent_run_denylist \<union> set (gs_extra_denylist spec_goal_verifier)" by simp
  moreover have "gs_extra_denylist spec_goal_verifier = workspace_write_tools"
    by (simp add: spec_goal_verifier_def)
  ultimately have deny: "''shell.exec'' \<notin> set (opt_tool_denylist (cp_options child))"
    by (simp add: workspace_write_tools_def subagent_run_denylist_def)
  have "dec_action (evaluate_tool_policy (cp_options child) (witness_call ''shell.exec''))
      = Decision_Allow"
    using worker_child_cases [OF c] empty deny
    by (simp add: restricts_def evaluate_tool_policy_def goals_disabled_def witness_call_def
        narrow_parent_def has_prefix_def)
  moreover have "dec_action (evaluate_tool_policy narrow_parent (witness_call ''shell.exec''))
      = Decision_Deny"
    by (rule not_offered_denied) (simp add: tool_offered_def narrow_parent_def witness_call_def)
  ultimately show ?thesis by (simp add: c empty)
qed

text \<open>
  The read-only specialists stay read-only whatever the parent may do: the analyst, the
  planner and the evaluator are denied every tool that writes files and the shell, and the
  verifier every tool that writes files.
\<close>

theorem readonly_specialists:
  assumes "worker_child opts (Some spec) def name task text turns files = (child, t)"
    and "spec \<in> {spec_goal_analyst, spec_goal_planner, spec_goal_evaluator, spec_goal_verifier}"
    and "tc_name call \<in> set workspace_write_tools
      \<or> tc_name call = ''shell.exec'' \<and> spec \<noteq> spec_goal_verifier"
  shows "dec_action (evaluate_tool_policy (cp_options child) call) = Decision_Deny"
proof -
  have "set (gs_extra_denylist spec) \<subseteq> set (opt_tool_denylist (cp_options child))"
    using worker_child_cases [OF assms(1)] by blast
  moreover have "gs_extra_denylist spec_goal_analyst = workspace_write_tools @ [''shell.exec'']"
    "gs_extra_denylist spec_goal_planner
      = workspace_write_tools @ [''shell.exec'', ''web.search'', ''web.fetch'']"
    "gs_extra_denylist spec_goal_evaluator
      = workspace_write_tools @ [''shell.exec'', ''web.search'', ''web.fetch'']"
    "gs_extra_denylist spec_goal_verifier = workspace_write_tools"
    by (simp_all add: spec_goal_analyst_def spec_goal_planner_def spec_goal_evaluator_def
        spec_goal_verifier_def)
  then have "tc_name call \<in> set (gs_extra_denylist spec)"
    using assms(2,3) by (elim insertE disjE) simp_all
  ultimately show ?thesis
    by (intro not_offered_denied) (auto simp: tool_offered_def)
qed

theorem readonly_specialists_witness:
  "\<exists>child t. worker_child witness_options (Some spec_goal_analyst) None ''goal-analyst'' ''look''
      ''look'' 5 0 = (child, t)
    \<and> dec_action (evaluate_tool_policy (cp_options child) (witness_call ''shell.exec''))
        = Decision_Deny"
proof -
  obtain child t where c: "worker_child witness_options (Some spec_goal_analyst) None ''goal-analyst''
      ''look'' ''look'' 5 0 = (child, t)" by (metis surj_pair)
  have "gs_phase spec_goal_analyst \<noteq> gs_phase spec_goal_verifier"
    by (simp add: spec_goal_analyst_def spec_goal_verifier_def)
  then have "spec_goal_analyst \<noteq> spec_goal_verifier" by auto
  with readonly_specialists [OF c, of "witness_call ''shell.exec''"] c show ?thesis
    by (auto simp: witness_call_def)
qed

text \<open>
  The turn budget of a worker is the Gateway's to bound: whatever the parent agent asks
  for, the child runs at most the cap set for workers (48 unless configured) and at most the
  specialist's cap, and at least one turn where the request was positive.
\<close>

theorem worker_budget_bounded:
  assumes "worker_child opts spec def name task text
      (requested_turns opts spec def explicit files) files = (child, t)"
  shows "opt_max_tool_turns (cp_options child) = t \<and> t \<le> worker_turn_cap opts
    \<and> (\<forall>s. spec = Some s \<and> 0 < gs_cap_max_turns s \<longrightarrow> t \<le> gs_cap_max_turns s)
    \<and> (spec = None \<and> def = None \<and> files \<le> 2 ^ 62 \<longrightarrow> 1 \<le> t)"
proof -
  have "1 \<le> requested_turns opts None None explicit files" if "files \<le> 2 ^ 62"
    using that worker_turn_cap_pos [of opts] wrap_int64_id [of "files + subagent_summary_turns"]
    by (simp add: requested_turns_def effective_subagent_tool_turns_def recommended_subagent_turns_def
        default_subagent_tool_turns_def default_subagent_max_turns_def subagent_summary_turns_def
        Let_def)
  with worker_child_cases [OF assms] worker_child_turns [OF assms] show ?thesis by auto
qed

theorem worker_budget_bounded_witness:
  "\<exists>child. worker_child witness_options None None ''w'' ''look'' ''look''
      (requested_turns witness_options None None 0 100) 100 = (child, 48)"
proof -
  obtain child t where c: "worker_child witness_options None None ''w'' ''look'' ''look''
      (requested_turns witness_options None None 0 100) 100 = (child, t)" by (metis surj_pair)
  moreover have "requested_turns witness_options None None 0 100 = 48"
    by (simp add: requested_turns_def effective_subagent_tool_turns_def Let_def
        recommended_subagent_turns_def wrap_int64_def subagent_summary_turns_def
        default_subagent_max_turns_def worker_turn_cap_def witness_options_def)
  moreover have "t \<le> 48"
    using worker_budget_bounded [OF c]
    by (simp add: worker_turn_cap_def witness_options_def default_subagent_max_turns_def)
  ultimately show ?thesis
    by (auto simp: worker_child_def Let_def worker_turn_cap_def witness_options_def
        default_subagent_max_turns_def)
qed

text \<open>
  The budget formula has a hard maximum: no number of files and no explicit request gets
  past 48 turns.
\<close>

theorem effective_turns_capped:
  "effective_subagent_tool_turns explicit files \<le> 48
   \<and> effective_subagent_tool_turns 0 100 = 48 \<and> effective_subagent_tool_turns 200 0 = 48"
  by (simp add: effective_subagent_tool_turns_def recommended_subagent_turns_def wrap_int64_def
      default_subagent_max_turns_def subagent_summary_turns_def default_subagent_tool_turns_def
      Let_def)

lemma dash_runs_chars: "set (dash_runs inside s) \<subseteq> {c. name_char c}"
  by (induction inside s rule: dash_runs.induct) (auto simp: name_char_def)

lemma set_trim_dashes: "set (trim_dashes s) \<subseteq> set s"
  unfolding trim_dashes_def set_rev using set_dropWhileD by (metis set_rev subsetI)

text \<open>
  A worker's name is safe to put into ids and events: at least one and at most 48
  characters, all of them letters, digits, dots, underscores or dashes.
\<close>

theorem sanitized_name_safe:
  "sanitize_subagent_name name \<noteq> [] \<and> length (sanitize_subagent_name name) \<le> 48
   \<and> list_all name_char (sanitize_subagent_name name)"
proof -
  define cleaned where "cleaned = trim_dashes (dash_runs False (trim_space name))"
  have "\<forall>c \<in> set cleaned. name_char c"
    using set_trim_dashes dash_runs_chars unfolding cleaned_def by blast
  moreover have "\<forall>c \<in> set ''worker''. name_char c" by (simp add: name_char_def byte_in_def)
  ultimately show ?thesis
    by (auto simp: sanitize_subagent_name_def cleaned_def [symmetric] Let_def list_all_iff
        dest: in_set_takeD)
qed

end
