(* ===== verification/Patch_Engine.thy ===== *)
theory Patch_Engine
  imports Go_Strings
begin

text \<open>
  The patch engine of the Agent Runtime: the unified diff \<^verbatim>\<open>workspace.diff_file\<close> prints, the
  parser and the application of the patches \<^verbatim>\<open>workspace.apply_patch\<close> receives
  (\<^verbatim>\<open>unifiedDiff\<close>, \<^verbatim>\<open>parseUnifiedPatch\<close>, \<^verbatim>\<open>applyFilePatch\<close> in \<^verbatim>\<open>runtime/tools.go\<close>).

  The index \<^verbatim>\<open>i\<close> of the parser is the list of lines not read yet, so its three nested loops
  are three functions that return what they leave unread. Paths are Unix paths: there
  \<^verbatim>\<open>filepath.IsAbs\<close> asks for a leading slash and \<^verbatim>\<open>filepath.ToSlash\<close> changes nothing. The error
  texts are constructors with their arguments. \<^verbatim>\<open>OldStart - 1\<close> is taken over the integers: at
  the one value where it wraps around, both results lie outside every file.
\<close>

subsection \<open>Formatted input\<close>

text \<open>
  \<^verbatim>\<open>fmt.Sscanf\<close> on a line without line breaks, for formats made of ASCII literals, single
  spaces and \<^verbatim>\<open>%d\<close>: a space of the format takes one or more spaces of the input or its end,
  \<^verbatim>\<open>%d\<close> skips spaces and reads a sign and digits, and what follows the format is ignored.
\<close>

datatype scan_item = Scan_Lit char | Scan_Gap | Scan_Num

function scan_items :: "string \<Rightarrow> scan_item list" where
  "scan_items s =
     (if s = [] then []
      else if has_prefix s ''%d'' then Scan_Num # scan_items (drop 2 s)
      else if hd s = CHR '' '' then Scan_Gap # scan_items (tl s)
      else Scan_Lit (hd s) # scan_items (tl s))"
  by pat_completeness auto
termination
  by (relation "measure length") auto

declare scan_items.simps [simp del]

definition skip_space :: "string \<Rightarrow> string" where
  "skip_space s = concat (dropWhile is_space_rune (runes s))"

definition scan_sign :: "string \<Rightarrow> string" where
  "scan_sign s = (if has_prefix s ''+'' \<or> has_prefix s ''-'' then take 1 s else [])"

fun sscanf :: "scan_item list \<Rightarrow> string \<Rightarrow> int list option" where
  "sscanf [] s = Some []"
| "sscanf (Scan_Lit c # fs) s =
     (if s \<noteq> [] \<and> hd s = c then sscanf fs (tl s) else None)"
| "sscanf (Scan_Gap # fs) s =
     (if s = [] then sscanf fs []
      else if is_space_rune (hd (runes s)) then sscanf fs (skip_space s)
      else None)"
| "sscanf (Scan_Num # fs) s =
     (let s = skip_space s; sign = scan_sign s; s = drop (length sign) s;
          digits = takeWhile is_digit s
      in if digits = [] then None
         else case parse_int64 (sign @ digits) of
             None \<Rightarrow> None
           | Some n \<Rightarrow> map_option (Cons n) (sscanf fs (drop (length digits) s)))"

lemma runes_ascii_Cons: "byte_in 0x00 0x7F c \<Longrightarrow> runes (c # s) = [c] # runes s"
  by (simp add: runes_step rune_width_def)

lemma skip_space_graphic: "byte_in 0x00 0x7F c \<Longrightarrow> \<not> ascii_space c \<Longrightarrow> skip_space (c # s) = c # s"
  by (simp add: skip_space_def runes_ascii_Cons is_space_ascii)

lemma skip_space_blank: "skip_space (CHR '' '' # s) = skip_space s"
  by (simp add: skip_space_def runes_ascii_Cons is_space_ascii ascii_space_def byte_in_def)

lemma digit_graphic: "is_digit c \<Longrightarrow> byte_in 0x00 0x7F c \<and> \<not> ascii_space c"
  by (auto simp: is_digit_def byte_in_def ascii_space_def)

lemma scan_nat:
  assumes "int n < 2 ^ 63" "s = [] \<or> \<not> is_digit (hd s)"
  shows "sscanf (Scan_Num # fs) (nat_digits n @ s) = map_option (Cons (int n)) (sscanf fs s)"
proof -
  obtain d ds where d: "nat_digits n = d # ds" by (cases "nat_digits n") auto
  then have g: "is_digit d" using nat_digits_digits [of d n] by simp
  then have "scan_sign (nat_digits n @ s) = []"
    unfolding d by (auto simp: scan_sign_def has_prefix_def is_digit_def byte_in_def)
  moreover have "skip_space (nat_digits n @ s) = nat_digits n @ s"
    using digit_graphic [OF g] unfolding d by (simp add: skip_space_graphic)
  moreover have "takeWhile is_digit (nat_digits n @ s) = nat_digits n"
    using assms(2) nat_digits_digits by (cases s) (auto simp: takeWhile_append2 takeWhile_tail)
  ultimately show ?thesis
    using assms(1) by (simp add: parse_int64_nat_digits)
qed

lemma scan_gap:
  "byte_in 0x00 0x7F c \<Longrightarrow> \<not> ascii_space c \<Longrightarrow> sscanf (Scan_Gap # fs) (CHR '' '' # c # s) = sscanf fs (c # s)"
  by (simp add: skip_space_blank skip_space_graphic runes_ascii_Cons is_space_ascii)
     (simp add: runes_ascii_Cons is_space_ascii ascii_space_def byte_in_def)

subsection \<open>Lines and diffs\<close>

abbreviation (input) nl :: char where "nl \<equiv> CHR 0x0A"
abbreviation (input) cr :: char where "cr \<equiv> CHR 0x0D"

definition max_tool_output_bytes :: nat where "max_tool_output_bytes = 64 * 1024"

definition max_patch_bytes :: nat where "max_patch_bytes = 256 * 1024"

definition truncate_tool_output :: "string \<Rightarrow> string" where
  "truncate_tool_output v =
     (if length v \<le> max_tool_output_bytes then v
      else take max_tool_output_bytes v @ nl # ''[truncated]'')"

definition unix_lines :: "string \<Rightarrow> string" where
  "unix_lines s = replace_all (replace_all s [cr, nl] [nl]) [cr] [nl]"

definition split_content_lines :: "string \<Rightarrow> string list" where
  "split_content_lines content =
     (if content = [] then []
      else let lines = split_on nl (unix_lines content)
           in if last lines = [] then butlast lines else lines)"

definition diff_body :: "string \<Rightarrow> string list \<Rightarrow> string list \<Rightarrow> string list" where
  "diff_body path old new =
     [''--- a/'' @ path, ''+++ b/'' @ path,
      ''@@ -1,'' @ nat_digits (length old) @ '' +1,'' @ nat_digits (length new) @ '' @@'']
     @ map (\<lambda>l. CHR ''-'' # l) old @ map (\<lambda>l. CHR ''+'' # l) new"

definition unified_diff :: "string \<Rightarrow> string \<Rightarrow> string \<Rightarrow> string" where
  "unified_diff path old new =
     truncate_tool_output
       (concat (map (\<lambda>l. l @ [nl])
          (diff_body (trim_space path) (split_content_lines old) (split_content_lines new))))"

subsection \<open>Parsing\<close>

record unified_hunk =
  uh_old_start :: int
  uh_old_count :: int
  uh_new_start :: int
  uh_new_count :: int
  uh_lines :: "string list"

record unified_file_patch =
  uf_path :: string
  uf_hunks :: "unified_hunk list"

datatype patch_error =
    Expected_Old_Header
  | Expected_New_Header string
  | Null_Device
  | Invalid_Patch_Path string
  | Expected_Hunk_Header string
  | Invalid_Hunk_Header string
  | Empty_Patch_Line string
  | Invalid_Line_Marker char string
  | No_Hunks string
  | Hunk_Outside_File
  | Empty_Hunk_Line
  | Context_Mismatch nat
  | Remove_Mismatch nat
  | Invalid_Hunk_Marker char

definition is_patch_metadata_line :: "string \<Rightarrow> bool" where
  "is_patch_metadata_line line \<longleftrightarrow>
     has_prefix line ''index '' \<or> has_prefix line ''new file mode '' \<or>
     has_prefix line ''deleted file mode '' \<or> has_prefix line ''old mode '' \<or>
     has_prefix line ''new mode '' \<or> has_prefix line ''similarity index '' \<or>
     has_prefix line ''rename from '' \<or> has_prefix line ''rename to ''"

definition trim_quotes :: "string \<Rightarrow> string" where
  "trim_quotes s = rev (dropWhile ((=) CHR 0x22) (rev (dropWhile ((=) CHR 0x22) s)))"

text \<open>The first of \<^verbatim>\<open>strings.Fields\<close>, of a text that does not start with a space.\<close>

definition first_field :: "string \<Rightarrow> string" where
  "first_field s = concat (takeWhile (\<lambda>r. \<not> is_space_rune r) (runes s))"

definition patch_path_from_header :: "string \<Rightarrow> patch_error + string" where
  "patch_path_from_header header =
     (let raw = trim_space (trim_prefix header ''+++ '')
      in if raw = ''/dev/null'' then Inl Null_Device
         else let raw = first_field raw;
                  raw = trim_prefix (trim_prefix raw ''b/'') ''a/'';
                  raw = trim_quotes raw
              in if raw = [] \<or> has_prefix raw ''/'' \<or> has_prefix raw ''../''
                    \<or> contains_sub raw ''/../''
                    \<or> contains_sub raw [CHR 0x5C, CHR ''.'', CHR ''.'', CHR 0x5C]
                 then Inl (Invalid_Patch_Path raw) else Inr raw)"

definition hunk_of :: "int \<Rightarrow> int \<Rightarrow> int \<Rightarrow> int \<Rightarrow> unified_hunk" where
  "hunk_of os oc ns nc =
     \<lparr>uh_old_start = os, uh_old_count = oc, uh_new_start = ns, uh_new_count = nc, uh_lines = []\<rparr>"

definition parse_hunk_header :: "string \<Rightarrow> patch_error + unified_hunk" where
  "parse_hunk_header header =
     (case sscanf (scan_items ''@@ -%d,%d +%d,%d @@'') header of
        Some [os, oc, ns, nc] \<Rightarrow> Inr (hunk_of os oc ns nc)
      | _ \<Rightarrow>
     (case sscanf (scan_items ''@@ -%d +%d @@'') header of
        Some [os, ns] \<Rightarrow> Inr (hunk_of os 1 ns 1)
      | _ \<Rightarrow>
     (case sscanf (scan_items ''@@ -%d,%d +%d @@'') header of
        Some [os, oc, ns] \<Rightarrow> Inr (hunk_of os oc ns 1)
      | _ \<Rightarrow>
     (case sscanf (scan_items ''@@ -%d +%d,%d @@'') header of
        Some [os, ns, nc] \<Rightarrow> Inr (hunk_of os 1 ns nc)
      | _ \<Rightarrow> Inl (Invalid_Hunk_Header header)))))"

definition no_newline_mark :: string where
  "no_newline_mark = CHR 0x5C # '' No newline at end of file''"

text \<open>The lines of a hunk up to the next header, and the lines left.\<close>

fun hunk_lines :: "string \<Rightarrow> string list \<Rightarrow> patch_error + string list \<times> string list" where
  "hunk_lines path [] = Inr ([], [])"
| "hunk_lines path (l # ls) =
     (if has_prefix l ''diff --git '' \<or> has_prefix l ''--- '' \<or> has_prefix l ''@@ ''
      then Inr ([], l # ls)
      else if l = no_newline_mark then hunk_lines path ls
      else if l = [] then Inl (Empty_Patch_Line path)
      else if hd l = CHR '' '' \<or> hd l = CHR ''+'' \<or> hd l = CHR ''-''
      then bind_result (hunk_lines path ls) (\<lambda>(hs, rest). Inr (l # hs, rest))
      else Inl (Invalid_Line_Marker (hd l) path))"

lemma hunk_lines_rest: "hunk_lines path ls = Inr (hs, rest) \<Longrightarrow> length rest \<le> length ls"
  by (induction path ls arbitrary: hs rest rule: hunk_lines.induct) (fastforce split: if_splits)+

text \<open>The hunks of a file, and the lines left.\<close>

function file_hunks :: "string \<Rightarrow> string list \<Rightarrow> patch_error + unified_hunk list \<times> string list" where
  "file_hunks path [] = Inr ([], [])"
| "file_hunks path (l # ls) =
     (if has_prefix l ''diff --git '' \<or> has_prefix l ''--- '' then Inr ([], l # ls)
      else if is_patch_metadata_line l then file_hunks path ls
      else if \<not> has_prefix l ''@@ '' then Inl (Expected_Hunk_Header path)
      else case parse_hunk_header l of
          Inl e \<Rightarrow> Inl e
        | Inr h \<Rightarrow>
            (case hunk_lines path ls of
               Inl e \<Rightarrow> Inl e
             | Inr (hs, rest) \<Rightarrow>
                 bind_result (file_hunks path rest)
                   (\<lambda>(more, rest). Inr (h\<lparr>uh_lines := hs\<rparr> # more, rest))))"
  by pat_completeness auto
termination
  by (relation "measure (\<lambda>(path, ls). length ls)") (auto dest: hunk_lines_rest)

lemma file_hunks_rest: "file_hunks path ls = Inr (hs, rest) \<Longrightarrow> length rest \<le> length ls"
proof (induction path ls arbitrary: hs rest rule: file_hunks.induct)
  case (2 path l ls)
  show ?case
    using "2.prems" "2.IH"
    by (auto split: if_splits sum.splits dest!: hunk_lines_rest) (fastforce dest: hunk_lines_rest)+
qed simp

function parse_files :: "string list \<Rightarrow> patch_error + unified_file_patch list" where
  "parse_files [] = Inr []"
| "parse_files (l # ls) =
     (if has_prefix l ''diff --git '' \<or> is_patch_metadata_line l then parse_files ls
      else if \<not> has_prefix l ''--- '' then Inl Expected_Old_Header
      else if ls = [] \<or> \<not> has_prefix (hd ls) ''+++ '' then Inl (Expected_New_Header l)
      else case patch_path_from_header (hd ls) of
          Inl e \<Rightarrow> Inl e
        | Inr path \<Rightarrow>
            (case file_hunks path (tl ls) of
               Inl e \<Rightarrow> Inl e
             | Inr (hs, rest) \<Rightarrow>
                 if hs = [] then Inl (No_Hunks path)
                 else bind_result (parse_files rest)
                   (\<lambda>fs. Inr (\<lparr>uf_path = path, uf_hunks = hs\<rparr> # fs))))"
  by pat_completeness auto
termination
  by (relation "measure length") (auto dest!: file_hunks_rest)

definition parse_unified_patch :: "string \<Rightarrow> patch_error + unified_file_patch list" where
  "parse_unified_patch patch =
     (let lines = split_on nl patch
      in parse_files (if last lines = [] then butlast lines else lines))"

subsection \<open>Application\<close>

fun apply_lines :: "string list \<Rightarrow> nat \<Rightarrow> string list \<Rightarrow> string list
    \<Rightarrow> patch_error + nat \<times> string list" where
  "apply_lines old i new [] = Inr (i, new)"
| "apply_lines old i new (line # ls) =
     (case line of
        [] \<Rightarrow> Inl Empty_Hunk_Line
      | m # content \<Rightarrow>
          if m = CHR '' '' then
            (if i \<ge> length old \<or> old ! i \<noteq> content then Inl (Context_Mismatch (i + 1))
             else apply_lines old (i + 1) (new @ [old ! i]) ls)
          else if m = CHR ''-'' then
            (if i \<ge> length old \<or> old ! i \<noteq> content then Inl (Remove_Mismatch (i + 1))
             else apply_lines old (i + 1) new ls)
          else if m = CHR ''+'' then apply_lines old i (new @ [content]) ls
          else Inl (Invalid_Hunk_Marker m))"

definition hunk_target :: "unified_hunk \<Rightarrow> int" where
  "hunk_target h = (if uh_old_start h = 0 then 0 else uh_old_start h - 1)"

fun apply_hunks :: "string list \<Rightarrow> nat \<Rightarrow> string list \<Rightarrow> unified_hunk list
    \<Rightarrow> patch_error + string list" where
  "apply_hunks old i new [] = Inr (new @ drop i old)"
| "apply_hunks old i new (h # hs) =
     (if hunk_target h < int i \<or> hunk_target h > int (length old) then Inl Hunk_Outside_File
      else let t = nat (hunk_target h)
           in bind_result (apply_lines old t (new @ drop i (take t old)) (uh_lines h))
                (\<lambda>(i, new). apply_hunks old i new hs))"

definition with_final_newline :: "string \<Rightarrow> string list \<Rightarrow> string" where
  "with_final_newline content new =
     (if has_suffix content [nl] \<and> (new \<noteq> [] \<or> content = [nl])
      then join_with [nl] new @ [nl] else join_with [nl] new)"

definition apply_file_patch :: "string \<Rightarrow> unified_file_patch \<Rightarrow> patch_error + string" where
  "apply_file_patch content patch =
     bind_result (apply_hunks (split_content_lines content) 0 [] (uf_hunks patch))
       (\<lambda>new. Inr (with_final_newline content new))"


subsection \<open>What a patch means\<close>

text \<open>
  The reference: a hunk names a block of lines, its context and removed lines, at the line its
  header gives, and puts its context and added lines there; everything between the blocks is kept.
\<close>

definition hunk_old :: "string list \<Rightarrow> string list" where
  "hunk_old ls = map tl (filter (\<lambda>l. hd l \<noteq> CHR ''+'') ls)"

definition hunk_new :: "string list \<Rightarrow> string list" where
  "hunk_new ls = map tl (filter (\<lambda>l. hd l \<noteq> CHR ''-'') ls)"

definition marked_line :: "string \<Rightarrow> bool" where
  "marked_line l \<longleftrightarrow> l \<noteq> [] \<and> hd l \<in> {CHR '' '', CHR ''+'', CHR ''-''}"

inductive hunks_fit :: "nat \<Rightarrow> unified_hunk list \<Rightarrow> string list \<Rightarrow> string list \<Rightarrow> bool" where
  fit_end: "hunks_fit k [] ls ls"
| fit_hunk: "hunk_target h = int (k + length pre) \<Longrightarrow> list_all marked_line (uh_lines h) \<Longrightarrow>
    hunks_fit (k + length pre + length (hunk_old (uh_lines h))) hs post out \<Longrightarrow>
    hunks_fit k (h # hs) (pre @ hunk_old (uh_lines h) @ post) (pre @ hunk_new (uh_lines h) @ out)"

inductive_cases hunks_fit_NilE: "hunks_fit k [] ls out"
inductive_cases hunks_fit_ConsE: "hunks_fit k (h # hs) ls out"

lemma hunk_sides_simps [simp]:
  "hunk_old [] = []" "hunk_new [] = []"
  "hunk_old ((CHR '' '' # t) # ls) = t # hunk_old ls" "hunk_new ((CHR '' '' # t) # ls) = t # hunk_new ls"
  "hunk_old ((CHR ''-'' # t) # ls) = t # hunk_old ls" "hunk_new ((CHR ''-'' # t) # ls) = hunk_new ls"
  "hunk_old ((CHR ''+'' # t) # ls) = hunk_old ls" "hunk_new ((CHR ''+'' # t) # ls) = t # hunk_new ls"
  by (simp_all add: hunk_old_def hunk_new_def)

lemma marked_lineE:
  assumes "marked_line l"
  obtains t where "l = CHR '' '' # t" | t where "l = CHR ''-'' # t" | t where "l = CHR ''+'' # t"
  using assms by (cases l) (auto simp: marked_line_def)

lemma take_Suc_drop: "i < length xs \<Longrightarrow> xs ! i = x \<Longrightarrow> take (Suc n) (drop i xs) = x # take n (drop (Suc i) xs)"
  by (metis Cons_nth_drop_Suc take_Suc_Cons)

lemma apply_lines_iff:
  "apply_lines old i new ls = Inr (j, out) \<longleftrightarrow>
    list_all marked_line ls \<and> j = i + length (hunk_old ls)
    \<and> take (length (hunk_old ls)) (drop i old) = hunk_old ls \<and> out = new @ hunk_new ls"
proof (induction ls arbitrary: i new)
  case (Cons l ls)
  have step: "take (Suc n) (drop i old) = c # cs \<longleftrightarrow>
      i < length old \<and> old ! i = c \<and> take n (drop (Suc i) old) = cs" for n c cs
    by (cases "i < length old") (auto simp: Cons_nth_drop_Suc [symmetric])
  show ?case
  proof (cases "marked_line l")
    case True
    then show ?thesis
      by (cases l rule: marked_lineE) (auto simp: Cons.IH step marked_line_def)
  next
    case False
    then show ?thesis by (cases l) (auto simp: marked_line_def)
  qed
qed auto

lemma apply_hunks_iff:
  "i \<le> length old \<Longrightarrow> apply_hunks old i new hs = Inr out \<longleftrightarrow>
    (\<exists>rest. hunks_fit i hs (drop i old) rest \<and> out = new @ rest)"
proof (induction hs arbitrary: i new out)
  case Nil
  then show ?case by (auto intro: fit_end elim: hunks_fit_NilE)
next
  case (Cons h hs)
  let ?t = "nat (hunk_target h)" and ?o = "hunk_old (uh_lines h)"
  show ?case
  proof
    assume "apply_hunks old i new (h # hs) = Inr out"
    then have t: "int i \<le> hunk_target h" "hunk_target h \<le> int (length old)"
      and m: "list_all marked_line (uh_lines h)" "take (length ?o) (drop ?t old) = ?o"
      and r: "apply_hunks old (?t + length ?o) (new @ drop i (take ?t old) @ hunk_new (uh_lines h)) hs = Inr out"
      by (auto simp: Let_def apply_lines_iff split: if_splits)
    have len: "?t + length ?o \<le> length old"
      using arg_cong [OF m(2), of length] t(2) by auto
    then obtain rest where rest: "hunks_fit (?t + length ?o) hs (drop (?t + length ?o) old) rest"
      "out = new @ drop i (take ?t old) @ hunk_new (uh_lines h) @ rest"
      using r by (auto simp: Cons.IH)
    have pre: "i + length (drop i (take ?t old)) = ?t" using t Cons.prems by auto
    have "drop i old = drop i (take ?t old @ drop ?t old)" by simp
    also have "\<dots> = drop i (take ?t old) @ drop ?t old" using t by (subst drop_append) auto
    also have "drop ?t old = ?o @ drop (?t + length ?o) old"
      using append_take_drop_id [of "length ?o" "drop ?t old"] m(2) by (simp add: add.commute)
    finally have "drop i old = drop i (take ?t old) @ ?o @ drop (?t + length ?o) old" .
    moreover have "hunks_fit i (h # hs) (drop i (take ?t old) @ ?o @ drop (?t + length ?o) old)
        (drop i (take ?t old) @ hunk_new (uh_lines h) @ rest)"
      using t m rest(1) pre by (intro fit_hunk) auto
    ultimately show "\<exists>rest. hunks_fit i (h # hs) (drop i old) rest \<and> out = new @ rest"
      using rest(2) by auto
  next
    assume "\<exists>rest. hunks_fit i (h # hs) (drop i old) rest \<and> out = new @ rest"
    then obtain rest where "hunks_fit i (h # hs) (drop i old) rest" and out: "out = new @ rest" by blast
    then obtain pre post q where t: "hunk_target h = int (i + length pre)"
      and m: "list_all marked_line (uh_lines h)" and d: "drop i old = pre @ ?o @ post"
      and q: "rest = pre @ hunk_new (uh_lines h) @ q" "hunks_fit (i + length pre + length ?o) hs post q"
      by (auto elim: hunks_fit_ConsE)
    from arg_cong [OF d, of length] Cons.prems
    have len: "i + length pre + length ?o + length post = length old" by auto
    have at: "drop (i + length pre) old = ?o @ post" "drop (i + length pre + length ?o) old = post"
      using d by (metis add.commute append_eq_conv_conj drop_drop append_assoc length_append)+
    have "drop i (take (i + length pre) old) = pre" using d by (simp add: drop_take)
    moreover have "nat (hunk_target h) = i + length pre" using t by simp
    ultimately show "apply_hunks old i new (h # hs) = Inr out"
      using t m at len q out Cons.IH [of "i + length pre + length ?o"]
      by (auto simp: Let_def apply_lines_iff)
  qed
qed

text \<open>
  C10. Applying a file patch succeeds exactly if its hunks fit the lines of the file, each at the
  line its header names, in order, without overlap, and with every context and removed line equal
  to the line of the file; the result is then the lines the hunks stand for, with the final
  newline of the file as it was.
\<close>

theorem patch_applies_exactly:
  "apply_file_patch content p = Inr result \<longleftrightarrow>
    (\<exists>new. hunks_fit 0 (uf_hunks p) (split_content_lines content) new
       \<and> result = with_final_newline content new)"
  using apply_hunks_iff [of 0 "split_content_lines content" "[]" "uf_hunks p"]
  by (auto simp: apply_file_patch_def)


subsection \<open>Diffs and the parser\<close>

lemma scan_one: "sscanf (Scan_Num # fs) (CHR ''1'' # CHR '','' # s) = map_option (Cons 1) (sscanf fs (CHR '','' # s))"
proof -
  have "nat_digits 1 = ''1''" by code_simp
  moreover have "\<not> is_digit CHR '',''" by (simp add: is_digit_def byte_in_def)
  ultimately show ?thesis using scan_nat [of 1 "CHR '','' # s" fs] by simp
qed

lemma scan_items_full: "scan_items ''@@ -%d,%d +%d,%d @@'' =
    [Scan_Lit CHR ''@'', Scan_Lit CHR ''@'', Scan_Gap, Scan_Lit CHR ''-'', Scan_Num, Scan_Lit CHR '','',
     Scan_Num, Scan_Gap, Scan_Lit CHR ''+'', Scan_Num, Scan_Lit CHR '','', Scan_Num, Scan_Gap,
     Scan_Lit CHR ''@'', Scan_Lit CHR ''@'']"
  by (simp add: scan_items.simps has_prefix_def)

lemma not_digits: "\<not> is_digit CHR '' ''" "\<not> is_digit CHR '',''"
  by (simp_all add: is_digit_def byte_in_def)

lemma graphic_marks:
  "byte_in 0x00 0x7F CHR ''-''" "\<not> ascii_space CHR ''-''" "byte_in 0x00 0x7F CHR ''+''"
  "\<not> ascii_space CHR ''+''" "byte_in 0x00 0x7F CHR ''@''" "\<not> ascii_space CHR ''@''"
  by (simp_all add: byte_in_def ascii_space_def)

lemma parse_own_header:
  assumes "int a < 2 ^ 63" "int b < 2 ^ 63"
  shows "parse_hunk_header (''@@ -1,'' @ nat_digits a @ '' +1,'' @ nat_digits b @ '' @@'')
    = Inr (hunk_of 1 (int a) 1 (int b))"
proof -
  have "sscanf (scan_items ''@@ -%d,%d +%d,%d @@'')
      (''@@ -1,'' @ nat_digits a @ '' +1,'' @ nat_digits b @ '' @@'') = Some [1, int a, 1, int b]"
    using assms unfolding scan_items_full append_Cons append_Nil
    by (simp add: scan_gap graphic_marks scan_one scan_nat not_digits del: sscanf.simps(3,4))
  then show ?thesis by (simp add: parse_hunk_header_def)
qed

text \<open>Paths that survive the way through a diff header.\<close>

definition diffable_path :: "string \<Rightarrow> bool" where
  "diffable_path p \<longleftrightarrow> p \<noteq> [] \<and> list_all (\<lambda>c. byte_in 0x21 0x7E c \<and> c \<noteq> CHR 0x22) p
     \<and> \<not> has_prefix p ''/'' \<and> \<not> has_prefix p ''a/'' \<and> \<not> has_prefix p ''../''
     \<and> \<not> contains_sub p ''/../'' \<and> \<not> contains_sub p [CHR 0x5C, CHR ''.'', CHR ''.'', CHR 0x5C]"

lemma graphic_text:
  assumes "list_all (\<lambda>c. byte_in 0x21 0x7E c) p"
  shows "trim_space p = p" "first_field p = p" "nl \<notin> set p"
proof -
  have a: "ascii_text p" using assms by (auto simp: ascii_text_def byte_in_def list_all_iff)
  have n: "\<not> ascii_space c" if "c \<in> set p" for c
    using assms that by (auto simp: list_all_iff byte_in_def ascii_space_def)
  show "trim_space p = p" using a n by (intro trim_space_tight) auto
  have "takeWhile (\<lambda>r. \<not> is_space_rune r) (map (\<lambda>c. [c]) p) = map (\<lambda>c. [c]) p"
    using n by (auto simp: takeWhile_eq_all_conv is_space_ascii)
  then show "first_field p = p" unfolding first_field_def runes_ascii [OF a] by (simp only: concat_singletons)
  show "nl \<notin> set p" using n by (auto simp: ascii_space_def)
qed

lemma trim_quotes_none: "CHR 0x22 \<notin> set s \<Longrightarrow> trim_quotes s = s"
proof -
  assume "CHR 0x22 \<notin> set s"
  then have "dropWhile ((=) CHR 0x22) t = t" if "set t = set s" for t
    using that by (cases t) auto
  then show ?thesis by (simp add: trim_quotes_def)
qed

lemma diff_header_path:
  assumes "diffable_path p"
  shows "patch_path_from_header (''+++ b/'' @ p) = Inr p"
proof -
  have g: "list_all (\<lambda>c. byte_in 0x21 0x7E c) (''b/'' @ p)"
    using assms by (auto simp: diffable_path_def list_all_iff byte_in_def)
  have h: "trim_prefix (''+++ b/'' @ p) ''+++ '' = ''b/'' @ p"
    "trim_prefix (''b/'' @ p) ''b/'' = p"
    using trim_prefix_append [of "''+++ ''" "''b/'' @ p"] trim_prefix_append [of "''b/''" p] by simp_all
  have q: "trim_prefix p ''a/'' = p" "trim_quotes p = p"
    using assms by (auto simp: diffable_path_def trim_prefix_def list_all_iff intro: trim_quotes_none)
  show ?thesis
    unfolding patch_path_from_header_def Let_def h graphic_text(1,2) [OF g] q
    using assms by (simp add: diffable_path_def)
qed

definition dashed :: "string \<Rightarrow> bool" where
  "dashed l \<longleftrightarrow> has_prefix l ''-- ''"

lemma mark_prefixes:
  "\<not> has_prefix (CHR ''-'' # l) ''diff --git ''" "\<not> has_prefix (CHR ''+'' # l) ''diff --git ''"
  "has_prefix (CHR ''-'' # l) ''--- '' = dashed l" "\<not> has_prefix (CHR ''+'' # l) ''--- ''"
  "\<not> has_prefix (CHR ''-'' # l) ''@@ ''" "\<not> has_prefix (CHR ''+'' # l) ''@@ ''"
  "CHR ''-'' # l \<noteq> no_newline_mark" "CHR ''+'' # l \<noteq> no_newline_mark"
  "\<not> is_patch_metadata_line (CHR ''-'' # l)" "\<not> is_patch_metadata_line (CHR ''+'' # l)"
  "\<not> has_prefix (CHR ''-'' # l) ''+++ ''"
  by (simp_all add: has_prefix_def dashed_def no_newline_mark_def is_patch_metadata_line_def)

lemma hunk_lines_added: "hunk_lines path (map (\<lambda>l. CHR ''+'' # l) new) = Inr (map (\<lambda>l. CHR ''+'' # l) new, [])"
  by (induction new) (simp_all add: mark_prefixes)

lemma hunk_lines_body:
  "hunk_lines path (map (\<lambda>l. CHR ''-'' # l) old @ map (\<lambda>l. CHR ''+'' # l) new) =
     Inr (let pre = takeWhile (\<lambda>l. \<not> dashed l) old; post = dropWhile (\<lambda>l. \<not> dashed l) old in
       (map (\<lambda>l. CHR ''-'' # l) pre @ (if post = [] then map (\<lambda>l. CHR ''+'' # l) new else []),
        if post = [] then [] else map (\<lambda>l. CHR ''-'' # l) post @ map (\<lambda>l. CHR ''+'' # l) new))"
  by (induction old) (simp_all add: mark_prefixes hunk_lines_added Let_def)

lemma parse_files_dashed:
  assumes "dashed l"
  shows "\<exists>e. parse_files ((CHR ''-'' # l) # map (\<lambda>l. CHR ''-'' # l) old @ map (\<lambda>l. CHR ''+'' # l) new) = Inl e"
proof (cases old)
  case (Cons o1 os)
  with assms show ?thesis by (simp add: mark_prefixes)
next
  case Nil
  show ?thesis
  proof (cases new)
    case (Cons n ns)
    have "file_hunks path (map (\<lambda>l. CHR ''+'' # l) ns) = Inl (Expected_Hunk_Header path)
      \<or> file_hunks path (map (\<lambda>l. CHR ''+'' # l) ns) = Inr ([], [])" for path
      by (cases ns) (simp_all add: mark_prefixes)
    then show ?thesis using assms Nil Cons
      by (auto simp: mark_prefixes split: sum.split)
         (metis (no_types, lifting) Inl_Inr_False fst_conv old.prod.case prod.sel(1) sum.sel(2))
  qed (use assms Nil in \<open>simp add: mark_prefixes\<close>)
qed

lemma parse_diff_body:
  assumes "diffable_path p" "int (length old) < 2 ^ 63" "int (length new) < 2 ^ 63"
  shows "if list_all (\<lambda>l. \<not> dashed l) old
    then parse_files (diff_body p old new) =
      Inr [\<lparr>uf_path = p, uf_hunks = [(hunk_of 1 (length old) 1 (length new))
        \<lparr>uh_lines := map (\<lambda>l. CHR ''-'' # l) old @ map (\<lambda>l. CHR ''+'' # l) new\<rparr>]\<rparr>]
    else \<exists>e. parse_files (diff_body p old new) = Inl e"
proof -
  let ?m = "map (\<lambda>l. CHR ''-'' # l)" and ?p = "map (\<lambda>l. CHR ''+'' # l)"
  let ?h = "''@@ -1,'' @ nat_digits (length old) @ '' +1,'' @ nat_digits (length new) @ '' @@''"
  let ?pre = "takeWhile (\<lambda>l. \<not> dashed l) old" and ?post = "dropWhile (\<lambda>l. \<not> dashed l) old"
  have h: "\<not> has_prefix ?h ''diff --git ''" "\<not> has_prefix ?h ''--- ''" "has_prefix ?h ''@@ ''"
    "\<not> is_patch_metadata_line ?h"
    by (simp_all add: has_prefix_def is_patch_metadata_line_def)
  have f: "parse_files (diff_body p old new) = (case file_hunks p (?h # ?m old @ ?p new) of
      Inl e \<Rightarrow> Inl e
    | Inr (hs, rest) \<Rightarrow> if hs = [] then Inl (No_Hunks p)
        else bind_result (parse_files rest) (\<lambda>fs. Inr (\<lparr>uf_path = p, uf_hunks = hs\<rparr> # fs)))"
    using diff_header_path [OF assms(1)]
    by (simp add: diff_body_def has_prefix_def is_patch_metadata_line_def del: file_hunks.simps)
  note own = parse_own_header [OF assms(2,3)]
  show ?thesis
  proof (cases "?post = []")
    case True
    then have "takeWhile (\<lambda>l. \<not> dashed l) old = old"
      by (metis append_Nil2 takeWhile_dropWhile_id)
    with True have all: "list_all (\<lambda>l. \<not> dashed l) old" "?pre = old"
      by (auto simp: list_all_iff takeWhile_eq_all_conv)
    from True show ?thesis
      unfolding f file_hunks.simps using all h own hunk_lines_body [of p old new]
      by (simp add: Let_def)
  next
    case False
    then obtain l ls where l: "?post = l # ls" "dashed l"
      by (metis hd_dropWhile list.exhaust list.sel(1))
    have "\<not> list_all (\<lambda>l. \<not> dashed l) old" using False by (simp add: list_all_iff)
    moreover obtain e where "parse_files ((CHR ''-'' # l) # ?m ls @ ?p new) = Inl e"
      using parse_files_dashed [OF l(2)] by blast
    ultimately show ?thesis
      unfolding f file_hunks.simps using l h own hunk_lines_body [of p old new]
      by (simp add: Let_def mark_prefixes)
  qed
qed


lemma content_lines_clean: "l \<in> set (split_content_lines s) \<Longrightarrow> nl \<notin> set l"
  by (auto simp: split_content_lines_def Let_def split: if_splits dest: in_set_butlastD split_on_pieces)

lemma digits_clean: "nl \<notin> set (nat_digits n)"
  using nat_digits_digits [of nl n] by (auto simp: is_digit_def byte_in_def)

lemma diff_lines_clean:
  assumes "diffable_path p" "l \<in> set (diff_body p (split_content_lines old) (split_content_lines new))"
  shows "nl \<notin> set l"
proof -
  have p: "nl \<notin> set p"
    using assms(1) by (intro graphic_text(3)) (simp add: diffable_path_def list_all_iff)
  from assms(2) show ?thesis
    unfolding diff_body_def
    by (auto simp: p digits_clean dest: content_lines_clean)
qed

lemma lines_le_text: "length ls \<le> length (concat (map (\<lambda>l. l @ [c]) ls))"
  by (induction ls) auto

lemma parse_unified_diff:
  assumes "diffable_path p" "length (unified_diff p old new) \<le> max_tool_output_bytes"
  shows "parse_unified_patch (unified_diff p old new)
      = parse_files (diff_body p (split_content_lines old) (split_content_lines new))"
    and "int (length (split_content_lines old)) < 2 ^ 63" "int (length (split_content_lines new)) < 2 ^ 63"
proof -
  let ?b = "diff_body p (split_content_lines old) (split_content_lines new)"
  let ?t = "concat (map (\<lambda>l. l @ [nl]) ?b)"
  have t: "trim_space p = p"
    using assms(1) by (intro graphic_text(1)) (simp add: diffable_path_def list_all_iff)
  have u: "unified_diff p old new = ?t" "length ?t \<le> max_tool_output_bytes"
    using assms(2) by (auto simp: unified_diff_def t truncate_tool_output_def split: if_splits)
  have "split_on nl ?t = ?b @ [[]]"
    using diff_lines_clean [OF assms(1)] by (intro split_on_terminated) blast
  then show "parse_unified_patch (unified_diff p old new) = parse_files ?b"
    by (simp add: parse_unified_patch_def u)
  have "length ?b \<le> max_tool_output_bytes" using u(2) lines_le_text [of ?b nl] by simp
  then show "int (length (split_content_lines old)) < 2 ^ 63" "int (length (split_content_lines new)) < 2 ^ 63"
    by (simp_all add: diff_body_def max_tool_output_bytes_def)
qed

lemma split_last_empty: "last (split_on d s) = [] \<longleftrightarrow> s = [] \<or> last s = d"
proof (induction s)
  case (Cons c s)
  obtain w ws where w: "split_on d s = w # ws" by (cases "split_on d s") auto
  show ?case
  proof (cases "s = []")
    case False
    have "ws = [] \<Longrightarrow> w \<noteq> []" using w False by (metis join_split join_with.simps(2))
    with Cons.IH w False show ?thesis by auto
  qed simp
qed simp

lemma join_snoc_empty: "ws \<noteq> [] \<Longrightarrow> join_with [d] (ws @ [[]]) = join_with [d] ws @ [d]"
proof (induction ws)
  case (Cons w ws)
  then show ?case by (cases ws) simp_all
qed simp

lemma unix_lines_id: "cr \<notin> set s \<Longrightarrow> unix_lines s = s"
  by (simp add: unix_lines_def replace_all_absent_char [where c = cr])

lemma has_suffix_single: "has_suffix s [d] \<longleftrightarrow> s \<noteq> [] \<and> last s = d"
  by (cases s rule: rev_cases) (auto simp: has_suffix_def)

lemma content_lines_join:
  assumes "cr \<notin> set s"
  shows "s = join_with [nl] (split_content_lines s) @ (if has_suffix s [nl] then [nl] else [])"
proof (cases "has_suffix s [nl]")
  case True
  then have s: "s \<noteq> []" "last (split_on nl s) = []" by (auto simp: has_suffix_single split_last_empty)
  let ?b = "butlast (split_on nl s)"
  have b: "split_on nl s = ?b @ [[]]"
    using s(2) append_butlast_last_id [OF split_on_not_Nil, of nl s] by simp
  have "?b \<noteq> []"
    using b s(1) by (metis append_Nil join_split join_with.simps(2))
  then have "s = join_with [nl] ?b @ [nl]" by (metis b join_snoc_empty join_split)
  with True s show ?thesis by (simp add: split_content_lines_def unix_lines_id [OF assms])
next
  case False
  then show ?thesis
    by (auto simp: split_content_lines_def unix_lines_id [OF assms] has_suffix_single split_last_empty
        join_split Let_def)
qed

lemma content_lines_Nil: "cr \<notin> set s \<Longrightarrow> split_content_lines s = [] \<longleftrightarrow> s = []"
proof
  assume a: "cr \<notin> set s" "split_content_lines s = []"
  show "s = []"
  proof (rule ccontr)
    assume n: "s \<noteq> []"
    then have "last (split_on nl s) = [] \<and> butlast (split_on nl s) = []"
      using a by (auto simp: split_content_lines_def unix_lines_id Let_def split: if_splits)
    then have "split_on nl s = [[]]" by (metis append_Nil append_butlast_last_id split_on_not_Nil)
    with n show False by (metis join_split join_with.simps(2))
  qed
qed (simp add: split_content_lines_def)

lemma hunk_sides_diff:
  "hunk_old (map (\<lambda>l. CHR ''-'' # l) old @ map (\<lambda>l. CHR ''+'' # l) new) = old"
  "hunk_new (map (\<lambda>l. CHR ''-'' # l) old @ map (\<lambda>l. CHR ''+'' # l) new) = new"
  by (simp_all add: hunk_old_def hunk_new_def filter_map comp_def)

text \<open>
  The diff of a file that is not cut at 64 KiB parses back as a patch exactly if no line of
  the old content starts with two dashes and a space. Such a line, a comment in SQL, Lua or
  Haskell, turns into a removed line that starts like a file header, and the patch is refused.
\<close>

theorem diff_parses_unless_dashed:
  assumes "diffable_path p" "length (unified_diff p old new) \<le> max_tool_output_bytes"
  shows "(\<exists>files. parse_unified_patch (unified_diff p old new) = Inr files)
    \<longleftrightarrow> list_all (\<lambda>l. \<not> has_prefix l ''-- '') (split_content_lines old)"
  using parse_diff_body [OF assms(1) parse_unified_diff(2,3) [OF assms]]
  by (auto simp: parse_unified_diff(1) [OF assms] dashed_def split: if_splits)

lemma short_diff:
  "length (concat (map (\<lambda>l. l @ [nl]) (diff_body (trim_space p) (split_content_lines old) (split_content_lines new)))) \<le> 99
    \<Longrightarrow> length (unified_diff p old new) \<le> max_tool_output_bytes"
  by (simp add: unified_diff_def truncate_tool_output_def max_tool_output_bytes_def)

theorem diff_parses_unless_dashed_witness:
  "\<nexists>files. parse_unified_patch (unified_diff ''q.sql'' (''-- all'' @ [CHR 0x0A]) (''select'' @ [CHR 0x0A]))
     = Inr files"
proof -
  have "diffable_path ''q.sql''" by code_simp
  moreover have "length (unified_diff ''q.sql'' (''-- all'' @ [CHR 0x0A]) (''select'' @ [CHR 0x0A]))
      \<le> max_tool_output_bytes" by (rule short_diff, code_simp)
  moreover have "\<not> list_all (\<lambda>l. \<not> has_prefix l ''-- '') (split_content_lines (''-- all'' @ [CHR 0x0A]))"
    by code_simp
  ultimately show ?thesis by (simp only: diff_parses_unless_dashed not_False_eq_True)
qed



end
