(* ===== verification/Workspace_Files.thy ===== *)
theory Workspace_Files
  imports Patch_Engine "HOL-Library.AList"
begin

text \<open>
  The workspace tools of the Agent Runtime (\<^verbatim>\<open>runtime/tools.go\<close>): resolution of the paths a
  model names, reading, writing, editing, diffing and patching files.

  The file system is state: a table of nodes under real paths (lists of names), the root
  directory being always there, and the working directory of the process. It is the Unix file
  system as the program sees it: a path is followed name by name, symbolic links included, by the
  kernel (40 links loc most) and by \<^verbatim>\<open>filepath.EvalSymlinks\<close> (255). Failures of the system for
  other reasons (permissions, full disks) and the permission bits are left out, as are the
  Windows variants of the path functions.
\<close>

subsection \<open>The file system\<close>

datatype fs_node = Fs_Dir | Fs_File string | Fs_Link string

datatype fs_error = Not_Exist | Not_Directory | Too_Many_Links | Is_A_Directory | Exists_Already

record file_system =
  fs_nodes :: "(string list \<times> fs_node) list"
  fs_cwd :: string

definition fs_lookup :: "file_system \<Rightarrow> string list \<Rightarrow> fs_node option" where
  "fs_lookup fs loc = (if loc = [] then Some Fs_Dir else map_of (fs_nodes fs) loc)"

definition fs_put :: "file_system \<Rightarrow> string list \<Rightarrow> fs_node \<Rightarrow> file_system" where
  "fs_put fs loc node = fs\<lparr>fs_nodes := AList.update loc node (fs_nodes fs)\<rparr>"

abbreviation (input) slash :: char where "slash \<equiv> CHR ''/''"

text \<open>
  Following the names of a path from a real directory. With \<open>create\<close> a missing last name is
  accepted, as \<^verbatim>\<open>open\<close> does with \<^verbatim>\<open>O_CREATE\<close>.
\<close>

function fs_walk :: "file_system \<Rightarrow> bool \<Rightarrow> nat \<Rightarrow> string list \<Rightarrow> string list \<Rightarrow> fs_error + string list" where
  "fs_walk fs create links loc [] = Inr loc"
| "fs_walk fs create links loc (c # cs) =
     (if c = [] \<or> c = ''.'' then fs_walk fs create links loc cs
      else if c = ''..'' then fs_walk fs create links (butlast loc) cs
      else case fs_lookup fs (loc @ [c]) of
          None \<Rightarrow> if create \<and> cs = [] then Inr (loc @ [c]) else Inl Not_Exist
        | Some Fs_Dir \<Rightarrow> fs_walk fs create links (loc @ [c]) cs
        | Some (Fs_File _) \<Rightarrow> if cs = [] then Inr (loc @ [c]) else Inl Not_Directory
        | Some (Fs_Link t) \<Rightarrow>
            if links = 0 then Inl Too_Many_Links
            else fs_walk fs create (links - 1) (if has_prefix t ''/'' then [] else loc)
                   (split_on slash t @ cs))"
  by pat_completeness auto
termination
  by (relation "inv_image (less_than <*lex*> less_than) (\<lambda>(fs, create, links, loc, cs). (links, length cs))")
     auto

declare fs_walk.simps(2) [simp del]

definition unix_path :: "string list \<Rightarrow> string" where
  "unix_path loc = slash # join_with ''/'' loc"

definition is_abs :: "string \<Rightarrow> bool" where
  "is_abs p \<longleftrightarrow> has_prefix p ''/''"

fun clean_parts :: "string list \<Rightarrow> string list \<Rightarrow> string list" where
  "clean_parts loc [] = loc"
| "clean_parts loc (c # cs) =
     (if c = [] \<or> c = ''.'' then clean_parts loc cs
      else if c = ''..'' then clean_parts (butlast loc) cs
      else clean_parts (loc @ [c]) cs)"

text \<open>\<^verbatim>\<open>filepath.Clean\<close> of an absolute path, and \<^verbatim>\<open>filepath.Abs\<close>.\<close>

definition path_clean :: "string \<Rightarrow> string" where
  "path_clean p = unix_path (clean_parts [] (split_on slash p))"

definition path_abs :: "file_system \<Rightarrow> string \<Rightarrow> string" where
  "path_abs fs p = path_clean (if is_abs p then p else fs_cwd fs @ slash # p)"

definition eval_symlinks :: "file_system \<Rightarrow> string \<Rightarrow> fs_error + string" where
  "eval_symlinks fs p =
     bind_result (fs_walk fs False 255 [] (split_on slash p)) (\<lambda>loc. Inr (unix_path loc))"

definition os_stat :: "file_system \<Rightarrow> string \<Rightarrow> fs_error + fs_node" where
  "os_stat fs p =
     bind_result (fs_walk fs False 40 [] (split_on slash p))
       (\<lambda>loc. of_option Not_Exist (fs_lookup fs loc))"

definition os_write :: "file_system \<Rightarrow> string \<Rightarrow> string \<Rightarrow> fs_error + file_system" where
  "os_write fs p content =
     bind_result (fs_walk fs True 40 [] (split_on slash p))
       (\<lambda>loc. if fs_lookup fs loc = Some Fs_Dir then Inl Is_A_Directory
             else Inr (fs_put fs loc (Fs_File content)))"

text \<open>\<^verbatim>\<open>os.Mkdir\<close> and \<^verbatim>\<open>os.MkdirAll\<close> of a clean absolute path, given by its names.\<close>

definition os_mkdir :: "file_system \<Rightarrow> string list \<Rightarrow> fs_error + file_system" where
  "os_mkdir fs names =
     bind_result (fs_walk fs False 40 [] (butlast names))
       (\<lambda>loc. case fs_lookup fs (loc @ [last names]) of
               None \<Rightarrow> Inr (fs_put fs (loc @ [last names]) Fs_Dir)
             | Some Fs_Dir \<Rightarrow> Inr fs
             | _ \<Rightarrow> Inl Exists_Already)"

function os_mkdir_all :: "file_system \<Rightarrow> string list \<Rightarrow> fs_error + file_system" where
  "os_mkdir_all fs names =
     (case os_stat fs (unix_path names) of
        Inr Fs_Dir \<Rightarrow> Inr fs
      | Inr _ \<Rightarrow> Inl Not_Directory
      | Inl e \<Rightarrow>
          if names = [] then Inl e
          else bind_result (if length names = 1 then Inr fs else os_mkdir_all fs (butlast names))
                 (\<lambda>fs. os_mkdir fs names))"
  by pat_completeness auto
termination
  by (relation "measure (\<lambda>(fs, names). length names)") auto

declare os_mkdir_all.simps [simp del]

subsection \<open>Resolution of workspace paths\<close>

datatype ws_error =
    Path_Required
  | Working_Dir_Missing string
  | Working_Dir_Inaccessible string fs_error
  | Working_Dir_No_Directory string
  | Path_Escapes
  | File_Not_Found string string
  | Io_Error fs_error string string
  | Os_Error fs_error
  | Directory_In_Workspace string string
  | Is_Directory string
  | Binary_File string
  | Old_Text_Required
  | Old_Text_Needed
  | Old_Text_Not_Found string
  | Old_Text_Ambiguous nat string
  | Patch_Required
  | Patch_Too_Long
  | Patch_Syntax patch_error
  | Patch_Empty
  | Patch_Failed string patch_error

definition is_path_inside :: "string \<Rightarrow> string \<Rightarrow> bool" where
  "is_path_inside base target =
     (let base = path_clean base; target = path_clean target
      in target = base \<or> has_prefix target (base @ ''/''))"

definition resolve_workspace_path :: "file_system \<Rightarrow> string \<Rightarrow> string \<Rightarrow> ws_error + string" where
  "resolve_workspace_path fs base rel =
     (if trim_space rel = [] then Inl Path_Required
      else let abs_root = path_abs fs (if base = [] then fs_cwd fs else base)
           in case os_stat fs abs_root of
               Inl e \<Rightarrow> if e = Not_Exist then Inl (Working_Dir_Missing abs_root)
                        else Inl (Working_Dir_Inaccessible abs_root e)
             | Inr node \<Rightarrow>
                 if node \<noteq> Fs_Dir then Inl (Working_Dir_No_Directory abs_root)
                 else let clean_root = (case eval_symlinks fs abs_root of Inl _ \<Rightarrow> path_clean abs_root | Inr r \<Rightarrow> r);
                          target = (if is_abs rel then rel else path_clean (clean_root @ slash # rel));
                          clean_target = path_clean (path_abs fs target);
                          clean_target = (case eval_symlinks fs clean_target of
                              Inl _ \<Rightarrow> clean_target | Inr t \<Rightarrow> path_clean t)
                      in if is_path_inside clean_root clean_target then Inr clean_target
                         else Inl Path_Escapes)"

definition clean_workspace_root :: "file_system \<Rightarrow> string \<Rightarrow> string" where
  "clean_workspace_root fs base =
     (let abs_root = path_abs fs (if base = [] then fs_cwd fs else base)
      in path_clean (case eval_symlinks fs abs_root of Inl _ \<Rightarrow> path_clean abs_root | Inr r \<Rightarrow> r))"

subsection \<open>Tools that read and write one file\<close>

definition display_working_dir :: "file_system \<Rightarrow> string \<Rightarrow> string" where
  "display_working_dir fs base = (if trim_space base = [] then fs_cwd fs else base)"

definition annotate_io_error :: "file_system \<Rightarrow> string \<Rightarrow> string \<Rightarrow> fs_error \<Rightarrow> ws_error" where
  "annotate_io_error fs base rel e =
     (let wd = display_working_dir fs base
      in if e = Not_Exist then File_Not_Found rel wd else Io_Error e rel wd)"

definition run_read_file :: "file_system \<Rightarrow> string \<Rightarrow> string \<Rightarrow> ws_error + string" where
  "run_read_file fs base rel =
     bind_result (resolve_workspace_path fs base rel)
       (\<lambda>target. case os_stat fs target of
           Inl e \<Rightarrow> Inl (annotate_io_error fs base rel e)
         | Inr (Fs_File content) \<Rightarrow> Inr (take max_tool_output_bytes content)
         | Inr _ \<Rightarrow> Inl (Directory_In_Workspace rel (display_working_dir fs base)))"

definition path_dir :: "string \<Rightarrow> string list" where
  "path_dir p = butlast (clean_parts [] (split_on slash p))"

definition run_write_file :: "file_system \<Rightarrow> string \<Rightarrow> string \<Rightarrow> string
    \<Rightarrow> file_system \<times> (ws_error + string)" where
  "run_write_file fs base rel content =
     (case resolve_workspace_path fs base rel of
        Inl e \<Rightarrow> (fs, Inl e)
      | Inr target \<Rightarrow>
          (case os_mkdir_all fs (path_dir target) of
             Inl e \<Rightarrow> (fs, Inl (Os_Error e))
           | Inr fs \<Rightarrow>
               (case os_write fs target content of
                  Inl e \<Rightarrow> (fs, Inl (Os_Error e))
                | Inr fs \<Rightarrow> (fs, Inr (''wrote '' @ nat_digits (length content) @ '' bytes to '' @ rel)))))"

text \<open>The checks edit, diff and patch share: the target is a text file.\<close>

definition text_file :: "file_system \<Rightarrow> string \<Rightarrow> string \<Rightarrow> ws_error + string \<times> string" where
  "text_file fs base rel =
     bind_result (resolve_workspace_path fs base rel)
       (\<lambda>target. case os_stat fs target of
           Inl e \<Rightarrow> Inl (Os_Error e)
         | Inr (Fs_File raw) \<Rightarrow>
             if CHR 0x00 \<in> set raw then Inl (Binary_File rel) else Inr (target, raw)
         | Inr _ \<Rightarrow> Inl (Is_Directory rel))"

definition replace_text :: "string \<Rightarrow> string \<Rightarrow> string \<Rightarrow> string \<Rightarrow> bool \<Rightarrow> ws_error + string \<times> nat" where
  "replace_text rel content old new all =
     (let n = count_sub content old
      in if n = 0 then Inl (Old_Text_Not_Found rel)
         else if \<not> all \<and> n > 1 then Inl (Old_Text_Ambiguous n rel)
         else if all then Inr (replace_all content old new, n)
         else Inr (replace_first content old new, 1))"

definition run_edit_file :: "file_system \<Rightarrow> string \<Rightarrow> string \<Rightarrow> string \<Rightarrow> string \<Rightarrow> bool
    \<Rightarrow> file_system \<times> (ws_error + string)" where
  "run_edit_file fs base rel old new all =
     (if trim_space old = [] then (fs, Inl Old_Text_Required)
      else case text_file fs base rel of
          Inl e \<Rightarrow> (fs, Inl e)
        | Inr (target, content) \<Rightarrow>
            (case replace_text rel content old new all of
               Inl e \<Rightarrow> (fs, Inl e)
             | Inr (replaced, changed) \<Rightarrow>
                 (case os_write fs target replaced of
                    Inl e \<Rightarrow> (fs, Inl (Os_Error e))
                  | Inr fs \<Rightarrow> (fs, Inr (''edited '' @ rel @ '': replaced '' @ nat_digits changed
                      @ '' occurrence(s)'')))))"

definition run_diff_file :: "file_system \<Rightarrow> string \<Rightarrow> string \<Rightarrow> string option \<Rightarrow> string \<Rightarrow> string \<Rightarrow> bool
    \<Rightarrow> ws_error + string" where
  "run_diff_file fs base rel content old new all =
     bind_result (text_file fs base rel)
       (\<lambda>(target, old_content).
          bind_result
            (case content of
               Some c \<Rightarrow> Inr c
             | None \<Rightarrow> if trim_space old = [] then Inl Old_Text_Needed
                       else bind_result (replace_text rel old_content old new all) (\<lambda>(c, _). Inr c))
            (\<lambda>new_content. Inr (if old_content = new_content then ''no changes''
                               else unified_diff rel old_content new_content)))"

subsection \<open>Patches\<close>

fun apply_files :: "file_system \<Rightarrow> string \<Rightarrow> unified_file_patch list
    \<Rightarrow> file_system \<times> (ws_error + unit)" where
  "apply_files fs base [] = (fs, Inr ())"
| "apply_files fs base (f # files) =
     (case text_file fs base (uf_path f) of
        Inl e \<Rightarrow> (fs, Inl e)
      | Inr (target, raw) \<Rightarrow>
          (case apply_file_patch raw f of
             Inl e \<Rightarrow> (fs, Inl (Patch_Failed (uf_path f) e))
           | Inr content \<Rightarrow>
               (case os_write fs target content of
                  Inl e \<Rightarrow> (fs, Inl (Os_Error e))
                | Inr fs \<Rightarrow> apply_files fs base files)))"

definition run_apply_patch :: "file_system \<Rightarrow> string \<Rightarrow> string \<Rightarrow> file_system \<times> (ws_error + string)" where
  "run_apply_patch fs base patch =
     (if trim_space patch = [] then (fs, Inl Patch_Required)
      else if length patch > max_patch_bytes then (fs, Inl Patch_Too_Long)
      else case parse_unified_patch (unix_lines patch) of
          Inl e \<Rightarrow> (fs, Inl (Patch_Syntax e))
        | Inr files \<Rightarrow>
            if files = [] then (fs, Inl Patch_Empty)
            else case apply_files fs base files of
                (fs, Inl e) \<Rightarrow> (fs, Inl e)
              | (fs, Inr _) \<Rightarrow> (fs, Inr (''applied patch to '' @ nat_digits (length files)
                  @ '' file(s): '' @ join_with '', '' (sort (map uf_path files)))))"


subsection \<open>Real paths\<close>

definition plain_name :: "string \<Rightarrow> bool" where
  "plain_name c \<longleftrightarrow> c \<noteq> [] \<and> c \<noteq> ''.'' \<and> c \<noteq> ''..'' \<and> slash \<notin> set c"

text \<open>All names on the way are directories, no symbolic links.\<close>

definition dirs_to :: "file_system \<Rightarrow> string list \<Rightarrow> bool" where
  "dirs_to fs p \<longleftrightarrow> list_all plain_name p \<and> (\<forall>n < length p. fs_lookup fs (take n p) = Some Fs_Dir)"

abbreviation real_dir :: "file_system \<Rightarrow> string list \<Rightarrow> bool" where
  "real_dir fs p \<equiv> dirs_to fs p \<and> fs_lookup fs p = Some Fs_Dir"

lemma fs_lookup_put [simp]:
  "fs_lookup (fs_put fs q node) p = (if p \<noteq> [] \<and> p = q then Some node else fs_lookup fs p)"
  by (simp add: fs_lookup_def fs_put_def update_conv')

lemma fs_lookup_base [simp]: "fs_lookup fs [] = Some Fs_Dir"
  by (simp add: fs_lookup_def)

lemma dirs_to_Nil [simp]: "dirs_to fs []"
  by (simp add: dirs_to_def)

lemma dirs_to_snoc: "dirs_to fs (p @ [c]) \<longleftrightarrow> real_dir fs p \<and> plain_name c"
  by (auto simp: dirs_to_def less_Suc_eq)

lemma dirs_to_butlast: "dirs_to fs p \<Longrightarrow> real_dir fs (butlast p)"
  by (cases p rule: rev_cases) (auto simp: dirs_to_snoc)

lemma dirs_to_prefix:
  assumes "dirs_to fs (p @ c # q)"
  shows "real_dir fs p"
proof -
  have n: "fs_lookup fs (take n p) = Some Fs_Dir" if "n \<le> length p" for n
  proof -
    have "fs_lookup fs (take n (p @ c # q)) = Some Fs_Dir"
      using assms that unfolding dirs_to_def by (metis length_append less_add_same_cancel1 le_less_trans
          length_greater_0_conv list.discI order_le_less_trans)
    with that show ?thesis by simp
  qed
  have "fs_lookup fs p = Some Fs_Dir" using n [of "length p"] by simp
  with n assms show ?thesis by (auto simp: dirs_to_def)
qed

lemma split_names: "c \<in> set (split_on slash s) \<Longrightarrow> slash \<notin> set c"
  by (rule split_on_pieces)

text \<open>One name of a walk at a time.\<close>

definition proper_name :: "string \<Rightarrow> bool" where
  "proper_name c \<longleftrightarrow> c \<noteq> [] \<and> c \<noteq> ''.'' \<and> c \<noteq> ''..''"

lemma fs_walk_step:
  "c = [] \<or> c = ''.'' \<Longrightarrow> fs_walk fs create links loc (c # cs) = fs_walk fs create links loc cs"
  "c = ''..'' \<Longrightarrow> fs_walk fs create links loc (c # cs) = fs_walk fs create links (butlast loc) cs"
  "proper_name c \<Longrightarrow> fs_lookup fs (loc @ [c]) = None \<Longrightarrow>
    fs_walk fs create links loc (c # cs) = (if create \<and> cs = [] then Inr (loc @ [c]) else Inl Not_Exist)"
  "proper_name c \<Longrightarrow> fs_lookup fs (loc @ [c]) = Some Fs_Dir \<Longrightarrow>
    fs_walk fs create links loc (c # cs) = fs_walk fs create links (loc @ [c]) cs"
  "proper_name c \<Longrightarrow> fs_lookup fs (loc @ [c]) = Some (Fs_File t) \<Longrightarrow>
    fs_walk fs create links loc (c # cs) = (if cs = [] then Inr (loc @ [c]) else Inl Not_Directory)"
  "proper_name c \<Longrightarrow> fs_lookup fs (loc @ [c]) = Some (Fs_Link t) \<Longrightarrow>
    fs_walk fs create links loc (c # cs) = (if links = 0 then Inl Too_Many_Links
      else fs_walk fs create (links - 1) (if has_prefix t ''/'' then [] else loc) (split_on slash t @ cs))"
  by (auto simp: fs_walk.simps(2) proper_name_def)

lemma fs_walk_skip [simp]: "fs_walk fs create links loc ([] # cs) = fs_walk fs create links loc cs"
  by (simp add: fs_walk_step)

lemma fs_walk_induct [case_names ends stay up missing enter regular link]:
  fixes P :: "nat \<Rightarrow> string list \<Rightarrow> string list \<Rightarrow> bool"
  assumes "\<And>links loc. P links loc []"
    and "\<And>links loc c cs. c = [] \<or> c = ''.'' \<Longrightarrow> P links loc cs \<Longrightarrow> P links loc (c # cs)"
    and "\<And>links loc c cs. c = ''..'' \<Longrightarrow> P links (butlast loc) cs \<Longrightarrow> P links loc (c # cs)"
    and "\<And>links loc c cs. proper_name c \<Longrightarrow> fs_lookup fs (loc @ [c]) = None \<Longrightarrow> P links loc (c # cs)"
    and "\<And>links loc c cs. proper_name c \<Longrightarrow> fs_lookup fs (loc @ [c]) = Some Fs_Dir \<Longrightarrow>
      P links (loc @ [c]) cs \<Longrightarrow> P links loc (c # cs)"
    and "\<And>links loc c cs t. proper_name c \<Longrightarrow> fs_lookup fs (loc @ [c]) = Some (Fs_File t) \<Longrightarrow> P links loc (c # cs)"
    and "\<And>links loc c cs t. proper_name c \<Longrightarrow> fs_lookup fs (loc @ [c]) = Some (Fs_Link t) \<Longrightarrow>
      (0 < links \<Longrightarrow> P (links - 1) (if has_prefix t ''/'' then [] else loc) (split_on slash t @ cs)) \<Longrightarrow>
      P links loc (c # cs)"
  shows "P links loc cs"
proof (induction links arbitrary: loc cs rule: less_induct)
  case (less links)
  have "P links loc cs" for loc cs
  proof (induction cs arbitrary: loc)
    case Nil
    show ?case by (rule assms(1))
  next
    case (Cons c cs)
    consider "c = [] \<or> c = ''.''" | "c = ''..''"
      | "proper_name c" "fs_lookup fs (loc @ [c]) = None"
      | "proper_name c" "fs_lookup fs (loc @ [c]) = Some Fs_Dir"
      | t where "proper_name c" "fs_lookup fs (loc @ [c]) = Some (Fs_File t)"
      | t where "proper_name c" "fs_lookup fs (loc @ [c]) = Some (Fs_Link t)"
      unfolding proper_name_def by (metis fs_node.exhaust option.exhaust)
    then show ?case
      by cases (use Cons less assms in \<open>simp_all\<close>)
  qed
  then show ?case .
qed

text \<open>A walk ends at a real path.\<close>

lemma fs_walk_real:
  "fs_walk fs create links loc cs = Inr p \<Longrightarrow> real_dir fs loc \<Longrightarrow> \<forall>c \<in> set cs. slash \<notin> set c \<Longrightarrow>
    dirs_to fs p \<and> (fs_lookup fs p = None \<longrightarrow> create) \<and> (\<forall>t. fs_lookup fs p \<noteq> Some (Fs_Link t))"
proof (induction links loc cs rule: fs_walk_induct [where fs = fs])
  case (up links loc c cs)
  then show ?case by (simp add: fs_walk_step dirs_to_butlast)
next
  case (link links loc c cs t)
  then show ?case by (auto simp: fs_walk_step dest: split_names split: if_splits)
qed (auto simp: fs_walk_step dirs_to_snoc plain_name_def proper_name_def split: if_splits)

text \<open>Walking along a real path changes nothing, and more links may be followed.\<close>

lemma fs_walk_plain:
  assumes "real_dir fs loc" "dirs_to fs (loc @ cs)" "\<And>t. fs_lookup fs (loc @ cs) \<noteq> Some (Fs_Link t)"
    and "fs_lookup fs (loc @ cs) = None \<longrightarrow> create \<and> cs \<noteq> []"
  shows "fs_walk fs create links loc cs = Inr (loc @ cs)"
  using assms
proof (induction cs arbitrary: loc)
  case (Cons c cs)
  have c: "plain_name c" using Cons.prems(2) by (simp add: dirs_to_def)
  then have n: "proper_name c" by (simp add: plain_name_def proper_name_def)
  show ?case
  proof (cases cs)
    case Nil
    with Cons.prems n show ?thesis
      by (cases "fs_lookup fs (loc @ [c])"; cases "the (fs_lookup fs (loc @ [c]))") (simp_all add: fs_walk_step)
  next
    case (Cons d ds)
    have d: "fs_lookup fs (loc @ [c]) = Some Fs_Dir"
      using Cons.prems(2) Cons dirs_to_prefix [of fs "loc @ [c]" d ds] by simp
    have "dirs_to fs (loc @ [c])" using Cons.prems(1) c by (simp add: dirs_to_snoc)
    with d show ?thesis
      using Cons.IH [of "loc @ [c]"] Cons.prems n Cons by (simp add: fs_walk_step)
  qed
qed simp

lemma fs_walk_more:
  "fs_walk fs create links loc cs = Inr p \<Longrightarrow> links \<le> links' \<Longrightarrow> fs_walk fs create links' loc cs = Inr p"
proof (induction links loc cs arbitrary: links' rule: fs_walk_induct [where fs = fs])
  case (link links loc c cs t)
  from link.prems link.hyps have "0 < links" by (auto simp: fs_walk_step split: if_splits)
  with link show ?case by (simp add: fs_walk_step)
qed (auto simp: fs_walk_step)


text \<open>Replacing the content of a file leaves every walk as it was.\<close>

lemma fs_put_same_kind:
  assumes "fs_lookup fs q = Some (Fs_File x)"
  shows "fs_lookup (fs_put fs q (Fs_File y)) p = None \<longleftrightarrow> fs_lookup fs p = None"
    and "fs_lookup (fs_put fs q (Fs_File y)) p = Some Fs_Dir \<longleftrightarrow> fs_lookup fs p = Some Fs_Dir"
    and "fs_lookup (fs_put fs q (Fs_File y)) p = Some (Fs_Link t) \<longleftrightarrow> fs_lookup fs p = Some (Fs_Link t)"
    and "\<exists>t. fs_lookup fs p = Some (Fs_File t) \<Longrightarrow> \<exists>t. fs_lookup (fs_put fs q (Fs_File y)) p = Some (Fs_File t)"
  using assms by auto

lemma fs_walk_put:
  assumes "fs_lookup fs q = Some (Fs_File x)"
  shows "fs_walk (fs_put fs q (Fs_File y)) create links loc cs = fs_walk fs create links loc cs"
  supply [simp del] = fs_lookup_put and [simp] = fs_put_same_kind [OF assms]
proof (induction links loc cs rule: fs_walk_induct [where fs = fs])
  case (regular links loc c cs t)
  then obtain u where "fs_lookup (fs_put fs q (Fs_File y)) (loc @ [c]) = Some (Fs_File u)"
    using fs_put_same_kind(4) [OF assms] by blast
  with regular show ?case by (simp add: fs_walk_step)
qed (simp_all add: fs_walk_step)

lemma dirs_to_put:
  "fs_lookup fs q = Some (Fs_File x) \<Longrightarrow> dirs_to (fs_put fs q (Fs_File y)) p \<longleftrightarrow> dirs_to fs p"
  by (simp add: dirs_to_def fs_put_same_kind del: fs_lookup_put)

subsection \<open>Paths as text\<close>

lemma split_on_snoc: "split_on d (s @ d # t) = split_on d s @ split_on d t"
proof (induction s)
  case (Cons c s)
  obtain w ws where "split_on d s = w # ws" by (cases "split_on d s") auto
  with Cons show ?case by simp
qed simp

lemma split_unix_path:
  assumes "list_all plain_name p"
  shows "split_on slash (unix_path p) = [] # (if p = [] then [[]] else p)"
proof -
  have "split_on slash (join_with ''/'' p) = p" if "p \<noteq> []"
    using that assms by (intro split_join) (auto simp: list_all_iff plain_name_def)
  then show ?thesis by (simp add: unix_path_def)
qed

lemma fs_walk_unix_path:
  "list_all plain_name p \<Longrightarrow> fs_walk fs create links [] (split_on slash (unix_path p)) = fs_walk fs create links [] p"
  by (simp add: split_unix_path)

lemma clean_parts_plain: "list_all plain_name cs \<Longrightarrow> clean_parts loc cs = loc @ cs"
  by (induction cs arbitrary: loc) (auto simp: plain_name_def)

lemma plain_clean_parts:
  "list_all plain_name loc \<Longrightarrow> \<forall>c \<in> set cs. slash \<notin> set c \<Longrightarrow> list_all plain_name (clean_parts loc cs)"
proof (induction cs arbitrary: loc)
  case (Cons c cs)
  have "list_all plain_name (butlast loc)"
    using Cons.prems(1) by (auto simp: list_all_iff dest: in_set_butlastD)
  moreover have "c \<noteq> [] \<Longrightarrow> c \<noteq> ''.'' \<Longrightarrow> c \<noteq> ''..'' \<Longrightarrow> list_all plain_name (loc @ [c])"
    using Cons.prems by (simp add: plain_name_def [of c])
  ultimately show ?case using Cons by simp
qed simp

lemma plain_clean_split: "list_all plain_name (clean_parts [] (split_on slash s))"
  by (intro plain_clean_parts) (auto dest: split_names)

lemma clean_parts_unix: "list_all plain_name p \<Longrightarrow> clean_parts [] (split_on slash (unix_path p)) = p"
  by (simp add: split_unix_path clean_parts_plain)

lemma path_clean_unix: "list_all plain_name p \<Longrightarrow> path_clean (unix_path p) = unix_path p"
  by (simp add: path_clean_def clean_parts_unix)

lemma unix_path_inject: "list_all plain_name p \<Longrightarrow> list_all plain_name q \<Longrightarrow> unix_path p = unix_path q \<Longrightarrow> p = q"
  by (metis clean_parts_unix)

lemma path_inside_prefix:
  assumes "list_all plain_name r" "list_all plain_name p" "is_path_inside (unix_path r) (unix_path p)"
  shows "prefix r p"
proof (cases "unix_path p = unix_path r")
  case True
  with assms have "p = r" by (metis unix_path_inject)
  then show ?thesis by simp
next
  case False
  then obtain t where "unix_path p = unix_path r @ slash # t"
    using assms by (auto simp: is_path_inside_def path_clean_unix has_prefix_iff Let_def)
  then have e: "split_on slash (unix_path p) = split_on slash (unix_path r) @ split_on slash t"
    by (simp add: split_on_snoc)
  show ?thesis
  proof (cases "r = []")
    case False
    with e assms have "(if p = [] then [[]] else p) = r @ split_on slash t" by (simp add: split_unix_path)
    moreover have "p \<noteq> []"
      using calculation False by (cases r) (auto split: if_splits)
    ultimately show ?thesis by simp
  qed simp
qed

lemma path_inside_unix: "list_all plain_name (r @ q) \<Longrightarrow> r \<noteq> [] \<Longrightarrow> is_path_inside (unix_path r) (unix_path (r @ q))"
proof -
  assume a: "list_all plain_name (r @ q)" "r \<noteq> []"
  have "join_with ''/'' (r @ q) = join_with ''/'' r @ (if q = [] then [] else slash # join_with ''/'' q)"
    using a(2)
  proof (induction r)
    case (Cons c r)
    then show ?case by (cases r; cases q) auto
  qed simp
  then have "q = [] \<or> has_prefix (unix_path (r @ q)) (unix_path r @ ''/'')"
    by (auto simp: unix_path_def has_prefix_def)
  with a show ?thesis by (auto simp: is_path_inside_def path_clean_unix Let_def)
qed

subsection \<open>What resolution guarantees\<close>

definition work_base :: "file_system \<Rightarrow> string \<Rightarrow> string" where
  "work_base fs base = path_abs fs (if base = [] then fs_cwd fs else base)"

text \<open>The directory a working directory text stands for.\<close>

definition workspace_of :: "file_system \<Rightarrow> string \<Rightarrow> fs_error + string list" where
  "workspace_of fs base = fs_walk fs False 40 [] (split_on slash (work_base fs base))"

lemma os_stat_walk: "os_stat fs s = Inr node \<longleftrightarrow>
    (\<exists>p. fs_walk fs False 40 [] (split_on slash s) = Inr p \<and> fs_lookup fs p = Some node)"
  by (auto simp: os_stat_def)

lemma eval_symlinks_stat:
  "os_stat fs s = Inr node \<Longrightarrow> \<exists>p. fs_walk fs False 40 [] (split_on slash s) = Inr p
    \<and> eval_symlinks fs s = Inr (unix_path p) \<and> dirs_to fs p"
proof -
  assume "os_stat fs s = Inr node"
  then obtain p where p: "fs_walk fs False 40 [] (split_on slash s) = Inr p" by (auto simp: os_stat_walk)
  moreover have "fs_walk fs False 255 [] (split_on slash s) = Inr p"
    by (rule fs_walk_more [OF p]) simp
  moreover have "dirs_to fs p"
    using fs_walk_real [OF p] by (auto dest: split_names)
  ultimately show ?thesis by (auto simp: eval_symlinks_def)
qed

text \<open>A resolved path is clean and lies, as text, below the real working directory.\<close>

lemma resolve_parts:
  assumes "resolve_workspace_path fs base rel = Inr target"
  obtains r p where "workspace_of fs base = Inr r" "real_dir fs r" "target = unix_path p"
    "list_all plain_name p" "prefix r p"
    "eval_symlinks fs target = Inr target \<or> (\<exists>e. eval_symlinks fs target = Inl e)"
proof -
  let ?abs = "work_base fs base"
  have abs: "path_abs fs (if base = [] then fs_cwd fs else base) = ?abs" by (simp add: work_base_def)
  have stat: "os_stat fs ?abs = Inr Fs_Dir"
    using assms by (auto simp: resolve_workspace_path_def abs Let_def split: if_splits sum.splits)
  from eval_symlinks_stat [OF this] obtain r where r: "workspace_of fs base = Inr r"
    "eval_symlinks fs ?abs = Inr (unix_path r)" "dirs_to fs r"
    by (auto simp: workspace_of_def)
  then have dir: "real_dir fs r" using stat by (auto simp: os_stat_walk workspace_of_def)
  let ?t0 = "if is_abs rel then rel else path_clean (unix_path r @ slash # rel)"
  let ?t1 = "path_clean (path_abs fs ?t0)"
  let ?t = "case eval_symlinks fs ?t1 of Inl _ \<Rightarrow> ?t1 | Inr t \<Rightarrow> path_clean t"
  have t: "target = ?t" "is_path_inside (unix_path r) target"
    using assms stat r(2) unfolding resolve_workspace_path_def abs
    by (auto simp: Let_def split: if_splits)
  show thesis
  proof (cases "eval_symlinks fs ?t1")
    case (Inl e)
    then have "target = ?t1" using t(1) by simp
    moreover obtain p where p: "?t1 = unix_path p" "list_all plain_name p"
      using plain_clean_split path_clean_def by metis
    ultimately have "prefix r p"
      using t(2) r(3) by (intro path_inside_prefix) (auto simp: dirs_to_def)
    then show thesis using that [OF r(1) dir] Inl p \<open>target = ?t1\<close> by auto
  next
    case (Inr u)
    then obtain p where u: "fs_walk fs False 255 [] (split_on slash ?t1) = Inr p" "u = unix_path p"
      by (auto simp: eval_symlinks_def)
    then have p: "dirs_to fs p" "fs_lookup fs p \<noteq> None" "\<And>t. fs_lookup fs p \<noteq> Some (Fs_Link t)"
      using fs_walk_real [OF u(1)] by (auto dest: split_names)
    then have pl: "list_all plain_name p" by (simp add: dirs_to_def)
    then have tp: "target = unix_path p" using t(1) Inr u(2) by (simp add: path_clean_unix)
    moreover have "prefix r p"
      using t(2) r(3) tp pl by (intro path_inside_prefix) (auto simp: dirs_to_def)
    moreover have "eval_symlinks fs target = Inr target"
      using p fs_walk_plain [of fs "[]" p False 255]
      by (simp add: tp eval_symlinks_def fs_walk_unix_path pl)
    ultimately show thesis using that [OF r(1) dir] pl by auto
  qed
qed

text \<open>A file the tools have found is a real file of the workspace.\<close>

lemma text_file_iff: "text_file fs base rel = Inr (target, raw) \<longleftrightarrow>
    resolve_workspace_path fs base rel = Inr target \<and> os_stat fs target = Inr (Fs_File raw) \<and> CHR 0x00 \<notin> set raw"
proof (cases "resolve_workspace_path fs base rel")
  case (Inr t)
  show ?thesis
  proof (cases "os_stat fs t")
    case (Inr node)
    with \<open>resolve_workspace_path fs base rel = Inr t\<close> show ?thesis by (cases node) (auto simp: text_file_def)
  qed (use Inr in \<open>auto simp: text_file_def\<close>)
qed (simp add: text_file_def)

lemma text_file_real:
  assumes "text_file fs base rel = Inr (target, raw)"
  obtains r p where "workspace_of fs base = Inr r" "prefix r p" "target = unix_path p"
    "dirs_to fs p" "fs_lookup fs p = Some (Fs_File raw)"
proof -
  have t: "resolve_workspace_path fs base rel = Inr target" "os_stat fs target = Inr (Fs_File raw)"
    using assms by (auto simp: text_file_iff)
  obtain r p where *: "workspace_of fs base = Inr r" "target = unix_path p" "list_all plain_name p" "prefix r p"
    "eval_symlinks fs target = Inr target \<or> (\<exists>e. eval_symlinks fs target = Inl e)"
    using t(1) by (rule resolve_parts)
  from eval_symlinks_stat [OF t(2)] obtain q where q: "fs_walk fs False 40 [] (split_on slash target) = Inr q"
    "eval_symlinks fs target = Inr (unix_path q)" "dirs_to fs q" by blast
  then have "unix_path q = unix_path p" using * by auto
  then have "q = p" using q(3) *(3) by (intro unix_path_inject) (auto simp: dirs_to_def)
  with that * t q show thesis by (auto simp: os_stat_walk)
qed

lemma os_write_real:
  assumes "dirs_to fs p" "fs_lookup fs p = Some (Fs_File raw)"
  shows "os_write fs (unix_path p) content = Inr (fs_put fs p (Fs_File content))"
  using assms fs_walk_plain [of fs "[]" p True 40]
  by (simp add: os_write_def fs_walk_unix_path dirs_to_def)


subsection \<open>Properties of the tools\<close>

text \<open>What one step may do to the files: give some below the workspace a new content.\<close>

definition rewrites_below :: "(fs_error + string list) \<Rightarrow> file_system \<Rightarrow> file_system \<Rightarrow> bool" where
  "rewrites_below ws fs fs' \<longleftrightarrow> fs_cwd fs' = fs_cwd fs \<and>
     (\<forall>p. fs_lookup fs' p \<noteq> fs_lookup fs p \<longrightarrow>
        (\<exists>r x y. ws = Inr r \<and> prefix r p \<and> dirs_to fs p
           \<and> fs_lookup fs p = Some (Fs_File x) \<and> fs_lookup fs' p = Some (Fs_File y)))"

lemma rewrites_below_refl [simp]: "rewrites_below ws fs fs"
  by (simp add: rewrites_below_def)

lemma rewrites_below_dirs_to:
  assumes "rewrites_below ws fs fs'"
  shows "dirs_to fs' p \<longleftrightarrow> dirs_to fs p"
proof -
  have "fs_lookup fs' q = Some Fs_Dir \<longleftrightarrow> fs_lookup fs q = Some Fs_Dir" for q
    using assms unfolding rewrites_below_def by (metis fs_node.distinct(1) option.inject)
  then show ?thesis by (simp add: dirs_to_def)
qed

lemma rewrites_below_trans:
  assumes "rewrites_below ws fs fs1" "rewrites_below ws fs1 fs2"
  shows "rewrites_below ws fs fs2"
  unfolding rewrites_below_def
proof (intro conjI allI impI)
  show "fs_cwd fs2 = fs_cwd fs" using assms by (simp add: rewrites_below_def)
  fix p assume d: "fs_lookup fs2 p \<noteq> fs_lookup fs p"
  note d1 = rewrites_below_dirs_to [OF assms(1), of p]
  show "\<exists>r x y. ws = Inr r \<and> prefix r p \<and> dirs_to fs p
      \<and> fs_lookup fs p = Some (Fs_File x) \<and> fs_lookup fs2 p = Some (Fs_File y)"
    using assms d d1 unfolding rewrites_below_def by metis
qed

lemma fs_put_cwd [simp]: "fs_cwd (fs_put fs q node) = fs_cwd fs"
  by (simp add: fs_put_def)

lemma workspace_of_put: "fs_lookup fs q = Some (Fs_File x) \<Longrightarrow>
    workspace_of (fs_put fs q (Fs_File y)) base = workspace_of fs base"
  by (simp add: workspace_of_def work_base_def path_abs_def fs_walk_put)

text \<open>Writing back a file the tools have found.\<close>

lemma write_back:
  assumes "text_file fs base rel = Inr (target, raw)"
  obtains p where "os_write fs target content = Inr (fs_put fs p (Fs_File content))"
    "rewrites_below (workspace_of fs base) fs (fs_put fs p (Fs_File content))"
    "workspace_of (fs_put fs p (Fs_File content)) base = workspace_of fs base"
    "fs_lookup fs p = Some (Fs_File raw)" "p \<noteq> []"
proof -
  from assms obtain r p where p: "workspace_of fs base = Inr r" "prefix r p" "target = unix_path p"
    "dirs_to fs p" "fs_lookup fs p = Some (Fs_File raw)" by (rule text_file_real)
  then have "p \<noteq> []" by auto
  moreover have "rewrites_below (workspace_of fs base) fs (fs_put fs p (Fs_File content))"
    using p by (auto simp: rewrites_below_def)
  ultimately show thesis
    using that p by (simp add: os_write_real workspace_of_put)
qed

lemma apply_files_confined:
  "apply_files fs base files = (fs', res) \<Longrightarrow> rewrites_below (workspace_of fs base) fs fs'"
proof (induction fs base files arbitrary: fs' res rule: apply_files.induct)
  case (2 fs base f files)
  show ?case
  proof (cases "text_file fs base (uf_path f)")
    case (Inr tr)
    obtain target raw where tr: "tr = (target, raw)" by (cases tr)
    show ?thesis
    proof (cases "apply_file_patch raw f")
      case ok: (Inr content)
      from Inr tr obtain p where p: "os_write fs target content = Inr (fs_put fs p (Fs_File content))"
        "rewrites_below (workspace_of fs base) fs (fs_put fs p (Fs_File content))"
        "workspace_of (fs_put fs p (Fs_File content)) base = workspace_of fs base"
        by (auto elim: write_back)
      with "2.prems" Inr tr ok have "apply_files (fs_put fs p (Fs_File content)) base files = (fs', res)" by simp
      from "2.IH" [OF Inr tr [symmetric] ok p(1) this] p show ?thesis
        by (auto intro: rewrites_below_trans)
    qed (use "2.prems" Inr tr in auto)
  qed (use "2.prems" in auto)
qed auto

lemma edit_confined:
  "run_edit_file fs base rel old new all = (fs', res) \<Longrightarrow> rewrites_below (workspace_of fs base) fs fs'"
proof (cases "text_file fs base rel")
  case (Inr tr)
  assume e: "run_edit_file fs base rel old new all = (fs', res)"
  obtain target raw where tr: "tr = (target, raw)" by (cases tr)
  show ?thesis
  proof (cases "replace_text rel raw old new all")
    case ok: (Inr rc)
    from Inr tr obtain p where "os_write fs target (fst rc) = Inr (fs_put fs p (Fs_File (fst rc)))"
      "rewrites_below (workspace_of fs base) fs (fs_put fs p (Fs_File (fst rc)))"
      by (auto elim: write_back)
    with e Inr tr ok show ?thesis by (cases rc) (auto simp: run_edit_file_def split: if_splits)
  qed (use e Inr tr in \<open>auto simp: run_edit_file_def split: if_splits\<close>)
qed (auto simp: run_edit_file_def split: if_splits)

text \<open>
  C12. Editing and patching stay in the workspace: whatever paths the model names and whatever
  symbolic links there are, all that changes is the content of regular files whose real path,
  free of links, lies below the real working directory. No node is created, removed or moved.
\<close>

theorem edits_confined:
  assumes "run_edit_file fs base rel old new all = (fs', res) \<or> run_apply_patch fs base patch = (fs', res)"
    and "fs_lookup fs' p \<noteq> fs_lookup fs p"
  shows "\<exists>r x y. workspace_of fs base = Inr r \<and> prefix r p \<and> dirs_to fs p
    \<and> fs_lookup fs p = Some (Fs_File x) \<and> fs_lookup fs' p = Some (Fs_File y)"
proof -
  have "rewrites_below (workspace_of fs base) fs fs'"
    using assms(1)
  proof
    assume "run_apply_patch fs base patch = (fs', res)"
    then show ?thesis
      by (auto simp: run_apply_patch_def split: if_splits sum.splits prod.splits dest: apply_files_confined)
  qed (rule edit_confined)
  with assms(2) show ?thesis by (simp add: rewrites_below_def)
qed


lemma replace_first_unique:
  assumes "count_sub s old \<noteq> 0"
  shows "\<exists>pre post. s = pre @ old @ post \<and> replace_first s old new = pre @ new @ post"
  using assms
proof (induction s)
  case Nil
  then show ?case by (simp add: count_sub.simps)
next
  case (Cons c s)
  show ?case
  proof (cases "has_prefix (c # s) old")
    case True
    then obtain t where t: "c # s = old @ t" by (auto simp: has_prefix_iff)
    then have "drop (length old) (c # s) = t" by simp
    with True have "replace_first (c # s) old new = new @ t" by (simp only: replace_first.simps if_True)
    with t show ?thesis by (intro exI [of _ "[]"] exI [of _ t]) simp
  next
    case False
    then have "count_sub s old \<noteq> 0" using Cons.prems by (subst (asm) count_sub.simps) (simp split: if_splits)
    then obtain pre post where "s = pre @ old @ post" "replace_first s old new = pre @ new @ post"
      using Cons.IH by blast
    with False show ?thesis by (intro exI [of _ "c # pre"] exI [of _ post]) simp
  qed
qed

text \<open>
  A successful edit without \<^verbatim>\<open>replace_all\<close> replaces one piece of one file: the old text
  occurs there exactly once, the new text stands in its place, and nothing else changes.
\<close>

theorem edit_replaces_only_occurrence:
  assumes "run_edit_file fs base rel old new False = (fs', Inr msg)"
  shows "\<exists>p pre post. p \<noteq> [] \<and> fs_lookup fs p = Some (Fs_File (pre @ old @ post))
    \<and> count_sub (pre @ old @ post) old = 1 \<and> fs' = fs_put fs p (Fs_File (pre @ new @ post))"
proof -
  obtain target raw where t: "text_file fs base rel = Inr (target, raw)"
    using assms by (cases "text_file fs base rel") (auto simp: run_edit_file_def split: if_splits)
  obtain replaced changed where r: "replace_text rel raw old new False = Inr (replaced, changed)"
    using assms t by (cases "replace_text rel raw old new False") (auto simp: run_edit_file_def split: if_splits)
  then have n: "count_sub raw old = 1" "replaced = replace_first raw old new"
    by (auto simp: replace_text_def Let_def split: if_splits)
  then obtain pre post where s: "raw = pre @ old @ post" "replaced = pre @ new @ post"
    using replace_first_unique [of raw old new] by auto
  from write_back [OF t, of replaced] obtain p where
    p: "os_write fs target replaced = Inr (fs_put fs p (Fs_File replaced))" "fs_lookup fs p = Some (Fs_File raw)" "p \<noteq> []"
    by blast
  with assms t r have "fs' = fs_put fs p (Fs_File replaced)"
    by (simp add: run_edit_file_def split: if_splits)
  with p n s show ?thesis
    by (intro exI [of _ p] exI [of _ pre] exI [of _ post]) simp
qed

text \<open>
  A patch for several files is applied file by file: whatever happens, the file system is
  left as if the patch had consisted of its first \<open>k\<close> files, and \<open>k\<close> is all of them exactly if
  the application reports success. A patch that fails is therefore half applied.
\<close>

theorem patch_applied_prefix:
  "\<exists>k \<le> length files. apply_files fs base (take k files) = (fst (apply_files fs base files), Inr ())
    \<and> (k = length files \<longleftrightarrow> snd (apply_files fs base files) = Inr ())"
proof (induction fs base files rule: apply_files.induct)
  case (2 fs base f files)
  let ?P = "\<lambda>fs files k. apply_files fs base (take k files) = (fst (apply_files fs base files), Inr ())
    \<and> (k = length files \<longleftrightarrow> snd (apply_files fs base files) = Inr ())"
  show ?case
  proof (cases "\<exists>target raw content fs1. text_file fs base (uf_path f) = Inr (target, raw)
      \<and> apply_file_patch raw f = Inr content \<and> os_write fs target content = Inr fs1")
    case True
    then obtain target raw content fs1 where *: "text_file fs base (uf_path f) = Inr (target, raw)"
      "apply_file_patch raw f = Inr content" "os_write fs target content = Inr fs1" by blast
    from "2.IH" [OF *(1) refl *(2,3)] obtain k where "k \<le> length files" "?P fs1 files k" by blast
    with * have "Suc k \<le> length (f # files)" "?P fs (f # files) (Suc k)" by auto
    then show ?thesis by blast
  next
    case False
    then have "\<exists>e. apply_files fs base (f # files) = (fs, Inl e)"
      by (cases "text_file fs base (uf_path f)"; cases "apply_file_patch (snd (projr (text_file fs base (uf_path f)))) f";
          cases "os_write fs (fst (projr (text_file fs base (uf_path f))))
            (projr (apply_file_patch (snd (projr (text_file fs base (uf_path f)))) f))") auto
    then show ?thesis by (intro exI [of _ 0]) auto
  qed
qed simp


subsection \<open>Writing new files\<close>

lemma fs_walk_append:
  "real_dir fs (loc @ xs) \<Longrightarrow> fs_walk fs create links loc (xs @ ys) = fs_walk fs create links (loc @ xs) ys"
proof (induction xs arbitrary: loc)
  case (Cons c xs)
  then have d: "real_dir fs (loc @ [c])"
    by (cases xs) (use dirs_to_prefix [of fs "loc @ [c]"] in auto)
  then have "proper_name c" by (auto simp: dirs_to_snoc plain_name_def proper_name_def)
  with Cons d show ?case by (simp add: fs_walk_step)
qed simp

lemma fs_walk_dir: "real_dir fs r \<Longrightarrow> fs_walk fs create links [] (r @ ys) = fs_walk fs create links r ys"
  using fs_walk_append [of fs "[]" r] by simp

lemma os_stat_unix: "list_all plain_name p \<Longrightarrow> os_stat fs (unix_path p) =
    bind_result (fs_walk fs False 40 [] p) (\<lambda>q. of_option Not_Exist (fs_lookup fs q))"
  by (simp add: os_stat_def fs_walk_unix_path)

lemma os_stat_dir: "real_dir fs p \<Longrightarrow> os_stat fs (unix_path p) = Inr Fs_Dir"
  using fs_walk_dir [of fs p False 40 "[]"] by (simp add: os_stat_unix dirs_to_def)

text \<open>Below a directory without links a walk goes where its names say.\<close>

definition no_links_below :: "file_system \<Rightarrow> string list \<Rightarrow> bool" where
  "no_links_below fs r \<longleftrightarrow> (\<forall>p t. prefix r p \<longrightarrow> fs_lookup fs p \<noteq> Some (Fs_Link t))"

lemma fs_walk_below:
  "no_links_below fs r \<Longrightarrow> prefix r loc \<Longrightarrow> list_all plain_name cs \<Longrightarrow>
    fs_walk fs create links loc cs = Inr p \<Longrightarrow> p = loc @ cs"
proof (induction cs arbitrary: loc)
  case (Cons c cs)
  have n: "proper_name c" using Cons.prems(3) by (simp add: plain_name_def proper_name_def)
  have "fs_lookup fs (loc @ [c]) \<noteq> Some (Fs_Link t)" for t
    using Cons.prems(1,2) by (simp add: no_links_below_def)
  then consider "fs_lookup fs (loc @ [c]) = None" | "fs_lookup fs (loc @ [c]) = Some Fs_Dir"
    | t where "fs_lookup fs (loc @ [c]) = Some (Fs_File t)"
    by (metis fs_node.exhaust option.exhaust)
  then show ?case
    by cases (use Cons.prems n Cons.IH [of "loc @ [c]"] in \<open>auto simp: fs_walk_step split: if_splits\<close>)
qed simp

definition makes_dirs_below :: "string list \<Rightarrow> file_system \<Rightarrow> file_system \<Rightarrow> bool" where
  "makes_dirs_below r fs fs' \<longleftrightarrow> (\<forall>p. fs_lookup fs' p \<noteq> fs_lookup fs p \<longrightarrow>
     prefix r p \<and> fs_lookup fs p = None \<and> fs_lookup fs' p = Some Fs_Dir)"

lemma makes_dirs_keeps:
  assumes "makes_dirs_below r fs fs'"
  shows "real_dir fs p \<Longrightarrow> real_dir fs' p" and "no_links_below fs r \<Longrightarrow> no_links_below fs' r"
proof -
  have "fs_lookup fs q = Some Fs_Dir \<Longrightarrow> fs_lookup fs' q = Some Fs_Dir" for q
    using assms unfolding makes_dirs_below_def by (metis option.distinct(1))
  then show "real_dir fs p \<Longrightarrow> real_dir fs' p" by (auto simp: dirs_to_def)
  show "no_links_below fs r \<Longrightarrow> no_links_below fs' r"
    using assms unfolding makes_dirs_below_def no_links_below_def by (metis fs_node.distinct(3) option.inject)
qed

lemma mkdir_all_below:
  "os_mkdir_all fs names = Inr fs' \<Longrightarrow> real_dir fs r \<Longrightarrow> no_links_below fs r \<Longrightarrow>
    prefix r names \<Longrightarrow> list_all plain_name names \<Longrightarrow> makes_dirs_below r fs fs'"
proof (induction fs names arbitrary: fs' rule: os_mkdir_all.induct)
  case (1 fs names)
  show ?case
  proof (cases "names = r \<or> (\<exists>node. os_stat fs (unix_path names) = Inr node)")
    case True
    moreover have "os_stat fs (unix_path r) = Inr Fs_Dir" by (rule os_stat_dir [OF "1.prems"(2)])
    ultimately have "fs' = fs"
      using "1.prems"(1) by (subst (asm) os_mkdir_all.simps) (auto split: fs_node.splits)
    then show ?thesis by (simp add: makes_dirs_below_def)
  next
    case False
    then obtain e where e: "os_stat fs (unix_path names) = Inl e" by (cases "os_stat fs (unix_path names)") auto
    from False "1.prems"(4) obtain ps c where n: "names = ps @ [c]" "prefix r ps"
      by (cases names rule: rev_cases) auto
    let ?up = "if length names = 1 then Inr fs else os_mkdir_all fs (butlast names)"
    obtain fs1 where up: "?up = Inr fs1" and mk: "os_mkdir fs1 names = Inr fs'"
      using "1.prems"(1) e n(1) by (subst (asm) os_mkdir_all.simps) auto
    have fs1: "makes_dirs_below r fs fs1"
    proof (cases "length names = 1")
      case True
      with up show ?thesis by (simp add: makes_dirs_below_def)
    next
      case False
      with up n have "os_mkdir_all fs ps = Inr fs1" by simp
      then show ?thesis using "1.IH" [OF e _ False] n "1.prems" by simp
    qed
    note r1 = makes_dirs_keeps(1) [OF fs1 "1.prems"(2)] and l1 = makes_dirs_keeps(2) [OF fs1 "1.prems"(3)]
    from mk n(1) obtain q where q: "fs_walk fs1 False 40 [] ps = Inr q"
      "fs' = fs1 \<or> fs_lookup fs1 (q @ [c]) = None \<and> fs' = fs_put fs1 (q @ [c]) Fs_Dir"
      by (cases "fs_walk fs1 False 40 [] ps") (auto simp: os_mkdir_def split: option.split_asm fs_node.split_asm)
    obtain ys where ys: "ps = r @ ys" using n(2) by (rule prefixE)
    have "list_all plain_name ys" using "1.prems"(5) n(1) ys by simp
    then have "q = ps" using q(1) fs_walk_below [OF l1] r1 by (simp add: ys fs_walk_dir)
    show ?thesis
      unfolding makes_dirs_below_def
    proof (intro allI impI)
      fix p assume d: "fs_lookup fs' p \<noteq> fs_lookup fs p"
      show "prefix r p \<and> fs_lookup fs p = None \<and> fs_lookup fs' p = Some Fs_Dir"
      proof (cases "fs' = fs1")
        case True
        with d fs1 show ?thesis by (simp add: makes_dirs_below_def)
      next
        case False
        then have p: "fs_lookup fs1 (ps @ [c]) = None" "fs' = fs_put fs1 (ps @ [c]) Fs_Dir"
          using q(2) \<open>q = ps\<close> by auto
        show ?thesis
        proof (cases "p = ps @ [c]")
          case True
          then have "fs_lookup fs p = None" using p(1) fs1 unfolding makes_dirs_below_def by (metis option.distinct(1))
          with True p n show ?thesis by (simp add: prefix_prefix)
        next
          case False
          with d p fs1 show ?thesis by (simp add: makes_dirs_below_def)
        qed
      qed
    qed
  qed
qed

text \<open>
  In a workspace without symbolic links \<^verbatim>\<open>workspace.write_file\<close> touches nothing outside:
  every node it creates or changes lies below the real working directory, and nothing is removed.
\<close>

theorem write_confined_without_links:
  assumes "run_write_file fs base rel content = (fs', res)"
    and "workspace_of fs base = Inr r" "no_links_below fs r"
    and "fs_lookup fs' p \<noteq> fs_lookup fs p"
  shows "prefix r p \<and> fs_lookup fs' p \<in> {Some Fs_Dir, Some (Fs_File content)}"
proof (cases "resolve_workspace_path fs base rel")
  case (Inl e)
  with assms(1,4) show ?thesis by (simp add: run_write_file_def)
next
  case (Inr target)
  from resolve_parts [OF this] obtain q where q: "target = unix_path q" "list_all plain_name q"
    "prefix r q" "real_dir fs r"
    using assms(2) by (metis sum.inject(2))
  have names: "path_dir target = butlast q" by (simp add: path_dir_def q(1) clean_parts_unix [OF q(2)])
  show ?thesis
  proof (cases "os_mkdir_all fs (butlast q)")
    case (Inl e)
    with assms(1,4) Inr names show ?thesis by (simp add: run_write_file_def)
  next
    case mk: (Inr fs1)
    have fs1: "makes_dirs_below r fs fs1"
    proof (cases "q = r")
      case True
      then have "os_stat fs (unix_path (butlast q)) = Inr Fs_Dir"
        using q(4) by (intro os_stat_dir) (simp add: dirs_to_butlast)
      with mk show ?thesis by (subst (asm) os_mkdir_all.simps) (simp add: makes_dirs_below_def)
    next
      case False
      then obtain ps c where "q = ps @ [c]" "prefix r ps" using q(3) by (cases q rule: rev_cases) auto
      with mk q assms(3) show ?thesis by (intro mkdir_all_below) auto
    qed
    note r1 = makes_dirs_keeps(1) [OF fs1 q(4)] and l1 = makes_dirs_keeps(2) [OF fs1 assms(3)]
    show ?thesis
    proof (cases "os_write fs1 target content")
      case (Inl e)
      with assms(1,4) Inr names mk fs1 show ?thesis by (auto simp: run_write_file_def makes_dirs_below_def)
    next
      case wr: (Inr fs2)
      then obtain w where w: "fs_walk fs1 True 40 [] q = Inr w" "fs2 = fs_put fs1 w (Fs_File content)"
        by (auto simp: os_write_def q(1) fs_walk_unix_path q(2) split: if_splits)
      obtain ys where ys: "q = r @ ys" using q(3) by (rule prefixE)
      then have "w = q" using w(1) fs_walk_below [OF l1, of r ys] r1 q(2) by (simp add: fs_walk_dir)
      moreover have "fs' = fs2" using assms(1) Inr names mk wr by (simp add: run_write_file_def)
      ultimately show ?thesis using assms(4) w(2) fs1 q(3)
        by (auto simp: makes_dirs_below_def split: if_splits)
    qed
  qed
qed

text \<open>Resolution of a relative path without dots, below a real working directory.\<close>

lemma resolve_relative:
  assumes "real_dir fs r" "r \<noteq> []" "list_all plain_name q" "q \<noteq> []" "trim_space (join_with ''/'' q) \<noteq> []"
  shows "resolve_workspace_path fs (unix_path r) (join_with ''/'' q) =
    (let target = (case eval_symlinks fs (unix_path (r @ q)) of
         Inl _ \<Rightarrow> unix_path (r @ q) | Inr t \<Rightarrow> path_clean t)
     in if is_path_inside (unix_path r) target then Inr target else Inl Path_Escapes)"
proof -
  let ?base = "unix_path r" and ?rel = "join_with ''/'' q"
  have pl: "list_all plain_name r" "list_all plain_name (r @ q)" using assms by (auto simp: dirs_to_def)
  have "split_on slash ?rel = q"
    using assms(3,4) by (intro split_join) (auto simp: list_all_iff plain_name_def)
  then have split: "split_on slash (?base @ slash # ?rel) = [] # r @ q"
    using assms(2) by (simp add: split_on_snoc split_unix_path pl)
  have "?rel \<noteq> []" using assms(5) by (auto simp: trim_space_def)
  moreover have "hd ?rel \<noteq> slash"
    using assms(3,4) by (cases q; cases "tl q") (auto simp: plain_name_def neq_Nil_conv)
  ultimately have rel: "\<not> is_abs ?rel" by (cases ?rel) (auto simp: is_abs_def has_prefix_def)
  have abs: "path_abs fs (unix_path p) = unix_path p" if "list_all plain_name p" for p
    using path_clean_unix [OF that] by (simp add: path_abs_def is_abs_def unix_path_def has_prefix_def)
  have eval: "eval_symlinks fs ?base = Inr ?base"
    using fs_walk_dir [OF assms(1), of False 255 "[]"] by (simp add: eval_symlinks_def fs_walk_unix_path pl)
  have "path_clean (?base @ slash # ?rel) = unix_path (r @ q)"
    by (simp add: path_clean_def split clean_parts_plain [OF pl(2)])
  moreover have "?base \<noteq> []" by (simp add: unix_path_def)
  ultimately show ?thesis
    using assms(5) rel os_stat_dir [OF assms(1)]
    by (cases "eval_symlinks fs (unix_path (r @ q))")
       (simp_all add: resolve_workspace_path_def abs [OF pl(1)] abs [OF pl(2)] eval path_clean_unix [OF pl(2)] Let_def)
qed

text \<open>
  C13. A symbolic link leads a write out of the workspace: when a directory of the workspace is a
  link to a directory elsewhere, writing a new file "below" it creates the file elsewhere. The
  path is checked as text, because \<^verbatim>\<open>filepath.EvalSymlinks\<close> fails for a file that does not exist.
\<close>

theorem write_escapes_through_link:
  assumes "real_dir fs r" "r \<noteq> []" "real_dir fs out" "plain_name d" "plain_name f"
    and "fs_lookup fs (r @ [d]) = Some (Fs_Link (unix_path out))" "fs_lookup fs (out @ [f]) = None"
    and "trim_space (d @ ''/'' @ f) \<noteq> []"
  shows "fst (run_write_file fs (unix_path r) (d @ ''/'' @ f) content) = fs_put fs (out @ [f]) (Fs_File content)"
proof -
  let ?q = "r @ [d, f]"
  have pl: "list_all plain_name out" "list_all plain_name ?q" using assms by (auto simp: dirs_to_def)
  have n: "proper_name d" "proper_name f" using assms(4,5) by (auto simp: plain_name_def proper_name_def)
  have top: "has_prefix (unix_path out) ''/''" by (simp add: unix_path_def has_prefix_def)
  have walk: "fs_walk fs create (Suc k) [] (r @ d # cs) = fs_walk fs create k out cs" for create k cs
    using assms(3) by (simp add: fs_walk_dir [OF assms(1)] fs_walk_step(6) [OF n(1) assms(6)]
        split_unix_path pl(1) top fs_walk_dir)
  have "eval_symlinks fs (unix_path ?q) = Inl Not_Exist"
    using walk [of False 254 "[f]"]
    by (simp add: eval_symlinks_def fs_walk_unix_path [OF pl(2)] fs_walk_step(3) [OF n(2) assms(7)])
  then have target: "resolve_workspace_path fs (unix_path r) (d @ slash # f) = Inr (unix_path ?q)"
    using resolve_relative [OF assms(1,2), of "[d, f]"] path_inside_unix [OF pl(2) assms(2)] assms(4,5,8) by simp
  have "os_stat fs (unix_path (r @ [d])) = Inr Fs_Dir"
    using walk [of False 39 "[]"] assms(3) pl(2) by (simp add: os_stat_unix)
  then have "os_mkdir_all fs (path_dir (unix_path ?q)) = Inr fs"
    by (simp add: path_dir_def clean_parts_unix [OF pl(2)] butlast_append os_mkdir_all.simps)
  moreover have "os_write fs (unix_path ?q) content = Inr (fs_put fs (out @ [f]) (Fs_File content))"
    using walk [of True 39 "[f]"] assms(7)
    by (simp add: os_write_def fs_walk_unix_path [OF pl(2)] fs_walk_step(3) [OF n(2) assms(7)])
  ultimately show ?thesis by (simp add: run_write_file_def target)
qed


definition sample_fs :: file_system where
  "sample_fs = \<lparr>fs_nodes = [([''w''], Fs_Dir), ([''w'', ''a''], Fs_File ''x=1''), ([''w'', ''d''], Fs_Link ''/etc''),
     ([''etc''], Fs_Dir)], fs_cwd = ''/''\<rparr>"

definition plain_fs :: file_system where
  "plain_fs = \<lparr>fs_nodes = [([''w''], Fs_Dir), ([''w'', ''a''], Fs_File ''x=1'')], fs_cwd = ''/''\<rparr>"

theorem edits_confined_witness:
  "\<exists>fs' res. run_edit_file sample_fs ''/w'' ''a'' ''1'' ''2'' False = (fs', res)
    \<and> fs_lookup fs' [''w'', ''a''] = Some (Fs_File ''x=2'')
    \<and> (\<exists>r. workspace_of sample_fs ''/w'' = Inr r \<and> prefix r [''w'', ''a''])"
proof -
  have e: "run_edit_file sample_fs ''/w'' ''a'' ''1'' ''2'' False
      = (fs_put sample_fs [''w'', ''a''] (Fs_File ''x=2''), Inr ''edited a: replaced 1 occurrence(s)'')"
    by code_simp
  have "fs_lookup (fs_put sample_fs [''w'', ''a''] (Fs_File ''x=2'')) [''w'', ''a''] \<noteq> fs_lookup sample_fs [''w'', ''a'']"
    by code_simp
  from edits_confined [OF disjI1 [OF e] this] e show ?thesis by auto
qed

theorem edit_replaces_only_occurrence_witness:
  "\<exists>p pre post. fs_lookup sample_fs p = Some (Fs_File (pre @ ''1'' @ post))
     \<and> fst (run_edit_file sample_fs ''/w'' ''a'' ''1'' ''2'' False) = fs_put sample_fs p (Fs_File (pre @ ''2'' @ post))"
proof -
  have e: "run_edit_file sample_fs ''/w'' ''a'' ''1'' ''2'' False
      = (fst (run_edit_file sample_fs ''/w'' ''a'' ''1'' ''2'' False), Inr ''edited a: replaced 1 occurrence(s)'')"
    by code_simp
  from edit_replaces_only_occurrence [OF e] show ?thesis by blast
qed

theorem write_confined_without_links_witness:
  "fs_lookup (fst (run_write_file plain_fs ''/w'' ''n/b'' ''y'')) [''w'', ''n'', ''b''] = Some (Fs_File ''y'')
     \<and> prefix [''w''] [''w'', ''n'', ''b'']"
proof -
  have e: "run_write_file plain_fs ''/w'' ''n/b'' ''y''
      = (fst (run_write_file plain_fs ''/w'' ''n/b'' ''y''), snd (run_write_file plain_fs ''/w'' ''n/b'' ''y''))" by simp
  have w: "workspace_of plain_fs ''/w'' = Inr [''w'']" by code_simp
  have l: "no_links_below plain_fs [''w'']"
    by (auto simp: no_links_below_def fs_lookup_def plain_fs_def split: if_splits)
  have v: "fs_lookup (fst (run_write_file plain_fs ''/w'' ''n/b'' ''y'')) [''w'', ''n'', ''b''] = Some (Fs_File ''y'')"
    "fs_lookup plain_fs [''w'', ''n'', ''b''] = None"
    by code_simp+
  then show ?thesis using write_confined_without_links [OF e w l, of "[''w'', ''n'', ''b'']"] by simp
qed

theorem write_escapes_through_link_witness:
  "fs_lookup (fst (run_write_file sample_fs (unix_path [''w'']) ''d/passwd'' ''evil'')) [''etc'', ''passwd'']
     = Some (Fs_File ''evil'')"
proof -
  have "fs_lookup sample_fs [''w''] = Some Fs_Dir" "fs_lookup sample_fs [''etc''] = Some Fs_Dir"
    "fs_lookup sample_fs ([''w''] @ [''d'']) = Some (Fs_Link (unix_path [''etc'']))"
    "fs_lookup sample_fs ([''etc''] @ [''passwd'']) = None"
    by (simp_all add: fs_lookup_def sample_fs_def unix_path_def)
  moreover have "dirs_to sample_fs [''w'']" "dirs_to sample_fs [''etc'']" "plain_name ''d''" "plain_name ''passwd''"
    by (simp_all add: dirs_to_def plain_name_def)
  moreover have "trim_space (''d'' @ ''/'' @ ''passwd'') \<noteq> []" by code_simp
  ultimately have "fst (run_write_file sample_fs (unix_path [''w'']) (''d'' @ ''/'' @ ''passwd'') ''evil'')
      = fs_put sample_fs ([''etc''] @ [''passwd'']) (Fs_File ''evil'')"
    by (intro write_escapes_through_link) auto
  then show ?thesis by simp
qed

end
