(* ===== verification/Workspace_Tree.thy ===== *)
theory Workspace_Tree
  imports Workspace_Files Workers
begin

text \<open>
  The workspace tools that walk a directory tree (\<^verbatim>\<open>workspace.list\<close>, \<^verbatim>\<open>workspace.stats\<close>,
  \<^verbatim>\<open>workspace.grep\<close> in \<^verbatim>\<open>runtime/tools.go\<close>) over the file system of \<open>Workspace_Files\<close>.

  \<open>tree_walk\<close> is \<^verbatim>\<open>filepath.WalkDir\<close>: the callback gets the path, the node of its directory
  entry (links are not followed) and the state its closure captures, and answers whether to go
  on, to skip the directory or to stop. The JSON text \<^verbatim>\<open>runWorkspaceStats\<close> prints is left out.
  The regular expressions of Go are a parameter: \<open>compile\<close> gives a pattern its matcher, or none.
\<close>

subsection \<open>Walking a tree\<close>

datatype walk_action = Walk_On | Skip_Dir | Skip_All

text \<open>The entries of a directory, as \<^verbatim>\<open>os.ReadDir\<close> sorts them.\<close>

definition dir_names :: "file_system \<Rightarrow> string list \<Rightarrow> string list" where
  "dir_names fs p =
     sort (remdups (map last (filter (\<lambda>q. q \<noteq> [] \<and> butlast q = p) (map fst (fs_nodes fs)))))"

definition fs_height :: "file_system \<Rightarrow> nat" where
  "fs_height fs = Max (insert 0 (set (map (length \<circ> fst) (fs_nodes fs))))"

lemma fs_height_ge: "fs_lookup fs p = Some node \<Longrightarrow> length p \<le> fs_height fs"
proof (cases "p = []")
  case False
  assume "fs_lookup fs p = Some node"
  with False have "p \<in> fst ` set (fs_nodes fs)"
    by (auto simp: fs_lookup_def dest!: map_of_SomeD intro: rev_image_eqI)
  then show ?thesis unfolding fs_height_def by (intro Max_ge) auto
qed simp

function (sequential) tree_walk :: "file_system \<Rightarrow> (string list \<Rightarrow> fs_node \<Rightarrow> 's \<Rightarrow> 's \<times> walk_action)
      \<Rightarrow> string list \<Rightarrow> fs_node \<Rightarrow> 's \<Rightarrow> 's \<times> bool"
  and tree_walks :: "file_system \<Rightarrow> (string list \<Rightarrow> fs_node \<Rightarrow> 's \<Rightarrow> 's \<times> walk_action)
      \<Rightarrow> string list \<Rightarrow> string list \<Rightarrow> 's \<Rightarrow> 's \<times> bool" where
  "tree_walk fs visit p node s =
     (case visit p node s of
        (s, Skip_All) \<Rightarrow> (s, True)
      | (s, Skip_Dir) \<Rightarrow> (s, False)
      | (s, Walk_On) \<Rightarrow> if node = Fs_Dir then tree_walks fs visit p (dir_names fs p) s else (s, False))"
| "tree_walks fs visit p [] s = (s, False)"
| "tree_walks fs visit p (c # cs) s =
     (case fs_lookup fs (p @ [c]) of
        None \<Rightarrow> tree_walks fs visit p cs s
      | Some node \<Rightarrow>
          (case tree_walk fs visit (p @ [c]) node s of
             (s, True) \<Rightarrow> (s, True)
           | (s, False) \<Rightarrow> tree_walks fs visit p cs s))"
  by pat_completeness auto
termination
  by (relation "inv_image (less_than <*lex*> less_than <*lex*> less_than)
        (\<lambda>x. case x of
           Inl (fs, visit, p, node, s) \<Rightarrow> (fs_height fs + 1 - length p, 1, 0)
         | Inr (fs, visit, p, cs, s) \<Rightarrow> (fs_height fs + 1 - length p, 0, length cs))")
     (auto dest!: fs_height_ge)

declare tree_walk.simps [simp del] tree_walks.simps(2) [simp del]

text \<open>\<^verbatim>\<open>filepath.Rel\<close> of clean absolute paths given by their names.\<close>

fun rel_names :: "string list \<Rightarrow> string list \<Rightarrow> string list" where
  "rel_names [] p = p"
| "rel_names r [] = map (\<lambda>_. ''..'') r"
| "rel_names (a # r) (b # p) =
     (if a = b then rel_names r p else map (\<lambda>_. ''..'') (a # r) @ b # p)"

definition path_names :: "string \<Rightarrow> string list" where
  "path_names p = clean_parts [] (split_on slash p)"

definition workspace_relative_display :: "string list \<Rightarrow> string list \<Rightarrow> string" where
  "workspace_relative_display r p =
     (let rel = rel_names r p in if rel = [] then ''.'' else join_with ''/'' rel)"

definition entry_depth :: "string list \<Rightarrow> int" where
  "entry_depth rel = int (length rel)"

definition should_skip_search_dir :: "string \<Rightarrow> bool" where
  "should_skip_search_dir name \<longleftrightarrow> name \<in>
     {''.git'', ''node_modules'', ''dist'', ''build'', ''bin'', ''.wails'', ''.vite''}"

definition clamp_int :: "int \<Rightarrow> int \<Rightarrow> int \<Rightarrow> int" where
  "clamp_int value lo hi = (if value < lo then lo else if value > hi then hi else value)"

definition default_path :: "string \<Rightarrow> string" where
  "default_path rel = (if trim_space rel = [] then ''.'' else rel)"

subsection \<open>List\<close>

definition max_list_entries :: nat where "max_list_entries = 500"

definition visit_list :: "string list \<Rightarrow> string list \<Rightarrow> int \<Rightarrow> string list \<Rightarrow> fs_node
    \<Rightarrow> string list \<times> bool \<Rightarrow> (string list \<times> bool) \<times> walk_action" where
  "visit_list r target depth p node s =
     (case s of (entries, truncated) \<Rightarrow>
        let rel = rel_names target p
        in if entry_depth rel > depth then (s, if node = Fs_Dir then Skip_Dir else Walk_On)
           else if rel \<noteq> [] \<and> node = Fs_Dir \<and> should_skip_search_dir (last p) then (s, Skip_Dir)
           else let display = workspace_relative_display r p;
                    display = (if node = Fs_Dir then display @ ''/'' else display);
                    entries = entries @ [display]
                in if length entries \<ge> max_list_entries then ((entries, True), Skip_All)
                   else ((entries, truncated), Walk_On))"

definition list_output :: "string list \<Rightarrow> bool \<Rightarrow> string" where
  "list_output entries truncated =
     (if entries = [] then ''empty''
      else truncate_tool_output (join_with [nl] (sort entries)
        @ (if truncated then nl # ''[truncated]'' else [])))"

definition run_list_workspace :: "file_system \<Rightarrow> string \<Rightarrow> string \<Rightarrow> int \<Rightarrow> ws_error + string" where
  "run_list_workspace fs base rel max_depth =
     (let rel = default_path rel; depth = clamp_int max_depth 0 8
      in bind_result (resolve_workspace_path fs base rel)
        (\<lambda>target. case os_stat fs target of
            Inl e \<Rightarrow> Inl (Os_Error e)
          | Inr node \<Rightarrow>
              let r = path_names (clean_workspace_root fs base); t = path_names target
              in if node \<noteq> Fs_Dir then Inr (workspace_relative_display r t)
                 else case fst (tree_walk fs (visit_list r t depth) t node ([], False)) of
                     (entries, truncated) \<Rightarrow> Inr (list_output entries truncated)))"

subsection \<open>Stats\<close>

record workspace_dir_stat =
  wd_path :: string
  wd_files :: int
  wd_dirs :: int
  wd_recommended_max_turns :: int
  wd_skipped :: bool

record workspace_stats =
  wt_root :: string
  wt_path :: string
  wt_max_depth :: int
  wt_total_files :: int
  wt_total_dirs :: int
  wt_truncated :: bool
  wt_suggested_splits :: int
  wt_split_guidance :: string
  wt_summary_turns :: int
  wt_suggested_max_turns :: int
  wt_turns_formula :: string
  wt_top_level :: "workspace_dir_stat list"

text \<open>What the closure of the walk collects; \<^verbatim>\<open>topLevel\<close> is a map from names.\<close>

record stats_count =
  sc_files :: int
  sc_dirs :: int
  sc_truncated :: bool
  sc_top :: "(string \<times> workspace_dir_stat) list"

definition max_walk_files :: int where "max_walk_files = 20000"

definition dir_stat :: "string \<Rightarrow> bool \<Rightarrow> workspace_dir_stat" where
  "dir_stat path skipped =
     \<lparr>wd_path = path, wd_files = 0, wd_dirs = 0, wd_recommended_max_turns = 0, wd_skipped = skipped\<rparr>"

definition visit_stats :: "string list \<Rightarrow> int \<Rightarrow> string list \<Rightarrow> fs_node \<Rightarrow> stats_count
    \<Rightarrow> stats_count \<times> walk_action" where
  "visit_stats target depth p node s =
     (let rel = rel_names target p
      in if rel = [] then (s, Walk_On)
         else if entry_depth rel > depth then (s, if node = Fs_Dir then Skip_Dir else Walk_On)
         else if node = Fs_Dir \<and> should_skip_search_dir (last p) then
           (if entry_depth rel = 1 \<and> map_of (sc_top s) (last p) = None
            then s\<lparr>sc_top := AList.update (last p) (dir_stat (last p @ ''/'') True) (sc_top s)\<rparr>
            else s, Skip_Dir)
         else
           let tops = hd rel;
               st = (case map_of (sc_top s) tops of
                   Some st \<Rightarrow> st
                 | None \<Rightarrow> dir_stat (if node = Fs_Dir \<and> entry_depth rel = 1 then tops @ ''/'' else tops) False)
           in if node = Fs_Dir then
                (s\<lparr>sc_dirs := sc_dirs s + 1,
                   sc_top := AList.update tops
                     (if entry_depth rel = 1 then st\<lparr>wd_dirs := wd_dirs st + 1\<rparr> else st) (sc_top s)\<rparr>, Walk_On)
              else
                let s = s\<lparr>sc_files := sc_files s + 1,
                          sc_top := AList.update tops (st\<lparr>wd_files := wd_files st + 1\<rparr>) (sc_top s)\<rparr>
                in if sc_files s \<ge> max_walk_files then (s\<lparr>sc_truncated := True\<rparr>, Skip_All)
                   else (s, Walk_On))"

definition count_non_empty_top_dirs :: "workspace_dir_stat list \<Rightarrow> int" where
  "count_non_empty_top_dirs items =
     (let n = int (length (filter (\<lambda>i. wd_files i > 0 \<or> wd_dirs i > 0) items)) in if n = 0 then 1 else n)"

definition stats_result :: "string \<Rightarrow> string \<Rightarrow> int \<Rightarrow> workspace_stats" where
  "stats_result base path depth =
     \<lparr>wt_root = base, wt_path = path, wt_max_depth = depth, wt_total_files = 0, wt_total_dirs = 0,
      wt_truncated = False, wt_suggested_splits = 0, wt_split_guidance = [],
      wt_summary_turns = subagent_summary_turns, wt_suggested_max_turns = 0,
      wt_turns_formula = ''max_turns = file_count + '' @ int_dec subagent_summary_turns @ '' (analysis summary)'',
      wt_top_level = []\<rparr>"

definition top_level_of :: "stats_count \<Rightarrow> workspace_dir_stat list" where
  "top_level_of s = map (\<lambda>key. let st = the (map_of (sc_top s) key)
     in st\<lparr>wd_recommended_max_turns := recommended_subagent_turns (wd_files st)\<rparr>)
     (sort (map fst (sc_top s)))"

definition split_plan :: "int \<Rightarrow> workspace_dir_stat list \<Rightarrow> int \<times> string" where
  "split_plan files tops =
     (if files \<le> 40 then (1, ''small_tree_use_root_or_one_subagent'')
      else if files \<le> 150 then (min 3 (max 2 (int (length tops))),
        ''medium_tree_split_by_top_level_dirs_use_each_recommended_max_turns'')
      else (min 6 (max 3 (count_non_empty_top_dirs tops)),
        ''large_tree_spawn_multiple_subagents_in_parallel_with_file_count_budgets''))"

definition compute_workspace_stats :: "file_system \<Rightarrow> string \<Rightarrow> string \<Rightarrow> int \<Rightarrow> ws_error + workspace_stats" where
  "compute_workspace_stats fs base rel max_depth =
     (let rel = default_path rel; depth = clamp_int max_depth 1 8
      in bind_result (resolve_workspace_path fs base rel)
        (\<lambda>target. case os_stat fs target of
            Inl e \<Rightarrow> Inl (Os_Error e)
          | Inr node \<Rightarrow>
              let root_text = clean_workspace_root fs base;
                  t = path_names target;
                  result = stats_result root_text (workspace_relative_display (path_names root_text) t) depth
              in if node \<noteq> Fs_Dir then
                   Inr (result\<lparr>wt_total_files := 1, wt_suggested_splits := 1,
                     wt_split_guidance := ''single_file'',
                     wt_suggested_max_turns := recommended_subagent_turns 1\<rparr>)
                 else
                   let s = fst (tree_walk fs (visit_stats t depth) t node
                         \<lparr>sc_files = 0, sc_dirs = 0, sc_truncated = False, sc_top = []\<rparr>);
                       tops = top_level_of s;
                       plan = split_plan (sc_files s) tops
                   in Inr (result\<lparr>wt_total_files := sc_files s, wt_total_dirs := sc_dirs s,
                        wt_truncated := sc_truncated s, wt_top_level := tops,
                        wt_suggested_max_turns := recommended_subagent_turns (sc_files s),
                        wt_suggested_splits := fst plan, wt_split_guidance := snd plan\<rparr>)))"

subsection \<open>Grep\<close>

definition max_grep_file_bytes :: int where "max_grep_file_bytes = 2 * 1024 * 1024"

text \<open>The limit of a token of \<^verbatim>\<open>bufio.Scanner\<close>, and its lines without their line ends.\<close>

definition max_line_bytes :: int where "max_line_bytes = 1024 * 1024"

definition drop_cr :: "string \<Rightarrow> string" where
  "drop_cr l = (if l \<noteq> [] \<and> last l = cr then butlast l else l)"

definition scan_lines :: "string \<Rightarrow> string list" where
  "scan_lines content =
     (let ls = split_on nl content in if last ls = [] then butlast ls else ls)"

fun grep_lines :: "(string \<Rightarrow> bool) \<Rightarrow> string \<Rightarrow> int \<Rightarrow> nat \<Rightarrow> string list \<Rightarrow> string list \<Rightarrow> string list option" where
  "grep_lines matches display limit n found [] = Some found"
| "grep_lines matches display limit n found (l # ls) =
     (if int (length l) \<ge> max_line_bytes then None
      else let line = drop_cr l in
        if matches line then
          (let found = found @ [display @ '':'' @ nat_digits (n + 1) @ '': '' @ trim_space line]
           in if int (length found) \<ge> limit then Some found
              else grep_lines matches display limit (n + 1) found ls)
        else grep_lines matches display limit (n + 1) found ls)"

definition grep_file :: "file_system \<Rightarrow> string list \<Rightarrow> string list \<Rightarrow> (string \<Rightarrow> bool) \<Rightarrow> int
    \<Rightarrow> string list option" where
  "grep_file fs r p matches limit =
     (case os_stat fs (unix_path p) of
        Inr (Fs_File content) \<Rightarrow>
          if int (length content) > max_grep_file_bytes then Some []
          else if CHR 0x00 \<in> set (take 4096 content) then Some []
          else grep_lines matches (workspace_relative_display r p) limit 0 [] (scan_lines content)
      | Inr _ \<Rightarrow> Some []
      | Inl _ \<Rightarrow> None)"

definition grep_visit :: "file_system \<Rightarrow> string list \<Rightarrow> (string \<Rightarrow> bool) \<Rightarrow> int \<Rightarrow> string list
    \<Rightarrow> string list \<times> bool \<Rightarrow> (string list \<times> bool) \<times> walk_action" where
  "grep_visit fs r matches limit p s =
     (case s of (found, truncated) \<Rightarrow>
        if int (length found) \<ge> limit then ((found, True), Skip_All)
        else case grep_file fs r p matches (limit - int (length found)) of
            None \<Rightarrow> (s, Walk_On)
          | Some ls \<Rightarrow> let found = found @ ls
                       in ((found, truncated \<or> int (length found) \<ge> limit), Walk_On))"

definition visit_grep :: "file_system \<Rightarrow> string list \<Rightarrow> string list \<Rightarrow> (string \<Rightarrow> bool) \<Rightarrow> int \<Rightarrow> string list
    \<Rightarrow> fs_node \<Rightarrow> string list \<times> bool \<Rightarrow> (string list \<times> bool) \<times> walk_action" where
  "visit_grep fs r target matches limit p node s =
     (if node = Fs_Dir then (s, if p \<noteq> target \<and> should_skip_search_dir (last p) then Skip_Dir else Walk_On)
      else grep_visit fs r matches limit p s)"

datatype grep_error = Pattern_Required | Bad_Pattern | Grep_Error ws_error

definition grep_output :: "string list \<times> bool \<Rightarrow> string" where
  "grep_output s =
     (case s of (found, truncated) \<Rightarrow>
        if found = [] then ''no matches''
        else truncate_tool_output (join_with [nl] found
          @ (if truncated then nl # ''[truncated]'' else [])))"

definition run_grep_workspace :: "(string \<Rightarrow> (string \<Rightarrow> bool) option) \<Rightarrow> file_system \<Rightarrow> string \<Rightarrow> string
    \<Rightarrow> string \<Rightarrow> int \<Rightarrow> grep_error + string" where
  "run_grep_workspace compile fs base pattern rel max_matches =
     (if trim_space pattern = [] then Inl Pattern_Required
      else let rel = default_path rel
      in case compile pattern of
          None \<Rightarrow> Inl Bad_Pattern
        | Some matches \<Rightarrow>
            let limit = clamp_int max_matches 1 1000
            in (case resolve_workspace_path fs base rel of
                Inl e \<Rightarrow> Inl (Grep_Error e)
              | Inr target \<Rightarrow>
                  let r = path_names (clean_workspace_root fs base); t = path_names target
                  in (case os_stat fs target of
                      Inl e \<Rightarrow> Inl (Grep_Error (Os_Error e))
                    | Inr node \<Rightarrow>
                        if node \<noteq> Fs_Dir then Inr (grep_output (fst (grep_visit fs r matches limit t ([], False))))
                        else Inr (grep_output (fst (tree_walk fs (visit_grep fs r t matches limit) t node ([], False)))))))"


subsection \<open>What a walk visits\<close>

lemma dir_names_iff: "c \<in> set (dir_names fs p) \<longleftrightarrow> fs_lookup fs (p @ [c]) \<noteq> None"
proof -
  have "c \<in> set (dir_names fs p) \<longleftrightarrow> (\<exists>q \<in> fst ` set (fs_nodes fs). q \<noteq> [] \<and> butlast q = p \<and> last q = c)"
    by (auto simp: dir_names_def)
  also have "\<dots> \<longleftrightarrow> p @ [c] \<in> fst ` set (fs_nodes fs)"
    by (metis append_butlast_last_id butlast_snoc last_snoc snoc_eq_iff_butlast)
  finally show ?thesis by (simp add: fs_lookup_def map_of_eq_None_iff)
qed

text \<open>
  The admitted nodes that can be reached over admitted directories, and the nodes a walk gets to
  see: the start and all entries of those directories.
\<close>

inductive in_tree :: "file_system \<Rightarrow> (string list \<Rightarrow> fs_node \<Rightarrow> bool) \<Rightarrow> string list \<Rightarrow> fs_node
    \<Rightarrow> string list \<Rightarrow> fs_node \<Rightarrow> bool" for fs ok p node where
  in_tree_start: "ok p node \<Longrightarrow> in_tree fs ok p node p node"
| in_tree_child: "in_tree fs ok p node q Fs_Dir \<Longrightarrow> fs_lookup fs (q @ [c]) = Some n \<Longrightarrow> ok (q @ [c]) n
    \<Longrightarrow> in_tree fs ok p node (q @ [c]) n"

definition seen_in_tree :: "file_system \<Rightarrow> (string list \<Rightarrow> fs_node \<Rightarrow> bool) \<Rightarrow> string list \<Rightarrow> fs_node
    \<Rightarrow> string list \<Rightarrow> fs_node \<Rightarrow> bool" where
  "seen_in_tree fs ok p node q n \<longleftrightarrow> q = p \<and> n = node
     \<or> (\<exists>q' c. q = q' @ [c] \<and> in_tree fs ok p node q' Fs_Dir \<and> fs_lookup fs q = Some n)"

lemma in_tree_ok: "in_tree fs ok p node q n \<Longrightarrow> ok q n"
  by (induction rule: in_tree.induct) auto

lemma in_tree_prefix: "in_tree fs ok p node q n \<Longrightarrow> prefix p q"
  by (induction rule: in_tree.induct) auto

lemma seen_prefix: "seen_in_tree fs ok p node q n \<Longrightarrow> prefix p q"
  by (auto simp: seen_in_tree_def dest: in_tree_prefix)

lemma seen_admitted: "seen_in_tree fs ok p node q n \<Longrightarrow> ok q n \<Longrightarrow> in_tree fs ok p node q n"
  by (auto simp: seen_in_tree_def intro: in_tree.intros)

lemma in_tree_split:
  "in_tree fs ok p node q n \<Longrightarrow> q = p \<and> n = node \<or>
    (\<exists>c m. node = Fs_Dir \<and> fs_lookup fs (p @ [c]) = Some m \<and> in_tree fs ok (p @ [c]) m q n)"
proof (induction rule: in_tree.induct)
  case (in_tree_child q c n)
  then show ?case by (metis in_tree.intros)
qed simp

lemma in_tree_join:
  "in_tree fs ok (p @ [c]) m q n \<Longrightarrow> ok p Fs_Dir \<Longrightarrow> fs_lookup fs (p @ [c]) = Some m
    \<Longrightarrow> in_tree fs ok p Fs_Dir q n"
  by (induction rule: in_tree.induct) (auto intro: in_tree.intros)

lemma seen_join:
  "seen_in_tree fs ok (p @ [c]) m q n \<Longrightarrow> ok p Fs_Dir \<Longrightarrow> fs_lookup fs (p @ [c]) = Some m
    \<Longrightarrow> seen_in_tree fs ok p Fs_Dir q n"
  unfolding seen_in_tree_def by (auto intro: in_tree_join in_tree_start)

text \<open>The walk keeps what every visit of a seen node keeps; \<open>I True\<close> is what holds once it is stopped.\<close>

lemma tree_walk_keeps:
  fixes visit :: "string list \<Rightarrow> fs_node \<Rightarrow> 's \<Rightarrow> 's \<times> walk_action"
  shows "(\<And>q s. snd (visit q Fs_Dir s) = Walk_On \<Longrightarrow> ok q Fs_Dir) \<Longrightarrow>
      (\<And>q n s. seen_in_tree fs ok p node q n \<Longrightarrow> I False s \<Longrightarrow> I (snd (visit q n s) = Skip_All) (fst (visit q n s))) \<Longrightarrow>
      I False s \<Longrightarrow>
      I (snd (tree_walk fs visit p node s)) (fst (tree_walk fs visit p node s))"
    and "(\<And>q s. snd (visit q Fs_Dir s) = Walk_On \<Longrightarrow> ok q Fs_Dir) \<Longrightarrow>
      (\<And>q n s c m. c \<in> set cs \<Longrightarrow> fs_lookup fs (p @ [c]) = Some m \<Longrightarrow>
        seen_in_tree fs ok (p @ [c]) m q n \<Longrightarrow> I False s \<Longrightarrow> I (snd (visit q n s) = Skip_All) (fst (visit q n s))) \<Longrightarrow>
      I False s \<Longrightarrow>
      I (snd (tree_walks fs visit p cs s)) (fst (tree_walks fs visit p cs s))"
proof (induction fs visit p node s and fs visit p cs s rule: tree_walk_tree_walks.induct)
  case (1 fs visit p node s)
  have v: "I (snd (visit p node s) = Skip_All) (fst (visit p node s))" using "1.prems"(2,3) by (simp add: seen_in_tree_def)
  obtain s1 a where va: "visit p node s = (s1, a)" by force
  show ?case
  proof (cases "a = Walk_On \<and> node = Fs_Dir")
    case True
    then have ok: "ok p Fs_Dir" using va "1.prems"(1) [of p s] by simp
    have "I (snd (tree_walks fs visit p (dir_names fs p) s1)) (fst (tree_walks fs visit p (dir_names fs p) s1))"
    proof (rule "1.IH")
      show "(s1, Walk_On) = visit p node s" using va True by simp
      show "I False s1" using v va True by simp
      fix q n s c m
      assume "fs_lookup fs (p @ [c]) = Some m" "seen_in_tree fs ok (p @ [c]) m q n" "I False s"
      then show "I (snd (visit q n s) = Skip_All) (fst (visit q n s))"
        using "1.prems"(2) True ok by (blast intro: seen_join)
    qed (use True "1.prems"(1) in auto)
    with va True show ?thesis by (simp add: tree_walk.simps)
  next
    case False
    with v va show ?thesis by (cases a) (auto simp: tree_walk.simps)
  qed
next
  case (3 fs visit p c cs s)
  show ?case
  proof (cases "fs_lookup fs (p @ [c])")
    case None
    have "I (snd (tree_walks fs visit p cs s)) (fst (tree_walks fs visit p cs s))"
    proof (rule "3.IH"(1) [OF None])
      fix q s assume "snd (visit q Fs_Dir s) = Walk_On"
      then show "ok q Fs_Dir" by (rule "3.prems"(1))
    next
      fix q n s d m
      assume "d \<in> set cs" "fs_lookup fs (p @ [d]) = Some m" "seen_in_tree fs ok (p @ [d]) m q n" "I False s"
      then show "I (snd (visit q n s) = Skip_All) (fst (visit q n s))" by (intro "3.prems"(2) [of d]) auto
    qed (rule "3.prems"(3))
    with None show ?thesis by (simp add: tree_walks.simps)
  next
    case (Some node)
    have w: "I (snd (tree_walk fs visit (p @ [c]) node s)) (fst (tree_walk fs visit (p @ [c]) node s))"
    proof (rule "3.IH"(2) [OF Some])
      fix q s assume "snd (visit q Fs_Dir s) = Walk_On"
      then show "ok q Fs_Dir" by (rule "3.prems"(1))
    next
      fix q n s
      assume "seen_in_tree fs ok (p @ [c]) node q n" "I False s"
      then show "I (snd (visit q n s) = Skip_All) (fst (visit q n s))" by (intro "3.prems"(2) [of c]) (auto simp: Some)
    qed (rule "3.prems"(3))
    obtain s1 b where sb: "tree_walk fs visit (p @ [c]) node s = (s1, b)" by force
    have "I (snd (tree_walks fs visit p cs s1)) (fst (tree_walks fs visit p cs s1))" if "\<not> b"
    proof (rule "3.IH"(3) [OF Some sb [symmetric]])
      fix q s assume "snd (visit q Fs_Dir s) = Walk_On"
      then show "ok q Fs_Dir" by (rule "3.prems"(1))
    next
      fix q n s d m
      assume "d \<in> set cs" "fs_lookup fs (p @ [d]) = Some m" "seen_in_tree fs ok (p @ [d]) m q n" "I False s"
      then show "I (snd (visit q n s) = Skip_All) (fst (visit q n s))" by (intro "3.prems"(2) [of d]) auto
    qed (use w sb that in auto)
    with Some sb w show ?thesis by (cases b) (simp_all add: tree_walks.simps)
  qed
qed simp

text \<open>A walk that is not stopped marks every node reached over admitted ones.\<close>

definition marks :: "(string list \<Rightarrow> fs_node \<Rightarrow> 's \<Rightarrow> 's \<times> walk_action) \<Rightarrow> (string list \<Rightarrow> fs_node \<Rightarrow> bool)
    \<Rightarrow> (string list \<times> fs_node \<Rightarrow> 's \<Rightarrow> bool) \<Rightarrow> bool" where
  "marks visit good V \<longleftrightarrow>
     (\<forall>q n s x. V x s \<longrightarrow> V x (fst (visit q n s)))
     \<and> (\<forall>q n s. good q n \<longrightarrow> snd (visit q n s) \<noteq> Skip_All \<longrightarrow> V (q, n) (fst (visit q n s)))
     \<and> (\<forall>q s. good q Fs_Dir \<longrightarrow> snd (visit q Fs_Dir s) \<noteq> Skip_Dir)"

lemma marks_kept:
  assumes "marks visit good V" "V x s"
  shows "V x (fst (tree_walk fs visit p node s))" "V x (fst (tree_walks fs visit p cs s))"
proof -
  have k: "V x (fst (visit q n s))" if "V x s" for q n s
    using assms(1) that unfolding marks_def by blast
  show "V x (fst (tree_walk fs visit p node s))"
    by (rule tree_walk_keeps(1) [where I = "\<lambda>_. V x" and ok = "\<lambda>_ _. True"]) (rule TrueI | erule k | rule assms(2))+
  show "V x (fst (tree_walks fs visit p cs s))"
    by (rule tree_walk_keeps(2) [where I = "\<lambda>_. V x" and ok = "\<lambda>_ _. True"]) (rule TrueI | erule k | rule assms(2))+
qed

lemma tree_walk_visits:
  fixes visit :: "string list \<Rightarrow> fs_node \<Rightarrow> 's \<Rightarrow> 's \<times> walk_action"
  shows "marks visit good V \<Longrightarrow> tree_walk fs visit p node s = (s', False) \<Longrightarrow> good p node \<Longrightarrow>
      in_tree fs good p node q n \<Longrightarrow> V (q, n) s'"
    and "marks visit good V \<Longrightarrow> tree_walks fs visit p cs s = (s', False) \<Longrightarrow> c \<in> set cs \<Longrightarrow>
      fs_lookup fs (p @ [c]) = Some m \<Longrightarrow> good (p @ [c]) m \<Longrightarrow> in_tree fs good (p @ [c]) m q n \<Longrightarrow> V (q, n) s'"
proof (induction fs visit p node s and fs visit p cs s arbitrary: s' q n and s' q n c m
    rule: tree_walk_tree_walks.induct)
  case (1 fs visit p node s)
  obtain s1 a where va: "visit p node s = (s1, a)" by force
  then have a: "a \<noteq> Skip_All" using "1.prems"(2) by (auto simp: tree_walk.simps)
  then have v: "V (p, node) s1" using "1.prems"(1,3) va unfolding marks_def by (metis fst_conv snd_conv)
  show ?case
  proof (cases "node = Fs_Dir")
    case False
    then have "q = p \<and> n = node" using in_tree_split [OF "1.prems"(4)] by simp
    moreover have "s' = s1" using "1.prems"(2) va a False by (cases a) (auto simp: tree_walk.simps)
    ultimately show ?thesis using v by simp
  next
    case True
    then have "a = Walk_On"
      using a "1.prems"(1,3) va unfolding marks_def by (metis snd_conv walk_action.exhaust)
    then have w: "tree_walks fs visit p (dir_names fs p) s1 = (s', False)"
      using "1.prems"(2) va True by (simp add: tree_walk.simps)
    from in_tree_split [OF "1.prems"(4)] show ?thesis
    proof
      assume "q = p \<and> n = node"
      with marks_kept(2) [OF "1.prems"(1) v, of fs p "dir_names fs p"] w show ?thesis by simp
    next
      assume "\<exists>c m. node = Fs_Dir \<and> fs_lookup fs (p @ [c]) = Some m \<and> in_tree fs good (p @ [c]) m q n"
      then obtain c m where c: "fs_lookup fs (p @ [c]) = Some m" "in_tree fs good (p @ [c]) m q n" by blast
      from c(2) have g: "good (p @ [c]) m" by (induction rule: in_tree.induct) auto
      have "c \<in> set (dir_names fs p)" using c(1) by (simp add: dir_names_iff)
      from "1.IH" [OF _ _ True "1.prems"(1) w this c(1) g c(2)] va \<open>a = Walk_On\<close> show ?thesis by simp
    qed
  qed
next
  case (3 fs visit p d ds s)
  show ?case
  proof (cases "fs_lookup fs (p @ [d])")
    case None
    with "3.prems" have "c \<in> set ds" "tree_walks fs visit p ds s = (s', False)" by (auto simp: tree_walks.simps)
    with 3 None show ?thesis by blast
  next
    case (Some node)
    obtain s1 b where sb: "tree_walk fs visit (p @ [d]) node s = (s1, b)" by force
    with "3.prems"(2) Some have b: "\<not> b" "tree_walks fs visit p ds s1 = (s', False)"
      by (auto simp: tree_walks.simps split: bool.splits)
    show ?thesis
    proof (cases "c = d")
      case True
      then have "V (q, n) s1" using "3.IH"(2) [OF Some "3.prems"(1) _ _] sb b "3.prems" Some by auto
      with marks_kept(2) [OF "3.prems"(1) this, of fs p ds] b show ?thesis by simp
    next
      case False
      with "3.prems" have "c \<in> set ds" by simp
      with "3.IH"(3) [OF Some sb [symmetric] _ "3.prems"(1) b(2)] b "3.prems" show ?thesis by blast
    qed
  qed
qed simp


lemma tree_walk_stopped:
  "tree_walk fs visit p node s = (s', True) \<Longrightarrow> \<exists>q n u. visit q n u = (s', Skip_All)"
  "tree_walks fs visit p cs s = (s', True) \<Longrightarrow> \<exists>q n u. visit q n u = (s', Skip_All)"
proof (induction fs visit p node s and fs visit p cs s arbitrary: s' and s' rule: tree_walk_tree_walks.induct)
  case (1 fs visit p node s)
  obtain s1 a where va: "visit p node s = (s1, a)" by force
  show ?case
  proof (cases "a = Walk_On \<and> node = Fs_Dir")
    case True
    with 1 va show ?thesis by (simp add: tree_walk.simps)
  next
    case False
    with "1.prems" va show ?thesis by (cases a) (auto simp: tree_walk.simps)
  qed
next
  case (3 fs visit p c cs s)
  then show ?case
    by (cases "fs_lookup fs (p @ [c])"; cases "tree_walk fs visit (p @ [c]) (the (fs_lookup fs (p @ [c]))) s")
       (auto simp: tree_walks.simps split: bool.splits)
qed simp

lemma rel_names_append [simp]: "rel_names t (t @ q) = q"
  by (induction t) simp_all

lemma rel_names_Nil [simp]: "rel_names t p = [] \<longleftrightarrow> p = t"
  by (induction t p rule: rel_names.induct) auto

lemma rel_names_self [simp]: "rel_names t t = []"
  by simp

subsection \<open>Listing\<close>

definition list_admits :: "string list \<Rightarrow> int \<Rightarrow> string list \<Rightarrow> fs_node \<Rightarrow> bool" where
  "list_admits t depth p node \<longleftrightarrow> entry_depth (rel_names t p) \<le> depth
     \<and> \<not> (p \<noteq> t \<and> node = Fs_Dir \<and> should_skip_search_dir (last p))"

definition list_entry :: "string list \<Rightarrow> string list \<Rightarrow> fs_node \<Rightarrow> string" where
  "list_entry r p node = workspace_relative_display r p @ (if node = Fs_Dir then ''/'' else [])"

lemma visit_list_cases:
  "visit_list r t depth p node (entries, truncated) =
    (if list_admits t depth p node then
       let entries = entries @ [list_entry r p node]
       in if length entries \<ge> max_list_entries then ((entries, True), Skip_All) else ((entries, truncated), Walk_On)
     else ((entries, truncated), if node = Fs_Dir then Skip_Dir else Walk_On))"
  by (auto simp: visit_list_def list_admits_def list_entry_def Let_def)

text \<open>
  \<^verbatim>\<open>workspace.list\<close> shows at most 500 entries, each of them a node within the asked depth that
  is reached over directories the tool does not skip; unless it marks the list as truncated, it
  shows all of them.
\<close>

theorem workspace_list_exact:
  assumes "tree_walk fs (visit_list r t depth) t Fs_Dir ([], False) = ((entries, truncated), stopped)" "0 \<le> depth"
  shows "length entries \<le> max_list_entries
    \<and> (\<forall>e \<in> set entries. \<exists>p n. in_tree fs (list_admits t depth) t Fs_Dir p n \<and> e = list_entry r p n)
    \<and> (\<not> truncated \<longrightarrow> (\<forall>p n. in_tree fs (list_admits t depth) t Fs_Dir p n \<longrightarrow> list_entry r p n \<in> set entries))"
proof -
  let ?visit = "visit_list r t depth" and ?ok = "list_admits t depth"
  let ?in = "in_tree fs ?ok t Fs_Dir" and ?shown = "\<lambda>(q, n) s. list_entry r q n \<in> set (fst s)"
  let ?I = "\<lambda>stop (s :: string list \<times> bool). length (fst s) \<le> max_list_entries \<and> (stop \<or> length (fst s) < max_list_entries)
    \<and> (\<forall>e \<in> set (fst s). \<exists>p n. ?in p n \<and> e = list_entry r p n)"
  let ?w = "tree_walk fs ?visit t Fs_Dir ([], False)"
  have on: "?ok q Fs_Dir" if "snd (?visit q Fs_Dir s) = Walk_On" for q s
    using that by (cases s) (auto simp: visit_list_cases Let_def split: if_splits)
  have inv: "?I (snd ?w) (fst ?w)"
  proof (rule tree_walk_keeps(1) [where ok = ?ok and I = ?I, OF on])
    fix q n s assume seen: "seen_in_tree fs ?ok t Fs_Dir q n" and "?I False s"
    moreover have "?ok q n \<Longrightarrow> ?in q n" by (rule seen_admitted [OF seen])
    ultimately show "?I (snd (?visit q n s) = Skip_All) (fst (?visit q n s))"
      by (cases s) (auto simp: visit_list_cases Let_def)
  qed (simp_all add: max_list_entries_def)
  have complete: "list_entry r p n \<in> set entries" if "\<not> truncated" "?in p n" for p n
  proof -
    have "\<not> stopped"
      using that(1) tree_walk_stopped(1) [of fs ?visit t Fs_Dir "([], False)" "(entries, truncated)"] assms(1)
      by (auto simp: visit_list_cases Let_def split: if_splits)
    then have w: "?w = ((entries, truncated), False)" using assms(1) by simp
    have m: "marks ?visit ?ok ?shown"
      by (auto simp: marks_def visit_list_cases Let_def)
    have "?ok t Fs_Dir" using assms(2) by (simp add: list_admits_def entry_depth_def)
    from tree_walk_visits(1) [OF m w this that(2)] show ?thesis by simp
  qed
  from inv complete assms(1) show ?thesis by auto
qed


subsection \<open>Statistics\<close>

lemma sum_update:
  fixes f :: "'v \<Rightarrow> int"
  assumes "distinct (map fst al)"
  shows "sum_list (map (\<lambda>x. f (snd x)) (AList.update k v al)) =
    sum_list (map (\<lambda>x. f (snd x)) al) - (case map_of al k of None \<Rightarrow> 0 | Some u \<Rightarrow> f u) + f v"
  using assms
proof (induction al)
  case (Cons x al)
  obtain a b where x: "x = (a, b)" by (cases x)
  show ?case
  proof (cases "a = k")
    case True
    with Cons.prems x show ?thesis by (simp add: map_of_eq_None_iff [symmetric])
  next
    case False
    with Cons x show ?thesis by simp
  qed
qed simp

definition counts_add_up :: "bool \<Rightarrow> stats_count \<Rightarrow> bool" where
  "counts_add_up stop s \<longleftrightarrow> distinct (map fst (sc_top s))
     \<and> sum_list (map (\<lambda>x. wd_files (snd x)) (sc_top s)) = sc_files s
     \<and> 0 \<le> sc_files s \<and> sc_files s \<le> max_walk_files \<and> (stop \<or> sc_files s < max_walk_files)"

lemma visit_stats_counts:
  assumes "counts_add_up False s"
  shows "counts_add_up (snd (visit_stats t depth p node s) = Skip_All) (fst (visit_stats t depth p node s))"
proof -
  have d: "distinct (map fst (sc_top s))" using assms by (simp add: counts_add_up_def)
  show ?thesis
    using assms d
    by (auto simp: visit_stats_def counts_add_up_def Let_def distinct_update sum_update dir_stat_def
        split: option.splits)
qed

lemma stats_counts:
  "counts_add_up (snd (tree_walk fs (visit_stats t depth) t node
      \<lparr>sc_files = 0, sc_dirs = 0, sc_truncated = False, sc_top = []\<rparr>))
    (fst (tree_walk fs (visit_stats t depth) t node
      \<lparr>sc_files = 0, sc_dirs = 0, sc_truncated = False, sc_top = []\<rparr>))"
proof (rule tree_walk_keeps(1) [where ok = "\<lambda>_ _. True" and I = counts_add_up])
  show "counts_add_up False \<lparr>sc_files = 0, sc_dirs = 0, sc_truncated = False, sc_top = []\<rparr>"
    by (simp add: counts_add_up_def max_walk_files_def)
qed (simp_all add: visit_stats_counts)

lemma top_level_files:
  assumes "distinct (map fst (sc_top s))"
  shows "sum_list (map wd_files (top_level_of s)) = sum_list (map (\<lambda>x. wd_files (snd x)) (sc_top s))"
proof -
  let ?f = "\<lambda>k. wd_files (the (map_of (sc_top s) k))"
  have "sum_list (map wd_files (top_level_of s)) = sum_list (map ?f (sort (map fst (sc_top s))))"
    by (simp add: top_level_of_def comp_def Let_def)
  also have "\<dots> = sum_list (map ?f (map fst (sc_top s)))"
    by (simp only: sum_mset_sum_list [symmetric] mset_map mset_sort)
  also have "map ?f (map fst (sc_top s)) = map (\<lambda>x. wd_files (snd x)) (sc_top s)"
    using assms by (auto simp: map_of_eq_Some_iff)
  finally show ?thesis .
qed

text \<open>
  The statistics of a directory add up: every file counted belongs to exactly one entry of the
  top level, at most 20000 files are counted, the number of suggested splits is 1 to 6, and the
  suggested turn budget is the number of files (at least one) plus the summary turns.
\<close>

theorem workspace_stats_add_up:
  assumes "compute_workspace_stats fs base rel max_depth = Inr res"
  shows "0 \<le> wt_total_files res \<and> wt_total_files res \<le> 20000
    \<and> (wt_split_guidance res = ''single_file'' \<and> wt_top_level res = [] \<and> wt_total_files res = 1
       \<or> sum_list (map wd_files (wt_top_level res)) = wt_total_files res)
    \<and> 1 \<le> wt_suggested_splits res \<and> wt_suggested_splits res \<le> 6
    \<and> wt_suggested_max_turns res = max 1 (wt_total_files res) + 8"
proof -
  have turns: "recommended_subagent_turns n = max 1 n + 8" if "0 \<le> n" "n \<le> 20000" for n
    using that by (simp add: recommended_subagent_turns_def subagent_summary_turns_def wrap_int64_id)
  have plan: "1 \<le> fst (split_plan n top) \<and> fst (split_plan n top) \<le> 6" for n top
    by (auto simp: split_plan_def)
  obtain target where t: "resolve_workspace_path fs base (default_path rel) = Inr target"
    using assms by (cases "resolve_workspace_path fs base (default_path rel)") (auto simp: compute_workspace_stats_def)
  obtain node where "os_stat fs target = Inr node"
    using assms t by (cases "os_stat fs target") (auto simp: compute_workspace_stats_def)
  note target = t this
  show ?thesis
  proof (cases "node = Fs_Dir")
    case False
    with assms target show ?thesis
      by (auto simp: compute_workspace_stats_def Let_def stats_result_def turns)
  next
    case True
    let ?t = "path_names target" and ?d = "clamp_int max_depth 1 8"
    let ?s = "fst (tree_walk fs (visit_stats ?t ?d) ?t Fs_Dir
      \<lparr>sc_files = 0, sc_dirs = 0, sc_truncated = False, sc_top = []\<rparr>)"
    have res: "wt_total_files res = sc_files ?s" "wt_top_level res = top_level_of ?s"
      "wt_suggested_splits res = fst (split_plan (sc_files ?s) (top_level_of ?s))"
      "wt_suggested_max_turns res = recommended_subagent_turns (sc_files ?s)"
      using assms target True by (auto simp: compute_workspace_stats_def Let_def stats_result_def)
    from stats_counts [of fs ?t ?d Fs_Dir] show ?thesis
      by (simp add: res counts_add_up_def top_level_files plan turns max_walk_files_def)
  qed
qed


subsection \<open>Searching\<close>

text \<open>The lines a search is to report for a file, from line \<open>n + 1\<close> on.\<close>

fun grep_hits :: "(string \<Rightarrow> bool) \<Rightarrow> string \<Rightarrow> nat \<Rightarrow> string list \<Rightarrow> string list" where
  "grep_hits matches display n [] = []"
| "grep_hits matches display n (l # ls) =
     (if matches (drop_cr l) then [display @ '':'' @ nat_digits (n + 1) @ '': '' @ trim_space (drop_cr l)] else [])
     @ grep_hits matches display (n + 1) ls"

lemma grep_lines_hits:
  assumes "list_all (\<lambda>l. int (length l) < max_line_bytes) ls"
  shows "\<exists>found'. grep_lines matches display limit n found ls = Some found'
    \<and> (int (length found') \<ge> limit \<and> 0 < length found' \<or> found' = found @ grep_hits matches display n ls)"
  using assms
proof (induction ls arbitrary: n found)
  case (Cons l ls)
  then have l: "\<not> int (length l) \<ge> max_line_bytes" "list_all (\<lambda>l. int (length l) < max_line_bytes) ls" by simp_all
  from Cons.IH [OF l(2)] l(1) show ?case by (fastforce simp: Let_def)
qed simp

definition searchable :: "file_system \<Rightarrow> string list \<Rightarrow> string \<Rightarrow> bool" where
  "searchable fs p content \<longleftrightarrow> os_stat fs (unix_path p) = Inr (Fs_File content)
     \<and> int (length content) \<le> max_grep_file_bytes \<and> CHR 0x00 \<notin> set (take 4096 content)
     \<and> list_all (\<lambda>l. int (length l) < max_line_bytes) (scan_lines content)"

definition grep_admits :: "string list \<Rightarrow> string list \<Rightarrow> fs_node \<Rightarrow> bool" where
  "grep_admits t p node \<longleftrightarrow> \<not> (p \<noteq> t \<and> node = Fs_Dir \<and> should_skip_search_dir (last p))"

definition grep_done :: "file_system \<Rightarrow> string list \<Rightarrow> (string \<Rightarrow> bool) \<Rightarrow> string list \<times> fs_node
    \<Rightarrow> string list \<times> bool \<Rightarrow> bool" where
  "grep_done fs r matches x s \<longleftrightarrow> snd s \<or> (\<forall>content. snd x \<noteq> Fs_Dir \<and> searchable fs (fst x) content \<longrightarrow>
     set (grep_hits matches (workspace_relative_display r (fst x)) 0 (scan_lines content)) \<subseteq> set (fst s))"

lemma grep_visit_done:
  "snd (grep_visit fs r matches limit p s) \<noteq> Skip_All \<Longrightarrow> n \<noteq> Fs_Dir \<Longrightarrow>
    grep_done fs r matches (p, n) (fst (grep_visit fs r matches limit p s))"
proof -
  assume a: "snd (grep_visit fs r matches limit p s) \<noteq> Skip_All" "n \<noteq> Fs_Dir"
  obtain found truncated where s: "s = (found, truncated)" by (cases s)
  have room: "\<not> int (length found) \<ge> limit" using a(1) by (auto simp: s grep_visit_def)
  show ?thesis
  proof (cases "\<exists>content. searchable fs p content")
    case True
    then obtain content where c: "searchable fs p content" ..
    let ?ls = "scan_lines content" and ?d = "workspace_relative_display r p"
    have g: "grep_file fs r p matches k = grep_lines matches ?d k 0 [] ?ls" for k
      using c by (simp add: grep_file_def searchable_def not_less)
    have "list_all (\<lambda>l. int (length l) < max_line_bytes) ?ls" using c by (simp add: searchable_def)
    from grep_lines_hits [OF this, of matches ?d "limit - int (length found)" 0 "[]"]
    have "grep_done fs r matches (p, n) (fst (grep_visit fs r matches limit p s))"
      using c room by (auto simp: s grep_visit_def g grep_done_def searchable_def Let_def)
    then show ?thesis .
  qed (simp add: grep_done_def)
qed

lemma grep_visit_keeps:
  "grep_done fs r matches x s \<Longrightarrow> grep_done fs r matches x (fst (grep_visit fs r matches limit p s))"
  by (cases s) (auto simp: grep_visit_def grep_done_def Let_def split: option.split)

lemma grep_marks: "marks (visit_grep fs r t matches limit) (grep_admits t) (grep_done fs r matches)"
  unfolding marks_def
proof (intro conjI allI impI)
  fix q n s x assume "grep_done fs r matches x s"
  then show "grep_done fs r matches x (fst (visit_grep fs r t matches limit q n s))"
    by (simp add: visit_grep_def grep_visit_keeps)
next
  fix q n s assume "grep_admits t q n" "snd (visit_grep fs r t matches limit q n s) \<noteq> Skip_All"
  then show "grep_done fs r matches (q, n) (fst (visit_grep fs r t matches limit q n s))"
    by (cases "n = Fs_Dir") (simp_all add: visit_grep_def grep_visit_done, simp add: grep_done_def)
next
  fix q s assume "grep_admits t q Fs_Dir"
  then show "snd (visit_grep fs r t matches limit q Fs_Dir s) \<noteq> Skip_Dir"
    by (auto simp: visit_grep_def grep_admits_def)
qed

lemma grep_not_stopped:
  assumes "tree_walk fs (visit_grep fs r t matches limit) t Fs_Dir s = ((found, False), stopped)"
  shows "\<not> stopped"
proof
  assume stopped
  then obtain q n u where "visit_grep fs r t matches limit q n u = ((found, False), Skip_All)"
    using assms tree_walk_stopped(1) by fastforce
  then show False
    by (cases u) (auto simp: visit_grep_def grep_visit_def Let_def split: if_splits option.splits)
qed

lemma grep_complete:
  assumes "tree_walk fs (visit_grep fs r t matches limit) t Fs_Dir ([], False) = ((found, False), stopped)"
    and "in_tree fs (grep_admits t) t Fs_Dir p n" "n \<noteq> Fs_Dir" "searchable fs p content"
  shows "set (grep_hits matches (workspace_relative_display r p) 0 (scan_lines content)) \<subseteq> set found"
proof -
  have "tree_walk fs (visit_grep fs r t matches limit) t Fs_Dir ([], False) = ((found, False), False)"
    using assms(1) grep_not_stopped [OF assms(1)] by simp
  moreover have "grep_admits t t Fs_Dir" by (simp add: grep_admits_def)
  ultimately have "grep_done fs r matches (p, n) (found, False)"
    using assms(2) by (rule tree_walk_visits(1) [OF grep_marks])
  with assms(3,4) show ?thesis by (simp add: grep_done_def)
qed

text \<open>
  A search that is not cut short reports every matching line of every readable text file below
  the directory, and the entries it reads include symbolic links: for a link that leads out of the
  workspace it reports the lines of the file outside, which \<^verbatim>\<open>workspace.read_file\<close> refuses to read.
\<close>

theorem grep_reads_through_links:
  assumes "real_dir fs r" "r \<noteq> []" "dirs_to fs out" "fs_lookup fs out = Some (Fs_File content)" "\<not> prefix r out"
    and "plain_name f" "trim_space f \<noteq> []" "fs_lookup fs (r @ [f]) = Some (Fs_Link (unix_path out))"
    and "int (length content) \<le> max_grep_file_bytes" "CHR 0x00 \<notin> set (take 4096 content)"
    and "list_all (\<lambda>l. int (length l) < max_line_bytes) (scan_lines content)"
    and "tree_walk fs (visit_grep fs r r matches limit) r Fs_Dir ([], False) = ((found, False), stopped)"
  shows "run_read_file fs (unix_path r) f = Inl Path_Escapes
    \<and> set (grep_hits matches f 0 (scan_lines content)) \<subseteq> set found"
proof -
  have pl: "list_all plain_name out" "list_all plain_name (r @ [f])" "list_all plain_name r"
    using assms(1,3,6) by (auto simp: dirs_to_def)
  have n: "proper_name f" using assms(6) by (auto simp: plain_name_def proper_name_def)
  have out: "fs_walk fs False k [] out = Inr out" for k
    using fs_walk_plain [of fs "[]" out False k] assms(3,4) by simp
  have "has_prefix (unix_path out) ''/''" by (simp add: unix_path_def has_prefix_def)
  then have walk: "fs_walk fs False (Suc k) [] (r @ [f]) = Inr out" for k
    using fs_walk_dir [OF assms(1), of False "Suc k" "[f]"] fs_walk_unix_path [OF pl(1), of fs False k] out [of k]
    by (simp add: fs_walk_step(6) [OF n assms(8)])
  have stat: "os_stat fs (unix_path (r @ [f])) = Inr (Fs_File content)"
    using walk [of 39] assms(4) by (simp add: os_stat_unix [OF pl(2)])
  then have "searchable fs (r @ [f]) content" using assms(9-11) by (simp add: searchable_def)
  moreover have "in_tree fs (grep_admits r) r Fs_Dir (r @ [f]) (Fs_Link (unix_path out))"
    using assms(8) by (intro in_tree_child in_tree_start) (auto simp: grep_admits_def)
  moreover have "workspace_relative_display r (r @ [f]) = f" by (simp add: workspace_relative_display_def)
  ultimately have "set (grep_hits matches f 0 (scan_lines content)) \<subseteq> set found"
    using grep_complete [OF assms(12)] by fastforce
  moreover have "eval_symlinks fs (unix_path (r @ [f])) = Inr (unix_path out)"
    using walk [of 254] by (simp add: eval_symlinks_def fs_walk_unix_path [OF pl(2)])
  then have "resolve_workspace_path fs (unix_path r) f = Inl Path_Escapes"
    using resolve_relative [OF assms(1,2), of "[f]"] path_inside_prefix [OF pl(3,1)] assms(5-7)
    by (auto simp: path_clean_unix [OF pl(1)] Let_def)
  ultimately show ?thesis by (simp add: run_read_file_def)
qed


theorem workspace_list_exact_witness:
  "\<exists>entries truncated stopped.
     tree_walk sample_fs (visit_list [''w''] [''w''] 3) [''w''] Fs_Dir ([], False) = ((entries, truncated), stopped)
     \<and> length entries \<le> max_list_entries"
proof -
  obtain entries truncated stopped where
    e: "tree_walk sample_fs (visit_list [''w''] [''w''] 3) [''w''] Fs_Dir ([], False) = ((entries, truncated), stopped)"
    by (metis prod.exhaust)
  from workspace_list_exact [OF e] e show ?thesis by simp
qed

theorem workspace_stats_add_up_witness:
  "\<exists>res. compute_workspace_stats plain_fs ''/w'' ''a'' 4 = Inr res \<and> wt_suggested_max_turns res = 9"
proof -
  have r: "resolve_workspace_path plain_fs ''/w'' ''a'' = Inr ''/w/a''" by code_simp
  have t: "trim_space ''a'' \<noteq> []" by code_simp
  have st: "os_stat plain_fs ''/w/a'' = Inr (Fs_File ''x=1'')" by code_simp
  obtain res where e: "compute_workspace_stats plain_fs ''/w'' ''a'' 4 = Inr res" and n: "wt_total_files res = 1"
    by (simp add: compute_workspace_stats_def default_path_def t r st stats_result_def Let_def)
  from workspace_stats_add_up [OF e] e n show ?thesis by auto
qed

definition link_fs :: file_system where
  "link_fs = \<lparr>fs_nodes = [([''w''], Fs_Dir), ([''w'', ''k''], Fs_Link ''/s''), ([''s''], Fs_File ''key'')],
     fs_cwd = ''/''\<rparr>"

theorem grep_reads_through_links_witness:
  "run_read_file link_fs (unix_path [''w'']) ''k'' = Inl Path_Escapes
   \<and> (\<exists>found stopped. tree_walk link_fs (visit_grep link_fs [''w''] [''w''] (\<lambda>_. True) 9) [''w''] Fs_Dir ([], False)
        = ((found, False), stopped) \<and> ''k:1: key'' \<in> set found)"
proof -
  have g: "tree_walk link_fs (visit_grep link_fs [''w''] [''w''] (\<lambda>_. True) 9) [''w''] Fs_Dir ([], False)
      = (([''k:1: key''], False), False)" by code_simp
  have "trim_space ''k'' \<noteq> []" by code_simp
  moreover have "scan_lines ''key'' = [''key'']" by code_simp
  moreover have "plain_name ''k''" by (simp add: plain_name_def)
  ultimately have "run_read_file link_fs (unix_path [''w'']) ''k'' = Inl Path_Escapes"
    by (intro conjunct1 [OF grep_reads_through_links [where out = "[''s'']" and content = "''key''", OF _ _ _ _ _ _ _ _ _ _ _ g]])
       (simp_all add: dirs_to_def link_fs_def fs_lookup_def unix_path_def plain_name_def max_grep_file_bytes_def max_line_bytes_def)
  with g show ?thesis by auto
qed

end
