(* ===== verification/Sql_Table.thy ===== *)
theory Sql_Table
  imports Go_Strings "HOL-Library.Product_Lexorder" "HOL-Library.Multiset"
begin

text \<open>
  The Gateway keeps its rows in SQLite behind GORM, which is not part of the repository. A
  table is therefore a parameter of the model: the record of the statements the repositories
  issue, over an abstract database state \<open>'d\<close>. A statement may fail (\<open>None\<close>) and then changes
  nothing; a transaction is the composition of its statements, whose result replaces the
  state only when all of them succeed.

  What a statement does is said by \<open>sql_table_laws\<close>, with the rows of the table as a view
  \<open>rows\<close> of the state: the documented meaning of \<^verbatim>\<open>SELECT .. WHERE .. ORDER BY\<close>, \<^verbatim>\<open>INSERT\<close>
  under a primary key, \<^verbatim>\<open>UPDATE .. WHERE\<close> with its affected-row count, and \<^verbatim>\<open>DELETE .. WHERE\<close>.
  \<open>mem_table\<close> satisfies them, so what is proved from them is not vacuous.
\<close>

text \<open>An \<^verbatim>\<open>ORDER BY\<close> is a lexicographic key; a descending integer column is negated.\<close>

type_synonym order_key = "(int \<times> string) list"

record ('d, 'r) sql_table =
  sql_select :: "'d \<Rightarrow> ('r \<Rightarrow> bool) \<Rightarrow> ('r \<Rightarrow> order_key) \<Rightarrow> 'r list option"
  sql_insert :: "'d \<Rightarrow> 'r list \<Rightarrow> 'd option"
  sql_update :: "'d \<Rightarrow> ('r \<Rightarrow> bool) \<Rightarrow> ('r \<Rightarrow> 'r) \<Rightarrow> ('d \<times> nat) option"
  sql_delete :: "'d \<Rightarrow> ('r \<Rightarrow> bool) \<Rightarrow> 'd option"
  sql_insert_new :: "'d \<Rightarrow> 'r \<Rightarrow> ('d \<times> bool) option"
  sql_upsert :: "'d \<Rightarrow> 'r \<Rightarrow> ('r \<Rightarrow> 'r) \<Rightarrow> 'd option"

definition sql_table_laws :: "('d, 'r) sql_table \<Rightarrow> ('d \<Rightarrow> 'r list) \<Rightarrow> ('r \<Rightarrow> string) \<Rightarrow> bool" where
  "sql_table_laws T rows key \<longleftrightarrow>
     (\<forall>d P k xs. sql_select T d P k = Some xs \<longrightarrow>
        mset xs = mset (filter P (rows d)) \<and> sorted (map k xs))
     \<and> (\<forall>d rs d'. sql_insert T d rs = Some d' \<longrightarrow>
        mset (rows d') = mset (rows d) + mset rs \<and> distinct (map key (rows d')))
     \<and> (\<forall>d P f d' n. sql_update T d P f = Some (d', n) \<longrightarrow>
        mset (rows d') = mset (map (\<lambda>r. if P r then f r else r) (rows d))
        \<and> n = length (filter P (rows d)) \<and> distinct (map key (rows d')))
     \<and> (\<forall>d P d'. sql_delete T d P = Some d' \<longrightarrow>
        mset (rows d') = mset (filter (\<lambda>r. \<not> P r) (rows d)))"

lemma sql_select_law:
  "sql_table_laws T rows key \<Longrightarrow> sql_select T d P k = Some xs \<Longrightarrow>
    mset xs = mset (filter P (rows d)) \<and> sorted (map k xs)"
  unfolding sql_table_laws_def by blast

lemma sql_insert_law:
  "sql_table_laws T rows key \<Longrightarrow> sql_insert T d rs = Some d' \<Longrightarrow>
    mset (rows d') = mset (rows d) + mset rs \<and> distinct (map key (rows d'))"
  unfolding sql_table_laws_def by blast

lemma sql_update_law:
  "sql_table_laws T rows key \<Longrightarrow> sql_update T d P f = Some (d', n) \<Longrightarrow>
    mset (rows d') = mset (map (\<lambda>r. if P r then f r else r) (rows d))
    \<and> n = length (filter P (rows d)) \<and> distinct (map key (rows d'))"
  unfolding sql_table_laws_def by blast

lemma sql_delete_law:
  "sql_table_laws T rows key \<Longrightarrow> sql_delete T d P = Some d' \<Longrightarrow>
    mset (rows d') = mset (filter (\<lambda>r. \<not> P r) (rows d))"
  unfolding sql_table_laws_def by blast

text \<open>
  \<^verbatim>\<open>ON CONFLICT DO NOTHING\<close> reports whether the row went in; it stays out exactly when it
  conflicts with a row of the table (the primary key or another unique index). \<^verbatim>\<open>ON CONFLICT
  (id) DO UPDATE\<close> inserts the row, or applies the assignments to the row with its key.
\<close>

definition sql_conflict_laws ::
  "('d, 'r) sql_table \<Rightarrow> ('d \<Rightarrow> 'r list) \<Rightarrow> ('r \<Rightarrow> string) \<Rightarrow> ('r \<Rightarrow> 'r \<Rightarrow> bool) \<Rightarrow> bool" where
  "sql_conflict_laws T rows key conflict \<longleftrightarrow>
     (\<forall>d r d' isnew. sql_insert_new T d r = Some (d', isnew) \<longrightarrow>
        distinct (map key (rows d'))
        \<and> (if list_ex (conflict r) (rows d) then \<not> isnew \<and> mset (rows d') = mset (rows d)
           else isnew \<and> mset (rows d') = add_mset r (mset (rows d))))
     \<and> (\<forall>d r f d'. sql_upsert T d r f = Some d' \<longrightarrow>
        distinct (map key (rows d'))
        \<and> mset (rows d') =
            (if key r \<in> key ` set (rows d)
             then mset (map (\<lambda>x. if key x = key r then f x else x) (rows d))
             else add_mset r (mset (rows d))))"

lemma sql_insert_new_law:
  "sql_conflict_laws T rows key conflict \<Longrightarrow> sql_insert_new T d r = Some (d', isnew) \<Longrightarrow>
    (if list_ex (conflict r) (rows d) then \<not> isnew \<and> mset (rows d') = mset (rows d)
     else isnew \<and> mset (rows d') = add_mset r (mset (rows d)))"
  unfolding sql_conflict_laws_def by blast

lemma sql_upsert_law:
  "sql_conflict_laws T rows key conflict \<Longrightarrow> sql_upsert T d r f = Some d' \<Longrightarrow>
    mset (rows d') =
      (if key r \<in> key ` set (rows d)
       then mset (map (\<lambda>x. if key x = key r then f x else x) (rows d))
       else add_mset r (mset (rows d)))"
  unfolding sql_conflict_laws_def by blast

text \<open>The statements of one table leave the rows of another alone.\<close>

definition sql_frame :: "('d, 'r) sql_table \<Rightarrow> ('d \<Rightarrow> 'x) \<Rightarrow> bool" where
  "sql_frame T other \<longleftrightarrow>
     (\<forall>d rs d'. sql_insert T d rs = Some d' \<longrightarrow> other d' = other d)
     \<and> (\<forall>d P f d' n. sql_update T d P f = Some (d', n) \<longrightarrow> other d' = other d)
     \<and> (\<forall>d P d'. sql_delete T d P = Some d' \<longrightarrow> other d' = other d)
     \<and> (\<forall>d r d' isnew. sql_insert_new T d r = Some (d', isnew) \<longrightarrow> other d' = other d)
     \<and> (\<forall>d r f d'. sql_upsert T d r f = Some d' \<longrightarrow> other d' = other d)"

lemma sql_frame_law:
  assumes "sql_frame T other"
  shows "sql_insert T d rs = Some d' \<Longrightarrow> other d' = other d"
    "sql_update T d P f = Some (d', n) \<Longrightarrow> other d' = other d"
    "sql_delete T d P = Some d' \<Longrightarrow> other d' = other d"
    "sql_insert_new T d r = Some (d', isnew) \<Longrightarrow> other d' = other d"
    "sql_upsert T d r g = Some d' \<Longrightarrow> other d' = other d"
  using assms unfolding sql_frame_def by blast+

text \<open>A constraint the schema declares: no statement that succeeds breaks it.\<close>

definition sql_constraint :: "('d, 'r) sql_table \<Rightarrow> ('d \<Rightarrow> 'r list) \<Rightarrow> ('r list \<Rightarrow> bool) \<Rightarrow> bool" where
  "sql_constraint T rows ok \<longleftrightarrow>
     (\<forall>d rs d'. sql_insert T d rs = Some d' \<longrightarrow> ok (rows d'))
     \<and> (\<forall>d P f d' n. sql_update T d P f = Some (d', n) \<longrightarrow> ok (rows d'))"

text \<open>
  \<^verbatim>\<open>First\<close> reads one row, and fails with an error of its own when there is none; \<^verbatim>\<open>LIMIT\<close> takes
  a prefix, and \<^verbatim>\<open>COUNT\<close> the number of rows.
\<close>

datatype 'r first_result = Found 'r | Not_Found | Read_Error

definition sql_first ::
  "('d, 'r) sql_table \<Rightarrow> 'd \<Rightarrow> ('r \<Rightarrow> bool) \<Rightarrow> ('r \<Rightarrow> order_key) \<Rightarrow> 'r first_result" where
  "sql_first T d P k =
     (case sql_select T d P k of None \<Rightarrow> Read_Error | Some [] \<Rightarrow> Not_Found | Some (r # _) \<Rightarrow> Found r)"

definition sql_limit ::
  "('d, 'r) sql_table \<Rightarrow> 'd \<Rightarrow> ('r \<Rightarrow> bool) \<Rightarrow> ('r \<Rightarrow> order_key) \<Rightarrow> nat \<Rightarrow> 'r list option" where
  "sql_limit T d P k n = map_option (take n) (sql_select T d P k)"

definition sql_count :: "('d, 'r) sql_table \<Rightarrow> 'd \<Rightarrow> ('r \<Rightarrow> bool) \<Rightarrow> nat option" where
  "sql_count T d P = map_option length (sql_select T d P (\<lambda>_. []))"

fun row_found :: "'r first_result \<Rightarrow> 'r option" where
  "row_found (Found r) = Some r"
| "row_found _ = None"

lemma row_found_eq_Some [simp]: "row_found x = Some r \<longleftrightarrow> x = Found r"
  by (cases x) auto

lemma sql_first_Found:
  assumes "sql_table_laws T rows key" "sql_first T d P k = Found r"
  shows "r \<in> set (rows d)" "P r"
proof -
  obtain rs where "sql_select T d P k = Some (r # rs)"
    using assms(2) by (auto simp: sql_first_def split: option.splits list.splits)
  from sql_select_law [OF assms(1) this] have "mset (r # rs) = mset (filter P (rows d))" ..
  then have "set (r # rs) = set (filter P (rows d))" by (metis set_mset_mset)
  then have "r \<in> set (filter P (rows d))" by auto
  then show "r \<in> set (rows d)" "P r" by simp_all
qed

lemma sql_first_Not_Found:
  assumes "sql_table_laws T rows key" "sql_first T d P k = Not_Found"
  shows "\<forall>r \<in> set (rows d). \<not> P r"
proof -
  have "sql_select T d P k = Some []"
    using assms(2) by (auto simp: sql_first_def split: option.splits list.splits)
  from sql_select_law [OF assms(1) this] have "filter P (rows d) = []" by simp
  then show ?thesis by (simp add: filter_empty_conv)
qed

lemma sql_count_law:
  "sql_table_laws T rows key \<Longrightarrow> sql_count T d P = Some n \<Longrightarrow> n = length (filter P (rows d))"
  unfolding sql_count_def by (auto dest!: sql_select_law dest: mset_eq_length)

text \<open>The error of a service call: a message of its own, or a database error passed on.\<close>

datatype svc_error = Svc_Error string | Db_Error

definition db_result :: "'a option \<Rightarrow> svc_error + 'a" where
  "db_result r = (case r of None \<Rightarrow> Inl Db_Error | Some x \<Rightarrow> Inr x)"

lemma db_result_simps [simp]:
  "db_result None = Inl Db_Error" "db_result (Some x) = Inr x"
  by (simp_all add: db_result_def)

lemma db_result_Inr [simp]: "db_result r = Inr x \<longleftrightarrow> r = Some x"
  by (simp add: db_result_def split: option.splits)

subsection \<open>A table in memory\<close>

text \<open>
  Rows in a list, with the primary key, the constraints \<open>ok\<close> of the schema, and the conflicts
  of the unique indices.
\<close>

definition list_table ::
  "('r \<Rightarrow> string) \<Rightarrow> ('r list \<Rightarrow> bool) \<Rightarrow> ('r \<Rightarrow> 'r \<Rightarrow> bool) \<Rightarrow> ('r list, 'r) sql_table" where
  "list_table key ok conflict =
     (let store = (\<lambda>d'. if distinct (map key d') \<and> ok d' then Some d' else None)
      in \<lparr>sql_select = (\<lambda>d P k. Some (sort_key k (filter P d))),
          sql_insert = (\<lambda>d rs. store (d @ rs)),
          sql_update = (\<lambda>d P f. map_option (\<lambda>d'. (d', length (filter P d)))
                                  (store (map (\<lambda>r. if P r then f r else r) d))),
          sql_delete = (\<lambda>d P. Some (filter (\<lambda>r. \<not> P r) d)),
          sql_insert_new = (\<lambda>d r. if list_ex (conflict r) d then map_option (\<lambda>d'. (d', False)) (store d)
                                  else map_option (\<lambda>d'. (d', True)) (store (d @ [r]))),
          sql_upsert = (\<lambda>d r f. if key r \<in> key ` set d
                                then store (map (\<lambda>x. if key x = key r then f x else x) d)
                                else store (d @ [r]))\<rparr>)"

lemma list_table_simps [simp]:
  "sql_select (list_table key ok conflict) d P k = Some (sort_key k (filter P d))"
  "sql_insert (list_table key ok conflict) d rs =
     (if distinct (map key (d @ rs)) \<and> ok (d @ rs) then Some (d @ rs) else None)"
  "sql_delete (list_table key ok conflict) d P = Some (filter (\<lambda>r. \<not> P r) d)"
  "sql_update (list_table key ok conflict) d P f =
     (let d' = map (\<lambda>r. if P r then f r else r) d
      in if distinct (map key d') \<and> ok d' then Some (d', length (filter P d)) else None)"
  "sql_insert_new (list_table key ok conflict) d r =
     (if list_ex (conflict r) d
      then if distinct (map key d) \<and> ok d then Some (d, False) else None
      else if distinct (map key (d @ [r])) \<and> ok (d @ [r]) then Some (d @ [r], True) else None)"
  "sql_upsert (list_table key ok conflict) d r f =
     (let d' = if key r \<in> key ` set d then map (\<lambda>x. if key x = key r then f x else x) d else d @ [r]
      in if distinct (map key d') \<and> ok d' then Some d' else None)"
  by (simp_all add: list_table_def Let_def)

lemma list_table_laws: "sql_table_laws (list_table key ok conflict) (\<lambda>d. d) key"
  unfolding sql_table_laws_def by (simp add: Let_def)

lemma list_table_conflict_laws:
  "sql_conflict_laws (list_table key ok conflict) (\<lambda>d. d) key conflict"
  unfolding sql_conflict_laws_def by (simp add: Let_def)

lemma list_table_constraint: "sql_constraint (list_table key ok conflict) (\<lambda>d. d) ok"
  unfolding sql_constraint_def by (simp add: Let_def)

definition mem_table :: "('r \<Rightarrow> string) \<Rightarrow> ('r list, 'r) sql_table" where
  "mem_table key = list_table key (\<lambda>_. True) (\<lambda>r x. key r = key x)"

lemma mem_table_simps [simp]:
  "sql_select (mem_table key) d P k = Some (sort_key k (filter P d))"
  "sql_insert (mem_table key) d rs = (if distinct (map key (d @ rs)) then Some (d @ rs) else None)"
  "sql_delete (mem_table key) d P = Some (filter (\<lambda>r. \<not> P r) d)"
  by (simp_all add: mem_table_def)

lemma mem_table_laws: "sql_table_laws (mem_table key) (\<lambda>d. d) key"
  by (simp add: mem_table_def list_table_laws)

subsection \<open>Several tables in one state\<close>

text \<open>\<open>embed_table get put T\<close> is the table \<open>T\<close> kept in one part of a larger state.\<close>

definition embed_table ::
  "('s \<Rightarrow> 'd) \<Rightarrow> ('d \<Rightarrow> 's \<Rightarrow> 's) \<Rightarrow> ('d, 'r) sql_table \<Rightarrow> ('s, 'r) sql_table" where
  "embed_table get put T =
     \<lparr>sql_select = (\<lambda>s. sql_select T (get s)),
      sql_insert = (\<lambda>s rs. map_option (\<lambda>d. put d s) (sql_insert T (get s) rs)),
      sql_update = (\<lambda>s P f. map_option (\<lambda>(d, n). (put d s, n)) (sql_update T (get s) P f)),
      sql_delete = (\<lambda>s P. map_option (\<lambda>d. put d s) (sql_delete T (get s) P)),
      sql_insert_new = (\<lambda>s r. map_option (\<lambda>(d, b). (put d s, b)) (sql_insert_new T (get s) r)),
      sql_upsert = (\<lambda>s r f. map_option (\<lambda>d. put d s) (sql_upsert T (get s) r f))\<rparr>"

lemma embed_table_simps [simp]:
  "sql_select (embed_table get put T) s = sql_select T (get s)"
  "sql_insert (embed_table get put T) s rs = map_option (\<lambda>d. put d s) (sql_insert T (get s) rs)"
  "sql_update (embed_table get put T) s P f =
     map_option (\<lambda>(d, n). (put d s, n)) (sql_update T (get s) P f)"
  "sql_delete (embed_table get put T) s P = map_option (\<lambda>d. put d s) (sql_delete T (get s) P)"
  "sql_insert_new (embed_table get put T) s r =
     map_option (\<lambda>(d, b). (put d s, b)) (sql_insert_new T (get s) r)"
  "sql_upsert (embed_table get put T) s r f = map_option (\<lambda>d. put d s) (sql_upsert T (get s) r f)"
  by (simp_all add: embed_table_def)

lemma embed_table_laws:
  "sql_table_laws T rows key \<Longrightarrow> (\<And>d s. get (put d s) = d) \<Longrightarrow>
    sql_table_laws (embed_table get put T) (\<lambda>s. rows (get s)) key"
  unfolding sql_table_laws_def by (simp add: split_beta) fastforce

lemma embed_table_conflict_laws:
  "sql_conflict_laws T rows key conflict \<Longrightarrow> (\<And>d s. get (put d s) = d) \<Longrightarrow>
    sql_conflict_laws (embed_table get put T) (\<lambda>s. rows (get s)) key conflict"
  unfolding sql_conflict_laws_def by (simp add: split_beta) fastforce

lemma embed_table_constraint:
  "sql_constraint T rows ok \<Longrightarrow> (\<And>d s. get (put d s) = d) \<Longrightarrow>
    sql_constraint (embed_table get put T) (\<lambda>s. rows (get s)) ok"
  unfolding sql_constraint_def by (simp add: split_beta) fastforce

lemma embed_table_frame:
  "(\<And>d s. other (put d s) = other s) \<Longrightarrow> sql_frame (embed_table get put T) other"
  unfolding sql_frame_def by auto

end
