(* ===== verification/Todo_Service.thy ===== *)
theory Todo_Service
  imports Sql_Table
begin

text \<open>
  The session checklist of the Gateway: \<^verbatim>\<open>service/todo.go\<close> and \<^verbatim>\<open>repository/todo.go\<close>. The
  todo table is a \<open>sql_table\<close>; a time is its number of nanoseconds. Row ids carry the value
  of the process-wide counter, which is threaded through the operations that draw from it;
  \<open>clock\<close> gives the reading taken for the id with a given counter value. The JSON text of a
  tool result is given as the value that is marshalled.
\<close>

subsection \<open>Rows\<close>

record todo_row =
  tr_row_id :: string
  tr_client_key :: string
  tr_session_id :: string
  tr_content :: string
  tr_row_status :: string
  tr_sort_order :: int
  tr_priority :: string
  tr_active_form :: string
  tr_source_run_id :: string
  tr_source_tool_call_id :: string
  tr_created_at :: int
  tr_updated_at :: int
  tr_completed_at :: "int option"

definition todo_order :: "todo_row \<Rightarrow> order_key" where
  "todo_order r = [(tr_sort_order r, []), (tr_created_at r, [])]"

definition open_status :: "string \<Rightarrow> bool" where
  "open_status st \<longleftrightarrow> st = ''pending'' \<or> st = ''in_progress''"

definition closed_status :: "string \<Rightarrow> bool" where
  "closed_status st \<longleftrightarrow> st = ''completed'' \<or> st = ''cancelled''"

definition new_todo_id :: "int \<Rightarrow> nat \<Rightarrow> string" where
  "new_todo_id now counter = ''todo_'' @ int_dec now @ ''_'' @ nat_digits counter"

subsection \<open>Repository\<close>

definition list_todos :: "('d, todo_row) sql_table \<Rightarrow> 'd \<Rightarrow> string \<Rightarrow> todo_row list option" where
  "list_todos T d session = sql_select T d (\<lambda>r. tr_session_id r = session) todo_order"

definition list_open_todos :: "('d, todo_row) sql_table \<Rightarrow> 'd \<Rightarrow> string \<Rightarrow> todo_row list option" where
  "list_open_todos T d session =
     sql_select T d (\<lambda>r. tr_session_id r = session \<and> open_status (tr_row_status r)) todo_order"

definition replace_session_todos ::
  "('d, todo_row) sql_table \<Rightarrow> 'd \<Rightarrow> string \<Rightarrow> todo_row list \<Rightarrow> 'd option" where
  "replace_session_todos T d session items =
     (case sql_delete T d (\<lambda>r. tr_session_id r = session) of
        None \<Rightarrow> None
      | Some d1 \<Rightarrow> if items = [] then Some d1 else sql_insert T d1 items)"

fun save_todos :: "('d, todo_row) sql_table \<Rightarrow> 'd \<Rightarrow> todo_row list \<Rightarrow> 'd option" where
  "save_todos T d [] = Some d"
| "save_todos T d (item # items) =
     (if tr_row_id item = []
      then (case sql_insert T d [item] of None \<Rightarrow> None | Some d1 \<Rightarrow> save_todos T d1 items)
      else case sql_select T d (\<lambda>r. tr_row_id r = tr_row_id item) (\<lambda>_. []) of
             None \<Rightarrow> None
           | Some found \<Rightarrow>
               if found = []
               then (case sql_insert T d [item] of None \<Rightarrow> None | Some d1 \<Rightarrow> save_todos T d1 items)
               else (case sql_update T d (\<lambda>r. tr_row_id r = tr_row_id item) (\<lambda>_. item) of
                       None \<Rightarrow> None | Some (d1, n) \<Rightarrow> save_todos T d1 items))"

definition delete_session_todos :: "('d, todo_row) sql_table \<Rightarrow> 'd \<Rightarrow> string \<Rightarrow> 'd option" where
  "delete_session_todos T d session = sql_delete T d (\<lambda>r. tr_session_id r = session)"

definition delete_sessions_todos :: "('d, todo_row) sql_table \<Rightarrow> 'd \<Rightarrow> string list \<Rightarrow> 'd option" where
  "delete_sessions_todos T d sessions =
     (if sessions = [] then Some d else sql_delete T d (\<lambda>r. tr_session_id r \<in> set sessions))"

text \<open>
  The copies of \<^verbatim>\<open>CopySessionTodos\<close>: \<open>order\<close> counts the rows copied so far, \<open>counter\<close> the
  ids drawn.
\<close>

fun copy_todo_rows ::
  "int \<Rightarrow> string \<Rightarrow> bool \<Rightarrow> nat \<Rightarrow> int \<Rightarrow> todo_row list \<Rightarrow> todo_row list \<times> nat" where
  "copy_todo_rows now target open_only counter order [] = ([], counter)"
| "copy_todo_rows now target open_only counter order (row # rows) =
     (if open_only \<and> \<not> open_status (tr_row_status row)
      then copy_todo_rows now target open_only counter order rows
      else let item = row\<lparr>tr_row_id := new_todo_id now (Suc counter), tr_session_id := target,
                         tr_sort_order := order, tr_created_at := now, tr_updated_at := now,
                         tr_completed_at := (if closed_status (tr_row_status row)
                                             then tr_completed_at row else None)\<rparr>;
               (items, c) = copy_todo_rows now target open_only (Suc counter) (order + 1) rows
           in (item # items, c))"

definition copy_session_todos ::
  "('d, todo_row) sql_table \<Rightarrow> int \<Rightarrow> nat \<Rightarrow> 'd \<Rightarrow> string \<Rightarrow> string \<Rightarrow> bool
    \<Rightarrow> nat \<times> (svc_error + 'd \<times> nat)" where
  "copy_session_todos T now counter d source target open_only =
     (case list_todos T d source of
        None \<Rightarrow> (counter, Inl Db_Error)
      | Some rows \<Rightarrow>
          (let (copied, c) = copy_todo_rows now target open_only counter 0 rows
           in if copied = [] then (c, Inr (d, 0))
              else (case sql_insert T d copied of
                      None \<Rightarrow> (c, Inl Db_Error) | Some d1 \<Rightarrow> (c, Inr (d1, length copied)))))"

subsection \<open>The payload of \<^verbatim>\<open>todo.write\<close>\<close>

definition todo_max_items :: nat where "todo_max_items = 50"
definition todo_max_content_runes :: nat where "todo_max_content_runes = 2000"
definition todo_max_line_runes :: nat where "todo_max_line_runes = 200"
definition todo_context_limit :: nat where "todo_context_limit = 3000"

record todo_payload =
  pl_id :: string
  pl_client_key :: string
  pl_content :: string
  pl_status :: string
  pl_priority :: string
  pl_active_form :: string

definition valid_todo_status :: "string \<Rightarrow> bool" where
  "valid_todo_status st \<longleftrightarrow>
     st \<in> set [''pending'', ''in_progress'', ''completed'', ''cancelled'']"

definition payload_at :: "nat \<Rightarrow> string" where
  "payload_at i = ''todos['' @ nat_digits i @ '']''"

definition parse_todo_item :: "nat \<Rightarrow> go_value \<Rightarrow> string + todo_payload" where
  "parse_todo_item i item =
     (case item of
        GMap m \<Rightarrow>
          (let content = trim_space (string_arg m ''content'');
               status = to_lower (trim_space (string_arg m ''status''));
               priority = to_lower (trim_space (string_arg m ''priority''))
           in if content = [] then Inl (payload_at i @ ''.content is required'')
              else if rune_count content > todo_max_content_runes
              then Inl (payload_at i @ ''.content exceeds '' @ nat_digits todo_max_content_runes
                          @ '' characters'')
              else if status = [] then Inl (payload_at i @ ''.status is required'')
              else if \<not> valid_todo_status status
              then Inl (payload_at i @ ''.status must be pending|in_progress|completed|cancelled'')
              else Inr \<lparr>pl_id = trim_space (string_arg m ''id''),
                        pl_client_key = trim_space (string_arg m ''client_key''),
                        pl_content = content, pl_status = status,
                        pl_priority = (if priority \<in> set [''low'', ''medium'', ''high'']
                                       then priority else ''medium''),
                        pl_active_form = trim_space (string_arg m ''active_form'')\<rparr>)
      | _ \<Rightarrow> Inl (payload_at i @ '' must be an object''))"

fun parse_todo_items :: "nat \<Rightarrow> go_value list \<Rightarrow> string + todo_payload list" where
  "parse_todo_items i [] = Inr []"
| "parse_todo_items i (v # vs) =
     bind_result (parse_todo_item i v)
       (\<lambda>p. bind_result (parse_todo_items (Suc i) vs) (\<lambda>ps. Inr (p # ps)))"

text \<open>
  A value that is not a list goes through JSON once more: \<^verbatim>\<open>null\<close> becomes the empty list, any
  other decoded value is refused.
\<close>

definition parse_todo_payload :: "go_value \<Rightarrow> string + todo_payload list" where
  "parse_todo_payload raw =
     (case raw of
        GList vs \<Rightarrow> parse_todo_items 0 vs
      | GNil \<Rightarrow> parse_todo_items 0 []
      | _ \<Rightarrow> Inl ''todos must be an array'')"

record todo_params =
  tp_run_id :: string
  tp_session_id :: string
  tp_workspace_root :: string
  tp_tool_call_id :: string
  tp_tool_name :: string
  tp_arguments :: go_map

definition completed_for :: "string \<Rightarrow> int \<Rightarrow> int option" where
  "completed_for status now = (if closed_status status then Some now else None)"

definition new_todo_row ::
  "todo_params \<Rightarrow> int \<Rightarrow> string \<Rightarrow> string \<Rightarrow> nat \<Rightarrow> todo_payload \<Rightarrow> todo_row" where
  "new_todo_row params now ident client_key i item =
     \<lparr>tr_row_id = ident, tr_client_key = client_key, tr_session_id = tp_session_id params,
      tr_content = pl_content item, tr_row_status = pl_status item, tr_sort_order = int i,
      tr_priority = pl_priority item, tr_active_form = pl_active_form item,
      tr_source_run_id = tp_run_id params, tr_source_tool_call_id = tp_tool_call_id params,
      tr_created_at = now, tr_updated_at = now,
      tr_completed_at = completed_for (pl_status item) now\<rparr>"

subsection \<open>Replacing the list\<close>

definition assign_client_key :: "todo_payload \<Rightarrow> string list \<Rightarrow> string" where
  "assign_client_key item seen =
     (if pl_client_key item \<noteq> [] then (if pl_client_key item \<in> set seen then [] else pl_client_key item)
      else if pl_id item \<noteq> [] then (if pl_id item \<in> set seen then [] else pl_id item)
      else [])"

fun replace_loop ::
  "(nat \<Rightarrow> int) \<Rightarrow> todo_params \<Rightarrow> int \<Rightarrow> nat \<Rightarrow> nat \<Rightarrow> string list \<Rightarrow> todo_payload list
    \<Rightarrow> todo_row list \<times> nat" where
  "replace_loop clock params now counter i seen [] = ([], counter)"
| "replace_loop clock params now counter i seen (item # items) =
     (let key = assign_client_key item seen;
          row = new_todo_row params now (new_todo_id (clock (Suc counter)) (Suc counter)) key i item;
          (rows, c) = replace_loop clock params now (Suc counter) (Suc i)
                        (if key \<noteq> [] then key # seen else seen) items
      in (row # rows, c))"

definition build_todos_replace ::
  "(nat \<Rightarrow> int) \<Rightarrow> todo_params \<Rightarrow> int \<Rightarrow> nat \<Rightarrow> todo_payload list \<Rightarrow> todo_row list \<times> nat" where
  "build_todos_replace clock params now counter payload =
     replace_loop clock params now counter 0 [] payload"

subsection \<open>Merging into the list\<close>

record merge_state =
  mg_by_pk :: "string \<rightharpoonup> todo_row"
  mg_by_key :: "string \<rightharpoonup> string"
  mg_listed :: "todo_row list"
  mg_counter :: nat

definition init_merge :: "nat \<Rightarrow> todo_row list \<Rightarrow> merge_state" where
  "init_merge counter existing =
     \<lparr>mg_by_pk = foldl (\<lambda>m r. m(tr_row_id r \<mapsto> r)) Map.empty existing,
      mg_by_key = foldl (\<lambda>m r. if tr_client_key r \<noteq> [] then m(tr_client_key r \<mapsto> tr_row_id r) else m)
                    Map.empty existing,
      mg_listed = [], mg_counter = counter\<rparr>"

definition match_existing_pk :: "todo_payload \<Rightarrow> merge_state \<Rightarrow> string" where
  "match_existing_pk item st =
     (case (if pl_client_key item \<noteq> [] then mg_by_key st (pl_client_key item) else None) of
        Some pk \<Rightarrow> pk
      | None \<Rightarrow>
          (let ident = trim_space (pl_id item)
           in if ident = [] then []
              else case mg_by_key st ident of
                     Some pk \<Rightarrow> pk
                   | None \<Rightarrow> if mg_by_pk st ident \<noteq> None then ident else []))"

text \<open>A map read without a presence check gives the zero row.\<close>

definition zero_todo_row :: todo_row where
  "zero_todo_row =
     \<lparr>tr_row_id = [], tr_client_key = [], tr_session_id = [], tr_content = [], tr_row_status = [],
      tr_sort_order = 0, tr_priority = [], tr_active_form = [], tr_source_run_id = [],
      tr_source_tool_call_id = [], tr_created_at = 0, tr_updated_at = 0, tr_completed_at = None\<rparr>"

definition release_key :: "string \<Rightarrow> (string \<rightharpoonup> string) \<Rightarrow> (string \<rightharpoonup> string)" where
  "release_key key keys = (if key \<noteq> [] then keys(key := None) else keys)"

definition merge_update ::
  "todo_params \<Rightarrow> int \<Rightarrow> nat \<Rightarrow> todo_payload \<Rightarrow> string \<Rightarrow> merge_state \<Rightarrow> todo_row \<times> merge_state" where
  "merge_update params now i item pk st =
     (let old = (case mg_by_pk st pk of Some r \<Rightarrow> r | None \<Rightarrow> zero_todo_row);
          takes_key = (pl_client_key item \<noteq> [] \<and> pl_client_key item \<noteq> tr_client_key old
            \<and> (case mg_by_key st (pl_client_key item) of
                 None \<Rightarrow> True | Some other \<Rightarrow> other = tr_row_id old));
          keys = (if takes_key then release_key (tr_client_key old) (mg_by_key st)
                  else mg_by_key st);
          row = old\<lparr>tr_content := pl_content item, tr_row_status := pl_status item,
                   tr_priority := pl_priority item, tr_active_form := pl_active_form item,
                   tr_sort_order := int i, tr_source_run_id := tp_run_id params,
                   tr_source_tool_call_id := tp_tool_call_id params, tr_updated_at := now,
                   tr_client_key := (if takes_key then pl_client_key item else tr_client_key old),
                   tr_completed_at :=
                     (if closed_status (pl_status item)
                      then (case tr_completed_at old of None \<Rightarrow> Some now | Some t \<Rightarrow> Some t)
                      else None)\<rparr>
      in (row, st\<lparr>mg_by_key := keys\<rparr>))"

definition merge_insert ::
  "(nat \<Rightarrow> int) \<Rightarrow> todo_params \<Rightarrow> int \<Rightarrow> nat \<Rightarrow> todo_payload \<Rightarrow> merge_state \<Rightarrow> todo_row \<times> merge_state" where
  "merge_insert clock params now i item st =
     (let key = (if pl_client_key item \<noteq> []
                 then (if mg_by_key st (pl_client_key item) = None then pl_client_key item else [])
                 else if pl_id item \<noteq> []
                 then (if mg_by_key st (pl_id item) = None \<and> mg_by_pk st (pl_id item) = None
                       then pl_id item else [])
                 else []);
          c = Suc (mg_counter st)
      in (new_todo_row params now (new_todo_id (clock c) c) key i item, st\<lparr>mg_counter := c\<rparr>))"

definition merge_item ::
  "(nat \<Rightarrow> int) \<Rightarrow> todo_params \<Rightarrow> int \<Rightarrow> nat \<Rightarrow> todo_payload \<Rightarrow> merge_state \<Rightarrow> merge_state" where
  "merge_item clock params now i item st =
     (let pk = match_existing_pk item st;
          (row, st1) = (if pk \<noteq> [] then merge_update params now i item pk st
                        else merge_insert clock params now i item st)
      in st1\<lparr>mg_by_pk := (mg_by_pk st1)(tr_row_id row \<mapsto> row),
             mg_by_key := (if tr_client_key row \<noteq> []
                           then (mg_by_key st1)(tr_client_key row \<mapsto> tr_row_id row)
                           else mg_by_key st1),
             mg_listed := mg_listed st1 @ [row]\<rparr>)"

fun merge_loop ::
  "(nat \<Rightarrow> int) \<Rightarrow> todo_params \<Rightarrow> int \<Rightarrow> nat \<Rightarrow> todo_payload list \<Rightarrow> merge_state \<Rightarrow> merge_state" where
  "merge_loop clock params now i [] st = st"
| "merge_loop clock params now i (item # items) st =
     merge_loop clock params now (Suc i) items (merge_item clock params now i item st)"

text \<open>The rows that are not listed keep their place after the listed ones.\<close>

definition renumber_kept :: "int \<Rightarrow> nat \<Rightarrow> todo_row list \<Rightarrow> todo_row list" where
  "renumber_kept now base kept =
     map (\<lambda>(i, r). r\<lparr>tr_sort_order := int (base + i), tr_updated_at := now\<rparr>) (enumerate 0 kept)"

definition kept_rows :: "merge_state \<Rightarrow> todo_row list \<Rightarrow> todo_row list" where
  "kept_rows st existing =
     sort_key (\<lambda>r. (tr_sort_order r, tr_created_at r))
       (map (\<lambda>r. case mg_by_pk st (tr_row_id r) of Some cur \<Rightarrow> cur | None \<Rightarrow> r)
          (filter (\<lambda>r. tr_row_id r \<notin> tr_row_id ` set (mg_listed st)) existing))"

definition build_todos_merge ::
  "(nat \<Rightarrow> int) \<Rightarrow> todo_params \<Rightarrow> int \<Rightarrow> nat \<Rightarrow> todo_row list \<Rightarrow> todo_payload list
    \<Rightarrow> todo_row list \<times> nat" where
  "build_todos_merge clock params now counter existing payload =
     (let st = merge_loop clock params now 0 payload (init_merge counter existing)
      in (mg_listed st @ renumber_kept now (length (mg_listed st)) (kept_rows st existing),
          mg_counter st))"

subsection \<open>One item in progress\<close>

definition in_progress :: "todo_row \<Rightarrow> bool" where
  "in_progress r \<longleftrightarrow> tr_row_status r = ''in_progress''"

fun last_index :: "('a \<Rightarrow> bool) \<Rightarrow> nat \<Rightarrow> nat option \<Rightarrow> 'a list \<Rightarrow> nat option" where
  "last_index P i best [] = best"
| "last_index P i best (x # xs) = last_index P (Suc i) (if P x then Some i else best) xs"

definition demote :: "int \<Rightarrow> todo_row \<Rightarrow> todo_row" where
  "demote now r = r\<lparr>tr_row_status := ''pending'', tr_completed_at := None, tr_updated_at := now\<rparr>"

definition normalize_single_in_progress :: "todo_row list \<Rightarrow> int \<Rightarrow> todo_row list \<times> nat" where
  "normalize_single_in_progress items now =
     (let last_idx = last_index in_progress 0 None items;
          count = length (filter in_progress items)
      in if count \<le> 1 then (items, 0)
         else (map (\<lambda>(i, r). if in_progress r \<and> Some i \<noteq> last_idx then demote now r else r)
                 (enumerate 0 items),
               length (filter (\<lambda>(i, r). in_progress r \<and> Some i \<noteq> last_idx) (enumerate 0 items))))"

subsection \<open>Results\<close>

record todo_dto =
  dto_id :: string
  dto_client_key :: string
  dto_content :: string
  dto_status :: string
  dto_sort_order :: int
  dto_priority :: string
  dto_active_form :: string

definition todo_item_dto :: "todo_row \<Rightarrow> todo_dto" where
  "todo_item_dto r =
     \<lparr>dto_id = tr_row_id r, dto_client_key = tr_client_key r, dto_content = tr_content r,
      dto_status = tr_row_status r, dto_sort_order = tr_sort_order r, dto_priority = tr_priority r,
      dto_active_form = tr_active_form r\<rparr>"

definition count_status :: "string \<Rightarrow> todo_dto list \<Rightarrow> nat" where
  "count_status st items = length (filter (\<lambda>d. dto_status d = st) items)"

definition count_open :: "todo_dto list \<Rightarrow> nat" where
  "count_open items = length (filter (\<lambda>d. open_status (dto_status d)) items)"

definition omit_empty :: "string \<Rightarrow> string \<Rightarrow> go_map" where
  "omit_empty k v = (if v = [] then [] else [(k, GStr v)])"

definition dto_value :: "todo_dto \<Rightarrow> go_value" where
  "dto_value d =
     GMap ([(''id'', GStr (dto_id d))] @ omit_empty ''client_key'' (dto_client_key d)
       @ [(''content'', GStr (dto_content d)), (''status'', GStr (dto_status d)),
          (''sort_order'', GInt (dto_sort_order d))]
       @ omit_empty ''priority'' (dto_priority d) @ omit_empty ''active_form'' (dto_active_form d))"

text \<open>The envelope \<^verbatim>\<open>runtimeTodoOutput\<close> marshals.\<close>

definition todo_output_text :: "string \<Rightarrow> todo_dto list \<Rightarrow> string" where
  "todo_output_text tool items =
     tool @ '': '' @ nat_digits (length items) @ '' items (in_progress=''
     @ nat_digits (count_status ''in_progress'' items) @ '' pending=''
     @ nat_digits (count_status ''pending'' items) @ '' completed=''
     @ nat_digits (count_status ''completed'' items) @ '' cancelled=''
     @ nat_digits (count_status ''cancelled'' items) @ '')''
     @ (if items \<noteq> [] \<and> length items \<le> 12
        then [CHR 0x0A] @ join_with [CHR 0x0A]
          (map (\<lambda>d. ''client_key='' @ (if dto_client_key d = [] then ''-'' else dto_client_key d)
                    @ '' id='' @ dto_id d @ '' status='' @ dto_status d) items)
        else [])"

definition runtime_todo_output :: "string \<Rightarrow> todo_dto list \<Rightarrow> nat \<Rightarrow> go_map \<Rightarrow> go_value" where
  "runtime_todo_output tool items open_count data =
     GMap [(''schema'', GStr ''red_panda.tool_result.v1''), (''tool'', GStr tool),
           (''status'', GStr ''completed''), (''ok'', GBool True),
           (''text'', GStr (todo_output_text tool items)),
           (''data'', GMap (data @ [(''items'', GList (map dto_value items)),
                                    (''open_count'', GInt (int open_count))])),
           (''meta'', GMap [])]"

record todo_result =
  tt_status :: string
  tt_output :: go_value
  tt_items :: "todo_dto list"
  tt_open_count :: nat

definition todo_result_of :: "string \<Rightarrow> todo_row list \<Rightarrow> go_map \<Rightarrow> todo_result" where
  "todo_result_of tool rows data =
     (let items = map todo_item_dto rows
      in \<lparr>tt_status = ''completed'',
          tt_output = runtime_todo_output tool items (count_open items) data,
          tt_items = items, tt_open_count = count_open items\<rparr>)"

subsection \<open>The tools\<close>

definition merge_flag :: "go_map \<Rightarrow> bool" where
  "merge_flag args =
     (case map_of args ''merge'' of
        Some (GBool b) \<Rightarrow> b
      | Some (GStr t) \<Rightarrow> equal_fold_ascii (trim_space t) ''true'' \<or> trim_space t = []
      | _ \<Rightarrow> True)"

text \<open>The rows of a write, before the limit and the normalisation.\<close>

definition build_todos ::
  "('d, todo_row) sql_table \<Rightarrow> (nat \<Rightarrow> int) \<Rightarrow> int \<Rightarrow> nat \<Rightarrow> 'd \<Rightarrow> todo_params \<Rightarrow> todo_payload list
    \<Rightarrow> svc_error + todo_row list \<times> nat" where
  "build_todos T clock now counter d params payload =
     (if merge_flag (tp_arguments params)
      then bind_result (db_result (list_todos T d (tp_session_id params)))
             (\<lambda>existing. Inr (build_todos_merge clock params now counter existing payload))
      else Inr (build_todos_replace clock params now counter payload))"

definition write_notes :: "nat \<Rightarrow> string list" where
  "write_notes demoted =
     (if demoted > 0
      then [''demoted '' @ nat_digits demoted @ '' extra in_progress item(s) to pending''] else [])"

definition execute_write ::
  "('d, todo_row) sql_table \<Rightarrow> (nat \<Rightarrow> int) \<Rightarrow> int \<Rightarrow> nat \<Rightarrow> 'd \<Rightarrow> todo_params
    \<Rightarrow> svc_error + 'd \<times> nat \<times> todo_result" where
  "execute_write T clock now counter d params =
     (case map_of (tp_arguments params) ''todos'' of
        None \<Rightarrow> Inl (Svc_Error ''todos is required'')
      | Some raw \<Rightarrow>
          (case parse_todo_payload raw of
             Inl e \<Rightarrow> Inl (Svc_Error e)
           | Inr payload \<Rightarrow>
               bind_result (build_todos T clock now counter d params payload) (\<lambda>(rows, c).
                 if length rows > todo_max_items
                 then Inl (Svc_Error (''todo list exceeds max of '' @ nat_digits todo_max_items @ '' items''))
                 else let (final, demoted) = normalize_single_in_progress rows now
                      in bind_result (db_result (replace_session_todos T d (tp_session_id params) final))
                           (\<lambda>d'. Inr (d', c, todo_result_of ''todo.write'' final
                              (let items = map todo_item_dto final
                               in [(''action'', GStr ''write''),
                                   (''merge'', GBool (merge_flag (tp_arguments params))),
                                   (''completed_count'', GInt (int (count_status ''completed'' items))),
                                   (''cancelled_count'', GInt (int (count_status ''cancelled'' items))),
                                   (''notes'', GList (map GStr (write_notes demoted)))]))))))"

definition todo_status_matches :: "string \<Rightarrow> string \<Rightarrow> bool" where
  "todo_status_matches status filt \<longleftrightarrow>
     (if filt = ''all'' \<or> filt = [] then True
      else if filt = ''open'' then open_status status else status = filt)"

definition list_filter :: "go_map \<Rightarrow> string" where
  "list_filter args =
     (let f = to_lower (trim_space (string_arg args ''status'')) in if f = [] then ''all'' else f)"

definition list_limit :: "go_map \<Rightarrow> nat" where
  "list_limit args =
     (let l = int_arg args ''limit'' (int todo_max_items)
      in if l \<le> 0 \<or> l > int todo_max_items then todo_max_items else nat l)"

definition execute_list ::
  "('d, todo_row) sql_table \<Rightarrow> 'd \<Rightarrow> todo_params \<Rightarrow> svc_error + todo_result" where
  "execute_list T d params =
     bind_result (db_result (list_todos T d (tp_session_id params))) (\<lambda>rows.
       let filt = list_filter (tp_arguments params);
           kept = take (list_limit (tp_arguments params))
                    (filter (\<lambda>r. todo_status_matches (tr_row_status r) filt) rows)
       in Inr (todo_result_of ''todo.list'' kept
                 [(''action'', GStr ''list''), (''status'', GStr filt)]))"

text \<open>\<open>has_session\<close> is the lookup of the session table.\<close>

definition execute_todo_tool ::
  "('d, todo_row) sql_table \<Rightarrow> ('d \<Rightarrow> string \<Rightarrow> bool) \<Rightarrow> (nat \<Rightarrow> int) \<Rightarrow> int \<Rightarrow> nat \<Rightarrow> 'd \<Rightarrow> todo_params
    \<Rightarrow> svc_error + 'd \<times> nat \<times> todo_result" where
  "execute_todo_tool T has_session clock now counter d params =
     (let name = trim_space (tp_tool_name params)
      in if trim_space (tp_run_id params) = [] then Inl (Svc_Error ''run_id is required'')
         else if trim_space (tp_session_id params) = [] then Inl (Svc_Error ''session_id is required'')
         else if trim_space (tp_tool_call_id params) = []
         then Inl (Svc_Error ''tool_call_id is required'')
         else if \<not> has_session d (tp_session_id params) then Inl (Svc_Error ''session not found'')
         else if name = ''todo.write'' \<or> name = ''todo_write''
         then execute_write T clock now counter d params
         else if name = ''todo.list''
         then bind_result (execute_list T d params) (\<lambda>r. Inr (d, counter, r))
         else Inl (Svc_Error (''unsupported todo tool '' @ go_quote name)))"

subsection \<open>The context of a run\<close>

definition todo_status_rank :: "string \<Rightarrow> nat" where
  "todo_status_rank st =
     (if st = ''in_progress'' then 0 else if st = ''pending'' then 1
      else if st = ''completed'' then 2 else if st = ''cancelled'' then 3 else 9)"

definition format_todo_line :: "todo_row \<Rightarrow> string" where
  "format_todo_line row =
     (let key = (if tr_client_key row = [] then tr_row_id row else tr_client_key row);
          line = ''- ['' @ tr_row_status row @ ''] '' @ tr_content row @ '' ('' @ key @ '')''
      in if rune_count line > todo_max_line_runes
         then encode_runes (take (todo_max_line_runes - 1) (runes line)) @ ellipsis else line)"

definition todo_context_header :: string where
  "todo_context_header =
     ''Current session task list (update via todo.write when progress changes; keep one in_progress):''
     @ [CHR 0x0A]"

text \<open>The loop that fills the budget; it stops at the first line that does not fit.\<close>

fun fill_context :: "nat \<Rightarrow> todo_row list \<Rightarrow> todo_row list" where
  "fill_context used [] = []"
| "fill_context used (row # rows) =
     (let line = format_todo_line row
      in if used + length line + 1 > todo_context_limit then []
         else row # fill_context (used + length line + 1) rows)"

definition format_todo_context ::
  "('d, todo_row) sql_table \<Rightarrow> 'd \<Rightarrow> string \<Rightarrow> svc_error + (todo_dto list \<times> string) option" where
  "format_todo_context T d session =
     bind_result (db_result (list_todos T d (trim_space session))) (\<lambda>rows.
       let picked = fill_context (length todo_context_header)
                      (sort_key (\<lambda>r. todo_status_rank (tr_row_status r)) rows)
       in if rows = [] \<or> picked = [] then Inr None
          else Inr (Some (map todo_item_dto picked,
                 todo_context_header @ join_with [CHR 0x0A] (map format_todo_line picked))))"

text \<open>The list of the HTTP interface.\<close>

definition list_by_session ::
  "('d, todo_row) sql_table \<Rightarrow> ('d \<Rightarrow> string \<Rightarrow> bool) \<Rightarrow> 'd \<Rightarrow> string
    \<Rightarrow> svc_error + todo_row list \<times> nat" where
  "list_by_session T has_session d session =
     (let sid = trim_space session
      in if sid = [] then Inl (Svc_Error ''session id is required'')
         else if \<not> has_session d sid then Inl (Svc_Error ''session not found'')
         else bind_result (db_result (list_todos T d sid))
                (\<lambda>rows. Inr (rows, count_open (map todo_item_dto rows))))"

subsection \<open>Lemmas: one item in progress\<close>

lemma last_index_append:
  "last_index P i best (xs @ ys) = last_index P (i + length xs) (last_index P i best xs) ys"
  by (induction xs arbitrary: i best) auto

lemma last_index_none: "\<forall>x \<in> set xs. \<not> P x \<Longrightarrow> last_index P i best xs = best"
  by (induction xs arbitrary: i best) auto

lemma demote_status [simp]: "tr_row_status (demote now r) = ''pending''" "\<not> in_progress (demote now r)"
  by (simp_all add: demote_def in_progress_def)

lemma demote_keeps [simp]:
  "tr_row_id (demote now r) = tr_row_id r" "tr_client_key (demote now r) = tr_client_key r"
  "tr_session_id (demote now r) = tr_session_id r" "tr_content (demote now r) = tr_content r"
  "tr_sort_order (demote now r) = tr_sort_order r" "tr_created_at (demote now r) = tr_created_at r"
  "tr_completed_at (demote now r) = None"
  by (simp_all add: demote_def)

text \<open>The last item in progress stays, all earlier ones become pending.\<close>

definition settle :: "int \<Rightarrow> todo_row \<Rightarrow> todo_row" where
  "settle now r = (if in_progress r then demote now r else r)"

lemma normalize_none:
  "filter in_progress items = [] \<Longrightarrow> normalize_single_in_progress items now = (items, 0)"
  by (simp add: normalize_single_in_progress_def)

lemma normalize_split:
  assumes "in_progress x" and none: "\<forall>z \<in> set zs. \<not> in_progress z"
  shows "normalize_single_in_progress (ys @ x # zs) now =
    (map (settle now) ys @ x # zs, length (filter in_progress ys))"
proof (cases "filter in_progress ys = []")
  case True
  then have "map (settle now) ys = ys"
    by (intro map_idI) (auto simp: settle_def filter_empty_conv)
  moreover have "filter in_progress zs = []" using none by (simp add: filter_empty_conv)
  ultimately show ?thesis
    using True assms(1) by (simp add: normalize_single_in_progress_def)
next
  case False
  let ?m = "length ys"
  have last: "last_index in_progress 0 None (ys @ x # zs) = Some ?m"
    using assms by (simp add: last_index_append last_index_none)
  have ys: "map (\<lambda>(i, r). if in_progress r \<and> i \<noteq> ?m then demote now r else r)
      (enumerate 0 ys) = map (settle now) ys"
    by (rule nth_equalityI) (auto simp: nth_enumerate_eq settle_def)
  have zs: "map (\<lambda>(i, r). if in_progress r \<and> i \<noteq> ?m then demote now r else r)
      (enumerate (Suc ?m) zs) = zs"
    using none by (intro nth_equalityI) (auto simp: nth_enumerate_eq)
  have fys: "filter (\<lambda>(i, r). in_progress r \<and> i \<noteq> ?m) (enumerate 0 ys)
      = filter (\<lambda>(i, r). in_progress r) (enumerate 0 ys)"
    by (rule filter_cong) (auto simp: in_set_enumerate_eq)
  have len: "length (filter (\<lambda>(i, r). in_progress r) (enumerate k rs)) = length (filter in_progress rs)"
    for k rs by (induction rs arbitrary: k) auto
  have fzs: "filter (\<lambda>(i, r). in_progress r \<and> i \<noteq> ?m) (enumerate (Suc ?m) zs) = []"
    using none by (auto simp: filter_empty_conv in_set_enumerate_eq)
  show ?thesis
    using False assms(1)
    unfolding normalize_single_in_progress_def last
    by (simp add: Let_def enumerate_append_eq ys zs fys fzs len)
qed

lemma normalize_cases:
  obtains (none) "filter in_progress items = []" "normalize_single_in_progress items now = (items, 0)"
  | (some) ys x zs where "items = ys @ x # zs" "in_progress x" "\<forall>z \<in> set zs. \<not> in_progress z"
      "normalize_single_in_progress items now =
        (map (settle now) ys @ x # zs, length (filter in_progress ys))"
proof (cases "\<exists>x \<in> set items. in_progress x")
  case True
  then obtain ys x zs where "items = ys @ x # zs" "in_progress x" "\<forall>z \<in> set zs. \<not> in_progress z"
    using split_list_last_prop [OF True] by blast
  with some normalize_split show ?thesis by blast
next
  case False
  then show ?thesis using none normalize_none by (simp add: filter_empty_conv)
qed

lemma normalize_facts:
  assumes "normalize_single_in_progress items now = (final, n)"
  shows "length (filter in_progress final) \<le> 1"
    and "n = length (filter in_progress items) - 1"
    and "list_all2 (\<lambda>r f. f = r \<or> f = demote now r \<and> in_progress r) items final"
proof (atomize (full), cases rule: normalize_cases [of items now])
  case none
  with assms show "length (filter in_progress final) \<le> 1 \<and> n = length (filter in_progress items) - 1
    \<and> list_all2 (\<lambda>r f. f = r \<or> f = demote now r \<and> in_progress r) items final"
    by (auto intro: list.rel_refl)
next
  case (some ys x zs)
  then have "final = map (settle now) ys @ x # zs" "n = length (filter in_progress ys)"
    using assms by auto
  moreover have "filter in_progress (map (settle now) ys) = []"
    by (auto simp: filter_empty_conv settle_def)
  moreover have "filter in_progress zs = []" using some(3) by (simp add: filter_empty_conv)
  moreover have "list_all2 (\<lambda>r f. f = r \<or> f = demote now r \<and> in_progress r) ys (map (settle now) ys)"
    by (simp add: list_all2_conv_all_nth settle_def)
  ultimately show "length (filter in_progress final) \<le> 1 \<and> n = length (filter in_progress items) - 1
    \<and> list_all2 (\<lambda>r f. f = r \<or> f = demote now r \<and> in_progress r) items final"
    using some(1,2) by (auto intro!: list_all2_appendI intro: list.rel_refl)
qed

subsection \<open>Lemmas: building the list\<close>

text \<open>What a listed row takes from its payload item.\<close>

definition row_of_item :: "todo_params \<Rightarrow> int \<Rightarrow> todo_payload \<Rightarrow> todo_row \<Rightarrow> bool" where
  "row_of_item params now item r \<longleftrightarrow>
     tr_content r = pl_content item \<and> tr_row_status r = pl_status item
     \<and> tr_priority r = pl_priority item \<and> tr_active_form r = pl_active_form item
     \<and> tr_session_id r = tp_session_id params \<and> tr_source_run_id r = tp_run_id params
     \<and> tr_source_tool_call_id r = tp_tool_call_id params \<and> tr_updated_at r = now
     \<and> (tr_completed_at r = None \<longleftrightarrow> \<not> closed_status (pl_status item))"

lemma new_todo_row_item: "row_of_item params now item (new_todo_row params now ident key i item)"
  by (simp add: row_of_item_def new_todo_row_def completed_for_def)

lemma new_todo_row_fields [simp]:
  "tr_sort_order (new_todo_row params now ident key i item) = int i"
  "tr_row_id (new_todo_row params now ident key i item) = ident"
  by (simp_all add: new_todo_row_def)

lemma upt_step: "[i ..< i + length (x # xs)] = i # [Suc i ..< Suc i + length xs]"
  by (simp add: upt_conv_Cons del: upt_Suc)

lemma replace_loop_rows:
  "replace_loop clock params now counter i seen payload = (rows, c) \<Longrightarrow>
    list_all2 (row_of_item params now) payload rows
    \<and> map tr_sort_order rows = map int [i ..< i + length payload]"
proof (induction clock params now counter i seen payload arbitrary: rows c rule: replace_loop.induct)
  case (2 clock params now counter i seen item items)
  let ?key = "assign_client_key item seen"
  obtain rs c' where rest: "replace_loop clock params now (Suc counter) (Suc i)
      (if ?key \<noteq> [] then ?key # seen else seen) items = (rs, c')" by (metis surj_pair)
  have "list_all2 (row_of_item params now) items rs
      \<and> map tr_sort_order rs = map int [Suc i ..< Suc i + length items]"
    by (rule "2.IH" [OF refl _ rest]) simp
  moreover have "rows = new_todo_row params now (new_todo_id (clock (Suc counter)) (Suc counter)) ?key i item # rs"
    using "2.prems" rest by (simp add: Let_def)
  ultimately show ?case
    unfolding upt_step by (simp add: new_todo_row_item del: upt_Suc)
qed simp

definition merge_inv :: "string \<Rightarrow> (string \<rightharpoonup> todo_row) \<Rightarrow> merge_state \<Rightarrow> bool" where
  "merge_inv session start st \<longleftrightarrow>
     (\<forall>pk r. mg_by_pk st pk = Some r \<longrightarrow> tr_row_id r = pk \<and> tr_session_id r = session)
     \<and> ran (mg_by_key st) \<subseteq> dom (mg_by_pk st)
     \<and> (\<forall>pk. pk \<notin> tr_row_id ` set (mg_listed st) \<longrightarrow> mg_by_pk st pk = start pk)"

lemma match_existing_known:
  assumes inv: "merge_inv session start st" and found: "match_existing_pk item st \<noteq> []"
  shows "\<exists>r. mg_by_pk st (match_existing_pk item st) = Some r"
proof -
  have known: "\<exists>r. mg_by_pk st pk = Some r" if "mg_by_key st k = Some pk" for k pk
    using inv that unfolding merge_inv_def ran_def dom_def by blast
  from found show ?thesis
    unfolding match_existing_pk_def Let_def
    by (auto split: option.split if_split_asm dest: known)
qed

lemma ran_upd: "ran (m(k \<mapsto> v)) \<subseteq> insert v (ran m)"
  by (auto simp: ran_def)

lemma ran_del: "ran (m(k := None)) \<subseteq> ran m"
  by (auto simp: ran_def split: if_splits)

lemma ran_release_key: "ran (release_key k m) \<subseteq> ran m"
  using ran_del [of m k] by (simp add: release_key_def)

lemma merge_update_facts:
  assumes "mg_by_pk st pk = Some old" and "tr_session_id old = tp_session_id params"
    and "merge_update params now i item pk st = (row, st1)"
  shows "row_of_item params now item row \<and> tr_sort_order row = int i
    \<and> mg_by_pk st1 = mg_by_pk st \<and> ran (mg_by_key st1) \<subseteq> ran (mg_by_key st)
    \<and> mg_listed st1 = mg_listed st"
proof (intro conjI)
  show "row_of_item params now item row"
    using assms by (auto simp: merge_update_def Let_def row_of_item_def split: option.splits)
  show "ran (mg_by_key st1) \<subseteq> ran (mg_by_key st)"
    using assms ran_release_key [of "tr_client_key old" "mg_by_key st"]
    by (auto simp: merge_update_def Let_def split: if_splits)
qed (use assms in \<open>auto simp: merge_update_def Let_def\<close>)

lemma merge_item_step:
  assumes inv: "merge_inv (tp_session_id params) start st"
  shows "\<exists>row. mg_listed (merge_item clock params now i item st) = mg_listed st @ [row]
      \<and> row_of_item params now item row \<and> tr_sort_order row = int i"
    and "merge_inv (tp_session_id params) start (merge_item clock params now i item st)"
proof -
  define pk where "pk = match_existing_pk item st"
  obtain row st1 where r: "(if pk \<noteq> [] then merge_update params now i item pk st
      else merge_insert clock params now i item st) = (row, st1)" by (metis surj_pair)
  have facts: "row_of_item params now item row \<and> tr_sort_order row = int i
      \<and> mg_by_pk st1 = mg_by_pk st \<and> ran (mg_by_key st1) \<subseteq> ran (mg_by_key st)
      \<and> mg_listed st1 = mg_listed st"
  proof (cases "pk = []")
    case True
    with r show ?thesis
      by (auto simp: merge_insert_def Let_def new_todo_row_item)
  next
    case False
    with inv obtain old where old: "mg_by_pk st pk = Some old"
      using match_existing_known pk_def by blast
    with inv have "tr_session_id old = tp_session_id params" by (simp add: merge_inv_def)
    with False old r merge_update_facts [of st pk old params now i item row st1] show ?thesis by simp
  qed
  have step: "merge_item clock params now i item st =
      st1\<lparr>mg_by_pk := (mg_by_pk st1)(tr_row_id row \<mapsto> row),
          mg_by_key := (if tr_client_key row \<noteq> []
                        then (mg_by_key st1)(tr_client_key row \<mapsto> tr_row_id row) else mg_by_key st1),
          mg_listed := mg_listed st1 @ [row]\<rparr>"
    using r unfolding merge_item_def Let_def pk_def [symmetric] by simp
  from step facts show "\<exists>row. mg_listed (merge_item clock params now i item st) = mg_listed st @ [row]
      \<and> row_of_item params now item row \<and> tr_sort_order row = int i"
    by auto
  let ?st2 = "merge_item clock params now i item st"
  have pk2: "mg_by_pk ?st2 = (mg_by_pk st)(tr_row_id row \<mapsto> row)"
    and l2: "mg_listed ?st2 = mg_listed st @ [row]" using facts by (simp_all add: step)
  have "ran (mg_by_key ?st2) \<subseteq> insert (tr_row_id row) (ran (mg_by_key st))"
  proof -
    have "mg_by_key ?st2 = (if tr_client_key row \<noteq> []
        then (mg_by_key st1)(tr_client_key row \<mapsto> tr_row_id row) else mg_by_key st1)"
      by (simp add: step)
    then have "ran (mg_by_key ?st2) \<subseteq> insert (tr_row_id row) (ran (mg_by_key st1))"
      using ran_upd [of "mg_by_key st1" "tr_client_key row" "tr_row_id row"] by auto
    with facts show ?thesis by blast
  qed
  moreover have "ran (mg_by_key st) \<subseteq> dom (mg_by_pk st)" using inv by (simp add: merge_inv_def)
  ultimately have "ran (mg_by_key ?st2) \<subseteq> dom (mg_by_pk ?st2)" by (auto simp: pk2)
  moreover have "tr_row_id r = pk \<and> tr_session_id r = tp_session_id params"
    if "mg_by_pk ?st2 pk = Some r" for pk r
  proof (cases "pk = tr_row_id row")
    case True
    with that have "r = row" by (simp add: pk2)
    with True facts show ?thesis by (simp add: row_of_item_def)
  next
    case False
    with that have "mg_by_pk st pk = Some r" by (simp add: pk2)
    with inv show ?thesis unfolding merge_inv_def by blast
  qed
  moreover have "mg_by_pk ?st2 pk = start pk" if "pk \<notin> tr_row_id ` set (mg_listed ?st2)" for pk
  proof -
    have "pk \<noteq> tr_row_id row" "pk \<notin> tr_row_id ` set (mg_listed st)" using that by (auto simp: l2)
    moreover from this(2) have "mg_by_pk st pk = start pk" using inv unfolding merge_inv_def by blast
    ultimately show ?thesis by (simp add: pk2)
  qed
  ultimately show "merge_inv (tp_session_id params) start ?st2" unfolding merge_inv_def by blast
qed

lemma merge_loop_rows:
  assumes "merge_inv (tp_session_id params) start st"
  shows "\<exists>rows. mg_listed (merge_loop clock params now i payload st) = mg_listed st @ rows
      \<and> list_all2 (row_of_item params now) payload rows
      \<and> map tr_sort_order rows = map int [i ..< i + length payload]
      \<and> merge_inv (tp_session_id params) start (merge_loop clock params now i payload st)"
  using assms
proof (induction payload arbitrary: i st)
  case (Cons item items)
  obtain row where row: "mg_listed (merge_item clock params now i item st) = mg_listed st @ [row]"
    "row_of_item params now item row" "tr_sort_order row = int i"
    using merge_item_step(1) [OF Cons.prems] by blast
  obtain rows where rows: "mg_listed (merge_loop clock params now (Suc i) items
        (merge_item clock params now i item st)) = mg_listed (merge_item clock params now i item st) @ rows"
      "list_all2 (row_of_item params now) items rows"
      "map tr_sort_order rows = map int [Suc i ..< Suc i + length items]"
      "merge_inv (tp_session_id params) start (merge_loop clock params now (Suc i) items
        (merge_item clock params now i item st))"
    using Cons.IH [OF merge_item_step(2) [OF Cons.prems]] by blast
  with row show ?case
    unfolding upt_step by (intro exI [of _ "row # rows"]) (simp del: upt_Suc)
qed simp

lemma foldl_pk:
  "foldl (\<lambda>m r. m(tr_row_id r \<mapsto> r)) m0 rs pk = Some r \<Longrightarrow>
    r \<in> set rs \<and> tr_row_id r = pk \<or> m0 pk = Some r"
  by (induction rs arbitrary: m0) (fastforce split: if_splits)+

lemma foldl_pk_other:
  "pk \<notin> tr_row_id ` set rs \<Longrightarrow> foldl (\<lambda>m r. m(tr_row_id r \<mapsto> r)) m0 rs pk = m0 pk"
  by (induction rs arbitrary: m0) auto

lemma foldl_pk_mem:
  "distinct (map tr_row_id rs) \<Longrightarrow> r \<in> set rs \<Longrightarrow>
    foldl (\<lambda>m r. m(tr_row_id r \<mapsto> r)) m0 rs (tr_row_id r) = Some r"
  by (induction rs arbitrary: m0) (auto simp: foldl_pk_other)

lemma foldl_key:
  "ran (foldl (\<lambda>m r. if tr_client_key r \<noteq> [] then m(tr_client_key r \<mapsto> tr_row_id r) else m) m0 rs)
    \<subseteq> ran m0 \<union> tr_row_id ` set rs"
proof (induction rs arbitrary: m0)
  case (Cons r rs)
  show ?case
    using Cons [of "if tr_client_key r \<noteq> [] then m0(tr_client_key r \<mapsto> tr_row_id r) else m0"]
      ran_upd [of m0 "tr_client_key r" "tr_row_id r"] by (auto split: if_splits)
qed simp

lemma init_merge_facts:
  assumes "distinct (map tr_row_id existing)" and "\<forall>r \<in> set existing. tr_session_id r = session"
  shows "merge_inv session (mg_by_pk (init_merge counter existing)) (init_merge counter existing)"
    and "r \<in> set existing \<Longrightarrow> mg_by_pk (init_merge counter existing) (tr_row_id r) = Some r"
proof -
  show found: "mg_by_pk (init_merge counter existing) (tr_row_id r) = Some r" if "r \<in> set existing" for r
    using foldl_pk_mem [OF assms(1) that] by (simp add: init_merge_def)
  have "ran (mg_by_key (init_merge counter existing)) \<subseteq> tr_row_id ` set existing"
    using foldl_key [of Map.empty existing] by (simp add: init_merge_def)
  also have "\<dots> \<subseteq> dom (mg_by_pk (init_merge counter existing))" using found by auto
  finally show "merge_inv session (mg_by_pk (init_merge counter existing)) (init_merge counter existing)"
    using assms(2) by (auto simp: merge_inv_def init_merge_def dest: foldl_pk)
qed

definition todo_row_ok :: "string \<Rightarrow> todo_row \<Rightarrow> bool" where
  "todo_row_ok session r \<longleftrightarrow>
     tr_session_id r = session \<and> valid_todo_status (tr_row_status r)
     \<and> (tr_completed_at r = None \<longleftrightarrow> \<not> closed_status (tr_row_status r))"

lemma row_of_item_ok:
  "row_of_item params now item r \<Longrightarrow> valid_todo_status (pl_status item) \<Longrightarrow>
    todo_row_ok (tp_session_id params) r"
  by (simp add: row_of_item_def todo_row_ok_def)

lemma rows_of_items_ok:
  "list_all2 (row_of_item params now) payload rows \<Longrightarrow> \<forall>p \<in> set payload. valid_todo_status (pl_status p) \<Longrightarrow>
    \<forall>r \<in> set rows. todo_row_ok (tp_session_id params) r"
  by (induction rule: list_all2_induct) (auto intro: row_of_item_ok)

lemma demote_ok: "todo_row_ok session r \<Longrightarrow> todo_row_ok session (demote now r)"
  by (simp add: todo_row_ok_def valid_todo_status_def closed_status_def)

lemma length_renumber [simp]: "length (renumber_kept now base kept) = length kept"
  by (simp add: renumber_kept_def)

lemma renumber_nth:
  "i < length kept \<Longrightarrow> renumber_kept now base kept ! i
    = (kept ! i)\<lparr>tr_sort_order := int (base + i), tr_updated_at := now\<rparr>"
  by (simp add: renumber_kept_def nth_enumerate_eq)

lemma renumber_orders: "map tr_sort_order (renumber_kept now base kept) = map int [base ..< base + length kept]"
  by (rule nth_equalityI) (simp_all add: renumber_nth)

lemma renumber_ok:
  "\<forall>r \<in> set kept. todo_row_ok session r \<Longrightarrow> \<forall>r \<in> set (renumber_kept now base kept). todo_row_ok session r"
proof -
  have keep: "todo_row_ok session (r\<lparr>tr_sort_order := i, tr_updated_at := now\<rparr>) = todo_row_ok session r"
    for r i by (simp add: todo_row_ok_def)
  assume "\<forall>r \<in> set kept. todo_row_ok session r"
  then show ?thesis by (simp add: set_conv_nth) (auto simp: renumber_nth keep)
qed

text \<open>The merge, with the unlisted rows as they were.\<close>

lemma merge_rows:
  assumes "build_todos_merge clock params now counter existing payload = (rows, c)"
    and "distinct (map tr_row_id existing)"
    and "\<forall>r \<in> set existing. tr_session_id r = tp_session_id params"
  shows "\<exists>listed kept. rows = listed @ renumber_kept now (length listed) kept
    \<and> list_all2 (row_of_item params now) payload listed
    \<and> map tr_sort_order listed = map int [0 ..< length payload]
    \<and> mset kept = mset (filter (\<lambda>r. tr_row_id r \<notin> tr_row_id ` set listed) existing)
    \<and> sorted (map (\<lambda>r. (tr_sort_order r, tr_created_at r)) kept)"
proof -
  let ?init = "init_merge counter existing"
  let ?st = "merge_loop clock params now 0 payload ?init"
  note init = init_merge_facts [OF assms(2,3), where counter = counter]
  have start: "mg_listed ?init = []" by (simp add: init_merge_def)
  obtain listed where listed: "mg_listed ?st = mg_listed ?init @ listed"
    "list_all2 (row_of_item params now) payload listed"
    "map tr_sort_order listed = map int [0 ..< 0 + length payload]"
    "merge_inv (tp_session_id params) (mg_by_pk ?init) ?st"
    using merge_loop_rows [OF init(1), of clock now 0 payload] by - (elim exE conjE, rule that)
  note listed = listed(1) [unfolded start append_Nil] listed(2) listed(3) [unfolded add_0] listed(4)
  let ?P = "\<lambda>r. tr_row_id r \<notin> tr_row_id ` set listed"
  have same: "map (\<lambda>r. case mg_by_pk ?st (tr_row_id r) of Some cur \<Rightarrow> cur | None \<Rightarrow> r) (filter ?P existing)
      = filter ?P existing"
  proof (rule map_idI)
    fix r assume r: "r \<in> set (filter ?P existing)"
    then have "tr_row_id r \<notin> tr_row_id ` set (mg_listed ?st)" using listed(1) by simp
    with listed(4) have "mg_by_pk ?st (tr_row_id r) = mg_by_pk ?init (tr_row_id r)"
      unfolding merge_inv_def by blast
    with r init(2) show "(case mg_by_pk ?st (tr_row_id r) of Some cur \<Rightarrow> cur | None \<Rightarrow> r) = r" by simp
  qed
  have "rows = listed @ renumber_kept now (length listed) (kept_rows ?st existing)"
    using assms(1) listed(1) by (simp add: build_todos_merge_def Let_def)
  moreover have "kept_rows ?st existing
      = sort_key (\<lambda>r. (tr_sort_order r, tr_created_at r)) (filter ?P existing)"
    using same listed(1) by (simp add: kept_rows_def)
  ultimately show ?thesis using listed(2,3) by (intro exI conjI) auto
qed

lemma merge_rows_ok:
  assumes "build_todos_merge clock params now counter existing payload = (rows, c)"
    and "distinct (map tr_row_id existing)"
    and "\<forall>r \<in> set existing. todo_row_ok (tp_session_id params) r"
    and "\<forall>p \<in> set payload. valid_todo_status (pl_status p)"
  shows "map tr_sort_order rows = map int [0 ..< length rows]
    \<and> (\<forall>r \<in> set rows. todo_row_ok (tp_session_id params) r)"
proof -
  obtain listed kept where m: "rows = listed @ renumber_kept now (length listed) kept"
    "list_all2 (row_of_item params now) payload listed"
    "map tr_sort_order listed = map int [0 ..< length payload]"
    "mset kept = mset (filter (\<lambda>r. tr_row_id r \<notin> tr_row_id ` set listed) existing)"
    using merge_rows [OF assms(1,2)] assms(3) by (auto simp: todo_row_ok_def)
  have "set kept \<subseteq> set existing" using arg_cong [OF m(4), of set_mset] by auto
  with assms(3) have "\<forall>r \<in> set kept. todo_row_ok (tp_session_id params) r" by blast
  from renumber_ok [OF this] rows_of_items_ok [OF m(2) assms(4)]
  have "\<forall>r \<in> set rows. todo_row_ok (tp_session_id params) r" using m(1) by auto
  moreover have "length listed = length payload" using m(2) by (simp add: list_all2_lengthD)
  then have "map tr_sort_order rows = map int [0 ..< length rows]"
    using m(1,3) upt_add_eq_append [of 0 "length listed" "length kept"] by (simp add: renumber_orders)
  ultimately show ?thesis by blast
qed

lemma parse_item_ok:
  "parse_todo_item i v = Inr p \<Longrightarrow>
    valid_todo_status (pl_status p) \<and> pl_content p \<noteq> [] \<and> rune_count (pl_content p) \<le> todo_max_content_runes
    \<and> pl_priority p \<in> {''low'', ''medium'', ''high''}"
  by (auto simp: parse_todo_item_def Let_def split: go_value.splits if_splits)

lemma parse_items_from:
  "parse_todo_items i vs = Inr ps \<Longrightarrow> p \<in> set ps \<Longrightarrow> \<exists>j v. parse_todo_item j v = Inr p"
  by (induction i vs arbitrary: ps rule: parse_todo_items.induct)
     (fastforce simp: bind_result_def split: sum.splits)+

lemma parse_payload_ok:
  assumes "parse_todo_payload raw = Inr ps" and "p \<in> set ps"
  shows "valid_todo_status (pl_status p) \<and> pl_content p \<noteq> []
      \<and> rune_count (pl_content p) \<le> todo_max_content_runes \<and> pl_priority p \<in> {''low'', ''medium'', ''high''}"
proof -
  have "\<exists>vs. parse_todo_items 0 vs = Inr ps"
    using assms(1) by (cases raw) (auto simp: parse_todo_payload_def intro: exI [of _ "[]"])
  then obtain vs where "parse_todo_items 0 vs = Inr ps" ..
  from parse_items_from [OF this assms(2)] show ?thesis using parse_item_ok by blast
qed

subsection \<open>Lemmas: a write as a whole\<close>

lemma execute_write_Inr:
  assumes "execute_write T clock now counter d params = Inr (d', c', res)"
  obtains raw payload built final n where
    "map_of (tp_arguments params) ''todos'' = Some raw" "parse_todo_payload raw = Inr payload"
    "build_todos T clock now counter d params payload = Inr (built, c')"
    "length built \<le> todo_max_items" "normalize_single_in_progress built now = (final, n)"
    "replace_session_todos T d (tp_session_id params) final = Some d'"
    "tt_items res = map todo_item_dto final"
  using assms
  by (auto simp: execute_write_def bind_result_def todo_result_of_def Let_def
      split: option.splits sum.splits prod.splits if_splits)

lemma replace_session_law:
  assumes laws: "sql_table_laws T rows tr_row_id" and "distinct (map tr_row_id (rows d))"
    and rep: "replace_session_todos T d session items = Some d'"
  shows "mset (rows d') = mset (filter (\<lambda>r. tr_session_id r \<noteq> session) (rows d)) + mset items"
    and "distinct (map tr_row_id (rows d'))"
proof -
  obtain d1 where del: "sql_delete T d (\<lambda>r. tr_session_id r = session) = Some d1"
    and ins: "if items = [] then d' = d1 else sql_insert T d1 items = Some d'"
    using rep by (auto simp: replace_session_todos_def split: option.splits if_splits)
  note m1 = sql_delete_law [OF laws del]
  show "mset (rows d') = mset (filter (\<lambda>r. tr_session_id r \<noteq> session) (rows d)) + mset items"
    using ins m1 sql_insert_law [OF laws] by (auto split: if_splits)
  show "distinct (map tr_row_id (rows d'))"
  proof (cases "items = []")
    case True
    with ins m1 have "mset (map tr_row_id (rows d'))
        = mset (map tr_row_id (filter (\<lambda>r. tr_session_id r \<noteq> session) (rows d)))" by simp
    moreover have "distinct (map tr_row_id (filter (\<lambda>r. tr_session_id r \<noteq> session) (rows d)))"
      using assms(2) by (rule distinct_map_filterI)
    ultimately show ?thesis by (metis mset_eq_imp_distinct_iff)
  next
    case False
    with ins sql_insert_law [OF laws] show ?thesis by auto
  qed
qed

lemma mset_map_filter_distinct:
  "mset xs = mset (filter P ys) \<Longrightarrow> distinct (map f ys) \<Longrightarrow> distinct (map f xs)"
  by (metis distinct_map_filterI mset_eq_imp_distinct_iff mset_map)

text \<open>What a write stores: the list it returns, in place of the session's old one.\<close>

lemma execute_write_stored:
  assumes laws: "sql_table_laws T rows tr_row_id" and dist: "distinct (map tr_row_id (rows d))"
    and ok: "\<forall>r \<in> set (rows d). tr_session_id r = tp_session_id params \<longrightarrow>
        todo_row_ok (tp_session_id params) r"
    and exec: "execute_write T clock now counter d params = Inr (d', c', res)"
  obtains final where "tt_items res = map todo_item_dto final"
    "mset (rows d') = mset (filter (\<lambda>r. tr_session_id r \<noteq> tp_session_id params) (rows d)) + mset final"
    "distinct (map tr_row_id (rows d'))" "length final \<le> todo_max_items"
    "map tr_sort_order final = map int [0 ..< length final]"
    "\<forall>r \<in> set final. todo_row_ok (tp_session_id params) r"
    "length (filter in_progress final) \<le> 1"
proof -
  let ?s = "tp_session_id params"
  obtain raw payload built final n where w: "parse_todo_payload raw = Inr payload"
    "build_todos T clock now counter d params payload = Inr (built, c')"
    "length built \<le> todo_max_items" "normalize_single_in_progress built now = (final, n)"
    "replace_session_todos T d ?s final = Some d'" "tt_items res = map todo_item_dto final"
    using execute_write_Inr [OF exec] by metis
  have valid: "\<forall>p \<in> set payload. valid_todo_status (pl_status p)"
    using parse_payload_ok [OF w(1)] by blast
  have built: "map tr_sort_order built = map int [0 ..< length built]
      \<and> (\<forall>r \<in> set built. todo_row_ok ?s r)"
  proof (cases "merge_flag (tp_arguments params)")
    case False
    with w(2) have "replace_loop clock params now counter 0 [] payload = (built, c')"
      by (simp add: build_todos_def build_todos_replace_def)
    from replace_loop_rows [OF this] rows_of_items_ok [OF _ valid] show ?thesis
      by (auto simp: list_all2_lengthD)
  next
    case True
    with w(2) obtain existing where sel: "list_todos T d ?s = Some existing"
      and m: "build_todos_merge clock params now counter existing payload = (built, c')"
      by (auto simp: build_todos_def bind_result_def db_result_def split: option.splits)
    from sql_select_law [OF laws sel [unfolded list_todos_def]]
    have e: "mset existing = mset (filter (\<lambda>r. tr_session_id r = ?s) (rows d))" by simp
    have "distinct (map tr_row_id existing)" by (rule mset_map_filter_distinct [OF e dist])
    moreover have "\<forall>r \<in> set existing. todo_row_ok ?s r"
      using arg_cong [OF e, of set_mset] ok by auto
    ultimately show ?thesis using merge_rows_ok [OF m _ _ valid] by blast
  qed
  note norm = normalize_facts [OF w(4)]
  have "length final = length built" using norm(3) by (simp add: list_all2_lengthD)
  moreover have "map tr_sort_order final = map tr_sort_order built"
    using norm(3) by (auto simp: list_all2_conv_all_nth intro!: nth_equalityI)
  moreover have "\<forall>r \<in> set final. todo_row_ok ?s r"
  proof
    fix r assume "r \<in> set final"
    then obtain i where "i < length final" "r = final ! i" by (auto simp: in_set_conv_nth)
    with norm(3) have "i < length built" "r = built ! i \<or> r = demote now (built ! i)"
      by (auto simp: list_all2_conv_all_nth)
    moreover from this(1) built have "todo_row_ok ?s (built ! i)" by (meson nth_mem)
    ultimately show "todo_row_ok ?s r" by (auto intro: demote_ok)
  qed
  ultimately show ?thesis
    using that [OF w(6) replace_session_law [OF laws dist w(5)]] w(3) built norm(1) by simp
qed

subsection \<open>Properties\<close>

text \<open>A write of one item into an empty table, for the witnesses.\<close>

definition witness_todo_params :: todo_params where
  "witness_todo_params =
     \<lparr>tp_run_id = ''r'', tp_session_id = ''s'', tp_workspace_root = [], tp_tool_call_id = ''c'',
      tp_tool_name = ''todo.write'',
      tp_arguments = [(''todos'', GList [GMap [(''content'', GStr ''a''), (''status'', GStr ''pending'')]])]\<rparr>"

definition witness_payload :: todo_payload where
  "witness_payload =
     \<lparr>pl_id = [], pl_client_key = [], pl_content = ''a'', pl_status = ''pending'',
      pl_priority = ''medium'', pl_active_form = []\<rparr>"

definition witness_row :: todo_row where
  "witness_row = new_todo_row witness_todo_params 0 (new_todo_id 0 1) [] 0 witness_payload"

lemma witness_parse:
  "parse_todo_payload (GList [GMap [(''content'', GStr ''a''), (''status'', GStr ''pending'')]])
    = Inr [witness_payload]"
proof -
  have a: "ascii_text ''a''" "ascii_text ''pending''" "ascii_text []"
    by (simp_all add: ascii_text_def byte_in_def)
  then have "trim_space ''a'' = ''a''" "trim_space ''pending'' = ''pending''" "trim_space [] = []"
    by (simp_all add: trim_space_tight ascii_space_def)
  moreover have "to_lower ''pending'' = ''pending''" "to_lower [] = []"
    using a by (simp_all add: to_lower_ascii lower_ascii_def byte_in_def)
  moreover have "rune_count ''a'' = 1" using a by (simp add: rune_count_def runes_ascii)
  ultimately show ?thesis
    by (simp add: parse_todo_payload_def parse_todo_item_def string_arg_def bind_result_def
        valid_todo_status_def todo_max_content_runes_def witness_payload_def)
qed

lemma witness_write:
  "\<exists>res. execute_write (mem_table tr_row_id) (\<lambda>_. 0) 0 0 [] witness_todo_params
    = Inr ([witness_row], 1, res)"
proof -
  have key: "pl_client_key witness_payload = []" "pl_id witness_payload = []"
    "pl_status witness_payload = ''pending''" by (simp_all add: witness_payload_def)
  have "trim_space [] = []" by (rule trim_space_tight) (simp_all add: ascii_text_def)
  then have "build_todos (mem_table tr_row_id) (\<lambda>_. 0) 0 0 [] witness_todo_params [witness_payload]
      = Inr ([witness_row], 1)"
    by (simp add: build_todos_def merge_flag_def witness_todo_params_def list_todos_def
        bind_result_def build_todos_merge_def init_merge_def merge_item_def match_existing_pk_def
        merge_insert_def key witness_row_def kept_rows_def renumber_kept_def new_todo_row_def)
  moreover have "normalize_single_in_progress [witness_row] 0 = ([witness_row], 0)"
    by (rule normalize_none) (simp add: in_progress_def witness_row_def new_todo_row_def key)
  ultimately show ?thesis
    using witness_parse
    by (simp add: execute_write_def bind_result_def todo_max_items_def replace_session_todos_def
        witness_todo_params_def)
qed



text \<open>
  What a write reports is what the next read returns: the list of the tool result equals,
  item by item and in order, what \<^verbatim>\<open>ListBySession\<close> reads back from the stored rows.
\<close>

theorem todo_read_your_write:
  assumes "sql_table_laws T rows tr_row_id" and "distinct (map tr_row_id (rows d))"
    and "\<forall>r \<in> set (rows d). tr_session_id r = tp_session_id params \<longrightarrow>
        todo_row_ok (tp_session_id params) r"
    and "execute_write T clock now counter d params = Inr (d', c', res)"
    and "list_todos T d' (tp_session_id params) = Some listed"
  shows "map todo_item_dto listed = tt_items res"
proof -
  let ?s = "tp_session_id params"
  obtain final where f: "tt_items res = map todo_item_dto final"
    "mset (rows d') = mset (filter (\<lambda>r. tr_session_id r \<noteq> ?s) (rows d)) + mset final"
    "map tr_sort_order final = map int [0 ..< length final]" "\<forall>r \<in> set final. todo_row_ok ?s r"
    using execute_write_stored [OF assms(1-4)] by metis
  have "filter (\<lambda>r. tr_session_id r = ?s) final = final"
    using f(4) by (simp add: filter_id_conv todo_row_ok_def)
  then have m: "mset (filter (\<lambda>r. tr_session_id r = ?s) (rows d')) = mset final"
    unfolding mset_filter f(2) by (simp flip: mset_filter)
  have order: "map tr_sort_order (map id final) = map int [0 ..< length final]" using f(3) by simp
  have inj: "inj_on tr_sort_order (set final)"
    using f(3) by (metis distinct_map distinct_upt inj_of_nat inj_on_subset subset_UNIV)
  then have "inj_on todo_order (set final)" by (auto simp: inj_on_def todo_order_def)
  moreover have "sorted (map todo_order final)"
  proof -
    have "tr_sort_order (final ! i) = int i" if "i < length final" for i
      using f(3) that by (metis length_map nth_map nth_upt add_0 diff_zero length_upt)
    then show ?thesis by (simp add: sorted_iff_nth_mono_less todo_order_def)
  qed
  moreover have "mset listed = mset final" "sorted (map todo_order listed)"
    using sql_select_law [OF assms(1) assms(5) [unfolded list_todos_def]] m by simp_all
  ultimately have "listed = final"
    by (metis mset_eq_setD sort_key_inj_key_eq)
  with f(1) show ?thesis by simp
qed

theorem todo_read_your_write_witness:
  "\<exists>res. execute_write (mem_table tr_row_id) (\<lambda>_. 0) 0 0 [] witness_todo_params
      = Inr ([witness_row], 1, res) \<and> tt_items res = [todo_item_dto witness_row]"
proof -
  obtain res where w: "execute_write (mem_table tr_row_id) (\<lambda>_. 0) 0 0 [] witness_todo_params
      = Inr ([witness_row], 1, res)" using witness_write by blast
  have "tr_session_id witness_row = ''s''" "tp_session_id witness_todo_params = ''s''"
    by (simp_all add: witness_row_def new_todo_row_def witness_todo_params_def)
  then have l: "list_todos (mem_table tr_row_id) [witness_row] (tp_session_id witness_todo_params)
      = Some [witness_row]" by (simp add: list_todos_def)
  from todo_read_your_write [OF mem_table_laws _ _ w l] w show ?thesis by simp
qed

definition without_position :: "todo_row \<Rightarrow> todo_row" where
  "without_position r = r\<lparr>tr_sort_order := 0, tr_updated_at := 0\<rparr>"



text \<open>
  Which item stays in progress is decided by position in the merged list, where the
  unlisted rows come last: an unlisted row still in progress demotes every item the caller has
  just listed as in progress.
\<close>

theorem kept_in_progress_wins:
  assumes "normalize_single_in_progress (listed @ kept) now = (final, n)"
    and "\<exists>r \<in> set kept. in_progress r"
  shows "take (length listed) final = map (settle now) listed
    \<and> filter in_progress (take (length listed) final) = []"
proof -
  obtain ys x zs where k: "kept = ys @ x # zs" "in_progress x" "\<forall>z \<in> set zs. \<not> in_progress z"
    using split_list_last_prop [OF assms(2)] by blast
  from normalize_split [OF k(2,3), of "listed @ ys" now] assms(1) k(1)
  have "final = map (settle now) (listed @ ys) @ x # zs" by simp
  then show ?thesis by (auto simp: filter_empty_conv settle_def)
qed

theorem kept_in_progress_wins_witness:
  "\<exists>final n. normalize_single_in_progress
      ([witness_row\<lparr>tr_row_status := ''in_progress''\<rparr>]
       @ [witness_row\<lparr>tr_row_id := ''old'', tr_row_status := ''in_progress''\<rparr>]) 0 = (final, n)
    \<and> tr_row_status (hd final) = ''pending''"
proof -
  let ?l = "[witness_row\<lparr>tr_row_status := ''in_progress''\<rparr>]"
  let ?k = "[witness_row\<lparr>tr_row_id := ''old'', tr_row_status := ''in_progress''\<rparr>]"
  obtain final n where f: "normalize_single_in_progress (?l @ ?k) 0 = (final, n)" by (metis surj_pair)
  have "\<exists>r \<in> set ?k. in_progress r" by (simp add: in_progress_def)
  from kept_in_progress_wins [OF f this] have "take 1 final = [demote 0 (hd ?l)]"
    by (simp add: settle_def in_progress_def)
  then have "hd final = demote 0 (hd ?l)" by (cases final) auto
  with f show ?thesis by (metis demote_status(1))
qed

definition todo_item_valid :: "go_value \<Rightarrow> bool" where
  "todo_item_valid v \<longleftrightarrow>
     (case v of
        GMap m \<Rightarrow>
          trim_space (string_arg m ''content'') \<noteq> []
          \<and> rune_count (trim_space (string_arg m ''content'')) \<le> 2000
          \<and> to_lower (trim_space (string_arg m ''status''))
            \<in> {''pending'', ''in_progress'', ''completed'', ''cancelled''}
      | _ \<Rightarrow> False)"

lemma parse_item_valid: "(\<exists>p. parse_todo_item i v = Inr p) \<longleftrightarrow> todo_item_valid v"
  by (cases v) (auto simp: parse_todo_item_def todo_item_valid_def Let_def valid_todo_status_def
      todo_max_content_runes_def)

lemma parse_items_valid: "(\<exists>ps. parse_todo_items i vs = Inr ps) \<longleftrightarrow> list_all todo_item_valid vs"
proof (induction vs arbitrary: i)
  case (Cons v vs)
  show ?case
  proof (cases "parse_todo_item i v")
    case (Inl e)
    then have "\<not> todo_item_valid v" using parse_item_valid [of i v] by simp
    with Inl show ?thesis by (simp add: bind_result_def)
  next
    case (Inr p)
    then have "todo_item_valid v" using parse_item_valid [of i v] by blast
    with Inr Cons [of "Suc i"] show ?thesis by (auto simp: bind_result_def split: sum.splits)
  qed
qed simp

lemma parse_items_length: "parse_todo_items i vs = Inr ps \<Longrightarrow> length ps = length vs"
  by (induction i vs arbitrary: ps rule: parse_todo_items.induct)
     (auto simp: bind_result_def split: sum.splits)

text \<open>
  The payload check is exact: a list of items is accepted if and only if every item is an
  object with a content of 1 to 2000 characters after trimming and one of the four statuses,
  and then each item is taken over in order.
\<close>

theorem todo_payload_exact:
  "(\<exists>ps. parse_todo_payload (GList vs) = Inr ps \<and> length ps = length vs) \<longleftrightarrow> list_all todo_item_valid vs"
  using parse_items_valid [of 0 vs] parse_items_length [of 0 vs]
  by (auto simp: parse_todo_payload_def)

lemma fill_context_fits:
  "used \<le> todo_context_limit \<Longrightarrow>
    used + length (concat (map (\<lambda>r. format_todo_line r @ [CHR 0x0A]) (fill_context used rows)))
      \<le> todo_context_limit"
  by (induction used rows rule: fill_context.induct) (auto simp: Let_def add.assoc)

lemma fill_context_prefix: "\<exists>n. fill_context used rows = take n rows"
proof (induction used rows rule: fill_context.induct)
  case (2 used row rows)
  show ?case
  proof (cases "used + length (format_todo_line row) + 1 > todo_context_limit")
    case True
    then show ?thesis by (intro exI [of _ 0]) (simp add: Let_def)
  next
    case False
    with 2 obtain n where "fill_context (used + length (format_todo_line row) + 1) rows = take n rows"
      by blast
    with False show ?thesis by (intro exI [of _ "Suc n"]) (simp add: Let_def)
  qed
qed simp

lemma join_lines_length:
  "xs \<noteq> [] \<Longrightarrow> Suc (length (join_with [c] xs)) = length (concat (map (\<lambda>x. x @ [c]) xs))"
  by (induction "[c]" xs rule: join_with.induct) auto

lemma sorted_take_key: "sorted (map f xs) \<Longrightarrow> sorted (map f (take n xs))"
  by (simp add: take_map [symmetric] sorted_wrt_take)

text \<open>
  The checklist injected into a run fits its budget: the text has at most 3000 bytes, it
  is never empty when there is a context, and items come in the order in progress, pending,
  completed, cancelled, so that closed items are the first to be cut.
\<close>

theorem todo_context_bounded:
  assumes "format_todo_context T d session = Inr (Some (items, text))"
  shows "length text \<le> 3000 \<and> items \<noteq> []
    \<and> sorted (map (\<lambda>i. todo_status_rank (dto_status i)) items)"
proof -
  obtain rows where rows: "list_todos T d (trim_space session) = Some rows"
    using assms by (auto simp: format_todo_context_def bind_result_def db_result_def split: option.splits)
  let ?sorted = "sort_key (\<lambda>r. todo_status_rank (tr_row_status r)) rows"
  define picked where "picked = fill_context (length todo_context_header) ?sorted"
  have p: "picked \<noteq> []" "items = map todo_item_dto picked"
    "text = todo_context_header @ join_with [CHR 0x0A] (map format_todo_line picked)"
    using assms rows
    by (auto simp: format_todo_context_def bind_result_def picked_def [symmetric] Let_def split: if_splits)
  have "length todo_context_header \<le> todo_context_limit"
    by (simp add: todo_context_header_def todo_context_limit_def)
  from fill_context_fits [OF this, of ?sorted] p(1,3)
    join_lines_length [of "map format_todo_line picked" "CHR 0x0A"]
  have "length text \<le> 3000" by (simp add: picked_def [symmetric] comp_def todo_context_limit_def)
  moreover obtain n where "picked = take n ?sorted"
    using fill_context_prefix picked_def by blast
  then have "sorted (map (\<lambda>r. todo_status_rank (tr_row_status r)) picked)"
    by (simp add: sorted_take_key)
  ultimately show ?thesis using p(1,2) by (simp add: comp_def todo_item_dto_def)
qed

theorem todo_context_bounded_witness:
  "\<exists>items text. format_todo_context (mem_table tr_row_id) [witness_row] ''s'' = Inr (Some (items, text))
    \<and> length text \<le> 3000"
proof -
  have "trim_space ''s'' = ''s''"
    by (rule trim_space_tight) (simp_all add: ascii_text_def byte_in_def ascii_space_def)
  moreover have "list_todos (mem_table tr_row_id) [witness_row] ''s'' = Some [witness_row]"
    by (simp add: list_todos_def witness_row_def new_todo_row_def witness_todo_params_def)
  moreover have "fill_context (length todo_context_header) [witness_row] = [witness_row]"
  proof -
    have "new_todo_id 0 1 = ''todo_0_1''" by code_simp
    then have row: "tr_row_status witness_row = ''pending''" "tr_content witness_row = ''a''"
        "tr_row_id witness_row = ''todo_0_1''" "tr_client_key witness_row = []"
      by (simp_all add: witness_row_def new_todo_row_def witness_payload_def)
    have "rune_count ''- [pending] a (todo_0_1)'' \<le> todo_max_line_runes"
      by (simp add: rune_count_def runes_ascii ascii_text_def byte_in_def todo_max_line_runes_def)
    with row have "format_todo_line witness_row = ''- [pending] a (todo_0_1)''"
      by (simp add: format_todo_line_def Let_def)
    then show ?thesis by (simp add: todo_context_header_def todo_context_limit_def)
  qed
  ultimately obtain items body where
    f: "format_todo_context (mem_table tr_row_id) [witness_row] ''s'' = Inr (Some (items, body))"
    by (simp add: format_todo_context_def bind_result_def Let_def)
  from todo_context_bounded [OF f] f show ?thesis by blast
qed

end
