(* ===== verification/Gateway_Db.thy ===== *)
theory Gateway_Db
  imports Todo_Service
begin

text \<open>
  The rows the Gateway stores (\<^verbatim>\<open>model/models.go\<close>), the event envelope of the protocol
  (\<^verbatim>\<open>events.go\<close>), and the tables of the database, with the laws that are assumed of them. A
  JSON column holds the value it encodes. Instants are nanoseconds of Unix time; the zero
  \<^verbatim>\<open>time.Time\<close> is \<open>zero_time\<close>.
\<close>

definition zero_time :: int where "zero_time = -62135596800000000000"

subsection \<open>Events\<close>

datatype event_type =
    Ev_Message_Delta | Ev_Message | Ev_Reasoning_Delta
  | Ev_Tool_Started | Ev_Tool_Output | Ev_Tool_Finished | Ev_Tool_Failed
  | Ev_Permission_Request | Ev_Sub_Agent_Update | Ev_Memory_Injected | Ev_Todo_Updated
  | Ev_Goal_Updated | Ev_Skills_Injected | Ev_Usage | Ev_Finish | Ev_Error
  | Ev_Other string

fun event_type_text :: "event_type \<Rightarrow> string" where
  "event_type_text Ev_Message_Delta = ''message_delta''"
| "event_type_text Ev_Message = ''message''"
| "event_type_text Ev_Reasoning_Delta = ''reasoning_delta''"
| "event_type_text Ev_Tool_Started = ''tool_started''"
| "event_type_text Ev_Tool_Output = ''tool_output''"
| "event_type_text Ev_Tool_Finished = ''tool_finished''"
| "event_type_text Ev_Tool_Failed = ''tool_failed''"
| "event_type_text Ev_Permission_Request = ''permission_required''"
| "event_type_text Ev_Sub_Agent_Update = ''subagent_update''"
| "event_type_text Ev_Memory_Injected = ''memory_injected''"
| "event_type_text Ev_Todo_Updated = ''todo_updated''"
| "event_type_text Ev_Goal_Updated = ''goal_updated''"
| "event_type_text Ev_Skills_Injected = ''skills_injected''"
| "event_type_text Ev_Usage = ''usage''"
| "event_type_text Ev_Finish = ''finish''"
| "event_type_text Ev_Error = ''error''"
| "event_type_text (Ev_Other s) = s"

datatype agent_role = Role_Root | Role_Sub_Agent | Role_Other string

fun agent_role_text :: "agent_role \<Rightarrow> string" where
  "agent_role_text Role_Root = ''root''"
| "agent_role_text Role_Sub_Agent = ''subagent''"
| "agent_role_text (Role_Other s) = s"

record agent_ref =
  ag_agent_id :: string
  ag_role :: agent_role
  ag_sub_agent_id :: string
  ag_parent_agent_id :: string
  ag_path :: "string list"
  ag_name :: string

record stream_ref =
  sm_stream_id :: string
  sm_kind :: string
  sm_seq :: nat
  sm_final :: bool

record envelope =
  ev_event_id :: string
  ev_root_run_id :: string
  ev_run_id :: string
  ev_parent_run_id :: string
  ev_session_id :: string
  ev_root_seq :: nat
  ev_agent_seq :: nat
  ev_agent :: agent_ref
  ev_stream :: "stream_ref option"
  ev_type :: event_type
  ev_payload :: go_map
  ev_created_at :: int

definition event_time :: "int \<Rightarrow> envelope \<Rightarrow> int" where
  "event_time now event = (if ev_created_at event = zero_time then now else ev_created_at event)"

definition string_payload :: "go_map \<Rightarrow> string \<Rightarrow> string" where
  "string_payload payload key = (case map_of payload key of Some (GStr s) \<Rightarrow> s | _ \<Rightarrow> [])"

definition any_payload :: "go_map \<Rightarrow> string \<Rightarrow> go_value" where
  "any_payload payload key = (case map_of payload key of Some v \<Rightarrow> v | None \<Rightarrow> GNil)"

definition int_payload :: "go_map \<Rightarrow> string \<Rightarrow> int" where
  "int_payload payload key =
     (case map_of payload key of Some (GInt i) \<Rightarrow> i | Some (GFloat x) \<Rightarrow> trunc_rat x | _ \<Rightarrow> 0)"

subsection \<open>Rows\<close>

record session_row =
  ss_id :: string
  ss_name :: string
  ss_workspace_root :: string
  ss_status :: string
  ss_parent_id :: string
  ss_kind :: string
  ss_source_session_id :: string
  ss_fork_point_seq :: nat
  ss_fork_point_run_id :: string
  ss_created_at :: int
  ss_updated_at :: int
  ss_deleted_at :: "int option"

record run_row =
  rr_id :: string
  rr_session_id :: string
  rr_workspace_root :: string
  rr_runtime_mode :: string
  rr_runtime_owner :: string
  rr_status :: string
  rr_input :: string
  rr_goal_id :: string
  rr_last_event_type :: string
  rr_last_root_seq :: nat
  rr_message_count :: int
  rr_tool_count :: int
  rr_error :: string
  rr_started_at :: int
  rr_finished_at :: "int option"
  rr_updated_at :: int

text \<open>The statuses of a goal; the column is a string, \<open>Other_Status\<close> is any other content.\<close>

datatype goal_status =
    Goal_Pending | Goal_Active | Goal_Paused | Goal_Succeeded | Goal_Failed | Goal_Cancelled
  | Other_Status string

fun goal_status_text :: "goal_status \<Rightarrow> string" where
  "goal_status_text Goal_Pending = ''pending''"
| "goal_status_text Goal_Active = ''active''"
| "goal_status_text Goal_Paused = ''paused''"
| "goal_status_text Goal_Succeeded = ''succeeded''"
| "goal_status_text Goal_Failed = ''failed''"
| "goal_status_text Goal_Cancelled = ''cancelled''"
| "goal_status_text (Other_Status s) = s"

record goal_row =
  gr_id :: string
  gr_session_id :: string
  gr_title :: string
  gr_objective :: string
  gr_success_criteria :: string
  gr_status :: goal_status
  gr_pipeline_phase :: string
  gr_pause_reason :: string
  gr_fail_reason :: string
  gr_analysis_summary :: string
  gr_checkpoint_summary :: string
  gr_progress_note :: string
  gr_report_json :: "go_value option"
  gr_report_markdown :: string
  gr_max_segments_per_run :: int
  gr_max_tool_turns_per_segment :: int
  gr_max_total_tool_turns :: int
  gr_max_wall_time_sec :: int
  gr_max_auto_continues :: int
  gr_used_tool_turns :: int
  gr_used_segments :: int
  gr_used_auto_continues :: int
  gr_used_wall_time_sec :: int
  gr_active_run_id :: string
  gr_last_run_id :: string
  gr_source_run_id :: string
  gr_source_tool_call_id :: string
  gr_started_at :: "int option"
  gr_finished_at :: "int option"
  gr_created_at :: int
  gr_updated_at :: int

record segment_row =
  sg_id :: string
  sg_goal_id :: string
  sg_run_id :: string
  sg_segment_index :: int
  sg_tool_turns :: int
  sg_created_at :: int

record event_row =
  er_id :: string
  er_root_run_id :: string
  er_root_seq :: nat
  er_type :: string
  er_payload_json :: envelope
  er_created_at :: int

record tool_call_row =
  tc_id :: string
  tc_root_run_id :: string
  tc_session_id :: string
  tc_agent_id :: string
  tc_agent_role :: string
  tc_tool_name :: string
  tc_display_name :: string
  tc_risk :: string
  tc_policy :: string
  tc_policy_reason :: string
  tc_arguments_json :: "go_value option"
  tc_status :: string
  tc_output :: string
  tc_error :: string
  tc_exit_code :: int
  tc_duration_ms :: int
  tc_started_seq :: nat
  tc_finished_seq :: nat
  tc_started_at :: int
  tc_finished_at :: "int option"
  tc_updated_at :: int

record permission_row =
  pr_id :: string
  pr_run_id :: string
  pr_session_id :: string
  pr_tool_call_id :: string
  pr_tool_name :: string
  pr_risk :: string
  pr_summary :: string
  pr_detail :: string
  pr_arguments_json :: go_value
  pr_status :: string
  pr_decision :: string
  pr_reason :: string
  pr_root_seq :: nat
  pr_created_at :: int
  pr_resolved_at :: "int option"
  pr_updated_at :: int

record content_block =
  cb_type :: string
  cb_text :: string

record message_row =
  mr_id :: string
  mr_session_id :: string
  mr_role :: string
  mr_content_json :: "content_block list"
  mr_seq :: nat
  mr_run_id :: string
  mr_source_message_id :: string
  mr_metadata_json :: string
  mr_created_at :: int

subsection \<open>Tables\<close>

record 'd gateway_db =
  db_runs :: "('d, run_row) sql_table"
  db_goals :: "('d, goal_row) sql_table"
  db_segments :: "('d, segment_row) sql_table"
  db_todos :: "('d, todo_row) sql_table"
  db_events :: "('d, event_row) sql_table"
  db_tool_calls :: "('d, tool_call_row) sql_table"
  db_permissions :: "('d, permission_row) sql_table"
  db_messages :: "('d, message_row) sql_table"
  db_sessions :: "('d, session_row) sql_table"

text \<open>The rows of each table in a state; this is also the database in memory.\<close>

record gateway_rows =
  row_runs :: "run_row list"
  row_goals :: "goal_row list"
  row_segments :: "segment_row list"
  row_todos :: "todo_row list"
  row_events :: "event_row list"
  row_tool_calls :: "tool_call_row list"
  row_permissions :: "permission_row list"
  row_messages :: "message_row list"
  row_sessions :: "session_row list"

text \<open>The partial unique index of \<^verbatim>\<open>goals\<close>: one active goal in a session.\<close>

definition one_active_goal :: "goal_row list \<Rightarrow> bool" where
  "one_active_goal rows \<longleftrightarrow> distinct (map gr_session_id (filter (\<lambda>r. gr_status r = Goal_Active) rows))"

text \<open>The unique indices of segments and of stored events, beside the primary key.\<close>

definition segment_conflict :: "segment_row \<Rightarrow> segment_row \<Rightarrow> bool" where
  "segment_conflict r x \<longleftrightarrow>
     sg_id x = sg_id r
     \<or> (sg_goal_id x = sg_goal_id r \<and> sg_run_id x = sg_run_id r
        \<and> sg_segment_index x = sg_segment_index r)"

definition event_conflict :: "event_row \<Rightarrow> event_row \<Rightarrow> bool" where
  "event_conflict r x \<longleftrightarrow>
     er_id x = er_id r \<or> (er_root_run_id x = er_root_run_id r \<and> er_root_seq x = er_root_seq r)"

definition gateway_db_laws :: "'d gateway_db \<Rightarrow> ('d \<Rightarrow> gateway_rows) \<Rightarrow> bool" where
  "gateway_db_laws D V \<longleftrightarrow>
     sql_table_laws (db_runs D) (\<lambda>d. row_runs (V d)) rr_id
     \<and> sql_conflict_laws (db_runs D) (\<lambda>d. row_runs (V d)) rr_id (\<lambda>r x. rr_id x = rr_id r)
     \<and> sql_frame (db_runs D) (\<lambda>d. (V d)\<lparr>row_runs := []\<rparr>)
     \<and> sql_table_laws (db_goals D) (\<lambda>d. row_goals (V d)) gr_id
     \<and> sql_constraint (db_goals D) (\<lambda>d. row_goals (V d)) one_active_goal
     \<and> sql_frame (db_goals D) (\<lambda>d. (V d)\<lparr>row_goals := []\<rparr>)
     \<and> sql_table_laws (db_segments D) (\<lambda>d. row_segments (V d)) sg_id
     \<and> sql_conflict_laws (db_segments D) (\<lambda>d. row_segments (V d)) sg_id segment_conflict
     \<and> sql_frame (db_segments D) (\<lambda>d. (V d)\<lparr>row_segments := []\<rparr>)
     \<and> sql_table_laws (db_todos D) (\<lambda>d. row_todos (V d)) tr_row_id
     \<and> sql_frame (db_todos D) (\<lambda>d. (V d)\<lparr>row_todos := []\<rparr>)
     \<and> sql_table_laws (db_events D) (\<lambda>d. row_events (V d)) er_id
     \<and> sql_conflict_laws (db_events D) (\<lambda>d. row_events (V d)) er_id event_conflict
     \<and> sql_frame (db_events D) (\<lambda>d. (V d)\<lparr>row_events := []\<rparr>)
     \<and> sql_table_laws (db_tool_calls D) (\<lambda>d. row_tool_calls (V d)) tc_id
     \<and> sql_conflict_laws (db_tool_calls D) (\<lambda>d. row_tool_calls (V d)) tc_id (\<lambda>r x. tc_id x = tc_id r)
     \<and> sql_frame (db_tool_calls D) (\<lambda>d. (V d)\<lparr>row_tool_calls := []\<rparr>)
     \<and> sql_table_laws (db_permissions D) (\<lambda>d. row_permissions (V d)) pr_id
     \<and> sql_conflict_laws (db_permissions D) (\<lambda>d. row_permissions (V d)) pr_id (\<lambda>r x. pr_id x = pr_id r)
     \<and> sql_frame (db_permissions D) (\<lambda>d. (V d)\<lparr>row_permissions := []\<rparr>)
     \<and> sql_table_laws (db_messages D) (\<lambda>d. row_messages (V d)) mr_id
     \<and> sql_conflict_laws (db_messages D) (\<lambda>d. row_messages (V d)) mr_id (\<lambda>r x. mr_id x = mr_id r)
     \<and> sql_frame (db_messages D) (\<lambda>d. (V d)\<lparr>row_messages := []\<rparr>)
     \<and> sql_table_laws (db_sessions D) (\<lambda>d. row_sessions (V d)) ss_id
     \<and> sql_frame (db_sessions D) (\<lambda>d. (V d)\<lparr>row_sessions := []\<rparr>)"

lemma gateway_db_lawsD:
  assumes "gateway_db_laws D V"
  shows "sql_table_laws (db_runs D) (\<lambda>d. row_runs (V d)) rr_id"
    "sql_table_laws (db_goals D) (\<lambda>d. row_goals (V d)) gr_id"
    "sql_table_laws (db_segments D) (\<lambda>d. row_segments (V d)) sg_id"
    "sql_table_laws (db_todos D) (\<lambda>d. row_todos (V d)) tr_row_id"
    "sql_table_laws (db_events D) (\<lambda>d. row_events (V d)) er_id"
    "sql_table_laws (db_tool_calls D) (\<lambda>d. row_tool_calls (V d)) tc_id"
    "sql_table_laws (db_permissions D) (\<lambda>d. row_permissions (V d)) pr_id"
    "sql_table_laws (db_messages D) (\<lambda>d. row_messages (V d)) mr_id"
    "sql_conflict_laws (db_runs D) (\<lambda>d. row_runs (V d)) rr_id (\<lambda>r x. rr_id x = rr_id r)"
    "sql_conflict_laws (db_segments D) (\<lambda>d. row_segments (V d)) sg_id segment_conflict"
    "sql_conflict_laws (db_events D) (\<lambda>d. row_events (V d)) er_id event_conflict"
    "sql_conflict_laws (db_tool_calls D) (\<lambda>d. row_tool_calls (V d)) tc_id (\<lambda>r x. tc_id x = tc_id r)"
    "sql_conflict_laws (db_permissions D) (\<lambda>d. row_permissions (V d)) pr_id (\<lambda>r x. pr_id x = pr_id r)"
    "sql_conflict_laws (db_messages D) (\<lambda>d. row_messages (V d)) mr_id (\<lambda>r x. mr_id x = mr_id r)"
    "sql_constraint (db_goals D) (\<lambda>d. row_goals (V d)) one_active_goal"
    "sql_frame (db_runs D) (\<lambda>d. (V d)\<lparr>row_runs := []\<rparr>)"
    "sql_frame (db_goals D) (\<lambda>d. (V d)\<lparr>row_goals := []\<rparr>)"
    "sql_frame (db_segments D) (\<lambda>d. (V d)\<lparr>row_segments := []\<rparr>)"
    "sql_frame (db_todos D) (\<lambda>d. (V d)\<lparr>row_todos := []\<rparr>)"
    "sql_frame (db_events D) (\<lambda>d. (V d)\<lparr>row_events := []\<rparr>)"
    "sql_frame (db_tool_calls D) (\<lambda>d. (V d)\<lparr>row_tool_calls := []\<rparr>)"
    "sql_frame (db_permissions D) (\<lambda>d. (V d)\<lparr>row_permissions := []\<rparr>)"
    "sql_frame (db_messages D) (\<lambda>d. (V d)\<lparr>row_messages := []\<rparr>)"
    "sql_table_laws (db_sessions D) (\<lambda>d. row_sessions (V d)) ss_id"
    "sql_frame (db_sessions D) (\<lambda>d. (V d)\<lparr>row_sessions := []\<rparr>)"
  using assms unfolding gateway_db_laws_def by blast+

text \<open>Sessions are read by id; a deleted one is not found.\<close>

definition get_session :: "'d gateway_db \<Rightarrow> 'd \<Rightarrow> string \<Rightarrow> session_row option" where
  "get_session D d i =
     row_found (sql_first (db_sessions D) d (\<lambda>s. ss_id s = i \<and> ss_deleted_at s = None)
       (\<lambda>s. [(0, ss_id s)]))"

text \<open>\<^verbatim>\<open>Save\<close> writes every column of a row, inserting it if its key is new.\<close>

definition sql_save :: "('d, 'r) sql_table \<Rightarrow> 'd \<Rightarrow> 'r \<Rightarrow> 'd option" where
  "sql_save T d r = sql_upsert T d r (\<lambda>_. r)"

text \<open>The state after a statement whose error the caller ignores.\<close>

definition ignoring :: "'d \<Rightarrow> 'd option \<Rightarrow> 'd" where
  "ignoring d r = (case r of None \<Rightarrow> d | Some d' \<Rightarrow> d')"

lemma ignoring_simps [simp]: "ignoring d None = d" "ignoring d (Some d') = d'"
  by (simp_all add: ignoring_def)

subsection \<open>The database in memory\<close>

definition mem_db :: "gateway_rows gateway_db" where
  "mem_db =
     \<lparr>db_runs = embed_table row_runs (\<lambda>d s. s\<lparr>row_runs := d\<rparr>)
        (list_table rr_id (\<lambda>_. True) (\<lambda>r x. rr_id x = rr_id r)),
      db_goals = embed_table row_goals (\<lambda>d s. s\<lparr>row_goals := d\<rparr>)
        (list_table gr_id one_active_goal (\<lambda>r x. gr_id x = gr_id r)),
      db_segments = embed_table row_segments (\<lambda>d s. s\<lparr>row_segments := d\<rparr>)
        (list_table sg_id (\<lambda>_. True) segment_conflict),
      db_todos = embed_table row_todos (\<lambda>d s. s\<lparr>row_todos := d\<rparr>) (mem_table tr_row_id),
      db_events = embed_table row_events (\<lambda>d s. s\<lparr>row_events := d\<rparr>)
        (list_table er_id (\<lambda>_. True) event_conflict),
      db_tool_calls = embed_table row_tool_calls (\<lambda>d s. s\<lparr>row_tool_calls := d\<rparr>)
        (list_table tc_id (\<lambda>_. True) (\<lambda>r x. tc_id x = tc_id r)),
      db_permissions = embed_table row_permissions (\<lambda>d s. s\<lparr>row_permissions := d\<rparr>)
        (list_table pr_id (\<lambda>_. True) (\<lambda>r x. pr_id x = pr_id r)),
      db_messages = embed_table row_messages (\<lambda>d s. s\<lparr>row_messages := d\<rparr>)
        (list_table mr_id (\<lambda>_. True) (\<lambda>r x. mr_id x = mr_id r)),
      db_sessions = embed_table row_sessions (\<lambda>d s. s\<lparr>row_sessions := d\<rparr>)
        (list_table ss_id (\<lambda>_. True) (\<lambda>r x. ss_id x = ss_id r))\<rparr>"

lemma mem_db_laws: "gateway_db_laws mem_db (\<lambda>d. d)"
  unfolding gateway_db_laws_def mem_db_def
  by (simp add: embed_table_laws [OF list_table_laws] embed_table_laws [OF mem_table_laws]
      embed_table_conflict_laws [OF list_table_conflict_laws]
      embed_table_constraint [OF list_table_constraint] embed_table_frame)

definition empty_rows :: gateway_rows where
  "empty_rows = \<lparr>row_runs = [], row_goals = [], row_segments = [], row_todos = [], row_events = [],
     row_tool_calls = [], row_permissions = [], row_messages = [], row_sessions = []\<rparr>"

end
