(* ===== verification/Goal_Service.thy ===== *)
theory Goal_Service
  imports Gateway_Db
begin

text \<open>
  Long-running goals of a session: \<^verbatim>\<open>service/goal.go\<close> and \<^verbatim>\<open>repository/goal.go\<close>. Every
  operation takes the tables \<open>D\<close>, the readings \<open>clock\<close> of \<^verbatim>\<open>time.Now\<close> in the order they are
  made, and the state of the database, and returns the new state with its result or error; an
  error can follow a write that stays. Ownership, the life cycle and the accounting of a goal
  are proved of all operations together.
\<close>

subsection \<open>Repository\<close>

definition by_goal_id :: "goal_row \<Rightarrow> order_key" where
  "by_goal_id r = [(0, gr_id r)]"

definition latest_first :: "goal_row \<Rightarrow> order_key" where
  "latest_first r = [(- gr_updated_at r, []), (0, gr_id r)]"

definition apply_budget_defaults :: "goal_row \<Rightarrow> goal_row" where
  "apply_budget_defaults r =
     r\<lparr>gr_max_segments_per_run :=
         (if gr_max_segments_per_run r \<le> 0 then 4 else gr_max_segments_per_run r),
       gr_max_tool_turns_per_segment :=
         (if gr_max_tool_turns_per_segment r \<le> 0 then 12 else gr_max_tool_turns_per_segment r),
       gr_max_total_tool_turns :=
         (if gr_max_total_tool_turns r \<le> 0 then 96 else gr_max_total_tool_turns r),
       gr_max_wall_time_sec :=
         (if gr_max_wall_time_sec r \<le> 0 then 1800 else gr_max_wall_time_sec r)\<rparr>"

definition prepare_goal :: "int \<Rightarrow> goal_row \<Rightarrow> goal_row" where
  "prepare_goal now row =
     (apply_budget_defaults (row
        \<lparr>gr_id := (if trim_space (gr_id row) = [] then ''goal_'' @ int_dec now else gr_id row),
         gr_status := (if gr_status row = Other_Status [] then Goal_Pending else gr_status row),
         gr_pipeline_phase := (if gr_pipeline_phase row = [] then ''analyze''
                               else gr_pipeline_phase row)\<rparr>))
       \<lparr>gr_created_at := now, gr_updated_at := now\<rparr>"

definition create_goal :: "'d gateway_db \<Rightarrow> int \<Rightarrow> 'd \<Rightarrow> goal_row \<Rightarrow> ('d \<times> goal_row) option" where
  "create_goal D now d row =
     map_option (\<lambda>d'. (d', prepare_goal now row)) (sql_insert (db_goals D) d [prepare_goal now row])"

definition get_goal :: "'d gateway_db \<Rightarrow> 'd \<Rightarrow> string \<Rightarrow> goal_row option" where
  "get_goal D d i = row_found (sql_first (db_goals D) d (\<lambda>r. gr_id r = i) by_goal_id)"

definition session_goals :: "'d gateway_db \<Rightarrow> 'd \<Rightarrow> string \<Rightarrow> int \<Rightarrow> goal_row list option" where
  "session_goals D d session n =
     sql_limit (db_goals D) d (\<lambda>r. gr_session_id r = session) (\<lambda>r. [(- gr_updated_at r, [])])
       (if n \<le> 0 \<or> n > 200 then 50 else nat n)"

definition count_goals :: "'d gateway_db \<Rightarrow> 'd \<Rightarrow> string \<Rightarrow> nat option" where
  "count_goals D d session = sql_count (db_goals D) d (\<lambda>r. gr_session_id r = session)"

definition session_goal_in ::
  "'d gateway_db \<Rightarrow> goal_status \<Rightarrow> 'd \<Rightarrow> string \<Rightarrow> goal_row option" where
  "session_goal_in D st d session =
     row_found (sql_first (db_goals D) d (\<lambda>r. gr_session_id r = session \<and> gr_status r = st) latest_first)"

definition active_goal :: "'d gateway_db \<Rightarrow> 'd \<Rightarrow> string \<Rightarrow> goal_row option" where
  "active_goal D = session_goal_in D Goal_Active"

definition latest_paused_goal :: "'d gateway_db \<Rightarrow> 'd \<Rightarrow> string \<Rightarrow> goal_row option" where
  "latest_paused_goal D = session_goal_in D Goal_Paused"

definition latest_pending_goal :: "'d gateway_db \<Rightarrow> 'd \<Rightarrow> string \<Rightarrow> goal_row option" where
  "latest_pending_goal D = session_goal_in D Goal_Pending"

definition goal_by_active_run :: "'d gateway_db \<Rightarrow> 'd \<Rightarrow> string \<Rightarrow> goal_row option" where
  "goal_by_active_run D d run =
     row_found (sql_first (db_goals D) d (\<lambda>r. gr_active_run_id r = run) by_goal_id)"

definition goal_by_last_run :: "'d gateway_db \<Rightarrow> 'd \<Rightarrow> string \<Rightarrow> goal_row option" where
  "goal_by_last_run D d run =
     row_found (sql_first (db_goals D) d (\<lambda>r. gr_last_run_id r = run) latest_first)"

text \<open>
  \<^verbatim>\<open>TransitionStatus\<close>: the guarded update of one goal. \<open>upd\<close> sets the columns of the
  \<^verbatim>\<open>updates\<close> map; the result says whether a row matched the guard.
\<close>

definition transition_guard :: "string \<Rightarrow> string \<Rightarrow> goal_status list \<Rightarrow> string \<Rightarrow> goal_row \<Rightarrow> bool" where
  "transition_guard i session from run r \<longleftrightarrow>
     gr_id r = i \<and> gr_session_id r = session \<and> gr_status r \<in> set from
     \<and> (run \<noteq> [] \<longrightarrow> gr_active_run_id r = run)"

definition transition_status ::
  "'d gateway_db \<Rightarrow> int \<Rightarrow> 'd \<Rightarrow> string \<Rightarrow> string \<Rightarrow> goal_status list \<Rightarrow> string
    \<Rightarrow> (goal_row \<Rightarrow> goal_row) \<Rightarrow> ('d \<times> bool) option" where
  "transition_status D now d i session from run upd =
     map_option (\<lambda>(d', n). (d', n = 1))
       (sql_update (db_goals D) d (transition_guard i session from run)
         (\<lambda>r. (upd r)\<lparr>gr_updated_at := now\<rparr>))"

text \<open>\<^verbatim>\<open>RecordSegment\<close>: one transaction, whose first statement decides about the second.\<close>

definition segment_row_for :: "int \<Rightarrow> string \<Rightarrow> string \<Rightarrow> int \<Rightarrow> int \<Rightarrow> segment_row" where
  "segment_row_for now goal run index delta =
     \<lparr>sg_id = ''goal_segment_'' @ goal @ ''_'' @ run @ ''_'' @ int_dec index,
      sg_goal_id = goal, sg_run_id = run, sg_segment_index = index, sg_tool_turns = delta,
      sg_created_at = now\<rparr>"

definition add_usage :: "int \<Rightarrow> int \<Rightarrow> goal_row \<Rightarrow> goal_row" where
  "add_usage now delta r =
     r\<lparr>gr_used_tool_turns := gr_used_tool_turns r + delta,
       gr_used_segments := gr_used_segments r + 1, gr_updated_at := now\<rparr>"

definition record_segment ::
  "'d gateway_db \<Rightarrow> int \<Rightarrow> int \<Rightarrow> 'd \<Rightarrow> string \<Rightarrow> string \<Rightarrow> int \<Rightarrow> int
    \<Rightarrow> svc_error + 'd \<times> bool" where
  "record_segment D created updated d goal run index delta =
     (if trim_space goal = [] \<or> trim_space run = [] \<or> index < 0 \<or> delta < 0
      then Inl (Svc_Error ''invalid goal segment'')
      else case sql_insert_new (db_segments D) d (segment_row_for created goal run index delta) of
             None \<Rightarrow> Inl Db_Error
           | Some (d1, False) \<Rightarrow> Inr (d1, False)
           | Some (d1, True) \<Rightarrow>
               (case sql_update (db_goals D) d1 (\<lambda>r. gr_id r = goal) (add_usage updated delta) of
                  None \<Rightarrow> Inl Db_Error
                | Some (d2, n) \<Rightarrow> Inr (d2, True)))"

definition run_wall :: "run_row \<Rightarrow> int" where
  "run_wall r =
     (case rr_finished_at r of
        None \<Rightarrow> 0 | Some t \<Rightarrow> if t < rr_started_at r then 0 else t - rr_started_at r)"

definition calculate_used_wall_time :: "'d gateway_db \<Rightarrow> 'd \<Rightarrow> string \<Rightarrow> int option" where
  "calculate_used_wall_time D d goal =
     map_option (\<lambda>runs. sum_list (map run_wall runs) div 1000000000)
       (sql_select (db_runs D) d (\<lambda>r. rr_goal_id r = goal \<and> rr_finished_at r \<noteq> None) (\<lambda>_. []))"

definition delete_session_goals :: "'d gateway_db \<Rightarrow> 'd \<Rightarrow> string \<Rightarrow> 'd option" where
  "delete_session_goals D d session = sql_delete (db_goals D) d (\<lambda>r. gr_session_id r = session)"

text \<open>Reading one run, and the update of its goal.\<close>

definition get_run :: "'d gateway_db \<Rightarrow> 'd \<Rightarrow> string \<Rightarrow> run_row option" where
  "get_run D d i = row_found (sql_first (db_runs D) d (\<lambda>r. rr_id r = i) (\<lambda>r. [(0, rr_id r)]))"

definition set_run_goal :: "'d gateway_db \<Rightarrow> int \<Rightarrow> 'd \<Rightarrow> string \<Rightarrow> string \<Rightarrow> 'd option" where
  "set_run_goal D now d run goal =
     map_option fst (sql_update (db_runs D) d (\<lambda>r. rr_id r = run)
       (\<lambda>r. r\<lparr>rr_goal_id := goal, rr_updated_at := now\<rparr>))"

subsection \<open>Results\<close>

definition goal_max_session_rows :: nat where "goal_max_session_rows = 20"
definition goal_max_objective_rune :: nat where "goal_max_objective_rune = 4000"
definition goal_max_criteria_rune :: nat where "goal_max_criteria_rune = 4000"
definition goal_max_title_rune :: nat where "goal_max_title_rune = 200"
definition goal_context_limit :: nat where "goal_context_limit = 2000"

record goal_dto =
  gd_id :: string
  gd_session_id :: string
  gd_title :: string
  gd_objective :: string
  gd_success_criteria :: string
  gd_status :: goal_status
  gd_pipeline_phase :: string
  gd_pause_reason :: string
  gd_fail_reason :: string
  gd_analysis_summary :: string
  gd_checkpoint_summary :: string
  gd_progress_note :: string
  gd_report_markdown :: string
  gd_used_tool_turns :: int
  gd_max_total_tool_turns :: int
  gd_used_segments :: int
  gd_max_segments_per_run :: int
  gd_max_tool_turns_seg :: int
  gd_used_wall_time_sec :: int
  gd_max_wall_time_sec :: int
  gd_active_run_id :: string
  gd_last_run_id :: string
  gd_created_at :: int
  gd_updated_at :: int

definition goal_dto_of :: "goal_row \<Rightarrow> goal_dto" where
  "goal_dto_of r =
     \<lparr>gd_id = gr_id r, gd_session_id = gr_session_id r, gd_title = gr_title r,
      gd_objective = gr_objective r, gd_success_criteria = gr_success_criteria r,
      gd_status = gr_status r, gd_pipeline_phase = gr_pipeline_phase r,
      gd_pause_reason = gr_pause_reason r, gd_fail_reason = gr_fail_reason r,
      gd_analysis_summary = gr_analysis_summary r, gd_checkpoint_summary = gr_checkpoint_summary r,
      gd_progress_note = gr_progress_note r, gd_report_markdown = gr_report_markdown r,
      gd_used_tool_turns = gr_used_tool_turns r, gd_max_total_tool_turns = gr_max_total_tool_turns r,
      gd_used_segments = gr_used_segments r, gd_max_segments_per_run = gr_max_segments_per_run r,
      gd_max_tool_turns_seg = gr_max_tool_turns_per_segment r,
      gd_used_wall_time_sec = gr_used_wall_time_sec r, gd_max_wall_time_sec = gr_max_wall_time_sec r,
      gd_active_run_id = gr_active_run_id r, gd_last_run_id = gr_last_run_id r,
      gd_created_at = gr_created_at r, gd_updated_at = gr_updated_at r\<rparr>"

text \<open>
  A tool's result. Its output marshals the tool, the goal or the goals of the result, and
  \<open>gt_meta\<close>; the record keeps these parts.
\<close>

record goal_result =
  gt_tool :: string
  gt_goal :: "goal_dto option"
  gt_goals :: "goal_dto list"
  gt_meta :: go_map

definition one_goal_result :: "string \<Rightarrow> go_map \<Rightarrow> goal_dto \<Rightarrow> goal_result" where
  "one_goal_result tool meta dto =
     \<lparr>gt_tool = tool, gt_goal = Some dto, gt_goals = [], gt_meta = meta\<rparr>"

definition action_meta :: "string \<Rightarrow> go_map" where
  "action_meta a = [(''action'', GStr a)]"

definition normalize_pipeline_phase :: "string \<Rightarrow> string" where
  "normalize_pipeline_phase v =
     (let p = to_lower (trim_space v)
      in if p \<in> {''analyze'', ''plan'', ''execute'', ''verify'', ''evaluate'', ''report''}
         then p else ''execute'')"

text \<open>The trimmed string argument every handler reads.\<close>

definition arg :: "go_map \<Rightarrow> string \<Rightarrow> string" where
  "arg args key = trim_space (string_arg args key)"

text \<open>The argument, or the old value if it is absent or blank.\<close>

definition arg_or :: "go_map \<Rightarrow> string \<Rightarrow> (string \<Rightarrow> string) \<Rightarrow> string \<Rightarrow> string" where
  "arg_or args key conv old = (if arg args key = [] then old else conv (arg args key))"

definition terminal_status :: "goal_status \<Rightarrow> bool" where
  "terminal_status st \<longleftrightarrow> st = Goal_Succeeded \<or> st = Goal_Failed \<or> st = Goal_Cancelled"

definition or_fail ::
  "'a option \<Rightarrow> svc_error \<Rightarrow> 'd \<Rightarrow> ('a \<Rightarrow> 'd \<times> (svc_error + 'b)) \<Rightarrow> 'd \<times> (svc_error + 'b)" where
  "or_fail r e d k = (case r of None \<Rightarrow> (d, Inl e) | Some x \<Rightarrow> k x)"

lemma or_fail_simps [simp]: "or_fail None e d k = (d, Inl e)" "or_fail (Some x) e d k = k x"
  by (simp_all add: or_fail_def)

text \<open>How most handlers end: the guarded update, then the row as it is now.\<close>

definition read_back ::
  "'d gateway_db \<Rightarrow> 'd \<Rightarrow> string \<Rightarrow> (goal_dto \<Rightarrow> 'b) \<Rightarrow> 'd \<times> (svc_error + 'b)" where
  "read_back D d i k = or_fail (get_goal D d i) Db_Error d (\<lambda>row. (d, Inr (k (goal_dto_of row))))"

definition commit_transition ::
  "('d \<times> bool) option \<Rightarrow> 'd \<Rightarrow> string \<Rightarrow> ('d \<Rightarrow> 'd \<times> (svc_error + 'b)) \<Rightarrow> 'd \<times> (svc_error + 'b)" where
  "commit_transition t d lost k =
     or_fail t Db_Error d (\<lambda>(d', changed). if changed then k d' else (d', Inl (Svc_Error lost)))"

definition settle_transition :: "('d \<times> bool) option \<Rightarrow> 'd \<Rightarrow> 'd \<times> (svc_error + unit)" where
  "settle_transition t d = or_fail t Db_Error d (\<lambda>(d', changed). (d', Inr ()))"

subsection \<open>Operations of the Gateway\<close>

definition list_session_goals ::
  "'d gateway_db \<Rightarrow> 'd \<Rightarrow> string \<Rightarrow> svc_error + goal_dto list" where
  "list_session_goals D d session =
     (let s = trim_space session
      in if s = [] then Inl (Svc_Error ''session id is required'')
         else if get_session D d s = None then Inl (Svc_Error ''session not found'')
         else bind_result (db_result (session_goals D d s 50)) (\<lambda>rows. Inr (map goal_dto_of rows)))"

definition read_goal :: "'d gateway_db \<Rightarrow> 'd \<Rightarrow> string \<Rightarrow> string \<Rightarrow> svc_error + goal_dto" where
  "read_goal D d session i =
     bind_result (db_result (get_goal D d i)) (\<lambda>row.
       if session \<noteq> [] \<and> gr_session_id row \<noteq> session then Inl (Svc_Error ''goal not found'')
       else Inr (goal_dto_of row))"

definition cancel_updates :: "int \<Rightarrow> goal_row \<Rightarrow> goal_row \<Rightarrow> goal_row" where
  "cancel_updates now row r =
     r\<lparr>gr_status := Goal_Cancelled, gr_active_run_id := [], gr_last_run_id := gr_active_run_id row,
       gr_finished_at := Some now\<rparr>"

definition cancel_goal ::
  "'d gateway_db \<Rightarrow> (nat \<Rightarrow> int) \<Rightarrow> 'd \<Rightarrow> string \<Rightarrow> string \<Rightarrow> 'd \<times> (svc_error + goal_dto)" where
  "cancel_goal D clock d session i =
     or_fail (get_goal D d i) Db_Error d (\<lambda>row.
       if gr_session_id row \<noteq> session then (d, Inl (Svc_Error ''goal not found''))
       else if terminal_status (gr_status row) then (d, Inr (goal_dto_of row))
       else or_fail (transition_status D (clock 1) d (gr_id row) session
                       [Goal_Pending, Goal_Active, Goal_Paused] [] (cancel_updates (clock 0) row))
              Db_Error d (\<lambda>(d', changed).
                or_fail (get_goal D d' (gr_id row)) Db_Error d' (\<lambda>updated.
                  if \<not> changed \<and> gr_status updated \<noteq> Goal_Cancelled
                  then (d', Inl (Svc_Error (''goal is already terminal: ''
                                  @ goal_status_text (gr_status updated))))
                  else (d', Inr (goal_dto_of updated)))))"

text \<open>Pausing the goal of a run that is gone.\<close>

definition pause_updates :: "goal_row \<Rightarrow> string \<Rightarrow> goal_row \<Rightarrow> goal_row" where
  "pause_updates row reason r =
     r\<lparr>gr_status := Goal_Paused, gr_pause_reason := reason,
       gr_last_run_id := (if gr_active_run_id row \<noteq> [] then gr_active_run_id row
                          else gr_last_run_id row),
       gr_active_run_id := []\<rparr>"

definition force_pause_stale ::
  "'d gateway_db \<Rightarrow> int \<Rightarrow> 'd \<Rightarrow> goal_row \<Rightarrow> string \<Rightarrow> 'd \<times> (svc_error + unit)" where
  "force_pause_stale D now d row reason =
     settle_transition (transition_status D now d (gr_id row) (gr_session_id row) [Goal_Active]
       (gr_active_run_id row) (pause_updates row reason)) d"

definition live_run_status :: "string \<Rightarrow> bool" where
  "live_run_status st \<longleftrightarrow> st = ''running'' \<or> st = ''waiting_permission''"

definition repair_stale_active ::
  "'d gateway_db \<Rightarrow> int \<Rightarrow> 'd \<Rightarrow> string \<Rightarrow> 'd \<times> (svc_error + unit)" where
  "repair_stale_active D now d session =
     (case active_goal D d session of
        None \<Rightarrow> (d, Inr ())
      | Some row \<Rightarrow>
          if gr_active_run_id row = [] then (d, Inr ())
          else (case get_run D d (gr_active_run_id row) of
                  None \<Rightarrow> force_pause_stale D now d row ''stale_run''
                | Some run \<Rightarrow>
                    if live_run_status (rr_status run) then (d, Inr ())
                    else force_pause_stale D now d row ''stale_run''))"

definition pause_by_session ::
  "'d gateway_db \<Rightarrow> int \<Rightarrow> 'd \<Rightarrow> string \<Rightarrow> string \<Rightarrow> 'd \<times> (svc_error + unit)" where
  "pause_by_session D now d session reason =
     (case active_goal D d session of
        None \<Rightarrow> (d, Inr ())
      | Some row \<Rightarrow>
          settle_transition (transition_status D now d (gr_id row) session [Goal_Active]
            (gr_active_run_id row) (pause_updates row reason)) d)"

definition goal_of_run :: "'d gateway_db \<Rightarrow> 'd \<Rightarrow> string \<Rightarrow> goal_row option" where
  "goal_of_run D d run =
     (case goal_by_active_run D d run of Some g \<Rightarrow> Some g | None \<Rightarrow> goal_by_last_run D d run)"

definition pause_by_run ::
  "'d gateway_db \<Rightarrow> int \<Rightarrow> 'd \<Rightarrow> string \<Rightarrow> string \<Rightarrow> 'd \<times> (svc_error + unit)" where
  "pause_by_run D now d run reason =
     (case goal_of_run D d run of
        None \<Rightarrow> (d, Inr ())
      | Some row \<Rightarrow>
          if gr_status row \<noteq> Goal_Active then (d, Inr ())
          else settle_transition (transition_status D now d (gr_id row) (gr_session_id row)
                 [Goal_Active] run
                 (\<lambda>r. r\<lparr>gr_status := Goal_Paused, gr_pause_reason := reason, gr_last_run_id := run,
                        gr_active_run_id := []\<rparr>)) d)"

text \<open>The end of a root run.\<close>

definition resolve_goal_for_run :: "'d gateway_db \<Rightarrow> 'd \<Rightarrow> string \<Rightarrow> goal_row option" where
  "resolve_goal_for_run D d run =
     (case (case get_run D d run of
              Some r \<Rightarrow> if rr_goal_id r \<noteq> [] then get_goal D d (rr_goal_id r) else None
            | None \<Rightarrow> None) of
        Some g \<Rightarrow> Some g
      | None \<Rightarrow> goal_of_run D d run)"

definition budget_spent :: "goal_row \<Rightarrow> bool" where
  "budget_spent row \<longleftrightarrow>
     (gr_used_tool_turns row \<ge> gr_max_total_tool_turns row \<and> gr_max_total_tool_turns row > 0)
     \<or> (gr_max_wall_time_sec row > 0 \<and> gr_used_wall_time_sec row \<ge> gr_max_wall_time_sec row)"

definition pause_reason_for :: "string \<Rightarrow> string \<Rightarrow> string" where
  "pause_reason_for finish old =
     (let f = to_lower finish
      in if f = ''cancelled'' then (if old = [] then ''user_cancel'' else old)
         else if f = ''failed'' \<or> f = ''error'' then ''run_failed''
         else if f = ''denied'' then ''permission_denied''
         else ''awaiting_continue'')"

definition terminal_updates :: "int \<Rightarrow> string \<Rightarrow> string \<Rightarrow> goal_row \<Rightarrow> goal_row \<Rightarrow> goal_row" where
  "terminal_updates now run finish row r =
     (let failed = finish = ''budget_exhausted'' \<or> budget_spent row
      in r\<lparr>gr_status := (if failed then Goal_Failed else Goal_Paused),
           gr_pause_reason := (if failed then gr_pause_reason row
                               else pause_reason_for finish (gr_pause_reason row)),
           gr_fail_reason := (if failed then ''budget_exhausted'' else gr_fail_reason row),
           gr_last_run_id := run, gr_active_run_id := [],
           gr_finished_at := (if failed then Some now else gr_finished_at row),
           gr_used_wall_time_sec := gr_used_wall_time_sec row\<rparr>)"

definition set_wall_time :: "'d gateway_db \<Rightarrow> int \<Rightarrow> 'd \<Rightarrow> string \<Rightarrow> int \<Rightarrow> 'd option" where
  "set_wall_time D now d i wall =
     map_option fst (sql_update (db_goals D) d (\<lambda>r. gr_id r = i)
       (\<lambda>r. r\<lparr>gr_used_wall_time_sec := wall, gr_updated_at := now\<rparr>))"

definition refresh_wall_time ::
  "'d gateway_db \<Rightarrow> int \<Rightarrow> 'd \<Rightarrow> goal_row \<Rightarrow> 'd \<times> goal_row" where
  "refresh_wall_time D now d row =
     (case calculate_used_wall_time D d (gr_id row) of
        None \<Rightarrow> (d, row)
      | Some wall \<Rightarrow> (ignoring d (set_wall_time D now d (gr_id row) wall),
                      row\<lparr>gr_used_wall_time_sec := wall\<rparr>))"

definition on_root_run_terminal ::
  "'d gateway_db \<Rightarrow> (nat \<Rightarrow> int) \<Rightarrow> 'd \<Rightarrow> string \<Rightarrow> string \<Rightarrow> 'd \<times> (svc_error + unit)" where
  "on_root_run_terminal D clock d run finish =
     (case resolve_goal_for_run D d run of
        None \<Rightarrow> (d, Inr ())
      | Some found \<Rightarrow>
          (case refresh_wall_time D (clock 0) d found of (d1, row) \<Rightarrow>
             if gr_status row \<noteq> Goal_Active then (d1, Inr ())
             else settle_transition (transition_status D (clock 2) d1 (gr_id row)
                    (gr_session_id row) [Goal_Active] run
                    (terminal_updates (clock 1) run finish row)) d1))"

text \<open>Goals the user starts, and the binding of a goal to a run.\<close>

definition zero_goal_row :: goal_row where
  "zero_goal_row =
     \<lparr>gr_id = [], gr_session_id = [], gr_title = [], gr_objective = [], gr_success_criteria = [],
      gr_status = Other_Status [], gr_pipeline_phase = [], gr_pause_reason = [],
      gr_fail_reason = [], gr_analysis_summary = [], gr_checkpoint_summary = [],
      gr_progress_note = [], gr_report_json = None, gr_report_markdown = [],
      gr_max_segments_per_run = 0, gr_max_tool_turns_per_segment = 0,
      gr_max_total_tool_turns = 0, gr_max_wall_time_sec = 0, gr_max_auto_continues = 0,
      gr_used_tool_turns = 0, gr_used_segments = 0, gr_used_auto_continues = 0,
      gr_used_wall_time_sec = 0, gr_active_run_id = [], gr_last_run_id = [],
      gr_source_run_id = [], gr_source_tool_call_id = [], gr_started_at = None,
      gr_finished_at = None, gr_created_at = zero_time, gr_updated_at = zero_time\<rparr>"

text \<open>The UTF-8 bytes of the criteria used when the user gives none.\<close>

definition default_criteria :: string where
  "default_criteria = map (\<lambda>b. char_of (b :: nat))
     [
      0xE5, 0xAE, 0x8C, 0xE6, 0x88, 0x90, 0xE7, 0x94, 0xA8, 0xE6, 0x88, 0xB7, 0xE6, 0x89, 0x80, 0xE8,
      0xBF, 0xB0, 0xE7, 0x9B, 0xAE, 0xE6, 0xA0, 0x87, 0xEF, 0xBC, 0x8C, 0xE5, 0xB9, 0xB6, 0xE9, 0x80,
      0x9A, 0xE8, 0xBF, 0x87, 0xE5, 0x90, 0x88, 0xE7, 0x90, 0x86, 0xE9, 0xAA, 0x8C, 0xE8, 0xAF, 0x81,
      0xEF, 0xBC, 0x88, 0xE6, 0xB5, 0x8B, 0xE8, 0xAF, 0x95, 0x2F, 0xE6, 0xA3, 0x80, 0xE6, 0x9F, 0xA5,
      0x2F, 0xE5, 0x8F, 0xAF, 0xE6, 0xBC, 0x94, 0xE7, 0xA4, 0xBA, 0xE7, 0xBB, 0x93, 0xE6, 0x9E, 0x9C,
      0xEF, 0xBC, 0x89, 0xE3, 0x80, 0x82]"

definition create_user_initiated ::
  "'d gateway_db \<Rightarrow> (nat \<Rightarrow> int) \<Rightarrow> 'd \<Rightarrow> string \<Rightarrow> string \<Rightarrow> string \<Rightarrow> string
    \<Rightarrow> 'd \<times> (svc_error + goal_dto)" where
  "create_user_initiated D clock d session0 objective0 title0 criteria0 =
     (let session = trim_space session0; objective = trim_space objective0
      in if session = [] then (d, Inl (Svc_Error ''session id is required''))
         else if objective = [] then (d, Inl (Svc_Error ''objective is required''))
         else if rune_count objective > goal_max_objective_rune
              then (d, Inl (Svc_Error ''objective too long''))
         else if get_session D d session = None then (d, Inl (Svc_Error ''session not found''))
         else (case repair_stale_active D (clock 0) d session of
                 (d1, Inl e) \<Rightarrow> (d1, Inl e)
               | (d1, Inr _) \<Rightarrow>
          if active_goal D d1 session \<noteq> None
          then (d1, Inl (Svc_Error
                 ''session already has an active goal; cancel or wait before starting a new one''))
          else or_fail (count_goals D d1 session) Db_Error d1 (\<lambda>n.
            if n \<ge> goal_max_session_rows
            then (d1, Inl (Svc_Error (''session goal limit '' @ nat_digits goal_max_session_rows
                                      @ '' reached'')))
            else let criteria = (if trim_space criteria0 = [] then default_criteria
                                 else trim_space criteria0);
                     title = (if trim_space title0 = [] then truncate_runes objective 40
                              else trim_space title0)
              in if rune_count criteria > goal_max_criteria_rune
                 then (d1, Inl (Svc_Error ''success_criteria too long''))
                 else if rune_count title > goal_max_title_rune
                 then (d1, Inl (Svc_Error ''title too long''))
                 else or_fail (create_goal D (clock 2) d1 (zero_goal_row
                        \<lparr>gr_session_id := session, gr_title := title, gr_objective := objective,
                         gr_success_criteria := criteria, gr_status := Goal_Pending,
                         gr_pipeline_phase := ''analyze'', gr_created_at := clock 1,
                         gr_updated_at := clock 1\<rparr>))
                       Db_Error d1 (\<lambda>(d2, created). (d2, Inr (goal_dto_of created))))))"

definition bind_target :: "'d gateway_db \<Rightarrow> 'd \<Rightarrow> string \<Rightarrow> string \<Rightarrow> bool \<Rightarrow> svc_error + goal_row" where
  "bind_target D d session i continue =
     (let missing = Svc_Error ''goal not found for bind''
      in if trim_space i \<noteq> [] then of_option missing (get_goal D d i)
         else if continue
         then of_option missing (case latest_paused_goal D d session of
                                   Some g \<Rightarrow> Some g | None \<Rightarrow> latest_pending_goal D d session)
         else Inl (Svc_Error ''goal_id or continue_goal required''))"

definition bind_refusal :: "'d gateway_db \<Rightarrow> 'd \<Rightarrow> string \<Rightarrow> string \<Rightarrow> goal_row \<Rightarrow> string option" where
  "bind_refusal D d session run row =
     (if gr_session_id row \<noteq> session then Some ''goal not found for bind''
      else if terminal_status (gr_status row) then Some ''goal is terminal''
      else if gr_status row = Goal_Active \<and> gr_active_run_id row \<noteq> [] \<and> gr_active_run_id row \<noteq> run
           then Some ''goal already bound to another run''
      else if gr_status row \<notin> {Goal_Active, Goal_Pending, Goal_Paused}
           then Some (''goal status '' @ go_quote (goal_status_text (gr_status row)) @ '' cannot bind'')
      else case active_goal D d session of
             Some active \<Rightarrow> if gr_id active \<noteq> gr_id row
                             then Some ''session already has an active goal'' else None
           | None \<Rightarrow> None)"

definition bind_updates :: "int \<Rightarrow> string \<Rightarrow> goal_row \<Rightarrow> goal_row \<Rightarrow> goal_row" where
  "bind_updates now run row r =
     r\<lparr>gr_status := Goal_Active, gr_active_run_id := run, gr_last_run_id := run,
       gr_pause_reason := [],
       gr_started_at := (if gr_started_at row = None then Some now else gr_started_at row)\<rparr>"

definition bind_to_run ::
  "'d gateway_db \<Rightarrow> (nat \<Rightarrow> int) \<Rightarrow> 'd \<Rightarrow> string \<Rightarrow> string \<Rightarrow> string \<Rightarrow> bool
    \<Rightarrow> 'd \<times> (svc_error + goal_dto)" where
  "bind_to_run D clock d session run i continue =
     (case repair_stale_active D (clock 0) d session of
        (d1, Inl e) \<Rightarrow> (d1, Inl e)
      | (d1, Inr _) \<Rightarrow>
          (case bind_target D d1 session i continue of
             Inl e \<Rightarrow> (d1, Inl e)
           | Inr row \<Rightarrow>
               (case bind_refusal D d1 session run row of
                  Some msg \<Rightarrow> (d1, Inl (Svc_Error msg))
                | None \<Rightarrow>
                    commit_transition (transition_status D (clock 2) d1 (gr_id row) session
                        [gr_status row]
                        (if gr_status row = Goal_Active then gr_active_run_id row else [])
                        (bind_updates (clock 1) run row))
                      d1 ''goal changed concurrently'' (\<lambda>d2.
                        or_fail (get_goal D d2 (gr_id row)) Db_Error d2 (\<lambda>updated.
                          (if get_run D d2 run = None then d2
                           else ignoring d2 (set_run_goal D (clock 3) d2 run (gr_id updated)),
                           Inr (goal_dto_of updated)))))))"

subsection \<open>The goal tools\<close>

record goal_params =
  gp_run_id :: string
  gp_session_id :: string
  gp_workspace_root :: string
  gp_tool_call_id :: string
  gp_tool_name :: string
  gp_arguments :: go_map

definition written_goal :: "int \<Rightarrow> goal_params \<Rightarrow> string \<Rightarrow> string \<Rightarrow> string \<Rightarrow> bool \<Rightarrow> goal_row" where
  "written_goal now params objective criteria title activate =
     (let analysis = arg (gp_arguments params) ''analysis_summary'';
          row = zero_goal_row
            \<lparr>gr_session_id := gp_session_id params, gr_title := title, gr_objective := objective,
             gr_success_criteria := criteria, gr_status := Goal_Pending,
             gr_pipeline_phase := ''plan'', gr_analysis_summary := analysis,
             gr_source_run_id := gp_run_id params,
             gr_source_tool_call_id := gp_tool_call_id params,
             gr_created_at := now, gr_updated_at := now\<rparr>
      in if activate
         then row\<lparr>gr_status := Goal_Active, gr_active_run_id := gp_run_id params,
                  gr_last_run_id := gp_run_id params, gr_started_at := Some now,
                  gr_pipeline_phase := (if analysis \<noteq> [] then ''plan'' else ''analyze'')\<rparr>
         else row)"

definition goal_write ::
  "'d gateway_db \<Rightarrow> (nat \<Rightarrow> int) \<Rightarrow> 'd \<Rightarrow> goal_params \<Rightarrow> 'd \<times> (svc_error + goal_result)" where
  "goal_write D clock d params =
     (let args = gp_arguments params; objective = arg args ''objective'' in
      if objective = [] then (d, Inl (Svc_Error ''objective is required''))
      else if rune_count objective > goal_max_objective_rune
      then (d, Inl (Svc_Error ''objective too long''))
      else or_fail (count_goals D d (gp_session_id params)) Db_Error d (\<lambda>n.
        if n \<ge> goal_max_session_rows
        then (d, Inl (Svc_Error (''session goal limit '' @ nat_digits goal_max_session_rows
                                 @ '' reached'')))
        else let activate = bool_arg args ''activate'' False;
                 criteria = arg args ''success_criteria'';
                 title = (if arg args ''title'' = [] then truncate_runes objective 40
                          else arg args ''title'')
          in if activate \<and> criteria = []
             then (d, Inl (Svc_Error ''success_criteria is required when activate=true''))
             else if rune_count criteria > goal_max_criteria_rune
             then (d, Inl (Svc_Error ''success_criteria too long''))
             else if rune_count title > goal_max_title_rune
             then (d, Inl (Svc_Error ''title too long''))
             else if activate \<and> active_goal D d (gp_session_id params) \<noteq> None
             then (d, Inl (Svc_Error ''active goal exists''))
             else or_fail (create_goal D (clock 1) d
                             (written_goal (clock 0) params objective criteria title activate))
                    Db_Error d (\<lambda>(d1, created).
                      (if activate
                       then ignoring d1 (set_run_goal D (clock 2) d1 (gp_run_id params) (gr_id created))
                       else d1,
                       Inr (one_goal_result ''goal.write''
                              (action_meta ''write'' @ [(''activate'', GBool activate)])
                              (goal_dto_of created))))))"

text \<open>
  \<^verbatim>\<open>goal.update\<close>: the row it read with the new fields, and then its activation. The write
  takes every column from this row, under a guard on the status the row has after it.
\<close>

definition edited_goal :: "go_map \<Rightarrow> goal_row \<Rightarrow> goal_row" where
  "edited_goal args row =
     row\<lparr>gr_title := arg_or args ''title'' (\<lambda>v. truncate_runes v (int goal_max_title_rune)) (gr_title row),
         gr_objective := arg_or args ''objective'' id (gr_objective row),
         gr_success_criteria := arg_or args ''success_criteria'' id (gr_success_criteria row),
         gr_analysis_summary := arg_or args ''analysis_summary'' id (gr_analysis_summary row),
         gr_pipeline_phase :=
           arg_or args ''pipeline_phase'' normalize_pipeline_phase (gr_pipeline_phase row)\<rparr>"

definition activation :: "int \<Rightarrow> string \<Rightarrow> goal_row \<Rightarrow> goal_row" where
  "activation now run row =
     row\<lparr>gr_status := Goal_Active, gr_active_run_id := run, gr_last_run_id := run,
         gr_pause_reason := [],
         gr_started_at := (if gr_started_at row = None then Some now else gr_started_at row)\<rparr>"

definition activated_goal ::
  "'d gateway_db \<Rightarrow> int \<Rightarrow> 'd \<Rightarrow> goal_params \<Rightarrow> goal_row \<Rightarrow> string + goal_row" where
  "activated_goal D now d params row =
     (if bool_arg (gp_arguments params) ''activate'' False
         \<and> (gr_status row = Goal_Pending \<or> gr_status row = Goal_Paused)
      then if (case active_goal D d (gp_session_id params) of
                 Some active \<Rightarrow> gr_id active \<noteq> gr_id row | None \<Rightarrow> False)
           then Inl ''active goal exists''
           else if gr_success_criteria row = [] then Inl ''success_criteria required to activate''
           else Inr (activation now (gp_run_id params) row)
      else Inr row)"

definition update_columns :: "goal_row \<Rightarrow> goal_row \<Rightarrow> goal_row" where
  "update_columns row r =
     r\<lparr>gr_title := gr_title row, gr_objective := gr_objective row,
       gr_success_criteria := gr_success_criteria row,
       gr_analysis_summary := gr_analysis_summary row,
       gr_pipeline_phase := gr_pipeline_phase row, gr_status := gr_status row,
       gr_active_run_id := gr_active_run_id row, gr_last_run_id := gr_last_run_id row,
       gr_pause_reason := gr_pause_reason row, gr_started_at := gr_started_at row\<rparr>"

definition goal_update ::
  "'d gateway_db \<Rightarrow> (nat \<Rightarrow> int) \<Rightarrow> 'd \<Rightarrow> goal_params \<Rightarrow> 'd \<times> (svc_error + goal_result)" where
  "goal_update D clock d params =
     (let args = gp_arguments params; i = arg args ''goal_id''; session = gp_session_id params in
      if i = [] then (d, Inl (Svc_Error ''goal_id is required''))
      else (case get_goal D d i of
        None \<Rightarrow> (d, Inl (Svc_Error ''goal not found''))
      | Some row0 \<Rightarrow>
          if gr_session_id row0 \<noteq> session then (d, Inl (Svc_Error ''goal not found''))
          else if to_lower (arg args ''action'') = ''cancel''
          then if gr_status row0 = Goal_Active \<and> gr_active_run_id row0 \<noteq> gp_run_id params
               then (d, Inl (Svc_Error ''goal is not bound to this run''))
               else map_prod id (map_sum id (one_goal_result ''goal.update'' (action_meta ''cancel'')))
                      (cancel_goal D clock d session i)
          else if terminal_status (gr_status row0) then (d, Inl (Svc_Error ''goal is terminal''))
          else if gr_status row0 = Goal_Active \<and> gr_active_run_id row0 \<noteq> gp_run_id params
          then (d, Inl (Svc_Error ''goal is not bound to this run''))
          else (case activated_goal D (clock 0) d params (edited_goal args row0) of
                  Inl msg \<Rightarrow> (d, Inl (Svc_Error msg))
                | Inr row \<Rightarrow>
                    commit_transition (transition_status D (clock 1) d (gr_id row) session
                        [Goal_Pending, Goal_Paused, Goal_Active]
                        (if gr_status row = Goal_Active then gp_run_id params else [])
                        (update_columns row))
                      d ''goal changed concurrently'' (\<lambda>d1.
                        or_fail (if gr_status row = Goal_Active
                                 then set_run_goal D (clock 2) d1 (gp_run_id params) (gr_id row)
                                 else Some d1) Db_Error d1 (\<lambda>d2.
                          read_back D d2 (gr_id row)
                            (one_goal_result ''goal.update'' (action_meta ''update'')))))))"

definition bound_active_goal ::
  "'d gateway_db \<Rightarrow> 'd \<Rightarrow> string \<Rightarrow> string \<Rightarrow> string \<Rightarrow> string + goal_row" where
  "bound_active_goal D d session run i =
     (case (if i \<noteq> [] then get_goal D d i else goal_by_active_run D d run) of
        None \<Rightarrow> Inl ''goal not found''
      | Some row \<Rightarrow>
          if gr_session_id row \<noteq> session then Inl ''goal not found''
          else if gr_status row \<noteq> Goal_Active \<or> gr_active_run_id row \<noteq> run
          then Inl ''goal is not active for this run''
          else Inr row)"

definition checkpoint_columns :: "go_map \<Rightarrow> string \<Rightarrow> goal_row \<Rightarrow> goal_row \<Rightarrow> goal_row" where
  "checkpoint_columns args summary row r =
     r\<lparr>gr_checkpoint_summary := truncate_runes summary (int goal_max_objective_rune),
       gr_progress_note := arg_or args ''progress_note'' (\<lambda>v. truncate_runes v 2000) (gr_progress_note row),
       gr_pipeline_phase :=
         arg_or args ''pipeline_phase'' normalize_pipeline_phase (gr_pipeline_phase row)\<rparr>"

definition goal_checkpoint ::
  "'d gateway_db \<Rightarrow> (nat \<Rightarrow> int) \<Rightarrow> 'd \<Rightarrow> goal_params \<Rightarrow> 'd \<times> (svc_error + goal_result)" where
  "goal_checkpoint D clock d params =
     (let args = gp_arguments params; session = gp_session_id params; run = gp_run_id params in
      case bound_active_goal D d session run (arg args ''goal_id'') of
        Inl msg \<Rightarrow> (d, Inl (Svc_Error msg))
      | Inr row \<Rightarrow>
          (let summary = (if arg args ''summary'' = [] then arg args ''checkpoint_summary''
                          else arg args ''summary'')
           in if summary = [] then (d, Inl (Svc_Error ''summary is required''))
              else commit_transition (transition_status D (clock 0) d (gr_id row) session
                       [Goal_Active] run (checkpoint_columns args summary row))
                     d ''goal is no longer active for this run'' (\<lambda>d1.
                       read_back D d1 (gr_id row)
                         (one_goal_result ''goal.checkpoint'' (action_meta ''checkpoint'')))))"

definition complete_columns ::
  "int \<Rightarrow> goal_params \<Rightarrow> goal_status \<Rightarrow> string \<Rightarrow> goal_row \<Rightarrow> goal_row \<Rightarrow> goal_row" where
  "complete_columns now params status summary row r =
     r\<lparr>gr_status := status, gr_progress_note := truncate_runes summary 2000,
       gr_pipeline_phase := ''report'', gr_active_run_id := [], gr_last_run_id := gp_run_id params,
       gr_finished_at := Some now,
       gr_report_markdown := arg_or (gp_arguments params) ''report_markdown''
                               (\<lambda>v. truncate_runes v 16000) (gr_report_markdown row),
       gr_report_json := (case map_of (gp_arguments params) ''report'' of
                            Some v \<Rightarrow> if v = GNil then gr_report_json row else Some v
                          | None \<Rightarrow> gr_report_json row),
       gr_fail_reason := (if status = Goal_Failed then summary else gr_fail_reason row)\<rparr>"

definition completion_status :: "go_map \<Rightarrow> goal_status option" where
  "completion_status args =
     (let st = to_lower (arg args ''status'')
      in if st = [] \<or> st = ''succeeded'' then Some Goal_Succeeded
         else if st = ''failed'' then Some Goal_Failed else None)"

definition goal_complete ::
  "'d gateway_db \<Rightarrow> (nat \<Rightarrow> int) \<Rightarrow> 'd \<Rightarrow> goal_params \<Rightarrow> 'd \<times> (svc_error + goal_result)" where
  "goal_complete D clock d params =
     (let args = gp_arguments params; session = gp_session_id params; run = gp_run_id params in
      case bound_active_goal D d session run (arg args ''goal_id'') of
        Inl msg \<Rightarrow> (d, Inl (Svc_Error msg))
      | Inr row \<Rightarrow>
          (case completion_status args of
             None \<Rightarrow> (d, Inl (Svc_Error ''status must be succeeded or failed''))
           | Some status \<Rightarrow>
               if arg args ''summary'' = [] then (d, Inl (Svc_Error ''summary is required''))
               else commit_transition (transition_status D (clock 1) d (gr_id row) session
                        [Goal_Active] run
                        (complete_columns (clock 0) params status (arg args ''summary'') row))
                      d ''goal is no longer active for this run'' (\<lambda>d1.
                        read_back D d1 (gr_id row)
                          (one_goal_result ''goal.complete''
                            (action_meta ''complete''
                              @ [(''result'', GStr (goal_status_text status))])))))"

definition goal_list :: "'d gateway_db \<Rightarrow> 'd \<Rightarrow> goal_params \<Rightarrow> svc_error + goal_result" where
  "goal_list D d params =
     bind_result (list_session_goals D d (gp_session_id params)) (\<lambda>items.
       Inr \<lparr>gt_tool = ''goal.list'', gt_goal = None, gt_goals = items,
            gt_meta = action_meta ''list'' @ [(''count'', GInt (int (length items)))]\<rparr>)"

definition goal_for_tool ::
  "'d gateway_db \<Rightarrow> 'd \<Rightarrow> string \<Rightarrow> string \<Rightarrow> string \<Rightarrow> goal_row option" where
  "goal_for_tool D d session run i =
     (if i \<noteq> []
      then (case get_goal D d i of
              Some row \<Rightarrow> if gr_session_id row \<noteq> session then None else Some row | None \<Rightarrow> None)
      else case goal_by_active_run D d run of
             Some g \<Rightarrow> if gr_session_id g = session then Some g else active_goal D d session
           | None \<Rightarrow> active_goal D d session)"

text \<open>The three writes of \<^verbatim>\<open>segment_end\<close>, each after a fresh read of the row.\<close>

definition exhaust_goal ::
  "'d gateway_db \<Rightarrow> (nat \<Rightarrow> int) \<Rightarrow> 'd \<Rightarrow> goal_params \<Rightarrow> goal_row \<Rightarrow> 'd \<times> (svc_error + goal_row)" where
  "exhaust_goal D clock d params row =
     (let spent = (gr_max_total_tool_turns row > 0
                   \<and> gr_used_tool_turns row \<ge> gr_max_total_tool_turns row)
                  \<or> bool_arg (gp_arguments params) ''budget_exhausted'' False
      in if spent \<and> gr_status row = Goal_Active
         then or_fail (transition_status D (clock 3) d (gr_id row) (gp_session_id params)
                         [Goal_Active] (gp_run_id params)
                         (\<lambda>r. r\<lparr>gr_status := Goal_Failed, gr_fail_reason := ''budget_exhausted'',
                                gr_active_run_id := [], gr_last_run_id := gp_run_id params,
                                gr_finished_at := Some (clock 2)\<rparr>))
                Db_Error d (\<lambda>(d1, changed).
                  or_fail (get_goal D d1 (gr_id row)) Db_Error d1 (\<lambda>row1. (d1, Inr row1)))
         else (d, Inr row))"

definition segment_checkpoint ::
  "'d gateway_db \<Rightarrow> int \<Rightarrow> 'd \<Rightarrow> goal_params \<Rightarrow> goal_row \<Rightarrow> 'd \<times> goal_row" where
  "segment_checkpoint D now d params row =
     (let cp = arg (gp_arguments params) ''checkpoint_summary''
      in if cp \<noteq> [] \<and> gr_status row = Goal_Active
         then let d1 = ignoring d (map_option fst (sql_update (db_goals D) d
                         (\<lambda>r. gr_id r = gr_id row \<and> gr_status r = Goal_Active
                              \<and> gr_active_run_id r = gp_run_id params)
                         (\<lambda>r. r\<lparr>gr_checkpoint_summary :=
                                  truncate_runes cp (int goal_max_objective_rune),
                                gr_updated_at := now\<rparr>)))
              in (d1, case get_goal D d1 (gr_id row) of Some r \<Rightarrow> r | None \<Rightarrow> zero_goal_row)
         else (d, row))"

definition segment_end ::
  "'d gateway_db \<Rightarrow> (nat \<Rightarrow> int) \<Rightarrow> 'd \<Rightarrow> goal_params \<Rightarrow> 'd \<times> (svc_error + goal_result)" where
  "segment_end D clock d params =
     (let args = gp_arguments params; run = gp_run_id params in
      case goal_for_tool D d (gp_session_id params) run (arg args ''goal_id'') of
        None \<Rightarrow> (d, Inl (Svc_Error ''goal not found''))
      | Some row0 \<Rightarrow>
          (let delta = max 0 (int_arg args ''delta_tool_turns'' 0);
               index = int_arg args ''segment_index'' (-1)
           in case (if delta > 0 \<or> \<not> bool_arg args ''budget_exhausted'' False
                    then record_segment D (clock 0) (clock 1) d (gr_id row0) run index delta
                    else Inr (d, False)) of
                Inl e \<Rightarrow> (d, Inl e)
              | Inr (d1, recorded) \<Rightarrow>
                  or_fail (get_goal D d1 (gr_id row0)) Db_Error d1 (\<lambda>row1.
                    (case exhaust_goal D clock d1 params row1 of
                       (d2, Inl e) \<Rightarrow> (d2, Inl e)
                     | (d2, Inr row2) \<Rightarrow>
                         (case segment_checkpoint D (clock 4) d2 params row2 of
                            (d3, row3) \<Rightarrow>
                              (d3, Inr (one_goal_result ''segment_end''
                                 (action_meta ''segment_end''
                                  @ [(''delta'', GInt delta), (''recorded'', GBool recorded)])
                                 (goal_dto_of row3))))))))"

definition execute_goal_tool ::
  "'d gateway_db \<Rightarrow> (nat \<Rightarrow> int) \<Rightarrow> 'd \<Rightarrow> goal_params \<Rightarrow> 'd \<times> (svc_error + goal_result)" where
  "execute_goal_tool D clock d params =
     (if trim_space (gp_run_id params) = [] then (d, Inl (Svc_Error ''run_id is required''))
      else if trim_space (gp_session_id params) = []
      then (d, Inl (Svc_Error ''session_id is required''))
      else if trim_space (gp_tool_call_id params) = []
      then (d, Inl (Svc_Error ''tool_call_id is required''))
      else if get_session D d (gp_session_id params) = None
      then (d, Inl (Svc_Error ''session not found''))
      else let name = trim_space (gp_tool_name params)
        in if name = ''goal.write'' then goal_write D clock d params
           else if name = ''goal.update'' then goal_update D clock d params
           else if name = ''goal.checkpoint'' then goal_checkpoint D clock d params
           else if name = ''goal.complete'' then goal_complete D clock d params
           else if name = ''goal.list'' then (d, goal_list D d params)
           else if name = ''segment_end'' then segment_end D clock d params
           else (d, Inl (Svc_Error (''unsupported goal tool '' @ go_quote name))))"

subsection \<open>The goal as context of a run\<close>

record goal_context =
  gc_goal :: goal_row
  gc_current_step :: string
  gc_context :: string

definition context_line :: "string \<Rightarrow> string \<Rightarrow> string" where
  "context_line label v = ''- '' @ label @ '': '' @ v @ [CHR 0x0A]"

definition optional_line :: "string \<Rightarrow> string \<Rightarrow> (string \<Rightarrow> string) \<Rightarrow> string" where
  "optional_line label v conv = (if v = [] then [] else context_line label (conv v))"

definition format_goal_context_text :: "goal_row \<Rightarrow> string" where
  "format_goal_context_text row =
     ''Active goal (update via goal.checkpoint / goal.complete; steps via todo.write):'' @ [CHR 0x0A]
     @ context_line ''id'' (gr_id row)
     @ context_line ''status'' (goal_status_text (gr_status row) @ '' phase: '' @ gr_pipeline_phase row)
     @ context_line ''objective'' (gr_objective row)
     @ optional_line ''success_criteria'' (gr_success_criteria row) id
     @ optional_line ''analysis'' (gr_analysis_summary row) (\<lambda>v. truncate_runes v 400)
     @ optional_line ''checkpoint'' (gr_checkpoint_summary row) (\<lambda>v. truncate_runes v 400)
     @ context_line ''budget''
         (int_dec (gr_used_tool_turns row) @ ''/'' @ int_dec (gr_max_total_tool_turns row)
          @ '' root tool turns, segments used '' @ int_dec (gr_used_segments row)
          @ '' (max '' @ int_dec (gr_max_segments_per_run row) @ ''/run)'')"

definition format_goal_context :: "'d gateway_db \<Rightarrow> 'd \<Rightarrow> string \<Rightarrow> string \<Rightarrow> goal_context option" where
  "format_goal_context D d session i =
     (case (if i \<noteq> [] then get_goal D d i else active_goal D d session) of
        None \<Rightarrow> None
      | Some row \<Rightarrow>
          if gr_session_id row \<noteq> session \<and> session \<noteq> [] then None
          else let ctx = format_goal_context_text row;
                   step = (case list_open_todos (db_todos D) d session of
                             None \<Rightarrow> []
                           | Some todos \<Rightarrow> (case filter in_progress todos of
                                              [] \<Rightarrow> [] | t # _ \<Rightarrow> tr_content t))
               in Some \<lparr>gc_goal = row, gc_current_step = step,
                        gc_context = (if rune_count ctx > goal_context_limit
                                      then encode_runes (take goal_context_limit (runes ctx)) @ ellipsis
                                      else ctx)\<rparr>)"

end
