(* ===== verification/Goal_Lifecycle.thy ===== *)
theory Goal_Lifecycle
  imports Goal_Service
begin

text \<open>
  The life cycle of a goal as an abstract state machine, and the proof that every operation of
  the goal service moves the stored goals along it. A goal waits (pending or paused), is bound
  to one run (active), or is settled for good (succeeded, failed, cancelled).
\<close>

datatype goal_phase = Waiting | Bound string | Settled goal_status

definition phase :: "goal_row \<Rightarrow> goal_phase" where
  "phase r =
     (if terminal_status (gr_status r) then Settled (gr_status r)
      else if gr_status r = Goal_Active then Bound (gr_active_run_id r) else Waiting)"

text \<open>The moves a tool call of \<open>run\<close> can make, and those of the Gateway itself.\<close>

inductive tool_move :: "string \<Rightarrow> goal_phase \<Rightarrow> goal_phase \<Rightarrow> bool" for run where
  Tool_Stay: "tool_move run p p"
| Tool_Bind: "tool_move run Waiting (Bound run)"
| Tool_Settle: "tool_move run (Bound run) (Settled st)"
| Tool_Drop: "tool_move run Waiting (Settled Goal_Cancelled)"

inductive gateway_move :: "goal_phase \<Rightarrow> goal_phase \<Rightarrow> bool" where
  Move_Stay: "gateway_move p p"
| Move_Bind: "gateway_move Waiting (Bound run)"
| Move_Rebind: "gateway_move (Bound run) (Bound run')"
| Move_Release: "gateway_move (Bound run) Waiting"
| Move_Settle: "gateway_move (Bound run) (Settled st)"
| Move_Drop: "gateway_move Waiting (Settled Goal_Cancelled)"

inductive_cases tool_move_SettledE [elim!]: "tool_move run (Settled st) p"
inductive_cases tool_move_BoundE: "tool_move run (Bound r) p"
inductive_cases tool_move_WaitingE: "tool_move run Waiting p"
inductive_cases gateway_move_SettledE [elim!]: "gateway_move (Settled st) p"

lemmas goal_moves = tool_move.intros gateway_move.intros

text \<open>
  What every operation keeps of a goal: its identity; all but the usage counters of a settled
  goal; the usage counters, which only accounting changes; and that exactly the active goals
  name a run.
\<close>

definition same_identity :: "goal_row \<Rightarrow> goal_row \<Rightarrow> bool" where
  "same_identity r r' \<longleftrightarrow>
     gr_id r' = gr_id r \<and> gr_session_id r' = gr_session_id r \<and> gr_created_at r' = gr_created_at r
     \<and> gr_source_run_id r' = gr_source_run_id r
     \<and> gr_max_total_tool_turns r' = gr_max_total_tool_turns r
     \<and> gr_max_wall_time_sec r' = gr_max_wall_time_sec r"

definition same_usage :: "goal_row \<Rightarrow> goal_row \<Rightarrow> bool" where
  "same_usage r r' \<longleftrightarrow>
     gr_used_tool_turns r' = gr_used_tool_turns r \<and> gr_used_segments r' = gr_used_segments r"

definition counters_reset :: "goal_row \<Rightarrow> goal_row" where
  "counters_reset r =
     r\<lparr>gr_used_tool_turns := 0, gr_used_segments := 0, gr_used_wall_time_sec := 0,
       gr_updated_at := 0\<rparr>"

definition settled_kept :: "goal_row \<Rightarrow> goal_row \<Rightarrow> bool" where
  "settled_kept r r' \<longleftrightarrow> (terminal_status (gr_status r) \<longrightarrow> counters_reset r' = counters_reset r)"

definition bound_ok :: "goal_row \<Rightarrow> bool" where
  "bound_ok r \<longleftrightarrow> (gr_status r = Goal_Active \<longleftrightarrow> gr_active_run_id r \<noteq> [])"

definition goal_rel :: "(goal_phase \<Rightarrow> goal_phase \<Rightarrow> bool) \<Rightarrow> goal_row \<Rightarrow> goal_row \<Rightarrow> bool" where
  "goal_rel move r r' \<longleftrightarrow>
     same_identity r r' \<and> settled_kept r r' \<and> move (phase r) (phase r') \<and> (bound_ok r \<longrightarrow> bound_ok r')"

lemmas goal_rel_defs = goal_rel_def same_identity_def same_usage_def settled_kept_def
  counters_reset_def bound_ok_def phase_def terminal_status_def

lemma terminal_status_simps [simp]:
  "\<not> terminal_status Goal_Pending" "\<not> terminal_status Goal_Active" "\<not> terminal_status Goal_Paused"
  "terminal_status Goal_Succeeded" "terminal_status Goal_Failed" "terminal_status Goal_Cancelled"
  "\<not> terminal_status (Other_Status s)"
  by (simp_all add: terminal_status_def)

lemma phase_simps:
  "gr_status r = Goal_Pending \<Longrightarrow> phase r = Waiting"
  "gr_status r = Goal_Paused \<Longrightarrow> phase r = Waiting"
  "gr_status r = Goal_Active \<Longrightarrow> phase r = Bound (gr_active_run_id r)"
  "gr_status r = Goal_Succeeded \<Longrightarrow> phase r = Settled Goal_Succeeded"
  "gr_status r = Goal_Failed \<Longrightarrow> phase r = Settled Goal_Failed"
  "gr_status r = Goal_Cancelled \<Longrightarrow> phase r = Settled Goal_Cancelled"
  by (simp_all add: phase_def)

text \<open>A write to a goal that is not settled.\<close>

lemma open_goal_rel:
  "\<not> terminal_status (gr_status r) \<Longrightarrow> same_identity r r' \<Longrightarrow> move (phase r) (phase r') \<Longrightarrow>
    (bound_ok r \<Longrightarrow> bound_ok r') \<Longrightarrow> goal_rel move r r'"
  by (simp add: goal_rel_def settled_kept_def)

lemmas open_rel_simps = same_identity_def same_usage_def bound_ok_def phase_simps

subsection \<open>How a table of goals evolves\<close>

text \<open>Every old row becomes a row related to it; the rest is new.\<close>

definition rows_evolve ::
  "('r \<Rightarrow> 'r \<Rightarrow> bool) \<Rightarrow> ('r \<Rightarrow> bool) \<Rightarrow> 'r list \<Rightarrow> 'r list \<Rightarrow> bool" where
  "rows_evolve R N rows rows' \<longleftrightarrow>
     (\<exists>f new. mset rows' = mset (map f rows) + mset new
        \<and> (\<forall>r \<in> set rows. R r (f r)) \<and> (\<forall>r \<in> set new. N r))"

lemma rows_evolve_same:
  assumes "mset rows' = mset rows" "\<And>r. R r r"
  shows "rows_evolve R N rows rows'"
  unfolding rows_evolve_def
  by (rule exI [of _ "\<lambda>r. r"], rule exI [of _ "[]"]) (simp add: assms)

lemma rows_evolve_update:
  assumes "mset rows' = mset (map (\<lambda>r. if P r then g r else r) rows)" "\<And>r. R r r"
    "\<And>r. r \<in> set rows \<Longrightarrow> P r \<Longrightarrow> R r (g r)"
  shows "rows_evolve R N rows rows'"
  unfolding rows_evolve_def
  by (rule exI [of _ "\<lambda>r. if P r then g r else r"], rule exI [of _ "[]"]) (simp add: assms)

lemma rows_evolve_insert:
  assumes "mset rows' = mset rows + mset new" "\<And>r. R r r" "\<And>r. r \<in> set new \<Longrightarrow> N r"
  shows "rows_evolve R N rows rows'"
  unfolding rows_evolve_def
  by (rule exI [of _ "\<lambda>r. r"], rule exI [of _ new]) (simp add: assms)

lemma rows_evolve_trans:
  assumes "rows_evolve R N rows rows1" "rows_evolve Q N rows1 rows2"
    "\<And>r s t. R r s \<Longrightarrow> Q s t \<Longrightarrow> S r t" "\<And>r s. N r \<Longrightarrow> Q r s \<Longrightarrow> N s"
  shows "rows_evolve S N rows rows2"
proof -
  obtain f new where f: "mset rows1 = mset (map f rows) + mset new"
    "\<forall>r \<in> set rows. R r (f r)" "\<forall>r \<in> set new. N r"
    using assms(1) unfolding rows_evolve_def by blast
  obtain g new2 where g: "mset rows2 = mset (map g rows1) + mset new2"
    "\<forall>r \<in> set rows1. Q r (g r)" "\<forall>r \<in> set new2. N r"
    using assms(2) unfolding rows_evolve_def by blast
  have s: "set rows1 = f ` set rows \<union> set new"
    using arg_cong [OF f(1), of set_mset] by (simp add: image_comp)
  have "mset (map g rows1) = image_mset g (mset (map f rows) + mset new)" by (simp add: f(1))
  then have "mset rows2 = mset (map (g \<circ> f) rows) + mset (map g new @ new2)"
    using g(1) by (simp add: image_mset.compositionality comp_def)
  moreover have "\<forall>r \<in> set rows. S r ((g \<circ> f) r)" using f(2) g(2) s assms(3) by auto
  moreover have "\<forall>r \<in> set (map g new @ new2). N r" using f(3) g(2,3) s assms(4) by auto
  ultimately show ?thesis unfolding rows_evolve_def by blast
qed

lemma rows_evolve_mono:
  assumes "rows_evolve R N rows rows'" "\<And>r s. R r s \<Longrightarrow> S r s" "\<And>r. N r \<Longrightarrow> M r"
  shows "rows_evolve S M rows rows'"
  using assms unfolding rows_evolve_def by meson

lemma rows_evolveD:
  assumes "rows_evolve R N rows rows'"
  shows "r \<in> set rows \<Longrightarrow> \<exists>r' \<in> set rows'. R r r'"
    and "r' \<in> set rows' \<Longrightarrow> N r' \<or> (\<exists>r \<in> set rows. R r r')"
proof -
  obtain f new where f: "mset rows' = mset (map f rows) + mset new"
    "\<forall>r \<in> set rows. R r (f r)" "\<forall>r \<in> set new. N r"
    using assms unfolding rows_evolve_def by blast
  have s: "set rows' = f ` set rows \<union> set new"
    using arg_cong [OF f(1), of set_mset] by (simp add: image_comp)
  show "r \<in> set rows \<Longrightarrow> \<exists>r' \<in> set rows'. R r r'" using f(2) s by auto
  show "r' \<in> set rows' \<Longrightarrow> N r' \<or> (\<exists>r \<in> set rows. R r r')" using f(2,3) s by auto
qed

subsection \<open>The statements of the repository\<close>

lemma get_goal_row:
  assumes "gateway_db_laws D V" "get_goal D d i = Some row"
  shows "row \<in> set (row_goals (V d))" "gr_id row = i"
  using assms(2)
  by (auto simp: get_goal_def dest: sql_first_Found [OF gateway_db_lawsD(2) [OF assms(1)]])

lemma session_goal_in_row:
  assumes "gateway_db_laws D V" "session_goal_in D st d session = Some row"
  shows "row \<in> set (row_goals (V d))" "gr_session_id row = session" "gr_status row = st"
  using assms(2)
  by (auto simp: session_goal_in_def dest: sql_first_Found [OF gateway_db_lawsD(2) [OF assms(1)]])

lemma goal_by_active_run_row:
  assumes "gateway_db_laws D V" "goal_by_active_run D d run = Some row"
  shows "row \<in> set (row_goals (V d))" "gr_active_run_id row = run"
  using assms(2)
  by (auto simp: goal_by_active_run_def dest: sql_first_Found [OF gateway_db_lawsD(2) [OF assms(1)]])

lemma goal_by_last_run_row:
  assumes "gateway_db_laws D V" "goal_by_last_run D d run = Some row"
  shows "row \<in> set (row_goals (V d))" "gr_last_run_id row = run"
  using assms(2)
  by (auto simp: goal_by_last_run_def dest: sql_first_Found [OF gateway_db_lawsD(2) [OF assms(1)]])

definition goals_keyed :: "('d \<Rightarrow> gateway_rows) \<Rightarrow> 'd \<Rightarrow> bool" where
  "goals_keyed V d \<longleftrightarrow> distinct (map gr_id (row_goals (V d)))"

lemma goals_keyedD:
  "goals_keyed V d \<Longrightarrow> r \<in> set (row_goals (V d)) \<Longrightarrow> s \<in> set (row_goals (V d)) \<Longrightarrow>
    gr_id r = gr_id s \<Longrightarrow> r = s"
  unfolding goals_keyed_def by (metis distinct_map_eqD)

text \<open>One operation, as seen in the tables: goals evolve and the segments stay.\<close>

definition goals_step ::
  "('d \<Rightarrow> gateway_rows) \<Rightarrow> (goal_row \<Rightarrow> goal_row \<Rightarrow> bool) \<Rightarrow> (goal_row \<Rightarrow> bool) \<Rightarrow> 'd \<Rightarrow> 'd \<Rightarrow> bool" where
  "goals_step V R N d d' \<longleftrightarrow>
     rows_evolve R N (row_goals (V d)) (row_goals (V d'))
     \<and> row_segments (V d') = row_segments (V d) \<and> (goals_keyed V d \<longrightarrow> goals_keyed V d')"

lemma goals_step_refl: "(\<And>r. R r r) \<Longrightarrow> goals_step V R N d d"
  unfolding goals_step_def by (simp add: rows_evolve_same)

lemma goals_step_trans:
  assumes "goals_step V R N d d1" "goals_step V Q N d1 d2"
    "\<And>r s t. R r s \<Longrightarrow> Q s t \<Longrightarrow> S r t" "\<And>r s. N r \<Longrightarrow> Q r s \<Longrightarrow> N s"
  shows "goals_step V S N d d2"
  using assms rows_evolve_trans [of R N _ _ Q _ S] unfolding goals_step_def by (metis (no_types))

lemma goals_step_mono:
  assumes "goals_step V R N d d'" "\<And>r s. R r s \<Longrightarrow> S r s" "\<And>r. N r \<Longrightarrow> M r"
  shows "goals_step V S M d d'"
  using assms rows_evolve_mono unfolding goals_step_def by blast

lemma transition_step:
  assumes laws: "gateway_db_laws D V" and keyed: "goals_keyed V d"
    and t: "transition_status D now d i session from run upd = Some (d', changed)"
    and row: "row \<in> set (row_goals (V d))" "gr_id row = i" and refl: "\<And>r. R r r"
    and step: "transition_guard i session from run row \<Longrightarrow> R row ((upd row)\<lparr>gr_updated_at := now\<rparr>)"
  shows "goals_step V R N d d'"
proof -
  let ?g = "\<lambda>r. (upd r)\<lparr>gr_updated_at := now\<rparr>"
  obtain n where u: "sql_update (db_goals D) d (transition_guard i session from run) ?g = Some (d', n)"
    using t by (auto simp: transition_status_def)
  note law = sql_update_law [OF gateway_db_lawsD(2) [OF laws] u]
  have "rows_evolve R N (row_goals (V d)) (row_goals (V d'))"
  proof (rule rows_evolve_update)
    show "mset (row_goals (V d')) = mset (map (\<lambda>r. if transition_guard i session from run r then ?g r else r)
        (row_goals (V d)))" using law by blast
    fix r assume r: "r \<in> set (row_goals (V d))" "transition_guard i session from run r"
    then have "r = row" using goals_keyedD [OF keyed] row by (auto simp: transition_guard_def)
    then show "R r (?g r)" using step r by simp
  qed (rule refl)
  moreover have "(V d')\<lparr>row_goals := []\<rparr> = (V d)\<lparr>row_goals := []\<rparr>"
    using sql_frame_law(2) [OF gateway_db_lawsD(17) [OF laws] u] .
  then have "row_segments (V d') = row_segments (V d)"
    by (metis gateway_rows.select_convs(3) gateway_rows.surjective gateway_rows.update_convs(2))
  ultimately show ?thesis using law by (simp add: goals_step_def goals_keyed_def)
qed

lemma create_step:
  assumes laws: "gateway_db_laws D V" and c: "create_goal D now d row = Some (d', created)"
    and refl: "\<And>r. R r r" and new: "N (prepare_goal now row)"
  shows "goals_step V R N d d'"
proof -
  have i: "sql_insert (db_goals D) d [prepare_goal now row] = Some d'"
    using c by (auto simp: create_goal_def)
  note law = sql_insert_law [OF gateway_db_lawsD(2) [OF laws] i]
  have "rows_evolve R N (row_goals (V d)) (row_goals (V d'))"
    by (rule rows_evolve_insert [of _ _ "[prepare_goal now row]"]) (use law refl new in simp_all)
  moreover have "(V d')\<lparr>row_goals := []\<rparr> = (V d)\<lparr>row_goals := []\<rparr>"
    using sql_frame_law(1) [OF gateway_db_lawsD(17) [OF laws] i] .
  then have "row_segments (V d') = row_segments (V d)"
    by (metis gateway_rows.select_convs(3) gateway_rows.surjective gateway_rows.update_convs(2))
  ultimately show ?thesis using law by (simp add: goals_step_def goals_keyed_def)
qed

lemma set_run_goal_step:
  assumes laws: "gateway_db_laws D V" and c: "set_run_goal D now d run goal = Some d'"
    and refl: "\<And>r. R r r"
  shows "goals_step V R N d d'"
proof -
  obtain P f n where u: "sql_update (db_runs D) d P f = Some (d', n)"
    using c by (auto simp: set_run_goal_def)
  have "(V d')\<lparr>row_runs := []\<rparr> = (V d)\<lparr>row_runs := []\<rparr>"
    using sql_frame_law(2) [OF gateway_db_lawsD(16) [OF laws] u] .
  then have "row_goals (V d') = row_goals (V d)" "row_segments (V d') = row_segments (V d)"
    by (metis gateway_rows.select_convs gateway_rows.surjective gateway_rows.update_convs(1))+
  then show ?thesis by (simp add: goals_step_def goals_keyed_def rows_evolve_same refl)
qed

lemma goal_update_step:
  assumes laws: "gateway_db_laws D V" and u: "sql_update (db_goals D) d P g = Some (d', n)"
    and refl: "\<And>r. R r r" and step: "\<And>r. P r \<Longrightarrow> R r (g r)"
  shows "goals_step V R N d d'"
proof -
  note law = sql_update_law [OF gateway_db_lawsD(2) [OF laws] u]
  have "rows_evolve R N (row_goals (V d)) (row_goals (V d'))"
    by (rule rows_evolve_update [of _ P g]) (use law refl step in simp_all)
  moreover have "(V d')\<lparr>row_goals := []\<rparr> = (V d)\<lparr>row_goals := []\<rparr>"
    using sql_frame_law(2) [OF gateway_db_lawsD(17) [OF laws] u] .
  then have "row_segments (V d') = row_segments (V d)"
    by (metis gateway_rows.select_convs(3) gateway_rows.surjective gateway_rows.update_convs(2))
  ultimately show ?thesis using law by (simp add: goals_step_def goals_keyed_def)
qed

subsection \<open>Steps of the handlers\<close>

text \<open>The state a computation ends in, whatever its result.\<close>

lemma step_or_fail:
  "goals_step V R N d0 d \<Longrightarrow> (\<And>x. r = Some x \<Longrightarrow> goals_step V R N d0 (fst (k x))) \<Longrightarrow>
    goals_step V R N d0 (fst (or_fail r e d k))"
  by (cases r) simp_all

lemma step_commit:
  "goals_step V R N d0 d \<Longrightarrow> (\<And>d' c. t = Some (d', c) \<Longrightarrow> goals_step V R N d0 d') \<Longrightarrow>
    (\<And>d'. t = Some (d', True) \<Longrightarrow> goals_step V R N d0 (fst (k d'))) \<Longrightarrow>
    goals_step V R N d0 (fst (commit_transition t d lost k))"
  unfolding commit_transition_def by (cases t) auto

lemma step_settle:
  "goals_step V R N d0 d \<Longrightarrow> (\<And>d' c. t = Some (d', c) \<Longrightarrow> goals_step V R N d0 d') \<Longrightarrow>
    goals_step V R N d0 (fst (settle_transition t d))"
  unfolding settle_transition_def by (cases t) auto

lemma step_if:
  "(b \<Longrightarrow> goals_step V R N d0 (fst x)) \<Longrightarrow> (\<not> b \<Longrightarrow> goals_step V R N d0 (fst y)) \<Longrightarrow>
    goals_step V R N d0 (fst (if b then x else y))"
  by simp

lemma step_prod:
  "(\<And>a b. p = (a, b) \<Longrightarrow> goals_step V R N d0 (fst (k a b))) \<Longrightarrow>
    goals_step V R N d0 (fst (case p of (a, b) \<Rightarrow> k a b))"
  by (cases p) simp

lemma step_option:
  "(r = None \<Longrightarrow> goals_step V R N d0 (fst e)) \<Longrightarrow> (\<And>x. r = Some x \<Longrightarrow> goals_step V R N d0 (fst (k x))) \<Longrightarrow>
    goals_step V R N d0 (fst (case r of None \<Rightarrow> e | Some x \<Rightarrow> k x))"
  by (cases r) simp_all

lemma step_sum:
  "(\<And>x. r = Inl x \<Longrightarrow> goals_step V R N d0 (fst (e x))) \<Longrightarrow> (\<And>x. r = Inr x \<Longrightarrow> goals_step V R N d0 (fst (k x))) \<Longrightarrow>
    goals_step V R N d0 (fst (case r of Inl x \<Rightarrow> e x | Inr x \<Rightarrow> k x))"
  by (cases r) simp_all

lemmas step_intros = step_if step_prod step_option step_sum step_or_fail step_commit step_settle

lemma fst_read_back [simp]: "fst (read_back D d i k) = d"
  by (simp add: read_back_def or_fail_def split: option.split)

text \<open>A goal bound to another run keeps all but its counters.\<close>

definition foreign_kept :: "string \<Rightarrow> goal_row \<Rightarrow> goal_row \<Rightarrow> bool" where
  "foreign_kept run r r' \<longleftrightarrow>
     (\<forall>b. phase r = Bound b \<longrightarrow> b \<noteq> run \<longrightarrow> counters_reset r' = counters_reset r)"

definition tool_rel :: "string \<Rightarrow> goal_row \<Rightarrow> goal_row \<Rightarrow> bool" where
  "tool_rel run r r' \<longleftrightarrow> goal_rel (tool_move run) r r' \<and> foreign_kept run r r' \<and> same_usage r r'"

definition gateway_rel :: "goal_row \<Rightarrow> goal_row \<Rightarrow> bool" where
  "gateway_rel r r' \<longleftrightarrow> goal_rel gateway_move r r' \<and> same_usage r r'"

definition release_rel :: "goal_row \<Rightarrow> goal_row \<Rightarrow> bool" where
  "release_rel r r' \<longleftrightarrow>
     goal_rel (\<lambda>p q. q = p \<or> (\<exists>run. p = Bound run) \<and> q = Waiting) r r' \<and> same_usage r r'"

definition new_goal :: "string \<Rightarrow> goal_row \<Rightarrow> bool" where
  "new_goal run r \<longleftrightarrow>
     bound_ok r \<and> gr_used_tool_turns r = 0 \<and> gr_used_segments r = 0
     \<and> (phase r = Waiting \<or> phase r = Bound run)"

lemmas rel_defs = tool_rel_def foreign_kept_def gateway_rel_def release_rel_def goal_rel_defs

lemma rel_refl [simp, intro!]: "tool_rel run r r" "gateway_rel r r" "release_rel r r"
  by (simp_all add: rel_defs goal_moves)

lemma release_gateway: "release_rel r s \<Longrightarrow> gateway_rel r s"
  unfolding release_rel_def gateway_rel_def goal_rel_def by (auto intro: goal_moves)

text \<open>
  Most updates keep the life cycle whatever row they were computed from, because the guard is
  evaluated with the write; they need no uniqueness of the key.
\<close>

lemma guarded_step:
  assumes laws: "gateway_db_laws D V"
    and t: "transition_status D now d i session sts run upd = Some (d', changed)"
    and refl: "\<And>r. R r r"
    and step: "\<And>r. transition_guard i session sts run r \<Longrightarrow> R r ((upd r)\<lparr>gr_updated_at := now\<rparr>)"
  shows "goals_step V R N d d'"
  using t unfolding transition_status_def
  by (auto elim!: goal_update_step [OF laws] simp: refl step)

lemma cancel_guarded:
  assumes "gateway_db_laws D V"
    "transition_status D now d i session [Goal_Pending, Goal_Active, Goal_Paused] run (cancel_updates t row)
      = Some (d', c)"
  shows "goals_step V gateway_rel N d d'"
  by (rule guarded_step [OF assms rel_refl(2)])
    (auto simp: transition_guard_def gateway_rel_def cancel_updates_def open_rel_simps
      intro!: open_goal_rel goal_moves)

lemma cancel_step:
  "gateway_db_laws D V \<Longrightarrow> goals_step V gateway_rel N d (fst (cancel_goal D clock d session i))"
  unfolding cancel_goal_def
  by (auto simp: goals_step_refl split: prod.split intro!: step_or_fail) (erule (1) cancel_guarded)+

lemma pause_guarded:
  assumes "gateway_db_laws D V"
    "transition_status D now d i session [Goal_Active] run (pause_updates row reason) = Some (d', c)"
  shows "goals_step V release_rel N d d'"
  by (rule guarded_step [OF assms rel_refl(3)])
    (auto simp: transition_guard_def release_rel_def pause_updates_def open_rel_simps
      intro!: open_goal_rel)

lemma repair_step:
  "gateway_db_laws D V \<Longrightarrow> goals_step V release_rel N d (fst (repair_stale_active D now d session))"
  unfolding repair_stale_active_def force_pause_stale_def
  by (auto simp: goals_step_refl split: option.split intro!: step_settle) (erule (1) pause_guarded)+

lemma pause_by_session_step:
  "gateway_db_laws D V \<Longrightarrow> goals_step V release_rel N d (fst (pause_by_session D now d session reason))"
  unfolding pause_by_session_def
  by (auto simp: goals_step_refl split: option.split intro!: step_settle) (erule (1) pause_guarded)+

lemma pause_by_run_step:
  assumes laws: "gateway_db_laws D V"
  shows "goals_step V release_rel N d (fst (pause_by_run D now d run reason))"
proof -
  have T: "goals_step V release_rel N d d'"
    if "transition_status D now d i s [Goal_Active] run
        (\<lambda>r. r\<lparr>gr_status := Goal_Paused, gr_pause_reason := reason, gr_last_run_id := run,
               gr_active_run_id := []\<rparr>) = Some (d', c)"
    for i s d' c
    by (rule guarded_step [OF laws that rel_refl(3)])
      (auto simp: transition_guard_def release_rel_def open_rel_simps intro!: open_goal_rel)
  show ?thesis
    by (auto simp: pause_by_run_def goals_step_refl split: option.split intro!: step_settle) (erule T)+
qed

text \<open>A run that ends settles or releases the goal it is bound to.\<close>

lemma terminal_guarded:
  assumes "gateway_db_laws D V"
    "transition_status D now d i session [Goal_Active] run' (terminal_updates t run finish row)
      = Some (d', c)"
  shows "goals_step V gateway_rel N d d'"
  by (rule guarded_step [OF assms rel_refl(2)])
    (auto simp: transition_guard_def gateway_rel_def terminal_updates_def Let_def open_rel_simps
      intro!: open_goal_rel goal_moves)

lemma phase_Settled: "terminal_status (gr_status r) \<longleftrightarrow> (\<exists>st. phase r = Settled st)"
  by (simp add: phase_def)

lemma goal_rel_trans:
  assumes "goal_rel m1 r s" "goal_rel m2 s t"
    "\<And>st q. m1 (Settled st) q \<Longrightarrow> q = Settled st" "\<And>p q u. m1 p q \<Longrightarrow> m2 q u \<Longrightarrow> m3 p u"
  shows "goal_rel m3 r t"
proof -
  have "terminal_status (gr_status r) \<Longrightarrow> terminal_status (gr_status s)"
    using assms(1,3) unfolding goal_rel_def phase_Settled by metis
  then show ?thesis using assms(1,2,4) by (auto simp: goal_rel_def settled_kept_def same_identity_def)
qed

lemma same_usage_trans: "same_usage r s \<Longrightarrow> same_usage s t \<Longrightarrow> same_usage r t"
  by (simp add: same_usage_def)

definition stay_rel :: "goal_row \<Rightarrow> goal_row \<Rightarrow> bool" where
  "stay_rel r r' \<longleftrightarrow> goal_rel (\<lambda>p q. q = p) r r' \<and> same_usage r r'"

definition bind_rel :: "string \<Rightarrow> goal_row \<Rightarrow> goal_row \<Rightarrow> bool" where
  "bind_rel run r r' \<longleftrightarrow>
     goal_rel (\<lambda>p q. q = p \<or> (p = Waiting \<or> (\<exists>r. p = Bound r)) \<and> q = Bound run) r r' \<and> same_usage r r'"

lemma rel_refl2 [simp, intro!]: "stay_rel r r" "bind_rel run r r"
  by (simp_all add: stay_rel_def bind_rel_def goal_rel_defs)

lemma stay_gateway: "stay_rel r s \<Longrightarrow> gateway_rel s t \<Longrightarrow> gateway_rel r t"
  unfolding stay_rel_def gateway_rel_def by (blast intro: goal_rel_trans same_usage_trans)

lemma release_bind: "release_rel r s \<Longrightarrow> bind_rel run s t \<Longrightarrow> gateway_rel r t"
  unfolding release_rel_def bind_rel_def gateway_rel_def
  by (elim conjE, intro conjI, erule (1) goal_rel_trans) (auto intro: goal_moves same_usage_trans)

lemma set_wall_time_step:
  assumes "gateway_db_laws D V" "set_wall_time D now d i wall = Some d'"
  shows "goals_step V stay_rel N d d'"
  using assms(2) unfolding set_wall_time_def
  by (auto elim!: goal_update_step [OF assms(1)] simp: stay_rel_def goal_rel_defs)

abbreviation none_new :: "goal_row \<Rightarrow> bool" where "none_new \<equiv> (\<lambda>_. False)"

lemma on_root_run_terminal_step:
  assumes laws: "gateway_db_laws D V"
  shows "goals_step V gateway_rel none_new d (fst (on_root_run_terminal D clock d run finish))"
proof -
  have wall: "goals_step V stay_rel none_new d (fst (refresh_wall_time D now d row))" for now row
    unfolding refresh_wall_time_def ignoring_def
    by (auto simp: goals_step_refl split: option.split intro: set_wall_time_step [OF laws])
  have gw: "goals_step V gateway_rel none_new d d1" if "goals_step V stay_rel none_new d d1" for d1
    using that by (rule goals_step_mono) (auto intro: stay_gateway)
  have T: "goals_step V gateway_rel none_new d d2"
    if "goals_step V stay_rel none_new d d1"
      "transition_status D now d1 i s [Goal_Active] run (terminal_updates t run finish row) = Some (d2, c)"
    for d1 d2 now i s t row c
    by (rule goals_step_trans [OF that(1) terminal_guarded [OF laws that(2)]]) (auto intro: stay_gateway)
  have "goals_step V gateway_rel none_new d
     (fst (if gr_status row \<noteq> Goal_Active then (d1, Inr ())
           else settle_transition (transition_status D (clock 2) d1 (gr_id row)
                    (gr_session_id row) [Goal_Active] run
                    (terminal_updates (clock 1) run finish row)) d1))"
    if "refresh_wall_time D (clock 0) d found = (d1, row)" for d1 row found
  proof -
    have s: "goals_step V stay_rel none_new d d1" using wall [of "clock 0" found] that by simp
    show ?thesis
      using gw [OF s] by (auto intro!: step_settle intro: T [OF s])
  qed
  then show ?thesis
    by (auto simp: on_root_run_terminal_def goals_step_refl split: option.split prod.split)
qed

lemma bind_guarded:
  assumes "gateway_db_laws D V" "bind_refusal D d0 s run row = None" "run \<noteq> []" "gr_status row = st"
    "transition_status D now d i session [st] run' (bind_updates t run row) = Some (d', c)"
  shows "goals_step V (bind_rel run) N d d'"
proof (rule guarded_step [OF assms(1,5) rel_refl2(2)])
  fix r assume "transition_guard i session [st] run' r"
  moreover have "gr_status row \<in> {Goal_Active, Goal_Pending, Goal_Paused}"
    using assms(2) by (auto simp: bind_refusal_def split: if_splits)
  moreover note assms(4)
  ultimately have "gr_status r \<in> {Goal_Active, Goal_Pending, Goal_Paused}"
    by (simp add: transition_guard_def)
  then show "bind_rel run r ((bind_updates t run row r)\<lparr>gr_updated_at := now\<rparr>)"
    using assms(3)
    by (auto simp: bind_rel_def bind_updates_def open_rel_simps intro!: open_goal_rel)
qed

lemma eq_step:
  "goals_step V R N d d1 \<Longrightarrow> goals_step V (\<lambda>r s. s = r) N d1 d2 \<Longrightarrow> goals_step V R N d d2"
  by (erule (1) goals_step_trans) auto

lemma none_new_step: "goals_step V R none_new d d1 \<Longrightarrow> goals_step V R N d d1"
  by (erule goals_step_mono) simp_all

lemmas eq_step_new = eq_step [OF none_new_step]

lemma ignored_run_goal_step:
  assumes "gateway_db_laws D V"
  shows "goals_step V (\<lambda>r s. s = r) N d (ignoring d (set_run_goal D now d run goal))"
  using set_run_goal_step [OF assms] by (auto simp: ignoring_def goals_step_refl split: option.split)

lemma bind_to_run_step:
  assumes laws: "gateway_db_laws D V" and run: "run \<noteq> []"
  shows "goals_step V gateway_rel none_new d (fst (bind_to_run D clock d session run i continue))"
proof -
  obtain d1 res where rep: "repair_stale_active D (clock 0) d session = (d1, res)"
    by (cases "repair_stale_active D (clock 0) d session")
  have s1: "goals_step V release_rel none_new d d1"
    using repair_step [OF laws, of none_new d "clock 0" session] rep by simp
  have g1: "goals_step V gateway_rel none_new d d1"
    using s1 by (rule goals_step_mono) (auto intro: release_gateway)
  have g2: "goals_step V gateway_rel none_new d d2"
    if "bind_refusal D d1 session run row = None" "gr_status row = st"
      "transition_status D now d1 j session [st] run' (bind_updates t run row) = Some (d2, c)"
    for row st now j run' t d2 c
    by (rule goals_step_trans [OF s1 bind_guarded [OF laws that(1) run that(2,3)]])
      (auto intro: release_bind)
  note g3 = eq_step [OF g2 ignored_run_goal_step [OF laws]]
  show ?thesis
    unfolding bind_to_run_def
    by (auto simp: rep g1 split: sum.split option.split intro!: step_commit step_or_fail)
      ((erule (2) g3 | erule (2) g2 | erule (1) g3 [OF _ refl] | erule (1) g2 [OF _ refl])+)
qed

lemma prepare_goal_simps [simp]:
  "gr_active_run_id (prepare_goal now row) = gr_active_run_id row"
  "gr_used_tool_turns (prepare_goal now row) = gr_used_tool_turns row"
  "gr_used_segments (prepare_goal now row) = gr_used_segments row"
  "gr_status (prepare_goal now row) =
     (if gr_status row = Other_Status [] then Goal_Pending else gr_status row)"
  by (simp_all add: prepare_goal_def apply_budget_defaults_def)

lemma new_user_goal:
  "gr_status row = Goal_Pending \<Longrightarrow> gr_active_run_id row = [] \<Longrightarrow> gr_used_tool_turns row = 0 \<Longrightarrow>
    gr_used_segments row = 0 \<Longrightarrow> new_goal run (prepare_goal now row)"
  by (simp add: new_goal_def bound_ok_def phase_def)

lemma create_user_step:
  assumes laws: "gateway_db_laws D V"
  shows "goals_step V release_rel (new_goal run) d
    (fst (create_user_initiated D clock d session objective title criteria))"
proof -
  obtain d1 res where rep: "repair_stale_active D (clock 0) d (trim_space session) = (d1, res)"
    by (cases "repair_stale_active D (clock 0) d (trim_space session)")
  have s1: "goals_step V release_rel none_new d d1"
    using repair_step [OF laws, of none_new d "clock 0" "trim_space session"] rep by simp
  have g1: "goals_step V release_rel (new_goal run) d d1"
    using s1 by (rule goals_step_mono) auto
  have g2: "goals_step V release_rel (new_goal run) d d2"
    if "create_goal D now d1 row = Some (d2, created)" "gr_status row = Goal_Pending"
      "gr_active_run_id row = []" "gr_used_tool_turns row = 0" "gr_used_segments row = 0"
    for now row d2 created
    by (rule eq_step_new [OF s1 create_step [OF laws that(1)]]) (auto intro: new_user_goal that)
  show ?thesis
    unfolding create_user_initiated_def Let_def
    by (intro step_intros) (auto simp: rep g1 goals_step_refl zero_goal_row_def elim!: g2)
qed

subsection \<open>Steps of the tools\<close>

lemma written_goal_new:
  "run \<noteq> [] \<Longrightarrow> gp_run_id params = run \<Longrightarrow>
    new_goal run (prepare_goal now (written_goal t params objective criteria title activate))"
  by (simp add: new_goal_def written_goal_def bound_ok_def phase_def zero_goal_row_def Let_def)

lemma goal_write_step:
  assumes laws: "gateway_db_laws D V" and run: "gp_run_id params \<noteq> []"
  shows "goals_step V (tool_rel (gp_run_id params)) (new_goal (gp_run_id params)) d
    (fst (goal_write D clock d params))"
proof -
  let ?run = "gp_run_id params"
  have c: "goals_step V (tool_rel ?run) (new_goal ?run) d d1"
    if "create_goal D now d (written_goal t params o1 c1 t1 a) = Some (d1, created)"
    for now t o1 c1 t1 a d1 created
    by (rule create_step [OF laws that]) (simp_all add: written_goal_new run)
  note c2 = eq_step [OF c ignored_run_goal_step [OF laws]]
  show ?thesis
    unfolding goal_write_def Let_def
    by (intro step_intros) (auto simp: goals_step_refl elim!: c c2)
qed

lemma cancel_tool_step:
  assumes laws: "gateway_db_laws D V" and keyed: "goals_keyed V d"
    and row: "get_goal D d i = Some row" "gr_status row = Goal_Active \<Longrightarrow> gr_active_run_id row = run"
  shows "goals_step V (tool_rel run) N d (fst (cancel_goal D clock d session i))"
proof -
  have T: "goals_step V (tool_rel run) N d d'"
    if "transition_status D now d (gr_id row) s [Goal_Pending, Goal_Active, Goal_Paused] []
      (cancel_updates t row) = Some (d', c)" for now s t d' c
    by (rule transition_step [OF laws keyed that get_goal_row(1) [OF laws row(1)] refl rel_refl(1)])
      (use row(2) in \<open>auto simp: transition_guard_def tool_rel_def foreign_kept_def cancel_updates_def open_rel_simps
        intro!: open_goal_rel goal_moves\<close>)
  show ?thesis
    unfolding cancel_goal_def row(1)
    by (auto simp: goals_step_refl split: prod.split intro!: step_or_fail) (erule T)+
qed

text \<open>The row \<^verbatim>\<open>goal.update\<close> writes, against the one it read.\<close>

lemma edited_goal_simps [simp]:
  "gr_id (edited_goal args row) = gr_id row" "gr_status (edited_goal args row) = gr_status row"
  "gr_active_run_id (edited_goal args row) = gr_active_run_id row"
  "gr_last_run_id (edited_goal args row) = gr_last_run_id row"
  by (simp_all add: edited_goal_def)

lemma activated_goal_cases:
  assumes "activated_goal D now d params row = Inr row'"
  shows "row' = row \<or> (row' = activation now (gp_run_id params) row
    \<and> (gr_status row = Goal_Pending \<or> gr_status row = Goal_Paused))"
  using assms by (auto simp: activated_goal_def split: if_splits)

lemma update_rel:
  assumes "activated_goal D now d params (edited_goal args row) = Inr row'"
    "\<not> terminal_status (gr_status row)" "gp_run_id params \<noteq> []"
    "gr_status row = Goal_Active \<longrightarrow> gr_active_run_id row = gp_run_id params"
  shows "tool_rel (gp_run_id params) row ((update_columns row' row)\<lparr>gr_updated_at := t\<rparr>)"
  using activated_goal_cases [OF assms(1)] assms(2-4)
  by (auto simp: tool_rel_def foreign_kept_def activation_def update_columns_def same_identity_def same_usage_def
      bound_ok_def phase_def intro!: open_goal_rel goal_moves)

lemma goal_update_tool_step:
  assumes laws: "gateway_db_laws D V" and keyed: "goals_keyed V d" and run: "gp_run_id params \<noteq> []"
  shows "goals_step V (tool_rel (gp_run_id params)) N d (fst (goal_update D clock d params))"
proof -
  let ?run = "gp_run_id params"
  have T: "goals_step V (tool_rel ?run) N d d'"
    if "activated_goal D now d params (edited_goal args row) = Inr row'"
      "\<not> terminal_status (gr_status row)" "row \<in> set (row_goals (V d))"
      "gr_status row = Goal_Active \<longrightarrow> gr_active_run_id row = ?run"
      "transition_status D t d (gr_id row') s sts run' (update_columns row' ) = Some (d', c)"
    for now args row row' t s sts run' d' c
  proof (rule transition_step [OF laws keyed that(5,3) _ rel_refl(1)])
    show "gr_id row = gr_id row'"
      using activated_goal_cases [OF that(1)] by (auto simp: activation_def)
  qed (rule update_rel [OF that(1,2) run that(4)])
  have T2: "goals_step V (tool_rel ?run) N d d2"
    if "goals_step V (tool_rel ?run) N d d1" "set_run_goal D t d1 r g = Some d2" for d1 d2 t r g
    by (rule eq_step [OF that(1) set_run_goal_step [OF laws that(2)]]) simp
  show ?thesis
    unfolding goal_update_def Let_def
    by (intro step_intros)
      (auto simp: goals_step_refl cancel_tool_step [OF laws keyed] dest!: get_goal_row(1) [OF laws]
        split: if_splits, ((rule T2, erule (2) T, simp, assumption, assumption) | (erule (2) T, simp, assumption))+)
qed

lemma bound_active_goal_row:
  assumes "gateway_db_laws D V" "bound_active_goal D d session run i = Inr row"
  shows "row \<in> set (row_goals (V d))" "gr_session_id row = session" "gr_status row = Goal_Active"
    "gr_active_run_id row = run"
  using assms(2)
  by (auto simp: bound_active_goal_def split: option.splits if_splits
      dest: get_goal_row [OF assms(1)] goal_by_active_run_row [OF assms(1)])

text \<open>Writes guarded by the active run of the call touch only the goal bound to it.\<close>

definition stay_tool_rel :: "string \<Rightarrow> goal_row \<Rightarrow> goal_row \<Rightarrow> bool" where
  "stay_tool_rel run r r' \<longleftrightarrow> stay_rel r r' \<and> foreign_kept run r r'"

lemma stay_tool_refl [simp, intro!]: "stay_tool_rel run r r"
  by (simp add: stay_tool_rel_def foreign_kept_def)

lemma stay_tool: "stay_tool_rel run r s \<Longrightarrow> tool_rel run r s"
  unfolding stay_tool_rel_def stay_rel_def tool_rel_def goal_rel_def by (auto intro: goal_moves)

lemma tool_stay: "tool_rel run r s \<Longrightarrow> stay_tool_rel run s t \<Longrightarrow> tool_rel run r t"
  unfolding stay_tool_rel_def stay_rel_def tool_rel_def
proof (intro conjI, goal_cases)
  case 2
  then have "\<And>b. phase r = Bound b \<Longrightarrow> b \<noteq> run \<Longrightarrow> phase s = Bound b"
    unfolding goal_rel_def by (metis tool_move_BoundE)
  with 2 show ?case by (simp add: foreign_kept_def)
qed (blast intro: goal_rel_trans same_usage_trans)+

lemma checkpoint_guarded:
  assumes "gateway_db_laws D V" "run \<noteq> []"
    "transition_status D now d i session [Goal_Active] run (checkpoint_columns args summary row) = Some (d', c)"
  shows "goals_step V (stay_tool_rel run) N d d'"
  by (rule guarded_step [OF assms(1,3) stay_tool_refl])
    (use assms(2) in \<open>auto simp: transition_guard_def stay_tool_rel_def stay_rel_def foreign_kept_def
      checkpoint_columns_def open_rel_simps intro!: open_goal_rel\<close>)

lemma complete_guarded:
  assumes "gateway_db_laws D V" "run \<noteq> []" "terminal_status st"
    "transition_status D now d i session [Goal_Active] run (complete_columns t params st summary row)
      = Some (d', c)"
  shows "goals_step V (tool_rel run) N d d'"
  by (rule guarded_step [OF assms(1,4) rel_refl(1)])
    (use assms(2,3) in \<open>auto simp: transition_guard_def tool_rel_def foreign_kept_def
      complete_columns_def open_rel_simps phase_def intro!: open_goal_rel goal_moves\<close>)

lemma goal_checkpoint_step:
  assumes "gateway_db_laws D V" "gp_run_id params \<noteq> []"
  shows "goals_step V (stay_tool_rel (gp_run_id params)) N d (fst (goal_checkpoint D clock d params))"
  unfolding goal_checkpoint_def Let_def
  by (intro step_intros) (auto simp: goals_step_refl intro: checkpoint_guarded [OF assms])

lemma completion_status_terminal: "completion_status args = Some st \<Longrightarrow> terminal_status st"
  by (auto simp: completion_status_def Let_def split: if_splits)

lemma goal_complete_step:
  assumes "gateway_db_laws D V" "gp_run_id params \<noteq> []"
  shows "goals_step V (tool_rel (gp_run_id params)) N d (fst (goal_complete D clock d params))"
  unfolding goal_complete_def Let_def
  by (intro step_intros) (auto simp: goals_step_refl dest: completion_status_terminal
      intro: complete_guarded [OF assms])

lemma exhaust_goal_step:
  assumes laws: "gateway_db_laws D V" and run: "gp_run_id params \<noteq> []"
  shows "goals_step V (tool_rel (gp_run_id params)) N d (fst (exhaust_goal D clock d params row))"
proof -
  have T: "goals_step V (tool_rel (gp_run_id params)) N d d'"
    if "transition_status D now d i s [Goal_Active] (gp_run_id params)
      (\<lambda>r. r\<lparr>gr_status := Goal_Failed, gr_fail_reason := ''budget_exhausted'',
             gr_active_run_id := [], gr_last_run_id := gp_run_id params,
             gr_finished_at := Some t\<rparr>) = Some (d', c)" for now i s t d' c
    by (rule guarded_step [OF laws that rel_refl(1)])
      (use run in \<open>auto simp: transition_guard_def tool_rel_def foreign_kept_def open_rel_simps
        intro!: open_goal_rel goal_moves\<close>)
  show ?thesis
    unfolding exhaust_goal_def Let_def
    by (intro step_intros) (auto simp: goals_step_refl elim!: T)
qed

lemma segment_checkpoint_step:
  assumes laws: "gateway_db_laws D V" and run: "gp_run_id params \<noteq> []"
  shows "goals_step V (stay_tool_rel (gp_run_id params)) N d (fst (segment_checkpoint D now d params row))"
proof -
  have T: "goals_step V (stay_tool_rel (gp_run_id params)) N d d'"
    if "sql_update (db_goals D) d
         (\<lambda>r. gr_id r = i \<and> gr_status r = Goal_Active \<and> gr_active_run_id r = gp_run_id params)
         (\<lambda>r. r\<lparr>gr_checkpoint_summary := cp, gr_updated_at := now\<rparr>) = Some (d', n)" for i cp d' n
    by (rule goal_update_step [OF laws that stay_tool_refl])
      (auto simp: stay_tool_rel_def stay_rel_def foreign_kept_def open_rel_simps intro!: open_goal_rel)
  show ?thesis
    by (auto simp: segment_checkpoint_def Let_def ignoring_def goals_step_refl split: option.split elim!: T)
qed

end
