(* ===== verification/Goal_Properties.thy ===== *)
theory Goal_Properties
  imports Goal_Lifecycle
begin

text \<open>
  The accounting of goals, all operations of the goal service as one step, and the properties
  of goals: the life cycle, ownership, the finality of a settled goal, the sums behind the
  usage counters, the budget, completion, and the activation that \<^verbatim>\<open>goal.update\<close> refuses.
\<close>

subsection \<open>Accounting\<close>

definition segments_of :: "gateway_rows \<Rightarrow> string \<Rightarrow> segment_row list" where
  "segments_of s i = filter (\<lambda>g. sg_goal_id g = i) (row_segments s)"

definition usage_booked :: "gateway_rows \<Rightarrow> goal_row \<Rightarrow> bool" where
  "usage_booked s r \<longleftrightarrow>
     gr_used_tool_turns r = sum_list (map sg_tool_turns (segments_of s (gr_id r)))
     \<and> gr_used_segments r = int (length (segments_of s (gr_id r)))"

definition usage_ok :: "gateway_rows \<Rightarrow> bool" where
  "usage_ok s \<longleftrightarrow>
     list_all (usage_booked s) (row_goals s)
     \<and> sg_goal_id ` set (row_segments s) \<subseteq> gr_id ` set (row_goals s)"

lemma evolve_ids:
  assumes "rows_evolve R N rows rows'" "\<And>r s. R r s \<Longrightarrow> gr_id s = gr_id r"
  shows "gr_id ` set rows \<subseteq> gr_id ` set rows'"
  using rows_evolveD(1) [OF assms(1)] assms(2) by (metis image_subsetI imageI)

lemma usage_step:
  assumes step: "goals_step V R N d d'" and keyed: "goals_keyed V d" and ok: "usage_ok (V d)"
    and rel: "\<And>r s. R r s \<Longrightarrow> gr_id s = gr_id r \<and> same_usage r s"
    and new: "\<And>r. N r \<Longrightarrow> gr_used_tool_turns r = 0 \<and> gr_used_segments r = 0"
  shows "usage_ok (V d')"
proof -
  let ?rows = "row_goals (V d)" and ?rows' = "row_goals (V d')"
  have ev: "rows_evolve R N ?rows ?rows'" and seg: "row_segments (V d') = row_segments (V d)"
    and keyed': "goals_keyed V d'" using step keyed by (auto simp: goals_step_def)
  obtain f fresh where f: "mset ?rows' = mset (map f ?rows) + mset fresh"
    "\<forall>r \<in> set ?rows. R r (f r)" "\<forall>r \<in> set fresh. N r"
    using ev unfolding rows_evolve_def by blast
  have s: "set ?rows' = f ` set ?rows \<union> set fresh"
    using arg_cong [OF f(1), of set_mset] by (simp add: image_comp)
  have "mset (map gr_id ?rows') = mset (map gr_id (map f ?rows @ fresh))"
    using f(1) by (metis mset_append mset_map)
  then have "distinct (map gr_id (map f ?rows @ fresh))"
    using keyed' unfolding goals_keyed_def by (metis mset_eq_imp_distinct_iff)
  then have apart: "gr_id ` f ` set ?rows \<inter> gr_id ` set fresh = {}" by auto
  have ids: "gr_id ` f ` set ?rows = gr_id ` set ?rows"
    using f(2) rel by (force simp: image_iff)
  have "usage_booked (V d') r" if "r \<in> set ?rows'" for r
  proof (cases "r \<in> f ` set ?rows")
    case True
    then obtain q where "q \<in> set ?rows" "r = f q" by blast
    then have "gr_id r = gr_id q" "same_usage q r" using f(2) rel by blast+
    moreover have "usage_booked (V d) q"
      using ok \<open>q \<in> set ?rows\<close> by (simp add: usage_ok_def list_all_iff)
    ultimately show ?thesis
      by (simp add: usage_booked_def segments_of_def seg same_usage_def)
  next
    case False
    then have r: "r \<in> set fresh" using that s by blast
    then have "gr_id r \<notin> gr_id ` set ?rows" using apart unfolding ids by blast
    then have "gr_id r \<notin> sg_goal_id ` set (row_segments (V d))"
      using ok unfolding usage_ok_def by blast
    then have "segments_of (V d') (gr_id r) = []"
      unfolding segments_of_def seg filter_empty_conv by (metis imageI)
    moreover have "N r" using r f(3) by simp
    then have "gr_used_tool_turns r = 0 \<and> gr_used_segments r = 0" by (rule new)
    ultimately show ?thesis by (simp add: usage_booked_def)
  qed
  moreover have "sg_goal_id ` set (row_segments (V d')) \<subseteq> gr_id ` set ?rows'"
  proof -
    have "gr_id ` set ?rows \<subseteq> gr_id ` set ?rows'" by (rule evolve_ids [OF ev]) (use rel in auto)
    with ok show ?thesis unfolding usage_ok_def seg by (meson subset_trans)
  qed
  ultimately show ?thesis by (simp add: usage_ok_def list_all_iff)
qed

text \<open>The transaction of \<^verbatim>\<open>RecordSegment\<close> books a new segment with its goal, and nothing twice.\<close>

lemma record_segment_rows:
  assumes laws: "gateway_db_laws D V"
    and r: "record_segment D created updated d goal run index delta = Inr (d', recorded)"
  shows "if list_ex (segment_conflict (segment_row_for created goal run index delta)) (row_segments (V d))
    then \<not> recorded \<and> mset (row_segments (V d')) = mset (row_segments (V d))
      \<and> row_goals (V d') = row_goals (V d)
    else recorded
      \<and> mset (row_segments (V d')) =
          add_mset (segment_row_for created goal run index delta) (mset (row_segments (V d)))
      \<and> mset (row_goals (V d')) =
          mset (map (\<lambda>r. if gr_id r = goal then add_usage updated delta r else r) (row_goals (V d)))
      \<and> goals_keyed V d'"
proof -
  let ?seg = "segment_row_for created goal run index delta"
  obtain d1 isnew where i: "sql_insert_new (db_segments D) d ?seg = Some (d1, isnew)"
    and rest: "if isnew then \<exists>n. recorded \<and> sql_update (db_goals D) d1 (\<lambda>r. gr_id r = goal)
        (add_usage updated delta) = Some (d', n) else \<not> recorded \<and> d' = d1"
    using r by (auto simp: record_segment_def split: if_splits option.splits bool.splits prod.splits)
  note law = sql_insert_new_law [OF gateway_db_lawsD(10) [OF laws] i]
  have "(V d1)\<lparr>row_segments := []\<rparr> = (V d)\<lparr>row_segments := []\<rparr>"
    using sql_frame_law(4) [OF gateway_db_lawsD(18) [OF laws] i] .
  then have g1: "row_goals (V d1) = row_goals (V d)"
    by (metis gateway_rows.select_convs(2) gateway_rows.surjective gateway_rows.update_convs(3))
  show ?thesis
  proof (cases isnew)
    case False
    with law rest g1 show ?thesis by (auto split: if_splits)
  next
    case True
    with rest obtain n where u: "recorded" "sql_update (db_goals D) d1 (\<lambda>r. gr_id r = goal)
        (add_usage updated delta) = Some (d', n)" by auto
    note ulaw = sql_update_law [OF gateway_db_lawsD(2) [OF laws] u(2)]
    have "(V d')\<lparr>row_goals := []\<rparr> = (V d1)\<lparr>row_goals := []\<rparr>"
      using sql_frame_law(2) [OF gateway_db_lawsD(17) [OF laws] u(2)] .
    then have "row_segments (V d') = row_segments (V d1)"
      by (metis gateway_rows.select_convs(3) gateway_rows.surjective gateway_rows.update_convs(2))
    with True law ulaw u(1) g1 show ?thesis by (auto simp: goals_keyed_def split: if_splits)
  qed
qed

lemma add_usage_rel: "goal_rel (\<lambda>p q. q = p) r (add_usage now delta r)"
  "foreign_kept run r (add_usage now delta r)"
  by (simp_all add: goal_rel_defs add_usage_def foreign_kept_def)

definition charge_rel :: "string \<Rightarrow> goal_row \<Rightarrow> goal_row \<Rightarrow> bool" where
  "charge_rel run r r' \<longleftrightarrow> goal_rel (\<lambda>p q. q = p) r r' \<and> foreign_kept run r r'"

lemma charge_refl [simp, intro!]: "charge_rel run r r"
  by (simp add: charge_rel_def foreign_kept_def goal_rel_defs)

lemma charge_add: "charge_rel run r (add_usage now delta r)"
  by (simp add: charge_rel_def add_usage_rel)

lemma record_segment_evolves:
  assumes "gateway_db_laws D V"
    "record_segment D created updated d goal run index delta = Inr (d', recorded)"
  shows "rows_evolve (charge_rel run') N (row_goals (V d)) (row_goals (V d'))"
    and "goals_keyed V d \<Longrightarrow> goals_keyed V d'"
proof -
  note rows = record_segment_rows [OF assms]
  show "rows_evolve (charge_rel run') N (row_goals (V d)) (row_goals (V d'))"
  proof (cases recorded)
    case False
    with rows show ?thesis by (auto intro!: rows_evolve_same split: if_splits)
  next
    case True
    with rows have "mset (row_goals (V d')) =
        mset (map (\<lambda>r. if gr_id r = goal then add_usage updated delta r else r) (row_goals (V d)))"
      by (auto split: if_splits)
    then show ?thesis
      by (rule rows_evolve_update) (simp_all add: charge_add)
  qed
  show "goals_keyed V d \<Longrightarrow> goals_keyed V d'"
    using rows by (auto simp: goals_keyed_def split: if_splits)
qed

lemma segments_of_mset:
  "mset (row_segments s') = mset (row_segments s) \<Longrightarrow> mset (segments_of s' i) = mset (segments_of s i)"
  by (simp add: segments_of_def)

lemma usage_booked_cong:
  "mset (row_segments s') = mset (row_segments s) \<Longrightarrow> usage_booked s' r = usage_booked s r"
  using segments_of_mset [of s' s "gr_id r"] unfolding usage_booked_def
  by (metis mset_eq_length mset_map sum_mset_sum_list)

lemma record_segment_usage:
  assumes laws: "gateway_db_laws D V" and ok: "usage_ok (V d)"
    and r: "record_segment D created updated d goal run index delta = Inr (d', recorded)"
    and goal: "goal \<in> gr_id ` set (row_goals (V d))"
  shows "usage_ok (V d')"
proof (cases recorded)
  case False
  with record_segment_rows [OF laws r] have "mset (row_segments (V d')) = mset (row_segments (V d))"
    "row_goals (V d') = row_goals (V d)" by (auto split: if_splits)
  with ok usage_booked_cong [OF this(1)] mset_eq_setD [OF this(1)] show ?thesis
    by (simp add: usage_ok_def list_all_iff)
next
  case True
  let ?seg = "segment_row_for created goal run index delta"
  let ?f = "\<lambda>r. if gr_id r = goal then add_usage updated delta r else r"
  from True record_segment_rows [OF laws r] have
    s: "mset (row_segments (V d')) = mset (?seg # row_segments (V d))"
    and g: "mset (row_goals (V d')) = mset (map ?f (row_goals (V d)))" by (auto split: if_splits)
  have sg: "set (row_goals (V d')) = ?f ` set (row_goals (V d))"
    using mset_eq_setD [OF g] by simp
  have [simp]: "gr_id (?f q) = gr_id q" for q by (simp add: add_usage_def)
  have m: "mset (segments_of (V d') i) = mset (filter (\<lambda>g. sg_goal_id g = i) (?seg # row_segments (V d)))" for i
    using s by (metis mset_filter segments_of_def)
  have "sum_list (map sg_tool_turns (segments_of (V d') i)) =
      sum_list (map sg_tool_turns (filter (\<lambda>g. sg_goal_id g = i) (?seg # row_segments (V d))))" for i
    using arg_cong [OF m [of i], of "\<lambda>M. sum_mset (image_mset sg_tool_turns M)"]
    by (simp only: mset_map [symmetric] sum_mset_sum_list)
  then have seg: "sum_list (map sg_tool_turns (segments_of (V d') i)) =
      (if i = goal then delta else 0) + sum_list (map sg_tool_turns (segments_of (V d) i))"
    "length (segments_of (V d') i) = (if i = goal then 1 else 0) + length (segments_of (V d) i)" for i
    using mset_eq_length [OF m [of i]] by (simp_all add: segment_row_for_def segments_of_def)
  have "usage_booked (V d') (?f q)" if "q \<in> set (row_goals (V d))" for q
    using ok that by (auto simp: usage_ok_def usage_booked_def list_all_iff seg add_usage_def)
  moreover have "sg_goal_id ` set (row_segments (V d')) \<subseteq> gr_id ` set (row_goals (V d'))"
  proof -
    have "gr_id ` set (row_goals (V d')) = gr_id ` set (row_goals (V d))"
      unfolding sg image_image by (rule image_cong) (simp_all add: add_usage_def)
    moreover have "sg_goal_id ` set (row_segments (V d')) = insert goal (sg_goal_id ` set (row_segments (V d)))"
      using mset_eq_setD [OF s] by (simp add: segment_row_for_def)
    ultimately show ?thesis using ok goal by (simp add: usage_ok_def)
  qed
  ultimately show ?thesis unfolding usage_ok_def list_all_iff sg by blast
qed

subsection \<open>\<^verbatim>\<open>segment_end\<close>\<close>

text \<open>What a tool call may do to a goal when it also books a segment.\<close>

definition spend_rel :: "string \<Rightarrow> goal_row \<Rightarrow> goal_row \<Rightarrow> bool" where
  "spend_rel run r r' \<longleftrightarrow> goal_rel (tool_move run) r r' \<and> foreign_kept run r r'"

lemma spend_refl [simp, intro!]: "spend_rel run r r"
  by (simp add: spend_rel_def foreign_kept_def goal_rel_defs goal_moves)

lemma tool_spend: "tool_rel run r s \<Longrightarrow> spend_rel run r s"
  by (simp add: tool_rel_def spend_rel_def)

lemma charge_spend: "charge_rel run r s \<Longrightarrow> spend_rel run r s"
  unfolding charge_rel_def spend_rel_def goal_rel_def by (auto intro: goal_moves)

lemma charge_tool: "charge_rel run r s \<Longrightarrow> tool_rel run s t \<Longrightarrow> spend_rel run r t"
  unfolding charge_rel_def tool_rel_def spend_rel_def
proof (intro conjI, goal_cases)
  case 2
  then have "phase s = phase r" unfolding goal_rel_def by blast
  with 2 show ?case by (simp add: foreign_kept_def)
qed (blast intro: goal_rel_trans)

lemma goal_for_tool_row:
  assumes "gateway_db_laws D V" "goal_for_tool D d session run i = Some row"
  shows "row \<in> set (row_goals (V d))" "gr_session_id row = session"
  using assms(2)
  by (auto simp: goal_for_tool_def active_goal_def split: option.splits if_splits
      dest: get_goal_row [OF assms(1)] goal_by_active_run_row [OF assms(1)]
        session_goal_in_row [OF assms(1)])

text \<open>The two halves of \<^verbatim>\<open>segment_end\<close>: the booking, then the writes of a tool.\<close>

lemma segment_end_cases:
  assumes laws: "gateway_db_laws D V" and run: "gp_run_id params \<noteq> []"
    and s: "segment_end D clock d params = (d', res)"
  obtains (unbooked) "d' = d"
  | (booked) row0 d1 recorded delta index where
      "goal_for_tool D d (gp_session_id params) (gp_run_id params)
         (arg (gp_arguments params) ''goal_id'') = Some row0"
      "d1 = d \<and> \<not> recorded \<or> record_segment D (clock 0) (clock 1) d (gr_id row0) (gp_run_id params)
         index delta = Inr (d1, recorded)"
      "\<And>N. goals_step V (tool_rel (gp_run_id params)) N d1 d'"
proof -
  let ?run = "gp_run_id params" and ?args = "gp_arguments params"
  let ?index = "int_arg ?args ''segment_index'' (-1)" and ?delta = "max 0 (int_arg ?args ''delta_tool_turns'' 0)"
  show thesis
  proof (cases "goal_for_tool D d (gp_session_id params) ?run (arg ?args ''goal_id'')")
    case None
    with s show thesis by (auto simp: segment_end_def Let_def intro: unbooked)
  next
    case (Some row0)
    let ?book = "if ?delta > 0 \<or> \<not> bool_arg ?args ''budget_exhausted'' False
                    then record_segment D (clock 0) (clock 1) d (gr_id row0) ?run ?index ?delta
                    else Inr (d, False)"
    show thesis
    proof (cases ?book)
      case (Inl e)
      with Some s show thesis by (auto simp: segment_end_def Let_def intro: unbooked)
    next
      case (Inr b)
      obtain d1 recorded where b: "b = (d1, recorded)" by (cases b)
      have tail: "goals_step V (tool_rel ?run) none_new d1 d'"
      proof (cases "get_goal D d1 (gr_id row0)")
        case None
        with Some Inr b s show ?thesis
          by (auto simp: segment_end_def Let_def goals_step_refl simp del: max_def)
      next
        case (Some row1)
        obtain d2 r2 where e: "exhaust_goal D clock d1 params row1 = (d2, r2)"
          by (cases "exhaust_goal D clock d1 params row1")
        have s2: "goals_step V (tool_rel ?run) none_new d1 d2"
          using exhaust_goal_step [OF laws run, of none_new d1 clock row1] e by simp
        show ?thesis
        proof (cases r2)
          case (Inl e2)
          with \<open>goal_for_tool D d _ _ _ = Some row0\<close> Inr b Some e s have "d' = d2"
            by (auto simp: segment_end_def Let_def)
          with s2 show ?thesis by simp
        next
          case (Inr row2)
          with \<open>goal_for_tool D d _ _ _ = Some row0\<close> \<open>?book = _\<close> b Some e s
          have "d' = fst (segment_checkpoint D (clock 4) d2 params row2)"
            by (auto simp: segment_end_def Let_def split: prod.splits)
          with segment_checkpoint_step [OF laws run, of none_new d2 "clock 4" row2]
          have "goals_step V (stay_tool_rel ?run) none_new d2 d'" by simp
          from goals_step_trans [OF s2 this] show ?thesis by (blast intro: tool_stay)
        qed
      qed
      show thesis
        by (rule booked [OF Some _ none_new_step [OF tail]]) (use Inr b in \<open>auto split: if_splits\<close>)
    qed
  qed
qed

subsection \<open>All operations\<close>

lemma trim_nonempty: "trim_space s \<noteq> [] \<Longrightarrow> s \<noteq> []"
  by (auto simp: trim_space_def)

text \<open>The tools other than \<^verbatim>\<open>segment_end\<close> only move goals.\<close>

lemma execute_goal_tool_cases:
  assumes laws: "gateway_db_laws D V" and keyed: "goals_keyed V d"
    and e: "execute_goal_tool D clock d params = (d', res)"
  obtains (moved) "goals_step V (tool_rel (gp_run_id params)) (new_goal (gp_run_id params)) d d'"
  | (segment) "gp_run_id params \<noteq> []" "segment_end D clock d params = (d', res)"
proof (cases "trim_space (gp_run_id params) = []")
  case True
  with e show thesis by (auto simp: execute_goal_tool_def goals_step_refl intro: moved)
next
  case False
  then have run: "gp_run_id params \<noteq> []" by (rule trim_nonempty)
  note steps = goal_write_step [OF laws run, of d clock] goal_update_tool_step [OF laws keyed run, of _ clock]
    none_new_step [OF goals_step_mono [OF goal_checkpoint_step [OF laws run, of none_new d clock] stay_tool]]
    goal_complete_step [OF laws run, of _ d clock]
  show thesis
  proof (cases "res = snd (segment_end D clock d params) \<and> d' = fst (segment_end D clock d params)")
    case True
    with run show thesis by (intro segment) (auto simp: prod_eq_iff)
  next
    case False
    have "d' = fst (execute_goal_tool D clock d params)" by (simp add: e)
    also have "goals_step V (tool_rel (gp_run_id params)) (new_goal (gp_run_id params)) d \<dots>"
      using False e steps
      by (auto simp: execute_goal_tool_def Let_def goals_step_refl split: if_splits)
    finally show thesis by (rule moved)
  qed
qed

text \<open>
  One call into the goal service: a tool call of a run, a request of the user, or a step of the
  Gateway itself, in the order they reach the database.
\<close>

datatype goal_op =
    Op_Tool goal_params
  | Op_Cancel string string
  | Op_Create string string string string
  | Op_Bind string string string bool
  | Op_Pause_Run string string
  | Op_Pause_Session string string
  | Op_Run_End string string
  | Op_Repair string

fun goal_op_state :: "'d gateway_db \<Rightarrow> (nat \<Rightarrow> int) \<Rightarrow> 'd \<Rightarrow> goal_op \<Rightarrow> 'd" where
  "goal_op_state D clock d (Op_Tool params) = fst (execute_goal_tool D clock d params)"
| "goal_op_state D clock d (Op_Cancel session i) = fst (cancel_goal D clock d session i)"
| "goal_op_state D clock d (Op_Create session objective title criteria) =
     fst (create_user_initiated D clock d session objective title criteria)"
| "goal_op_state D clock d (Op_Bind session run i continue) =
     fst (bind_to_run D clock d session run i continue)"
| "goal_op_state D clock d (Op_Pause_Run run reason) = fst (pause_by_run D (clock 0) d run reason)"
| "goal_op_state D clock d (Op_Pause_Session session reason) =
     fst (pause_by_session D (clock 0) d session reason)"
| "goal_op_state D clock d (Op_Run_End run finish) = fst (on_root_run_terminal D clock d run finish)"
| "goal_op_state D clock d (Op_Repair session) = fst (repair_stale_active D (clock 0) d session)"

fun goal_op_ok :: "goal_op \<Rightarrow> bool" where
  "goal_op_ok (Op_Bind session run i continue) = (run \<noteq> [])"
| "goal_op_ok _ = True"

fun run_goal_ops :: "'d gateway_db \<Rightarrow> 'd \<Rightarrow> ((nat \<Rightarrow> int) \<times> goal_op) list \<Rightarrow> 'd" where
  "run_goal_ops D d [] = d"
| "run_goal_ops D d ((clock, op) # ops) = run_goal_ops D (goal_op_state D clock d op) ops"

definition any_rel :: "goal_row \<Rightarrow> goal_row \<Rightarrow> bool" where
  "any_rel = goal_rel (\<lambda>_ _. True)"

lemma any_rel_intros:
  "gateway_rel r s \<Longrightarrow> any_rel r s" "release_rel r s \<Longrightarrow> any_rel r s" "tool_rel run r s \<Longrightarrow> any_rel r s"
  "spend_rel run r s \<Longrightarrow> any_rel r s" "charge_rel run r s \<Longrightarrow> any_rel r s"
  by (simp_all add: any_rel_def gateway_rel_def release_rel_def tool_rel_def spend_rel_def
      charge_rel_def goal_rel_def)

lemma bound_ok_rel: "bound_ok r \<Longrightarrow> any_rel r s \<Longrightarrow> bound_ok s"
  by (simp add: any_rel_def goal_rel_def)

lemma rel_usage:
  "gateway_rel r s \<Longrightarrow> gr_id s = gr_id r \<and> same_usage r s"
  "release_rel r s \<Longrightarrow> gr_id s = gr_id r \<and> same_usage r s"
  "tool_rel run r s \<Longrightarrow> gr_id s = gr_id r \<and> same_usage r s"
  by (simp_all add: gateway_rel_def release_rel_def tool_rel_def goal_rel_def same_identity_def)

lemma counters_reset_status: "counters_reset s = counters_reset r \<Longrightarrow> gr_status s = gr_status r"
  by (metis counters_reset_def goal_row.select_convs(6) goal_row.surjective goal_row.update_convs(20,21,23,31))

lemma any_rel_trans: "any_rel r s \<Longrightarrow> any_rel s t \<Longrightarrow> any_rel r t"
  unfolding any_rel_def goal_rel_def
  by (auto simp: settled_kept_def same_identity_def dest: counters_reset_status)

text \<open>What one call keeps.\<close>

definition op_keeps :: "('d \<Rightarrow> gateway_rows) \<Rightarrow> 'd \<Rightarrow> 'd \<Rightarrow> bool" where
  "op_keeps V d d' \<longleftrightarrow>
     rows_evolve any_rel bound_ok (row_goals (V d)) (row_goals (V d'))
     \<and> goals_keyed V d' \<and> (usage_ok (V d) \<longrightarrow> usage_ok (V d'))"

lemma step_keeps:
  assumes "goals_step V R N d d'" "goals_keyed V d"
    "\<And>r s. R r s \<Longrightarrow> any_rel r s" "\<And>r s. R r s \<Longrightarrow> gr_id s = gr_id r \<and> same_usage r s"
    "\<And>r. N r \<Longrightarrow> new_goal run r"
  shows "op_keeps V d d'"
proof -
  have "usage_ok (V d')" if "usage_ok (V d)"
    by (rule usage_step [OF assms(1,2) that assms(4)]) (use assms(5) in \<open>auto simp: new_goal_def\<close>)
  moreover have "rows_evolve any_rel bound_ok (row_goals (V d)) (row_goals (V d'))"
    using rows_evolve_mono [of R N _ _ any_rel bound_ok] assms(1,3,5)
    unfolding goals_step_def new_goal_def by blast
  ultimately show ?thesis using assms(1,2) by (auto simp: op_keeps_def goals_step_def)
qed

lemma segment_end_keeps:
  assumes laws: "gateway_db_laws D V" and keyed: "goals_keyed V d" and run: "gp_run_id params \<noteq> []"
    and s: "segment_end D clock d params = (d', res)"
  shows "op_keeps V d d' \<and> rows_evolve (spend_rel (gp_run_id params)) none_new
    (row_goals (V d)) (row_goals (V d'))"
  using laws run s
proof (cases rule: segment_end_cases)
  case unbooked
  then show ?thesis using keyed
    by (simp add: op_keeps_def rows_evolve_same any_rel_intros(4) [OF spend_refl])
next
  case (booked row0 d1 recorded delta index)
  let ?run = "gp_run_id params"
  have one: "rows_evolve (charge_rel ?run) none_new (row_goals (V d)) (row_goals (V d1)) \<and> goals_keyed V d1
      \<and> (usage_ok (V d) \<longrightarrow> usage_ok (V d1))"
    using booked(2)
  proof
    assume "d1 = d \<and> \<not> recorded"
    with keyed show ?thesis by (simp add: rows_evolve_same)
  next
    assume r: "record_segment D (clock 0) (clock 1) d (gr_id row0) ?run index delta = Inr (d1, recorded)"
    have "gr_id row0 \<in> gr_id ` set (row_goals (V d))"
      using goal_for_tool_row(1) [OF laws booked(1)] by simp
    then show ?thesis
      using record_segment_evolves [OF laws r] keyed record_segment_usage [OF laws _ r] by blast
  qed
  have two: "goals_step V (tool_rel ?run) none_new d1 d'" by (rule booked(3))
  have ev: "rows_evolve (spend_rel ?run) none_new (row_goals (V d)) (row_goals (V d'))"
    by (rule rows_evolve_trans [of "charge_rel ?run" none_new _ "row_goals (V d1)" "tool_rel ?run"])
      (use one two in \<open>auto simp: goals_step_def intro: charge_tool\<close>)
  have "op_keeps V d1 d'"
    by (rule step_keeps [OF two]) (use one in \<open>auto intro: any_rel_intros dest: rel_usage\<close>)
  with one have "goals_keyed V d'" "usage_ok (V d) \<longrightarrow> usage_ok (V d')"
    unfolding op_keeps_def by blast+
  moreover have "rows_evolve any_rel bound_ok (row_goals (V d)) (row_goals (V d'))"
    using ev by (rule rows_evolve_mono) (auto intro: any_rel_intros)
  ultimately show ?thesis using ev by (simp add: op_keeps_def)
qed

lemma tool_keeps:
  assumes laws: "gateway_db_laws D V" and keyed: "goals_keyed V d"
    and e: "execute_goal_tool D clock d params = (d', res)"
  shows "op_keeps V d d'"
  using laws keyed e
proof (cases rule: execute_goal_tool_cases)
  case moved
  then show ?thesis
    by (rule step_keeps) (use keyed in \<open>auto intro: any_rel_intros  dest: rel_usage\<close>)
next
  case segment
  with segment_end_keeps [OF laws keyed] show ?thesis by blast
qed

lemma gateway_step_keeps:
  assumes "goals_keyed V d"
  shows "goals_step V gateway_rel none_new d d' \<Longrightarrow> op_keeps V d d'"
    and "goals_step V release_rel none_new d d' \<Longrightarrow> op_keeps V d d'"
    and "goals_step V release_rel (new_goal run) d d' \<Longrightarrow> op_keeps V d d'"
  by (erule step_keeps; use assms in \<open>auto intro: any_rel_intros  dest: rel_usage\<close>)+

lemma goal_op_keeps:
  assumes laws: "gateway_db_laws D V" and keyed: "goals_keyed V d" and ok: "goal_op_ok op"
  shows "op_keeps V d (goal_op_state D clock d op)"
proof (cases op)
  case (Op_Tool params)
  then show ?thesis using tool_keeps [OF laws keyed] by (simp add: prod_eq_iff)
next
  case (Op_Bind session run i continue)
  then show ?thesis
    using ok bind_to_run_step [OF laws, of run d clock session i continue]
    by (simp add: gateway_step_keeps(1) [OF keyed])
qed (simp_all add: gateway_step_keeps [OF keyed] cancel_step [OF laws] repair_step [OF laws]
    pause_by_run_step [OF laws] pause_by_session_step [OF laws] on_root_run_terminal_step [OF laws]
    gateway_step_keeps(3) [OF keyed create_user_step [OF laws, of "[]"]])

lemma goal_ops_keep:
  assumes laws: "gateway_db_laws D V"
  shows "goals_keyed V d \<Longrightarrow> list_all (\<lambda>(clock, op). goal_op_ok op) ops \<Longrightarrow>
    op_keeps V d (run_goal_ops D d ops)"
proof (induction ops arbitrary: d)
  case Nil
  then show ?case by (simp add: op_keeps_def rows_evolve_same any_rel_intros(4) [OF spend_refl])
next
  case (Cons c ops)
  obtain clock op where c: "c = (clock, op)" by (cases c)
  let ?d1 = "goal_op_state D clock d op" and ?d2 = "run_goal_ops D d (c # ops)"
  have one: "op_keeps V d ?d1" using goal_op_keeps [OF laws Cons.prems(1)] Cons.prems(2) c by simp
  have two: "op_keeps V ?d1 ?d2"
    using Cons.IH [of ?d1] one Cons.prems(2) c by (simp add: op_keeps_def)
  have "rows_evolve any_rel bound_ok (row_goals (V d)) (row_goals (V ?d2))"
    by (rule rows_evolve_trans [of any_rel bound_ok _ "row_goals (V ?d1)" any_rel])
      (use one two in \<open>auto simp: op_keeps_def intro: any_rel_trans bound_ok_rel\<close>)
  with one two show ?case by (simp add: op_keeps_def)
qed

subsection \<open>Properties\<close>

text \<open>A state with one session and one goal, bound to a run, for the examples.\<close>

definition witness_goal :: goal_row where
  "witness_goal = zero_goal_row
     \<lparr>gr_id := ''g'', gr_session_id := ''s'', gr_status := Goal_Active, gr_active_run_id := ''r'',
      gr_max_total_tool_turns := 96\<rparr>"

definition witness_session :: session_row where
  "witness_session =
     \<lparr>ss_id = ''s'', ss_name = ''s'', ss_workspace_root = [], ss_status = ''active'', ss_parent_id = [],
      ss_kind = ''normal'', ss_source_session_id = [], ss_fork_point_seq = 0,
      ss_fork_point_run_id = [], ss_created_at = 0, ss_updated_at = 0, ss_deleted_at = None\<rparr>"

definition witness_rows :: gateway_rows where
  "witness_rows = empty_rows\<lparr>row_goals := [witness_goal], row_sessions := [witness_session]\<rparr>"

definition witness_goal_params :: "string \<Rightarrow> go_map \<Rightarrow> goal_params" where
  "witness_goal_params tool args =
     \<lparr>gp_run_id = ''r'', gp_session_id = ''s'', gp_workspace_root = [], gp_tool_call_id = ''t'',
      gp_tool_name = tool, gp_arguments = args\<rparr>"

lemma witness_rows_simps [simp]:
  "row_goals witness_rows = [witness_goal]" "row_sessions witness_rows = [witness_session]"
  "row_runs witness_rows = []" "row_segments witness_rows = []"
  by (simp_all add: witness_rows_def empty_rows_def)

lemma witness_goal_simps [simp]:
  "gr_id witness_goal = ''g''" "gr_session_id witness_goal = ''s''"
  "gr_status witness_goal = Goal_Active" "gr_active_run_id witness_goal = ''r''"
  "gr_max_total_tool_turns witness_goal = 96" "gr_used_tool_turns witness_goal = 0"
  "gr_used_segments witness_goal = 0"
  by (simp_all add: witness_goal_def zero_goal_row_def)

lemma witness_keyed: "goals_keyed (\<lambda>d. d) witness_rows"
  by (simp add: goals_keyed_def)

text \<open>
  C25. A tool call moves goals only along the life cycle, as the abstract state machine
  \<open>tool_move\<close> allows it for the calling run: it can bind a waiting goal to its own run, settle
  the goal bound to its own run, or cancel a waiting one. A goal bound to another run keeps
  everything but its usage counters, a settled one its phase, and a goal it creates waits or
  is bound to the calling run. This holds for every tool and on every error path.
\<close>

theorem goal_tools_refine_lifecycle:
  assumes "gateway_db_laws D V" and "goals_keyed V d"
    and "execute_goal_tool D clock d params = (d', res)"
  shows "rows_evolve
      (\<lambda>r r'. tool_move (gp_run_id params) (phase r) (phase r') \<and> foreign_kept (gp_run_id params) r r')
      (\<lambda>r. phase r = Waiting \<or> phase r = Bound (gp_run_id params))
      (row_goals (V d)) (row_goals (V d'))"
  using assms
proof (cases rule: execute_goal_tool_cases)
  case moved
  then show ?thesis unfolding goals_step_def
    by (elim conjE rows_evolve_mono) (simp_all add: tool_rel_def goal_rel_def new_goal_def)
next
  case segment
  from segment_end_keeps [OF assms(1,2) this] show ?thesis
    by (elim conjE rows_evolve_mono) (simp_all add: spend_rel_def goal_rel_def)
qed

theorem goal_tools_refine_lifecycle_witness:
  "\<exists>r'. r' \<in> set (row_goals (fst (execute_goal_tool mem_db (\<lambda>_. 0) witness_rows
        (witness_goal_params ''goal.complete'' [(''summary'', GStr ''ok'')]))))
    \<and> tool_move ''r'' (Bound ''r'') (phase r')"
proof -
  let ?p = "witness_goal_params ''goal.complete'' [(''summary'', GStr ''ok'')]"
  let ?e = "execute_goal_tool mem_db (\<lambda>_. 0) witness_rows ?p"
  have "?e = (fst ?e, snd ?e)" by simp
  from goal_tools_refine_lifecycle [OF mem_db_laws witness_keyed this]
  have "\<exists>r' \<in> set (row_goals (fst (execute_goal_tool mem_db (\<lambda>_. 0) witness_rows ?p))).
      tool_move ''r'' (phase witness_goal) (phase r')"
    by (rule rows_evolveD(1) [THEN bexE]) (auto simp: witness_goal_params_def)
  then show ?thesis by (auto simp: phase_def)
qed

text \<open>
  C26. A settled goal is final. Whatever calls follow, from any run, the user or the Gateway
  itself and in any order, a goal that has succeeded, failed or been cancelled is still there
  and keeps its status, report, reasons, times and owner; only the usage counters and the time
  of the last update can still change.
\<close>

theorem settled_goals_final:
  assumes "gateway_db_laws D V" and "goals_keyed V d"
    and "list_all (\<lambda>(clock, op). goal_op_ok op) ops"
    and "r \<in> set (row_goals (V d))" and "terminal_status (gr_status r)"
  shows "\<exists>r' \<in> set (row_goals (V (run_goal_ops D d ops))).
      gr_id r' = gr_id r \<and> counters_reset r' = counters_reset r"
proof -
  have "rows_evolve any_rel bound_ok (row_goals (V d)) (row_goals (V (run_goal_ops D d ops)))"
    using goal_ops_keep [OF assms(1-3)] by (simp add: op_keeps_def)
  from rows_evolveD(1) [OF this assms(4)] assms(5) show ?thesis
    by (auto simp: any_rel_def goal_rel_def settled_kept_def same_identity_def)
qed

theorem settled_goals_final_witness:
  "\<exists>r' \<in> set (row_goals (run_goal_ops mem_db
        (witness_rows\<lparr>row_goals := [witness_goal\<lparr>gr_status := Goal_Succeeded\<rparr>]\<rparr>)
        [(\<lambda>_. 0, Op_Cancel ''s'' ''g''), (\<lambda>_. 1, Op_Repair ''s'')])).
     gr_id r' = ''g'' \<and> gr_status r' = Goal_Succeeded"
proof -
  let ?d = "witness_rows\<lparr>row_goals := [witness_goal\<lparr>gr_status := Goal_Succeeded\<rparr>]\<rparr>"
  have "goals_keyed (\<lambda>d. d) ?d" by (simp add: goals_keyed_def)
  from settled_goals_final [OF mem_db_laws this, of
      "[(\<lambda>_. 0, Op_Cancel ''s'' ''g''), (\<lambda>_. 1, Op_Repair ''s'')]" "witness_goal\<lparr>gr_status := Goal_Succeeded\<rparr>"]
  obtain r' where "r' \<in> set (row_goals (run_goal_ops mem_db ?d
        [(\<lambda>_. 0, Op_Cancel ''s'' ''g''), (\<lambda>_. 1, Op_Repair ''s'')]))" "gr_id r' = ''g''"
      "counters_reset r' = counters_reset (witness_goal\<lparr>gr_status := Goal_Succeeded\<rparr>)"
    by auto
  with counters_reset_status [OF this(3)] show ?thesis by (intro bexI [of _ r']) simp_all
qed

text \<open>
  C27. The books balance. Starting from a state where it holds, after any sequence of calls the
  tool turns and the segments a goal reports are exactly the sum and the number of its recorded
  segments, however often a run reports a segment again, and exactly the active goals name the
  run they are bound to.
\<close>

theorem goal_books_balance:
  assumes "gateway_db_laws D V" and "goals_keyed V d"
    and "list_all (\<lambda>(clock, op). goal_op_ok op) ops"
    and "usage_ok (V d)" and "list_all bound_ok (row_goals (V d))"
  shows "usage_ok (V (run_goal_ops D d ops))
    \<and> list_all bound_ok (row_goals (V (run_goal_ops D d ops)))"
proof -
  note keeps = goal_ops_keep [OF assms(1-3), unfolded op_keeps_def]
  have "bound_ok r'" if "r' \<in> set (row_goals (V (run_goal_ops D d ops)))" for r'
    using rows_evolveD(2) [OF conjunct1 [OF keeps] that] assms(5)
    by (auto simp: list_all_iff intro: bound_ok_rel)
  then show ?thesis using keeps assms(4) by (simp add: list_all_iff)
qed

theorem goal_books_balance_witness:
  "usage_ok (run_goal_ops mem_db witness_rows
     [(\<lambda>_. 0, Op_Tool (witness_goal_params ''segment_end''
        [(''segment_index'', GInt 0), (''delta_tool_turns'', GInt 5)]))])"
  using goal_books_balance [OF mem_db_laws witness_keyed, of
     "[(\<lambda>_. 0, Op_Tool (witness_goal_params ''segment_end''
        [(''segment_index'', GInt 0), (''delta_tool_turns'', GInt 5)]))]"]
  by (simp add: usage_ok_def usage_booked_def segments_of_def bound_ok_def)

lemma guarded_rows:
  assumes "gateway_db_laws D V"
    and "transition_status D now d i session sts run upd = Some (d', c)"
  shows "mset (row_goals (V d')) = mset (map (\<lambda>r. if transition_guard i session sts run r
      then (upd r)\<lparr>gr_updated_at := now\<rparr> else r) (row_goals (V d)))"
    and "c \<longleftrightarrow> length (filter (transition_guard i session sts run) (row_goals (V d))) = 1"
  using assms(2) sql_update_law [OF gateway_db_lawsD(2) [OF assms(1)]]
  by (auto simp: transition_status_def)

lemma transition_hits:
  assumes "gateway_db_laws D V" and keyed: "goals_keyed V d" and row: "row \<in> set (row_goals (V d))"
    and "transition_guard (gr_id row) session sts run row"
    and t: "transition_status D now d (gr_id row) session sts run upd = Some (d', c)"
  shows "mset (row_goals (V d')) = mset (map (\<lambda>r. if gr_id r = gr_id row
      then (upd row)\<lparr>gr_updated_at := now\<rparr> else r) (row_goals (V d)))"
proof -
  have "transition_guard (gr_id row) session sts run r \<longleftrightarrow> gr_id r = gr_id row"
    if "r \<in> set (row_goals (V d))" for r
    using goals_keyedD [OF keyed that row] assms(4) by (auto simp: transition_guard_def)
  moreover have "r = row" if "r \<in> set (row_goals (V d))" "gr_id r = gr_id row" for r
    using goals_keyedD [OF keyed that(1) row that(2)] .
  ultimately have "map (\<lambda>r. if transition_guard (gr_id row) session sts run r
      then (upd r)\<lparr>gr_updated_at := now\<rparr> else r) (row_goals (V d))
    = map (\<lambda>r. if gr_id r = gr_id row then (upd row)\<lparr>gr_updated_at := now\<rparr> else r) (row_goals (V d))"
    by (intro map_cong) auto
  with guarded_rows(1) [OF assms(1) t] show ?thesis by simp
qed

lemma transition_misses:
  assumes "gateway_db_laws D V" "transition_status D now d i session sts run upd = Some (d', c)"
    and "\<And>r. r \<in> set (row_goals (V d)) \<Longrightarrow> \<not> transition_guard i session sts run r"
  shows "\<not> c" "mset (row_goals (V d')) = mset (row_goals (V d))"
proof -
  have "filter (transition_guard i session sts run) (row_goals (V d)) = []"
    using assms(3) by (simp add: filter_empty_conv)
  then show "\<not> c" using guarded_rows(2) [OF assms(1,2)] by simp
  have "map (\<lambda>r. if transition_guard i session sts run r then (upd r)\<lparr>gr_updated_at := now\<rparr> else r)
      (row_goals (V d)) = row_goals (V d)" using assms(3) by (intro map_idI) simp
  then show "mset (row_goals (V d')) = mset (row_goals (V d))"
    using guarded_rows(1) [OF assms(1,2)] by simp
qed

lemma commit_transition_Inr:
  assumes "commit_transition t d lost k = (d', Inr x)"
  obtains d1 where "t = Some (d1, True)" "k d1 = (d', Inr x)"
  using assms by (cases t) (auto simp: commit_transition_def split: if_splits)

lemma read_back_Inr:
  assumes "read_back D d i k = (d', Inr x)"
  obtains row where "get_goal D d i = Some row" "d' = d" "x = k (goal_dto_of row)"
  using assms by (auto simp: read_back_def or_fail_def split: option.splits)

text \<open>
  Only the run a goal is bound to can complete it, and completing it does exactly what it
  says: if \<^verbatim>\<open>goal.complete\<close> succeeds there was an active goal of the session bound to the
  calling run, this goal and no other row is rewritten, and it now is succeeded or failed as
  asked, in the report phase, bound to no run, with a finish time and the summary.
\<close>

theorem complete_settles_goal:
  assumes laws: "gateway_db_laws D V" and keyed: "goals_keyed V d" and run: "gp_run_id params \<noteq> []"
    and "goal_complete D clock d params = (d', Inr res)"
  shows "\<exists>row st fin. row \<in> set (row_goals (V d)) \<and> gr_session_id row = gp_session_id params
    \<and> phase row = Bound (gp_run_id params)
    \<and> mset (row_goals (V d')) =
        mset (map (\<lambda>r. if gr_id r = gr_id row then fin else r) (row_goals (V d)))
    \<and> (st = Goal_Succeeded \<or> st = Goal_Failed) \<and> phase fin = Settled st
    \<and> gr_id fin = gr_id row \<and> gr_active_run_id fin = [] \<and> gr_pipeline_phase fin = ''report''
    \<and> gr_finished_at fin = Some (clock 0)
    \<and> gr_progress_note fin = truncate_runes (arg (gp_arguments params) ''summary'') 2000"
proof -
  let ?args = "gp_arguments params" and ?run = "gp_run_id params"
  obtain row st where row: "bound_active_goal D d (gp_session_id params) ?run (arg ?args ''goal_id'') = Inr row"
    and st: "completion_status ?args = Some st" and commit: "commit_transition (transition_status D (clock 1) d
        (gr_id row) (gp_session_id params) [Goal_Active] ?run
        (complete_columns (clock 0) params st (arg ?args ''summary'') row)) d
        ''goal is no longer active for this run'' (\<lambda>d1. read_back D d1 (gr_id row)
          (one_goal_result ''goal.complete''
            (action_meta ''complete'' @ [(''result'', GStr (goal_status_text st))]))) = (d', Inr res)"
    using assms(4) by (auto simp: goal_complete_def Let_def split: sum.splits option.splits if_splits)
  note r = bound_active_goal_row [OF laws row]
  obtain d1 where t: "transition_status D (clock 1) d (gr_id row) (gp_session_id params) [Goal_Active]
      ?run (complete_columns (clock 0) params st (arg ?args ''summary'') row) = Some (d1, True)"
    and rb: "read_back D d1 (gr_id row) (one_goal_result ''goal.complete''
            (action_meta ''complete'' @ [(''result'', GStr (goal_status_text st))])) = (d', Inr res)"
    by (rule commit_transition_Inr [OF commit]) blast
  have "d' = d1" using rb by (rule read_back_Inr)
  let ?fin = "(complete_columns (clock 0) params st (arg ?args ''summary'') row row)\<lparr>gr_updated_at := clock 1\<rparr>"
  have "mset (row_goals (V d')) = mset (map (\<lambda>r. if gr_id r = gr_id row then ?fin else r) (row_goals (V d)))"
    unfolding \<open>d' = d1\<close> by (rule transition_hits [OF laws keyed r(1) _ t]) (simp add: transition_guard_def r)
  moreover have "st = Goal_Succeeded \<or> st = Goal_Failed"
    using st by (auto simp: completion_status_def Let_def split: if_splits)
  ultimately show ?thesis
    by (intro exI [of _ row] exI [of _ st] exI [of _ ?fin])
      (auto simp: r phase_def complete_columns_def)
qed

text \<open>
  \<^verbatim>\<open>goal.update\<close> cannot activate a goal, although that is what its \<^verbatim>\<open>activate\<close> argument
  is for: for a waiting goal, which names no run, the update is guarded by the active run it is
  about to set, so it matches no row; the call always ends in an error and leaves every goal as
  it was.
\<close>

theorem update_never_activates:
  assumes laws: "gateway_db_laws D V" and keyed: "goals_keyed V d" and run: "gp_run_id params \<noteq> []"
    and row: "get_goal D d (arg (gp_arguments params) ''goal_id'') = Some row"
    and waiting: "gr_status row = Goal_Pending \<or> gr_status row = Goal_Paused" "bound_ok row"
    and args: "bool_arg (gp_arguments params) ''activate'' False"
      "to_lower (arg (gp_arguments params) ''action'') \<noteq> ''cancel''"
  shows "(\<exists>e. snd (goal_update D clock d params) = Inl e)
    \<and> mset (row_goals (V (fst (goal_update D clock d params)))) = mset (row_goals (V d))"
proof -
  let ?edited = "edited_goal (gp_arguments params) row" and ?u = "goal_update D clock d params"
  have idle: "gr_active_run_id row = []" using waiting by (auto simp: bound_ok_def)
  have new: "a = activation (clock 0) (gp_run_id params) ?edited"
    if "activated_goal D (clock 0) d params ?edited = Inr a" for a
    using that args(1) waiting(1) by (auto simp: activated_goal_def split: if_splits)
  have miss: "\<not> c \<and> mset (row_goals (V d1)) = mset (row_goals (V d))"
    if "transition_status D (clock 1) d (gr_id row) (gp_session_id params)
      [Goal_Pending, Goal_Paused, Goal_Active] (gp_run_id params) upd = Some (d1, c)" for upd d1 c
  proof -
    have "\<not> transition_guard (gr_id row) s sts (gp_run_id params) r"
      if "r \<in> set (row_goals (V d))" for r s sts
      using goals_keyedD [OF keyed that get_goal_row(1) [OF laws row]] run idle
      by (auto simp: transition_guard_def)
    from transition_misses [OF laws that this] show ?thesis by blast
  qed
  consider (refused) e where "?u = (d, Inl e)"
    | (written) a where "activated_goal D (clock 0) d params ?edited = Inr a"
        "arg (gp_arguments params) ''goal_id'' \<noteq> []" "gr_session_id row = gp_session_id params"
  proof (cases "arg (gp_arguments params) ''goal_id'' = [] \<or> gr_session_id row \<noteq> gp_session_id params")
    case True
    with row have "\<exists>e. ?u = (d, Inl e)" by (auto simp: goal_update_def Let_def)
    then show thesis by (blast intro: refused)
  next
    case False
    show thesis
    proof (cases "activated_goal D (clock 0) d params ?edited")
      case (Inl msg)
      with False row waiting(1) args(2) have "\<exists>e. ?u = (d, Inl e)"
        by (auto simp: goal_update_def Let_def)
      then show thesis by (blast intro: refused)
    qed (use False written in blast)
  qed
  then show ?thesis
  proof cases
    case refused
    then show ?thesis by simp
  next
    case written
    note a = new [OF written(1)]
    have "?u = commit_transition (transition_status D (clock 1) d (gr_id row) (gp_session_id params)
        [Goal_Pending, Goal_Paused, Goal_Active] (gp_run_id params) (update_columns a)) d
        ''goal changed concurrently'' (\<lambda>d1.
          or_fail (set_run_goal D (clock 2) d1 (gp_run_id params) (gr_id row)) Db_Error d1 (\<lambda>d2.
            read_back D d2 (gr_id row) (one_goal_result ''goal.update'' (action_meta ''update''))))"
      using written(2,3) written(1)[unfolded a] args(2) row waiting(1) unfolding a
      by (auto simp: goal_update_def Let_def activation_def)
    then show ?thesis
      using miss by (auto simp: commit_transition_def or_fail_def split: option.split)
  qed
qed

lemma update_never_activates_witness:
  "\<exists>e. snd (goal_update mem_db (\<lambda>_. 0)
      (witness_rows\<lparr>row_goals := [witness_goal\<lparr>gr_status := Goal_Paused, gr_active_run_id := []\<rparr>]\<rparr>)
      (witness_goal_params ''goal.update'' [(''goal_id'', GStr ''g''), (''activate'', GBool True)]))
    = Inl e"
proof -
  let ?d = "witness_rows\<lparr>row_goals := [witness_goal\<lparr>gr_status := Goal_Paused, gr_active_run_id := []\<rparr>]\<rparr>"
  let ?p = "witness_goal_params ''goal.update'' [(''goal_id'', GStr ''g''), (''activate'', GBool True)]"
  have tight: "trim_space ''g'' = ''g''"
    by (rule trim_space_tight) (simp_all add: ascii_text_def byte_in_def ascii_space_def)
  have blank: "trim_space [] = []" "to_lower [] = []" by code_simp+
  have "goals_keyed (\<lambda>d. d) ?d" by (simp add: goals_keyed_def)
  moreover have "gp_run_id ?p \<noteq> []" by (simp add: witness_goal_params_def)
  moreover have "get_goal mem_db ?d (arg (gp_arguments ?p) ''goal_id'')
      = Some (witness_goal\<lparr>gr_status := Goal_Paused, gr_active_run_id := []\<rparr>)"
    by (simp add: get_goal_def sql_first_def mem_db_def witness_goal_params_def arg_def string_arg_def tight)
  moreover have "bool_arg (gp_arguments ?p) ''activate'' False"
    by (simp add: bool_arg_def witness_goal_params_def)
  moreover have "to_lower (arg (gp_arguments ?p) ''action'') \<noteq> ''cancel''"
    by (simp add: witness_goal_params_def arg_def string_arg_def blank)
  ultimately show ?thesis
    using update_never_activates [OF mem_db_laws, of ?d ?p _ "\<lambda>_. 0"] by (auto simp: bound_ok_def)
qed

lemma complete_settles_goal_witness:
  "\<exists>d' res. goal_complete mem_db (\<lambda>_. 0) witness_rows
      (witness_goal_params ''goal.complete'' [(''summary'', GStr ''ok'')]) = (d', Inr res)
    \<and> (\<exists>fin \<in> set (row_goals d'). gr_pipeline_phase fin = ''report'')"
proof -
  let ?p = "witness_goal_params ''goal.complete'' [(''summary'', GStr ''ok'')]"
  have tight: "trim_space ''ok'' = ''ok''"
    by (rule trim_space_tight) (simp_all add: ascii_text_def byte_in_def ascii_space_def)
  have blank: "trim_space [] = []" "to_lower [] = []" by code_simp+
  have args: "arg (gp_arguments ?p) ''summary'' = ''ok''" "arg (gp_arguments ?p) ''goal_id'' = []"
    "arg (gp_arguments ?p) ''status'' = []"
    by (simp_all add: witness_goal_params_def arg_def string_arg_def tight blank)
  have p: "gp_run_id ?p = ''r''" "gp_session_id ?p = ''s''" by (simp_all add: witness_goal_params_def)
  obtain d' res where e: "goal_complete mem_db (\<lambda>_. 0) witness_rows ?p = (d', Inr res)"
    by (simp add: goal_complete_def args p bound_active_goal_def goal_by_active_run_def sql_first_def
        mem_db_def completion_status_def blank transition_status_def transition_guard_def
        commit_transition_def read_back_def get_goal_def complete_columns_def one_active_goal_def Let_def)
  have run: "gp_run_id ?p \<noteq> []" by (simp add: p)
  from complete_settles_goal [OF mem_db_laws witness_keyed run e] obtain row fin where
    "row \<in> set (row_goals witness_rows)" "gr_pipeline_phase fin = ''report''"
    "mset (row_goals d') = mset (map (\<lambda>r. if gr_id r = gr_id row then fin else r) (row_goals witness_rows))"
    by blast
  then have "fin \<in> set (row_goals d')" using mset_eq_setD by fastforce
  with e \<open>gr_pipeline_phase fin = ''report''\<close> show ?thesis by blast
qed

lemma evolve_row:
  assumes "rows_evolve R N (row_goals (V d)) (row_goals (V d'))" "goals_keyed V d'"
    "r \<in> set (row_goals (V d))" "r' \<in> set (row_goals (V d'))" "gr_id r' = gr_id r"
    "\<And>r s. R r s \<Longrightarrow> gr_id s = gr_id r"
  shows "R r r'"
proof -
  obtain s where "s \<in> set (row_goals (V d'))" "R r s"
    using rows_evolveD(1) [OF assms(1,3)] by blast
  with assms(2,4-6) show ?thesis by (metis goals_keyedD)
qed

lemma exhaust_goal_spent:
  assumes laws: "gateway_db_laws D V" and keyed: "goals_keyed V d"
    and row: "row \<in> set (row_goals (V d))" "gr_session_id row = gp_session_id params"
    and e: "exhaust_goal D clock d params row = (d', Inr row')"
    and bound: "gr_status row' = Goal_Active" "gr_active_run_id row' = gp_run_id params"
  shows "row' \<in> set (row_goals (V d')) \<and> goals_keyed V d'
    \<and> (gr_max_total_tool_turns row' > 0 \<longrightarrow> gr_used_tool_turns row' < gr_max_total_tool_turns row')"
proof (cases "gr_status row = Goal_Active \<and> ((gr_max_total_tool_turns row > 0
      \<and> gr_used_tool_turns row \<ge> gr_max_total_tool_turns row)
      \<or> bool_arg (gp_arguments params) ''budget_exhausted'' False)")
  case False
  with e row bound keyed show ?thesis
    by (auto simp: exhaust_goal_def Let_def)
next
  case True
  let ?upd = "\<lambda>r. r\<lparr>gr_status := Goal_Failed, gr_fail_reason := ''budget_exhausted'',
      gr_active_run_id := [], gr_last_run_id := gp_run_id params, gr_finished_at := Some (clock 2)\<rparr>"
  from True e obtain c where
    t: "transition_status D (clock 3) d (gr_id row) (gp_session_id params) [Goal_Active]
        (gp_run_id params) ?upd = Some (d', c)" and g: "get_goal D d' (gr_id row) = Some row'"
    by (auto simp: exhaust_goal_def Let_def or_fail_def split: if_splits option.splits)
  note r' = get_goal_row [OF laws g]
  show ?thesis
  proof (cases "transition_guard (gr_id row) (gp_session_id params) [Goal_Active] (gp_run_id params) row")
    case True
    from mset_eq_setD [OF transition_hits [OF laws keyed row(1) True t]] r' bound(1)
    show ?thesis by (auto split: if_splits)
  next
    case False
    have "\<not> transition_guard (gr_id row) (gp_session_id params) [Goal_Active] (gp_run_id params) r"
      if "r \<in> set (row_goals (V d))" for r
      using False goals_keyedD [OF keyed that row(1)] by (auto simp: transition_guard_def)
    from mset_eq_setD [OF transition_misses(2) [OF laws t this]] have "row' = row"
      using r' goals_keyedD [OF keyed _ row(1)] by simp
    with False bound row(2) show ?thesis by (simp add: transition_guard_def)
  qed
qed

text \<open>
  C28. A run never works on past its goal's budget: when \<^verbatim>\<open>segment_end\<close> succeeds and still
  reports the goal active for the calling run, the tool turns used are below the goal's
  maximum. In all other cases the goal was failed, or is not this run's.
\<close>

theorem segment_end_within_budget:
  assumes laws: "gateway_db_laws D V" and keyed: "goals_keyed V d" and run: "gp_run_id params \<noteq> []"
    and s: "segment_end D clock d params = (d', Inr res)" and dto: "gt_goal res = Some dto"
    and active: "gd_status dto = Goal_Active" "gd_active_run_id dto = gp_run_id params"
    and limited: "gd_max_total_tool_turns dto > 0"
  shows "gd_used_tool_turns dto < gd_max_total_tool_turns dto"
proof -
  let ?args = "gp_arguments params" and ?run = "gp_run_id params"
  obtain row0 where r0: "goal_for_tool D d (gp_session_id params) ?run (arg ?args ''goal_id'') = Some row0"
    using s by (auto simp: segment_end_def Let_def split: option.splits)
  obtain d1 recorded where book: "(if max 0 (int_arg ?args ''delta_tool_turns'' 0) > 0
        \<or> \<not> bool_arg ?args ''budget_exhausted'' False
      then record_segment D (clock 0) (clock 1) d (gr_id row0) ?run
             (int_arg ?args ''segment_index'' (-1)) (max 0 (int_arg ?args ''delta_tool_turns'' 0))
      else Inr (d, False)) = Inr (d1, recorded)"
    using s r0 by (auto simp: segment_end_def Let_def split: sum.splits)
  obtain row1 d2 row2 row3 where r1: "get_goal D d1 (gr_id row0) = Some row1"
    and e: "exhaust_goal D clock d1 params row1 = (d2, Inr row2)"
    and c: "segment_checkpoint D (clock 4) d2 params row2 = (d', row3)"
    and res: "res = one_goal_result ''segment_end'' (action_meta ''segment_end''
        @ [(''delta'', GInt (max 0 (int_arg ?args ''delta_tool_turns'' 0))), (''recorded'', GBool recorded)])
        (goal_dto_of row3)"
    using s r0 book
    by (auto simp: segment_end_def Let_def or_fail_def simp del: max_def
        split: option.splits prod.splits sum.splits)
  have dto': "dto = goal_dto_of row3" using dto res by (simp add: one_goal_result_def)
  have k1: "goals_keyed V d1"
    using book record_segment_evolves(2) [OF laws _ keyed] keyed by (auto split: if_splits)
  have r1': "row1 \<in> set (row_goals (V d1))" "gr_id row1 = gr_id row0"
    using get_goal_row [OF laws r1] .
  note r0' = goal_for_tool_row [OF laws r0]
  have ev: "rows_evolve (charge_rel ?run) none_new (row_goals (V d)) (row_goals (V d1))"
    using book record_segment_evolves(1) [OF laws] by (auto simp: rows_evolve_same split: if_splits)
  have "charge_rel ?run row0 row1"
    by (rule evolve_row [OF ev k1 r0'(1) r1']) (simp add: charge_rel_def goal_rel_def same_identity_def)
  then have session: "gr_session_id row1 = gp_session_id params"
    using r0'(2) by (simp add: charge_rel_def goal_rel_def same_identity_def)
  have st: "goals_step V (stay_tool_rel ?run) none_new d2 d'"
    using segment_checkpoint_step [OF laws run, of none_new d2 "clock 4" row2] c by simp
  have k2: "goals_keyed V d2"
    using exhaust_goal_step [OF laws run, of none_new d1 clock row1] e k1 by (simp add: goals_step_def)
  have r2: "row2 \<in> set (row_goals (V d2))" "gr_id row2 = gr_id row1"
    using e r1' by (auto simp: exhaust_goal_def Let_def or_fail_def
        split: if_splits option.splits dest: get_goal_row [OF laws])
  have "row3 = row2 \<or> row3 \<in> set (row_goals (V d')) \<and> gr_id row3 = gr_id row2"
    using c active(1) dto' by (auto simp: segment_checkpoint_def Let_def goal_dto_of_def zero_goal_row_def
        split: if_splits option.splits dest: get_goal_row [OF laws])
  then have "stay_tool_rel ?run row2 row3"
  proof
    assume r3: "row3 \<in> set (row_goals (V d')) \<and> gr_id row3 = gr_id row2"
    have ids: "stay_tool_rel ?run q s \<Longrightarrow> gr_id s = gr_id q" for q s
      by (simp add: stay_tool_rel_def stay_rel_def goal_rel_def same_identity_def)
    show ?thesis
      by (rule evolve_row [of _ none_new V d2 d']) (use st k2 r2 r3 ids in \<open>auto simp: goals_step_def\<close>)
  qed simp
  then have same: "phase row3 = phase row2" "gr_used_tool_turns row3 = gr_used_tool_turns row2"
    "gr_max_total_tool_turns row3 = gr_max_total_tool_turns row2"
    by (simp_all add: stay_tool_rel_def stay_rel_def goal_rel_def same_identity_def same_usage_def)
  have "phase row3 = Bound ?run" using active dto' by (simp add: goal_dto_of_def phase_def)
  then have "gr_status row2 = Goal_Active" "gr_active_run_id row2 = ?run"
    using same(1) by (auto simp: phase_def split: if_splits)
  from exhaust_goal_spent [OF laws k1 r1'(1) session e this] limited same(2,3) dto'
  show ?thesis by (simp add: goal_dto_of_def)
qed

lemma segment_end_within_budget_witness:
  "\<exists>d' res dto. segment_end mem_db (\<lambda>_. 0) witness_rows
      (witness_goal_params ''segment_end'' [(''segment_index'', GInt 0), (''delta_tool_turns'', GInt 5)])
    = (d', Inr res) \<and> gt_goal res = Some dto \<and> gd_used_tool_turns dto < gd_max_total_tool_turns dto"
proof -
  let ?p = "witness_goal_params ''segment_end'' [(''segment_index'', GInt 0), (''delta_tool_turns'', GInt 5)]"
  have blank: "trim_space [] = []" by code_simp
  have tight: "trim_space ''g'' = ''g''" "trim_space ''r'' = ''r''"
    by (rule trim_space_tight; simp add: ascii_text_def byte_in_def ascii_space_def)+
  have args: "arg (gp_arguments ?p) ''goal_id'' = []" "arg (gp_arguments ?p) ''checkpoint_summary'' = []"
    "int_arg (gp_arguments ?p) ''segment_index'' (-1) = 0"
    "int_arg (gp_arguments ?p) ''delta_tool_turns'' 0 = 5"
    "\<not> bool_arg (gp_arguments ?p) ''budget_exhausted'' False"
    by (simp_all add: witness_goal_params_def arg_def string_arg_def int_arg_def bool_arg_def blank)
  have p: "gp_run_id ?p = ''r''" "gp_session_id ?p = ''s''" by (simp_all add: witness_goal_params_def)
  have "segment_end mem_db (\<lambda>_. 0) witness_rows ?p =
    (witness_rows\<lparr>row_segments := [segment_row_for 0 ''g'' ''r'' 0 5],
       row_goals := [add_usage 0 5 witness_goal]\<rparr>,
     Inr (one_goal_result ''segment_end'' (action_meta ''segment_end''
       @ [(''delta'', GInt 5), (''recorded'', GBool True)]) (goal_dto_of (add_usage 0 5 witness_goal))))"
    by (simp add: segment_end_def args p goal_for_tool_def goal_by_active_run_def sql_first_def mem_db_def
        record_segment_def tight get_goal_def one_active_goal_def exhaust_goal_def segment_checkpoint_def
        add_usage_def Let_def)
  moreover have "gp_run_id ?p \<noteq> []" by (simp add: p)
  ultimately show ?thesis
    using segment_end_within_budget [OF mem_db_laws witness_keyed, of ?p "\<lambda>_. 0"]
    by (fastforce simp: one_goal_result_def goal_dto_of_def add_usage_def p)
qed

end
