(* ===== verification/Run_Store.thy ===== *)
theory Run_Store
  imports Goal_Properties
begin

text \<open>
  The repositories of runs, run events, tool calls, permission requests, messages and sessions:
  \<^verbatim>\<open>run_record.go\<close>, \<^verbatim>\<open>run_event.go\<close>, \<^verbatim>\<open>tool_call.go\<close>, \<^verbatim>\<open>permission_request.go\<close>,
  \<^verbatim>\<open>message.go\<close>, \<^verbatim>\<open>session.go\<close>. The projections turn the event stream of a run into the rows
  the clients read.
\<close>

subsection \<open>Runs\<close>

definition page_size :: "int \<Rightarrow> nat \<Rightarrow> nat \<Rightarrow> nat" where
  "page_size n largest fallback = (if n \<le> 0 \<or> n > int largest then fallback else nat n)"

definition start_run :: "'d gateway_db \<Rightarrow> int \<Rightarrow> 'd \<Rightarrow> run_row \<Rightarrow> 'd option" where
  "start_run D now d run0 =
     (let started = (if rr_started_at run0 = zero_time then now else rr_started_at run0);
          run = run0\<lparr>rr_started_at := started, rr_updated_at := started,
                     rr_status := (if rr_status run0 = [] then ''running'' else rr_status run0)\<rparr>
      in sql_upsert (db_runs D) d run (\<lambda>r. r
           \<lparr>rr_session_id := rr_session_id run, rr_workspace_root := rr_workspace_root run,
            rr_runtime_mode := rr_runtime_mode run, rr_runtime_owner := rr_runtime_owner run,
            rr_status := rr_status run, rr_input := rr_input run,
            rr_started_at := rr_started_at run, rr_updated_at := rr_updated_at run\<rparr>))"

definition from_root :: "envelope \<Rightarrow> bool" where
  "from_root event \<longleftrightarrow> ag_role (ev_agent event) \<noteq> Role_Sub_Agent"

definition ends_run :: "envelope \<Rightarrow> bool" where
  "ends_run event \<longleftrightarrow> (ev_type event = Ev_Error \<or> ev_type event = Ev_Finish) \<and> from_root event"

definition project_status :: "envelope \<Rightarrow> string \<Rightarrow> string" where
  "project_status event old =
     (if \<not> ends_run event then old
      else first_non_empty [string_payload (ev_payload event) ''status'',
             if ev_type event = Ev_Error then ''failed'' else ''completed''])"

definition apply_run_event_projection :: "run_row \<Rightarrow> envelope \<Rightarrow> int \<Rightarrow> run_row" where
  "apply_run_event_projection row event now =
     row\<lparr>rr_session_id := first_non_empty [rr_session_id row, ev_session_id event],
         rr_last_event_type := event_type_text (ev_type event),
         rr_last_root_seq := ev_root_seq event,
         rr_updated_at := now,
         rr_message_count := rr_message_count row + (if ev_type event = Ev_Message_Delta then 1 else 0),
         rr_tool_count := rr_tool_count row + (if ev_type event = Ev_Tool_Started then 1 else 0),
         rr_status := project_status event (rr_status row),
         rr_error := (if ev_type event = Ev_Error \<and> from_root event
                      then first_non_empty [string_payload (ev_payload event) ''message'', rr_error row]
                      else rr_error row),
         rr_finished_at := (if ends_run event then Some now else rr_finished_at row)\<rparr>"

definition zero_run_row :: run_row where
  "zero_run_row =
     \<lparr>rr_id = [], rr_session_id = [], rr_workspace_root = [], rr_runtime_mode = [],
      rr_runtime_owner = [], rr_status = [], rr_input = [], rr_goal_id = [],
      rr_last_event_type = [], rr_last_root_seq = 0, rr_message_count = 0, rr_tool_count = 0,
      rr_error = [], rr_started_at = zero_time, rr_finished_at = None, rr_updated_at = zero_time\<rparr>"

definition first_run :: "'d gateway_db \<Rightarrow> 'd \<Rightarrow> string \<Rightarrow> run_row first_result" where
  "first_run D d i = sql_first (db_runs D) d (\<lambda>r. rr_id r = i) (\<lambda>r. [(0, rr_id r)])"

text \<open>The columns \<^verbatim>\<open>ProjectEvent\<close> writes; the two counts are incremented in the database.\<close>

definition projected_columns :: "envelope \<Rightarrow> run_row \<Rightarrow> run_row \<Rightarrow> run_row" where
  "projected_columns event row r =
     r\<lparr>rr_session_id := rr_session_id row, rr_last_event_type := rr_last_event_type row,
       rr_last_root_seq := rr_last_root_seq row, rr_error := rr_error row,
       rr_status := rr_status row, rr_finished_at := rr_finished_at row,
       rr_updated_at := rr_updated_at row,
       rr_message_count := rr_message_count r + (if ev_type event = Ev_Message_Delta then 1 else 0),
       rr_tool_count := rr_tool_count r + (if ev_type event = Ev_Tool_Started then 1 else 0)\<rparr>"

definition project_event :: "'d gateway_db \<Rightarrow> int \<Rightarrow> 'd \<Rightarrow> envelope \<Rightarrow> 'd option" where
  "project_event D clock d event =
     (if ev_root_run_id event = [] then Some d
      else let now = event_time clock event
        in case first_run D d (ev_root_run_id event) of
             Read_Error \<Rightarrow> None
           | Not_Found \<Rightarrow>
               sql_insert (db_runs D) d [apply_run_event_projection (zero_run_row
                 \<lparr>rr_id := ev_root_run_id event, rr_session_id := ev_session_id event,
                  rr_status := ''running'', rr_started_at := now, rr_updated_at := now\<rparr>) event now]
           | Found row \<Rightarrow>
               map_option fst (sql_update (db_runs D) d (\<lambda>r. rr_id r = ev_root_run_id event)
                 (projected_columns event (apply_run_event_projection row event now))))"

definition runs_by_session :: "'d gateway_db \<Rightarrow> 'd \<Rightarrow> string \<Rightarrow> int \<Rightarrow> run_row list option" where
  "runs_by_session D d session n =
     sql_limit (db_runs D) d (\<lambda>r. rr_session_id r = session) (\<lambda>r. [(- rr_started_at r, [])])
       (page_size n 500 200)"

definition count_active :: "'d gateway_db \<Rightarrow> 'd \<Rightarrow> nat option" where
  "count_active D d = sql_count (db_runs D) d (\<lambda>r. live_run_status (rr_status r))"

definition count_active_by_session :: "'d gateway_db \<Rightarrow> 'd \<Rightarrow> string \<Rightarrow> nat option" where
  "count_active_by_session D d session =
     sql_count (db_runs D) d (\<lambda>r. rr_session_id r = session \<and> live_run_status (rr_status r))"

definition list_active :: "'d gateway_db \<Rightarrow> 'd \<Rightarrow> int \<Rightarrow> run_row list option" where
  "list_active D d n =
     sql_limit (db_runs D) d (\<lambda>r. live_run_status (rr_status r)) (\<lambda>r. [(rr_started_at r, [])])
       (page_size n 200 50)"

definition list_active_by_session :: "'d gateway_db \<Rightarrow> 'd \<Rightarrow> string \<Rightarrow> int \<Rightarrow> run_row list option" where
  "list_active_by_session D d session n =
     (if session = [] then Some []
      else sql_limit (db_runs D) d (\<lambda>r. rr_session_id r = session \<and> live_run_status (rr_status r))
             (\<lambda>r. [(rr_started_at r, [])]) (page_size n 200 50))"

definition finish_run :: "'d gateway_db \<Rightarrow> int \<Rightarrow> 'd \<Rightarrow> string \<Rightarrow> string \<Rightarrow> string \<Rightarrow> 'd option" where
  "finish_run D now d run status err =
     (if run = [] then Some d
      else map_option fst (sql_update (db_runs D) d (\<lambda>r. rr_id r = run)
             (\<lambda>r. r\<lparr>rr_status := (if status = [] then ''completed'' else status),
                    rr_finished_at := Some now, rr_updated_at := now,
                    rr_error := (if err \<noteq> [] then err else rr_error r)\<rparr>)))"

definition refresh_tool_count :: "'d gateway_db \<Rightarrow> int \<Rightarrow> 'd \<Rightarrow> string \<Rightarrow> 'd option" where
  "refresh_tool_count D now d run =
     (if run = [] then Some d
      else case sql_count (db_tool_calls D) d (\<lambda>t. tc_root_run_id t = run) of
             None \<Rightarrow> None
           | Some n \<Rightarrow> map_option fst (sql_update (db_runs D) d (\<lambda>r. rr_id r = run)
                         (\<lambda>r. r\<lparr>rr_tool_count := int n, rr_updated_at := now\<rparr>)))"

subsection \<open>Run events\<close>

definition event_row_of :: "envelope \<Rightarrow> event_row" where
  "event_row_of event =
     \<lparr>er_id = ev_event_id event, er_root_run_id = ev_root_run_id event,
      er_root_seq = ev_root_seq event, er_type = event_type_text (ev_type event),
      er_payload_json = event, er_created_at = ev_created_at event\<rparr>"

definition save_once :: "'d gateway_db \<Rightarrow> 'd \<Rightarrow> envelope \<Rightarrow> ('d \<times> bool) option" where
  "save_once D d event = sql_insert_new (db_events D) d (event_row_of event)"

definition events_after :: "'d gateway_db \<Rightarrow> 'd \<Rightarrow> string \<Rightarrow> nat \<Rightarrow> int \<Rightarrow> envelope list option" where
  "events_after D d run after n =
     map_option (map er_payload_json)
       (sql_limit (db_events D) d (\<lambda>r. er_root_run_id r = run \<and> er_root_seq r > after)
         (\<lambda>r. [(int (er_root_seq r), [])]) (page_size n 500 500))"

subsection \<open>Tool calls\<close>

definition tool_event :: "event_type \<Rightarrow> bool" where
  "tool_event ty \<longleftrightarrow> ty \<in> {Ev_Tool_Started, Ev_Tool_Output, Ev_Tool_Finished, Ev_Tool_Failed}"

definition zero_tool_call_row :: tool_call_row where
  "zero_tool_call_row =
     \<lparr>tc_id = [], tc_root_run_id = [], tc_session_id = [], tc_agent_id = [], tc_agent_role = [],
      tc_tool_name = [], tc_display_name = [], tc_risk = [], tc_policy = [], tc_policy_reason = [],
      tc_arguments_json = None, tc_status = [], tc_output = [], tc_error = [], tc_exit_code = 0,
      tc_duration_ms = 0, tc_started_seq = 0, tc_finished_seq = 0, tc_started_at = zero_time,
      tc_finished_at = None, tc_updated_at = zero_time\<rparr>"

definition call_row_of :: "envelope \<Rightarrow> string \<Rightarrow> int \<Rightarrow> tool_call_row" where
  "call_row_of event i now = zero_tool_call_row
     \<lparr>tc_id := i, tc_root_run_id := ev_root_run_id event, tc_session_id := ev_session_id event,
      tc_agent_id := ag_agent_id (ev_agent event),
      tc_agent_role := agent_role_text (ag_role (ev_agent event)),
      tc_started_seq := ev_root_seq event, tc_started_at := now\<rparr>"

definition first_tool_call :: "'d gateway_db \<Rightarrow> 'd \<Rightarrow> string \<Rightarrow> tool_call_row first_result" where
  "first_tool_call D d i = sql_first (db_tool_calls D) d (\<lambda>r. tc_id r = i) (\<lambda>r. [(0, tc_id r)])"

definition started_row :: "envelope \<Rightarrow> string \<Rightarrow> int \<Rightarrow> tool_call_row" where
  "started_row event i now =
     (let p = ev_payload event
      in (call_row_of event i now)
           \<lparr>tc_tool_name := string_payload p ''tool_name'',
            tc_display_name := string_payload p ''display_name'',
            tc_risk := string_payload p ''risk'', tc_policy := string_payload p ''policy'',
            tc_policy_reason := string_payload p ''policy_reason'',
            tc_arguments_json := Some (any_payload p ''arguments''),
            tc_status := string_payload p ''status'', tc_updated_at := now\<rparr>)"

definition project_started :: "'d gateway_db \<Rightarrow> int \<Rightarrow> 'd \<Rightarrow> envelope \<Rightarrow> 'd option" where
  "project_started D clock d event =
     (let i = string_payload (ev_payload event) ''tool_call_id'';
          row = started_row event i (event_time clock event)
      in if i = [] then Some d
         else sql_upsert (db_tool_calls D) d row (\<lambda>r. r
           \<lparr>tc_root_run_id := tc_root_run_id row, tc_session_id := tc_session_id row,
            tc_agent_id := tc_agent_id row, tc_agent_role := tc_agent_role row,
            tc_tool_name := tc_tool_name row, tc_display_name := tc_display_name row,
            tc_risk := tc_risk row, tc_policy := tc_policy row,
            tc_policy_reason := tc_policy_reason row, tc_arguments_json := tc_arguments_json row,
            tc_status := tc_status row, tc_started_seq := tc_started_seq row,
            tc_started_at := tc_started_at row, tc_updated_at := tc_updated_at row\<rparr>))"

text \<open>\<^verbatim>\<open>Save\<close> stamps the update time itself.\<close>

definition save_call :: "'d gateway_db \<Rightarrow> int \<Rightarrow> 'd \<Rightarrow> tool_call_row \<Rightarrow> 'd option" where
  "save_call D clock d row = sql_save (db_tool_calls D) d (row\<lparr>tc_updated_at := clock\<rparr>)"

definition project_output :: "'d gateway_db \<Rightarrow> int \<Rightarrow> 'd \<Rightarrow> envelope \<Rightarrow> 'd option" where
  "project_output D clock d event =
     (let p = ev_payload event; i = string_payload p ''tool_call_id''; delta = string_payload p ''delta'';
          now = event_time clock event
      in if i = [] \<or> delta = [] then Some d
         else (case first_tool_call D d i of
                 Read_Error \<Rightarrow> None
               | Not_Found \<Rightarrow> save_call D clock d ((call_row_of event i now)
                   \<lparr>tc_tool_name := string_payload p ''tool_name'', tc_status := ''running'',
                    tc_output := delta\<rparr>)
               | Found row \<Rightarrow> save_call D clock d (row\<lparr>tc_output := tc_output row @ delta\<rparr>)))"

definition finished_row :: "envelope \<Rightarrow> int \<Rightarrow> tool_call_row \<Rightarrow> tool_call_row" where
  "finished_row event now row =
     (let p = ev_payload event; out = string_payload p ''output''
      in row\<lparr>tc_tool_name := first_non_empty [tc_tool_name row, string_payload p ''tool_name''],
             tc_status := first_non_empty [string_payload p ''status'',
               if ev_type event = Ev_Tool_Failed then ''failed'' else ''completed''],
             tc_exit_code := int_payload p ''exit_code'',
             tc_error := string_payload p ''error'',
             tc_output := (if out \<noteq> [] then out else tc_output row),
             tc_duration_ms := int_payload p ''duration_ms'',
             tc_finished_seq := ev_root_seq event, tc_finished_at := Some now\<rparr>)"

definition project_finished :: "'d gateway_db \<Rightarrow> int \<Rightarrow> 'd \<Rightarrow> envelope \<Rightarrow> 'd option" where
  "project_finished D clock d event =
     (let i = string_payload (ev_payload event) ''tool_call_id''; now = event_time clock event
      in if i = [] then Some d
         else (case first_tool_call D d i of
                 Read_Error \<Rightarrow> None
               | Not_Found \<Rightarrow> save_call D clock d (finished_row event now (call_row_of event i now))
               | Found row \<Rightarrow> save_call D clock d (finished_row event now row)))"

definition project_tool_call :: "'d gateway_db \<Rightarrow> int \<Rightarrow> 'd \<Rightarrow> envelope \<Rightarrow> 'd option" where
  "project_tool_call D clock d event =
     (case ev_type event of
        Ev_Tool_Started \<Rightarrow> project_started D clock d event
      | Ev_Tool_Output \<Rightarrow> project_output D clock d event
      | Ev_Tool_Finished \<Rightarrow> project_finished D clock d event
      | Ev_Tool_Failed \<Rightarrow> project_finished D clock d event
      | _ \<Rightarrow> Some d)"

definition tool_calls_by_run :: "'d gateway_db \<Rightarrow> 'd \<Rightarrow> string \<Rightarrow> int \<Rightarrow> tool_call_row list option" where
  "tool_calls_by_run D d run n =
     sql_limit (db_tool_calls D) d (\<lambda>r. tc_root_run_id r = run) (\<lambda>r. [(int (tc_started_seq r), [])])
       (page_size n 500 200)"

definition tool_calls_by_session :: "'d gateway_db \<Rightarrow> 'd \<Rightarrow> string \<Rightarrow> int \<Rightarrow> tool_call_row list option" where
  "tool_calls_by_session D d session n =
     sql_limit (db_tool_calls D) d (\<lambda>r. tc_session_id r = session) (\<lambda>r. [(- tc_started_at r, [])])
       (page_size n 500 200)"

subsection \<open>Permission requests\<close>

definition permission_row_of :: "envelope \<Rightarrow> int \<Rightarrow> permission_row" where
  "permission_row_of event now =
     (let p = ev_payload event
      in \<lparr>pr_id = string_payload p ''permission_id'',
          pr_run_id = first_non_empty [string_payload p ''run_id'', ev_root_run_id event],
          pr_session_id = ev_session_id event, pr_tool_call_id = string_payload p ''tool_call_id'',
          pr_tool_name = string_payload p ''tool_name'', pr_risk = string_payload p ''risk'',
          pr_summary = string_payload p ''summary'', pr_detail = string_payload p ''detail'',
          pr_arguments_json = any_payload p ''arguments'', pr_status = ''pending'',
          pr_decision = [], pr_reason = [], pr_root_seq = ev_root_seq event, pr_created_at = now,
          pr_resolved_at = None, pr_updated_at = now\<rparr>)"

definition project_required :: "'d gateway_db \<Rightarrow> int \<Rightarrow> 'd \<Rightarrow> envelope \<Rightarrow> 'd option" where
  "project_required D clock d event =
     (let row = permission_row_of event (event_time clock event)
      in if ev_type event \<noteq> Ev_Permission_Request \<or> pr_id row = [] then Some d
         else sql_upsert (db_permissions D) d row (\<lambda>r. r
           \<lparr>pr_run_id := pr_run_id row, pr_session_id := pr_session_id row,
            pr_tool_call_id := pr_tool_call_id row, pr_tool_name := pr_tool_name row,
            pr_risk := pr_risk row, pr_summary := pr_summary row, pr_detail := pr_detail row,
            pr_arguments_json := pr_arguments_json row, pr_status := pr_status row,
            pr_root_seq := pr_root_seq row, pr_created_at := pr_created_at row,
            pr_updated_at := pr_updated_at row\<rparr>))"

definition resolve_permission_row ::
  "'d gateway_db \<Rightarrow> int \<Rightarrow> 'd \<Rightarrow> string \<Rightarrow> string \<Rightarrow> string \<Rightarrow> 'd option" where
  "resolve_permission_row D now d permission decision reason =
     map_option fst (sql_update (db_permissions D) d (\<lambda>r. pr_id r = permission)
       (\<lambda>r. r\<lparr>pr_status := (if decision = ''deny'' then ''denied'' else ''resolved''),
              pr_decision := decision, pr_reason := reason, pr_resolved_at := Some now,
              pr_updated_at := now\<rparr>))"

definition close_pending_by_run ::
  "'d gateway_db \<Rightarrow> int \<Rightarrow> 'd \<Rightarrow> string \<Rightarrow> string \<Rightarrow> string \<Rightarrow> 'd option" where
  "close_pending_by_run D now d run status reason =
     map_option fst (sql_update (db_permissions D) d (\<lambda>r. pr_run_id r = run \<and> pr_status r = ''pending'')
       (\<lambda>r. r\<lparr>pr_status := status, pr_reason := reason, pr_resolved_at := Some now,
              pr_updated_at := now\<rparr>))"

definition list_permissions ::
  "'d gateway_db \<Rightarrow> 'd \<Rightarrow> (permission_row \<Rightarrow> bool) \<Rightarrow> int \<Rightarrow> permission_row list option" where
  "list_permissions D d P n =
     sql_limit (db_permissions D) d P (\<lambda>r. [(- pr_created_at r, [])]) (page_size n 500 200)"

definition pending_permissions :: "'d gateway_db \<Rightarrow> 'd \<Rightarrow> int \<Rightarrow> permission_row list option" where
  "pending_permissions D d = list_permissions D d (\<lambda>r. pr_status r = ''pending'')"

definition permissions_by_run :: "'d gateway_db \<Rightarrow> 'd \<Rightarrow> string \<Rightarrow> int \<Rightarrow> permission_row list option" where
  "permissions_by_run D d run = list_permissions D d (\<lambda>r. pr_run_id r = run)"

definition permissions_by_session :: "'d gateway_db \<Rightarrow> 'd \<Rightarrow> string \<Rightarrow> int \<Rightarrow> permission_row list option" where
  "permissions_by_session D d session = list_permissions D d (\<lambda>r. pr_session_id r = session)"

definition get_permission :: "'d gateway_db \<Rightarrow> 'd \<Rightarrow> string \<Rightarrow> permission_row option" where
  "get_permission D d i =
     row_found (sql_first (db_permissions D) d (\<lambda>r. pr_id r = i) (\<lambda>r. [(0, pr_id r)]))"

subsection \<open>Messages\<close>

text \<open>
  \<open>counter\<close> is the process-wide counter behind the ids of messages: it advances with every id.
\<close>

definition new_message_id :: "int \<Rightarrow> nat \<Rightarrow> string" where
  "new_message_id now counter = ''msg_'' @ int_dec now @ ''_'' @ nat_digits counter"

definition last_message :: "'d gateway_db \<Rightarrow> 'd \<Rightarrow> string \<Rightarrow> message_row first_result" where
  "last_message D d session =
     sql_first (db_messages D) d (\<lambda>r. mr_session_id r = session)
       (\<lambda>r. [(- int (mr_seq r), []), (0, mr_id r)])"

definition next_seq :: "'d gateway_db \<Rightarrow> 'd \<Rightarrow> string \<Rightarrow> nat option" where
  "next_seq D d session =
     (case last_message D d session of
        Not_Found \<Rightarrow> Some 1 | Read_Error \<Rightarrow> None | Found prev \<Rightarrow> Some (mr_seq prev + 1))"

definition add_with_metadata ::
  "'d gateway_db \<Rightarrow> int \<Rightarrow> nat \<Rightarrow> 'd \<Rightarrow> string \<Rightarrow> string \<Rightarrow> content_block list \<Rightarrow> string \<Rightarrow> string
    \<Rightarrow> ('d \<times> message_row) option \<times> nat" where
  "add_with_metadata D now counter d session role content run metadata =
     (case next_seq D d session of
        None \<Rightarrow> (None, counter)
      | Some seq \<Rightarrow>
          (let row = \<lparr>mr_id = new_message_id now (Suc counter), mr_session_id = session,
                      mr_role = role, mr_content_json = content, mr_seq = seq, mr_run_id = run,
                      mr_source_message_id = [], mr_metadata_json = metadata, mr_created_at = now\<rparr>
           in (map_option (\<lambda>d'. (d', row)) (sql_insert (db_messages D) d [row]), Suc counter)))"

definition add_message ::
  "'d gateway_db \<Rightarrow> int \<Rightarrow> nat \<Rightarrow> 'd \<Rightarrow> string \<Rightarrow> string \<Rightarrow> string \<Rightarrow> string
    \<Rightarrow> ('d \<times> message_row) option \<times> nat" where
  "add_message D now counter d session role txt run =
     add_with_metadata D now counter d session role [\<lparr>cb_type = ''text'', cb_text = txt\<rparr>] run []"

definition appendable_delta_role :: "string \<Rightarrow> bool" where
  "appendable_delta_role role \<longleftrightarrow> role = ''assistant'' \<or> role = ''subagent''"

text \<open>The content of the last message with the delta put at its end.\<close>

definition append_text :: "content_block list \<Rightarrow> string \<Rightarrow> content_block list" where
  "append_text content txt =
     (let c = (if content = [] then [\<lparr>cb_type = ''text'', cb_text = []\<rparr>] else content)
      in butlast c @ [\<lparr>cb_type = ''text'', cb_text = cb_text (last c) @ txt\<rparr>])"

definition add_or_append ::
  "'d gateway_db \<Rightarrow> int \<Rightarrow> nat \<Rightarrow> 'd \<Rightarrow> string \<Rightarrow> string \<Rightarrow> string \<Rightarrow> string
    \<Rightarrow> ('d \<times> message_row) option \<times> nat" where
  "add_or_append D now counter d session role txt run =
     (if \<not> appendable_delta_role role then add_message D now counter d session role txt run
      else case last_message D d session of
             Not_Found \<Rightarrow> add_message D now counter d session role txt run
           | Read_Error \<Rightarrow> (None, counter)
           | Found prev \<Rightarrow>
               if mr_role prev \<noteq> role \<or> mr_run_id prev \<noteq> run
               then add_message D now counter d session role txt run
               else let row = prev\<lparr>mr_content_json := append_text (mr_content_json prev) txt\<rparr>
                 in (map_option (\<lambda>d'. (d', row)) (sql_save (db_messages D) d row), counter))"

definition list_messages :: "'d gateway_db \<Rightarrow> 'd \<Rightarrow> string \<Rightarrow> int \<Rightarrow> message_row list option" where
  "list_messages D d session n =
     sql_limit (db_messages D) d (\<lambda>r. mr_session_id r = session) (\<lambda>r. [(int (mr_seq r), [])])
       (page_size n 500 200)"

definition latest_messages ::
  "'d gateway_db \<Rightarrow> 'd \<Rightarrow> (message_row \<Rightarrow> bool) \<Rightarrow> int \<Rightarrow> message_row list option" where
  "latest_messages D d P n =
     map_option rev (sql_limit (db_messages D) d P (\<lambda>r. [(- int (mr_seq r), [])]) (page_size n 500 200))"

definition list_latest :: "'d gateway_db \<Rightarrow> 'd \<Rightarrow> string \<Rightarrow> int \<Rightarrow> message_row list option" where
  "list_latest D d session = latest_messages D d (\<lambda>r. mr_session_id r = session)"

definition conversation_role :: "string \<Rightarrow> bool" where
  "conversation_role role \<longleftrightarrow> role = ''user'' \<or> role = ''assistant''"

definition list_latest_conversation :: "'d gateway_db \<Rightarrow> 'd \<Rightarrow> string \<Rightarrow> int \<Rightarrow> message_row list option" where
  "list_latest_conversation D d session =
     latest_messages D d (\<lambda>r. mr_session_id r = session \<and> conversation_role (mr_role r))"

definition list_conversation_after ::
  "'d gateway_db \<Rightarrow> 'd \<Rightarrow> string \<Rightarrow> nat \<Rightarrow> int \<Rightarrow> message_row list option" where
  "list_conversation_after D d session after =
     latest_messages D d (\<lambda>r. mr_session_id r = session \<and> conversation_role (mr_role r) \<and> mr_seq r > after)"

definition list_through_seq :: "'d gateway_db \<Rightarrow> 'd \<Rightarrow> string \<Rightarrow> nat \<Rightarrow> message_row list option" where
  "list_through_seq D d session through =
     sql_select (db_messages D) d
       (\<lambda>r. mr_session_id r = session \<and> (through > 0 \<longrightarrow> mr_seq r \<le> through))
       (\<lambda>r. [(int (mr_seq r), [])])"

definition list_range :: "'d gateway_db \<Rightarrow> 'd \<Rightarrow> string \<Rightarrow> nat \<Rightarrow> nat \<Rightarrow> message_row list option" where
  "list_range D d session start_seq end_seq =
     sql_select (db_messages D) d
       (\<lambda>r. mr_session_id r = session \<and> (start_seq > 0 \<longrightarrow> mr_seq r \<ge> start_seq)
            \<and> (end_seq > 0 \<longrightarrow> mr_seq r \<le> end_seq))
       (\<lambda>r. [(int (mr_seq r), [])])"

definition latest_seq :: "'d gateway_db \<Rightarrow> 'd \<Rightarrow> string \<Rightarrow> nat option" where
  "latest_seq D d session =
     (case last_message D d session of
        Not_Found \<Rightarrow> Some 0 | Read_Error \<Rightarrow> None | Found prev \<Rightarrow> Some (mr_seq prev))"

text \<open>
  \<^verbatim>\<open>CopyToSession\<close> inserts one row at a time: when one insert fails, the rows before it stay.
  The result is the number of rows copied, with whether all were.
\<close>

fun copy_messages ::
  "'d gateway_db \<Rightarrow> int \<Rightarrow> nat \<Rightarrow> 'd \<Rightarrow> string \<Rightarrow> nat \<Rightarrow> nat \<Rightarrow> message_row list
    \<Rightarrow> 'd \<times> nat \<times> nat \<times> bool" where
  "copy_messages D now counter d target start_seq index [] = (d, counter, index, True)"
| "copy_messages D now counter d target start_seq index (m # ms) =
     (case sql_insert (db_messages D) d [m
             \<lparr>mr_id := new_message_id now (Suc counter), mr_session_id := target,
              mr_seq := start_seq + index, mr_source_message_id := mr_id m,
              mr_created_at := now + int index\<rparr>] of
        None \<Rightarrow> (d, Suc counter, index, False)
      | Some d' \<Rightarrow> copy_messages D now (Suc counter) d' target start_seq (Suc index) ms)"

definition copy_to_session ::
  "'d gateway_db \<Rightarrow> int \<Rightarrow> nat \<Rightarrow> 'd \<Rightarrow> message_row list \<Rightarrow> string \<Rightarrow> nat \<Rightarrow> 'd \<times> nat \<times> nat \<times> bool" where
  "copy_to_session D now counter d source target start_seq =
     copy_messages D now counter d target start_seq 0 source"

subsection \<open>Sessions\<close>

definition new_session_row :: "string \<Rightarrow> string \<Rightarrow> string \<Rightarrow> int \<Rightarrow> session_row" where
  "new_session_row i name workspace now =
     \<lparr>ss_id = i, ss_name = name, ss_workspace_root = workspace, ss_status = ''active'', ss_parent_id = [],
      ss_kind = ''normal'', ss_source_session_id = [], ss_fork_point_seq = 0,
      ss_fork_point_run_id = [], ss_created_at = now, ss_updated_at = now, ss_deleted_at = None\<rparr>"

definition insert_session :: "'d gateway_db \<Rightarrow> 'd \<Rightarrow> session_row \<Rightarrow> ('d \<times> session_row) option" where
  "insert_session D d row = map_option (\<lambda>d'. (d', row)) (sql_insert (db_sessions D) d [row])"

definition create_session :: "'d gateway_db \<Rightarrow> int \<Rightarrow> 'd \<Rightarrow> string \<Rightarrow> string \<Rightarrow> ('d \<times> session_row) option" where
  "create_session D now d name workspace =
     insert_session D d (new_session_row (''session_'' @ int_dec now)
       (if name = [] then ''New session'' else name) workspace now)"

definition ensure_session ::
  "'d gateway_db \<Rightarrow> int \<Rightarrow> 'd \<Rightarrow> string \<Rightarrow> string \<Rightarrow> string \<Rightarrow> ('d \<times> session_row) option" where
  "ensure_session D now d i name workspace =
     (if i = [] then create_session D now d name workspace
      else case sql_first (db_sessions D) d (\<lambda>s. ss_id s = i) (\<lambda>s. [(0, ss_id s)]) of
             Found s \<Rightarrow> Some (d, s)
           | Read_Error \<Rightarrow> None
           | Not_Found \<Rightarrow> insert_session D d (new_session_row i (if name = [] then i else name) workspace now))"

definition create_derived_session ::
  "'d gateway_db \<Rightarrow> int \<Rightarrow> 'd \<Rightarrow> string \<Rightarrow> session_row \<Rightarrow> string \<Rightarrow> nat \<Rightarrow> string \<Rightarrow> ('d \<times> session_row) option" where
  "create_derived_session D now d name source kind seq run =
     insert_session D d ((new_session_row (''session_'' @ int_dec now)
         (if name \<noteq> [] then name
          else if kind = ''compact'' then ss_name source @ '' compact''
          else if kind = ''fork'' then ss_name source @ '' fork'' else ss_name source)
         (ss_workspace_root source) now)
       \<lparr>ss_parent_id := ss_id source, ss_kind := kind, ss_source_session_id := ss_id source,
        ss_fork_point_seq := seq, ss_fork_point_run_id := run\<rparr>)"

definition list_sessions :: "'d gateway_db \<Rightarrow> 'd \<Rightarrow> int \<Rightarrow> session_row list option" where
  "list_sessions D d n =
     sql_limit (db_sessions D) d (\<lambda>s. ss_deleted_at s = None) (\<lambda>s. [(- ss_updated_at s, [])])
       (page_size n 200 100)"

definition touch_session :: "'d gateway_db \<Rightarrow> int \<Rightarrow> 'd \<Rightarrow> string \<Rightarrow> 'd option" where
  "touch_session D now d i =
     map_option fst (sql_update (db_sessions D) d (\<lambda>s. ss_id s = i) (\<lambda>s. s\<lparr>ss_updated_at := now\<rparr>))"

definition deleted_session :: "int \<Rightarrow> session_row \<Rightarrow> session_row" where
  "deleted_session now s =
     s\<lparr>ss_status := ''deleted'', ss_deleted_at := Some now, ss_updated_at := now\<rparr>"

definition soft_delete_session :: "'d gateway_db \<Rightarrow> int \<Rightarrow> 'd \<Rightarrow> string \<Rightarrow> 'd option" where
  "soft_delete_session D now d i =
     (case sql_update (db_sessions D) d (\<lambda>s. ss_id s = i \<and> ss_deleted_at s = None) (deleted_session now) of
        None \<Rightarrow> None | Some (d', n) \<Rightarrow> if n = 0 then None else Some d')"

definition soft_delete_by_workspace :: "'d gateway_db \<Rightarrow> int \<Rightarrow> 'd \<Rightarrow> string \<Rightarrow> ('d \<times> nat) option" where
  "soft_delete_by_workspace D now d workspace =
     (if workspace = [] then Some (d, 0)
      else sql_update (db_sessions D) d (\<lambda>s. ss_workspace_root s = workspace \<and> ss_deleted_at s = None)
             (deleted_session now))"

end
