(* ===== verification/Event_Delivery.thy ===== *)
theory Event_Delivery
  imports Gateway_Db "HOL-Library.Sublist"
begin

text \<open>
  The delivery of events to clients: the hub that fans the events of a run out to channels
  (\<^verbatim>\<open>eventhub/hub.go\<close>), and the websocket session that replays stored events and forwards
  live ones (\<^verbatim>\<open>controller/websocket.go\<close>). Each channel is read by a goroutine of its own, so
  both are step relations: the hub under any subscribers, and one session with its read loop,
  its forwarders and its write loop. Operations that hold a lock are one step;
  \<^verbatim>\<open>sendEvent\<close>, which releases the lock between marking an event and queueing it, is two.
\<close>

subsection \<open>The hub\<close>

text \<open>
  A channel keeps its buffered events in order. A run whose last subscriber leaves is deleted
  from the map of subscribers: a run without an entry and one without channels are the same.
\<close>

record hub_chan =
  hc_buffer :: "envelope list"
  hc_closed :: bool

record hub =
  hub_subscribers :: "string \<Rightarrow> nat list"
  hub_chans :: "nat \<Rightarrow> hub_chan"
  hub_next :: nat

definition hub_capacity :: nat where "hub_capacity = 64"

definition new_hub :: hub where
  "new_hub = \<lparr>hub_subscribers = (\<lambda>_. []),
              hub_chans = (\<lambda>_. \<lparr>hc_buffer = [], hc_closed = False\<rparr>), hub_next = 0\<rparr>"

definition hub_subscribe :: "hub \<Rightarrow> string \<Rightarrow> hub \<times> nat" where
  "hub_subscribe h run =
     (let c = hub_next h
      in (h\<lparr>hub_subscribers := (hub_subscribers h)(run := c # hub_subscribers h run),
            hub_chans := (hub_chans h)(c := \<lparr>hc_buffer = [], hc_closed = False\<rparr>),
            hub_next := Suc c\<rparr>, c))"

text \<open>The function \<^verbatim>\<open>Subscribe\<close> returns; closing a closed channel panics, after the deletion.\<close>

definition hub_cancel :: "hub \<Rightarrow> string \<Rightarrow> nat \<Rightarrow> hub \<times> bool" where
  "hub_cancel h run c =
     (let h' = h\<lparr>hub_subscribers := (hub_subscribers h)
                   (run := filter (\<lambda>x. x \<noteq> c) (hub_subscribers h run))\<rparr>
      in if hc_closed (hub_chans h c) then (h', False)
         else (h'\<lparr>hub_chans := (hub_chans h)(c := (hub_chans h c)\<lparr>hc_closed := True\<rparr>)\<rparr>, True))"

text \<open>A send that finds the buffer full is skipped.\<close>

definition chan_offer :: "envelope \<Rightarrow> hub_chan \<Rightarrow> hub_chan" where
  "chan_offer event ch =
     (if length (hc_buffer ch) < hub_capacity then ch\<lparr>hc_buffer := hc_buffer ch @ [event]\<rparr> else ch)"

text \<open>\<open>None\<close> is the panic of a send on a closed channel.\<close>

definition hub_publish :: "hub \<Rightarrow> envelope \<Rightarrow> hub option" where
  "hub_publish h event =
     (let subs = hub_subscribers h (ev_root_run_id event)
      in if list_ex (\<lambda>c. hc_closed (hub_chans h c)) subs then None
         else Some (h\<lparr>hub_chans := (\<lambda>c. if c \<in> set subs then chan_offer event (hub_chans h c)
                                         else hub_chans h c)\<rparr>))"

text \<open>A receive from the channel, also after it was closed.\<close>

definition hub_receive :: "hub \<Rightarrow> nat \<Rightarrow> (hub \<times> envelope) option" where
  "hub_receive h c =
     (case hc_buffer (hub_chans h c) of
        [] \<Rightarrow> None
      | e # es \<Rightarrow> Some (h\<lparr>hub_chans := (hub_chans h)(c := (hub_chans h c)\<lparr>hc_buffer := es\<rparr>)\<rparr>, e))"

subsection \<open>The hub under any subscribers\<close>

text \<open>
  Beside the hub, the state remembers of each channel its run, the events published to the run
  while it was subscribed, and the events read from it. Every cancel function is called once.
\<close>

record hub_sys =
  hs_hub :: hub
  hs_run :: "nat \<Rightarrow> string"
  hs_log :: "nat \<Rightarrow> envelope list"
  hs_got :: "nat \<Rightarrow> envelope list"

definition init_hub_sys :: hub_sys where
  "init_hub_sys = \<lparr>hs_hub = new_hub, hs_run = (\<lambda>_. []), hs_log = (\<lambda>_. []), hs_got = (\<lambda>_. [])\<rparr>"

inductive hub_step :: "hub_sys \<Rightarrow> hub_sys \<Rightarrow> bool" where
  HS_Subscribe: "hub_subscribe (hs_hub s) run = (h, c) \<Longrightarrow>
    hub_step s (s\<lparr>hs_hub := h, hs_run := (hs_run s)(c := run)\<rparr>)"
| HS_Publish: "hub_publish (hs_hub s) event = Some h \<Longrightarrow>
    hub_step s (s\<lparr>hs_hub := h, hs_log := (\<lambda>c.
      if c \<in> set (hub_subscribers (hs_hub s) (ev_root_run_id event))
      then hs_log s c @ [event] else hs_log s c)\<rparr>)"
| HS_Receive: "hub_receive (hs_hub s) c = Some (h, event) \<Longrightarrow>
    hub_step s (s\<lparr>hs_hub := h, hs_got := (hs_got s)(c := hs_got s c @ [event])\<rparr>)"
| HS_Cancel: "c < hub_next (hs_hub s) \<Longrightarrow> \<not> hc_closed (hub_chans (hs_hub s) c) \<Longrightarrow>
    hub_cancel (hs_hub s) (hs_run s c) c = (h, ok) \<Longrightarrow> hub_step s (s\<lparr>hs_hub := h\<rparr>)"

inductive hub_reachable :: "hub_sys \<Rightarrow> bool" where
  "hub_reachable init_hub_sys"
| "hub_reachable s \<Longrightarrow> hub_step s t \<Longrightarrow> hub_reachable t"

definition hub_inv :: "hub_sys \<Rightarrow> bool" where
  "hub_inv s \<longleftrightarrow>
     (\<forall>run. \<forall>c \<in> set (hub_subscribers (hs_hub s) run).
        hs_run s c = run \<and> \<not> hc_closed (hub_chans (hs_hub s) c) \<and> c < hub_next (hs_hub s))
     \<and> (\<forall>c. length (hc_buffer (hub_chans (hs_hub s) c)) \<le> hub_capacity
            \<and> subseq (hs_got s c @ hc_buffer (hub_chans (hs_hub s) c)) (hs_log s c)
            \<and> (\<forall>e \<in> set (hs_log s c). ev_root_run_id e = hs_run s c))
     \<and> (\<forall>c \<ge> hub_next (hs_hub s). hs_log s c = [] \<and> hs_got s c = [])"

lemma hub_inv_init: "hub_inv init_hub_sys"
  by (simp add: hub_inv_def init_hub_sys_def new_hub_def)

lemma subseq_offer:
  "subseq (xs @ hc_buffer ch) ys \<Longrightarrow> subseq (xs @ hc_buffer (chan_offer e ch)) (ys @ [e])"
  unfolding chan_offer_def
  by (auto simp flip: append_assoc intro: list_emb_append2 list_emb_append_mono)

lemma hub_invD:
  assumes "hub_inv s"
  shows "c \<in> set (hub_subscribers (hs_hub s) run) \<Longrightarrow>
      hs_run s c = run \<and> \<not> hc_closed (hub_chans (hs_hub s) c) \<and> c < hub_next (hs_hub s)"
    "length (hc_buffer (hub_chans (hs_hub s) c)) \<le> hub_capacity"
    "subseq (hs_got s c @ hc_buffer (hub_chans (hs_hub s) c)) (hs_log s c)"
    "e \<in> set (hs_log s c) \<Longrightarrow> ev_root_run_id e = hs_run s c"
    "c \<ge> hub_next (hs_hub s) \<Longrightarrow> hs_log s c = [] \<and> hs_got s c = []"
  using assms unfolding hub_inv_def by blast+

lemma hub_inv_step: "hub_step s t \<Longrightarrow> hub_inv s \<Longrightarrow> hub_inv t"
proof (induction rule: hub_step.induct)
  case (HS_Subscribe s run h c)
  note inv = hub_invD [OF HS_Subscribe.prems]
  have c: "c = hub_next (hs_hub s)" and h: "hub_next h = Suc c"
    "hub_subscribers h = (hub_subscribers (hs_hub s))(run := c # hub_subscribers (hs_hub s) run)"
    "hub_chans h = (hub_chans (hs_hub s))(c := \<lparr>hc_buffer = [], hc_closed = False\<rparr>)"
    using HS_Subscribe.hyps by (auto simp: hub_subscribe_def Let_def)
  have "hs_log s c = []" "hs_got s c = []" using inv(5) [of c] c by auto
  moreover have "x < c" "x \<noteq> c" if "x \<in> set (hub_subscribers (hs_hub s) r)" for x r
    using inv(1) [OF that] c by auto
  ultimately show ?case
    unfolding hub_inv_def using inv by (auto simp: h c less_Suc_eq)
next
  case (HS_Publish s event h)
  have h: "hub_next h = hub_next (hs_hub s)" "hub_subscribers h = hub_subscribers (hs_hub s)"
    "hub_chans h = (\<lambda>c. if c \<in> set (hub_subscribers (hs_hub s) (ev_root_run_id event))
       then chan_offer event (hub_chans (hs_hub s) c) else hub_chans (hs_hub s) c)"
    using HS_Publish.hyps by (auto simp: hub_publish_def Let_def split: if_splits)
  have closed: "hc_closed (chan_offer e ch) = hc_closed ch"
    and bound: "length (hc_buffer ch) \<le> hub_capacity \<Longrightarrow>
      length (hc_buffer (chan_offer e ch)) \<le> hub_capacity" for e ch
    by (auto simp: chan_offer_def)
  note inv = hub_invD [OF HS_Publish.prems]
  have "\<not> hub_next (hs_hub s) \<le> x" if "x \<in> set (hub_subscribers (hs_hub s) r)" for x r
    using inv(1) [OF that] by simp
  with inv show ?case
    unfolding hub_inv_def by (auto simp: h closed bound subseq_offer)
next
  case (HS_Receive s c h event)
  note inv = hub_invD [OF HS_Receive.prems]
  obtain es where es: "hc_buffer (hub_chans (hs_hub s) c) = event # es"
    and h: "hub_next h = hub_next (hs_hub s)" "hub_subscribers h = hub_subscribers (hs_hub s)"
      "hub_chans h = (hub_chans (hs_hub s))(c := (hub_chans (hs_hub s) c)\<lparr>hc_buffer := es\<rparr>)"
    using HS_Receive.hyps by (auto simp: hub_receive_def split: list.splits)
  have "c < hub_next (hs_hub s)"
    using inv(3,5) [of c] es by (metis append_is_Nil_conv list.distinct(1) list_emb_Nil2 not_le)
  with es inv(2,3) [of c] inv show ?case
    unfolding hub_inv_def by (auto simp: h)
next
  case (HS_Cancel c s h ok)
  note inv = hub_invD [OF HS_Cancel.prems]
  have h: "hub_next h = hub_next (hs_hub s)"
    "hub_subscribers h = (hub_subscribers (hs_hub s))
       (hs_run s c := filter (\<lambda>x. x \<noteq> c) (hub_subscribers (hs_hub s) (hs_run s c)))"
    "hub_chans h = (hub_chans (hs_hub s))(c := (hub_chans (hs_hub s) c)\<lparr>hc_closed := True\<rparr>)"
    using HS_Cancel.hyps by (auto simp: hub_cancel_def Let_def)
  have "x \<noteq> c" if "x \<in> set (hub_subscribers (hs_hub s) r)" "r \<noteq> hs_run s c" for x r
    using inv(1) [OF that(1)] that(2) by auto
  with inv show ?case
    unfolding hub_inv_def by (auto simp: h)
qed

lemma hub_reachable_inv: "hub_reachable s \<Longrightarrow> hub_inv s"
  by (induction rule: hub_reachable.induct) (auto intro: hub_inv_init hub_inv_step)

lemma publish_total: "hub_inv s \<Longrightarrow> hub_publish (hs_hub s) event \<noteq> None"
  by (auto simp: hub_publish_def list_ex_iff Let_def dest: hub_invD(1))

text \<open>
  C38. Whatever subscribers come and go, publishing an event never fails on a closed channel,
  no channel holds more than 64 undelivered events, and what the reader of a channel has
  received, followed by what waits in the channel, is a part of the events published to its run
  since it subscribed, in the order of publication: the hub may skip events of a slow reader,
  but never reorders, repeats or misdirects one.
\<close>

theorem hub_delivers_in_order:
  assumes "hub_reachable s"
  shows "hub_publish (hs_hub s) event \<noteq> None
    \<and> length (hc_buffer (hub_chans (hs_hub s) c)) \<le> 64
    \<and> subseq (hs_got s c @ hc_buffer (hub_chans (hs_hub s) c)) (hs_log s c)
    \<and> (\<forall>e \<in> set (hs_log s c). ev_root_run_id e = hs_run s c)"
  using publish_total [of s event] hub_invD(2,3) [of s c] hub_invD(4) [of s _ c] hub_reachable_inv [OF assms]
  by (auto simp: hub_capacity_def)

definition sample_event :: "string \<Rightarrow> nat \<Rightarrow> event_type \<Rightarrow> envelope" where
  "sample_event run seq ty =
     \<lparr>ev_event_id = run @ ''_'' @ nat_digits seq, ev_root_run_id = run, ev_run_id = run,
      ev_parent_run_id = [], ev_session_id = ''s'', ev_root_seq = seq, ev_agent_seq = seq,
      ev_agent = \<lparr>ag_agent_id = ''a'', ag_role = Role_Root, ag_sub_agent_id = [],
        ag_parent_agent_id = [], ag_path = [], ag_name = []\<rparr>,
      ev_stream = None, ev_type = ty, ev_payload = [], ev_created_at = 7\<rparr>"

lemma sample_event_simps [simp]:
  "ev_root_run_id (sample_event run seq ty) = run" "ev_root_seq (sample_event run seq ty) = seq"
  "ev_type (sample_event run seq ty) = ty" "ev_session_id (sample_event run seq ty) = ''s''"
  by (simp_all add: sample_event_def)

lemma sample_event_eq [simp]:
  "sample_event run m ty = sample_event run n ty' \<longleftrightarrow> m = n \<and> ty = ty'"
  by (metis sample_event_simps(2,3))

theorem hub_delivers_in_order_witness:
  "\<exists>s. hub_reachable s \<and> hs_log s 0 = [sample_event ''r'' 1 Ev_Finish]
     \<and> subseq (hs_got s 0 @ hc_buffer (hub_chans (hs_hub s) 0)) (hs_log s 0)"
proof -
  define h where "h = fst (hub_subscribe new_hub ''r'')"
  have "hub_step init_hub_sys (init_hub_sys\<lparr>hs_hub := h, hs_run := (hs_run init_hub_sys)(0 := ''r'')\<rparr>)"
    by (rule HS_Subscribe) (simp add: h_def init_hub_sys_def hub_subscribe_def new_hub_def Let_def)
  then have s: "hub_reachable (init_hub_sys\<lparr>hs_hub := h, hs_run := (hs_run init_hub_sys)(0 := ''r'')\<rparr>)"
    (is "hub_reachable ?s") by (blast intro: hub_reachable.intros)
  obtain h' where "hub_publish (hs_hub ?s) (sample_event ''r'' 1 Ev_Finish) = Some h'"
    using publish_total [OF hub_reachable_inv [OF s]] by blast
  from HS_Publish [OF this] have "\<exists>t. hub_step ?s t \<and> hs_log t 0 = [sample_event ''r'' 1 Ev_Finish]"
    by (auto simp: h_def hub_subscribe_def new_hub_def init_hub_sys_def Let_def intro!: exI)
  then show ?thesis
    using s hub_delivers_in_order by (meson hub_reachable.intros(2))
qed

subsection \<open>A websocket session\<close>

text \<open>
  Of the messages of a session the model keeps the events; \<open>Ws_Reply\<close> stands for every other
  message, with its method. \<^verbatim>\<open>subscriptions\<close> maps a run to the channel its cancel function
  closes.
\<close>

datatype ws_message = Ws_Event envelope | Ws_Reply string

record ws_session =
  ws_subscriptions :: "(string \<times> nat) list"
  ws_last_sent :: "string \<Rightarrow> nat"
  ws_send :: "ws_message list"

definition ws_capacity :: nat where "ws_capacity = 128"

definition new_session :: ws_session where
  "new_session = \<lparr>ws_subscriptions = [], ws_last_sent = (\<lambda>_. 0), ws_send = []\<rparr>"

definition ws_enqueue :: "ws_session \<Rightarrow> ws_message \<Rightarrow> ws_session" where
  "ws_enqueue s m = (if length (ws_send s) < ws_capacity then s\<lparr>ws_send := ws_send s @ [m]\<rparr> else s)"

definition mark_event_sent :: "ws_session \<Rightarrow> string \<Rightarrow> nat \<Rightarrow> ws_session \<times> bool" where
  "mark_event_sent s run seq =
     (if run = [] \<or> seq = 0 then (s, True)
      else if seq \<le> ws_last_sent s run then (s, False)
      else (s\<lparr>ws_last_sent := (ws_last_sent s)(run := seq)\<rparr>, True))"

definition ws_subscribe :: "hub \<Rightarrow> ws_session \<Rightarrow> string \<Rightarrow> hub \<times> ws_session \<times> nat option" where
  "ws_subscribe h s run =
     (if run = [] \<or> map_of (ws_subscriptions s) run \<noteq> None then (h, s, None)
      else case hub_subscribe h run of (h', c) \<Rightarrow>
        (h', s\<lparr>ws_subscriptions := (run, c) # ws_subscriptions s\<rparr>, Some c))"

definition ws_close :: "hub \<Rightarrow> ws_session \<Rightarrow> hub \<times> ws_session" where
  "ws_close h s =
     (fold (\<lambda>(run, c) h. fst (hub_cancel h run c)) (ws_subscriptions s) h,
      s\<lparr>ws_subscriptions := []\<rparr>)"

text \<open>
  The goroutines of a session: the read loop handles one request after the other, and replays
  stored events itself; one forwarder reads each channel; the write loop empties the send
  queue. \<open>wy_hand\<close> holds the events that a goroutine has marked and not queued yet, with the
  channel of the forwarder (\<open>None\<close> is the read loop). \<open>wy_replayed\<close> remembers all events the
  store returned to replays, \<open>wy_written\<close> all messages written to the connection.
\<close>

record ws_sys =
  wy_hub :: hub
  wy_session :: ws_session
  wy_open :: bool
  wy_forwarders :: "nat list"
  wy_replay :: "envelope list"
  wy_hand :: "(nat option \<times> envelope) list"
  wy_written :: "ws_message list"
  wy_replayed :: "envelope list"

definition init_ws_sys :: ws_sys where
  "init_ws_sys =
     \<lparr>wy_hub = new_hub, wy_session = new_session, wy_open = True, wy_forwarders = [],
      wy_replay = [], wy_hand = [], wy_written = [], wy_replayed = []\<rparr>"

definition holding :: "ws_sys \<Rightarrow> nat option \<Rightarrow> bool" where
  "holding s t \<longleftrightarrow> t \<in> fst ` set (wy_hand s)"

definition read_loop_idle :: "ws_sys \<Rightarrow> bool" where
  "read_loop_idle s \<longleftrightarrow> wy_open s \<and> wy_replay s = [] \<and> \<not> holding s None"

text \<open>The first half of \<^verbatim>\<open>sendEvent\<close>, by goroutine \<open>t\<close>; the second is \<open>WY_Enqueue\<close>.\<close>

definition begin_send :: "ws_sys \<Rightarrow> nat option \<Rightarrow> envelope \<Rightarrow> ws_sys" where
  "begin_send s t event =
     (case mark_event_sent (wy_session s) (ev_root_run_id event) (ev_root_seq event) of
        (session, True) \<Rightarrow> s\<lparr>wy_session := session, wy_hand := (t, event) # wy_hand s\<rparr>
      | (session, False) \<Rightarrow> s\<lparr>wy_session := session\<rparr>)"

definition add_forwarder :: "nat option \<Rightarrow> nat list \<Rightarrow> nat list" where
  "add_forwarder c cs = (case c of None \<Rightarrow> cs | Some x \<Rightarrow> x # cs)"

definition ws_send_message :: "ws_sys \<Rightarrow> ws_message \<Rightarrow> ws_sys" where
  "ws_send_message s m = s\<lparr>wy_session := ws_enqueue (wy_session s) m\<rparr>"

inductive ws_step :: "ws_sys \<Rightarrow> ws_sys \<Rightarrow> bool" where
  WY_Publish: "hub_publish (wy_hub s) event = Some h \<Longrightarrow> ws_step s (s\<lparr>wy_hub := h\<rparr>)"
| WY_Other_Subscribe: "hub_subscribe (wy_hub s) run = (h, c) \<Longrightarrow> ws_step s (s\<lparr>wy_hub := h\<rparr>)"
| WY_Other_Receive: "c \<notin> set (wy_forwarders s) \<Longrightarrow> hub_receive (wy_hub s) c = Some (h, event) \<Longrightarrow>
    ws_step s (s\<lparr>wy_hub := h\<rparr>)"
| WY_Other_Cancel: "c \<notin> set (wy_forwarders s) \<Longrightarrow> hub_cancel (wy_hub s) run c = (h, True) \<Longrightarrow>
    ws_step s (s\<lparr>wy_hub := h\<rparr>)"
| WY_Cursor: "read_loop_idle s \<Longrightarrow> ws_subscribe (wy_hub s) (wy_session s) run = (h, session, c) \<Longrightarrow>
    ws_step s (s\<lparr>wy_hub := h, wy_session := session, wy_replay := es,
      wy_forwarders := add_forwarder c (wy_forwarders s), wy_replayed := wy_replayed s @ es\<rparr>)"
| WY_Cursor_Failed: "read_loop_idle s \<Longrightarrow>
    ws_subscribe (wy_hub s) (wy_session s) run = (h, session, c) \<Longrightarrow>
    ws_step s (ws_send_message (s\<lparr>wy_hub := h, wy_session := session,
      wy_forwarders := add_forwarder c (wy_forwarders s)\<rparr>) (Ws_Reply ''error''))"
| WY_Reply: "read_loop_idle s \<Longrightarrow> ws_step s (ws_send_message s (Ws_Reply m))"
| WY_Replay: "wy_replay s = e # es \<Longrightarrow> \<not> holding s None \<Longrightarrow>
    ws_step s (begin_send (s\<lparr>wy_replay := es\<rparr>) None e)"
| WY_Forward: "c \<in> set (wy_forwarders s) \<Longrightarrow> \<not> holding s (Some c) \<Longrightarrow>
    hub_receive (wy_hub s) c = Some (h, event) \<Longrightarrow>
    ws_step s (begin_send (s\<lparr>wy_hub := h\<rparr>) (Some c) event)"
| WY_Enqueue: "(t, event) \<in> set (wy_hand s) \<Longrightarrow>
    ws_step s (ws_send_message (s\<lparr>wy_hand := remove1 (t, event) (wy_hand s)\<rparr>) (Ws_Event event))"
| WY_Write: "ws_send (wy_session s) = m # ms \<Longrightarrow>
    ws_step s (s\<lparr>wy_session := (wy_session s)\<lparr>ws_send := ms\<rparr>, wy_written := wy_written s @ [m]\<rparr>)"
| WY_Close: "read_loop_idle s \<Longrightarrow> ws_close (wy_hub s) (wy_session s) = (h, session) \<Longrightarrow>
    ws_step s (s\<lparr>wy_hub := h, wy_session := session, wy_open := False\<rparr>)"

inductive ws_steps :: "ws_sys \<Rightarrow> ws_sys \<Rightarrow> bool" where
  "ws_steps s s"
| "ws_steps s t \<Longrightarrow> ws_step t u \<Longrightarrow> ws_steps s u"

fun sent_events :: "ws_message list \<Rightarrow> envelope list" where
  "sent_events [] = []"
| "sent_events (Ws_Event e # ms) = e # sent_events ms"
| "sent_events (Ws_Reply r # ms) = sent_events ms"

lemma sent_events_append [simp]: "sent_events (xs @ ys) = sent_events xs @ sent_events ys"
  by (induction xs rule: sent_events.induct) auto

text \<open>An event with a run and a number; the others are sent as they come.\<close>

definition numbered :: "envelope \<Rightarrow> bool" where
  "numbered e \<longleftrightarrow> ev_root_run_id e \<noteq> [] \<and> ev_root_seq e \<noteq> 0"

definition event_key :: "envelope \<Rightarrow> string \<times> nat" where
  "event_key e = (ev_root_run_id e, ev_root_seq e)"

text \<open>The events on their way to the client or there.\<close>

definition underway :: "ws_sys \<Rightarrow> envelope multiset" where
  "underway s = mset (sent_events (wy_written s)) + mset (sent_events (ws_send (wy_session s)))
     + image_mset snd (mset (wy_hand s))"

definition numbers :: "envelope multiset \<Rightarrow> (string \<times> nat) multiset" where
  "numbers M = image_mset event_key (filter_mset numbered M)"

definition once_each :: "(string \<Rightarrow> nat) \<Rightarrow> envelope multiset \<Rightarrow> bool" where
  "once_each sent M \<longleftrightarrow> unique_mset (numbers M) \<and> (\<forall>(run, n) \<in># numbers M. n \<le> sent run)"

lemma once_each_mono: "once_each sent M \<Longrightarrow> N \<subseteq># M \<Longrightarrow> once_each sent N"
  unfolding once_each_def numbers_def
  by (meson image_mset_subseteq_mono multiset_filter_mono mset_subset_eqD unique_mset_mono)

lemma once_each_mark:
  assumes "once_each (ws_last_sent s) M"
    "mark_event_sent s (ev_root_run_id e) (ev_root_seq e) = (s', True)"
  shows "once_each (ws_last_sent s') (add_mset e M)"
proof (cases "numbered e")
  case False
  then have "s' = s" using assms(2) by (auto simp: mark_event_sent_def numbered_def split: if_splits)
  with False assms(1) show ?thesis by (simp add: once_each_def numbers_def)
next
  case True
  then have sent: "ws_last_sent s' = (ws_last_sent s)(ev_root_run_id e := ev_root_seq e)"
    and new: "ev_root_seq e > ws_last_sent s (ev_root_run_id e)"
    using assms(2) by (auto simp: mark_event_sent_def numbered_def split: if_splits)
  have old: "n \<le> ws_last_sent s run" if "(run, n) \<in># numbers M" for run n
    using assms(1) that by (auto simp: once_each_def)
  have "event_key e \<notin># numbers M"
    using old [of "ev_root_run_id e" "ev_root_seq e"] new by (auto simp: event_key_def)
  moreover have "numbers (add_mset e M) = add_mset (event_key e) (numbers M)"
    using True by (simp add: numbers_def)
  moreover have "n \<le> ws_last_sent s' run" if "(run, n) \<in># numbers M" for run n
    using old [OF that] new by (auto simp: sent)
  ultimately show ?thesis
    using assms(1) by (auto simp: once_each_def unique_mset_add event_key_def sent)
qed

definition sends :: "ws_sys \<Rightarrow> envelope \<Rightarrow> ws_sys \<Rightarrow> bool" where
  "sends s e t \<longleftrightarrow>
     mark_event_sent (wy_session s) (ev_root_run_id e) (ev_root_seq e) = (wy_session t, True)
     \<and> underway t = add_mset e (underway s)"

definition idles :: "ws_sys \<Rightarrow> ws_sys \<Rightarrow> bool" where
  "idles s t \<longleftrightarrow> ws_last_sent (wy_session t) = ws_last_sent (wy_session s)
     \<and> underway t \<subseteq># underway s"

lemma subscribe_keeps:
  "ws_subscribe h s run = (h', s', c) \<Longrightarrow>
    ws_send s' = ws_send s \<and> ws_last_sent s' = ws_last_sent s"
  by (auto simp: ws_subscribe_def split: if_splits prod.splits)

lemma send_message_reply:
  "idles s (ws_send_message s (Ws_Reply r))"
  by (simp add: idles_def ws_send_message_def ws_enqueue_def underway_def)

lemma send_message_event:
  "ws_last_sent (wy_session (ws_send_message s (Ws_Event e))) = ws_last_sent (wy_session s)"
  "underway (ws_send_message s (Ws_Event e)) \<subseteq># add_mset e (underway s)"
  by (simp_all add: ws_send_message_def ws_enqueue_def underway_def)

lemma begin_send_effect:
  "idles s (begin_send s x e) \<or> sends s e (begin_send s x e)"
  by (auto simp: begin_send_def idles_def sends_def underway_def mark_event_sent_def
      split: if_splits prod.splits bool.splits)

lemma step_effect:
  "ws_step s t \<Longrightarrow> idles s t \<or> (\<exists>e. sends s e t)"
proof (induction rule: ws_step.induct)
  case (WY_Cursor s run h session c es)
  from subscribe_keeps [OF this(2)] show ?case by (simp add: idles_def underway_def)
next
  case (WY_Cursor_Failed s run h session c)
  from subscribe_keeps [OF this(2)]
    send_message_reply [of "s\<lparr>wy_hub := h, wy_session := session,
      wy_forwarders := add_forwarder c (wy_forwarders s)\<rparr>" "''error''"]
  show ?case by (simp add: idles_def underway_def)
next
  case (WY_Replay s e es)
  from begin_send_effect [of "s\<lparr>wy_replay := es\<rparr>" None e] show ?case
    by (auto simp: idles_def sends_def underway_def)
next
  case (WY_Forward c s h event)
  from begin_send_effect [of "s\<lparr>wy_hub := h\<rparr>" "Some c" event] show ?case
    by (auto simp: idles_def sends_def underway_def)
next
  case (WY_Enqueue x event s)
  let ?s = "s\<lparr>wy_hand := remove1 (x, event) (wy_hand s)\<rparr>"
  have "mset (wy_hand s) = add_mset (x, event) (mset (remove1 (x, event) (wy_hand s)))"
    using WY_Enqueue by simp
  then have "image_mset snd (mset (wy_hand s)) = add_mset event (image_mset snd (mset (wy_hand ?s)))"
    by (metis image_mset_add_mset prod.sel(2) ws_sys.select_convs(6) ws_sys.surjective
        ws_sys.update_convs(6))
  then have "underway s = add_mset event (underway ?s)"
    by (simp add: underway_def)
  with send_message_event [of ?s event] show ?case by (simp add: idles_def)
next
  case (WY_Write s m ms)
  then show ?case by (cases m) (auto simp: idles_def underway_def)
qed (auto simp: idles_def underway_def ws_close_def ws_send_message_def ws_enqueue_def)

text \<open>A step keeps each number unique, and never gives a number back.\<close>

lemma once_each_step:
  "ws_step s t \<Longrightarrow> once_each (ws_last_sent (wy_session s)) (underway s) \<Longrightarrow>
    once_each (ws_last_sent (wy_session t)) (underway t)"
  using step_effect [of s t] once_each_mark [of "wy_session s" "underway s"]
  by (metis idles_def once_each_mono sends_def)

lemma once_each_steps:
  "ws_steps s t \<Longrightarrow> once_each (ws_last_sent (wy_session s)) (underway s) \<Longrightarrow>
    once_each (ws_last_sent (wy_session t)) (underway t)"
  by (induction rule: ws_steps.induct) (auto intro: once_each_step)

lemma mark_mono:
  "mark_event_sent s run n = (s', b) \<Longrightarrow> ws_last_sent s r \<le> ws_last_sent s' r"
  by (auto simp: mark_event_sent_def split: if_splits)

definition passed_over :: "ws_sys \<Rightarrow> envelope \<Rightarrow> bool" where
  "passed_over s e \<longleftrightarrow> numbered e \<and> ev_root_seq e \<le> ws_last_sent (wy_session s) (ev_root_run_id e)
     \<and> e \<notin># underway s"

lemma passed_over_step: "ws_step s t \<Longrightarrow> passed_over s e \<Longrightarrow> passed_over t e"
proof -
  assume "ws_step s t" and e: "passed_over s e"
  from step_effect [OF this(1)] show "passed_over t e"
  proof
    assume "idles s t"
    with e show ?thesis by (auto simp: passed_over_def idles_def dest: mset_subset_eqD)
  next
    assume "\<exists>x. sends s x t"
    then obtain x where x: "sends s x t" ..
    then have "e \<noteq> x"
      using e by (auto simp: sends_def passed_over_def numbered_def mark_event_sent_def split: if_splits)
    with x e mark_mono [of "wy_session s" "ev_root_run_id x" "ev_root_seq x" "wy_session t" True]
    show ?thesis by (auto simp: passed_over_def sends_def intro: le_trans)
  qed
qed

lemma passed_over_steps: "ws_steps s t \<Longrightarrow> passed_over s e \<Longrightarrow> passed_over t e"
  by (induction rule: ws_steps.induct) (auto intro: passed_over_step)

text \<open>
  C39. However the read loop, the forwarders, the write loop and other users of the hub
  interleave, and although a stored event may be replayed while the same event is forwarded
  live, no event of a run is written to the connection twice.
\<close>

theorem ws_events_written_once:
  assumes "ws_steps init_ws_sys s"
  shows "distinct (map event_key (filter numbered (sent_events (wy_written s))))"
proof -
  have "once_each (ws_last_sent (wy_session init_ws_sys)) (underway init_ws_sys)"
    by (simp add: init_ws_sys_def new_session_def once_each_def underway_def numbers_def)
  from once_each_steps [OF assms this] have "unique_mset (numbers (underway s))"
    by (simp add: once_each_def)
  moreover have "numbers (mset (sent_events (wy_written s))) \<subseteq># numbers (underway s)"
    by (auto simp: numbers_def underway_def intro!: image_mset_subseteq_mono multiset_filter_mono)
  ultimately show ?thesis
    by (metis mset_filter mset_map numbers_def unique_mset_mono unique_mset_mset)
qed

text \<open>
  C40. The session tracks only the highest number sent for a run. Once a live event has been
  marked, an earlier event of the run that was not sent before is never written, whatever
  happens afterwards: a replay that is overtaken by a live event loses its events, and so
  does any later resubscription on the connection.
\<close>

theorem ws_overtaken_event_lost:
  assumes "ws_steps s t" "numbered e"
    "ev_root_seq e \<le> ws_last_sent (wy_session s) (ev_root_run_id e)" "e \<notin># underway s"
  shows "e \<notin> set (sent_events (wy_written t))"
  using passed_over_steps [OF assms(1), of e] assms(2-4) by (simp add: passed_over_def underway_def)

text \<open>
  The overtaking itself: the client subscribes to a run from its start; the store returns the
  events 1 and 2 to the replay; event 2, published meanwhile, is forwarded first. In the end
  all queues are empty and the client has seen only event 2.
\<close>

definition overtaken_run :: "envelope list" where
  "overtaken_run = [sample_event ''r'' 1 Ev_Message, sample_event ''r'' 2 Ev_Finish]"

definition overtaken_hub :: "envelope list \<Rightarrow> hub" where
  "overtaken_hub es = (fst (hub_subscribe new_hub ''r''))
     \<lparr>hub_chans := (\<lambda>_. \<lparr>hc_buffer = [], hc_closed = False\<rparr>)(0 := \<lparr>hc_buffer = es, hc_closed = False\<rparr>)\<rparr>"

definition overtaken_sys ::
  "envelope list \<Rightarrow> nat \<Rightarrow> ws_message list \<Rightarrow> envelope list \<Rightarrow> (nat option \<times> envelope) list \<Rightarrow>
    ws_message list \<Rightarrow> ws_sys" where
  "overtaken_sys buffered sent queued replay hand written =
     \<lparr>wy_hub = overtaken_hub buffered,
      wy_session = \<lparr>ws_subscriptions = [(''r'', 0)], ws_last_sent = (\<lambda>_. 0)(''r'' := sent), ws_send = queued\<rparr>,
      wy_open = True, wy_forwarders = [0], wy_replay = replay, wy_hand = hand, wy_written = written,
      wy_replayed = overtaken_run\<rparr>"

lemma overtaken_start:
  "ws_steps init_ws_sys (overtaken_sys [] 0 [] overtaken_run [] [])"
proof -
  have "ws_step init_ws_sys (overtaken_sys [] 0 [] overtaken_run [] [])"
    using WY_Cursor [of init_ws_sys "''r''" "fst (hub_subscribe new_hub ''r'')"
        "new_session\<lparr>ws_subscriptions := [(''r'', 0)]\<rparr>" "Some 0" overtaken_run]
    by (auto simp: overtaken_sys_def overtaken_hub_def init_ws_sys_def new_session_def
        ws_subscribe_def hub_subscribe_def new_hub_def read_loop_idle_def holding_def
        add_forwarder_def Let_def fun_upd_idem)
  then show ?thesis by (blast intro: ws_steps.intros)
qed

lemma overtaken_publish:
  "ws_step (overtaken_sys [] 0 [] overtaken_run [] [])
    (overtaken_sys [sample_event ''r'' 2 Ev_Finish] 0 [] overtaken_run [] [])"
  using WY_Publish [of "overtaken_sys [] 0 [] overtaken_run [] []" "sample_event ''r'' 2 Ev_Finish"
      "overtaken_hub [sample_event ''r'' 2 Ev_Finish]"]
  by (auto simp: overtaken_sys_def overtaken_hub_def hub_publish_def hub_subscribe_def new_hub_def
      chan_offer_def hub_capacity_def Let_def fun_eq_iff fun_upd_idem)

lemma overtaken_forward:
  "ws_step (overtaken_sys [sample_event ''r'' 2 Ev_Finish] 0 [] overtaken_run [] [])
    (overtaken_sys [] 2 [] overtaken_run [(Some 0, sample_event ''r'' 2 Ev_Finish)] [])"
  using WY_Forward [of 0 "overtaken_sys [sample_event ''r'' 2 Ev_Finish] 0 [] overtaken_run [] []"
      "overtaken_hub []" "sample_event ''r'' 2 Ev_Finish"]
  by (auto simp: overtaken_sys_def overtaken_hub_def hub_receive_def holding_def begin_send_def
      mark_event_sent_def)

lemma overtaken_rest:
  "ws_steps (overtaken_sys [] 2 [] overtaken_run [(Some 0, sample_event ''r'' 2 Ev_Finish)] [])
    (overtaken_sys [] 2 [] [] [] [Ws_Event (sample_event ''r'' 2 Ev_Finish)])"
proof -
  let ?e = "sample_event ''r'' 2 Ev_Finish"
  have a: "ws_step (overtaken_sys [] 2 [] overtaken_run [(Some 0, ?e)] [])
      (overtaken_sys [] 2 [Ws_Event ?e] overtaken_run [] [])"
    using WY_Enqueue [of "Some 0" ?e "overtaken_sys [] 2 [] overtaken_run [(Some 0, ?e)] []"]
    by (simp add: overtaken_sys_def ws_send_message_def ws_enqueue_def ws_capacity_def)
  have b: "ws_step (overtaken_sys [] 2 [Ws_Event ?e] overtaken_run [] [])
      (overtaken_sys [] 2 [] overtaken_run [] [Ws_Event ?e])"
    using WY_Write [of "overtaken_sys [] 2 [Ws_Event ?e] overtaken_run [] []" "Ws_Event ?e" "[]"]
    by (simp add: overtaken_sys_def)
  have c: "ws_step (overtaken_sys [] 2 [] (sample_event ''r'' n ty # es) [] [Ws_Event ?e])
      (overtaken_sys [] 2 [] es [] [Ws_Event ?e])" if "0 < n" "n \<le> 2" for n ty es
    using that WY_Replay [of "overtaken_sys [] 2 [] (sample_event ''r'' n ty # es) [] [Ws_Event ?e]"
        "sample_event ''r'' n ty" es]
    by (simp add: overtaken_sys_def holding_def begin_send_def mark_event_sent_def)
  have run: "overtaken_run = [sample_event ''r'' 1 Ev_Message, ?e]" by (simp add: overtaken_run_def)
  note step = ws_steps.intros(2)
  have "ws_steps (overtaken_sys [] 2 [] overtaken_run [(Some 0, ?e)] [])
      (overtaken_sys [] 2 [] overtaken_run [] [Ws_Event ?e])"
    by (rule step [OF step [OF ws_steps.intros(1) a] b])
  with run show ?thesis
    by (auto intro: step [OF step [OF _ c [of 1 Ev_Message "[?e]"]] c [of 2 Ev_Finish "[]"]])
qed

theorem ws_events_written_once_witness:
  "\<exists>s. ws_steps init_ws_sys s \<and> wy_replay s = overtaken_run
     \<and> distinct (map event_key (filter numbered (sent_events (wy_written s))))"
proof -
  have "wy_replay (overtaken_sys [] 0 [] overtaken_run [] []) = overtaken_run"
    by (simp add: overtaken_sys_def)
  with overtaken_start ws_events_written_once [OF overtaken_start] show ?thesis by blast
qed

theorem ws_overtaken_event_lost_witness:
  "\<exists>s t. ws_steps init_ws_sys s \<and> ws_steps s t
     \<and> wy_replayed t = [sample_event ''r'' 1 Ev_Message, sample_event ''r'' 2 Ev_Finish]
     \<and> wy_written t = [Ws_Event (sample_event ''r'' 2 Ev_Finish)]
     \<and> wy_replay t = [] \<and> wy_hand t = [] \<and> ws_send (wy_session t) = []
     \<and> hc_buffer (hub_chans (wy_hub t) 0) = []
     \<and> sample_event ''r'' 1 Ev_Message \<notin> set (sent_events (wy_written t))"
proof -
  let ?s = "overtaken_sys [] 2 [] overtaken_run [(Some 0, sample_event ''r'' 2 Ev_Finish)] []"
  let ?t = "overtaken_sys [] 2 [] [] [] [Ws_Event (sample_event ''r'' 2 Ev_Finish)]"
  have s: "ws_steps init_ws_sys ?s"
    using overtaken_start overtaken_publish overtaken_forward by (blast intro: ws_steps.intros)
  have "numbered (sample_event ''r'' 1 Ev_Message)"
    "sample_event ''r'' 1 Ev_Message \<notin># underway ?s"
    "ev_root_seq (sample_event ''r'' 1 Ev_Message)
      \<le> ws_last_sent (wy_session ?s) (ev_root_run_id (sample_event ''r'' 1 Ev_Message))"
    by (simp_all add: numbered_def underway_def overtaken_sys_def)
  from ws_overtaken_event_lost [OF overtaken_rest this(1,3,2)] s overtaken_rest
  show ?thesis
    by (intro exI [of _ ?s] exI [of _ ?t])
      (simp add: overtaken_sys_def overtaken_run_def overtaken_hub_def)
qed

end
