(* ===== verification/Run_Service.thy ===== *)
theory Run_Service
  imports Run_Store Event_Delivery Resource_Budget
begin

text \<open>
  The run service of the Gateway (\<^verbatim>\<open>service/run.go\<close>): admission of runs, the handler of the
  runtime's events, repair after a restart, and the requests that start a run for a goal. The
  runtime client is a parameter: an operation that calls it takes its answer as an argument.
\<close>


subsection \<open>Options\<close>

definition default_max_concurrent_runs :: int where "default_max_concurrent_runs = 3"
definition max_concurrent_runs_cap :: int where "max_concurrent_runs_cap = 16"

definition resolve_max_concurrent_runs :: "string \<Rightarrow> int" where
  "resolve_max_concurrent_runs env0 =
     (let env = trim_space env0
      in case (if env = [] then None else parse_int64 env) of
           Some parsed \<Rightarrow>
             if parsed > 0
             then if parsed > max_concurrent_runs_cap then max_concurrent_runs_cap else parsed
             else default_max_concurrent_runs
         | None \<Rightarrow> default_max_concurrent_runs)"

definition env_bounded_int :: "string \<Rightarrow> int \<Rightarrow> int \<Rightarrow> int \<Rightarrow> int" where
  "env_bounded_int env fallback lo hi =
     (case parse_int64 (trim_space env) of
        None \<Rightarrow> fallback
      | Some parsed \<Rightarrow> if parsed < lo then fallback else if parsed > hi then hi else parsed)"

definition default_runtime_mode :: string where "default_runtime_mode = ''per_run_process''"

definition normalized_runtime_mode :: "string \<Rightarrow> string" where
  "normalized_runtime_mode mode =
     (if trim_space mode = ''single_core'' then ''single_core'' else default_runtime_mode)"

fun first_non_blank :: "string list \<Rightarrow> string" where
  "first_non_blank [] = []"
| "first_non_blank (v # vs) = (if trim_space v \<noteq> [] then v else first_non_blank vs)"

definition string_option :: "go_map \<Rightarrow> string \<Rightarrow> string" where
  "string_option options key =
     (case map_of options key of Some (GStr s) \<Rightarrow> s | Some (GNumber s) \<Rightarrow> s | _ \<Rightarrow> [])"

definition bool_option :: "go_map \<Rightarrow> string \<Rightarrow> bool" where
  "bool_option options key = (map_of options key = Some (GBool True))"

definition int_option :: "go_map \<Rightarrow> string \<Rightarrow> int" where
  "int_option options key =
     (case map_of options key of
        Some (GInt i) \<Rightarrow> i
      | Some (GFloat x) \<Rightarrow> trunc_rat x
      | Some (GNumber s) \<Rightarrow> (case parse_int64 s of Some i \<Rightarrow> i | None \<Rightarrow> 0)
      | _ \<Rightarrow> 0)"

fun nonempty_text :: "go_value \<Rightarrow> string list" where
  "nonempty_text (GStr s) = (if s = [] then [] else [s])"
| "nonempty_text _ = []"

definition string_slice_option :: "go_map \<Rightarrow> string \<Rightarrow> string list" where
  "string_slice_option options key =
     (case map_of options key of Some (GList xs) \<Rightarrow> concat (map nonempty_text xs) | _ \<Rightarrow> [])"

subsection \<open>State\<close>

text \<open>
  Two resource budgets, the hub, and the counter behind the ids of messages, which is a
  variable of the process.
\<close>

record 'd run_service =
  rs_db :: 'd
  rs_hub :: hub
  rs_budget :: "resource_budget option"
  rs_provider_budget :: "resource_budget option"
  rs_message_counter :: nat

subsection \<open>Admission\<close>

record start_payload =
  sp_session_id :: string
  sp_input :: go_map
  sp_options :: go_map
  sp_subscribe :: bool

definition session_busy :: string where
  "session_busy = utf8 [0xE4, 0xBC, 0x9A, 0xE8, 0xAF, 0x9D, 0xE5, 0xB7, 0xB2, 0xE6, 0x9C, 0x89,
      0xE4, 0xBB, 0xBB, 0xE5, 0x8A, 0xA1, 0xE5, 0x9C, 0xA8, 0xE8, 0xBF, 0x90, 0xE8, 0xA1, 0x8C,
      0xE4, 0xB8, 0xAD, 0xEF, 0xBC, 0x8C, 0xE8, 0xAF, 0xB7, 0xE7, 0xAD, 0x89, 0xE5, 0xBE, 0x85,
      0xE7, 0xBB, 0x93, 0xE6, 0x9D, 0x9F, 0xE5, 0x90, 0x8E, 0xE5, 0x86, 0x8D, 0xE5, 0x8F, 0x91,
      0xE9, 0x80, 0x81]"

definition too_many_runs :: "int \<Rightarrow> nat \<Rightarrow> string" where
  "too_many_runs maximum active = utf8 [0xE5, 0xB7, 0xB2, 0xE8, 0xBE, 0xBE, 0xE5, 0x88, 0xB0,
      0xE6, 0x9C, 0x80, 0xE5, 0xA4, 0xA7, 0xE5, 0xB9, 0xB6, 0xE5, 0x8F, 0x91, 0xE8, 0xBF, 0x90,
      0xE8, 0xA1, 0x8C, 0xE6, 0x95, 0xB0] @ '' '' @ int_dec maximum
     @ utf8 [0xEF, 0xBC, 0x88, 0xE5, 0xBD, 0x93, 0xE5, 0x89, 0x8D, 0xE6, 0xB4, 0xBB, 0xE8, 0xB7,
      0x83] @ '' '' @ nat_digits active
     @ utf8 [0xEF, 0xBC, 0x89, 0xEF, 0xBC, 0x8C, 0xE8, 0xAF, 0xB7, 0xE7, 0xAD, 0x89, 0xE5, 0xBE,
      0x85, 0xE5, 0x85, 0xB6, 0xE5, 0xAE, 0x83, 0xE4, 0xBC, 0x9A, 0xE8, 0xAF, 0x9D, 0xE5, 0xAE,
      0x8C, 0xE6, 0x88, 0x90, 0xE6, 0x88, 0x96, 0xE5, 0x9C, 0xA8, 0xE8, 0xAE, 0xBE, 0xE7, 0xBD,
      0xAE, 0xE4, 0xB8, 0xAD, 0xE6, 0x8F, 0x90, 0xE9, 0xAB, 0x98, 0xE4, 0xB8, 0x8A, 0xE9, 0x99,
      0x90]"

definition admitted_row :: "string \<Rightarrow> string \<Rightarrow> int \<Rightarrow> start_payload \<Rightarrow> session_row \<Rightarrow> run_row" where
  "admitted_row owner run now payload session = zero_run_row
     \<lparr>rr_id := run, rr_session_id := ss_id session, rr_workspace_root := ss_workspace_root session,
      rr_runtime_mode := normalized_runtime_mode (string_option (sp_options payload) ''runtime_mode''),
      rr_runtime_owner := owner, rr_status := ''running'',
      rr_input := string_arg (sp_input payload) ''text'', rr_started_at := now\<rparr>"

text \<open>
  The beginning of \<^verbatim>\<open>Start\<close> up to the release of \<^verbatim>\<open>startMu\<close>: one step, since the lock covers
  the counts and the insertion. The session exists when the rest fails.
\<close>

definition new_run_id :: "int \<Rightarrow> string" where
  "new_run_id now = ''run_'' @ int_dec now"

definition admit_run ::
  "'d gateway_db \<Rightarrow> string \<Rightarrow> string \<Rightarrow> (nat \<Rightarrow> int) \<Rightarrow> 'd \<Rightarrow> start_payload
    \<Rightarrow> 'd \<times> (svc_error + string \<times> session_row)" where
  "admit_run D owner env clock d payload =
     (let run = new_run_id (clock 0);
          session_id = (if sp_session_id payload = [] then ''session_'' @ run
                        else sp_session_id payload)
      in or_fail (ensure_session D (clock 1) d session_id session_id
                    (string_option (sp_options payload) ''working_dir'')) Db_Error d
         (\<lambda>(d1, session).
            or_fail (count_active_by_session D d1 (ss_id session)) Db_Error d1 (\<lambda>busy.
              if busy > 0 then (d1, Inl (Svc_Error session_busy))
              else or_fail (count_active D d1) Db_Error d1 (\<lambda>active.
                if int active \<ge> resolve_max_concurrent_runs env
                then (d1, Inl (Svc_Error (too_many_runs (resolve_max_concurrent_runs env) active)))
                else or_fail (start_run D (clock 3) d1 (admitted_row owner run (clock 2) payload session))
                       Db_Error d1 (\<lambda>d2. (d2, Inr (run, session)))))))"

subsection \<open>Runtime events\<close>

definition is_tool_event :: "event_type \<Rightarrow> bool" where
  "is_tool_event ty \<longleftrightarrow> ty = Ev_Tool_Started \<or> ty = Ev_Tool_Output \<or> ty = Ev_Tool_Finished
     \<or> ty = Ev_Tool_Failed"

definition run_end_status :: "envelope \<Rightarrow> string" where
  "run_end_status event =
     (if string_payload (ev_payload event) ''loop_end_reason'' = ''budget_exhausted''
      then ''budget_exhausted''
      else if ev_type event = Ev_Error then ''failed''
      else first_non_empty [string_payload (ev_payload event) ''status'', ''completed''])"

definition project_tools :: "'d gateway_db \<Rightarrow> (nat \<Rightarrow> int) \<Rightarrow> envelope \<Rightarrow> 'd \<Rightarrow> 'd" where
  "project_tools D clock event d =
     (if is_tool_event (ev_type event)
      then let d1 = ignoring d (project_tool_call D (clock 2) d event)
           in ignoring d1 (refresh_tool_count D (clock 3) d1 (ev_root_run_id event))
      else d)"

text \<open>
  What the handler does for \<^verbatim>\<open>EventFinish\<close> and \<^verbatim>\<open>EventError\<close>, of whatever agent they come from.
\<close>

definition settle_run_end ::
  "'d gateway_db \<Rightarrow> (nat \<Rightarrow> int) \<Rightarrow> envelope \<Rightarrow> 'd run_service \<Rightarrow> 'd run_service" where
  "settle_run_end D clock event s =
     (if ev_type event = Ev_Finish \<or> ev_type event = Ev_Error
      then let run = ev_root_run_id event;
               d1 = ignoring (rs_db s) (close_pending_by_run D (clock 4) (rs_db s) run ''closed'' ''run finished'')
           in s\<lparr>rs_budget := release_run (rs_budget s) run,
                rs_provider_budget := release_run (rs_provider_budget s) run,
                rs_db := fst (on_root_run_terminal D (\<lambda>i. clock (5 + i)) d1 run (run_end_status event))\<rparr>
      else s)"

definition delta_role :: "envelope \<Rightarrow> string" where
  "delta_role event = (if ag_role (ev_agent event) = Role_Sub_Agent then ''subagent'' else ''assistant'')"

definition store_delta ::
  "'d gateway_db \<Rightarrow> (nat \<Rightarrow> int) \<Rightarrow> envelope \<Rightarrow> 'd run_service \<Rightarrow> 'd run_service" where
  "store_delta D clock event s =
     (let delta = string_payload (ev_payload event) ''delta''
      in if (ev_type event = Ev_Message_Delta \<or> ev_type event = Ev_Reasoning_Delta) \<and> delta \<noteq> []
         then case add_or_append D (clock 8) (rs_message_counter s) (rs_db s) (ev_session_id event)
                     (delta_role event) delta (ev_root_run_id event) of
                (added, n) \<Rightarrow>
                  let d1 = ignoring (rs_db s) (map_option fst added)
                  in s\<lparr>rs_message_counter := n,
                       rs_db := ignoring d1 (touch_session D (clock 9) d1 (ev_session_id event))\<rparr>
         else s)"

definition project_run :: "'d gateway_db \<Rightarrow> (nat \<Rightarrow> int) \<Rightarrow> envelope \<Rightarrow> 'd \<Rightarrow> 'd" where
  "project_run D clock event d =
     (let d1 = ignoring d (project_event D (clock 0) d event)
      in project_tools D clock event
           (if ev_type event = Ev_Permission_Request
            then ignoring d1 (project_required D (clock 1) d1 event) else d1))"

text \<open>\<open>None\<close> is the panic of the hub.\<close>

definition handle_runtime_event ::
  "'d gateway_db \<Rightarrow> (nat \<Rightarrow> int) \<Rightarrow> 'd run_service \<Rightarrow> envelope \<Rightarrow> 'd run_service option" where
  "handle_runtime_event D clock s event =
     (if ev_event_id event = [] \<or> ev_root_run_id event = [] then Some s
      else case save_once D (rs_db s) event of
             None \<Rightarrow> Some s
           | Some (d, False) \<Rightarrow> Some (s\<lparr>rs_db := d\<rparr>)
           | Some (d, True) \<Rightarrow>
               let s1 = store_delta D clock event
                          (settle_run_end D clock event (s\<lparr>rs_db := project_run D clock event d\<rparr>))
               in map_option (\<lambda>h. s1\<lparr>rs_hub := h\<rparr>) (hub_publish (rs_hub s1) event))"

text \<open>
  The callback the Gateway gives the runtime client: after the handler, the budgets of a root
  agent's run are released once more.
\<close>

definition on_runtime_event ::
  "'d gateway_db \<Rightarrow> (nat \<Rightarrow> int) \<Rightarrow> 'd run_service \<Rightarrow> envelope \<Rightarrow> 'd run_service option" where
  "on_runtime_event D clock s event =
     map_option (\<lambda>s1.
         if ag_role (ev_agent event) \<noteq> Role_Sub_Agent \<and> (ev_type event = Ev_Finish \<or> ev_type event = Ev_Error)
         then s1\<lparr>rs_budget := release_run (rs_budget s1) (ev_root_run_id event),
                 rs_provider_budget := release_run (rs_provider_budget s1) (ev_root_run_id event)\<rparr>
         else s1)
       (handle_runtime_event D clock s event)"

definition run_subscribe :: "'d run_service \<Rightarrow> string \<Rightarrow> 'd run_service \<times> nat" where
  "run_subscribe s run = (case hub_subscribe (rs_hub s) run of (h, c) \<Rightarrow> (s\<lparr>rs_hub := h\<rparr>, c))"

definition run_replay :: "'d gateway_db \<Rightarrow> 'd \<Rightarrow> string \<Rightarrow> nat \<Rightarrow> envelope list option" where
  "run_replay D d run after = events_after D d run after 500"

definition run_events :: "'d gateway_db \<Rightarrow> 'd \<Rightarrow> string \<Rightarrow> nat \<Rightarrow> int \<Rightarrow> envelope list option" where
  "run_events D d run after n = events_after D d run after (if n \<le> 0 \<or> n > 500 then 200 else n)"

subsection \<open>Restart, cancellation, permissions\<close>

text \<open>Runs of another process are ended; errors are ignored, one by one.\<close>

definition reconcile_run ::
  "'d gateway_db \<Rightarrow> string \<Rightarrow> (nat \<Rightarrow> int) \<Rightarrow> run_row \<Rightarrow> 'd run_service \<Rightarrow> 'd run_service" where
  "reconcile_run D owner clock run s =
     (if rr_runtime_owner run \<noteq> [] \<and> rr_runtime_owner run = owner then s
      else let d1 = ignoring (rs_db s) (finish_run D (clock 0) (rs_db s) (rr_id run) ''failed''
                      ''gateway restarted before runtime completion'')
           in s\<lparr>rs_db := fst (pause_by_run D (clock 1) d1 (rr_id run) ''gateway_restart''),
                rs_budget := release_run (rs_budget s) (rr_id run),
                rs_provider_budget := release_run (rs_provider_budget s) (rr_id run)\<rparr>)"

definition reconcile_stale_runs ::
  "'d gateway_db \<Rightarrow> string \<Rightarrow> (nat \<Rightarrow> int) \<Rightarrow> 'd run_service \<Rightarrow> 'd run_service option" where
  "reconcile_stale_runs D owner clock s =
     map_option (\<lambda>active. fold (reconcile_run D owner clock) active s) (list_active D (rs_db s) 200)"

text \<open>The goal of the run is paused before the runtime is asked; \<open>sent\<close> is its answer.\<close>

definition cancel_run ::
  "'d gateway_db \<Rightarrow> int \<Rightarrow> 'd \<Rightarrow> string \<Rightarrow> string \<Rightarrow> string option \<Rightarrow> 'd \<times> string option" where
  "cancel_run D now d run reason sent =
     (fst (pause_by_run D now d run
        (if contains_sub (to_lower reason) ''compact'' then ''session_compact'' else ''user_cancel'')),
      sent)"

definition resolve_permission ::
  "'d gateway_db \<Rightarrow> int \<Rightarrow> 'd \<Rightarrow> string \<Rightarrow> string \<Rightarrow> string \<Rightarrow> svc_error + 'r \<Rightarrow> 'd \<times> (svc_error + 'r)" where
  "resolve_permission D now d permission decision reason reply =
     (case reply of
        Inl e \<Rightarrow> (d, Inl e)
      | Inr r \<Rightarrow> (ignoring d (resolve_permission_row D now d permission decision reason), Inr r))"

end
