(* ===== verification/Run_Properties.thy ===== *)
theory Run_Properties
  imports Run_Service
begin

text \<open>
  What the run service guarantees: admission, events handled once, the text of a stream, and
  the effect of a sub-agent's error.
\<close>

subsection \<open>What a statement leaves alone\<close>

text \<open>
  \<open>part\<close> is a part of the database that the statements on some tables leave alone: those on
  the goals, and then those on every table the projections write to. So the operations that
  write to these tables only leave it alone as well.
\<close>

locale goals_only =
  fixes D :: "'d gateway_db" and part :: "'d \<Rightarrow> 'x"
  assumes goals: "sql_frame (db_goals D) part"
begin

lemma ignoring_keeps: "(\<And>d'. r = Some d' \<Longrightarrow> part d' = part d) \<Longrightarrow> part (ignoring d r) = part d"
  by (cases r) auto

lemma transition_keeps:
  "transition_status D now d i session from run upd = Some (d', c) \<Longrightarrow> part d' = part d"
  by (auto simp: transition_status_def split: option.splits dest: sql_frame_law [OF goals])

lemma set_wall_time_keeps: "set_wall_time D now d i wall = Some d' \<Longrightarrow> part d' = part d"
  by (auto simp: set_wall_time_def dest: sql_frame_law [OF goals])

lemma refresh_wall_time_keeps: "part (fst (refresh_wall_time D now d row)) = part d"
  by (auto simp: refresh_wall_time_def ignoring_keeps set_wall_time_keeps split: option.splits)

lemma settle_transition_keeps:
  "part (fst (settle_transition (transition_status D now d i session from run upd) d)) = part d"
  by (cases "transition_status D now d i session from run upd")
    (auto simp: settle_transition_def dest: transition_keeps)

lemma terminal_keeps: "part (fst (on_root_run_terminal D clock d run st)) = part d"
proof (cases "resolve_goal_for_run D d run")
  case (Some row)
  obtain d1 row1 where r: "refresh_wall_time D (clock 0) d row = (d1, row1)" by fastforce
  with refresh_wall_time_keeps [of "clock 0" d row] have "part d1 = part d" by simp
  with Some r show ?thesis
    by (simp add: on_root_run_terminal_def settle_transition_keeps)
qed (simp add: on_root_run_terminal_def)

end

locale untouched = goals_only D part for D :: "'d gateway_db" and part :: "'d \<Rightarrow> 'x" +
  assumes runs: "sql_frame (db_runs D) part"
    and tool_calls: "sql_frame (db_tool_calls D) part"
    and permissions: "sql_frame (db_permissions D) part"
    and messages: "sql_frame (db_messages D) part"
    and sessions: "sql_frame (db_sessions D) part"
begin

lemmas statement = sql_frame_law [OF runs] sql_frame_law [OF goals] sql_frame_law [OF tool_calls]
  sql_frame_law [OF permissions] sql_frame_law [OF messages] sql_frame_law [OF sessions]

lemma project_event_keeps: "project_event D now d e = Some d' \<Longrightarrow> part d' = part d"
  by (auto simp: project_event_def Let_def split: if_splits first_result.splits dest: statement)

lemma save_call_keeps: "save_call D now d row = Some d' \<Longrightarrow> part d' = part d"
  by (auto simp: save_call_def sql_save_def dest: statement)

lemma project_tool_call_keeps: "project_tool_call D now d e = Some d' \<Longrightarrow> part d' = part d"
  by (auto simp: project_tool_call_def project_started_def project_output_def project_finished_def
      Let_def split: event_type.splits if_splits first_result.splits
      dest: statement save_call_keeps)

lemma refresh_keeps: "refresh_tool_count D now d run = Some d' \<Longrightarrow> part d' = part d"
  by (auto simp: refresh_tool_count_def split: if_splits option.splits dest: statement)

lemma project_required_keeps: "project_required D now d e = Some d' \<Longrightarrow> part d' = part d"
  by (auto simp: project_required_def Let_def split: if_splits dest: statement)

lemma close_pending_keeps: "close_pending_by_run D now d run st reason = Some d' \<Longrightarrow> part d' = part d"
  by (auto simp: close_pending_by_run_def dest: statement)

lemma project_run_keeps: "part (project_run D clock e d) = part d"
  unfolding project_run_def project_tools_def Let_def
  by (auto simp: ignoring_keeps project_event_keeps project_required_keeps project_tool_call_keeps
      refresh_keeps)

lemma add_message_keeps:
  "add_message D now n d session role t run = (Some (d', row), n') \<Longrightarrow> part d' = part d"
  by (auto simp: add_message_def add_with_metadata_def Let_def split: option.splits dest: statement)

lemma add_or_append_keeps:
  "add_or_append D now n d session role t run = (Some (d', row), n') \<Longrightarrow> part d' = part d"
  by (auto simp: add_or_append_def sql_save_def Let_def split: if_splits first_result.splits
      dest: statement add_message_keeps)

lemma touch_keeps: "touch_session D now d i = Some d' \<Longrightarrow> part d' = part d"
  by (auto simp: touch_session_def dest: statement)

lemma store_delta_keeps: "part (rs_db (store_delta D clock e s)) = part (rs_db s)"
  by (auto simp: store_delta_def Let_def ignoring_keeps touch_keeps split: prod.splits
      dest: add_or_append_keeps intro!: ignoring_keeps)

lemma settle_run_end_keeps: "part (rs_db (settle_run_end D clock e s)) = part (rs_db s)"
  by (auto simp: settle_run_end_def Let_def terminal_keeps ignoring_keeps close_pending_keeps)

lemma handler_keeps:
  "part (rs_db (store_delta D clock e (settle_run_end D clock e (s\<lparr>rs_db := project_run D clock e d\<rparr>))))
    = part d"
  by (simp add: store_delta_keeps settle_run_end_keeps project_run_keeps)

end

lemma sql_frame_part: "sql_frame T f \<Longrightarrow> (\<And>d. g d = h (f d)) \<Longrightarrow> sql_frame T g"
  unfolding sql_frame_def by metis

lemma events_untouched:
  assumes "gateway_db_laws D V"
  shows "untouched D (\<lambda>d. row_events (V d))"
proof
  note frames = gateway_db_lawsD(16,17,20-23,25) [OF assms]
  show "sql_frame (db_runs D) (\<lambda>d. row_events (V d))"
    "sql_frame (db_goals D) (\<lambda>d. row_events (V d))"
    "sql_frame (db_tool_calls D) (\<lambda>d. row_events (V d))"
    "sql_frame (db_permissions D) (\<lambda>d. row_events (V d))"
    "sql_frame (db_messages D) (\<lambda>d. row_events (V d))"
    "sql_frame (db_sessions D) (\<lambda>d. row_events (V d))"
    by (rule frames [THEN sql_frame_part [where h = row_events]]; simp)+
qed

interpretation mem_events: untouched mem_db row_events
  using events_untouched [OF mem_db_laws] .

subsection \<open>An event is handled once\<close>

definition same_event :: "envelope \<Rightarrow> envelope \<Rightarrow> bool" where
  "same_event e e' \<longleftrightarrow> ev_event_id e' = ev_event_id e
     \<or> (ev_root_run_id e' = ev_root_run_id e \<and> ev_root_seq e' = ev_root_seq e)"

lemma handled_event_stored:
  assumes laws: "gateway_db_laws D V" and saved: "save_once D (rs_db s) e = Some (d, True)"
    and e: "ev_event_id e \<noteq> []" "ev_root_run_id e \<noteq> []"
    and handled: "handle_runtime_event D clock s e = Some s1"
  shows "event_row_of e \<in># mset (row_events (V (rs_db s1)))"
proof -
  have "rs_db s1 = rs_db (store_delta D clock e
      (settle_run_end D clock e (s\<lparr>rs_db := project_run D clock e d\<rparr>)))"
    using handled saved e by (auto simp: handle_runtime_event_def Let_def)
  then have "row_events (V (rs_db s1)) = row_events (V d)"
    using untouched.handler_keeps [OF events_untouched [OF laws]] by simp
  moreover have "mset (row_events (V d)) = add_mset (event_row_of e) (mset (row_events (V (rs_db s))))"
    using sql_insert_new_law [OF gateway_db_lawsD(11) [OF laws] saved [unfolded save_once_def]]
    by (auto split: if_splits)
  then have "event_row_of e \<in># mset (row_events (V d))" by (metis union_single_eq_member)
  ultimately show ?thesis by simp
qed

lemma repeated_event_not_saved:
  assumes laws: "gateway_db_laws D V" and r: "event_row_of e \<in># mset (row_events (V d))"
    and same: "same_event e e'" and saved: "save_once D d e' = Some (d', isnew)"
  shows "\<not> isnew" "mset (row_events (V d')) = mset (row_events (V d))"
    "(V d')\<lparr>row_events := []\<rparr> = (V d)\<lparr>row_events := []\<rparr>"
proof -
  note ins = saved [unfolded save_once_def]
  have "list_ex (event_conflict (event_row_of e')) (row_events (V d))"
    using r same by (auto simp: list_ex_iff event_conflict_def event_row_of_def same_event_def
        intro!: bexI [of _ "event_row_of e"])
  then show "\<not> isnew" "mset (row_events (V d')) = mset (row_events (V d))"
    using sql_insert_new_law [OF gateway_db_lawsD(11) [OF laws] ins] by auto
  show "(V d')\<lparr>row_events := []\<rparr> = (V d)\<lparr>row_events := []\<rparr>"
    by (rule sql_frame_law(4) [OF gateway_db_lawsD(20) [OF laws] ins])
qed


definition idle_service :: "gateway_rows run_service" where
  "idle_service = \<lparr>rs_db = empty_rows, rs_hub = new_hub,
     rs_budget = Some (new_resource_budget_with 1), rs_provider_budget = None,
     rs_message_counter = 0\<rparr>"


subsection \<open>Admission\<close>

lemma mset_filter_length: "mset xs = mset ys \<Longrightarrow> length (filter P xs) = length (filter P ys)"
  by (metis mset_filter size_mset)

text \<open>Replacing the row of one key by a row that satisfies \<open>P\<close>.\<close>

lemma count_replace:
  "distinct (map key xs) \<Longrightarrow> k \<in> key ` set xs \<Longrightarrow> (\<And>x. P (f x)) \<Longrightarrow>
    length (filter P (map (\<lambda>x. if key x = k then f x else x) xs))
      = length (filter (\<lambda>x. P x \<and> key x \<noteq> k) xs) + 1"
proof (induction xs)
  case (Cons x xs)
  show ?case
  proof (cases "key x = k")
    case True
    then have rest: "\<forall>y \<in> set xs. key y \<noteq> k" using Cons.prems(1) by (auto simp: image_iff)
    then have "map (\<lambda>x. if key x = k then f x else x) xs = xs" by (simp add: map_idI)
    moreover have "filter (\<lambda>x. P x \<and> key x \<noteq> k) xs = filter P xs"
      using rest by (simp cong: filter_cong)
    ultimately show ?thesis using True Cons.prems(3) by simp
  next
    case False
    with Cons show ?thesis by auto
  qed
qed simp

lemma upsert_count:
  assumes "sql_conflict_laws T rows key conflict" "sql_upsert T d r f = Some d'"
    and "P r" "\<And>x. P (f x)" "\<And>x. key (f x) = key x"
  shows "length (filter P (rows d'))
    = length (filter (\<lambda>x. P x \<and> key x \<noteq> key r) (rows d)) + 1"
proof (cases "key r \<in> key ` set (rows d)")
  case True
  let ?g = "\<lambda>x. if key x = key r then f x else x"
  have law: "mset (rows d') = mset (map ?g (rows d))" "distinct (map key (rows d'))"
    using sql_upsert_law [OF assms(1,2)] assms(1,2) True
    unfolding sql_conflict_laws_def by (auto simp: fun_eq_iff)
  have "mset (map key (rows d')) = mset (map key (map ?g (rows d)))" using law(1) by (metis mset_map)
  then have "distinct (map key (map ?g (rows d)))" using law(2) by (metis mset_eq_imp_distinct_iff)
  moreover have "map key (map ?g (rows d)) = map key (rows d)" using assms(5) by simp
  ultimately have "distinct (map key (rows d))" by metis
  from count_replace [OF this True, of P f] assms(4) mset_filter_length [OF law(1), of P]
  show ?thesis by simp
next
  case False
  then have "mset (rows d') = mset (r # rows d)" using sql_upsert_law [OF assms(1,2)] by simp
  then have "length (filter P (rows d')) = length (filter P (rows d)) + 1"
    using mset_filter_length [of "rows d'" "r # rows d" P] assms(3) by simp
  moreover have "filter (\<lambda>x. P x \<and> key x \<noteq> key r) (rows d) = filter P (rows d)"
    using False by (auto intro!: filter_cong simp: image_iff)
  ultimately show ?thesis by simp
qed

lemma ensure_session_runs:
  assumes "gateway_db_laws D V" "ensure_session D now d i name ws = Some (d', session)"
  shows "row_runs (V d') = row_runs (V d)"
proof -
  have "sql_frame (db_sessions D) (\<lambda>d. row_runs (V d))"
    by (rule sql_frame_part [OF gateway_db_lawsD(25) [OF assms(1)], where h = row_runs]) simp
  with assms(2) show ?thesis
    by (auto simp: ensure_session_def create_session_def insert_session_def
        split: if_splits first_result.splits dest: sql_frame_law(1))
qed

lemma resolve_max_bounds: "1 \<le> resolve_max_concurrent_runs env \<and> resolve_max_concurrent_runs env \<le> 16"
  by (auto simp: resolve_max_concurrent_runs_def default_max_concurrent_runs_def
      max_concurrent_runs_cap_def Let_def split: option.splits)

definition live_runs :: "(run_row \<Rightarrow> bool) \<Rightarrow> run_row list \<Rightarrow> nat" where
  "live_runs P rows = length (filter (\<lambda>r. P r \<and> live_run_status (rr_status r)) rows)"

lemma start_run_live:
  assumes "gateway_db_laws D V" "start_run D now d (admitted_row owner run t payload session) = Some d'"
  shows "live_runs (\<lambda>_. True) (row_runs (V d')) \<le> live_runs (\<lambda>_. True) (row_runs (V d)) + 1"
    "live_runs (\<lambda>r. rr_session_id r = ss_id session) (row_runs (V d'))
      \<le> live_runs (\<lambda>r. rr_session_id r = ss_id session) (row_runs (V d)) + 1"
    "live_runs (\<lambda>r. rr_session_id r = ss_id session) (row_runs (V d')) \<ge> 1"
proof -
  obtain r f where up: "sql_upsert (db_runs D) d r f = Some d'"
    and r: "rr_session_id r = ss_id session" "rr_status r = ''running''"
    and f: "\<And>x. rr_session_id (f x) = ss_id session" "\<And>x. rr_status (f x) = ''running''"
      "\<And>x. rr_id (f x) = rr_id x"
    using assms(2) by (auto simp: start_run_def admitted_row_def Let_def zero_run_row_def)
  note count = upsert_count [OF gateway_db_lawsD(9) [OF assms(1)] up]
  have le: "length (filter (\<lambda>x. P x \<and> rr_id x \<noteq> k) xs) \<le> length (filter P xs)" for P k xs
    by (induction xs) auto
  show "live_runs (\<lambda>_. True) (row_runs (V d')) \<le> live_runs (\<lambda>_. True) (row_runs (V d)) + 1"
    using count [of "\<lambda>r. True \<and> live_run_status (rr_status r)"] r f le
    by (simp add: live_runs_def live_run_status_def)
  show "live_runs (\<lambda>r. rr_session_id r = ss_id session) (row_runs (V d'))
      \<le> live_runs (\<lambda>r. rr_session_id r = ss_id session) (row_runs (V d)) + 1"
    "live_runs (\<lambda>r. rr_session_id r = ss_id session) (row_runs (V d')) \<ge> 1"
    using count [of "\<lambda>r. rr_session_id r = ss_id session \<and> live_run_status (rr_status r)"] r f
      le [of "\<lambda>r. rr_session_id r = ss_id session \<and> live_run_status (rr_status r)"]
    by (simp_all add: live_runs_def live_run_status_def)
qed

text \<open>
  C29. When \<^verbatim>\<open>Start\<close> admits a run, its session has exactly one live run and the number of
  live runs of all sessions is within the configured maximum, which is at most 16 whatever the
  environment says; a refusal leaves the runs as they were.
\<close>

theorem admission_bounded:
  assumes "gateway_db_laws D V" "admit_run D owner env clock d payload = (d', result)"
  shows "case result of
      Inl e \<Rightarrow> row_runs (V d') = row_runs (V d)
    | Inr (run, session) \<Rightarrow>
        live_runs (\<lambda>r. rr_session_id r = ss_id session) (row_runs (V d')) = 1
        \<and> int (live_runs (\<lambda>_. True) (row_runs (V d'))) \<le> resolve_max_concurrent_runs env
        \<and> resolve_max_concurrent_runs env \<le> 16"
proof -
  let ?run = "new_run_id (clock 0)"
  let ?i = "if sp_session_id payload = [] then ''session_'' @ ?run else sp_session_id payload"
  show ?thesis
  proof (cases "ensure_session D (clock 1) d ?i ?i (string_option (sp_options payload) ''working_dir'')")
    case None
    with assms(2) show ?thesis by (auto simp: admit_run_def Let_def)
  next
    case (Some r)
    then obtain d1 session where e: "ensure_session D (clock 1) d ?i ?i
        (string_option (sp_options payload) ''working_dir'') = Some (d1, session)" by (cases r) auto
    note runs = ensure_session_runs [OF assms(1) e]
    note law = sql_count_law [OF gateway_db_lawsD(1) [OF assms(1)]]
    let ?start = "start_run D (clock 3) d1 (admitted_row owner ?run (clock 2) payload session)"
    show ?thesis
    proof (cases "\<exists>active. count_active_by_session D d1 (ss_id session) = Some 0
        \<and> count_active D d1 = Some active \<and> int active < resolve_max_concurrent_runs env
        \<and> ?start \<noteq> None")
      case False
      then have "d' = d1 \<and> (\<exists>x. result = Inl x)"
        using assms(2) e by (auto simp: admit_run_def Let_def or_fail_def split: option.splits if_splits)
      with runs show ?thesis by auto
    next
      case True
      then obtain active d2 where a: "count_active_by_session D d1 (ss_id session) = Some 0"
        "count_active D d1 = Some active" "int active < resolve_max_concurrent_runs env" "?start = Some d2"
        by auto
      then have "d' = d2" "result = Inr (?run, session)"
        using assms(2) e by (auto simp: admit_run_def Let_def)
      moreover have "live_runs (\<lambda>r. rr_session_id r = ss_id session) (row_runs (V d1)) = 0"
        "live_runs (\<lambda>_. True) (row_runs (V d1)) = active"
        using law [OF a(1) [unfolded count_active_by_session_def]] law [OF a(2) [unfolded count_active_def]]
        by (simp_all add: live_runs_def)
      ultimately show ?thesis
        using start_run_live [OF assms(1) a(4)] a(3) resolve_max_bounds [of env] by simp
    qed
  qed
qed

lemma default_max: "resolve_max_concurrent_runs [] = 3"
  by code_simp

theorem admission_bounded_witness:
  "\<exists>d' run session.
     admit_run mem_db ''gw'' [] (\<lambda>i. 5 + int i) empty_rows
       \<lparr>sp_session_id = ''s'', sp_input = [], sp_options = [], sp_subscribe = True\<rparr>
       = (d', Inr (run, session))
     \<and> live_runs (\<lambda>r. rr_session_id r = ss_id session) (row_runs d') = 1
     \<and> int (live_runs (\<lambda>_. True) (row_runs d')) \<le> 3"
proof -
  let ?p = "\<lparr>sp_session_id = ''s'', sp_input = [], sp_options = [], sp_subscribe = True\<rparr>"
  have "\<exists>d' run session. admit_run mem_db ''gw'' [] (\<lambda>i. 5 + int i) empty_rows ?p
      = (d', Inr (run, session))"
    by (auto simp: admit_run_def Let_def default_max mem_db_def empty_rows_def ensure_session_def
        insert_session_def sql_first_def count_active_by_session_def count_active_def sql_count_def
        start_run_def)
  then obtain d' run session where a: "admit_run mem_db ''gw'' [] (\<lambda>i. 5 + int i) empty_rows ?p
      = (d', Inr (run, session))" by auto
  from admission_bounded [OF mem_db_laws a] a show ?thesis by (auto simp: default_max)
qed

subsection \<open>The text of a stream\<close>

lemma last_message_Found:
  assumes "gateway_db_laws D V" "last_message D d session = Found m"
  shows "m \<in> set (row_messages (V d))" "mr_session_id m = session"
    "r \<in> set (row_messages (V d)) \<Longrightarrow> mr_session_id r = session \<Longrightarrow> mr_seq r \<le> mr_seq m"
proof -
  note law = gateway_db_lawsD(8) [OF assms(1)]
  let ?k = "\<lambda>r. [(- int (mr_seq r), []), (0, mr_id r)]"
  show "m \<in> set (row_messages (V d))" "mr_session_id m = session"
    using sql_first_Found [OF law assms(2) [unfolded last_message_def]] by auto
  obtain ms where ms: "sql_select (db_messages D) d (\<lambda>r. mr_session_id r = session) ?k = Some (m # ms)"
    using assms(2) by (auto simp: last_message_def sql_first_def split: option.splits list.splits)
  assume "r \<in> set (row_messages (V d))" "mr_session_id r = session"
  moreover have "set (m # ms) = set (filter (\<lambda>r. mr_session_id r = session) (row_messages (V d)))"
    using sql_select_law [OF law ms] by (metis set_mset_mset)
  ultimately have "r \<in> set (m # ms)" by simp
  moreover have "sorted (map ?k (m # ms))" using sql_select_law [OF law ms] by blast
  ultimately have "?k m \<le> ?k r" by auto
  then show "mr_seq r \<le> mr_seq m" by auto
qed

lemma mset_replace:
  assumes "distinct (map key rows)" "mset rows = add_mset m M"
  shows "mset (map (\<lambda>x. if key x = key m then r else x) rows) = add_mset r M"
proof -
  have "mset (map key rows) = add_mset (key m) (image_mset key M)" using assms(2) by simp
  then have "key m \<notin># image_mset key M"
    using assms(1) by (metis unique_mset_add unique_mset_mset)
  then have "image_mset (\<lambda>x. if key x = key m then r else x) M = M"
    by (intro image_mset_cong [where g = id, simplified]) (auto simp: image_iff)
  then show ?thesis using assms(2) by simp
qed

text \<open>The deltas of one agent in one run, appended one after the other.\<close>

fun append_deltas ::
  "'d gateway_db \<Rightarrow> nat \<Rightarrow> 'd \<Rightarrow> string \<Rightarrow> string \<Rightarrow> string \<Rightarrow> (int \<times> string) list \<Rightarrow> 'd option" where
  "append_deltas D n d session role run [] = Some d"
| "append_deltas D n d session role run ((now, delta) # deltas) =
     (case add_or_append D now n d session role delta run of
        (None, _) \<Rightarrow> None
      | (Some (d', _), n') \<Rightarrow> append_deltas D n' d' session role run deltas)"

definition latest_of :: "message_row list \<Rightarrow> message_row \<Rightarrow> message_row multiset \<Rightarrow> bool" where
  "latest_of rows m M \<longleftrightarrow> distinct (map mr_id rows) \<and> mset rows = add_mset m M
     \<and> (\<forall>r \<in># M. mr_session_id r = mr_session_id m \<longrightarrow> mr_seq r < mr_seq m)"

lemma last_message_latest:
  assumes "gateway_db_laws D V" "latest_of (row_messages (V d)) m M"
    "last_message D d (mr_session_id m) = Found prev"
  shows "prev = m"
proof (rule ccontr)
  assume "prev \<noteq> m"
  note last = last_message_Found [OF assms(1,3)]
  have rows: "set (row_messages (V d)) = insert m (set_mset M)"
    using assms(2) unfolding latest_of_def by (metis set_mset_add_mset_insert set_mset_mset)
  with last(1) \<open>prev \<noteq> m\<close> have "prev \<in># M" by auto
  with assms(2) last(2) have "mr_seq prev < mr_seq m" by (auto simp: latest_of_def)
  moreover have "mr_seq m \<le> mr_seq prev" using last(3) [of m] rows by simp
  ultimately show False by simp
qed

lemma append_latest:
  assumes laws: "gateway_db_laws D V" and m: "latest_of (row_messages (V d)) m M"
    and role: "appendable_delta_role (mr_role m)"
    and a: "add_or_append D now n d (mr_session_id m) (mr_role m) delta (mr_run_id m) = (Some (d', row), n')"
  shows "latest_of (row_messages (V d')) (m\<lparr>mr_content_json := append_text (mr_content_json m) delta\<rparr>) M"
proof -
  let ?row = "m\<lparr>mr_content_json := append_text (mr_content_json m) delta\<rparr>"
  have m_in: "m \<in> set (row_messages (V d))"
    using m unfolding latest_of_def by (metis set_mset_mset union_single_eq_member)
  have "last_message D d (mr_session_id m) \<noteq> Not_Found"
    using sql_first_Not_Found [OF gateway_db_lawsD(8) [OF laws]] m_in
    unfolding last_message_def by blast
  then obtain prev where "last_message D d (mr_session_id m) = Found prev"
    using a role by (auto simp: add_or_append_def split: first_result.splits)
  moreover from last_message_latest [OF laws m this] have "prev = m" .
  ultimately have up: "sql_upsert (db_messages D) d ?row (\<lambda>_. ?row) = Some d'"
    using a role by (auto simp: add_or_append_def sql_save_def Let_def split: option.splits)
  have "mset (row_messages (V d'))
      = mset (map (\<lambda>x. if mr_id x = mr_id m then ?row else x) (row_messages (V d)))"
    using sql_upsert_law [OF gateway_db_lawsD(14) [OF laws] up] m_in by simp
  also have "\<dots> = add_mset ?row M"
    using m mset_replace [of mr_id "row_messages (V d)" m M ?row] by (simp add: latest_of_def)
  finally have "mset (row_messages (V d')) = add_mset ?row M" .
  moreover have "distinct (map mr_id (row_messages (V d')))"
    using gateway_db_lawsD(14) [OF laws] up unfolding sql_conflict_laws_def by blast
  ultimately show ?thesis using m by (simp add: latest_of_def)
qed

lemma first_delta_latest:
  assumes laws: "gateway_db_laws D V"
    and new: "\<And>prev. last_message D d session = Found prev \<Longrightarrow> mr_role prev \<noteq> role \<or> mr_run_id prev \<noteq> run"
    and a: "add_or_append D now n d session role delta run = (Some (d', row), n')"
  shows "\<exists>m. latest_of (row_messages (V d')) m (mset (row_messages (V d)))
    \<and> mr_content_json m = [\<lparr>cb_type = ''text'', cb_text = delta\<rparr>]
    \<and> mr_session_id m = session \<and> mr_role m = role \<and> mr_run_id m = run"
proof -
  have "add_message D now n d session role delta run = (Some (d', row), n')"
    using a new by (auto simp: add_or_append_def split: if_splits first_result.splits)
  then obtain seq m where seq: "next_seq D d session = Some seq"
    and ins: "sql_insert (db_messages D) d [m] = Some d'"
    and m: "mr_content_json m = [\<lparr>cb_type = ''text'', cb_text = delta\<rparr>]" "mr_session_id m = session"
      "mr_role m = role" "mr_run_id m = run" "mr_seq m = seq"
    by (auto simp: add_message_def add_with_metadata_def Let_def split: option.splits)
  have "mr_seq r < seq" if "r \<in> set (row_messages (V d))" "mr_session_id r = session" for r
  proof (cases "last_message D d session")
    case (Found prev)
    from last_message_Found(3) [OF laws this that] Found seq show ?thesis
      by (simp add: next_seq_def)
  next
    case Not_Found
    from sql_first_Not_Found [OF gateway_db_lawsD(8) [OF laws] this [unfolded last_message_def]] that
    show ?thesis by blast
  next
    case Read_Error
    with seq show ?thesis by (simp add: next_seq_def)
  qed
  with m sql_insert_law [OF gateway_db_lawsD(8) [OF laws] ins] show ?thesis
    by (auto simp: latest_of_def)
qed

lemma append_text_once: "append_text [\<lparr>cb_type = ''text'', cb_text = s\<rparr>] t = [\<lparr>cb_type = ''text'', cb_text = s @ t\<rparr>]"
  by (simp add: append_text_def)

lemma append_deltas_latest:
  assumes "gateway_db_laws D V" "appendable_delta_role role"
  shows "append_deltas D n d session role run deltas = Some d' \<Longrightarrow>
    latest_of (row_messages (V d)) m M \<Longrightarrow> mr_session_id m = session \<Longrightarrow> mr_role m = role \<Longrightarrow>
    mr_run_id m = run \<Longrightarrow> mr_content_json m = [\<lparr>cb_type = ''text'', cb_text = s\<rparr>] \<Longrightarrow>
    latest_of (row_messages (V d')) (m\<lparr>mr_content_json :=
      [\<lparr>cb_type = ''text'', cb_text = s @ concat (map snd deltas)\<rparr>]\<rparr>) M"
proof (induction deltas arbitrary: n d m s)
  case Nil
  then have "m\<lparr>mr_content_json :=
      [\<lparr>cb_type = ''text'', cb_text = s @ concat (map snd ([] :: (int \<times> string) list))\<rparr>]\<rparr> = m"
    by (cases m) simp
  with Nil.prems(1,2) show ?case by (simp only: append_deltas.simps option.inject)
next
  case (Cons x deltas)
  obtain now delta where x: "x = (now, delta)" by fastforce
  with Cons.prems(1) obtain d1 row n1 where a:
    "add_or_append D now n d session role delta run = (Some (d1, row), n1)"
    "append_deltas D n1 d1 session role run deltas = Some d'"
    by (auto split: prod.splits option.splits)
  let ?m = "m\<lparr>mr_content_json := append_text (mr_content_json m) delta\<rparr>"
  have "latest_of (row_messages (V d1)) ?m M"
    using append_latest [OF assms(1) Cons.prems(2)] a(1) Cons.prems(3-5) assms(2) by simp
  from Cons.IH [OF a(2) this, of "s @ delta"] Cons.prems(3-6) show ?case
    by (simp add: x append_text_once)
qed



subsection \<open>A sub-agent's error\<close>

lemma release_run_no_permit:
  assumes "release_run ob run = Some b" "run \<noteq> []"
  shows "run \<notin> snd ` set (rb_active b)"
proof -
  obtain b0 where b0: "b = budget_dispatch (drop_run run b0)"
    using assms by (auto simp: release_run_def split: option.splits)
  have "run \<notin> root_run_id ` waiter_params ` set (rb_waiters (drop_run run b0))"
    "run \<notin> snd ` set (rb_active (drop_run run b0))" by (auto simp: drop_run_def)
  then show ?thesis using dispatch_keeps b0 by blast
qed

text \<open>What the error of a sub-agent changes of a run row.\<close>

definition run_state :: "run_row \<Rightarrow> string \<times> string \<times> int option" where
  "run_state r = (rr_id r, rr_status r, rr_finished_at r)"

lemma mset_map_update:
  assumes "mset xs = mset (map (\<lambda>r. if P r then f r else r) ys)" "\<And>r. P r \<Longrightarrow> h (f r) = h r"
  shows "image_mset h (mset xs) = image_mset h (mset ys)"
proof -
  have "image_mset h (mset xs) = mset (map h (map (\<lambda>r. if P r then f r else r) ys))"
    unfolding assms(1) by (rule mset_map [symmetric])
  also have "map h (map (\<lambda>r. if P r then f r else r) ys) = map h ys" using assms(2) by simp
  finally show ?thesis by simp
qed

lemma project_event_sub_agent:
  assumes laws: "gateway_db_laws D V" and e: "ag_role (ev_agent e) = Role_Sub_Agent"
    and rows: "distinct (map rr_id (row_runs (V d)))" "ev_root_run_id e \<in> rr_id ` set (row_runs (V d))"
    and p: "project_event D now d e = Some d'"
  shows "image_mset run_state (mset (row_runs (V d'))) = image_mset run_state (mset (row_runs (V d)))"
proof -
  note law = gateway_db_lawsD(1) [OF laws]
  let ?id = "\<lambda>r. rr_id r = ev_root_run_id e"
  have found: "first_run D d (ev_root_run_id e) \<noteq> Not_Found"
  proof
    assume "first_run D d (ev_root_run_id e) = Not_Found"
    from sql_first_Not_Found [OF law this [unfolded first_run_def]] rows(2) show False by auto
  qed
  show ?thesis
  proof (cases "ev_root_run_id e = []")
    case True
    with p show ?thesis by (simp add: project_event_def)
  next
    case False
    obtain row n where row: "first_run D d (ev_root_run_id e) = Found row"
      and up: "sql_update (db_runs D) d ?id
        (projected_columns e (apply_run_event_projection row e (event_time now e))) = Some (d', n)"
      using p False found by (auto simp: project_event_def Let_def split: first_result.splits)
    have row_in: "row \<in> set (row_runs (V d))" "?id row"
      using sql_first_Found [OF law row [unfolded first_run_def]] by auto
    then have "x = row" if "x \<in> set (row_runs (V d))" "?id x" for x
      using distinct_map_eqD [OF rows(1)] that by metis
    moreover have "run_state (projected_columns e (apply_run_event_projection row e t) row) = run_state row" for t
      using e by (simp add: projected_columns_def apply_run_event_projection_def run_state_def
          project_status_def ends_run_def from_root_def)
    ultimately have "image_mset run_state (mset (map (\<lambda>r. if ?id r
          then projected_columns e (apply_run_event_projection row e (event_time now e)) r else r)
        (row_runs (V d)))) = image_mset run_state (mset (row_runs (V d)))"
      unfolding mset_map [symmetric] map_map by (intro arg_cong [where f = mset] map_cong) auto
    with sql_update_law [OF law up] show ?thesis by simp
  qed
qed

lemma part_goals_only:
  assumes "gateway_db_laws D V"
  shows "goals_only D (\<lambda>d. row_runs (V d))" "goals_only D (\<lambda>d. row_permissions (V d))"
proof -
  show "goals_only D (\<lambda>d. row_runs (V d))"
    by (rule goals_only.intro, rule sql_frame_part [OF gateway_db_lawsD(17) [OF assms], where h = row_runs]) simp
  show "goals_only D (\<lambda>d. row_permissions (V d))"
    by (rule goals_only.intro, rule sql_frame_part [OF gateway_db_lawsD(17) [OF assms], where h = row_permissions])
      simp
qed

lemma close_pending_runs:
  assumes "gateway_db_laws D V" "close_pending_by_run D now d run st reason = Some d'"
  shows "row_runs (V d') = row_runs (V d)"
    "st \<noteq> ''pending'' \<Longrightarrow> \<forall>r \<in># mset (row_permissions (V d')). pr_run_id r = run \<longrightarrow> pr_status r \<noteq> ''pending''"
proof -
  obtain n upd where up: "sql_update (db_permissions D) d (\<lambda>r. pr_run_id r = run \<and> pr_status r = ''pending'') upd
      = Some (d', n)" and upd: "\<And>r. pr_status (upd r) = st" "\<And>r. pr_run_id (upd r) = pr_run_id r"
    using assms(2) by (auto simp: close_pending_by_run_def)
  have "sql_frame (db_permissions D) (\<lambda>d. row_runs (V d))"
    by (rule sql_frame_part [OF gateway_db_lawsD(22) [OF assms(1)], where h = row_runs]) simp
  from sql_frame_law(2) [OF this up] show "row_runs (V d') = row_runs (V d)" .
  assume "st \<noteq> ''pending''"
  then show "\<forall>r \<in># mset (row_permissions (V d')). pr_run_id r = run \<longrightarrow> pr_status r \<noteq> ''pending''"
  proof -
    have "set (row_permissions (V d'))
        = (\<lambda>r. if pr_run_id r = run \<and> pr_status r = ''pending'' then upd r else r) ` set (row_permissions (V d))"
      using mset_eq_setD [OF conjunct1 [OF sql_update_law [OF gateway_db_lawsD(7) [OF assms(1)] up]]] by simp
    then have "\<exists>x. r = (if pr_run_id x = run \<and> pr_status x = ''pending'' then upd x else x)"
      if "r \<in># mset (row_permissions (V d'))" for r
      using that unfolding set_mset_mset by blast
    with \<open>st \<noteq> _\<close> upd show ?thesis by (metis (no_types, lifting))
  qed
qed

lemma sub_agent_error_handled:
  assumes laws: "gateway_db_laws D V" and saved: "save_once D (rs_db s) e = Some (d, True)"
    and e: "ev_event_id e \<noteq> []" "ev_root_run_id e \<noteq> []" "ev_type e = Ev_Error"
      "ag_role (ev_agent e) = Role_Sub_Agent"
    and handled: "on_runtime_event D clock s e = Some s'"
  obtains s1 where "s1 = settle_run_end D clock e (s\<lparr>rs_db := ignoring d (project_event D (clock 0) d e)\<rparr>)"
    "rs_db s' = rs_db s1" "rs_budget s' = rs_budget s1" "rs_provider_budget s' = rs_provider_budget s1"
  using handled saved e
  by (auto simp: on_runtime_event_def handle_runtime_event_def Let_def store_delta_def
      project_run_def project_tools_def is_tool_event_def)

text \<open>
  The error of a sub-agent, which the runtime passes on under the id of its parent's run,
  does not end that run: every run keeps its status. Yet the handler treats it as the end of the
  run: the permits the run holds are gone from both budgets, while its workers and requests go
  on, and the permission requests it waits for are closed.
\<close>

theorem sub_agent_error_settles_live_run:
  assumes laws: "gateway_db_laws D V" and saved: "save_once D (rs_db s) e = Some (d, True)"
    and e: "ev_event_id e \<noteq> []" "ev_root_run_id e \<noteq> []" "ev_type e = Ev_Error"
      "ag_role (ev_agent e) = Role_Sub_Agent"
    and rows: "distinct (map rr_id (row_runs (V (rs_db s))))"
      "ev_root_run_id e \<in> rr_id ` set (row_runs (V (rs_db s)))"
    and handled: "on_runtime_event D clock s e = Some s'"
  shows "image_mset run_state (mset (row_runs (V (rs_db s'))))
      = image_mset run_state (mset (row_runs (V (rs_db s))))
    \<and> (\<forall>b. rs_budget s' = Some b \<longrightarrow> ev_root_run_id e \<notin> snd ` set (rb_active b))
    \<and> (\<forall>b. rs_provider_budget s' = Some b \<longrightarrow> ev_root_run_id e \<notin> snd ` set (rb_active b))
    \<and> (close_pending_by_run D (clock 4) (ignoring d (project_event D (clock 0) d e))
         (ev_root_run_id e) ''closed'' ''run finished'' \<noteq> None \<longrightarrow>
       (\<forall>r \<in># mset (row_permissions (V (rs_db s'))). pr_run_id r = ev_root_run_id e \<longrightarrow>
          pr_status r \<noteq> ''pending''))"
proof -
  let ?d1 = "ignoring d (project_event D (clock 0) d e)"
  let ?close = "close_pending_by_run D (clock 4) ?d1 (ev_root_run_id e) ''closed'' ''run finished''"
  obtain s1 where s1: "s1 = settle_run_end D clock e (s\<lparr>rs_db := ?d1\<rparr>)"
    "rs_db s' = rs_db s1" "rs_budget s' = rs_budget s1" "rs_provider_budget s' = rs_provider_budget s1"
    using sub_agent_error_handled [OF laws saved e handled] by metis
  have db: "rs_db s' = fst (on_root_run_terminal D (\<lambda>i. clock (5 + i)) (ignoring ?d1 ?close)
      (ev_root_run_id e) (run_end_status e))"
    and budgets: "rs_budget s' = release_run (rs_budget s) (ev_root_run_id e)"
      "rs_provider_budget s' = release_run (rs_provider_budget s) (ev_root_run_id e)"
    using s1 e by (simp_all add: settle_run_end_def Let_def)
  have "sql_frame (db_events D) (\<lambda>d. row_runs (V d))"
    by (rule sql_frame_part [OF gateway_db_lawsD(20) [OF laws], where h = row_runs]) simp
  from sql_frame_law(4) [OF this saved [unfolded save_once_def]]
  have d: "row_runs (V d) = row_runs (V (rs_db s))" .
  have "image_mset run_state (mset (row_runs (V ?d1))) = image_mset run_state (mset (row_runs (V d)))"
    using project_event_sub_agent [OF laws e(4), of d] rows d
    by (cases "project_event D (clock 0) d e") auto
  moreover have "row_runs (V (rs_db s')) = row_runs (V ?d1)"
    unfolding db goals_only.terminal_keeps [OF part_goals_only(1) [OF laws]]
    by (cases ?close) (simp_all add: close_pending_runs(1) [OF laws])
  moreover have "row_permissions (V (rs_db s')) = row_permissions (V (ignoring ?d1 ?close))"
    unfolding db goals_only.terminal_keeps [OF part_goals_only(2) [OF laws]] ..
  moreover have "\<forall>r \<in># mset (row_permissions (V (ignoring ?d1 ?close))).
      pr_run_id r = ev_root_run_id e \<longrightarrow> pr_status r \<noteq> ''pending''" if "?close \<noteq> None"
    using that close_pending_runs(2) [OF laws, of "clock 4" ?d1] by (cases ?close) auto
  ultimately show ?thesis
    using release_run_no_permit [OF _ e(2)] by (simp add: d budgets)
qed

definition worker_error :: envelope where
  "worker_error = (sample_event ''r'' 3 Ev_Error)
     \<lparr>ev_agent := \<lparr>ag_agent_id = ''w'', ag_role = Role_Sub_Agent, ag_sub_agent_id = ''w'',
        ag_parent_agent_id = ''a'', ag_path = [], ag_name = ''worker''\<rparr>\<rparr>"

definition busy_service :: "gateway_rows run_service" where
  "busy_service = idle_service
     \<lparr>rs_db := empty_rows\<lparr>row_runs := [zero_run_row
        \<lparr>rr_id := ''r'', rr_session_id := ''s'', rr_status := ''running''\<rparr>]\<rparr>,
      rs_budget := Some ((new_resource_budget_with 2)\<lparr>rb_active := [(''p'', ''r'')]\<rparr>)\<rparr>"

theorem sub_agent_error_settles_live_run_witness:
  "\<exists>s'. on_runtime_event mem_db (\<lambda>_. 9) busy_service worker_error = Some s'
    \<and> image_mset run_state (mset (row_runs (rs_db s'))) = {#(''r'', ''running'', None)#}
    \<and> (\<exists>b. rs_budget busy_service = Some b \<and> (''p'', ''r'') \<in> set (rb_active b))
    \<and> (\<forall>b. rs_budget s' = Some b \<longrightarrow> ''r'' \<notin> snd ` set (rb_active b))"
proof -
  let ?d = "(rs_db busy_service)\<lparr>row_events := [event_row_of worker_error]\<rparr>"
  have e: "ev_event_id worker_error \<noteq> []" "ev_root_run_id worker_error \<noteq> []"
    "ev_type worker_error = Ev_Error" "ag_role (ev_agent worker_error) = Role_Sub_Agent"
    "ev_root_run_id worker_error = ''r''"
    by (simp_all add: worker_error_def sample_event_def)
  have saved: "save_once mem_db (rs_db busy_service) worker_error = Some (?d, True)"
    by (simp add: save_once_def busy_service_def empty_rows_def mem_db_def)
  have rows: "distinct (map rr_id (row_runs (rs_db busy_service)))"
    "ev_root_run_id worker_error \<in> rr_id ` set (row_runs (rs_db busy_service))"
    using e by (simp_all add: busy_service_def)
  obtain s' where s': "on_runtime_event mem_db (\<lambda>_. 9) busy_service worker_error = Some s'"
    using saved e by (auto simp: on_runtime_event_def handle_runtime_event_def Let_def store_delta_def
        settle_run_end_def busy_service_def idle_service_def hub_publish_def new_hub_def)
  from sub_agent_error_settles_live_run [OF mem_db_laws saved e(1-4) rows s'] s' e(5) show ?thesis
    by (auto simp: busy_service_def run_state_def zero_run_row_def)
qed

end
