(* ===== verification/Memory_Service.thy ===== *)
theory Memory_Service
  imports Goal_Service
begin

text \<open>
  The memories of projects and sessions: \<^verbatim>\<open>repository/memory.go\<close> and \<^verbatim>\<open>service/memory.go\<close>.
  The table is a \<open>sql_table\<close> of rows; the metadata column holds the map it encodes. The state
  of an operation is the database with the process-wide counter behind the ids of new rows.
  The JSON text of a tool result is given as the value that is marshalled.
\<close>

subsection \<open>Rows\<close>

record memory_row =
  me_id :: string
  me_scope :: string
  me_kind :: string
  me_status :: string
  me_title :: string
  me_content :: string
  me_confidence :: string
  me_workspace_root :: string
  me_session_id :: string
  me_run_id :: string
  me_source_event_id :: string
  me_source_message_id :: string
  me_source :: string
  me_metadata :: go_map
  me_created_at :: int
  me_updated_at :: int
  me_deleted_at :: "int option"

type_synonym ('d, 'a) memory_result = "('d \<times> nat) \<times> (svc_error + 'a)"

subsection \<open>Repository\<close>

definition normalize_memory_limit :: "int \<Rightarrow> nat" where
  "normalize_memory_limit limit = (if limit \<le> 0 \<or> limit > 200 then 100 else nat limit)"

definition prepared_memory :: "int \<Rightarrow> nat \<Rightarrow> memory_row \<Rightarrow> memory_row" where
  "prepared_memory now counter r =
     (let st = (if me_status r = [] then ''active'' else me_status r)
      in r\<lparr>me_id := (if me_id r = [] then ''mem_'' @ int_dec now @ ''_'' @ nat_digits (Suc counter)
                     else me_id r),
           me_status := st,
           me_deleted_at := (if st = ''deleted'' \<and> me_deleted_at r = None then Some now
                             else me_deleted_at r),
           me_created_at := now, me_updated_at := now\<rparr>)"

definition create_memory_row ::
  "('d, memory_row) sql_table \<Rightarrow> int \<Rightarrow> 'd \<times> nat \<Rightarrow> memory_row \<Rightarrow> ('d, memory_row) memory_result" where
  "create_memory_row T now st r =
     (case st of (d, counter) \<Rightarrow>
        let row = prepared_memory now counter r;
            counter' = (if me_id r = [] then Suc counter else counter)
        in case sql_insert T d [row] of
             None \<Rightarrow> ((d, counter'), Inl Db_Error)
           | Some d' \<Rightarrow> ((d', counter'), Inr row))"

definition get_memory :: "('d, memory_row) sql_table \<Rightarrow> 'd \<Rightarrow> string \<Rightarrow> memory_row option" where
  "get_memory T d i = row_found (sql_first T d (\<lambda>r. me_id r = i) (\<lambda>r. [(0, me_id r)]))"

record memory_filter =
  mf_scope :: string
  mf_workspace_root :: string
  mf_session_id :: string
  mf_status :: string
  mf_limit :: int

definition memory_matches :: "memory_filter \<Rightarrow> memory_row \<Rightarrow> bool" where
  "memory_matches f r \<longleftrightarrow>
     (if mf_status f = [] then me_status r = ''active'' \<and> me_deleted_at r = None
      else mf_status f = ''all''
           \<or> (me_status r = mf_status f \<and> (mf_status f = ''deleted'' \<or> me_deleted_at r = None)))
     \<and> (mf_scope f = [] \<or> me_scope r = mf_scope f)
     \<and> (mf_workspace_root f = [] \<or> me_workspace_root r = mf_workspace_root f)
     \<and> (mf_session_id f = [] \<or> me_session_id r = mf_session_id f)"

definition list_memory_rows ::
  "('d, memory_row) sql_table \<Rightarrow> 'd \<Rightarrow> memory_filter \<Rightarrow> memory_row list option" where
  "list_memory_rows T d f =
     sql_limit T d (memory_matches f) (\<lambda>r. [(- me_updated_at r, [])]) (normalize_memory_limit (mf_limit f))"

text \<open>The fields that are present.\<close>

record memory_update =
  mu_id :: string
  mu_scope :: "string option"
  mu_kind :: "string option"
  mu_status :: "string option"
  mu_title :: "string option"
  mu_content :: "string option"
  mu_confidence :: "string option"
  mu_metadata :: "go_map option"

definition or_old :: "'a option \<Rightarrow> 'a \<Rightarrow> 'a" where
  "or_old new old = (case new of None \<Rightarrow> old | Some v \<Rightarrow> v)"

definition updated_memory :: "int \<Rightarrow> memory_update \<Rightarrow> memory_row \<Rightarrow> memory_row" where
  "updated_memory now u r =
     r\<lparr>me_scope := or_old (mu_scope u) (me_scope r),
       me_kind := or_old (mu_kind u) (me_kind r),
       me_status := or_old (mu_status u) (me_status r),
       me_deleted_at :=
         (case mu_status u of
            None \<Rightarrow> me_deleted_at r
          | Some st \<Rightarrow> if st \<noteq> ''deleted'' then None
                        else if me_deleted_at r = None then Some now else me_deleted_at r),
       me_title := or_old (mu_title u) (me_title r),
       me_content := or_old (mu_content u) (me_content r),
       me_confidence := or_old (mu_confidence u) (me_confidence r),
       me_metadata := or_old (mu_metadata u) (me_metadata r),
       me_updated_at := now\<rparr>"

definition update_memory_row ::
  "('d, memory_row) sql_table \<Rightarrow> int \<Rightarrow> 'd \<Rightarrow> memory_update \<Rightarrow> ('d \<times> memory_row) option" where
  "update_memory_row T now d u =
     (case get_memory T d (mu_id u) of
        None \<Rightarrow> None
      | Some r \<Rightarrow> let r' = updated_memory now u r
                 in map_option (\<lambda>d'. (d', r')) (sql_upsert T d r' (\<lambda>_. r')))"

definition delete_memory_row ::
  "('d, memory_row) sql_table \<Rightarrow> int \<Rightarrow> 'd \<Rightarrow> string \<Rightarrow> 'd \<times> (svc_error + memory_row)" where
  "delete_memory_row T now d i =
     or_fail (sql_update T d (\<lambda>r. me_id r = i \<and> me_deleted_at r = None)
         (\<lambda>r. r\<lparr>me_status := ''deleted'', me_deleted_at := Some now, me_updated_at := now\<rparr>)) Db_Error d
       (\<lambda>(d', n). (d', case get_memory T d' i of None \<Rightarrow> Inl Db_Error | Some r \<Rightarrow> Inr r))"

definition scope_priority :: "string \<Rightarrow> int" where
  "scope_priority s = (if s = ''session'' then 0 else if s = ''project'' then 1
                       else if s = ''user'' then 2 else 3)"

definition run_memory :: "string \<Rightarrow> string \<Rightarrow> memory_row \<Rightarrow> bool" where
  "run_memory session workspace r \<longleftrightarrow>
     me_status r = ''active'' \<and> me_deleted_at r = None
     \<and> ((session \<noteq> [] \<and> me_scope r = ''session'' \<and> me_session_id r = session)
        \<or> (workspace \<noteq> [] \<and> me_scope r = ''project'' \<and> me_workspace_root r = workspace))"

definition select_for_run ::
  "('d, memory_row) sql_table \<Rightarrow> 'd \<Rightarrow> string \<Rightarrow> string \<Rightarrow> int \<Rightarrow> memory_row list option" where
  "select_for_run T d session workspace limit =
     (if session = [] \<and> workspace = [] then Some []
      else sql_limit T d (run_memory session workspace)
             (\<lambda>r. [(scope_priority (me_scope r), []), (- me_updated_at r, [])])
             (normalize_memory_limit limit))"

subsection \<open>Requests\<close>

definition valid_memory_scopes :: "string list" where
  "valid_memory_scopes = [''project'', ''session'', ''user'', ''system'']"

definition valid_memory_kinds :: "string list" where
  "valid_memory_kinds = [''fact'', ''preference'', ''decision'', ''task'', ''summary'', ''warning'']"

definition valid_memory_statuses :: "string list" where
  "valid_memory_statuses = [''active'', ''disabled'', ''deleted'']"

definition valid_memory_confidences :: "string list" where
  "valid_memory_confidences = [''low'', ''medium'', ''high'']"

definition valid_memory_sources :: "string list" where
  "valid_memory_sources = [''user'', ''agent'', ''compaction'', ''import'', ''system'']"

definition normalize_memory_required :: "string \<Rightarrow> string list \<Rightarrow> string \<Rightarrow> svc_error + string" where
  "normalize_memory_required v allowed field =
     (let n = to_lower (trim_space v)
      in if n = [] then Inl (Svc_Error (field @ '' is required''))
         else if List.member allowed n then Inr n
         else Inl (Svc_Error (''unsupported '' @ field @ '' '' @ go_quote v)))"

definition normalize_memory_default ::
  "string \<Rightarrow> string \<Rightarrow> string list \<Rightarrow> string \<Rightarrow> svc_error + string" where
  "normalize_memory_default v fallback allowed field =
     (let n = to_lower (trim_space v)
      in normalize_memory_required (if n = [] then fallback else n) allowed field)"

definition normalize_memory_optional :: "string \<Rightarrow> string list \<Rightarrow> string \<Rightarrow> svc_error + string" where
  "normalize_memory_optional v allowed field =
     (let n = to_lower (trim_space v)
      in if n = [] then Inr [] else normalize_memory_required n allowed field)"

definition default_memory_title :: "string \<Rightarrow> string" where
  "default_memory_title content =
     (if rune_count content > 48 then encode_runes (take 45 (runes content)) @ ''...'' else content)"

definition validate_memory_trace :: "memory_row \<Rightarrow> svc_error + unit" where
  "validate_memory_trace r =
     (if me_scope r = ''project'' \<and> trim_space (me_workspace_root r) = []
      then Inl (Svc_Error ''workspace_root is required for project memory'')
      else if me_scope r = ''session'' \<and> trim_space (me_session_id r) = []
      then Inl (Svc_Error ''session_id is required for session memory'')
      else if me_source r = ''agent'' \<and> me_run_id r = [] \<and> me_source_event_id r = []
              \<and> me_source_message_id r = []
      then Inl (Svc_Error ''agent memory requires run_id, source_event_id, or source_message_id'')
      else Inr ())"

text \<open>A request to create is given as a row without id and times.\<close>

definition normalize_create :: "memory_row \<Rightarrow> svc_error + memory_row" where
  "normalize_create q =
     bind_result (normalize_memory_required (me_scope q) valid_memory_scopes ''scope'') (\<lambda>scope.
     bind_result (normalize_memory_default (me_kind q) ''fact'' valid_memory_kinds ''kind'') (\<lambda>kind.
     bind_result (normalize_memory_default (me_status q) ''active'' valid_memory_statuses ''status'') (\<lambda>status.
     bind_result (normalize_memory_default (me_confidence q) ''medium'' valid_memory_confidences
                    ''confidence'') (\<lambda>confidence.
     bind_result (normalize_memory_default (me_source q) ''user'' valid_memory_sources ''source'') (\<lambda>source.
       let content = trim_space (me_content q); title = trim_space (me_title q);
           row = \<lparr>me_id = [], me_scope = scope, me_kind = kind, me_status = status,
                  me_title = (if title = [] then default_memory_title content else title),
                  me_content = content, me_confidence = confidence,
                  me_workspace_root = trim_space (me_workspace_root q),
                  me_session_id = trim_space (me_session_id q), me_run_id = trim_space (me_run_id q),
                  me_source_event_id = trim_space (me_source_event_id q),
                  me_source_message_id = trim_space (me_source_message_id q), me_source = source,
                  me_metadata = me_metadata q, me_created_at = zero_time, me_updated_at = zero_time,
                  me_deleted_at = None\<rparr>
       in if content = [] then Inl (Svc_Error ''content is required'')
          else bind_result (validate_memory_trace row) (\<lambda>_. Inr row))))))"

text \<open>An optional field that is normalised when it is present.\<close>

definition present :: "string option \<Rightarrow> (string \<Rightarrow> svc_error + string) \<Rightarrow> svc_error + string option" where
  "present v f = (case v of None \<Rightarrow> Inr None | Some s \<Rightarrow> bind_result (f s) (\<lambda>n. Inr (Some n)))"

definition required_content :: "string \<Rightarrow> svc_error + string" where
  "required_content v =
     (if trim_space v = [] then Inl (Svc_Error ''content is required'') else Inr (trim_space v))"

definition normalize_update :: "memory_row \<Rightarrow> memory_update \<Rightarrow> svc_error + memory_update" where
  "normalize_update current q =
     bind_result (present (mu_scope q) (\<lambda>v. normalize_memory_required v valid_memory_scopes ''scope'')) (\<lambda>scope.
     bind_result (present (mu_kind q) (\<lambda>v. normalize_memory_required v valid_memory_kinds ''kind'')) (\<lambda>kind.
     bind_result (present (mu_status q) (\<lambda>v. normalize_memory_required v valid_memory_statuses ''status'')) (\<lambda>status.
     bind_result (present (mu_content q) required_content) (\<lambda>content.
     bind_result (present (mu_confidence q)
                    (\<lambda>v. normalize_memory_required v valid_memory_confidences ''confidence'')) (\<lambda>confidence.
     bind_result (validate_memory_trace (current
         \<lparr>me_scope := or_old scope (me_scope current), me_status := or_old status (me_status current),
          me_content := or_old content (me_content current)\<rparr>)) (\<lambda>_.
       Inr \<lparr>mu_id = me_id current, mu_scope = scope, mu_kind = kind, mu_status = status,
            mu_title = map_option trim_space (mu_title q), mu_content = content,
            mu_confidence = confidence, mu_metadata = mu_metadata q\<rparr>))))))"

subsection \<open>Service\<close>

definition list_memory ::
  "('d, memory_row) sql_table \<Rightarrow> 'd \<Rightarrow> memory_filter \<Rightarrow> svc_error + memory_row list" where
  "list_memory T d q =
     bind_result (normalize_memory_optional (mf_scope q) valid_memory_scopes ''scope'') (\<lambda>scope.
     bind_result (normalize_memory_optional (mf_status q) (valid_memory_statuses @ [''all'']) ''status'') (\<lambda>status.
       db_result (list_memory_rows T d \<lparr>mf_scope = scope,
         mf_workspace_root = trim_space (mf_workspace_root q),
         mf_session_id = trim_space (mf_session_id q), mf_status = status, mf_limit = mf_limit q\<rparr>)))"

definition create_memory ::
  "('d, memory_row) sql_table \<Rightarrow> int \<Rightarrow> 'd \<times> nat \<Rightarrow> memory_row \<Rightarrow> ('d, memory_row) memory_result" where
  "create_memory T now st q =
     (case normalize_create q of Inl e \<Rightarrow> (st, Inl e) | Inr row \<Rightarrow> create_memory_row T now st row)"

definition update_memory ::
  "('d, memory_row) sql_table \<Rightarrow> int \<Rightarrow> 'd \<Rightarrow> string \<Rightarrow> memory_update \<Rightarrow> 'd \<times> (svc_error + memory_row)" where
  "update_memory T now d i q =
     (if trim_space i = [] then (d, Inl (Svc_Error ''memory id is required''))
      else or_fail (get_memory T d (trim_space i)) Db_Error d (\<lambda>current.
        case normalize_update current q of
          Inl e \<Rightarrow> (d, Inl e)
        | Inr u \<Rightarrow> or_fail (update_memory_row T now d u) Db_Error d (\<lambda>(d', r). (d', Inr r))))"

definition delete_memory ::
  "('d, memory_row) sql_table \<Rightarrow> int \<Rightarrow> 'd \<Rightarrow> string \<Rightarrow> 'd \<times> (svc_error + memory_row)" where
  "delete_memory T now d i =
     (if trim_space i = [] then (d, Inl (Svc_Error ''memory id is required''))
      else delete_memory_row T now d (trim_space i))"

text \<open>The memories put into the context of a run.\<close>

definition memory_context_limit :: nat where "memory_context_limit = 4000"

definition memory_header :: string where "memory_header = ''Memory:'' @ [CHR 0x0A]"

definition format_memory_context_line :: "memory_row \<Rightarrow> string" where
  "format_memory_context_line r =
     (let title = trim_space (me_title r)
      in ''- ['' @ me_scope r @ ''/'' @ me_kind r @ ''] ''
         @ (if title = [] then default_memory_title (me_content r) else title)
         @ '': '' @ trim_space (me_content r))"

fun fitting_memories :: "nat \<Rightarrow> memory_row list \<Rightarrow> memory_row list" where
  "fitting_memories used [] = []"
| "fitting_memories used (r # rs) =
     (let n = length (format_memory_context_line r)
      in if used + n + 1 > memory_context_limit then []
         else r # fitting_memories (used + n + 1) rs)"

definition preview_run ::
  "('d, memory_row) sql_table \<Rightarrow> 'd \<Rightarrow> string \<Rightarrow> string \<Rightarrow> (memory_row list \<times> string) option" where
  "preview_run T d session workspace =
     map_option (\<lambda>rows.
         let items = fitting_memories (length memory_header) rows
         in (items, if items = [] then []
                    else memory_header @ join_with [CHR 0x0A] (map format_memory_context_line items)))
       (select_for_run T d (trim_space session) (trim_space workspace) 10)"

subsection \<open>Tools\<close>

record memory_params =
  mp_run_id :: string
  mp_session_id :: string
  mp_workspace_root :: string
  mp_tool_call_id :: string
  mp_tool_name :: string
  mp_arguments :: go_map

record memory_item =
  mi_id :: string
  mi_scope :: string
  mi_kind :: string
  mi_status :: string
  mi_title :: string
  mi_content :: string
  mi_confidence :: string

definition memory_tool_item :: "memory_row \<Rightarrow> memory_item" where
  "memory_tool_item r =
     \<lparr>mi_id = me_id r, mi_scope = me_scope r, mi_kind = me_kind r, mi_status = me_status r,
      mi_title = me_title r, mi_content = me_content r, mi_confidence = me_confidence r\<rparr>"

text \<open>\<open>ms_output\<close> is the value whose JSON text is the output: the action and the items.\<close>

record memory_tool_result =
  ms_status :: string
  ms_output :: "string \<times> memory_item list"
  ms_record_id :: string
  ms_items :: "memory_item list"

definition tool_result_of :: "string \<Rightarrow> string \<Rightarrow> memory_row list \<Rightarrow> memory_tool_result" where
  "tool_result_of action record rows =
     (let items = map memory_tool_item rows
      in \<lparr>ms_status = ''completed'', ms_output = (action, items), ms_record_id = record, ms_items = items\<rparr>)"

definition string_pointer_arg :: "go_map \<Rightarrow> string \<Rightarrow> string option" where
  "string_pointer_arg args key =
     (case map_of args key of None \<Rightarrow> None | Some (GStr s) \<Rightarrow> Some s | Some _ \<Rightarrow> Some [])"

definition runtime_memory_scope :: "go_map \<Rightarrow> bool \<Rightarrow> svc_error + string" where
  "runtime_memory_scope args required =
     (let scope = to_lower (trim_space (string_arg args ''scope''))
      in if scope = [] \<and> \<not> required then Inr []
         else if scope \<noteq> ''project'' \<and> scope \<noteq> ''session''
         then Inl (Svc_Error (if required then ''scope must be project or session''
                              else ''memory tool scope must be project or session''))
         else Inr scope)"

definition validate_ownership :: "memory_row \<Rightarrow> memory_params \<Rightarrow> svc_error + unit" where
  "validate_ownership r p =
     (if me_scope r = ''session''
         \<and> (trim_space (me_session_id r) = [] \<or> me_session_id r \<noteq> trim_space (mp_session_id p))
      then Inl (Svc_Error ''memory record is outside the current session'')
      else if me_scope r = ''project''
         \<and> (trim_space (me_workspace_root r) = [] \<or> me_workspace_root r \<noteq> trim_space (mp_workspace_root p))
      then Inl (Svc_Error ''memory record is outside the current workspace'')
      else if me_scope r \<noteq> ''session'' \<and> me_scope r \<noteq> ''project''
      then Inl (Svc_Error (''memory tool cannot access '' @ me_scope r @ '' scope''))
      else if me_status r = ''deleted'' \<or> me_deleted_at r \<noteq> None
      then Inl (Svc_Error ''memory record is deleted'')
      else Inr ())"

text \<open>The two reads of \<^verbatim>\<open>memory.list\<close>: a scope it does not ask for contributes nothing.\<close>

definition scope_items ::
  "('d, memory_row) sql_table \<Rightarrow> 'd \<Rightarrow> string \<Rightarrow> memory_filter \<Rightarrow> svc_error + memory_row list" where
  "scope_items T d scope f =
     (if scope = [] \<or> scope = mf_scope f then list_memory T d f else Inr [])"

definition memory_tool_list ::
  "('d, memory_row) sql_table \<Rightarrow> 'd \<Rightarrow> memory_params \<Rightarrow> svc_error + memory_tool_result" where
  "memory_tool_list T d p =
     bind_result (runtime_memory_scope (mp_arguments p) False) (\<lambda>scope.
       let st = to_lower (trim_space (string_arg (mp_arguments p) ''status''));
           status = (if st = [] then ''active'' else st);
           n = int_arg (mp_arguments p) ''limit'' 20;
           limit = (if n \<le> 0 \<or> n > 50 then 20 else n)
       in if status \<noteq> ''active'' \<and> status \<noteq> ''disabled''
          then Inl (Svc_Error ''memory.list supports only active or disabled status'')
          else bind_result (scope_items T d scope \<lparr>mf_scope = ''session'', mf_workspace_root = [],
                   mf_session_id = trim_space (mp_session_id p), mf_status = status, mf_limit = limit\<rparr>) (\<lambda>own.
               bind_result (scope_items T d scope \<lparr>mf_scope = ''project'',
                   mf_workspace_root = trim_space (mp_workspace_root p), mf_session_id = [],
                   mf_status = status, mf_limit = limit\<rparr>) (\<lambda>project.
                 Inr (tool_result_of ''memory.list'' [] (take (nat limit) (own @ project))))))"

definition tool_metadata :: "memory_params \<Rightarrow> go_map" where
  "tool_metadata p = [(''tool_call_id'', GStr (trim_space (mp_tool_call_id p)))]"

definition memory_tool_create ::
  "('d, memory_row) sql_table \<Rightarrow> int \<Rightarrow> 'd \<times> nat \<Rightarrow> memory_params \<Rightarrow> ('d, memory_tool_result) memory_result" where
  "memory_tool_create T now st p =
     (case runtime_memory_scope (mp_arguments p) True of
        Inl e \<Rightarrow> (st, Inl e)
      | Inr scope \<Rightarrow>
          (let args = mp_arguments p;
               raw = to_lower (trim_space (string_arg args ''status''))
           in if raw \<noteq> ''disabled'' \<and> raw \<noteq> [] \<and> raw \<noteq> ''active''
              then (st, Inl (Svc_Error ''memory.create supports only active or disabled status''))
              else (case create_memory T now st
                       \<lparr>me_id = [], me_scope = scope, me_kind = string_arg args ''kind'',
                        me_status = (if raw = ''disabled'' then ''disabled'' else ''active''),
                        me_title = string_arg args ''title'', me_content = string_arg args ''content'',
                        me_confidence = string_arg args ''confidence'',
                        me_workspace_root = trim_space (mp_workspace_root p),
                        me_session_id = trim_space (mp_session_id p),
                        me_run_id = trim_space (mp_run_id p), me_source_event_id = [],
                        me_source_message_id = [], me_source = ''agent'', me_metadata = tool_metadata p,
                        me_created_at = zero_time, me_updated_at = zero_time, me_deleted_at = None\<rparr> of
                      (st', Inl e) \<Rightarrow> (st', Inl e)
                    | (st', Inr r) \<Rightarrow> (st', Inr (tool_result_of ''memory.create'' (me_id r) [r])))))"

text \<open>The row a tool changes: found, and owned by the calling session or workspace.\<close>

definition owned_memory ::
  "('d, memory_row) sql_table \<Rightarrow> 'd \<Rightarrow> memory_params \<Rightarrow> svc_error + memory_row" where
  "owned_memory T d p =
     (let i = trim_space (string_arg (mp_arguments p) ''id'')
      in if i = [] then Inl (Svc_Error ''id is required'')
         else bind_result (of_option Db_Error (get_memory T d i)) (\<lambda>r.
                bind_result (validate_ownership r p) (\<lambda>_. Inr r)))"

definition status_argument :: "go_map \<Rightarrow> svc_error + string option" where
  "status_argument args =
     present (string_pointer_arg args ''status'') (\<lambda>v.
       let n = to_lower (trim_space v)
       in if n \<noteq> ''active'' \<and> n \<noteq> ''disabled''
          then Inl (Svc_Error ''memory.update supports only active or disabled status'') else Inr n)"

definition memory_tool_update ::
  "('d, memory_row) sql_table \<Rightarrow> int \<Rightarrow> 'd \<Rightarrow> memory_params \<Rightarrow> 'd \<times> (svc_error + memory_tool_result)" where
  "memory_tool_update T now d p =
     (let args = mp_arguments p
      in case owned_memory T d p of
           Inl e \<Rightarrow> (d, Inl e)
         | Inr current \<Rightarrow>
             if map_of args ''scope'' \<noteq> None
             then (d, Inl (Svc_Error ''memory.update cannot change scope''))
             else (case status_argument args of
                     Inl e \<Rightarrow> (d, Inl e)
                   | Inr status \<Rightarrow>
                       (case update_memory T now d (string_arg args ''id'')
                            \<lparr>mu_id = [], mu_scope = None, mu_kind = string_pointer_arg args ''kind'',
                             mu_status = status, mu_title = string_pointer_arg args ''title'',
                             mu_content = string_pointer_arg args ''content'',
                             mu_confidence = string_pointer_arg args ''confidence'',
                             mu_metadata = Some (tool_metadata p)\<rparr> of
                          (d', Inl e) \<Rightarrow> (d', Inl e)
                        | (d', Inr r) \<Rightarrow> (d', Inr (tool_result_of ''memory.update'' (me_id r) [r])))))"

definition memory_tool_delete ::
  "('d, memory_row) sql_table \<Rightarrow> int \<Rightarrow> 'd \<Rightarrow> memory_params \<Rightarrow> 'd \<times> (svc_error + memory_tool_result)" where
  "memory_tool_delete T now d p =
     (case owned_memory T d p of
        Inl e \<Rightarrow> (d, Inl e)
      | Inr current \<Rightarrow>
          (case delete_memory T now d (string_arg (mp_arguments p) ''id'') of
             (d', Inl e) \<Rightarrow> (d', Inl e)
           | (d', Inr r) \<Rightarrow> (d', Inr (tool_result_of ''memory.delete'' (me_id r) [r]))))"

definition execute_memory_tool ::
  "('d, memory_row) sql_table \<Rightarrow> int \<Rightarrow> 'd \<times> nat \<Rightarrow> memory_params \<Rightarrow> ('d, memory_tool_result) memory_result" where
  "execute_memory_tool T now st p =
     (case st of (d, counter) \<Rightarrow>
        let tool = trim_space (mp_tool_name p);
            keep = (\<lambda>(d', r). ((d', counter), r))
        in if trim_space (mp_run_id p) = [] then (st, Inl (Svc_Error ''run_id is required''))
           else if trim_space (mp_tool_call_id p) = []
           then (st, Inl (Svc_Error ''tool_call_id is required''))
           else if tool = ''memory.list'' then (st, memory_tool_list T d p)
           else if tool = ''memory.create'' then memory_tool_create T now st p
           else if tool = ''memory.update'' then keep (memory_tool_update T now d p)
           else if tool = ''memory.delete'' then keep (memory_tool_delete T now d p)
           else (st, Inl (Svc_Error (''unsupported memory tool '' @ go_quote (mp_tool_name p)))))"

subsection \<open>Confinement\<close>

text \<open>The records a tool call may touch: those of its own session and its own workspace.\<close>

definition owned_by :: "memory_params \<Rightarrow> memory_row \<Rightarrow> bool" where
  "owned_by p r \<longleftrightarrow>
     (me_scope r = ''session'' \<and> me_session_id r \<noteq> [] \<and> me_session_id r = trim_space (mp_session_id p))
     \<or> (me_scope r = ''project'' \<and> me_workspace_root r \<noteq> []
        \<and> me_workspace_root r = trim_space (mp_workspace_root p))"

definition foreign_rows :: "memory_params \<Rightarrow> memory_row list \<Rightarrow> memory_row multiset" where
  "foreign_rows p rows = filter_mset (\<lambda>r. \<not> owned_by p r) (mset rows)"

lemma trim_space_Nil [simp]: "trim_space [] = []"
  by (simp add: trim_space_def)

lemma validate_ownership_owned: "validate_ownership r p = Inr u \<Longrightarrow> owned_by p r"
  by (auto simp: validate_ownership_def owned_by_def split: if_splits)

lemma get_memory_Some:
  assumes "sql_table_laws T rows me_id" "get_memory T d i = Some r"
  shows "r \<in> set (rows d)" "me_id r = i"
proof -
  have "sql_first T d (\<lambda>x. me_id x = i) (\<lambda>r. [(0, me_id r)]) = Found r"
    using assms(2) by (simp add: get_memory_def)
  from sql_first_Found [OF assms(1) this] show "r \<in> set (rows d)" "me_id r = i" by auto
qed

lemma owned_memory_found:
  assumes "sql_table_laws T rows me_id" "owned_memory T d p = Inr r"
  shows "r \<in> set (rows d)" "me_id r = trim_space (string_arg (mp_arguments p) ''id'')" "owned_by p r"
  using assms(2) get_memory_Some [OF assms(1)]
  by (auto simp: owned_memory_def Let_def split: if_splits dest: validate_ownership_owned)

lemma foreign_rows_update:
  assumes "mset rows' = mset (map (\<lambda>x. if P x then f x else x) rows)"
    and "\<And>x. x \<in> set rows \<Longrightarrow> P x \<Longrightarrow> owned_by p x \<and> owned_by p (f x)"
  shows "foreign_rows p rows' = foreign_rows p rows"
proof -
  have "filter (\<lambda>r. \<not> owned_by p r) (map (\<lambda>x. if P x then f x else x) rows)
      = filter (\<lambda>r. \<not> owned_by p r) rows"
    using assms(2) by (induction rows) auto
  then show ?thesis using assms(1) unfolding foreign_rows_def by (metis mset_filter)
qed

lemma normalize_update_scope:
  "normalize_update current q = Inr u \<Longrightarrow> mu_scope q = None \<Longrightarrow>
    mu_scope u = None \<and> mu_id u = me_id current"
  by (auto simp: normalize_update_def present_def)

lemma updated_memory_owned:
  "mu_scope u = None \<Longrightarrow> owned_by p (updated_memory now u r) = owned_by p r"
  by (simp add: owned_by_def updated_memory_def or_old_def)

lemma scope_texts:
  "normalize_memory_required ''session'' valid_memory_scopes ''scope'' = Inr ''session''"
  "normalize_memory_required ''project'' valid_memory_scopes ''scope'' = Inr ''project''"
  by code_simp+

lemma create_memory_owned:
  assumes q: "normalize_create q = Inr row"
    and scope: "me_scope q = ''session'' \<or> me_scope q = ''project''"
    and "me_session_id q = trim_space (mp_session_id p)"
    and "me_workspace_root q = trim_space (mp_workspace_root p)"
  shows "owned_by p (prepared_memory now n row)"
proof -
  have "normalize_memory_required (me_scope q) valid_memory_scopes ''scope'' = Inr (me_scope q)"
    using scope scope_texts by auto
  then have row: "me_scope row = me_scope q" "me_session_id row = trim_space (mp_session_id p)"
    "me_workspace_root row = trim_space (mp_workspace_root p)" "validate_memory_trace row = Inr ()"
    using q assms(3,4) by (auto simp: normalize_create_def Let_def split: if_splits)
  then show ?thesis
    using scope by (auto simp: owned_by_def prepared_memory_def validate_memory_trace_def Let_def
        split: if_splits)
qed

lemma foreign_rows_insert:
  "mset rows' = mset rows + mset [row] \<Longrightarrow> owned_by p row \<Longrightarrow> foreign_rows p rows' = foreign_rows p rows"
  by (simp add: foreign_rows_def)

lemma create_memory_confined:
  assumes "sql_table_laws T rows me_id" "create_memory T now (d, n) q = ((d', n'), r)"
    and "me_scope q = ''session'' \<or> me_scope q = ''project''"
    and "me_session_id q = trim_space (mp_session_id p)"
    and "me_workspace_root q = trim_space (mp_workspace_root p)"
  shows "foreign_rows p (rows d') = foreign_rows p (rows d)"
proof (cases "d' = d")
  case False
  then obtain row where row: "normalize_create q = Inr row"
    and ins: "sql_insert T d [prepared_memory now n row] = Some d'"
    using assms(2) by (auto simp: create_memory_def create_memory_row_def Let_def
        split: sum.splits option.splits if_splits)
  from create_memory_owned [OF row assms(3-5)] sql_insert_law [OF assms(1) ins]
  show ?thesis by (auto intro: foreign_rows_insert)
qed simp

lemma runtime_memory_scope_required:
  "runtime_memory_scope args True = Inr scope \<Longrightarrow> scope = ''session'' \<or> scope = ''project''"
  by (auto simp: runtime_memory_scope_def Let_def split: if_splits)

lemma memory_tool_create_confined:
  assumes "sql_table_laws T rows me_id" "memory_tool_create T now (d, n) p = ((d', n'), r)"
  shows "foreign_rows p (rows d') = foreign_rows p (rows d)"
  using assms(2) unfolding memory_tool_create_def Let_def
  by (auto split: sum.splits if_splits prod.splits
      dest!: runtime_memory_scope_required create_memory_confined [OF assms(1), where p = p])

lemma update_memory_changes:
  assumes "update_memory T now d i q = (d', r)" "d' \<noteq> d"
  shows "\<exists>current u st. get_memory T d (trim_space i) = Some current
    \<and> normalize_update current q = Inr u \<and> update_memory_row T now d u = Some (d', st)"
  using assms by (auto simp: update_memory_def or_fail_def split: if_splits option.splits sum.splits prod.splits)

lemma memory_tool_update_confined:
  assumes laws: "sql_table_laws T rows me_id" "sql_conflict_laws T rows me_id (\<lambda>r x. me_id x = me_id r)"
    and distinct: "distinct (map me_id (rows d))"
    and u: "memory_tool_update T now d p = (d', r)"
  shows "foreign_rows p (rows d') = foreign_rows p (rows d)"
proof (cases "d' = d")
  case False
  then obtain own current u st where own: "owned_memory T d p = Inr own"
    and current: "get_memory T d (trim_space (string_arg (mp_arguments p) ''id'')) = Some current"
    and scope: "mu_scope u = None \<and> mu_id u = me_id current"
    and st: "update_memory_row T now d u = Some (d', st)"
    using u by (auto simp: memory_tool_update_def Let_def
        split: sum.splits if_splits prod.splits dest!: update_memory_changes dest: normalize_update_scope)
  note own = owned_memory_found [OF laws(1) own]
  have "current \<in> set (rows d)" "me_id current = me_id own"
    using get_memory_Some [OF laws(1) current] own(2) by auto
  then have "current = own" using distinct_map_eqD [OF distinct] own(1) by metis
  with scope have u: "mu_scope u = None" "mu_id u = me_id own" by auto
  then obtain row where row: "row \<in> set (rows d)" "me_id row = me_id own"
    and up: "sql_upsert T d (updated_memory now u row) (\<lambda>_. updated_memory now u row) = Some d'"
    using st by (auto simp: update_memory_row_def Let_def split: option.splits
        dest: get_memory_Some [OF laws(1)])
  have "row = own" using distinct_map_eqD [OF distinct] own(1) row by metis
  have key: "me_id (updated_memory now u row) = me_id own"
    by (simp add: updated_memory_def row(2))
  have "mset (rows d') = mset (map (\<lambda>x. if me_id x = me_id own then updated_memory now u row else x) (rows d))"
    using sql_upsert_law [OF laws(2) up] own(1) key by simp
  then show ?thesis
  proof (rule foreign_rows_update)
    fix x assume "x \<in> set (rows d)" "me_id x = me_id own"
    then have "x = own" using distinct_map_eqD [OF distinct] own(1) by metis
    with \<open>row = own\<close> own(3) u(1) show "owned_by p x \<and> owned_by p (updated_memory now u row)"
      by (simp add: updated_memory_owned)
  qed
qed simp

lemma memory_tool_delete_confined:
  assumes laws: "sql_table_laws T rows me_id" and distinct: "distinct (map me_id (rows d))"
    and u: "memory_tool_delete T now d p = (d', r)"
  shows "foreign_rows p (rows d') = foreign_rows p (rows d)"
proof (cases "d' = d")
  case False
  then obtain own n where own: "owned_memory T d p = Inr own"
    and up: "sql_update T d (\<lambda>r. me_id r = trim_space (string_arg (mp_arguments p) ''id'') \<and> me_deleted_at r = None)
      (\<lambda>r. r\<lparr>me_status := ''deleted'', me_deleted_at := Some now, me_updated_at := now\<rparr>) = Some (d', n)"
    using u by (auto simp: memory_tool_delete_def delete_memory_def delete_memory_row_def or_fail_def
        split: sum.splits if_splits prod.splits option.splits)
  note own = owned_memory_found [OF laws own]
  show ?thesis
  proof (rule foreign_rows_update [OF conjunct1 [OF sql_update_law [OF laws up]]])
    fix x assume "x \<in> set (rows d)"
      "me_id x = trim_space (string_arg (mp_arguments p) ''id'') \<and> me_deleted_at x = None"
    then have "x = own" using distinct_map_eqD [OF distinct] own(1,2) by metis
    with own(3) show "owned_by p x \<and> owned_by p (x\<lparr>me_status := ''deleted'', me_deleted_at := Some now, me_updated_at := now\<rparr>)"
      by (simp add: owned_by_def)
  qed
qed simp

text \<open>
  C37. Whatever its arguments, a memory tool changes, creates and deletes only memories of the
  calling session or of the calling session's workspace: every other record of the table,
  including all user and system memories, stays exactly as it is.
\<close>

theorem memory_tools_confined:
  assumes "sql_table_laws T rows me_id" "sql_conflict_laws T rows me_id (\<lambda>r x. me_id x = me_id r)"
    and "distinct (map me_id (rows d))" "execute_memory_tool T now (d, n) p = ((d', n'), r)"
  shows "foreign_rows p (rows d') = foreign_rows p (rows d)"
  using assms(4)
  by (auto simp: execute_memory_tool_def Let_def split: if_splits prod.splits
      dest: memory_tool_create_confined [OF assms(1)] memory_tool_update_confined [OF assms(1-3)]
        memory_tool_delete_confined [OF assms(1,3)])

definition sample_memory :: "string \<Rightarrow> string \<Rightarrow> string \<Rightarrow> string \<Rightarrow> memory_row" where
  "sample_memory i scope session workspace =
     \<lparr>me_id = i, me_scope = scope, me_kind = ''fact'', me_status = ''active'', me_title = ''t'',
      me_content = ''c'', me_confidence = ''high'', me_workspace_root = workspace,
      me_session_id = session, me_run_id = ''r'', me_source_event_id = [], me_source_message_id = [],
      me_source = ''agent'', me_metadata = [], me_created_at = 1, me_updated_at = 1,
      me_deleted_at = None\<rparr>"

definition sample_params :: "string \<Rightarrow> string \<Rightarrow> go_map \<Rightarrow> memory_params" where
  "sample_params tool workspace args =
     \<lparr>mp_run_id = ''r'', mp_session_id = ''s'', mp_workspace_root = workspace,
      mp_tool_call_id = ''c'', mp_tool_name = tool, mp_arguments = args\<rparr>"

definition memory_table :: "(memory_row list, memory_row) sql_table" where
  "memory_table = list_table me_id (\<lambda>_. True) (\<lambda>r x. me_id x = me_id r)"

lemma memory_table_laws:
  "sql_table_laws memory_table (\<lambda>d. d) me_id"
  "sql_conflict_laws memory_table (\<lambda>d. d) me_id (\<lambda>r x. me_id x = me_id r)"
  by (simp_all add: memory_table_def list_table_laws list_table_conflict_laws)

theorem memory_tools_confined_witness:
  "\<exists>d' n' r. execute_memory_tool memory_table 5
      ([sample_memory ''m'' ''session'' ''other'' []], 0)
      (sample_params ''memory.delete'' [] [(''id'', GStr ''m'')]) = ((d', n'), r)
    \<and> foreign_rows (sample_params ''memory.delete'' [] [(''id'', GStr ''m'')]) d'
      = {#sample_memory ''m'' ''session'' ''other'' []#}"
proof -
  let ?d = "[sample_memory ''m'' ''session'' ''other'' []]"
  let ?p = "sample_params ''memory.delete'' [] [(''id'', GStr ''m'')]"
  obtain d' n' r where e: "execute_memory_tool memory_table 5 (?d, 0) ?p = ((d', n'), r)"
    by (metis prod.exhaust)
  have "trim_space ''s'' = ''s''" by code_simp
  then have "foreign_rows ?p ?d = mset ?d"
    by (simp add: foreign_rows_def owned_by_def sample_memory_def sample_params_def)
  with memory_tools_confined [OF memory_table_laws _ e] e show ?thesis by auto
qed

subsection \<open>What a run and the tools see\<close>

lemma fitting_memories_prefix: "\<exists>n. fitting_memories used rs = take n rs"
proof (induction used rs rule: fitting_memories.induct)
  case (2 used r rs)
  show ?case
  proof (cases "used + length (format_memory_context_line r) + 1 > memory_context_limit")
    case True
    then show ?thesis by (intro exI [of _ 0]) (simp add: Let_def)
  next
    case False
    with 2 obtain n where "fitting_memories (used + length (format_memory_context_line r) + 1) rs = take n rs"
      by blast
    with False show ?thesis by (intro exI [of _ "Suc n"]) (simp add: Let_def)
  qed
qed simp

lemma fitting_memories_fits:
  "used \<le> memory_context_limit \<Longrightarrow>
    used + length (concat (map (\<lambda>r. format_memory_context_line r @ [CHR 0x0A]) (fitting_memories used rs)))
      \<le> memory_context_limit"
  by (induction used rs rule: fitting_memories.induct) (auto simp: Let_def add.assoc)

text \<open>
  The memory context of a run has at most 4000 bytes and is made of at most ten records,
  all of them active, not deleted, and records of the run's own session or workspace.
\<close>

theorem memory_context_bounded:
  assumes "sql_table_laws T rows me_id" "preview_run T d session workspace = Some (items, ctx)"
  shows "length ctx \<le> 4000 \<and> length items \<le> 10
    \<and> (\<forall>r \<in> set items. r \<in> set (rows d) \<and> me_status r = ''active'' \<and> me_deleted_at r = None
         \<and> (me_scope r = ''session'' \<and> me_session_id r = trim_space session
            \<or> me_scope r = ''project'' \<and> me_workspace_root r = trim_space workspace))"
proof -
  obtain rs where rs: "select_for_run T d (trim_space session) (trim_space workspace) 10 = Some rs"
    and items: "items = fitting_memories (length memory_header) rs"
    and ctx: "ctx = (if items = [] then [] else memory_header
      @ join_with [CHR 0x0A] (map format_memory_context_line items))"
    using assms(2) by (auto simp: preview_run_def Let_def)
  have sel: "length rs \<le> 10 \<and> (\<forall>r \<in> set rs. r \<in> set (rows d) \<and> run_memory (trim_space session) (trim_space workspace) r)"
  proof (cases "trim_space session = [] \<and> trim_space workspace = []")
    case True
    with rs show ?thesis by (simp add: select_for_run_def)
  next
    case False
    then obtain ys where ys: "sql_select T d (run_memory (trim_space session) (trim_space workspace))
        (\<lambda>r. [(scope_priority (me_scope r), []), (- me_updated_at r, [])]) = Some ys" "rs = take 10 ys"
      using rs by (auto simp: select_for_run_def sql_limit_def normalize_memory_limit_def)
    from mset_eq_setD [OF conjunct1 [OF sql_select_law [OF assms(1) ys(1)]]] ys(2)
    show ?thesis by (auto dest: in_set_takeD)
  qed
  obtain n where "items = take n rs" using fitting_memories_prefix items by blast
  with sel have "length items \<le> 10" "set items \<subseteq> set rs" by (auto dest: in_set_takeD)
  moreover have "length ctx \<le> 4000"
  proof (cases "items = []")
    case False
    have "length memory_header \<le> memory_context_limit"
      by (simp add: memory_header_def memory_context_limit_def)
    from fitting_memories_fits [OF this, of rs] False
      join_lines_length [of "map format_memory_context_line items" "CHR 0x0A"]
    show ?thesis by (simp add: items [symmetric] ctx comp_def memory_context_limit_def)
  qed (simp add: ctx)
  ultimately show ?thesis using sel by (auto simp: run_memory_def)
qed

theorem memory_context_bounded_witness:
  "\<exists>items ctx. preview_run memory_table [sample_memory ''m'' ''session'' ''s'' []] ''s'' [] = Some (items, ctx)
     \<and> items \<noteq> [] \<and> length ctx \<le> 4000"
proof -
  have t: "trim_space ''s'' = ''s''" "trim_space ''t'' = ''t''" "trim_space ''c'' = ''c''" by code_simp+
  obtain items ctx where p: "preview_run memory_table [sample_memory ''m'' ''session'' ''s'' []] ''s'' []
      = Some (items, ctx)" and ne: "items \<noteq> []"
    by (auto simp: preview_run_def select_for_run_def sql_limit_def memory_table_def run_memory_def
        sample_memory_def normalize_memory_limit_def memory_header_def memory_context_limit_def
        format_memory_context_line_def t Let_def)
  from memory_context_bounded [OF memory_table_laws(1) p] p ne show ?thesis by auto
qed

definition listed_for :: "string \<Rightarrow> memory_filter \<Rightarrow> memory_row \<Rightarrow> bool" where
  "listed_for status f r \<longleftrightarrow> me_status r = status \<and> me_deleted_at r = None \<and> me_scope r = mf_scope f
     \<and> (mf_workspace_root f = [] \<or> me_workspace_root r = mf_workspace_root f)
     \<and> (mf_session_id f = [] \<or> me_session_id r = mf_session_id f)"

lemma filter_texts:
  "normalize_memory_optional ''session'' valid_memory_scopes ''scope'' = Inr ''session''"
  "normalize_memory_optional ''project'' valid_memory_scopes ''scope'' = Inr ''project''"
  "normalize_memory_optional ''active'' (valid_memory_statuses @ [''all'']) ''status'' = Inr ''active''"
  "normalize_memory_optional ''disabled'' (valid_memory_statuses @ [''all'']) ''status'' = Inr ''disabled''"
  by code_simp+

lemma list_memory_rows_read:
  assumes laws: "sql_table_laws T rows me_id"
    and l: "list_memory T d f = Inr rs"
    and f: "mf_scope f = ''session'' \<or> mf_scope f = ''project''" "mf_status f = ''active'' \<or> mf_status f = ''disabled''"
      "trim_space (mf_workspace_root f) = mf_workspace_root f" "trim_space (mf_session_id f) = mf_session_id f"
  shows "set rs \<subseteq> {r \<in> set (rows d). listed_for (mf_status f) f r}"
    "length (rows d) \<le> normalize_memory_limit (mf_limit f) \<Longrightarrow>
      set rs = {r \<in> set (rows d). listed_for (mf_status f) f r}"
    "length rs \<le> length (rows d)"
proof -
  have "list_memory_rows T d f = Some rs"
    using l f filter_texts by (cases f) (auto simp: list_memory_def)
  then obtain ys where ys: "sql_select T d (memory_matches f) (\<lambda>r. [(- me_updated_at r, [])]) = Some ys"
    "rs = take (normalize_memory_limit (mf_limit f)) ys"
    by (auto simp: list_memory_rows_def sql_limit_def)
  have m: "memory_matches f = listed_for (mf_status f) f"
    using f by (auto simp: memory_matches_def listed_for_def fun_eq_iff)
  note law = conjunct1 [OF sql_select_law [OF laws ys(1)]]
  have set: "set ys = {r \<in> set (rows d). listed_for (mf_status f) f r}"
    using mset_eq_setD [OF law] m by auto
  then show "set rs \<subseteq> {r \<in> set (rows d). listed_for (mf_status f) f r}"
    using ys(2) by (auto dest: in_set_takeD)
  have "length ys \<le> length (rows d)" using mset_eq_length [OF law] by simp
  then show "length (rows d) \<le> normalize_memory_limit (mf_limit f) \<Longrightarrow>
      set rs = {r \<in> set (rows d). listed_for (mf_status f) f r}"
    "length rs \<le> length (rows d)"
    using set ys(2) by simp_all
qed

definition list_status :: "memory_params \<Rightarrow> string" where
  "list_status p = (let st = to_lower (trim_space (string_arg (mp_arguments p) ''status''))
     in if st = [] then ''active'' else st)"

definition list_limit :: "memory_params \<Rightarrow> int" where
  "list_limit p = (let n = int_arg (mp_arguments p) ''limit'' 20 in if n \<le> 0 \<or> n > 50 then 20 else n)"

definition session_filter :: "memory_params \<Rightarrow> memory_filter" where
  "session_filter p = \<lparr>mf_scope = ''session'', mf_workspace_root = [],
     mf_session_id = trim_space (mp_session_id p), mf_status = list_status p, mf_limit = list_limit p\<rparr>"

definition project_filter :: "memory_params \<Rightarrow> memory_filter" where
  "project_filter p = \<lparr>mf_scope = ''project'', mf_workspace_root = trim_space (mp_workspace_root p),
     mf_session_id = [], mf_status = list_status p, mf_limit = list_limit p\<rparr>"

lemma memory_tool_list_parts:
  assumes "memory_tool_list T d p = Inr res"
  obtains scope own project where "runtime_memory_scope (mp_arguments p) False = Inr scope"
    "list_status p = ''active'' \<or> list_status p = ''disabled''"
    "scope_items T d scope (session_filter p) = Inr own"
    "scope_items T d scope (project_filter p) = Inr project"
    "ms_items res = map memory_tool_item (take (nat (list_limit p)) (own @ project))"
  using assms unfolding memory_tool_list_def list_status_def [of p, symmetric, unfolded Let_def]
    list_limit_def [of p, symmetric, unfolded Let_def] session_filter_def project_filter_def Let_def
  by (auto simp: tool_result_of_def Let_def split: if_splits)

lemma scope_items_listed:
  assumes "sql_table_laws T rows me_id" "scope_items T d scope f = Inr rs"
    and "f = session_filter p \<or> f = project_filter p"
    and "list_status p = ''active'' \<or> list_status p = ''disabled''"
  shows "set rs \<subseteq> {r \<in> set (rows d). listed_for (list_status p) f r}"
proof (cases "scope = [] \<or> scope = mf_scope f")
  case True
  then have "list_memory T d f = Inr rs" using assms(2) by (auto simp: scope_items_def)
  from list_memory_rows_read(1) [OF assms(1) this] assms(3,4) show ?thesis
    by (auto simp: session_filter_def project_filter_def)
next
  case False
  with assms(2) show ?thesis by (simp add: scope_items_def)
qed

lemma memory_list_all_workspaces:
  assumes laws: "sql_table_laws T rows me_id" and l: "memory_tool_list T d p = Inr res"
    and p: "trim_space (mp_workspace_root p) = []" "mp_arguments p = [(''scope'', GStr ''project'')]"
      "length (rows d) \<le> 20"
    and r: "r \<in> set (rows d)" "me_scope r = ''project''" "me_status r = ''active''" "me_deleted_at r = None"
  shows "memory_tool_item r \<in> set (ms_items res)"
proof -
  have texts: "to_lower [] = []" "to_lower (trim_space ''project'') = ''project''" by code_simp+
  have st: "list_status p = ''active''" and lim: "list_limit p = 20"
    using p(2) texts by (simp_all add: list_status_def list_limit_def string_arg_def int_arg_def)
  from l obtain scope own project where parts:
    "runtime_memory_scope (mp_arguments p) False = Inr scope"
    "scope_items T d scope (session_filter p) = Inr own"
    "scope_items T d scope (project_filter p) = Inr project"
    "ms_items res = map memory_tool_item (take (nat (list_limit p)) (own @ project))"
    by (rule memory_tool_list_parts)
  have "scope = ''project''"
    using parts(1) p(2) texts by (simp add: runtime_memory_scope_def string_arg_def)
  then have own: "own = []" and project: "list_memory T d (project_filter p) = Inr project"
    using parts(2,3) by (simp_all add: scope_items_def session_filter_def project_filter_def)
  from list_memory_rows_read(2,3) [OF laws project] st lim p(1,3)
  have "set project = {r \<in> set (rows d). listed_for ''active'' (project_filter p) r}" "length project \<le> 20"
    by (simp_all add: project_filter_def normalize_memory_limit_def)
  moreover have "r \<in> {r \<in> set (rows d). listed_for ''active'' (project_filter p) r}"
    using r p(1) by (simp add: listed_for_def project_filter_def)
  ultimately show ?thesis by (simp add: parts(4) own lim)
qed

text \<open>
  \<^verbatim>\<open>memory.list\<close> shows records of the calling session and workspace only, as long as the
  caller has both. In a session without a workspace the filter on the workspace disappears: the
  tool then lists the project memories of all workspaces (here up to 20 of them).
\<close>

theorem memory_list_reach:
  assumes laws: "sql_table_laws T rows me_id" and l: "memory_tool_list T d p = Inr res"
  shows "(\<forall>i \<in> set (ms_items res). \<exists>r \<in> set (rows d). i = memory_tool_item r \<and>
      (owned_by p r \<or> me_scope r = ''session'' \<and> trim_space (mp_session_id p) = []
       \<or> me_scope r = ''project'' \<and> trim_space (mp_workspace_root p) = []))
    \<and> (trim_space (mp_workspace_root p) = [] \<and> mp_arguments p = [(''scope'', GStr ''project'')]
       \<and> length (rows d) \<le> 20 \<longrightarrow>
       (\<forall>r \<in> set (rows d). me_scope r = ''project'' \<and> me_status r = ''active'' \<and> me_deleted_at r = None \<longrightarrow>
          memory_tool_item r \<in> set (ms_items res)))"
proof -
  from l obtain scope own project where parts:
    "list_status p = ''active'' \<or> list_status p = ''disabled''"
    "scope_items T d scope (session_filter p) = Inr own"
    "scope_items T d scope (project_filter p) = Inr project"
    "ms_items res = map memory_tool_item (take (nat (list_limit p)) (own @ project))"
    by (rule memory_tool_list_parts)
  have "\<exists>r \<in> set (rows d). i = memory_tool_item r \<and>
      (owned_by p r \<or> me_scope r = ''session'' \<and> trim_space (mp_session_id p) = []
       \<or> me_scope r = ''project'' \<and> trim_space (mp_workspace_root p) = [])"
    if i: "i \<in> set (ms_items res)" for i
  proof -
    obtain r where r: "i = memory_tool_item r" "r \<in> set own \<or> r \<in> set project"
      using i unfolding parts(4) by (auto dest: in_set_takeD)
    then have "r \<in> set (rows d)"
      "listed_for (list_status p) (session_filter p) r \<or> listed_for (list_status p) (project_filter p) r"
      using scope_items_listed [OF laws parts(2) _ parts(1)] scope_items_listed [OF laws parts(3) _ parts(1)]
      by auto
    with r(1) show ?thesis by (auto simp: listed_for_def owned_by_def session_filter_def project_filter_def)
  qed
  with memory_list_all_workspaces [OF laws l] show ?thesis by blast
qed

theorem memory_list_reach_witness:
  "\<exists>res. memory_tool_list memory_table [sample_memory ''m'' ''project'' [] ''/secret'']
      (sample_params ''memory.list'' [] [(''scope'', GStr ''project'')]) = Inr res
    \<and> memory_tool_item (sample_memory ''m'' ''project'' [] ''/secret'') \<in> set (ms_items res)"
proof -
  let ?d = "[sample_memory ''m'' ''project'' [] ''/secret'']"
  let ?p = "sample_params ''memory.list'' [] [(''scope'', GStr ''project'')]"
  have t: "to_lower [] = []" "to_lower (trim_space ''project'') = ''project''" by code_simp+
  have "string_arg (mp_arguments ?p) ''scope'' = ''project''" "string_arg (mp_arguments ?p) ''status'' = []"
    "mp_workspace_root ?p = []"
    by (simp_all add: sample_params_def string_arg_def)
  then have "\<exists>res. memory_tool_list memory_table ?d ?p = Inr res"
    by (simp add: memory_tool_list_def runtime_memory_scope_def t scope_items_def list_memory_def
        filter_texts list_memory_rows_def sql_limit_def memory_table_def Let_def)
  then obtain res where l: "memory_tool_list memory_table ?d ?p = Inr res" ..
  from memory_list_reach [OF memory_table_laws(1) l] l show ?thesis
    by (auto simp: sample_memory_def sample_params_def)
qed

end
