(* ===== verification/Run_Context.thy ===== *)
theory Run_Context
  imports Tool_Policy Todo_Service Goal_Service "HOL-Library.Sublist"
begin

text \<open>
  What the Agent Runtime puts together for the provider between two turns: the check whether an
  answer is usable (\<^verbatim>\<open>runtime/subagent_tools.go\<close>), the to-do and the goal context and the history
  carried from one goal segment to the next (\<^verbatim>\<open>runtime/runtime.go\<close>, \<^verbatim>\<open>runtime/goal_loop.go\<close>).
\<close>

subsection \<open>Usable answers\<close>

text \<open>
  \<^verbatim>\<open>isUsableFinalText\<close> drops the textual tool calls of an answer. It looks for a tag in the
  lowered text and slices the text itself at the position found; \<open>None\<close> is the run-time panic of
  a slice beyond the end.
\<close>

function strip_tool_calls :: "string \<Rightarrow> string option" where
  "strip_tool_calls t =
     (case index_of ''<tool_call'' (to_lower t) of
        None \<Rightarrow> Some t
      | Some start \<Rightarrow>
          (case slice_from t start of
             None \<Rightarrow> None
           | Some rest \<Rightarrow>
               (case index_of ''</tool_call'' (to_lower rest) of
                  None \<Rightarrow> slice_to t start
                | Some stop \<Rightarrow>
                    (case slice_from rest stop of
                       None \<Rightarrow> None
                     | Some tail \<Rightarrow>
                         (case index_of ''>'' tail of
                            None \<Rightarrow> slice_to t start
                          | Some close \<Rightarrow>
                              strip_tool_calls
                                (take start t @ drop (start + stop + close + 1) t))))))"
  by pat_completeness auto
termination
proof (relation "measure length")
  show "wf (measure (length :: string \<Rightarrow> nat))" by simp
next
  fix t :: string and start rest stop tail close
  assume "slice_from t start = Some rest" "slice_from rest stop = Some tail"
    "index_of ''>'' tail = Some close"
  moreover from this(3) have "close + 1 \<le> length tail" using index_of_Some by fastforce
  ultimately have "start + stop + close + 1 \<le> length t"
    by (auto simp: slice_from_def split: if_splits)
  then show "(take start t @ drop (start + stop + close + 1) t, t) \<in> measure length" by simp
qed

declare strip_tool_calls.simps [simp del]

definition is_usable_final_text :: "string \<Rightarrow> bool option" where
  "is_usable_final_text report =
     (let t = trim_space report
      in if t = [] then Some False
         else if \<not> contains_sub (to_lower t) ''<tool_call'' then Some True
         else map_option (\<lambda>r. trim_space r \<noteq> []) (strip_tool_calls t))"

lemma ascii_text_take [simp]: "ascii_text t \<Longrightarrow> ascii_text (take n t)"
  and ascii_text_drop [simp]: "ascii_text t \<Longrightarrow> ascii_text (drop n t)"
  and ascii_text_append [simp]: "ascii_text (t @ u) \<longleftrightarrow> ascii_text t \<and> ascii_text u"
  by (auto simp: ascii_text_def list_all_iff dest: in_set_takeD in_set_dropD)

lemma contains_sub_index: "contains_sub s t \<longleftrightarrow> index_of t s \<noteq> None"
  by (induction s) auto

lemma index_of_before: "index_of sub s = Some i \<Longrightarrow> sub \<noteq> [] \<Longrightarrow> index_of sub (take i s) = None"
proof (induction s arbitrary: i)
  case (Cons c cs)
  show ?case
  proof (cases "has_prefix (c # cs) sub")
    case True
    with Cons.prems show ?thesis by auto
  next
    case False
    with Cons.prems obtain j where j: "index_of sub cs = Some j" "i = Suc j" by (auto split: if_splits)
    have "\<not> has_prefix (c # take j cs) sub"
    proof
      assume "has_prefix (c # take j cs) sub"
      then obtain r where "c # take j cs = sub @ r" by (auto simp: has_prefix_iff)
      then have "c # cs = sub @ (r @ drop j cs)" by (metis append_Cons append_assoc append_take_drop_id)
      with False show False by (auto simp: has_prefix_iff)
    qed
    with Cons.IH [OF j(1)] Cons.prems(2) j(2) show ?thesis by simp
  qed
qed auto

lemma strip_ascii:
  "ascii_text t \<Longrightarrow> \<exists>r. strip_tool_calls t = Some r \<and> subseq r t \<and> ascii_text r
     \<and> index_of ''<tool_call'' (to_lower r) = None"
proof (induction t rule: strip_tool_calls.induct)
  case (1 t)
  have len: "length (to_lower u) = length u" if "ascii_text u" for u
    using that by (simp add: to_lower_ascii)
  show ?case
  proof (cases "index_of ''<tool_call'' (to_lower t)")
    case None
    then show ?thesis using 1(2) by (subst strip_tool_calls.simps) simp
  next
    case (Some start)
    then have st: "start \<le> length t" using index_of_Some [OF Some] len [OF 1(2)] by simp
    then have s1: "slice_from t start = Some (drop start t)" by (simp add: slice_from_def)
    have cut: "slice_to t start = Some (take start t)" using st by (simp add: slice_to_def)
    have low: "to_lower (take start t) = take start (to_lower t)"
      using 1(2) by (simp add: to_lower_ascii take_map)
    have done_here: "subseq (take start t) t \<and> ascii_text (take start t)
        \<and> index_of ''<tool_call'' (to_lower (take start t)) = None"
      using index_of_before [OF Some] 1(2) by (simp add: low sublist_imp_subseq)
    show ?thesis
    proof (cases "index_of ''</tool_call'' (to_lower (drop start t))")
      case None
      then show ?thesis using Some s1 cut done_here by (subst strip_tool_calls.simps) simp
    next
      case (Some stop)
      note stop = this
      then have "stop \<le> length (drop start t)"
        using index_of_Some [OF Some] len [of "drop start t"] 1(2) by simp
      then have s2: "slice_from (drop start t) stop = Some (drop stop (drop start t))"
        by (simp add: slice_from_def)
      show ?thesis
      proof (cases "index_of ''>'' (drop stop (drop start t))")
        case None
        then show ?thesis
          using \<open>index_of ''<tool_call'' _ = _\<close> s1 cut done_here stop s2
          by (subst strip_tool_calls.simps) (simp del: drop_drop)
      next
        case (Some close)
        let ?u = "take start t @ drop (start + stop + close + 1) t"
        have "subseq (drop (start + stop + close + 1) t) (drop start t)"
          using sublist_drop [of "stop + close + 1" "drop start t"]
          by (simp add: sublist_imp_subseq ac_simps)
        then have sub: "subseq ?u t"
          by (metis append_take_drop_id list_emb_append_mono subseq_order.refl)
        have "\<exists>r. strip_tool_calls ?u = Some r \<and> subseq r ?u \<and> ascii_text r
            \<and> index_of ''<tool_call'' (to_lower r) = None"
          using 1(1) [OF \<open>index_of ''<tool_call'' _ = _\<close> s1 stop s2 Some] 1(2) by simp
        then show ?thesis
          using \<open>index_of ''<tool_call'' _ = _\<close> s1 stop s2 Some sub subseq_order.trans
          by (subst strip_tool_calls.simps) (simp del: drop_drop, blast)
      qed
    qed
  qed
qed

lemma trim_space_ascii_part:
  assumes "ascii_text s"
  shows "ascii_text (trim_space s)" and "subseq (trim_space s) s"
proof -
  have "sublist (rev (dropWhile ascii_space (rev u))) u" for u
    using suffix_dropWhile [of ascii_space "rev u"] by (simp add: suffix_to_prefix prefix_imp_sublist)
  moreover have "sublist (dropWhile ascii_space s) s"
    by (simp add: suffix_dropWhile suffix_imp_sublist)
  ultimately have "subseq (rev (dropWhile ascii_space (rev (dropWhile ascii_space s)))) s"
    using sublist_imp_subseq subseq_order.trans by blast
  then show "subseq (trim_space s) s" using assms by (simp add: trim_space_ascii)
  show "ascii_text (trim_space s)"
    using assms by (simp add: trim_space_ascii) (auto simp: ascii_text_def list_all_iff dest!: set_dropWhileD)
qed

text \<open>
  For an ASCII answer the check ends without a panic. It judges what is left of the answer
  once the textual tool calls are gone: a part of it without any opening tag, and the answer is
  usable exactly if that part is not blank.
\<close>

theorem usable_text_decides:
  assumes "ascii_text answer"
  shows "\<exists>r. is_usable_final_text answer = Some (trim_space r \<noteq> []) \<and> subseq r answer
    \<and> \<not> contains_sub (to_lower r) ''<tool_call''"
proof -
  let ?t = "trim_space answer"
  have t: "ascii_text ?t" "subseq ?t answer"
    using assms trim_space_ascii_part by auto
  then obtain r where r: "strip_tool_calls ?t = Some r" "subseq r ?t"
      "index_of ''<tool_call'' (to_lower r) = None"
    using strip_ascii by blast
  show ?thesis
  proof (cases "contains_sub (to_lower ?t) ''<tool_call''")
    case True
    then have "?t \<noteq> []" by (auto simp: to_lower_def)
    with True r t(2) show ?thesis
      using subseq_order.trans by (auto simp: is_usable_final_text_def Let_def contains_sub_index)
  next
    case False
    then show ?thesis using t(2)
      by (intro exI [of _ ?t]) (auto simp: is_usable_final_text_def Let_def trim_space_idem)
  qed
qed

theorem usable_text_decides_witness:
  "is_usable_final_text ''<tool_call>ls</tool_call> ok'' = Some True
   \<and> (\<exists>r. is_usable_final_text ''<tool_call>ls</tool_call> ok'' = Some (trim_space r \<noteq> [])
        \<and> subseq r ''<tool_call>ls</tool_call> ok'' \<and> \<not> contains_sub (to_lower r) ''<tool_call'')"
proof
  show "is_usable_final_text ''<tool_call>ls</tool_call> ok'' = Some True" by code_simp
  show "\<exists>r. is_usable_final_text ''<tool_call>ls</tool_call> ok'' = Some (trim_space r \<noteq> [])
        \<and> subseq r ''<tool_call>ls</tool_call> ok'' \<and> \<not> contains_sub (to_lower r) ''<tool_call''"
    by (rule usable_text_decides) code_simp
qed

text \<open>The letter U+023A, whose lower case U+2C65 takes three bytes instead of two.\<close>

definition growing_letter :: string where "growing_letter = [CHR 0xC8, CHR 0xBA]"
definition grown_letter :: string where "grown_letter = [CHR 0xE2, CHR 0xB1, CHR 0xA5]"

lemma growing_rune: "runes (growing_letter @ s) = growing_letter # runes s"
  by (subst runes.simps) (simp add: growing_letter_def rune_width_def byte_in_def)

lemma growing_runes:
  "runes (concat (replicate n growing_letter) @ s) = replicate n growing_letter @ runes s"
  by (induction n) (simp_all add: growing_rune)

lemma lower_growing: "lower_rune growing_letter = grown_letter"
  by code_simp

lemma index_after_grown:
  assumes "hd sub = CHR 0x3C" "sub \<noteq> []"
  shows "index_of sub (concat (replicate n grown_letter) @ s) = map_option ((+) (3 * n)) (index_of sub s)"
proof -
  have miss: "\<not> has_prefix (c # t) sub" if "c \<noteq> CHR 0x3C" for c t
    using assms that by (cases sub) (auto simp: has_prefix_iff)
  show ?thesis
    by (induction n)
       (auto simp: grown_letter_def miss option.map_comp comp_def option.map_ident intro!: map_option_cong)
qed

text \<open>
  An answer with at least twelve letters whose lower case is longer (U+023A) before a tool
  call tag makes the check panic: the tag's position in the lowered answer lies beyond the
  answer's end.
\<close>

theorem usable_text_panics:
  assumes "12 \<le> n"
  shows "is_usable_final_text (concat (replicate n growing_letter) @ ''<tool_call>'') = None"
proof -
  let ?t = "concat (replicate n growing_letter) @ ''<tool_call>''"
  have tag: "runes ''<tool_call>'' = map (\<lambda>c. [c]) ''<tool_call>''"
    by (rule runes_ascii) code_simp
  have not_space: "\<not> is_space_rune growing_letter" by code_simp
  have "dropWhile is_space_rune (replicate n growing_letter @ xs) = replicate n growing_letter @ xs" for xs
    using assms not_space by (cases n) auto
  moreover have "\<not> is_space_rune [CHR 0x3E]" by code_simp
  ultimately have trimmed: "trim_space ?t = ?t"
    by (simp add: trim_space_def growing_runes tag)
  have low: "to_lower ?t = concat (replicate n grown_letter) @ ''<tool_call>''"
    using to_lower_ascii [of "''<tool_call>''"]
    by (simp add: to_lower_def growing_runes tag lower_growing map_replicate) code_simp
  have at_tag: "index_of ''<tool_call'' (to_lower ?t) = Some (3 * n)"
    unfolding low by (subst index_after_grown) (simp_all add: has_prefix_def)
  have "length ?t = 2 * n + 11" by (simp add: length_concat growing_letter_def sum_list_replicate)
  then have "slice_from ?t (3 * n) = None" using assms by (simp add: slice_from_def)
  then have "strip_tool_calls ?t = None"
    using at_tag by (subst strip_tool_calls.simps) simp
  then show ?thesis
    using trimmed at_tag by (simp add: is_usable_final_text_def contains_sub_index)
qed

theorem usable_text_panics_witness:
  "is_usable_final_text (concat (replicate 12 growing_letter) @ ''<tool_call>'') = None"
  by (rule usable_text_panics) simp

subsection \<open>To-do context\<close>

definition todo_rank :: "string \<Rightarrow> nat" where
  "todo_rank status =
     (if status = ''in_progress'' then 0 else if status = ''pending'' then 1
      else if status = ''completed'' then 2 else if status = ''cancelled'' then 3 else 9)"

text \<open>
  The two loops of \<^verbatim>\<open>sortTodoItemsOpenFirst\<close>. The inner one compares the item at \<open>i\<close> with each
  later one and swaps them when the later one ranks lower, so the old item ends up in the place
  of the later one.
\<close>

fun exchange_inner :: "('a \<Rightarrow> nat) \<Rightarrow> 'a \<Rightarrow> 'a list \<Rightarrow> 'a \<times> 'a list" where
  "exchange_inner rank x [] = (x, [])"
| "exchange_inner rank x (y # ys) =
     (if rank y < rank x then (case exchange_inner rank y ys of (m, r) \<Rightarrow> (m, x # r))
      else (case exchange_inner rank x ys of (m, r) \<Rightarrow> (m, y # r)))"

lemma exchange_inner_length: "length (snd (exchange_inner rank x ys)) = length ys"
  by (induction ys arbitrary: x) (auto split: prod.splits, metis snd_conv, metis snd_conv)

function exchange_sort :: "('a \<Rightarrow> nat) \<Rightarrow> 'a list \<Rightarrow> 'a list" where
  "exchange_sort rank [] = []"
| "exchange_sort rank (x # xs) =
     (case exchange_inner rank x xs of (m, r) \<Rightarrow> m # exchange_sort rank r)"
  by pat_completeness auto
termination
  by (relation "measure (length \<circ> snd)") (auto dest: arg_cong [where f = "length \<circ> snd"] simp: exchange_inner_length)

definition sort_todo_items_open_first :: "todo_dto list \<Rightarrow> todo_dto list" where
  "sort_todo_items_open_first = exchange_sort (todo_rank \<circ> dto_status)"

lemma exchange_inner_min:
  "exchange_inner rank x ys = (m, r) \<Longrightarrow>
     mset (m # r) = mset (x # ys) \<and> (\<forall>y \<in> set (x # ys). rank m \<le> rank y)"
proof (induction ys arbitrary: x m r)
  case (Cons y ys)
  show ?case
  proof (cases "rank y < rank x")
    case True
    then obtain r' where r': "exchange_inner rank y ys = (m, r')" "r = x # r'"
      using Cons.prems by (auto split: prod.splits)
    then show ?thesis using Cons.IH [OF r'(1)] True by auto
  next
    case False
    then obtain r' where r': "exchange_inner rank x ys = (m, r')" "r = y # r'"
      using Cons.prems by (auto split: prod.splits)
    then show ?thesis using Cons.IH [OF r'(1)] False by auto
  qed
qed auto

lemma exchange_sort_correct:
  "mset (exchange_sort rank xs) = mset xs \<and> sorted (map rank (exchange_sort rank xs))"
proof (induction rank xs rule: exchange_sort.induct)
  case (2 rank x xs)
  obtain m r where m: "exchange_inner rank x xs = (m, r)" by fastforce
  note ih = 2 [OF m [symmetric]]
  have "set (exchange_sort rank r) = set r" using ih by (metis set_mset_mset)
  moreover have "set r \<subseteq> set (x # xs)"
    using exchange_inner_min [OF m] by (metis set_mset_mset set_subset_Cons)
  ultimately show ?case using ih exchange_inner_min [OF m] m by (auto simp: Ball_def)
qed simp

text \<open>\<^verbatim>\<open>formatTodoContext\<close>: one line for each item, until 3000 bytes are reached.\<close>

definition rt_todo_context_header :: string where
  "rt_todo_context_header =
     ''Current session task list (update via todo.write when progress changes; keep one in_progress):''
     @ [CHR 0x0A]"

definition todo_context_line :: "todo_dto \<Rightarrow> string" where
  "todo_context_line item =
     (let key = (if dto_client_key item = [] then dto_id item else dto_client_key item);
          line = ''- ['' @ dto_status item @ ''] '' @ dto_content item @ '' ('' @ key @ '')''
      in if rune_count line > 200 then encode_runes (take 199 (runes line)) @ ellipsis else line)"

fun todo_context_lines :: "nat \<Rightarrow> todo_dto list \<Rightarrow> (string \<times> todo_dto) list" where
  "todo_context_lines used [] = []"
| "todo_context_lines used (item # items) =
     (let line = todo_context_line item
      in if used + length line + 1 > 3000 then []
         else (line, item) # todo_context_lines (used + length line + 1) items)"

record runtime_todo_context =
  tx_items :: "todo_dto list"
  tx_context :: string

definition rt_format_todo_context :: "todo_dto list \<Rightarrow> runtime_todo_context option" where
  "rt_format_todo_context items =
     (let kept = todo_context_lines (length rt_todo_context_header) (sort_todo_items_open_first items)
      in if kept = [] then None
         else Some \<lparr>tx_items = map snd kept,
                tx_context = rt_todo_context_header @ join_with [CHR 0x0A] (map fst kept)\<rparr>)"

definition todo_context_for_run :: "todo_dto list \<Rightarrow> runtime_todo_context option" where
  "todo_context_for_run items = (if items = [] then None else rt_format_todo_context items)"

definition todo_status_counts :: "todo_dto list \<Rightarrow> nat \<times> nat \<times> nat" where
  "todo_status_counts items = (count_open items, count_status ''completed'' items,
     count_status ''cancelled'' items)"

lemma todo_context_lines_prefix: "\<exists>rest. items = map snd (todo_context_lines used items) @ rest"
  by (induction used items rule: todo_context_lines.induct) (auto simp: Let_def)

lemma todo_context_lines_bounded:
  "todo_context_lines used items \<noteq> [] \<Longrightarrow>
     used + length (join_with [CHR 0x0A] (map fst (todo_context_lines used items))) < 3000"
proof (induction used items rule: todo_context_lines.induct)
  case (2 used item items)
  let ?line = "todo_context_line item"
  from 2(2) have fits: "used + length ?line + 1 \<le> 3000" by (auto simp: Let_def split: if_splits)
  show ?case
  proof (cases "todo_context_lines (used + length ?line + 1) items")
    case Nil
    with fits show ?thesis by (simp add: Let_def)
  next
    case (Cons p ps)
    with 2(1) [OF refl] fits show ?thesis by (simp add: Let_def)
  qed
qed simp

text \<open>
  The to-do context of a turn lists the items open first (in progress, pending, completed,
  cancelled): it shows a first part of some such order of all items, and stays below 3000 bytes.
\<close>

theorem todo_context_open_first:
  "case todo_context_for_run items of
     None \<Rightarrow> items = [] \<or> length rt_todo_context_header + length (todo_context_line
        (hd (sort_todo_items_open_first items))) + 1 > 3000
   | Some c \<Rightarrow>
       (\<exists>rest. mset (tx_items c @ rest) = mset items
          \<and> sorted (map (todo_rank \<circ> dto_status) (tx_items c @ rest)))
       \<and> length (tx_context c) < 3000"
proof -
  let ?s = "sort_todo_items_open_first items"
  let ?l = "todo_context_lines (length rt_todo_context_header) ?s"
  obtain rest where rest: "?s = map snd ?l @ rest" using todo_context_lines_prefix by blast
  have sorted: "mset ?s = mset items" "sorted (map (todo_rank \<circ> dto_status) ?s)"
    using exchange_sort_correct [of "todo_rank \<circ> dto_status" items]
    by (simp_all only: sort_todo_items_open_first_def)
  show ?thesis
  proof (cases "items = [] \<or> ?l = []")
    case True
    have "items \<noteq> [] \<Longrightarrow> ?s \<noteq> []" using sorted(1) by auto
    then show ?thesis
      using True by (cases ?s) (auto simp: todo_context_for_run_def rt_format_todo_context_def Let_def split: if_splits)
  next
    case False
    have "length (rt_todo_context_header @ join_with [CHR 0x0A] (map fst ?l)) < 3000"
      using todo_context_lines_bounded [of "length rt_todo_context_header" ?s] False by simp
    moreover have "mset (map snd ?l @ rest) = mset items"
      "sorted (map (todo_rank \<circ> dto_status) (map snd ?l @ rest))"
      using sorted unfolding rest [symmetric] .
    ultimately show ?thesis
      using False by (auto simp: todo_context_for_run_def rt_format_todo_context_def Let_def)
  qed
qed

text \<open>
  The order within one status is not kept: one item in progress after two pending ones makes
  the two pending ones change places.
\<close>

theorem todo_context_swaps_pending:
  assumes "dto_status a = ''pending''" "dto_status b = ''pending''" "dto_status c = ''in_progress''"
  shows "sort_todo_items_open_first [a, b, c] = [c, b, a]"
  using assms by (simp add: sort_todo_items_open_first_def todo_rank_def)

theorem todo_context_swaps_pending_witness:
  "let item = (\<lambda>i st. \<lparr>dto_id = i, dto_client_key = [], dto_content = i, dto_status = st,
      dto_sort_order = 0, dto_priority = [], dto_active_form = []\<rparr>)
   in map dto_id (sort_todo_items_open_first
        [item ''1'' ''pending'', item ''2'' ''pending'', item ''3'' ''in_progress'']) = [''3'', ''2'', ''1'']"
  by (simp add: todo_context_swaps_pending Let_def)

subsection \<open>Goal context\<close>

fun first_positive :: "int list \<Rightarrow> int" where
  "first_positive [] = 0"
| "first_positive (v # vs) = (if v > 0 then v else first_positive vs)"

fun rt_first_non_blank :: "string list \<Rightarrow> string" where
  "rt_first_non_blank [] = []"
| "rt_first_non_blank (v # vs) = (if trim_space v \<noteq> [] then v else rt_first_non_blank vs)"

record reply_goal_context =
  gc_goal_id :: string
  gc_title :: string
  gc_objective :: string
  gc_success_criteria :: string
  gc_status :: string
  gc_pipeline_phase :: string
  gc_analysis_summary :: string
  gc_checkpoint_summary :: string
  gc_progress_note :: string
  gc_used_tool_turns :: int
  gc_max_total_tool_turns :: int
  gc_used_segments :: int
  gc_max_segments_per_run :: int
  gc_max_tool_turns_seg :: int
  gc_used_wall_time_sec :: int
  gc_max_wall_time_sec :: int
  gc_context :: string

text \<open>
  The goal as a run knows it (\<^verbatim>\<open>methods.GoalDTO\<close>). The status is text here: it comes over the
  wire, and a seeded goal takes it from the options.
\<close>

record loop_goal =
  lg_id :: string
  lg_session_id :: string
  lg_title :: string
  lg_objective :: string
  lg_success_criteria :: string
  lg_status :: string
  lg_pipeline_phase :: string
  lg_fail_reason :: string
  lg_analysis_summary :: string
  lg_checkpoint_summary :: string
  lg_progress_note :: string
  lg_used_tool_turns :: int
  lg_max_total_tool_turns :: int
  lg_used_segments :: int
  lg_max_segments_per_run :: int
  lg_max_tool_turns_seg :: int
  lg_used_wall_time_sec :: int
  lg_max_wall_time_sec :: int

definition loop_goal_of :: "goal_dto \<Rightarrow> loop_goal" where
  "loop_goal_of g =
     \<lparr>lg_id = gd_id g, lg_session_id = gd_session_id g, lg_title = gd_title g,
      lg_objective = gd_objective g, lg_success_criteria = gd_success_criteria g,
      lg_status = goal_status_text (gd_status g), lg_pipeline_phase = gd_pipeline_phase g,
      lg_fail_reason = gd_fail_reason g, lg_analysis_summary = gd_analysis_summary g,
      lg_checkpoint_summary = gd_checkpoint_summary g, lg_progress_note = gd_progress_note g,
      lg_used_tool_turns = gd_used_tool_turns g, lg_max_total_tool_turns = gd_max_total_tool_turns g,
      lg_used_segments = gd_used_segments g, lg_max_segments_per_run = gd_max_segments_per_run g,
      lg_max_tool_turns_seg = gd_max_tool_turns_seg g, lg_used_wall_time_sec = gd_used_wall_time_sec g,
      lg_max_wall_time_sec = gd_max_wall_time_sec g\<rparr>"

definition format_loop_goal :: "loop_goal \<Rightarrow> string" where
  "format_loop_goal g =
     (let line = (\<lambda>t. t @ [CHR 0x0A])
      in line ''Active goal (update via goal.checkpoint / goal.complete; steps via todo.write):''
         @ line (''- id: '' @ lg_id g)
         @ line (''- status: '' @ lg_status g @ '' phase: '' @ lg_pipeline_phase g)
         @ line (''- objective: '' @ lg_objective g)
         @ (if lg_success_criteria g \<noteq> []
            then line (''- success_criteria: '' @ lg_success_criteria g) else [])
         @ (if lg_checkpoint_summary g \<noteq> []
            then line (''- checkpoint: '' @ lg_checkpoint_summary g) else [])
         @ line (''- budget: '' @ int_dec (lg_used_tool_turns g) @ ''/''
             @ int_dec (lg_max_total_tool_turns g) @ '' root tool turns, segments used ''
             @ int_dec (lg_used_segments g) @ '' (max '' @ int_dec (lg_max_segments_per_run g)
             @ ''/run)''))"

definition goal_to_context :: "loop_goal \<Rightarrow> reply_goal_context" where
  "goal_to_context g =
     \<lparr>gc_goal_id = lg_id g, gc_title = lg_title g, gc_objective = lg_objective g,
      gc_success_criteria = lg_success_criteria g, gc_status = lg_status g,
      gc_pipeline_phase = lg_pipeline_phase g, gc_analysis_summary = lg_analysis_summary g,
      gc_checkpoint_summary = lg_checkpoint_summary g, gc_progress_note = lg_progress_note g,
      gc_used_tool_turns = lg_used_tool_turns g, gc_max_total_tool_turns = lg_max_total_tool_turns g,
      gc_used_segments = lg_used_segments g, gc_max_segments_per_run = lg_max_segments_per_run g,
      gc_max_tool_turns_seg = lg_max_tool_turns_seg g, gc_used_wall_time_sec = lg_used_wall_time_sec g,
      gc_max_wall_time_sec = lg_max_wall_time_sec g, gc_context = format_loop_goal g\<rparr>"

definition default_goal_max_segments_per_run :: int where "default_goal_max_segments_per_run = 4"

text \<open>\<^verbatim>\<open>goalRunSegmentLimit\<close>: how many segments a run may have in all.\<close>

definition goal_run_segment_limit :: "loop_goal \<Rightarrow> int \<Rightarrow> int" where
  "goal_run_segment_limit g completed =
     (let limit = first_positive [lg_max_segments_per_run g, default_goal_max_segments_per_run];
          remaining = lg_max_total_tool_turns g - lg_used_tool_turns g
      in if lg_max_total_tool_turns g \<le> 0 \<or> remaining \<le> 0 then limit
         else let per_segment = first_positive [lg_max_tool_turns_seg g, 1];
                  needed = (remaining + per_segment - 1) div per_segment;
                  want = completed + needed
              in if want > limit then want else limit)"

subsection \<open>Tool history\<close>

record tool_exchange =
  te_call :: tool_call
  te_result :: tool_result

definition flatten_tool_rounds :: "tool_exchange list list \<Rightarrow> tool_exchange list" where
  "flatten_tool_rounds rounds = concat rounds"

definition carry_summarized_k :: int where "carry_summarized_k = 6"
definition carry_summarized_max_runes :: int where "carry_summarized_max_runes = 500"

definition carry_output :: "int \<Rightarrow> string \<Rightarrow> string" where
  "carry_output max_runes out =
     (if int (length out) > max_runes \<and> int (rune_count out) > max_runes
      then encode_runes (take (nat max_runes) (runes out)) @ ellipsis else out)"

definition carry_summarized_history :: "tool_exchange list \<Rightarrow> int \<Rightarrow> int \<Rightarrow> tool_exchange list" where
  "carry_summarized_history history k max_runes0 =
     (if k \<le> 0 \<or> history = [] then []
      else let max_runes = (if max_runes0 \<le> 0 then 500 else max_runes0);
               start = (if int (length history) > k then length history - nat k else 0)
           in map (\<lambda>ex. ex\<lparr>te_result := (te_result ex)\<lparr>tr_output :=
                        carry_output max_runes (tr_output (te_result ex))\<rparr>\<rparr>)
                (drop start history))"

text \<open>\<^verbatim>\<open>goalContinuationPrompt\<close>; \<open>reason\<close> is the text of the end reason.\<close>

definition goal_continuation_prompt :: "string \<Rightarrow> loop_goal option \<Rightarrow> int \<Rightarrow> string \<Rightarrow> string" where
  "goal_continuation_prompt original goal next_seg reason =
     original @ [CHR 0x0A, CHR 0x0A] @ ''[System] Goal segment boundary reached ('' @ reason
     @ ''). Continuing segment '' @ int_dec (next_seg + 1) @ '' for the active goal. ''
     @ ''Do not claim the goal is finished without goal.complete after evaluation. ''
     @ ''Continue execute/verify for the current todo step, or advance todos, then checkpoint.''
     @ [CHR 0x0A]
     @ (case goal of None \<Rightarrow> []
        | Some g \<Rightarrow>
            (if lg_checkpoint_summary g \<noteq> []
             then ''Last checkpoint: '' @ lg_checkpoint_summary g @ [CHR 0x0A] else [])
            @ (if lg_objective g \<noteq> [] then ''Objective: '' @ lg_objective g @ [CHR 0x0A] else []))"

end
