(* ===== verification/Tool_Results.thy ===== *)
theory Tool_Results
  imports Run_Context
begin

text \<open>
  The envelope every tool result is put into (\<^verbatim>\<open>runtime/tool_result.go\<close>), the text the model gets
  of it, and the answers the runtime composes from tool results itself when the model gives none
  (\<^verbatim>\<open>synthesizeToolAnswer\<close> and its helpers in \<^verbatim>\<open>runtime/runtime.go\<close>). A run-time panic is \<open>None\<close>.
\<close>

subsection \<open>Envelopes\<close>

record result_meta =
  rm_duration_ms :: int
  rm_truncated :: bool
  rm_original_bytes :: int
  rm_content_type :: string
  rm_note :: string

record standard_result =
  sr_schema :: string
  sr_tool :: string
  sr_status :: string
  sr_ok :: bool
  sr_text :: string
  sr_data :: go_value
  sr_error :: string
  sr_meta :: result_meta

text \<open>
  What is used of \<^verbatim>\<open>encoding/json\<close> and of the allocator: reading an envelope or any value,
  writing them, and the capacity a slice of so many runes gets.
\<close>

record go_library =
  js_read_result :: "string \<Rightarrow> standard_result option"
  js_read_any :: "string \<Rightarrow> go_value option"
  js_write_result :: "standard_result \<Rightarrow> string"
  js_write_any :: "go_value \<Rightarrow> string"
  rune_capacity :: "nat \<Rightarrow> nat"

definition tool_result_schema :: string where
  "tool_result_schema = ''red_panda.tool_result.v1''"

definition envelope_output_bytes :: int where "envelope_output_bytes = 65536"
definition max_tool_result_for_model :: int where "max_tool_result_for_model = 16384"

definition truncation_note :: "bool \<Rightarrow> int \<Rightarrow> string" where
  "truncation_note truncated original =
     (if \<not> truncated then []
      else ''payload truncated for transport; original_bytes='' @ int_dec original)"

definition parse_standard_tool_result :: "go_library \<Rightarrow> string \<Rightarrow> standard_result option" where
  "parse_standard_tool_result L raw0 =
     (let raw = trim_space raw0
      in if raw = [] \<or> \<not> has_prefix raw ''{'' then None
         else case js_read_result L raw of
                None \<Rightarrow> None
              | Some env \<Rightarrow>
                  if sr_schema env \<noteq> tool_result_schema \<or> sr_tool env = [] then None else Some env)"

definition marshal_tool_result :: "go_library \<Rightarrow> standard_result \<Rightarrow> string" where
  "marshal_tool_result L env =
     js_write_result L (if sr_schema env = [] then env\<lparr>sr_schema := tool_result_schema\<rparr> else env)"

subsection \<open>Readable text\<close>

text \<open>\<^verbatim>\<open>strings.Fields\<close>.\<close>

fun field_runes :: "string \<Rightarrow> string list \<Rightarrow> string list" where
  "field_runes acc [] = (if acc = [] then [] else [acc])"
| "field_runes acc (r # rs) =
     (if is_space_rune r then (if acc = [] then field_runes [] rs else acc # field_runes [] rs)
      else field_runes (acc @ r) rs)"

definition fields :: "string \<Rightarrow> string list" where
  "fields s = field_runes [] (runes s)"

definition valid_utf8 :: "string \<Rightarrow> bool" where
  "valid_utf8 s = list_all (\<lambda>r. rune_width r \<noteq> 0) (runes s)"

text \<open>
  The slice of the first \<open>n\<close> runes. A slice reaches up to the capacity: the runes between the
  length and the capacity are zero, and beyond it the program panics.
\<close>

definition rune_slice :: "go_library \<Rightarrow> string \<Rightarrow> nat \<Rightarrow> string option" where
  "rune_slice L v n =
     (if n \<le> max (rune_count v) (rune_capacity L (rune_count v))
      then Some (encode_runes (take n (runes v)) @ replicate (n - rune_count v) (CHR 0x00))
      else None)"

definition compact_one_line :: "go_library \<Rightarrow> string \<Rightarrow> nat \<Rightarrow> string option" where
  "compact_one_line L value limit =
     (let v = join_with [CHR 0x20] (fields value)
      in if limit = 0 \<or> length v \<le> limit then Some v
         else if 1 < limit \<and> valid_utf8 (take limit v) then Some (take limit v @ ellipsis)
         else map_option (\<lambda>p. p @ ellipsis) (rune_slice L v limit))"

text \<open>The first of the given keys that holds a text.\<close>

fun text_of_keys :: "go_map \<Rightarrow> string list \<Rightarrow> string option" where
  "text_of_keys m [] = None"
| "text_of_keys m (k # ks) =
     (if trim_space (string_arg m k) \<noteq> [] then Some (trim_space (string_arg m k))
      else text_of_keys m ks)"

text \<open>The numbered sources; the first argument writes one item.\<close>

fun source_lines :: "(nat \<Rightarrow> go_map \<Rightarrow> string option) \<Rightarrow> nat \<Rightarrow> go_value list \<Rightarrow> string option" where
  "source_lines write i [] = Some []"
| "source_lines write i (v # vs) =
     (case v of
        GMap m \<Rightarrow>
          (case write i m of
             None \<Rightarrow> None
           | Some t \<Rightarrow> map_option ((@) t) (source_lines write (Suc i) vs))
      | _ \<Rightarrow> source_lines write (Suc i) vs)"

definition readable_source :: "go_library \<Rightarrow> nat \<Rightarrow> go_map \<Rightarrow> string option" where
  "readable_source L i m =
     (let title = string_arg m ''title''; url = string_arg m ''url'';
          snippet = string_arg m ''snippet''; newline = [CHR 0x0A]
      in if title = [] \<and> url = [] then Some []
         else let start = nat_digits (i + 1) @ ''. '' @ trim_space title @ newline
                @ (if url \<noteq> [] then ''   '' @ url @ newline else [])
              in if snippet = [] then Some start
                 else map_option (\<lambda>s. start @ ''   '' @ s @ newline) (compact_one_line L snippet 200))"

definition list_arg :: "go_map \<Rightarrow> string \<Rightarrow> go_value list" where
  "list_arg m k = (case map_of m k of Some (GList vs) \<Rightarrow> vs | _ \<Rightarrow> [])"

definition prefer_readable_text :: "go_library \<Rightarrow> go_value \<Rightarrow> string \<Rightarrow> string option" where
  "prefer_readable_text L data fallback =
     (case data of
        GStr s \<Rightarrow> Some s
      | GMap m \<Rightarrow>
          (case text_of_keys m
                  [''text'', ''answer'', ''content'', ''output'', ''message'', ''summary''] of
             Some t \<Rightarrow> Some t
           | None \<Rightarrow>
               (let items = list_arg m ''items''; as_json = js_write_any L (GMap m)
                in if items = [] then Some as_json
                   else map_option (\<lambda>out. if trim_space out \<noteq> [] then trim_space out else as_json)
                          (source_lines (readable_source L) 0 (take 8 items))))
      | _ \<Rightarrow> Some fallback)"

text \<open>
  The branch of \<^verbatim>\<open>preferReadableText\<close> that repeats the answer above the items is dead: \<open>answer\<close> is
  one of the keys tried before. It is not repeated here.
\<close>

subsection \<open>Making an envelope\<close>

definition cut_output :: "string \<Rightarrow> string" where
  "cut_output t =
     (if int (length t) > envelope_output_bytes
      then take (nat envelope_output_bytes) t @ [CHR 0x0A] @ ellipsis @ ''[truncated]'' else t)"

definition standardize_tool_output ::
  "go_library \<Rightarrow> string \<Rightarrow> string \<Rightarrow> string option \<Rightarrow> int \<Rightarrow> string option" where
  "standardize_tool_output L tool raw0 err duration =
     (case parse_standard_tool_result L raw0 of
        Some env0 \<Rightarrow>
          (let env1 = (if rm_duration_ms (sr_meta env0) = 0 \<and> duration > 0
                       then env0\<lparr>sr_meta := (sr_meta env0)\<lparr>rm_duration_ms := duration\<rparr>\<rparr> else env0)
           in Some (marshal_tool_result L
                (case err of
                   Some e \<Rightarrow> if sr_error env1 = []
                             then env1\<lparr>sr_error := e, sr_ok := False, sr_status := ''failed''\<rparr> else env1
                 | None \<Rightarrow> env1)))
      | None \<Rightarrow>
          (case err of
             Some e \<Rightarrow>
               Some (marshal_tool_result L
                 \<lparr>sr_schema = tool_result_schema, sr_tool = tool, sr_status = ''failed'', sr_ok = False,
                  sr_text = trim_space e, sr_data = GMap [(''raw'', GStr (trim_space raw0))],
                  sr_error = trim_space e,
                  sr_meta = \<lparr>rm_duration_ms = duration, rm_truncated = False, rm_original_bytes = 0,
                    rm_content_type = [], rm_note = ''standardized failure envelope''\<rparr>\<rparr>)
           | None \<Rightarrow>
               (let raw = trim_space raw0;
                    original = int (length raw);
                    truncated = original > envelope_output_bytes;
                    finish = (\<lambda>data text1.
                      marshal_tool_result L
                        \<lparr>sr_schema = tool_result_schema, sr_tool = tool, sr_status = ''completed'',
                         sr_ok = True, sr_text = (if truncated then cut_output text1 else text1),
                         sr_data = (case data of
                            GStr s \<Rightarrow> GStr (if truncated then take (nat envelope_output_bytes) s else s)
                          | _ \<Rightarrow> data),
                         sr_error = [],
                         sr_meta = \<lparr>rm_duration_ms = duration, rm_truncated = truncated,
                           rm_original_bytes = original, rm_content_type = [],
                           rm_note = truncation_note truncated original\<rparr>\<rparr>)
                in if raw = [] then Some (finish (GMap []) [])
                   else case js_read_any L raw of
                          None \<Rightarrow> Some (finish GNil raw)
                        | Some data \<Rightarrow> map_option (finish data) (prefer_readable_text L data raw))))"

subsection \<open>What the model sees\<close>

definition rune_start :: "char \<Rightarrow> bool" where
  "rune_start c \<longleftrightarrow> \<not> byte_in 0x80 0xBF c"

text \<open>The loop that moves the cut back to the start of a rune, or to zero.\<close>

fun back_to_rune :: "string \<Rightarrow> nat \<Rightarrow> nat" where
  "back_to_rune s 0 = 0"
| "back_to_rune s (Suc n) = (if rune_start (s ! Suc n) then Suc n else back_to_rune s n)"

definition trim_to_bytes :: "string \<Rightarrow> nat \<Rightarrow> string" where
  "trim_to_bytes value limit =
     (if limit = 0 \<or> length value \<le> limit then value
      else if limit < 4 then take limit value
      else let cut = back_to_rune value (limit - 1)
           in take (if cut = 0 then limit else cut) value @ ellipsis)"

definition legacy_envelope :: "tool_result \<Rightarrow> standard_result" where
  "legacy_envelope r =
     (let out = trim_space (tr_output r);
          raw = (if out = [] then trim_space (tr_error r) else out)
      in \<lparr>sr_schema = tool_result_schema, sr_tool = tr_name r, sr_status = tr_status r,
          sr_ok = (tr_status r = ''completed''), sr_text = raw,
          sr_data = GMap [(''content'', GStr raw)], sr_error = trim_space (tr_error r),
          sr_meta = \<lparr>rm_duration_ms = tr_duration_ms r, rm_truncated = False, rm_original_bytes = 0,
            rm_content_type = [], rm_note = ''legacy output wrapped for model''\<rparr>\<rparr>)"

text \<open>The second half of \<^verbatim>\<open>modelFacingToolContent\<close>: the envelope with the bounded text.\<close>

definition bounded_view :: "standard_result \<Rightarrow> string \<Rightarrow> standard_result" where
  "bounded_view env t0 =
     (let original = int (length t0);
          long = original > max_tool_result_for_model;
          t = (if long then trim_to_bytes t0 (nat max_tool_result_for_model) else t0);
          truncated = (rm_truncated (sr_meta env) \<or> long);
          meta1 = (sr_meta env)\<lparr>rm_truncated := truncated\<rparr>;
          meta2 = (if original > 0 then meta1\<lparr>rm_original_bytes := original\<rparr> else meta1);
          meta3 = (if truncated \<and> rm_note meta2 = []
                   then meta2\<lparr>rm_note := truncation_note True original\<rparr> else meta2)
      in env\<lparr>sr_text := t, sr_meta := meta3,
           sr_data := (if truncated \<and> sr_data env \<noteq> GNil
             then GMap [(''omitted'', GBool True),
               (''reason'', GStr ''size_limit_for_model_context''),
               (''original_bytes'', GInt original),
               (''full_output_in'', GStr ''tool_finished.event / UI tool card''),
               (''preview'', GStr t)]
             else sr_data env)\<rparr>)"

definition model_facing_envelope :: "go_library \<Rightarrow> tool_result \<Rightarrow> standard_result option" where
  "model_facing_envelope L r =
     (let env = (case parse_standard_tool_result L (tr_output r) of
                   Some env \<Rightarrow> env | None \<Rightarrow> legacy_envelope r);
          t1 = trim_space (sr_text env);
          t2 = (if t1 = [] then trim_space (sr_error env) else t1)
      in map_option (bounded_view env)
         (if t2 = [] \<and> sr_data env \<noteq> GNil then prefer_readable_text L (sr_data env) [] else Some t2))"

definition model_facing_tool_content :: "go_library \<Rightarrow> tool_result \<Rightarrow> string option" where
  "model_facing_tool_content L r = map_option (marshal_tool_result L) (model_facing_envelope L r)"

subsection \<open>Answers made of tool results\<close>

definition readable_tool_result_text :: "go_library \<Rightarrow> tool_result \<Rightarrow> string option" where
  "readable_tool_result_text L r =
     (case parse_standard_tool_result L (tr_output r) of
        Some env \<Rightarrow>
          if trim_space (sr_text env) \<noteq> [] then Some (trim_space (sr_text env))
          else if trim_space (sr_error env) \<noteq> [] then Some (trim_space (sr_error env))
          else if sr_data env \<noteq> GNil then prefer_readable_text L (sr_data env) []
          else Some (trim_space (tr_output r))
      | None \<Rightarrow> Some (trim_space (tr_output r)))"

definition search_source :: "go_library \<Rightarrow> nat \<Rightarrow> go_map \<Rightarrow> string option" where
  "search_source L i m =
     (let newline = [CHR 0x0A];
          start = nat_digits (i + 1) @ ''. '' @ trim_space (string_arg m ''title'') @ newline
            @ ''   '' @ trim_space (string_arg m ''url'') @ newline;
          snippet = trim_space (string_arg m ''snippet'')
      in if snippet = [] then Some start
         else map_option (\<lambda>s. start @ ''   '' @ s @ newline) (compact_one_line L snippet 160))"

definition sources_heading :: string where
  "sources_heading = utf8 [0xE5, 0x8F, 0x82, 0xE8, 0x80, 0x83, 0xE6, 0x9D, 0xA5, 0xE6, 0xBA, 0x90,
     0xEF, 0xBC, 0x9A, 0x0A]"

definition format_search_data :: "go_library \<Rightarrow> go_map \<Rightarrow> string option" where
  "format_search_data L m =
     (let answer = trim_space (string_arg m ''answer''); items = list_arg m ''items'';
          first = (if answer \<noteq> [] then answer @ [CHR 0x0A, CHR 0x0A] else [])
      in if answer = [] \<and> items = [] then Some []
         else if items = [] then Some (trim_space first)
         else map_option (\<lambda>t. trim_space (first @ sources_heading @ t))
                (source_lines (search_source L) 0 (take 5 items)))"

definition extract_search_answer :: "go_library \<Rightarrow> string \<Rightarrow> string option" where
  "extract_search_answer L raw =
     (let plain = (case js_read_any L raw of
                     Some (GMap m) \<Rightarrow> format_search_data L m
                   | Some GNil \<Rightarrow> format_search_data L []
                   | _ \<Rightarrow> Some [])
      in case parse_standard_tool_result L raw of
           None \<Rightarrow> plain
         | Some env \<Rightarrow>
             (let further = (if trim_space (sr_text env) \<noteq> [] then Some (trim_space (sr_text env))
                             else plain)
              in case sr_data env of
                   GMap m \<Rightarrow>
                     (case format_search_data L m of
                        None \<Rightarrow> None
                      | Some built \<Rightarrow> if built \<noteq> [] then Some built else further)
                 | _ \<Rightarrow> further))"

definition no_history_answer :: string where
  "no_history_answer = utf8 [0xE5, 0xB7, 0xA5, 0xE5, 0x85, 0xB7, 0xE5, 0xB7, 0xB2, 0xE6, 0x89, 0xA7,
     0xE8, 0xA1, 0x8C, 0xEF, 0xBC, 0x8C, 0xE4, 0xBD, 0x86, 0xE6, 0xA8, 0xA1, 0xE5, 0x9E, 0x8B, 0xE6,
     0x9C, 0xAA, 0xE7, 0x94, 0x9F, 0xE6, 0x88, 0x90, 0xE6, 0x9C, 0x80, 0xE7, 0xBB, 0x88, 0xE5, 0x9B,
     0x9E, 0xE5, 0xA4, 0x8D, 0xE3, 0x80, 0x82, 0xE8, 0xAF, 0xB7, 0xE9, 0x87, 0x8D, 0xE8, 0xAF, 0x95,
     0xE4, 0xB8, 0x80, 0xE6, 0xAC, 0xA1, 0xE3, 0x80, 0x82]"

definition results_heading :: string where
  "results_heading = utf8 [0xE6, 0xA0, 0xB9, 0xE6, 0x8D, 0xAE, 0xE5, 0xB7, 0xA5, 0xE5, 0x85, 0xB7,
     0xE6, 0x89, 0xA7, 0xE8, 0xA1, 0x8C, 0xE7, 0xBB, 0x93, 0xE6, 0x9E, 0x9C, 0xE6, 0x95, 0xB4, 0xE7,
     0x90, 0x86, 0xE5, 0xA6, 0x82, 0xE4, 0xB8, 0x8B, 0xEF, 0xBC, 0x9A, 0x0A, 0x0A]"

definition no_output_mark :: string where
  "no_output_mark = utf8 [0xEF, 0xBC, 0x88, 0xE6, 0x97, 0xA0, 0xE8, 0xBE, 0x93, 0xE5, 0x87, 0xBA,
     0xEF, 0xBC, 0x89]"

definition shortened_mark :: string where
  "shortened_mark = ellipsis @ [CHR 0x0A] @ ''['' @ utf8 [0xE5, 0xAE, 0x8C, 0xE6, 0x95, 0xB4, 0xE5,
     0x86, 0x85, 0xE5, 0xAE, 0xB9, 0xE8, 0xA7, 0x81, 0xE5, 0xB7, 0xA5, 0xE5, 0x85, 0xB7, 0xE5, 0x8D,
     0xA1, 0xE7, 0x89, 0x87, 0xEF, 0xBC, 0x8C, 0xE6, 0x9C, 0xAA, 0xE5, 0x88, 0xA0, 0xE9, 0x99, 0xA4]
     @ '']''"

definition subagent_recovery_answer :: string where
  "subagent_recovery_answer = utf8 [0xE5, 0xAD, 0x90, 0xE4, 0xBB, 0xA3, 0xE7, 0x90, 0x86, 0xE5, 0xB7,
     0xB2, 0xE5, 0xAE, 0x8C, 0xE6, 0x88, 0x90, 0xE5, 0xB7, 0xA5, 0xE5, 0x85, 0xB7, 0xE8, 0xB0, 0x83,
     0xE7, 0x94, 0xA8, 0xEF, 0xBC, 0x8C, 0xE4, 0xBD, 0x86, 0xE6, 0x9C, 0xAA, 0xE7, 0x94, 0x9F, 0xE6,
     0x88, 0x90, 0xE5, 0x8F, 0xAF, 0xE7, 0x94, 0xA8, 0xE7, 0x9A, 0x84, 0xE6, 0x9C, 0x80, 0xE7, 0xBB,
     0x88, 0xE6, 0x8A, 0xA5, 0xE5, 0x91, 0x8A, 0xE3, 0x80, 0x82, 0xE5, 0xB7, 0xA5, 0xE5, 0x85, 0xB7,
     0xE7, 0xBB, 0x93, 0xE6, 0x9E, 0x9C, 0xE5, 0xB7, 0xB2, 0xE4, 0xBF, 0x9D, 0xE7, 0x95, 0x99, 0xE5,
     0x9C, 0xA8, 0xE5, 0xB7, 0xA5, 0xE5, 0x85, 0xB7, 0xE5, 0x8D, 0xA1, 0xE7, 0x89, 0x87, 0xE4, 0xB8,
     0xAD, 0xE3, 0x80, 0x82]"

text \<open>The first loop of \<^verbatim>\<open>synthesizeToolAnswer\<close>: the first search with a readable answer.\<close>

fun first_search_answer :: "go_library \<Rightarrow> tool_exchange list \<Rightarrow> string option" where
  "first_search_answer L [] = Some []"
| "first_search_answer L (ex # exs) =
     (if tc_name (te_call ex) \<noteq> ''web.search'' \<and> tr_name (te_result ex) \<noteq> ''web.search''
      then first_search_answer L exs
      else case extract_search_answer L (tr_output (te_result ex)) of
             None \<Rightarrow> None
           | Some t \<Rightarrow> if t \<noteq> [] then Some t else first_search_answer L exs)"

definition exchange_title :: "tool_exchange \<Rightarrow> string" where
  "exchange_title ex =
     (let display = trim_space (tool_call.tc_display_name (te_call ex)); name = trim_space (tc_name (te_call ex))
      in if display \<noteq> [] then display else if name \<noteq> [] then name else ''tool'')"

fun exchange_sections :: "go_library \<Rightarrow> tool_exchange list \<Rightarrow> string option" where
  "exchange_sections L [] = Some []"
| "exchange_sections L (ex # exs) =
     (case readable_tool_result_text L (te_result ex) of
        None \<Rightarrow> None
      | Some content0 \<Rightarrow>
          (let content1 = (if content0 = [] then no_output_mark else content0);
               content2 = (if length content1 > 1200 then take 1200 content1 @ shortened_mark
                           else content1)
           in map_option ((@) (''### '' @ exchange_title ex @ [CHR 0x0A] @ content2
                                @ [CHR 0x0A, CHR 0x0A]))
                (exchange_sections L exs)))"

definition synthesize_tool_answer :: "go_library \<Rightarrow> tool_exchange list \<Rightarrow> string option" where
  "synthesize_tool_answer L history =
     (if history = [] then Some no_history_answer
      else case first_search_answer L history of
             None \<Rightarrow> None
           | Some t \<Rightarrow>
               if t \<noteq> [] then Some t
               else map_option (\<lambda>b. trim_space (results_heading @ b)) (exchange_sections L history))"

definition recovery_answer_for_run ::
  "go_library \<Rightarrow> string \<Rightarrow> tool_exchange list \<Rightarrow> string option" where
  "recovery_answer_for_run L run history =
     (if contains_sub run '':subagent:'' then Some subagent_recovery_answer
      else synthesize_tool_answer L history)"

end
