(* ===== verification/Tool_Results_Props.thy ===== *)
theory Tool_Results_Props
  imports Tool_Results
begin

lemma rune_width_cases:
  assumes "rune_width s \<noteq> 0"
  shows "rune_width s \<le> length s \<and> rune_start (hd s)
    \<and> (\<forall>i. 0 < i \<and> i < rune_width s \<longrightarrow> \<not> rune_start (s ! i))
    \<and> (\<forall>n. rune_width s \<le> n \<longrightarrow> rune_width (take n s) = rune_width s)"
proof -
  have small: "i = 1 \<or> i = 2 \<or> i = 3" if "0 < i" "i < 4" for i :: nat using that by arith
  show ?thesis
  proof (cases s)
    case Nil
    with assms show ?thesis by (simp add: rune_width_def)
  next
    case (Cons a r)
    note s = this
    show ?thesis
    proof (cases "byte_in 0 127 a")
      case True
      then show ?thesis using s by (auto simp: rune_width_def rune_start_def byte_in_def take_Cons split: nat.splits)
    next
      case one: False
      then obtain b r2 where r: "r = b # r2" using assms s by (cases r) (auto simp: rune_width_def)
      show ?thesis
      proof (cases "byte_in 0xC2 0xDF a")
        case True
        then show ?thesis using assms s r one
          by (auto simp: rune_width_def rune_start_def byte_in_def take_Cons less_Suc_eq numeral_eq_Suc
                split: if_splits nat.splits)
      next
        case two: False
        then obtain c r3 where r2: "r2 = c # r3"
          using assms s r one by (cases r2) (auto simp: rune_width_def)
        show ?thesis
        proof (cases "byte_in 0xE0 0xEF a")
          case True
          then show ?thesis using assms s r r2 one two
            by (auto simp: rune_width_def rune_start_def byte_in_def take_Cons less_Suc_eq numeral_eq_Suc
                  split: if_splits nat.splits)
        next
          case three: False
          then obtain d r4 where r3: "r3 = d # r4"
            using assms s r r2 one two by (cases r3) (auto simp: rune_width_def)
          have s4: "s = a # b # c # d # r4" using s r r2 r3 by simp
          have eq: "rune_width (a # b # c # d # t) = (if rune_width s = 0 then 0 else 4)" for t
            unfolding s4 using one two three by (simp add: rune_width_def)
          have w: "rune_width s = 4" using eq [of r4] s4 assms by simp
          have b4: "byte_in 0xF0 0xF4 a \<and> byte_in 0x80 0xBF c \<and> byte_in 0x80 0xBF d
              \<and> byte_in (if of_char a = (0xF0::nat) then 0x90 else 0x80)
                  (if of_char a = (0xF4::nat) then 0x8F else 0xBF) b"
            using w one two three unfolding s4 by (simp add: rune_width_def split: if_splits)
          then have cont: "\<not> rune_start b" "\<not> rune_start c" "\<not> rune_start d" "rune_start a"
            by (auto simp: rune_start_def byte_in_def split: if_splits)
          have "rune_width (take n s) = 4" if "4 \<le> n" for n
          proof -
            have "take n s = a # b # c # d # take (n - 4) r4"
              using that unfolding s4 by (auto simp: take_Cons' numeral_eq_Suc)
            then show ?thesis using eq [of "take (n - 4) r4"] w by simp
          qed
          moreover have "\<not> rune_start (s ! i)" if "0 < i" "i < 4" for i
            using small [OF that] cont unfolding s4 by auto
          ultimately show ?thesis using w cont s4 by simp
        qed
      qed
    qed
  qed
qed

lemma rune_length: "rune_width s \<le> length s"
  using rune_width_cases [of s] by (cases "rune_width s = 0") auto

lemma valid_utf8_step:
  assumes "valid_utf8 s" and "s \<noteq> []"
  shows "rune_width s \<noteq> 0" and "valid_utf8 (drop (rune_width s) s)"
proof -
  let ?w = "rune_width s"
  have step: "runes s = take (max 1 ?w) s # runes (drop (max 1 ?w) s)"
    using assms(2) by (subst runes.simps) simp
  show w: "?w \<noteq> 0"
  proof
    assume z: "?w = 0"
    then have "rune_width (take 1 s) = 0"
      using assms(2) by (cases s) (auto simp: rune_width_def split: if_splits)
    with assms(1) step z show False by (simp add: valid_utf8_def)
  qed
  then have "max 1 ?w = ?w" by simp
  with assms(1) step show "valid_utf8 (drop ?w s)" by (simp add: valid_utf8_def)
qed

lemma runes_valid_take:
  "valid_utf8 s \<Longrightarrow> k < length s \<Longrightarrow> rune_start (s ! k) \<Longrightarrow> valid_utf8 (take k s)"
proof (induction s arbitrary: k rule: runes.induct)
  case (1 s)
  then have ne: "s \<noteq> []" by auto
  let ?w = "rune_width s"
  have w0: "?w \<noteq> 0" and rest: "valid_utf8 (drop ?w s)" using valid_utf8_step [OF 1(2) ne] by simp_all
  then have m: "max 1 ?w = ?w" by simp
  note wc = rune_width_cases [OF w0]
  show ?case
  proof (cases "k < ?w")
    case True
    then have "k = 0" using wc 1(4) by (metis gr0I)
    then show ?thesis by (simp add: valid_utf8_def)
  next
    case False
    have "valid_utf8 (take (k - ?w) (drop ?w s))"
      using 1(1) [OF ne, unfolded m, OF rest] 1(3,4) False wc by (simp add: less_diff_conv2)
    moreover have "runes (take k s) = take ?w s # runes (take (k - ?w) (drop ?w s))"
    proof -
      have "take k s \<noteq> []" using False w0 ne by simp
      moreover have "rune_width (take k s) = ?w" using wc False by simp
      ultimately show ?thesis
        using False w0 m by (subst runes.simps) (simp add: min_absorb1 drop_take)
    qed
    moreover have "rune_width (take ?w s) = ?w" using wc by simp
    ultimately show ?thesis using w0 by (simp add: valid_utf8_def)
  qed
qed

lemma back_to_rune_le: "back_to_rune s n \<le> n"
  by (induction n) auto

lemma back_to_rune_start: "back_to_rune s n \<noteq> 0 \<Longrightarrow> rune_start (s ! back_to_rune s n)"
  by (induction n) (auto split: if_splits)

lemma back_to_rune_zero: "back_to_rune s n = 0 \<Longrightarrow> 0 < i \<Longrightarrow> i \<le> n \<Longrightarrow> \<not> rune_start (s ! i)"
  by (induction n) (auto simp: le_Suc_eq split: if_splits)

text \<open>In a valid string a rune starts among any four bytes in a row: here, among the first ones.\<close>

lemma valid_start_near:
  assumes "valid_utf8 s" and "5 \<le> length s"
  shows "\<exists>i. 0 < i \<and> i \<le> 4 \<and> rune_start (s ! i)"
proof -
  let ?w = "rune_width s"
  have ne: "s \<noteq> []" using assms(2) by auto
  note first = valid_utf8_step [OF assms(1) ne]
  have w: "?w \<noteq> 0" by (rule first(1))
  have "?w \<le> 4" by (auto simp: rune_width_def split: list.splits)
  then have ne2: "drop ?w s \<noteq> []" using assms(2) by simp
  have "rune_width (drop ?w s) \<noteq> 0" by (rule valid_utf8_step(1) [OF first(2) ne2])
  then have "rune_start (hd (drop ?w s))" using rune_width_cases by blast
  then have "rune_start (s ! ?w)" using ne2 by (simp add: hd_drop_conv_nth)
  then show ?thesis using w \<open>?w \<le> 4\<close> by blast
qed

lemma trim_to_bytes_cases:
  assumes "5 \<le> limit"
  shows "trim_to_bytes s limit = s \<and> length s \<le> limit
    \<or> limit < length s \<and> (\<exists>k \<le> limit. trim_to_bytes s limit = take k s @ ellipsis
        \<and> (valid_utf8 s \<longrightarrow> valid_utf8 (take k s) \<and> k < limit))"
proof (cases "length s \<le> limit")
  case True
  then show ?thesis by (simp add: trim_to_bytes_def)
next
  case False
  let ?b = "back_to_rune s (limit - 1)"
  let ?k = "if ?b = 0 then limit else ?b"
  have eq: "trim_to_bytes s limit = take ?k s @ ellipsis"
    using False assms by (simp add: trim_to_bytes_def Let_def)
  have b: "?b \<le> limit - 1" by (rule back_to_rune_le)
  have "valid_utf8 (take ?k s) \<and> ?k < limit" if v: "valid_utf8 s"
  proof -
    obtain i where i: "0 < i" "i \<le> 4" "rune_start (s ! i)"
      using valid_start_near [OF v] False assms by auto
    then have "i \<le> limit - 1" using assms by simp
    with i have "?b \<noteq> 0" using back_to_rune_zero by blast
    then show ?thesis
      using runes_valid_take [OF v, of ?b] back_to_rune_start b False assms by auto
  qed
  then show ?thesis using eq b False by (intro disjI2 conjI exI [of _ ?k]) auto
qed

lemma ellipsis_facts: "length ellipsis = 3" "runes ellipsis = [ellipsis]" "rune_width ellipsis = 3"
  by (simp add: ellipsis_def) code_simp+

text \<open>
  The text of a result that the model gets is never cut silently. Either it is the whole
  text, at most 16384 bytes, or it is a first part of it with an ellipsis, at most two bytes
  longer than the limit; then the envelope is marked as truncated, holds the length of the whole
  text, and its data, if there was any, has been replaced by a note. A valid UTF-8 text is cut
  between two runes.
\<close>

theorem model_text_never_cut_silently:
  assumes "model_facing_envelope L r = Some env"
  shows "\<exists>full. sr_text env = full \<and> int (length full) \<le> max_tool_result_for_model
    \<or> rm_truncated (sr_meta env) \<and> rm_note (sr_meta env) \<noteq> []
      \<and> rm_original_bytes (sr_meta env) = int (length full)
      \<and> int (length (sr_text env)) \<le> max_tool_result_for_model + 3
      \<and> (\<exists>k. sr_text env = take k full @ ellipsis \<and> k < length full
          \<and> (valid_utf8 full \<longrightarrow> valid_utf8 (take k full)
              \<and> int (length (sr_text env)) \<le> max_tool_result_for_model + 2))
      \<and> (sr_data env = GNil \<or> (\<exists>m. sr_data env = GMap m \<and> map_of m ''omitted'' = Some (GBool True)))"
proof -
  obtain e t3 where env: "env = bounded_view e t3"
    using assms by (auto simp: model_facing_envelope_def Let_def map_option_case split: option.splits if_splits)
  then have e: "sr_text env = (if int (length t3) > max_tool_result_for_model
        then trim_to_bytes t3 (nat max_tool_result_for_model) else t3)"
    by (simp add: bounded_view_def Let_def)
  have meta: "rm_truncated (sr_meta env) \<and> rm_note (sr_meta env) \<noteq> []
      \<and> rm_original_bytes (sr_meta env) = int (length t3)
      \<and> (sr_data env = GNil \<or> (\<exists>m. sr_data env = GMap m \<and> map_of m ''omitted'' = Some (GBool True)))"
    if long: "int (length t3) > max_tool_result_for_model"
  proof -
    have "int (length t3) > 0" using long by (cases t3) (auto simp: max_tool_result_for_model_def)
    then show ?thesis
      unfolding env bounded_view_def Let_def using long by (simp add: truncation_note_def)
  qed
  show ?thesis
  proof (cases "int (length t3) > max_tool_result_for_model")
    case False
    with e show ?thesis by auto
  next
    case True
    let ?m = "nat max_tool_result_for_model"
    have m: "5 \<le> ?m" "\<not> length t3 \<le> ?m" using True by (auto simp: max_tool_result_for_model_def)
    obtain k where k: "k \<le> ?m" "trim_to_bytes t3 ?m = take k t3 @ ellipsis"
        "valid_utf8 t3 \<Longrightarrow> valid_utf8 (take k t3) \<and> k < ?m"
      using trim_to_bytes_cases [OF m(1), of t3] m(2) by auto
    show ?thesis
    proof (rule exI [of _ t3], rule disjI2, intro conjI exI [of _ k])
      show "int (length (sr_text env)) \<le> max_tool_result_for_model + 3"
        using e True k(1,2) ellipsis_facts(1) by (simp add: max_tool_result_for_model_def)
      show "valid_utf8 t3 \<longrightarrow> valid_utf8 (take k t3)
          \<and> int (length (sr_text env)) \<le> max_tool_result_for_model + 2"
        using e True k(2,3) ellipsis_facts(1) by (auto simp: max_tool_result_for_model_def)
    qed (use e True meta [OF True] k m in auto)
  qed
qed

text \<open>A library without any JSON, whose slices have no spare capacity.\<close>

definition plain_library :: go_library where
  "plain_library =
     \<lparr>js_read_result = (\<lambda>_. None), js_read_any = (\<lambda>_. None), js_write_result = sr_text,
      js_write_any = (\<lambda>_. []), rune_capacity = (\<lambda>n. n)\<rparr>"

definition plain_result :: "string \<Rightarrow> tool_result" where
  "plain_result out =
     \<lparr>tr_tool_call_id = ''c'', tr_name = ''workspace.list'', tr_status = ''completed'', tr_exit_code = 0,
      tr_output = out, tr_error = [], tr_duration_ms = 1\<rparr>"

theorem model_text_never_cut_silently_witness:
  "\<exists>env full. model_facing_envelope plain_library (plain_result ''a.txt'') = Some env
     \<and> (sr_text env = full \<and> int (length full) \<le> max_tool_result_for_model
    \<or> rm_truncated (sr_meta env) \<and> rm_note (sr_meta env) \<noteq> []
      \<and> rm_original_bytes (sr_meta env) = int (length full)
      \<and> int (length (sr_text env)) \<le> max_tool_result_for_model + 3
      \<and> (\<exists>k. sr_text env = take k full @ ellipsis \<and> k < length full
          \<and> (valid_utf8 full \<longrightarrow> valid_utf8 (take k full)
              \<and> int (length (sr_text env)) \<le> max_tool_result_for_model + 2))
      \<and> (sr_data env = GNil \<or> (\<exists>m. sr_data env = GMap m \<and> map_of m ''omitted'' = Some (GBool True))))"
proof -
  have "trim_space ''a.txt'' = ''a.txt''" by code_simp
  then have "\<exists>env. model_facing_envelope plain_library (plain_result ''a.txt'') = Some env"
    by (simp add: model_facing_envelope_def parse_standard_tool_result_def plain_library_def
          plain_result_def legacy_envelope_def Let_def)
  then show ?thesis using model_text_never_cut_silently by blast
qed

subsection \<open>Snippets\<close>

text \<open>The character U+4E2D; like most Chinese characters it takes three bytes.\<close>

definition han :: string where "han = [CHR 0xE4, CHR 0xB8, CHR 0xAD]"

lemma han_rune: "runes (han @ s) = han # runes s"
  by (subst runes.simps) (simp add: han_def rune_width_def byte_in_def)

lemma han_runes: "runes (concat (replicate n han) @ s) = replicate n han @ runes s"
  by (induction n) (simp_all add: han_rune)

lemma han_fields:
  assumes "n \<noteq> 0"
  shows "fields (concat (replicate n han)) = [concat (replicate n han)]"
proof -
  have not_space: "\<not> is_space_rune han" by code_simp
  have "field_runes acc (replicate n han) = (if acc @ concat (replicate n han) = [] then []
      else [acc @ concat (replicate n han)])" for acc
    by (induction n arbitrary: acc) (simp_all add: not_space)
  then show ?thesis using assms han_runes [of n "[]"] by (cases n) (simp_all add: fields_def han_def)
qed

lemma han_cut_invalid:
  assumes "i \<noteq> 0" "i < 3" "m < n"
  shows "\<not> valid_utf8 (take (3 * m + i) (concat (replicate n han)))"
proof -
  have "concat (replicate n han) = concat (replicate m han) @ han @ concat (replicate (n - Suc m) han)"
    using assms(3) by (metis Suc_diff_Suc add_diff_inverse_nat concat.simps(2) concat_append
        less_imp_le_nat not_less replicate_Suc replicate_add)
  then have "take (3 * m + i) (concat (replicate n han)) = concat (replicate m han) @ take i han"
    using assms by (simp add: length_concat sum_list_replicate han_def take_Cons')
  moreover have "valid_utf8 (take i han) = False \<and> runes (take i han) = map (\<lambda>c. [c]) (take i han)"
  proof -
    have "i = 1 \<or> i = 2" using assms(1,2) by arith
    then show ?thesis by (elim disjE) (simp_all, code_simp+)
  qed
  ultimately show ?thesis by (auto simp: valid_utf8_def han_runes)
qed

lemma compact_panics:
  assumes "limit mod 3 \<noteq> 0" "limit < 3 * n" "1 < limit" "n < limit" "rune_capacity L n < limit"
  shows "compact_one_line L (concat (replicate n han)) limit = None"
proof -
  let ?s = "concat (replicate n han)"
  have n: "n \<noteq> 0" using assms(2) by auto
  have len: "length ?s = 3 * n" by (simp add: length_concat sum_list_replicate han_def)
  have count: "rune_count ?s = n" using han_runes [of n "[]"] by (simp add: rune_count_def)
  have "\<not> valid_utf8 (take (3 * (limit div 3) + limit mod 3) ?s)"
    using assms(1,2) by (intro han_cut_invalid) auto
  then have "\<not> valid_utf8 (take limit ?s)" by simp
  then show ?thesis
    using assms n by (simp add: compact_one_line_def han_fields len count rune_slice_def Let_def)
qed


text \<open>A library that reads any text as the given payload.\<close>

definition search_library :: "go_map \<Rightarrow> go_library" where
  "search_library payload = plain_library\<lparr>js_read_any := (\<lambda>_. Some (GMap payload))\<rparr>"


end
