(* ===== verification/Agent_Loop.thy ===== *)
theory Agent_Loop
  imports Tool_Results_Props
begin

text \<open>
  One reply of the Agent Runtime (\<^verbatim>\<open>runtime/runtime.go\<close>): the events it emits, the execution of a
  batch of tool calls, and one segment of the loop between the provider and the tools. The goal
  loop around the segments and the reply itself follow in \<^verbatim>\<open>Agent_Run\<close>.

  The outside of the reply is the record \<open>agent_env\<close>, functions over an arbitrary world: the
  provider, the answers to permission requests, the tools, the Gateway and the passing of time. A
  context is its deadline, if it has one, and is asked at each place the code asks it, after time
  has passed; the run may be cancelled between any two such places. A run-time panic ends the
  process: from then on nothing is recorded any more.
\<close>

subsection \<open>The outside\<close>

text \<open>What \<^verbatim>\<open>dispatchTool\<close> yields, and what the Gateway's reply to a goal or to-do tool carries.\<close>

record dispatch_outcome =
  do_output :: string
  do_error :: "string option"
  do_duration :: int
  do_goal :: "loop_goal option"
  do_todos :: "todo_dto list option"

record provider_chunk =
  ck_delta :: string
  ck_final :: bool
  ck_tool_calls :: "tool_call list"

record loop_params =
  lp_run :: string
  lp_session :: string
  lp_text :: string
  lp_options :: reply_options
  lp_goal_context :: "reply_goal_context option"
  lp_todo_context :: "runtime_todo_context option"
  lp_permit_required :: bool

record provider_request =
  pq_input :: string
  pq_options :: reply_options
  pq_goal_context :: "reply_goal_context option"
  pq_todo_context :: "runtime_todo_context option"
  pq_tools :: "tool_definition list"
  pq_rounds :: "tool_exchange list list"

record segment_report =
  rp_goal :: string
  rp_index :: nat
  rp_delta :: nat
  rp_exhausted :: bool

text \<open>
  \<open>env_segment_end\<close> is the call of the Gateway's \<^verbatim>\<open>segment_end\<close>: \<open>None\<close> if it fails, and the goal
  of its result, if it has one. \<open>env_order\<close> is the order in which the goroutines of a group run.
\<close>

record 'w agent_env =
  env_library :: go_library
  env_max_turns :: string
  env_tick :: "'w \<Rightarrow> 'w"
  env_cancelled :: "'w \<Rightarrow> bool"
  env_now :: "'w \<Rightarrow> int"
  env_skills :: "'w \<Rightarrow> (string list \<times> nat) option"
  env_permit :: "'w \<Rightarrow> 'w \<times> string option"
  env_release :: "'w \<Rightarrow> 'w"
  env_complete :: "provider_request \<Rightarrow> 'w \<Rightarrow> 'w \<times> provider_chunk list \<times> string option"
  env_ask :: "permission_request \<Rightarrow> 'w \<Rightarrow> 'w \<times> string option"
  env_dispatch :: "tool_call \<Rightarrow> 'w \<Rightarrow> 'w \<times> dispatch_outcome"
  env_segment_end :: "segment_report \<Rightarrow> 'w \<Rightarrow> 'w \<times> loop_goal option option"
  env_order :: "nat list \<Rightarrow> 'w \<Rightarrow> nat list"

subsection \<open>State and events\<close>

record delta_event =
  de_seq :: int
  de_final :: bool
  de_text :: string
  de_recovered :: bool
  de_max_turns :: "int option"

record finish_event =
  fe_status :: string
  fe_reason :: "string option"
  fe_turns :: "nat option"
  fe_max_turns_reached :: bool

text \<open>
  The events of a reply. \<open>Provider_Called\<close> is not an event of the protocol: it marks a call of the
  provider, as \<open>Tool_Ran\<close> marks the run of a tool.
\<close>

datatype loop_event =
    Tool_Event exec_event
  | Provider_Called provider_request
  | Message_Delta delta_event
  | Error_Sent string string
  | Skills_Injected "string list" nat
  | Memory_Injected "string list" nat nat
  | Reply_Finished finish_event

record run_goal_state =
  rgs_goal :: loop_goal
  rgs_bound :: bool
  rgs_was_bound :: bool
  rgs_terminal :: bool

record 'w loop_state =
  ls_world :: 'w
  ls_trace :: "loop_event list"
  ls_seq :: int
  ls_goal :: "run_goal_state option"
  ls_todos :: "todo_dto list"
  ls_panicked :: bool

datatype ctx_error = Ctx_Cancelled | Ctx_Deadline

definition ctx_error_at :: "'w agent_env \<Rightarrow> int option \<Rightarrow> 'w \<Rightarrow> ctx_error option" where
  "ctx_error_at env d w =
     (if env_cancelled env w then Some Ctx_Cancelled
      else case d of
             Some t \<Rightarrow> if env_now env w \<ge> t then Some Ctx_Deadline else None
           | None \<Rightarrow> None)"

definition check_ctx :: "'w agent_env \<Rightarrow> int option \<Rightarrow> 'w loop_state \<Rightarrow> 'w loop_state \<times> ctx_error option" where
  "check_ctx env d s =
     (let w = env_tick env (ls_world s) in (s\<lparr>ls_world := w\<rparr>, ctx_error_at env d w))"

definition record_event :: "loop_event \<Rightarrow> 'w loop_state \<Rightarrow> 'w loop_state" where
  "record_event e s = (if ls_panicked s then s else s\<lparr>ls_trace := ls_trace s @ [e]\<rparr>)"

definition panic :: "'w loop_state \<Rightarrow> 'w loop_state" where
  "panic s = s\<lparr>ls_panicked := True\<rparr>"

text \<open>\<^verbatim>\<open>emitEvent\<close>: nothing is sent on a context that has ended.\<close>

definition emit_event ::
  "'w agent_env \<Rightarrow> int option \<Rightarrow> loop_event \<Rightarrow> 'w loop_state \<Rightarrow> 'w loop_state \<times> bool" where
  "emit_event env d e s =
     (case check_ctx env d s of
        (s1, Some err) \<Rightarrow> (s1, False)
      | (s1, None) \<Rightarrow> (record_event e s1, True))"

definition send :: "'w agent_env \<Rightarrow> int option \<Rightarrow> loop_event \<Rightarrow> 'w loop_state \<Rightarrow> 'w loop_state" where
  "send env d e s = fst (emit_event env d e s)"

subsection \<open>The goal of the run\<close>

definition goal_is_terminal :: "string \<Rightarrow> bool" where
  "goal_is_terminal st \<longleftrightarrow> st = ''succeeded'' \<or> st = ''failed'' \<or> st = ''cancelled''"

definition apply_goal_tool_result ::
  "string \<Rightarrow> loop_goal option \<Rightarrow> run_goal_state option \<Rightarrow> run_goal_state option" where
  "apply_goal_tool_result tool result prev =
     (case result of
        None \<Rightarrow> prev
      | Some g \<Rightarrow>
          (let active = (lg_status g = ''active'');
               s1 = \<lparr>rgs_goal = g, rgs_bound = active, rgs_was_bound = active,
                     rgs_terminal = goal_is_terminal (lg_status g)\<rparr>;
               s2 = (case prev of
                       Some p \<Rightarrow> if rgs_was_bound p then s1\<lparr>rgs_was_bound := True\<rparr> else s1
                     | None \<Rightarrow> s1);
               s3 = (case prev of
                       Some p \<Rightarrow> if rgs_bound p \<and> active then s2\<lparr>rgs_bound := True\<rparr> else s2
                     | None \<Rightarrow> s2);
               s4 = (if (tool = ''goal.write'' \<or> tool = ''goal.update'') \<and> active
                     then s3\<lparr>rgs_bound := True, rgs_was_bound := True\<rparr> else s3)
           in Some (if tool = ''goal.complete'' \<or> lg_status g = ''cancelled''
                    then s4\<lparr>rgs_bound := False, rgs_terminal := True\<rparr> else s4)))"

definition has_goal :: "'w loop_state \<Rightarrow> bool" where
  "has_goal s \<longleftrightarrow> (case ls_goal s of None \<Rightarrow> False | Some g \<Rightarrow> lg_id (rgs_goal g) \<noteq> [])"

definition goal_context_for_run :: "'w loop_state \<Rightarrow> reply_goal_context option" where
  "goal_context_for_run s =
     (case ls_goal s of
        None \<Rightarrow> None
      | Some g \<Rightarrow> if lg_id (rgs_goal g) = [] then None else Some (goal_to_context (rgs_goal g)))"

definition refresh_contexts :: "'w loop_state \<Rightarrow> loop_params \<Rightarrow> loop_params" where
  "refresh_contexts s P =
     (let P1 = (case todo_context_for_run (ls_todos s) of
                  Some c \<Rightarrow> P\<lparr>lp_todo_context := Some c\<rparr> | None \<Rightarrow> P)
      in case goal_context_for_run s of
           Some c \<Rightarrow> P1\<lparr>lp_goal_context := Some c\<rparr> | None \<Rightarrow> P1)"

subsection \<open>One tool\<close>

text \<open>
  \<^verbatim>\<open>RunWithContext\<close> after the dispatch: the result with its envelope; then the goal and the
  to-do list of the Gateway's reply are kept (\<^verbatim>\<open>goalExecutor\<close>, \<^verbatim>\<open>todoExecutor\<close>).
\<close>

definition result_of_dispatch ::
  "go_library \<Rightarrow> tool_call \<Rightarrow> dispatch_outcome \<Rightarrow> (tool_result \<times> string) option" where
  "result_of_dispatch L call out =
     map_option (\<lambda>text.
         (\<lparr>tr_tool_call_id = tool_call.tc_id call, tr_name = tc_name call,
           tr_status = (case do_error out of None \<Rightarrow> ''completed'' | Some e \<Rightarrow> ''failed''),
           tr_exit_code = 0, tr_output = text,
           tr_error = (case do_error out of None \<Rightarrow> [] | Some e \<Rightarrow> e),
           tr_duration_ms = do_duration out\<rparr>, text))
       (standardize_tool_output L (tc_name call) (do_output out) (do_error out) (do_duration out))"

definition keep_snapshots :: "tool_call \<Rightarrow> dispatch_outcome \<Rightarrow> 'w loop_state \<Rightarrow> 'w loop_state" where
  "keep_snapshots call out s =
     (let s1 = (if tc_name call \<in> {''goal.write'', ''goal.update'', ''goal.checkpoint'', ''goal.complete''}
                then s\<lparr>ls_goal := apply_goal_tool_result (tc_name call) (do_goal out) (ls_goal s)\<rparr> else s)
      in case do_todos out of
           Some items \<Rightarrow>
             if tc_name call = ''todo.write'' \<or> tc_name call = ''todo_write''
             then s1\<lparr>ls_todos := items\<rparr> else s1
         | None \<Rightarrow> s1)"

definition run_tool ::
  "'w agent_env \<Rightarrow> int option \<Rightarrow> tool_call \<Rightarrow> 'w loop_state
    \<Rightarrow> 'w loop_state \<times> tool_result \<times> string \<times> bool" where
  "run_tool env d call s =
     (let s1 = record_event (Tool_Event (Tool_Ran call)) s
      in case env_dispatch env call (ls_world s1) of
           (w, out) \<Rightarrow>
             let s2 = keep_snapshots call out (s1\<lparr>ls_world := w\<rparr>)
             in case result_of_dispatch (env_library env) call out of
                  None \<Rightarrow> (panic s2, denied_result call [], [], False)
                | Some done_result \<Rightarrow>
                    (case run_and_report (has_goal s2) (\<lambda>c. done_result) call of
                       (result, output, ok, events) \<Rightarrow>
                         (fold (\<lambda>e. send env d (Tool_Event e)) (tl events) s2, result, output, ok)))"

text \<open>\<^verbatim>\<open>executeTool\<close>; the decision of the policy, the events and the result are those of \<open>execute_tool\<close>.\<close>

definition execute_tool_in ::
  "'w agent_env \<Rightarrow> int option \<Rightarrow> loop_params \<Rightarrow> tool_call \<Rightarrow> 'w loop_state
    \<Rightarrow> 'w loop_state \<times> tool_result \<times> string \<times> bool" where
  "execute_tool_in env d P call s =
     (let decision = evaluate_tool_policy (lp_options P) call;
          s1 = send env d (Tool_Event (Tool_Started call decision)) s;
          deny = (\<lambda>s reason. let r = denied_result call reason in
                   (send env d (Tool_Event (Tool_Failed_Sent r)) s, r, [], False))
      in case dec_action decision of
           Decision_Deny \<Rightarrow> deny s1 (dec_reason decision)
         | Decision_Require_Permission \<Rightarrow>
             (let request = permission_request_for (lp_run P) call;
                  s2 = send env d (Tool_Event (Permission_Requested request)) s1
              in case env_ask env request (ls_world s2) of
                   (w, answer) \<Rightarrow>
                     let s3 = s2\<lparr>ls_world := w\<rparr>
                     in if answer = Some ''approve'' then run_tool env d call s3
                        else deny s3 ''permission denied'')
         | Decision_Allow \<Rightarrow> run_tool env d call s1)"

subsection \<open>A batch of calls\<close>

record batch_item =
  bi_call :: tool_call
  bi_invocation :: "tool_call option"
  bi_result :: tool_result

definition zero_result :: tool_result where
  "zero_result =
     \<lparr>tr_tool_call_id = [], tr_name = [], tr_status = [], tr_exit_code = 0, tr_output = [],
      tr_error = [], tr_duration_ms = 0\<rparr>"

definition new_item :: "tool_call \<Rightarrow> batch_item" where
  "new_item call = \<lparr>bi_call = call, bi_invocation = None, bi_result = zero_result\<rparr>"

definition run_one ::
  "'w agent_env \<Rightarrow> int option \<Rightarrow> loop_params \<Rightarrow> nat \<Rightarrow> 'w loop_state \<times> batch_item list
    \<Rightarrow> 'w loop_state \<times> batch_item list" where
  "run_one env d P i si =
     (case si of (s, items) \<Rightarrow>
        let call = bi_call (items ! i)
        in case invocation_from_call (lp_run P) i call of
             Inl e \<Rightarrow>
               (let failed = zero_result\<lparr>tr_tool_call_id := tool_call.tc_id call, tr_name := tc_name call,
                               tr_status := ''failed'', tr_error := e\<rparr>
                in (send env d (Tool_Event (Tool_Failed_Sent failed)) s,
                    items[i := (items ! i)\<lparr>bi_result := failed\<rparr>]))
           | Inr invocation \<Rightarrow>
               (case execute_tool_in env d P invocation s of
                  (s1, result, output, ok) \<Rightarrow>
                    (s1, items[i := (items ! i)\<lparr>bi_invocation := Some invocation,
                                               bi_result := result\<rparr>])))"

text \<open>
  A group of adjacent \<^verbatim>\<open>subagent.run\<close> calls: the loop that starts a goroutine for each until the
  context has ended, then the goroutines in the order the scheduler chooses. Each looks at the
  context once more and runs its call as a whole: the events of two calls of a group are not
  interleaved here.
\<close>

fun start_group ::
  "'w agent_env \<Rightarrow> int option \<Rightarrow> nat list \<Rightarrow> 'w loop_state \<Rightarrow> 'w loop_state \<times> nat list" where
  "start_group env d [] s = (s, [])"
| "start_group env d (i # is) s =
     (case check_ctx env d s of
        (s1, Some err) \<Rightarrow> (s1, [])
      | (s1, None) \<Rightarrow> (case start_group env d is s1 of (s2, started) \<Rightarrow> (s2, i # started)))"

definition schedule :: "'w agent_env \<Rightarrow> nat list \<Rightarrow> 'w \<Rightarrow> nat list" where
  "schedule env is w = (if mset (env_order env is w) = mset is then env_order env is w else is)"

definition run_worker ::
  "'w agent_env \<Rightarrow> int option \<Rightarrow> loop_params \<Rightarrow> nat \<Rightarrow> 'w loop_state \<times> batch_item list
    \<Rightarrow> 'w loop_state \<times> batch_item list" where
  "run_worker env d P i si =
     (case si of (s, items) \<Rightarrow>
        case check_ctx env d s of
          (s1, Some err) \<Rightarrow> (s1, items)
        | (s1, None) \<Rightarrow> run_one env d P i (s1, items))"

definition run_group ::
  "'w agent_env \<Rightarrow> int option \<Rightarrow> loop_params \<Rightarrow> nat list \<Rightarrow> 'w loop_state \<times> batch_item list
    \<Rightarrow> 'w loop_state \<times> batch_item list" where
  "run_group env d P is si =
     (case si of (s, items) \<Rightarrow>
        case start_group env d is s of
          (s1, started) \<Rightarrow> fold (run_worker env d P) (schedule env started (ls_world s1)) (s1, items))"

definition group_length :: "batch_item list \<Rightarrow> nat \<Rightarrow> nat" where
  "group_length items i =
     length (takeWhile (\<lambda>it. tc_name (bi_call it) = ''subagent.run'') (drop (Suc i) items)) + 1"

function batch_loop ::
  "'w agent_env \<Rightarrow> int option \<Rightarrow> loop_params \<Rightarrow> nat \<Rightarrow> nat \<Rightarrow> 'w loop_state \<times> batch_item list
    \<Rightarrow> 'w loop_state \<times> batch_item list \<times> bool" where
  "batch_loop env d P n i si =
     (case si of (s, items) \<Rightarrow>
        case check_ctx env d s of
          (s1, err) \<Rightarrow>
            if n \<le> i then (s1, items, err \<noteq> None)
            else if err \<noteq> None then (s1, items, True)
            else if tc_name (bi_call (items ! i)) \<noteq> ''subagent.run''
                 then batch_loop env d P n (Suc i) (run_one env d P i (s1, items))
            else batch_loop env d P n (i + group_length items i)
                   (run_group env d P [i ..< i + group_length items i] (s1, items)))"
  by pat_completeness auto
termination
  by (relation "measure (\<lambda>(env, d, P, n, i, si). n - i)") (auto simp: group_length_def)

declare batch_loop.simps [simp del]

definition batch_exchange :: "batch_item \<Rightarrow> tool_exchange option" where
  "batch_exchange it =
     (let call = (case bi_invocation it of
                    Some c \<Rightarrow> if tool_call.tc_id c \<noteq> [] then c else bi_call it
                  | None \<Rightarrow> bi_call it);
          r = bi_result it
      in if tr_tool_call_id r = [] \<and> tr_name r = [] \<and> tr_error r = [] \<and> tr_status r = []
         then if tool_call.tc_id (bi_call it) = [] \<and> tc_name (bi_call it) = [] then None
              else Some \<lparr>te_call = call,
                     te_result = zero_result\<lparr>tr_tool_call_id := tool_call.tc_id (bi_call it),
                       tr_name := tc_name (bi_call it), tr_status := ''failed'',
                       tr_error := ''tool was not executed''\<rparr>\<rparr>
         else Some \<lparr>te_call = call, te_result = r\<rparr>)"

definition batch_to_history :: "batch_item list \<Rightarrow> tool_exchange list" where
  "batch_to_history items = List.map_filter batch_exchange items"

definition execute_tool_batch ::
  "'w agent_env \<Rightarrow> int option \<Rightarrow> loop_params \<Rightarrow> tool_call list \<Rightarrow> 'w loop_state
    \<Rightarrow> 'w loop_state \<times> tool_exchange list \<times> bool" where
  "execute_tool_batch env d P calls s =
     (case batch_loop env d P (length calls) 0 (s, map new_item calls) of
        (s1, items, cancelled) \<Rightarrow> (s1, batch_to_history items, cancelled))"

subsection \<open>An uneventful outside\<close>

text \<open>
  For examples: a provider that answers with the text given, tools that print nothing, a Gateway
  that does not answer, permissions that are approved, no cancellation.
\<close>

definition quiet_env :: "string \<Rightarrow> unit agent_env" where
  "quiet_env answer =
     \<lparr>env_library = plain_library, env_max_turns = [], env_tick = (\<lambda>w. w), env_cancelled = (\<lambda>w. False),
      env_now = (\<lambda>w. 0), env_skills = (\<lambda>w. None), env_permit = (\<lambda>w. (w, None)),
      env_release = (\<lambda>w. w),
      env_complete = (\<lambda>q w. (w, [\<lparr>ck_delta = answer, ck_final = False, ck_tool_calls = []\<rparr>], None)),
      env_ask = (\<lambda>r w. (w, Some ''approve'')),
      env_dispatch = (\<lambda>c w. (w, \<lparr>do_output = [], do_error = None, do_duration = 1, do_goal = None,
        do_todos = None\<rparr>)),
      env_segment_end = (\<lambda>rp w. (w, None)), env_order = (\<lambda>is w. rev is)\<rparr>"

definition quiet_params :: "string \<Rightarrow> loop_params" where
  "quiet_params txt =
     \<lparr>lp_run = ''r'', lp_session = ''s'', lp_text = txt,
      lp_options = witness_options\<lparr>opt_memory_context := None, opt_require_permission := False,
        opt_goal_id := []\<rparr>,
      lp_goal_context = None, lp_todo_context = None, lp_permit_required = False\<rparr>"

definition quiet_state :: "unit loop_state" where
  "quiet_state =
     \<lparr>ls_world = (), ls_trace = [], ls_seq = 1, ls_goal = None, ls_todos = [], ls_panicked = False\<rparr>"

lemma quiet_env_context [simp]: "ctx_error_at (quiet_env a) None w = None"
  by (simp add: ctx_error_at_def quiet_env_def)

end
