(* ===== verification/Agent_Batch.thy ===== *)
theory Agent_Batch
  imports Agent_Loop
begin

text \<open>
  The answers of a batch of tool calls (\<^verbatim>\<open>executeToolBatch\<close> and \<^verbatim>\<open>batchToHistory\<close> of
  \<^verbatim>\<open>runtime/runtime.go\<close>): whatever the schedule of a group of workers and whenever the run is
  cancelled, each call has one exchange, at its place.
\<close>

subsection \<open>Answers of a batch\<close>

text \<open>
  An item of a batch on its way: it belongs to its call, and once it has a result, the result
  carries the name and the id of the call, or of the invocation made from it.
\<close>

definition answered_call :: "batch_item \<Rightarrow> tool_call" where
  "answered_call it = (case bi_invocation it of Some c \<Rightarrow> c | None \<Rightarrow> bi_call it)"

definition item_ok :: "string \<Rightarrow> nat \<Rightarrow> batch_item \<Rightarrow> bool" where
  "item_ok run i it \<longleftrightarrow>
     (\<forall>c. bi_invocation it = Some c \<longrightarrow> invocation_from_call run i (bi_call it) = Inr c)
     \<and> (bi_invocation it = None \<and> bi_result it \<noteq> zero_result \<longrightarrow>
          (\<exists>e. invocation_from_call run i (bi_call it) = Inl e))
     \<and> (bi_result it = zero_result \<and> bi_invocation it = None
        \<or> tr_name (bi_result it) = tc_name (answered_call it)
          \<and> tr_tool_call_id (bi_result it) = tool_call.tc_id (answered_call it)
          \<and> tr_status (bi_result it) \<noteq> [])"

definition batch_ok :: "string \<Rightarrow> tool_call list \<Rightarrow> batch_item list \<Rightarrow> bool" where
  "batch_ok run calls items \<longleftrightarrow> map bi_call items = calls \<and> (\<forall>i < length items. item_ok run i (items ! i))"

lemma invocation_id: "invocation_from_call run i call = Inr c \<Longrightarrow>
    tool_call.tc_id c \<noteq> [] \<and> tc_name c = tc_name call \<and> tc_name call \<noteq> []"
  by (auto simp: invocation_from_call_def Let_def split: if_splits option.splits)

lemma run_tool_result:
  assumes "run_tool env d call s = (t, r, out, ok)"
  shows "tr_name r = tc_name call \<and> tr_tool_call_id r = tool_call.tc_id call \<and> tr_status r \<noteq> []"
proof -
  let ?s1 = "record_event (Tool_Event (Tool_Ran call)) s"
  obtain w o1 where w: "env_dispatch env call (ls_world ?s1) = (w, o1)" by fastforce
  show ?thesis
  proof (cases "result_of_dispatch (env_library env) call o1")
    case None
    then show ?thesis using assms w by (auto simp: run_tool_def Let_def denied_result_def)
  next
    case (Some x)
    have "r = fst x"
      using assms w Some by (auto simp: run_tool_def run_and_report_def Let_def split: prod.splits if_splits)
    then show ?thesis using Some by (auto simp: result_of_dispatch_def split: option.splits)
  qed
qed

lemma execute_tool_result:
  "execute_tool_in env d P call s = (t, r, out, ok) \<Longrightarrow>
     tr_name r = tc_name call \<and> tr_tool_call_id r = tool_call.tc_id call \<and> tr_status r \<noteq> []"
  by (auto simp: execute_tool_in_def Let_def denied_result_def dest: run_tool_result
        split: decision_action.splits prod.splits if_splits)

lemma run_one_ok:
  assumes "batch_ok (lp_run P) calls (snd si)" and "i < length calls"
  shows "batch_ok (lp_run P) calls (snd (run_one env d P i si))"
    and "bi_result (snd (run_one env d P i si) ! i) \<noteq> zero_result"
    and "j \<noteq> i \<Longrightarrow> snd (run_one env d P i si) ! j = snd si ! j"
proof -
  obtain s items where si: "si = (s, items)" by fastforce
  have len: "length items = length calls" using assms(1) si by (auto simp: batch_ok_def)
  have item: "item_ok (lp_run P) i (items ! i)" using assms si len by (simp add: batch_ok_def)
  let ?call = "bi_call (items ! i)"
  have "\<exists>x. snd (run_one env d P i si) = items[i := x] \<and> bi_call x = ?call
      \<and> item_ok (lp_run P) i x \<and> bi_result x \<noteq> zero_result"
  proof (cases "invocation_from_call (lp_run P) i ?call")
    case (Inl e)
    let ?failed = "zero_result\<lparr>tr_tool_call_id := tool_call.tc_id ?call, tr_name := tc_name ?call,
        tr_status := ''failed'', tr_error := e\<rparr>"
    have inv: "bi_invocation (items ! i) = None"
      using item Inl by (cases "bi_invocation (items ! i)") (auto simp: item_ok_def)
    let ?x = "(items ! i)\<lparr>bi_result := ?failed\<rparr>"
    have "snd (run_one env d P i si) = items[i := ?x]" using Inl si by (simp add: run_one_def Let_def)
    moreover have "item_ok (lp_run P) i ?x" using inv Inl by (simp add: item_ok_def answered_call_def)
    moreover have "bi_result ?x \<noteq> zero_result" by (simp add: zero_result_def)
    ultimately show ?thesis by (intro exI [of _ ?x]) simp
  next
    case (Inr c)
    obtain t r out ok where x: "execute_tool_in env d P c s = (t, r, out, ok)"
      by (cases "execute_tool_in env d P c s")
    let ?x = "(items ! i)\<lparr>bi_invocation := Some c, bi_result := r\<rparr>"
    have "snd (run_one env d P i si) = items[i := ?x]" using Inr si x by (simp add: run_one_def Let_def)
    moreover have "item_ok (lp_run P) i ?x"
      using execute_tool_result [OF x] Inr by (simp add: item_ok_def answered_call_def)
    moreover have "bi_result ?x \<noteq> zero_result"
      using execute_tool_result [OF x] by (auto simp: zero_result_def)
    ultimately show ?thesis by (intro exI [of _ ?x]) simp
  qed
  then obtain x where x: "snd (run_one env d P i si) = items[i := x]" "bi_call x = ?call"
      "item_ok (lp_run P) i x" "bi_result x \<noteq> zero_result"
    by blast
  have "map bi_call (items[i := x]) = map bi_call items"
    using x(2) by (metis list_update_id map_update)
  then show "batch_ok (lp_run P) calls (snd (run_one env d P i si))"
    using assms si x len by (auto simp: batch_ok_def nth_list_update)
  show "bi_result (snd (run_one env d P i si) ! i) \<noteq> zero_result"
    using x assms(2) len by simp
  show "j \<noteq> i \<Longrightarrow> snd (run_one env d P i si) ! j = snd si ! j"
    using x(1) si by simp
qed

text \<open>A worker keeps what is known of the items, and answers its call unless the context has ended.\<close>

definition answered :: "nat set \<Rightarrow> batch_item list \<Rightarrow> bool" where
  "answered S items \<longleftrightarrow> (\<forall>i \<in> S. i < length items \<longrightarrow> bi_result (items ! i) \<noteq> zero_result)"

lemma run_one_step:
  assumes "batch_ok (lp_run P) calls (snd si)" "i < length calls" "answered S (snd si)"
  shows "batch_ok (lp_run P) calls (snd (run_one env d P i si))
    \<and> answered (insert i S) (snd (run_one env d P i si))"
proof -
  note one = run_one_ok [OF assms(1,2), where env = env and d = d]
  have len: "length (snd (run_one env d P i si)) = length (snd si)"
    using one(1) assms(1) by (metis batch_ok_def length_map)
  have "bi_result (snd (run_one env d P i si) ! j) \<noteq> zero_result"
    if "j \<in> insert i S" "j < length (snd si)" for j
    using one(2) one(3) [of j] that assms(3) by (cases "j = i") (auto simp: answered_def)
  then show ?thesis using one(1) len by (auto simp: answered_def)
qed

lemma answered_mono: "answered S items \<Longrightarrow> T \<subseteq> S \<Longrightarrow> answered T items"
  by (auto simp: answered_def)

text \<open>\<open>live\<close> says that the context never ends.\<close>

lemma fold_worker_step:
  assumes "batch_ok (lp_run P) calls (snd si)" "\<forall>i \<in> set is. i < length calls" "answered S (snd si)"
    and "live \<Longrightarrow> \<forall>w. ctx_error_at env d w = None"
  shows "batch_ok (lp_run P) calls (snd (fold (run_worker env d P) is si))
    \<and> answered (if live then set is \<union> S else S) (snd (fold (run_worker env d P) is si))"
  using assms(1-3)
proof (induction "is" arbitrary: si S)
  case (Cons i "is")
  obtain s items where si: "si = (s, items)" by fastforce
  obtain s1 err where c: "check_ctx env d s = (s1, err)" by fastforce
  show ?case
  proof (cases err)
    case None
    let ?one = "run_one env d P i (s1, items)"
    have one: "batch_ok (lp_run P) calls (snd ?one)" "answered (insert i S) (snd ?one)"
      using run_one_step [of P calls "(s1, items)" i S env d] Cons.prems si by simp_all
    show ?thesis
      using Cons.IH [OF one(1) _ one(2)] Cons.prems(2) c None si answered_mono
      by (auto simp: run_worker_def intro: answered_mono)
  next
    case (Some e)
    then have "\<not> live" using c assms(4) by (auto simp: check_ctx_def Let_def)
    then show ?thesis
      using Cons.IH [of si S] Cons.prems c Some si Cons.IH [of "(s1, items)" S]
      by (simp add: run_worker_def)
  qed
qed simp

lemma start_group_started:
  "(\<exists>rest. is = snd (start_group env d is s) @ rest)
   \<and> ((\<forall>w. ctx_error_at env d w = None) \<longrightarrow> snd (start_group env d is s) = is)"
proof (induction "is" arbitrary: s)
  case (Cons i "is")
  obtain s1 err where c: "check_ctx env d s = (s1, err)" by fastforce
  have eq: "snd (start_group env d (i # is) s) =
      (if err = None then i # snd (start_group env d is s1) else [])"
    by (cases err; cases "start_group env d is s1") (simp_all add: c)
  have "(\<forall>w. ctx_error_at env d w = None) \<Longrightarrow> err = None" using c by (auto simp: check_ctx_def Let_def)
  then show ?case using Cons.IH [of s1] unfolding eq by auto
qed simp

lemma schedule_set: "set (schedule env is w) = set is"
  unfolding schedule_def by (metis set_mset_mset)

lemma run_group_step:
  assumes "batch_ok (lp_run P) calls (snd si)" "\<forall>i \<in> set is. i < length calls" "answered S (snd si)"
    and "live \<Longrightarrow> \<forall>w. ctx_error_at env d w = None"
  shows "batch_ok (lp_run P) calls (snd (run_group env d P is si))
    \<and> answered (if live then set is \<union> S else S) (snd (run_group env d P is si))"
proof -
  obtain s items where si: "si = (s, items)" by fastforce
  obtain s1 started where g: "start_group env d is s = (s1, started)" by fastforce
  have sub: "set started \<subseteq> set is" using start_group_started [of "is" env d s] g by fastforce
  have all: "live \<Longrightarrow> started = is" using start_group_started [of "is" env d s] assms(4) g by simp
  let ?order = "schedule env started (ls_world s1)"
  have "batch_ok (lp_run P) calls (snd (fold (run_worker env d P) ?order (s1, items)))
      \<and> answered (if live then set ?order \<union> S else S) (snd (fold (run_worker env d P) ?order (s1, items)))"
    using assms si sub by (intro fold_worker_step) (auto simp: schedule_set)
  then show ?thesis
    using si g all by (auto simp: run_group_def schedule_set split: if_splits)
qed

lemma group_length_le: "i < length items \<Longrightarrow> i + group_length items i \<le> length items"
  using length_takeWhile_le [of "\<lambda>it. tc_name (bi_call it) = ''subagent.run''" "drop (Suc i) items"]
  by (simp add: group_length_def)

lemma batch_loop_step:
  assumes "batch_ok (lp_run P) calls (snd si)" and "i \<le> length calls"
    and "live \<Longrightarrow> answered {..<i} (snd si)" and "live \<Longrightarrow> \<forall>w. ctx_error_at env d w = None"
    and "batch_loop env d P (length calls) i si = (t, items, cancelled)"
  shows "batch_ok (lp_run P) calls items \<and> (live \<longrightarrow> answered {..<length calls} items \<and> \<not> cancelled)"
  using assms(1-3,5)
proof (induction "length calls - i" arbitrary: i si rule: less_induct)
  case less
  obtain s its where si: "si = (s, its)" by fastforce
  have len: "length its = length calls" using less.prems(1) si by (auto simp: batch_ok_def)
  obtain s1 err where c: "check_ctx env d s = (s1, err)" by fastforce
  have live: "live \<Longrightarrow> err = None" using c assms(4) by (auto simp: check_ctx_def Let_def)
  show ?case
  proof (cases "length calls \<le> i \<or> err \<noteq> None")
    case True
    then have "items = its \<and> (err = None \<longrightarrow> \<not> cancelled)"
      using less.prems(4) si c by (subst (asm) batch_loop.simps) (auto split: if_splits)
    moreover have "live \<Longrightarrow> i = length calls" using True live less.prems(2) by auto
    ultimately show ?thesis using less.prems(1,3) si live by auto
  next
    case False
    let ?S = "if live then {..<i} else {}"
    have S: "answered ?S its" using less.prems(3) si by (simp add: answered_def)
    show ?thesis
    proof (cases "tc_name (bi_call (its ! i)) = ''subagent.run''")
      case single: False
      let ?one = "run_one env d P i (s1, its)"
      have one: "batch_ok (lp_run P) calls (snd ?one) \<and> answered (insert i ?S) (snd ?one)"
        using run_one_step [of P calls "(s1, its)" i ?S env d] less.prems(1) si False S by simp
      have "batch_loop env d P (length calls) (Suc i) ?one = (t, items, cancelled)"
        using less.prems(4) si c False single by (subst (asm) batch_loop.simps) simp
      then show ?thesis
        using less.hyps [of "Suc i" ?one] one False
        by (auto simp: lessThan_Suc intro: answered_mono split: if_splits)
    next
      case group: True
      let ?n = "group_length its i"
      let ?g = "run_group env d P [i ..< i + ?n] (s1, its)"
      have n: "0 < ?n" "i + ?n \<le> length calls"
        using False len group_length_le [of i its] by (simp_all add: group_length_def)
      have g: "batch_ok (lp_run P) calls (snd ?g)
          \<and> answered (if live then set [i ..< i + ?n] \<union> ?S else ?S) (snd ?g)"
        using less.prems(1) si S n assms(4) by (intro run_group_step) auto
      have "batch_loop env d P (length calls) (i + ?n) ?g = (t, items, cancelled)"
        using less.prems(4) si c False group by (subst (asm) batch_loop.simps) simp
      moreover have "set [i ..< i + ?n] \<union> {..<i} = {..<i + ?n}" by auto
      ultimately show ?thesis
        using less.hyps [of "i + ?n" ?g] g n False by (auto split: if_splits)
    qed
  qed
qed

lemma map_filter_all: "\<forall>x \<in> set xs. f x \<noteq> None \<Longrightarrow> List.map_filter f xs = map (the \<circ> f) xs"
  by (induction xs) (auto simp: List.map_filter_def)

lemma item_exchange:
  assumes "item_ok run i it" and "tool_call.tc_id (bi_call it) \<noteq> [] \<or> tc_name (bi_call it) \<noteq> []"
  shows "\<exists>ex. batch_exchange it = Some ex \<and> te_call ex = answered_call it
    \<and> tr_name (te_result ex) = tc_name (bi_call it)
    \<and> tr_tool_call_id (te_result ex) = tool_call.tc_id (te_call ex)
    \<and> (te_call ex = bi_call it \<or> invocation_from_call run i (bi_call it) = Inr (te_call ex))
    \<and> (bi_result it \<noteq> zero_result \<longrightarrow> te_result ex = bi_result it)"
proof (cases "bi_result it = zero_result")
  case True
  then have "bi_invocation it = None" using assms(1) by (auto simp: item_ok_def zero_result_def)
  then show ?thesis
    using True assms(2) by (simp add: batch_exchange_def answered_call_def zero_result_def)
next
  case False
  then have ok: "tr_name (bi_result it) = tc_name (answered_call it)"
      "tr_tool_call_id (bi_result it) = tool_call.tc_id (answered_call it)" "tr_status (bi_result it) \<noteq> []"
    using assms(1) by (auto simp: item_ok_def)
  show ?thesis
  proof (cases "bi_invocation it")
    case None
    then show ?thesis using ok False by (simp add: batch_exchange_def answered_call_def Let_def)
  next
    case (Some c)
    then have inv: "invocation_from_call run i (bi_call it) = Inr c" using assms(1) by (simp add: item_ok_def)
    note id = invocation_id [OF this]
    then show ?thesis
      using ok Some inv False by (simp add: batch_exchange_def answered_call_def Let_def)
  qed
qed



end
