(* ===== verification/Agent_Segment.thy ===== *)
theory Agent_Segment
  imports Agent_Loop
begin

text \<open>
  One segment of the loop between the provider and the tools
  (\<^verbatim>\<open>runProviderLoopSegment\<close>, \<^verbatim>\<open>consumeProviderChunk\<close> and \<^verbatim>\<open>retryFinalAnswer\<close> of
  \<^verbatim>\<open>runtime/runtime.go\<close>).
\<close>

definition max_provider_tool_turns_cap :: int where "max_provider_tool_turns_cap = 48"
definition default_provider_tool_turns :: int where "default_provider_tool_turns = 12"

definition effective_provider_tool_turns :: "string \<Rightarrow> reply_options \<Rightarrow> int" where
  "effective_provider_tool_turns env_text opts =
     (let capped = (\<lambda>n. if n > max_provider_tool_turns_cap then max_provider_tool_turns_cap else n)
      in if opt_max_tool_turns opts > 0 then capped (opt_max_tool_turns opts)
         else case (if env_text = [] then None else parse_int64 env_text) of
                Some parsed \<Rightarrow> if parsed > 0 then capped parsed else default_provider_tool_turns
              | None \<Rightarrow> default_provider_tool_turns)"

lemma effective_turns_bounds:
  "0 < effective_provider_tool_turns e opts" "effective_provider_tool_turns e opts \<le> 48"
  by (auto simp: effective_provider_tool_turns_def max_provider_tool_turns_cap_def
        default_provider_tool_turns_def Let_def split: option.splits)

subsection \<open>Chunks of the provider\<close>

text \<open>What the callback has gathered: the calls requested and whether there was any text.\<close>

record chunk_state =
  cs_calls :: "tool_call list"
  cs_text :: bool

definition consume_provider_chunk ::
  "'w agent_env \<Rightarrow> int option \<Rightarrow> provider_chunk \<Rightarrow> 'w loop_state \<times> chunk_state
    \<Rightarrow> ('w loop_state \<times> chunk_state) \<times> bool" where
  "consume_provider_chunk env d chunk sc =
     (case sc of (s, c) \<Rightarrow>
        case check_ctx env d s of
          (s1, Some err) \<Rightarrow> ((s1, c), False)
        | (s1, None) \<Rightarrow>
            (let blank = (trim_space (ck_delta chunk) = [])
             in if ck_tool_calls chunk \<noteq> []
                then ((s1, c\<lparr>cs_calls := cs_calls c @ ck_tool_calls chunk\<rparr>), True)
                else if blank then ((s1, c), True)
                else case emit_event env d
                       (Message_Delta \<lparr>de_seq = ls_seq s1, de_final = (ck_final chunk \<and> \<not> has_goal s1),
                          de_text = ck_delta chunk, de_recovered = False, de_max_turns = None\<rparr>) s1 of
                       (s2, ok) \<Rightarrow> ((s2\<lparr>ls_seq := ls_seq s2 + 1\<rparr>, c\<lparr>cs_text := True\<rparr>), ok)))"

fun consume_chunks ::
  "'w agent_env \<Rightarrow> int option \<Rightarrow> provider_chunk list \<Rightarrow> 'w loop_state \<times> chunk_state
    \<Rightarrow> ('w loop_state \<times> chunk_state) \<times> bool" where
  "consume_chunks env d [] sc = (sc, True)"
| "consume_chunks env d (chunk # chunks) sc =
     (case consume_provider_chunk env d chunk sc of
        (sc1, False) \<Rightarrow> (sc1, False)
      | (sc1, True) \<Rightarrow> consume_chunks env d chunks sc1)"

text \<open>
  A permit of the Gateway, if the reply needs one. The provider is called with the request; it
  hands its chunks to the callback and gives up when the callback fails.
\<close>

definition acquire_provider_permit ::
  "'w agent_env \<Rightarrow> loop_params \<Rightarrow> 'w loop_state \<Rightarrow> 'w loop_state \<times> string option" where
  "acquire_provider_permit env P s =
     (if lp_permit_required P
      then case env_permit env (ls_world s) of (w, err) \<Rightarrow> (s\<lparr>ls_world := w\<rparr>, err)
      else (s, None))"

definition release_provider_permit :: "'w agent_env \<Rightarrow> loop_params \<Rightarrow> 'w loop_state \<Rightarrow> 'w loop_state" where
  "release_provider_permit env P s =
     (if lp_permit_required P then s\<lparr>ls_world := env_release env (ls_world s)\<rparr> else s)"

definition request_for ::
  "loop_params \<Rightarrow> string \<Rightarrow> tool_definition list \<Rightarrow> tool_exchange list list \<Rightarrow> provider_request" where
  "request_for P input offered rounds =
     \<lparr>pq_input = input, pq_options = lp_options P, pq_goal_context = lp_goal_context P,
      pq_todo_context = lp_todo_context P, pq_tools = offered, pq_rounds = rounds\<rparr>"

text \<open>The call of the provider: its error, if any, and what the callback gathered.\<close>

definition call_provider ::
  "'w agent_env \<Rightarrow> int option \<Rightarrow> loop_params \<Rightarrow> provider_request \<Rightarrow> 'w loop_state
    \<Rightarrow> 'w loop_state \<times> chunk_state \<times> string option" where
  "call_provider env d P request s =
     (let s1 = record_event (Provider_Called request) s
      in case env_complete env request (ls_world s1) of
           (w, chunks, err) \<Rightarrow>
             case consume_chunks env d chunks (s1\<lparr>ls_world := w\<rparr>, \<lparr>cs_calls = [], cs_text = False\<rparr>) of
               ((s2, c), ok) \<Rightarrow>
                 (release_provider_permit env P s2, c, if ok then err else Some ''context canceled''))"

subsection \<open>The final answer\<close>

definition recovery_prompt :: "string \<Rightarrow> string" where
  "recovery_prompt input =
     input @ [CHR 0x0A, CHR 0x0A] @ ''[System] All tools for this turn have finished. ''
     @ ''Write a complete, helpful final answer for the user based on the tool results above. ''
     @ ''Do not call tools. Respond in the user'' @ [CHR 0x27] @ ''s language. ''
     @ ''If some tools failed, still summarize what succeeded and what is known.''"

text \<open>The callback of \<^verbatim>\<open>retryFinalAnswer\<close>: the text so far and whether a tool was asked for.\<close>

fun gather_chunks ::
  "'w agent_env \<Rightarrow> int option \<Rightarrow> provider_chunk list \<Rightarrow> 'w loop_state \<Rightarrow> string \<Rightarrow> bool
    \<Rightarrow> 'w loop_state \<times> string \<times> bool \<times> bool" where
  "gather_chunks env d [] s answer wants_tool = (s, answer, wants_tool, True)"
| "gather_chunks env d (chunk # chunks) s answer wants_tool =
     (case check_ctx env d s of
        (s1, Some err) \<Rightarrow> (s1, answer, wants_tool, False)
      | (s1, None) \<Rightarrow> gather_chunks env d chunks s1 (answer @ ck_delta chunk)
                       (wants_tool \<or> ck_tool_calls chunk \<noteq> []))"

definition send_recovered ::
  "'w agent_env \<Rightarrow> int option \<Rightarrow> string \<Rightarrow> int option \<Rightarrow> 'w loop_state \<Rightarrow> 'w loop_state \<times> bool" where
  "send_recovered env d answer max_turns s =
     (case emit_event env d
        (Message_Delta \<lparr>de_seq = ls_seq s, de_final = (\<not> has_goal s), de_text = answer,
           de_recovered = True, de_max_turns = max_turns\<rparr>) s of
        (s1, ok) \<Rightarrow> (s1\<lparr>ls_seq := ls_seq s1 + 1\<rparr>, ok))"

definition retry_final_answer ::
  "'w agent_env \<Rightarrow> int option \<Rightarrow> loop_params \<Rightarrow> string \<Rightarrow> tool_exchange list list \<Rightarrow> 'w loop_state
    \<Rightarrow> 'w loop_state \<times> bool" where
  "retry_final_answer env d P input rounds s =
     (case check_ctx env d s of (s0, cerr) \<Rightarrow>
      if cerr \<noteq> None \<or> rounds = [] then (s0, False)
      else case acquire_provider_permit env P s0 of
        (s1, Some perr) \<Rightarrow> (s1, False)
      | (s1, None) \<Rightarrow>
          (let request = request_for P (recovery_prompt input) [] rounds;
               s2 = record_event (Provider_Called request) s1
           in case env_complete env request (ls_world s2) of
                (w, chunks, err) \<Rightarrow>
                  case gather_chunks env d chunks (s2\<lparr>ls_world := w\<rparr>) [] False of
                    (s3, answer, wants_tool, ok) \<Rightarrow>
                      let s4 = release_provider_permit env P s3; t = trim_space answer
                      in if \<not> ok \<or> err \<noteq> None \<or> wants_tool then (s4, False)
                         else case is_usable_final_text t of
                                None \<Rightarrow> (panic s4, False)
                              | Some False \<Rightarrow> (s4, False)
                              | Some True \<Rightarrow> send_recovered env d t None s4))"

subsection \<open>A segment\<close>

datatype loop_end_reason =
  Loop_No_Tools | Loop_Max_Turns | Loop_Cancelled | Loop_Failed | Loop_Budget

primrec loop_end_text :: "loop_end_reason \<Rightarrow> string" where
  "loop_end_text Loop_No_Tools = ''no_tools''"
| "loop_end_text Loop_Max_Turns = ''max_turns''"
| "loop_end_text Loop_Cancelled = ''cancelled''"
| "loop_end_text Loop_Failed = ''failed''"
| "loop_end_text Loop_Budget = ''budget_exhausted''"

primrec finish_status_from_loop_end :: "loop_end_reason \<Rightarrow> string" where
  "finish_status_from_loop_end Loop_Cancelled = ''cancelled''"
| "finish_status_from_loop_end Loop_Failed = ''failed''"
| "finish_status_from_loop_end Loop_Budget = ''failed''"
| "finish_status_from_loop_end Loop_No_Tools = ''completed''"
| "finish_status_from_loop_end Loop_Max_Turns = ''completed''"

record segment_result =
  sg_reason :: loop_end_reason
  sg_turns :: nat
  sg_history :: "tool_exchange list"

definition segment_end_with ::
  "loop_end_reason \<Rightarrow> nat \<Rightarrow> tool_exchange list list \<Rightarrow> segment_result" where
  "segment_end_with reason turns rounds =
     \<lparr>sg_reason = reason, sg_turns = turns, sg_history = flatten_tool_rounds rounds\<rparr>"

text \<open>The recovery after the tools, without an answer of the model: the retry or the synthesis.\<close>

definition recover_answer ::
  "'w agent_env \<Rightarrow> int option \<Rightarrow> loop_params \<Rightarrow> string \<Rightarrow> tool_exchange list list \<Rightarrow> int option
    \<Rightarrow> 'w loop_state \<Rightarrow> 'w loop_state" where
  "recover_answer env d P input rounds max_turns s =
     (case retry_final_answer env d P input rounds s of
        (s1, True) \<Rightarrow> s1
      | (s1, False) \<Rightarrow>
          (case recovery_answer_for_run (env_library env) (lp_run P) (flatten_tool_rounds rounds) of
             None \<Rightarrow> panic s1
           | Some answer \<Rightarrow> fst (send_recovered env d answer max_turns s1)))"

text \<open>The turns of a segment; the number of turns left is the first number.\<close>

fun segment_turns ::
  "'w agent_env \<Rightarrow> int option \<Rightarrow> string \<Rightarrow> int \<Rightarrow> nat \<Rightarrow> nat \<Rightarrow> loop_params \<Rightarrow> tool_exchange list list
    \<Rightarrow> 'w loop_state \<Rightarrow> 'w loop_state \<times> segment_result" where
  "segment_turns env d input max_turns 0 used P rounds s =
     (if rounds \<noteq> []
      then (recover_answer env d P input rounds (Some max_turns) s,
            segment_end_with Loop_Max_Turns used rounds)
      else (send env d (Error_Sent (''provider exceeded tool turn limit ('' @ int_dec max_turns @ '')'')
              ''failed'') s, segment_end_with Loop_Failed used rounds))"
| "segment_turns env d input max_turns (Suc left) used P0 rounds s =
     (let P = refresh_contexts s P0
      in case acquire_provider_permit env P s of
           (s1, Some perr) \<Rightarrow>
             (send env d (Error_Sent perr ''failed'') s1, segment_end_with Loop_Failed used rounds)
         | (s1, None) \<Rightarrow>
             (case call_provider env d P (request_for P input
                     (available_tools_for_options available_tools (lp_options P)) rounds) s1 of
                (s2, c, err) \<Rightarrow>
                  (case check_ctx env d s2 of (s3, cerr) \<Rightarrow>
                   if cerr \<noteq> None then (s3, segment_end_with Loop_Cancelled (Suc used) rounds)
                   else case err of
                     Some e \<Rightarrow>
                       (send env d (Error_Sent e ''failed'') s3,
                        segment_end_with Loop_Failed (Suc used) rounds)
                   | None \<Rightarrow>
                       if cs_calls c = []
                       then (if \<not> cs_text c \<and> flatten_tool_rounds rounds \<noteq> []
                             then recover_answer env d P input rounds None s3 else s3,
                             segment_end_with Loop_No_Tools (Suc used) rounds)
                       else (case execute_tool_batch env d P (cs_calls c) s3 of
                               (s4, exchanges, cancelled) \<Rightarrow>
                                 let rounds1 = (if exchanges \<noteq> [] then rounds @ [exchanges] else rounds)
                                 in if cancelled
                                    then (s4, segment_end_with Loop_Cancelled (Suc used) rounds1)
                                    else segment_turns env d input max_turns left (Suc used) P rounds1
                                           s4))))"

definition run_provider_loop_segment ::
  "'w agent_env \<Rightarrow> int option \<Rightarrow> loop_params \<Rightarrow> string \<Rightarrow> tool_exchange list \<Rightarrow> 'w loop_state
    \<Rightarrow> 'w loop_state \<times> segment_result" where
  "run_provider_loop_segment env d P input history s =
     (let max_turns = effective_provider_tool_turns (env_max_turns env) (lp_options P)
      in segment_turns env d input max_turns (nat max_turns) 0 P
           (if history \<noteq> [] then [history] else []) s)"

end
