(* ===== verification/Agent_Run.thy ===== *)
theory Agent_Run
  imports Agent_Segment
begin

text \<open>
  The goal loop around the segments of a reply (\<^verbatim>\<open>runtime/goal_loop.go\<close>) and the reply itself
  (\<^verbatim>\<open>emitRun\<close> of \<^verbatim>\<open>runtime/runtime.go\<close>). The goal loop has fuel, one unit for each segment; that
  enough fuel gives a result is a property of its own.
\<close>

subsection \<open>The goal of the run\<close>

definition seed_run_goal :: "string \<Rightarrow> loop_params \<Rightarrow> run_goal_state option" where
  "seed_run_goal env_text P =
     (let turns = effective_provider_tool_turns env_text (lp_options P);
          bound = (\<lambda>g. Some \<lparr>rgs_goal = g, rgs_bound = True, rgs_was_bound = True, rgs_terminal = False\<rparr>)
      in case lp_goal_context P of
           Some gc \<Rightarrow>
             bound \<lparr>lg_id = (if gc_goal_id gc = [] then opt_goal_id (lp_options P) else gc_goal_id gc),
               lg_session_id = lp_session P, lg_title = gc_title gc, lg_objective = gc_objective gc,
               lg_success_criteria = gc_success_criteria gc,
               lg_status = rt_first_non_blank [gc_status gc, ''active''],
               lg_pipeline_phase = gc_pipeline_phase gc, lg_fail_reason = [],
               lg_analysis_summary = gc_analysis_summary gc,
               lg_checkpoint_summary = gc_checkpoint_summary gc, lg_progress_note = gc_progress_note gc,
               lg_used_tool_turns = gc_used_tool_turns gc,
               lg_max_total_tool_turns = first_positive [gc_max_total_tool_turns gc, 96],
               lg_used_segments = gc_used_segments gc,
               lg_max_segments_per_run =
                 first_positive [gc_max_segments_per_run gc, default_goal_max_segments_per_run],
               lg_max_tool_turns_seg = first_positive [gc_max_tool_turns_seg gc, turns, 12],
               lg_used_wall_time_sec = gc_used_wall_time_sec gc,
               lg_max_wall_time_sec = gc_max_wall_time_sec gc\<rparr>
         | None \<Rightarrow>
             if trim_space (opt_goal_id (lp_options P)) = [] then None
             else bound \<lparr>lg_id = opt_goal_id (lp_options P), lg_session_id = lp_session P, lg_title = [],
               lg_objective = [], lg_success_criteria = [], lg_status = ''active'',
               lg_pipeline_phase = [], lg_fail_reason = [], lg_analysis_summary = [],
               lg_checkpoint_summary = [], lg_progress_note = [], lg_used_tool_turns = 0,
               lg_max_total_tool_turns = 96, lg_used_segments = 0,
               lg_max_segments_per_run = default_goal_max_segments_per_run,
               lg_max_tool_turns_seg = first_positive [turns, 12], lg_used_wall_time_sec = 0,
               lg_max_wall_time_sec = 0\<rparr>)"

text \<open>\<^verbatim>\<open>seedRunGoalFromParams\<close> leaves an older snapshot of the run when there is nothing to seed.\<close>

definition seed_run_goal_in :: "'w agent_env \<Rightarrow> loop_params \<Rightarrow> 'w loop_state \<Rightarrow> 'w loop_state" where
  "seed_run_goal_in env P s =
     (case seed_run_goal (env_max_turns env) P of
        Some g \<Rightarrow> s\<lparr>ls_goal := Some g\<rparr> | None \<Rightarrow> s)"

definition report_goal_budget_exhausted ::
  "'w agent_env \<Rightarrow> string \<Rightarrow> nat \<Rightarrow> nat \<Rightarrow> 'w loop_state \<Rightarrow> 'w loop_state" where
  "report_goal_budget_exhausted env goal index delta s =
     (case env_segment_end env
        \<lparr>rp_goal = goal, rp_index = index, rp_delta = delta, rp_exhausted = True\<rparr> (ls_world s) of
        (w, None) \<Rightarrow> s\<lparr>ls_world := w\<rparr>
      | (w, Some g) \<Rightarrow>
          s\<lparr>ls_world := w, ls_goal := apply_goal_tool_result ''segment_end'' g (ls_goal s)\<rparr>)"

text \<open>The goal after a report that failed: the segment is charged to the snapshot.\<close>

definition charge_locally :: "nat \<Rightarrow> run_goal_state \<Rightarrow> run_goal_state" where
  "charge_locally delta st =
     (let g = (rgs_goal st)\<lparr>lg_used_tool_turns := lg_used_tool_turns (rgs_goal st) + int delta,
                            lg_used_segments := lg_used_segments (rgs_goal st) + 1\<rparr>
      in if lg_max_total_tool_turns g > 0 \<and> lg_used_tool_turns g \<ge> lg_max_total_tool_turns g
         then st\<lparr>rgs_goal := g\<lparr>lg_status := ''failed'', lg_fail_reason := ''budget_exhausted''\<rparr>,
                 rgs_terminal := True, rgs_bound := False\<rparr>
         else st\<lparr>rgs_goal := g\<rparr>)"

definition report_segment_end ::
  "'w agent_env \<Rightarrow> string \<Rightarrow> nat \<Rightarrow> nat \<Rightarrow> 'w loop_state \<Rightarrow> 'w loop_state" where
  "report_segment_end env goal index delta s =
     (if delta = 0 \<or> goal = [] then s
      else case env_segment_end env
             \<lparr>rp_goal = goal, rp_index = index, rp_delta = delta, rp_exhausted = False\<rparr> (ls_world s) of
             (w, None) \<Rightarrow> s\<lparr>ls_world := w, ls_goal := map_option (charge_locally delta) (ls_goal s)\<rparr>
           | (w, Some g) \<Rightarrow>
               s\<lparr>ls_world := w, ls_goal := apply_goal_tool_result ''segment_end'' g (ls_goal s)\<rparr>)"

text \<open>
  The deadline of the goal's wall time: the context of the loop, and whether the loop may go on.
  It is configured once. Instants are in nanoseconds.
\<close>

definition configure_deadline ::
  "'w agent_env \<Rightarrow> int \<Rightarrow> int option \<Rightarrow> nat \<Rightarrow> 'w loop_state \<Rightarrow> 'w loop_state \<times> int option \<times> bool" where
  "configure_deadline env started d index s =
     (case ls_goal s of
        None \<Rightarrow> (s, d, True)
      | Some st \<Rightarrow>
          if d \<noteq> None \<or> \<not> rgs_bound st \<or> lg_max_wall_time_sec (rgs_goal st) \<le> 0 then (s, d, True)
          else let w = env_tick env (ls_world s);
                   remaining = (lg_max_wall_time_sec (rgs_goal st) - lg_used_wall_time_sec (rgs_goal st))
                     * 1000000000 - (env_now env w - started);
                   s1 = s\<lparr>ls_world := w\<rparr>
               in if remaining \<le> 0
                  then (report_goal_budget_exhausted env (lg_id (rgs_goal st)) index 0 s1, d, False)
                  else (s1, Some (env_now env w + remaining), True))"

subsection \<open>The goal loop\<close>

text \<open>
  The end of a pass of the loop, once the segment is reported: the result the loop returns, or
  the new limit of segments if it goes on.
\<close>

definition next_segment ::
  "run_goal_state option \<Rightarrow> nat \<Rightarrow> int \<Rightarrow> segment_result \<Rightarrow> int option" where
  "next_segment state seg max_seg last_result =
     (if sg_reason last_result \<in> {Loop_Cancelled, Loop_Failed, Loop_Budget} then None
      else case state of
        None \<Rightarrow> None
      | Some st \<Rightarrow>
          if rgs_terminal st \<or> \<not> rgs_bound st then None
          else let want = goal_run_segment_limit (rgs_goal st) (int seg + 1);
                   max_seg1 = (if want > max_seg then want else max_seg)
               in if lg_max_total_tool_turns (rgs_goal st) > 0
                     \<and> lg_used_tool_turns (rgs_goal st) \<ge> lg_max_total_tool_turns (rgs_goal st) then None
                  else if int seg + 1 \<ge> max_seg1 then None
                  else Some max_seg1)"

definition with_reason :: "loop_end_reason \<Rightarrow> segment_result \<Rightarrow> segment_result" where
  "with_reason reason r = r\<lparr>sg_reason := reason\<rparr>"

definition no_segment :: segment_result where
  "no_segment = \<lparr>sg_reason = Loop_No_Tools, sg_turns = 0, sg_history = []\<rparr>"

text \<open>One pass up to the decision: the state, the deadline and the result, final or not.\<close>

definition goal_pass ::
  "'w agent_env \<Rightarrow> int \<Rightarrow> int option \<Rightarrow> nat \<Rightarrow> loop_params \<Rightarrow> string \<Rightarrow> tool_exchange list
    \<Rightarrow> segment_result \<Rightarrow> 'w loop_state \<Rightarrow> 'w loop_state \<times> int option \<times> segment_result \<times> bool" where
  "goal_pass env started d seg P segment_input seed_history last_result s0 =
     (case check_ctx env d s0 of
        (s1, Some Ctx_Cancelled) \<Rightarrow> (s1, d, with_reason Loop_Cancelled last_result, True)
      | (s1, Some Ctx_Deadline) \<Rightarrow>
          (case check_ctx env None s1 of
             (s2, Some _) \<Rightarrow> (s2, d, with_reason Loop_Cancelled last_result, True)
           | (s2, None) \<Rightarrow>
               ((case ls_goal s2 of
                   Some st \<Rightarrow> report_goal_budget_exhausted env (lg_id (rgs_goal st)) seg
                                (sg_turns last_result) s2
                 | None \<Rightarrow> s2), d, with_reason Loop_Budget last_result, True))
      | (s1, None) \<Rightarrow>
          (let P1 = refresh_contexts s1 P;
               P2 = (case ls_goal s1 of
                       Some st \<Rightarrow> if lg_max_tool_turns_seg (rgs_goal st) > 0
                                 then P1\<lparr>lp_options := (lp_options P1)\<lparr>opt_max_tool_turns :=
                                        lg_max_tool_turns_seg (rgs_goal st)\<rparr>\<rparr> else P1
                     | None \<Rightarrow> P1)
           in case run_provider_loop_segment env d P2 segment_input seed_history s1 of
                (s2, r) \<Rightarrow>
                  let s3 = (case ls_goal s2 of
                              Some st \<Rightarrow>
                                if rgs_was_bound st \<and> lg_id (rgs_goal st) \<noteq> [] \<and> sg_turns r > 0
                                then report_segment_end env (lg_id (rgs_goal st)) seg (sg_turns r) s2
                                else s2
                            | None \<Rightarrow> s2)
                  in case check_ctx env d s3 of (s4, err) \<Rightarrow>
                     case check_ctx env None s4 of (s5, outer) \<Rightarrow>
                     if err = Some Ctx_Deadline \<and> outer = None
                     then ((case ls_goal s5 of
                              Some st \<Rightarrow> report_goal_budget_exhausted env (lg_id (rgs_goal st)) seg
                                           (sg_turns r) s5
                            | None \<Rightarrow> s5), d, with_reason Loop_Budget r, True)
                     else case configure_deadline env started d seg s5 of
                            (s6, d1, ok) \<Rightarrow>
                              if \<not> ok then (s6, d1, with_reason Loop_Budget r, True)
                              else (s6, d1, r, False)))"

fun goal_loop ::
  "'w agent_env \<Rightarrow> string \<Rightarrow> int \<Rightarrow> nat \<Rightarrow> nat \<Rightarrow> int \<Rightarrow> int option \<Rightarrow> loop_params \<Rightarrow> string
    \<Rightarrow> tool_exchange list \<Rightarrow> segment_result \<Rightarrow> 'w loop_state \<Rightarrow> ('w loop_state \<times> segment_result) option" where
  "goal_loop env input started 0 seg max_seg d P segment_input seed_history last_result s = None"
| "goal_loop env input started (Suc fuel) seg max_seg d P segment_input seed_history last_result s =
     (case goal_pass env started d seg P segment_input seed_history last_result s of
        (s1, d1, r, True) \<Rightarrow> Some (s1, r)
      | (s1, d1, r, False) \<Rightarrow>
          (case next_segment (ls_goal s1) seg max_seg r of
             None \<Rightarrow> Some (s1, r)
           | Some max_seg1 \<Rightarrow>
               goal_loop env input started fuel (Suc seg) max_seg1 d1 P
                 (goal_continuation_prompt input (map_option rgs_goal (ls_goal s1)) (int seg + 1)
                    (loop_end_text (sg_reason r)))
                 (carry_summarized_history (sg_history r) carry_summarized_k carry_summarized_max_runes)
                 r s1))"

definition first_segment_limit :: "run_goal_state option \<Rightarrow> int" where
  "first_segment_limit state =
     (case state of
        Some st \<Rightarrow> if rgs_bound st \<and> \<not> rgs_terminal st then goal_run_segment_limit (rgs_goal st) 0 else 1
      | None \<Rightarrow> 1)"

definition run_with_goal_loop ::
  "'w agent_env \<Rightarrow> nat \<Rightarrow> loop_params \<Rightarrow> string \<Rightarrow> tool_exchange list \<Rightarrow> 'w loop_state
    \<Rightarrow> ('w loop_state \<times> segment_result) option" where
  "run_with_goal_loop env fuel P input history s0 =
     (let s = seed_run_goal_in env P s0;
          started = env_now env (ls_world s)
      in case configure_deadline env started None 0 s of
           (s1, d, False) \<Rightarrow> Some (s1, with_reason Loop_Budget no_segment)
         | (s1, d, True) \<Rightarrow>
             goal_loop env input started fuel 0 (first_segment_limit (ls_goal s1)) d P input history
               no_segment s1)"

subsection \<open>The reply\<close>

definition finish_event_of :: "string \<Rightarrow> finish_event" where
  "finish_event_of status =
     \<lparr>fe_status = status, fe_reason = None, fe_turns = None, fe_max_turns_reached = False\<rparr>"

definition emit_cancelled :: "'w loop_state \<Rightarrow> 'w loop_state" where
  "emit_cancelled s = record_event (Reply_Finished (finish_event_of ''cancelled'')) s"

definition checkpoint_request :: "loop_params \<Rightarrow> permission_request" where
  "checkpoint_request P =
     \<lparr>pr_permission_id = ''perm_'' @ lp_run P, pr_run_id = lp_run P,
      pr_tool_call_id = ''checkpoint_'' @ lp_run P, pr_tool_name = ''runtime.continue'',
      pr_risk = risk_medium,
      pr_summary = ''Allow Runtime MVP to continue past the protected checkpoint.'',
      pr_detail = ''This validates the desktop, gateway, and Agent Runtime permission flow.'',
      pr_arguments = Some [(''text'', GStr (lp_text P))]\<rparr>"

text \<open>The events about skills and memories before anything else happens.\<close>

definition memory_ids :: "memory_context \<Rightarrow> string list" where
  "memory_ids m =
     filter (\<lambda>i. i \<noteq> []) (map (\<lambda>v. case v of GMap kv \<Rightarrow> string_arg kv ''id'' | _ \<Rightarrow> []) (mc_items m))"

definition emit_injected :: "'w agent_env \<Rightarrow> loop_params \<Rightarrow> 'w loop_state \<Rightarrow> 'w loop_state" where
  "emit_injected env P s =
     (let s1 = (case env_skills env (ls_world s) of
                  Some (names, chars) \<Rightarrow>
                    send env None (Skills_Injected (filter (\<lambda>n. n \<noteq> []) names) chars) s
                | None \<Rightarrow> s)
      in case opt_memory_context (lp_options P) of
           Some m \<Rightarrow>
             if mc_items m = [] then s1
             else send env None (Memory_Injected (memory_ids m) (length (mc_items m))
                    (length (mc_context m))) s1
         | None \<Rightarrow> s1)"

text \<open>The end of a reply, given the result of the goal loop.\<close>

definition finish_reply :: "'w agent_env \<Rightarrow> segment_result \<Rightarrow> 'w loop_state \<Rightarrow> 'w loop_state" where
  "finish_reply env r s0 =
     (let s1 = (if has_goal s0
                then case check_ctx env None s0 of
                       (t, None) \<Rightarrow>
                         (case emit_event env None
                            (Message_Delta \<lparr>de_seq = ls_seq t, de_final = True, de_text = [],
                               de_recovered = False, de_max_turns = None\<rparr>) t of
                            (t1, ok) \<Rightarrow> t1\<lparr>ls_seq := ls_seq t1 + 1\<rparr>)
                     | (t, Some err) \<Rightarrow> t
                else s0);
          s2 = s1\<lparr>ls_goal := None, ls_todos := []\<rparr>;
          status = finish_status_from_loop_end (sg_reason r);
          reason = Some (loop_end_text (sg_reason r))
      in if status = ''cancelled'' then emit_cancelled s2
         else if status \<noteq> ''completed''
         then send env None (Reply_Finished ((finish_event_of status)\<lparr>fe_reason := reason\<rparr>)) s2
         else case check_ctx env None s2 of
                (s3, Some err) \<Rightarrow> emit_cancelled s3
              | (s3, None) \<Rightarrow>
                  (case check_ctx env None s3 of
                     (s4, Some err) \<Rightarrow> emit_cancelled s4
                   | (s4, None) \<Rightarrow>
                       send env None (Reply_Finished
                         \<lparr>fe_status = ''completed'', fe_reason = reason, fe_turns = Some (sg_turns r),
                          fe_max_turns_reached = (sg_reason r = Loop_Max_Turns)\<rparr>) s4))"

definition checked_continue ::
  "'w agent_env \<Rightarrow> nat \<Rightarrow> loop_params \<Rightarrow> string \<Rightarrow> tool_exchange list \<Rightarrow> 'w loop_state
    \<Rightarrow> 'w loop_state option" where
  "checked_continue env fuel P input history s =
     map_option (\<lambda>(s1, r). finish_reply env r s1) (run_with_goal_loop env fuel P input history s)"

text \<open>After the checkpoint: a slash command of the user runs its tool before the loop.\<close>

definition run_reply ::
  "'w agent_env \<Rightarrow> nat \<Rightarrow> loop_params \<Rightarrow> 'w loop_state \<Rightarrow> 'w loop_state option" where
  "run_reply env fuel P s =
     (case parse_tool_command (lp_text P) (lp_run P) of
        None \<Rightarrow> checked_continue env fuel P (lp_text P) [] s
      | Some invocation \<Rightarrow>
          (case execute_tool_in env None P invocation s of
             (s1, result, output, False) \<Rightarrow>
               (case check_ctx env None s1 of
                  (s2, Some err) \<Rightarrow> Some (emit_cancelled s2)
                | (s2, None) \<Rightarrow>
                    Some (send env None (Reply_Finished (finish_event_of (tr_status result)))
                      (send env None (Error_Sent (tr_error result) (tr_status result)) s2)))
           | (s1, result, output, True) \<Rightarrow>
               checked_continue env fuel P
                 (''User request:'' @ [CHR 0x0A] @ lp_text P @ [CHR 0x0A, CHR 0x0A] @ ''Tool ''
                  @ tr_name result @ '' result:'' @ [CHR 0x0A] @ output)
                 [\<lparr>te_call = invocation, te_result = result\<rparr>] s1))"

definition emit_run ::
  "'w agent_env \<Rightarrow> nat \<Rightarrow> loop_params \<Rightarrow> 'w loop_state \<Rightarrow> 'w loop_state option" where
  "emit_run env fuel P s0 =
     (let s = emit_injected env P s0
      in if \<not> opt_require_permission (lp_options P) then run_reply env fuel P s
         else let request = checkpoint_request P;
                  s1 = send env None (Tool_Event (Permission_Requested request)) s
              in case env_ask env request (ls_world s1) of
                   (w, None) \<Rightarrow>
                     (case check_ctx env None (s1\<lparr>ls_world := w\<rparr>) of
                        (s2, Some err) \<Rightarrow> Some (emit_cancelled s2)
                      | (s2, None) \<Rightarrow>
                          Some (send env None
                            (Error_Sent ''permission request was not resolved'' ''failed'') s2))
                 | (w, Some answer) \<Rightarrow>
                     let s2 = s1\<lparr>ls_world := w\<rparr>
                     in if answer \<noteq> ''approve''
                        then Some (send env None (Reply_Finished (finish_event_of ''denied''))
                               (send env None (Error_Sent ''permission denied'' ''denied'') s2))
                        else let s3 = send env None
                                   (Message_Delta \<lparr>de_seq = ls_seq s2, de_final = False,
                                      de_text = ''permission approved'' @ [CHR 0x0A],
                                      de_recovered = False, de_max_turns = None\<rparr>) s2
                             in run_reply env fuel P (s3\<lparr>ls_seq := ls_seq s3 + 1\<rparr>))"

end
