(* ===== verification/Agent_Steps.thy ===== *)
theory Agent_Steps
  imports Agent_Run
begin

text \<open>
  Relations between two states of a reply that every step of it respects. A locale names the
  elementary steps: time passes, an event is recorded, a part of the answer is sent, the outside
  answers. Inside it, once for all relations, each function of the reply is shown to respect the
  relation. The number a relation carries counts the calls of the provider.
\<close>

subsection \<open>Events a reply may record before its end\<close>

text \<open>The call is allowed by the policy, or its permission was asked for and approved.\<close>

definition call_permitted :: "'w agent_env \<Rightarrow> loop_params \<Rightarrow> tool_call \<Rightarrow> bool" where
  "call_permitted env P call \<longleftrightarrow>
     dec_action (evaluate_tool_policy (lp_options P) call) = Decision_Allow
     \<or> dec_action (evaluate_tool_policy (lp_options P) call) = Decision_Require_Permission
       \<and> (\<exists>w. snd (env_ask env (permission_request_for (lp_run P) call) w) = Some ''approve'')"

definition loop_event_ok :: "'w agent_env \<Rightarrow> loop_params \<Rightarrow> loop_event \<Rightarrow> bool" where
  "loop_event_ok env P e \<longleftrightarrow>
     (\<forall>c. e = Tool_Event (Tool_Ran c) \<longrightarrow> call_permitted env P c)
     \<and> (\<forall>q. e = Provider_Called q \<longrightarrow> (\<forall>t \<in> set (pq_tools q). tool_offered (lp_options P) (td_name t)))
     \<and> (\<forall>f. e \<noteq> Reply_Finished f)"

definition is_delta :: "loop_event \<Rightarrow> bool" where
  "is_delta e \<longleftrightarrow> (\<exists>de. e = Message_Delta de)"

definition is_provider_call :: "loop_event \<Rightarrow> bool" where
  "is_provider_call e \<longleftrightarrow> (\<exists>q. e = Provider_Called q)"

lemma event_kinds [simp]:
  "is_delta (Message_Delta de)" "\<not> is_delta (Tool_Event x)" "\<not> is_delta (Provider_Called q)"
  "\<not> is_delta (Error_Sent a b)" "\<not> is_delta (Skills_Injected n k)" "\<not> is_delta (Memory_Injected i k c)"
  "\<not> is_delta (Reply_Finished f)"
  "\<not> is_provider_call (Message_Delta de)" "\<not> is_provider_call (Tool_Event x)"
  "is_provider_call (Provider_Called q)" "\<not> is_provider_call (Error_Sent a b)"
  "\<not> is_provider_call (Skills_Injected n k)" "\<not> is_provider_call (Memory_Injected i k c)"
  "\<not> is_provider_call (Reply_Finished f)"
  by (auto simp: is_delta_def is_provider_call_def)

text \<open>A reply changes the options it was given in one respect only: the turns of a segment.\<close>

definition same_rights :: "loop_params \<Rightarrow> loop_params \<Rightarrow> bool" where
  "same_rights P Q \<longleftrightarrow> lp_run Q = lp_run P \<and>
     (\<exists>n. lp_options Q = (lp_options P)\<lparr>opt_max_tool_turns := n\<rparr>)"

lemma policy_ignores_turns [simp]:
  "evaluate_tool_policy (opts\<lparr>opt_max_tool_turns := n\<rparr>) call = evaluate_tool_policy opts call"
  "tool_offered (opts\<lparr>opt_max_tool_turns := n\<rparr>) name = tool_offered opts name"
  by (simp_all add: policy_defs tool_offered_def cong: if_cong)

lemma same_rights_policy:
  assumes "same_rights P Q"
  shows "evaluate_tool_policy (lp_options Q) call = evaluate_tool_policy (lp_options P) call"
    and "tool_offered (lp_options Q) name = tool_offered (lp_options P) name"
    and "lp_run Q = lp_run P"
  using assms by (auto simp: same_rights_def)

lemma same_rights_refl [simp]: "same_rights P P"
  by (auto simp: same_rights_def intro!: exI [of _ "opt_max_tool_turns (lp_options P)"])

lemma refresh_same_rights [simp]: "same_rights P (refresh_contexts s Q) \<longleftrightarrow> same_rights P Q"
  by (auto simp: same_rights_def refresh_contexts_def Let_def split: option.splits)

lemma same_rights_turns: "same_rights P Q \<Longrightarrow>
    same_rights P (Q\<lparr>lp_options := (lp_options Q)\<lparr>opt_max_tool_turns := n\<rparr>\<rparr>)"
  by (auto simp: same_rights_def)

text \<open>
  The end of a reply: a finish event after everything else, unless the run may be cancelled or
  the process has panicked.
\<close>

definition closes :: "'w agent_env \<Rightarrow> 'w loop_state \<Rightarrow> 'w loop_state \<Rightarrow> bool" where
  "closes env u t \<longleftrightarrow>
     (\<exists>f. ls_trace t = ls_trace u @ [Reply_Finished f])
     \<or> ls_trace t = ls_trace u \<and> ((\<exists>w. env_cancelled env w) \<or> ls_panicked t)"

lemma check_ctx_keeps:
  assumes "check_ctx env d s = (t, err)"
  shows "ls_trace t = ls_trace s" "ls_panicked t = ls_panicked s" "ls_seq t = ls_seq s"
    "ls_goal t = ls_goal s" "ls_todos t = ls_todos s"
  using assms by (auto simp: check_ctx_def Let_def)

lemma check_ctx_root: "check_ctx env None s = (t, Some err) \<Longrightarrow> \<exists>w. env_cancelled env w"
  by (auto simp: check_ctx_def ctx_error_at_def Let_def split: if_splits)

lemma closes_send: "ls_trace u = ls_trace s \<Longrightarrow> closes env u (send env None (Reply_Finished f) s)"
proof -
  assume tr: "ls_trace u = ls_trace s"
  obtain s1 err where c: "check_ctx env None s = (s1, err)" by fastforce
  show ?thesis
    using tr check_ctx_keeps [OF c] check_ctx_root [of env s s1] c
    by (cases err) (auto simp: closes_def send_def emit_event_def record_event_def)
qed

lemma closes_cancelled: "ls_trace u = ls_trace s \<Longrightarrow> closes env u (emit_cancelled s)"
  by (auto simp: closes_def emit_cancelled_def record_event_def)

subsection \<open>Steps\<close>

locale loop_steps =
  fixes env :: "'w agent_env" and P0 :: loop_params
    and R :: "nat \<Rightarrow> 'w loop_state \<Rightarrow> 'w loop_state \<Rightarrow> bool"
  assumes R_refl: "R 0 s s"
    and R_trans: "R j s t \<Longrightarrow> R k t u \<Longrightarrow> R (j + k) s u"
    and R_mono: "R j s t \<Longrightarrow> j \<le> k \<Longrightarrow> R k s t"
    and R_tick: "R 0 s (s\<lparr>ls_world := env_tick env (ls_world s)\<rparr>)"
    and R_record: "loop_event_ok env P0 e \<Longrightarrow> \<not> is_delta e \<Longrightarrow>
          R (if is_provider_call e then 1 else 0) s (record_event e s)"
    and R_delta: "de_seq de = ls_seq s \<Longrightarrow>
          R 0 s ((record_event (Message_Delta de) s)\<lparr>ls_seq := ls_seq s + 1\<rparr>)"
    and R_skip: "R 0 s (s\<lparr>ls_seq := ls_seq s + 1\<rparr>)"
    and R_panic: "R 0 s (panic s)"
    and R_permit: "R 0 s (s\<lparr>ls_world := fst (env_permit env (ls_world s))\<rparr>)"
    and R_release: "R 0 s (s\<lparr>ls_world := env_release env (ls_world s)\<rparr>)"
    and R_complete: "R 0 s (s\<lparr>ls_world := fst (env_complete env q (ls_world s))\<rparr>)"
    and R_ask: "R 0 s (s\<lparr>ls_world := fst (env_ask env request (ls_world s))\<rparr>)"
    and R_dispatch: "env_dispatch env call (ls_world s) = (w, out) \<Longrightarrow>
          R 0 s (keep_snapshots call out (s\<lparr>ls_world := w\<rparr>))"
    and R_report: "env_segment_end env rp (ls_world s) = (w, Some g) \<Longrightarrow>
          R 0 s (s\<lparr>ls_world := w, ls_goal := apply_goal_tool_result ''segment_end'' g (ls_goal s)\<rparr>)"
    and R_report_failed: "env_segment_end env rp (ls_world s) = (w, None) \<Longrightarrow> R 0 s (s\<lparr>ls_world := w\<rparr>)"
    and R_charge: "R 0 s (s\<lparr>ls_goal := map_option (charge_locally n) (ls_goal s)\<rparr>)"
begin

lemma R_step: "R k s t \<Longrightarrow> R 0 t u \<Longrightarrow> R k s u"
  using R_trans [of k s t 0 u] by simp

lemma R_step0: "R 0 s t \<Longrightarrow> R k t u \<Longrightarrow> R k s u"
  using R_trans [of 0 s t k u] by simp

lemma R_check: "check_ctx env d s = (t, err) \<Longrightarrow> R 0 s t"
  using R_tick [of s] by (auto simp: check_ctx_def Let_def)

lemma R_emit:
  assumes "loop_event_ok env P0 e" "\<not> is_delta e" "\<not> is_provider_call e"
    and "emit_event env d e s = (t, ok)"
  shows "R 0 s t"
proof -
  obtain s1 err where c: "check_ctx env d s = (s1, err)" by fastforce
  have "R 0 s1 (record_event e s1)" using R_record [OF assms(1,2), of s1] assms(3) by simp
  then show ?thesis
    using assms(4) c R_check [OF c] R_step [OF R_check [OF c]]
    by (auto simp: emit_event_def split: option.splits)
qed

lemma R_send:
  "loop_event_ok env P0 e \<Longrightarrow> \<not> is_delta e \<Longrightarrow> \<not> is_provider_call e \<Longrightarrow> R 0 s (send env d e s)"
  using R_emit [of e d s] unfolding send_def by (metis prod.collapse)

lemma R_send_delta:
  assumes "emit_event env d (Message_Delta de) s = (t, ok)" and "de_seq de = ls_seq s"
  shows "R 0 s (t\<lparr>ls_seq := ls_seq t + 1\<rparr>)"
proof -
  obtain s1 err where c: "check_ctx env d s = (s1, err)" by fastforce
  then have seq: "ls_seq s1 = ls_seq s" by (auto simp: check_ctx_def Let_def)
  have "R 0 s1 (t\<lparr>ls_seq := ls_seq t + 1\<rparr>)"
    using assms c seq R_skip [of s1] R_delta [of de s1]
    by (auto simp: emit_event_def record_event_def split: option.splits if_splits)
  then show ?thesis using R_step0 R_check [OF c] by blast
qed

lemma R_fold_send:
  assumes "\<And>e. e \<in> set es \<Longrightarrow> loop_event_ok env P0 (Tool_Event e)"
  shows "R 0 s (fold (\<lambda>e. send env d (Tool_Event e)) es s)"
  using assms
proof (induction es arbitrary: s)
  case Nil
  then show ?case by (simp add: R_refl)
next
  case (Cons e es)
  have "R 0 s (send env d (Tool_Event e) s)" using Cons.prems by (intro R_send) auto
  then show ?case using Cons.IH [of "send env d (Tool_Event e) s"] Cons.prems R_step by simp
qed

lemma tool_event_ok: "(\<And>c. x \<noteq> Tool_Ran c) \<Longrightarrow> loop_event_ok env P0 (Tool_Event x)"
  by (auto simp: loop_event_ok_def)

lemma R_run_tool:
  assumes "call_permitted env P0 call" and "run_tool env d call s = (t, r, out, ok)"
  shows "R 0 s t"
proof -
  let ?s1 = "record_event (Tool_Event (Tool_Ran call)) s"
  obtain w o1 where w: "env_dispatch env call (ls_world ?s1) = (w, o1)" by fastforce
  let ?s2 = "keep_snapshots call o1 (?s1\<lparr>ls_world := w\<rparr>)"
  have "loop_event_ok env P0 (Tool_Event (Tool_Ran call))" using assms(1) by (simp add: loop_event_ok_def)
  then have "R 0 s ?s1" using R_record [of "Tool_Event (Tool_Ran call)" s] by simp
  then have s2: "R 0 s ?s2" using R_step R_dispatch [OF w] by blast
  show ?thesis
  proof (cases "result_of_dispatch (env_library env) call o1")
    case None
    then have "t = panic ?s2" using assms(2) w by (simp add: run_tool_def Let_def)
    then show ?thesis using R_step [OF s2 R_panic] by simp
  next
    case (Some done_result)
    obtain r' out' ok' es where rep:
      "run_and_report (has_goal ?s2) (\<lambda>c. done_result) call = (r', out', ok', es)"
      by (cases "run_and_report (has_goal ?s2) (\<lambda>c. done_result) call")
    have t: "t = fold (\<lambda>e. send env d (Tool_Event e)) (tl es) ?s2"
      using assms(2) w Some rep by (simp add: run_tool_def Let_def)
    have "e \<in> set (tl es) \<Longrightarrow> loop_event_ok env P0 (Tool_Event e)" for e
      using rep by (intro tool_event_ok) (auto simp: run_and_report_def Let_def split: prod.splits if_splits)
    then show ?thesis unfolding t by (intro R_step [OF s2] R_fold_send)
  qed
qed

lemma R_execute_tool:
  assumes "same_rights P0 P" and "execute_tool_in env d P call s = (t, r, out, ok)"
  shows "R 0 s t"
proof -
  note rights = same_rights_policy [OF assms(1)]
  let ?s1 = "send env d (Tool_Event (Tool_Started call (evaluate_tool_policy (lp_options P) call))) s"
  have s1: "R 0 s ?s1" by (intro R_send tool_event_ok) auto
  have deny: "R 0 s2 (send env d (Tool_Event (Tool_Failed_Sent x)) s2)" for s2 x
    by (intro R_send tool_event_ok) auto
  show ?thesis
  proof (cases "dec_action (evaluate_tool_policy (lp_options P) call)")
    case Decision_Allow
    then have "call_permitted env P0 call" using rights by (simp add: call_permitted_def)
    then show ?thesis
      using assms(2) Decision_Allow R_run_tool R_step [OF s1]
      by (auto simp: execute_tool_in_def Let_def)
  next
    case Decision_Deny
    then show ?thesis
      using assms(2) R_step [OF s1 deny] by (auto simp: execute_tool_in_def Let_def)
  next
    case Decision_Require_Permission
    let ?req = "permission_request_for (lp_run P) call"
    let ?s2 = "send env d (Tool_Event (Permission_Requested ?req)) ?s1"
    obtain w answer where ask: "env_ask env ?req (ls_world ?s2) = (w, answer)" by fastforce
    have "R 0 ?s1 ?s2" by (intro R_send tool_event_ok) auto
    moreover have "R 0 ?s2 (?s2\<lparr>ls_world := w\<rparr>)" using R_ask [of ?s2 ?req] ask by simp
    ultimately have s3: "R 0 s (?s2\<lparr>ls_world := w\<rparr>)" using R_step s1 by blast
    show ?thesis
    proof (cases "answer = Some ''approve''")
      case True
      then have "call_permitted env P0 call"
        using rights ask Decision_Require_Permission
        by (auto simp: call_permitted_def intro!: exI [of _ "ls_world ?s2"])
      then show ?thesis
        using assms(2) Decision_Require_Permission ask True R_run_tool R_step [OF s3]
        by (auto simp: execute_tool_in_def Let_def)
    next
      case False
      then show ?thesis
        using assms(2) Decision_Require_Permission ask R_step [OF s3 deny]
        by (auto simp: execute_tool_in_def Let_def)
    qed
  qed
qed

lemma R_run_one: "same_rights P0 P \<Longrightarrow> R 0 (fst si) (fst (run_one env d P i si))"
proof -
  assume sr: "same_rights P0 P"
  obtain s items where si: "si = (s, items)" by fastforce
  show ?thesis
  proof (cases "invocation_from_call (lp_run P) i (bi_call (items ! i))")
    case (Inl e)
    have "R 0 s (send env d (Tool_Event (Tool_Failed_Sent x)) s)" for x
      by (intro R_send tool_event_ok) auto
    then show ?thesis using Inl si by (simp add: run_one_def Let_def)
  next
    case (Inr invocation)
    obtain t r out ok where x: "execute_tool_in env d P invocation s = (t, r, out, ok)"
      by (cases "execute_tool_in env d P invocation s")
    then show ?thesis using Inr si R_execute_tool [OF sr x] by (simp add: run_one_def Let_def)
  qed
qed

lemma R_run_worker: "same_rights P0 P \<Longrightarrow> R 0 (fst si) (fst (run_worker env d P i si))"
proof -
  assume sr: "same_rights P0 P"
  obtain s items where si: "si = (s, items)" by fastforce
  obtain s1 err where c: "check_ctx env d s = (s1, err)" by fastforce
  show ?thesis
    using R_check [OF c] R_step [OF R_check [OF c] R_run_one [OF sr, of "(s1, items)" d i, simplified]]
    by (cases err) (simp_all add: run_worker_def si c)
qed

lemma R_start_group: "R 0 s (fst (start_group env d is s))"
proof (induction "is" arbitrary: s)
  case (Cons i "is")
  obtain s1 err where c: "check_ctx env d s = (s1, err)" by fastforce
  show ?case
    using R_check [OF c] R_step [OF R_check [OF c] Cons.IH [of s1]]
    by (cases err; cases "start_group env d is s1") (simp_all add: c)
qed (simp add: R_refl)

lemma R_fold_worker: "same_rights P0 P \<Longrightarrow> R 0 (fst si) (fst (fold (run_worker env d P) is si))"
proof (induction "is" arbitrary: si)
  case (Cons i "is")
  show ?case
    using R_step [OF R_run_worker [OF Cons.prems] Cons.IH [OF Cons.prems]] by simp
qed (simp add: R_refl)

lemma R_run_group: "same_rights P0 P \<Longrightarrow> R 0 (fst si) (fst (run_group env d P is si))"
proof -
  assume sr: "same_rights P0 P"
  obtain s items where si: "si = (s, items)" by fastforce
  obtain s1 started where g: "start_group env d is s = (s1, started)" by fastforce
  have "R 0 s s1" using R_start_group [of s d "is"] g by simp
  then show ?thesis
    using R_step R_fold_worker [OF sr, of "(s1, items)" d "schedule env started (ls_world s1)"]
    by (simp add: run_group_def si g)
qed

lemma R_batch_loop: "same_rights P0 P \<Longrightarrow> R 0 (fst si) (fst (batch_loop env d P n i si))"
proof (induction "n - i" arbitrary: i si rule: less_induct)
  case less
  obtain s items where si: "si = (s, items)" by fastforce
  obtain s1 err where c: "check_ctx env d s = (s1, err)" by fastforce
  note c' = R_check [OF c]
  show ?case
  proof (cases "n \<le> i \<or> err \<noteq> None")
    case True
    then show ?thesis using c' si c by (subst batch_loop.simps) auto
  next
    case False
    let ?g = "group_length items i"
    have one: "R 0 s1 (fst (batch_loop env d P n (Suc i) (run_one env d P i (s1, items))))"
      using R_step [OF R_run_one [OF less.prems, of "(s1, items)" d i] less.hyps [of "Suc i"]] False
        less.prems by (simp add: diff_less_mono2)
    have "0 < ?g" by (simp add: group_length_def)
    then have "R 0 s1 (fst (batch_loop env d P n (i + ?g) (run_group env d P [i ..< i + ?g] (s1, items))))"
      using R_step [OF R_run_group [OF less.prems, of "(s1, items)" d "[i ..< i + ?g]"]
          less.hyps [of "i + ?g"]] False less.prems by (simp add: diff_less_mono2)
    with one show ?thesis
      using R_step [OF c'] False si c by (subst batch_loop.simps) simp
  qed
qed

lemma R_execute_batch:
  assumes "same_rights P0 P" "execute_tool_batch env d P calls s = (t, exchanges, cancelled)"
  shows "R 0 s t"
  using R_batch_loop [OF assms(1), of "(s, map new_item calls)" d "length calls" 0] assms(2)
  by (simp add: execute_tool_batch_def split: prod.splits)

subsection \<open>The segment\<close>

lemma R_consume_chunk: "R 0 (fst sc) (fst (fst (consume_provider_chunk env d chunk sc)))"
proof -
  obtain s c where sc: "sc = (s, c)" by fastforce
  obtain s1 err where x: "check_ctx env d s = (s1, err)" by fastforce
  let ?de = "\<lparr>de_seq = ls_seq s1, de_final = (ck_final chunk \<and> \<not> has_goal s1),
      de_text = ck_delta chunk, de_recovered = False, de_max_turns = None\<rparr>"
  obtain t ok where e: "emit_event env d (Message_Delta ?de) s1 = (t, ok)" by fastforce
  have "R 0 s1 (t\<lparr>ls_seq := ls_seq t + 1\<rparr>)" using R_send_delta [OF e] by simp
  then show ?thesis
    using R_check [OF x] R_step [OF R_check [OF x]]
    by (cases err) (auto simp: consume_provider_chunk_def sc x e Let_def)
qed

lemma R_consume_chunks: "R 0 (fst sc) (fst (fst (consume_chunks env d chunks sc)))"
proof (induction chunks arbitrary: sc)
  case (Cons chunk chunks)
  obtain sc1 ok where c: "consume_provider_chunk env d chunk sc = (sc1, ok)" by fastforce
  have "R 0 (fst sc) (fst sc1)" using R_consume_chunk [of sc d chunk] c by simp
  then show ?case using c R_step Cons.IH [of sc1] by (cases ok) auto
qed (simp add: R_refl)

lemma R_acquire: "acquire_provider_permit env P s = (t, err) \<Longrightarrow> R 0 s t"
  using R_permit [of s] R_refl by (auto simp: acquire_provider_permit_def split: if_splits prod.splits)

lemma R_release_permit: "R 0 s (release_provider_permit env P s)"
  using R_release R_refl by (simp add: release_provider_permit_def)

lemma R_provider_called:
  assumes "\<forall>t \<in> set (pq_tools q). tool_offered (lp_options P0) (td_name t)"
  shows "R 1 s ((record_event (Provider_Called q) s)\<lparr>ls_world :=
      fst (env_complete env q (ls_world (record_event (Provider_Called q) s)))\<rparr>)"
proof -
  have "loop_event_ok env P0 (Provider_Called q)" using assms by (simp add: loop_event_ok_def)
  then have "R 1 s (record_event (Provider_Called q) s)" using R_record [of "Provider_Called q" s] by simp
  then show ?thesis using R_step R_complete by blast
qed

lemma R_call_provider:
  assumes "\<forall>t \<in> set (pq_tools q). tool_offered (lp_options P0) (td_name t)"
    and "call_provider env d P q s = (t, c, err)"
  shows "R 1 s t"
proof -
  let ?s1 = "record_event (Provider_Called q) s"
  obtain w chunks perr where w: "env_complete env q (ls_world ?s1) = (w, chunks, perr)"
    by (cases "env_complete env q (ls_world ?s1)")
  let ?sc = "(?s1\<lparr>ls_world := w\<rparr>, \<lparr>cs_calls = [], cs_text = False\<rparr>)"
  obtain s2 c2 ok where k: "consume_chunks env d chunks ?sc = ((s2, c2), ok)" by (metis surj_pair)
  have "R 1 s (?s1\<lparr>ls_world := w\<rparr>)" using R_provider_called [OF assms(1), of s] w by simp
  moreover have "R 0 (?s1\<lparr>ls_world := w\<rparr>) s2" using R_consume_chunks [of ?sc d chunks] k by simp
  ultimately have "R 1 s (release_provider_permit env P s2)"
    using R_step R_release_permit by blast
  then show ?thesis using assms(2) w k by (simp add: call_provider_def Let_def)
qed

lemma R_gather: "R 0 s (fst (gather_chunks env d chunks s answer wants))"
proof (induction chunks arbitrary: s answer wants)
  case (Cons chunk chunks)
  obtain s1 err where c: "check_ctx env d s = (s1, err)" by fastforce
  show ?case
    using R_check [OF c] R_step [OF R_check [OF c] Cons.IH] by (cases err) (simp_all add: c)
qed (simp add: R_refl)

lemma R_send_recovered: "send_recovered env d answer m s = (t, ok) \<Longrightarrow> R 0 s t"
  using R_send_delta by (auto simp: send_recovered_def split: prod.splits)

lemma R_retry: "retry_final_answer env d P input rounds s = (t, ok) \<Longrightarrow> R 1 s t"
proof -
  assume eq: "retry_final_answer env d P input rounds s = (t, ok)"
  obtain s0 cerr where c: "check_ctx env d s = (s0, cerr)" by fastforce
  note c' = R_mono [OF R_check [OF c], of 1]
  show ?thesis
  proof (cases "cerr \<noteq> None \<or> rounds = []")
    case True
    then show ?thesis using eq c c' by (simp add: retry_final_answer_def)
  next
    case False
    obtain s1 perr where a: "acquire_provider_permit env P s0 = (s1, perr)" by fastforce
    have s1: "R 0 s s1" using R_step [OF R_check [OF c] R_acquire [OF a]] .
    show ?thesis
    proof (cases perr)
      case (Some e)
      then show ?thesis using eq c False a R_mono [OF s1, of 1] by (simp add: retry_final_answer_def)
    next
      case None
      let ?q = "request_for P (recovery_prompt input) [] rounds"
      let ?s2 = "record_event (Provider_Called ?q) s1"
      obtain w chunks err where w: "env_complete env ?q (ls_world ?s2) = (w, chunks, err)"
        by (cases "env_complete env ?q (ls_world ?s2)")
      obtain s3 answer wants ok3 where g:
        "gather_chunks env d chunks (?s2\<lparr>ls_world := w\<rparr>) [] False = (s3, answer, wants, ok3)"
        by (cases "gather_chunks env d chunks (?s2\<lparr>ls_world := w\<rparr>) [] False")
      let ?s4 = "release_provider_permit env P s3"
      have "R 1 s1 (?s2\<lparr>ls_world := w\<rparr>)"
        using R_provider_called [of ?q s1] w by (simp add: request_for_def)
      moreover have "R 0 (?s2\<lparr>ls_world := w\<rparr>) s3"
        using R_gather [of "?s2\<lparr>ls_world := w\<rparr>" d chunks "[]" False] g by simp
      ultimately have s4: "R 1 s ?s4" using R_step0 [OF s1] R_step R_release_permit by blast
      show ?thesis
        using eq c False a None w g R_step [OF s4] R_panic R_send_recovered s4
        by (auto simp: retry_final_answer_def Let_def split: if_splits option.splits bool.splits)
    qed
  qed
qed

lemma R_recover: "R 1 s (recover_answer env d P input rounds m s)"
proof -
  obtain s1 ok where r: "retry_final_answer env d P input rounds s = (s1, ok)" by fastforce
  have "R 0 s1 (fst (send_recovered env d answer m s1))" for answer
    using R_send_recovered by (metis prod.collapse)
  then show ?thesis
    using R_retry [OF r] R_step [OF R_retry [OF r]] R_panic
    by (cases ok) (auto simp: recover_answer_def r split: option.splits)
qed

lemma R_error: "R 0 s (send env d (Error_Sent a b) s)"
  by (rule R_send) (auto simp: loop_event_ok_def)

lemma R_turns:
  assumes "same_rights P0 P" and "segment_turns env d input m left used P rounds s = (t, r)"
  shows "used \<le> sg_turns r \<and> sg_turns r \<le> used + left \<and> R (sg_turns r - used + 1) s t"
  using assms
proof (induction left arbitrary: used P rounds s)
  case 0
  then show ?case
    using R_recover R_mono [OF R_error]
    by (auto simp: segment_end_with_def split: if_splits)
next
  case (Suc left)
  let ?P = "refresh_contexts s P"
  have sr: "same_rights P0 ?P" using Suc.prems(1) by simp
  obtain s1 perr where a: "acquire_provider_permit env ?P s = (s1, perr)" by fastforce
  note s1 = R_acquire [OF a]
  show ?case
  proof (cases perr)
    case (Some e)
    then show ?thesis
      using Suc.prems(2) a R_mono [OF R_step [OF s1 R_error]]
      by (auto simp: Let_def segment_end_with_def)
  next
    case None
    let ?q = "request_for ?P input (available_tools_for_options available_tools (lp_options ?P)) rounds"
    obtain s2 c err where call: "call_provider env d ?P ?q s1 = (s2, c, err)"
      by (cases "call_provider env d ?P ?q s1")
    have "R 1 s1 s2"
      using R_call_provider [OF _ call] same_rights_policy(2) [OF sr]
      by (simp add: request_for_def available_tools_for_options_def)
    moreover obtain s3 cerr where x: "check_ctx env d s2 = (s3, cerr)" by fastforce
    ultimately have s3: "R 1 s s3" using R_step0 [OF s1] R_step R_check [OF x] by blast
    then have s3': "R (Suc (Suc 0)) s s3" using R_mono by fastforce
    have two: "R (Suc (Suc 0)) s u" if "R 1 s3 u" for u using R_trans [OF s3 that] by simp
    have two0: "R (Suc (Suc 0)) s u" if "R 0 s3 u" for u using R_step [OF s3' that] .
    show ?thesis
    proof (cases "cerr = None \<and> err = None \<and> cs_calls c \<noteq> []")
      case False
      then show ?thesis
        using Suc.prems(2) a None call x s3' two [OF R_recover] two0 [OF R_error]
        by (auto simp: Let_def segment_end_with_def split: if_splits option.splits)
    next
      case True
      obtain s4 exchanges cancelled where b:
        "execute_tool_batch env d ?P (cs_calls c) s3 = (s4, exchanges, cancelled)"
        by (cases "execute_tool_batch env d ?P (cs_calls c) s3")
      have s4: "R 0 s3 s4" by (rule R_execute_batch [OF sr b])
      show ?thesis
      proof (cases cancelled)
        case True
        then show ?thesis
          using Suc.prems(2) a None call x \<open>cerr = None \<and> _\<close> b two0 [OF s4]
          by (auto simp: Let_def segment_end_with_def)
      next
        case False
        let ?rounds = "if exchanges \<noteq> [] then rounds @ [exchanges] else rounds"
        have "segment_turns env d input m left (Suc used) ?P ?rounds s4 = (t, r)"
          using Suc.prems(2) a None call x \<open>cerr = None \<and> _\<close> b False by (simp add: Let_def)
        then have ih: "Suc used \<le> sg_turns r \<and> sg_turns r \<le> Suc used + left
            \<and> R (sg_turns r - Suc used + 1) s4 t"
          using Suc.IH [OF sr] by blast
        moreover have "R (1 + (sg_turns r - Suc used + 1)) s t"
          using R_trans [OF R_step [OF s3 s4]] ih by blast
        moreover have "Suc used \<le> sg_turns r" using ih by simp
        then have "1 + (sg_turns r - Suc used + 1) = sg_turns r - used + 1" by arith
        ultimately show ?thesis by simp
      qed
    qed
  qed
qed

lemma R_segment:
  assumes "same_rights P0 P" and "run_provider_loop_segment env d P input history s = (t, r)"
  shows "sg_turns r \<le> nat (effective_provider_tool_turns (env_max_turns env) (lp_options P))
    \<and> R (sg_turns r + 1) s t"
  using R_turns [OF assms(1)] assms(2) by (fastforce simp: run_provider_loop_segment_def Let_def)

lemma R_segment49:
  assumes "same_rights P0 P" and "run_provider_loop_segment env d P input history s = (t, r)"
  shows "R 49 s t"
proof -
  have "nat (effective_provider_tool_turns (env_max_turns env) (lp_options P)) \<le> 48"
    using effective_turns_bounds(2) [of "env_max_turns env" "lp_options P"] by simp
  then show ?thesis using R_segment [OF assms] R_mono [of "sg_turns r + 1" s t 49] by simp
qed

subsection \<open>The goal loop\<close>

lemma R_budget_exhausted: "R 0 s (report_goal_budget_exhausted env goal i delta s)"
  using R_report R_report_failed
  by (auto simp: report_goal_budget_exhausted_def split: prod.splits option.splits)

lemma R_segment_end: "R 0 s (report_segment_end env goal i delta s)"
proof -
  obtain w res where e: "env_segment_end env
      \<lparr>rp_goal = goal, rp_index = i, rp_delta = delta, rp_exhausted = False\<rparr> (ls_world s) = (w, res)"
    by fastforce
  have "R 0 s (s\<lparr>ls_world := w, ls_goal := map_option (charge_locally delta) (ls_goal s)\<rparr>)" if "res = None"
    using R_step [OF R_report_failed R_charge, of _ s w delta] e that by fastforce
  then show ?thesis
    using e R_report R_refl by (auto simp: report_segment_end_def split: option.splits)
qed

lemma R_deadline: "configure_deadline env started d i s = (t, d1, ok) \<Longrightarrow> R 0 s t"
  using R_refl R_tick [of s] R_step [OF R_tick R_budget_exhausted, of s]
  by (auto simp: configure_deadline_def Let_def split: option.splits if_splits)

lemma R_goal_report:
  "R 0 s (case ls_goal s of Some st \<Rightarrow> report_goal_budget_exhausted env (lg_id (rgs_goal st)) i n s
     | None \<Rightarrow> s)"
  using R_budget_exhausted R_refl by (auto split: option.splits)

lemma R_goal_pass:
  assumes "same_rights P0 P"
    and "goal_pass env started d seg P segment_input history l s = (t, d1, r, fin)"
  shows "R 49 s t"
proof -
  obtain s1 err where c: "check_ctx env d s = (s1, err)" by fastforce
  note c' = R_check [OF c]
  show ?thesis
  proof (cases err)
    case (Some e)
    obtain s2 outer where c2: "check_ctx env None s1 = (s2, outer)" by fastforce
    have "R 0 s s1" "R 0 s s2" using c' R_step [OF c' R_check [OF c2]] by auto
    moreover have "R 0 s (case ls_goal s2 of
        Some st \<Rightarrow> report_goal_budget_exhausted env (lg_id (rgs_goal st)) seg (sg_turns l) s2
      | None \<Rightarrow> s2)"
      using R_step [OF \<open>R 0 s s2\<close> R_goal_report] .
    ultimately have "R 0 s t"
      using assms(2) c Some c2 by (cases e; cases outer) (auto simp: goal_pass_def)
    then show ?thesis using R_mono by blast
  next
    case None
    let ?P1 = "refresh_contexts s1 P"
    let ?P2 = "case ls_goal s1 of
        Some st \<Rightarrow> if lg_max_tool_turns_seg (rgs_goal st) > 0
          then ?P1\<lparr>lp_options := (lp_options ?P1)\<lparr>opt_max_tool_turns := lg_max_tool_turns_seg (rgs_goal st)\<rparr>\<rparr>
          else ?P1
      | None \<Rightarrow> ?P1"
    have sr: "same_rights P0 ?P2"
      using assms(1) by (auto simp: same_rights_turns split: option.splits)
    obtain s2 r2 where g: "run_provider_loop_segment env d ?P2 segment_input history s1 = (s2, r2)" by fastforce
    let ?s3 = "case ls_goal s2 of
        Some st \<Rightarrow> if rgs_was_bound st \<and> lg_id (rgs_goal st) \<noteq> [] \<and> sg_turns r2 > 0
          then report_segment_end env (lg_id (rgs_goal st)) seg (sg_turns r2) s2 else s2
      | None \<Rightarrow> s2"
    have "R 49 s s2" using R_step0 [OF c' R_segment49 [OF sr g]] .
    moreover have "R 0 s2 ?s3" using R_segment_end R_refl by (auto split: option.splits)
    moreover obtain s4 e4 where c4: "check_ctx env d ?s3 = (s4, e4)" by fastforce
    moreover obtain s5 e5 where c5: "check_ctx env None s4 = (s5, e5)" by fastforce
    ultimately have s5: "R 49 s s5" using R_step R_check by blast
    obtain s6 d6 ok where dl: "configure_deadline env started d seg s5 = (s6, d6, ok)"
      by (cases "configure_deadline env started d seg s5")
    show ?thesis
      using assms(2) c None g c4 c5 dl R_step [OF s5 R_goal_report] R_step [OF s5 R_deadline [OF dl]]
      by (auto simp: goal_pass_def Let_def split: if_splits)
  qed
qed

lemma R_goal_loop:
  assumes "same_rights P0 P"
    and "goal_loop env input started fuel seg max_seg d P segment_input history l s = Some (t, r)"
  shows "R (49 * fuel) s t"
  using assms
proof (induction fuel arbitrary: seg max_seg d segment_input history l s)
  case (Suc fuel)
  obtain s1 d1 r1 fin where p: "goal_pass env started d seg P segment_input history l s = (s1, d1, r1, fin)"
    by (cases "goal_pass env started d seg P segment_input history l s")
  note s1 = R_goal_pass [OF Suc.prems(1) p]
  show ?case
  proof (cases "fin \<or> next_segment (ls_goal s1) seg max_seg r1 = None")
    case True
    then have "t = s1" using Suc.prems(2) p by (cases fin) auto
    then show ?thesis using R_mono [OF s1, of "49 * Suc fuel"] by simp
  next
    case False
    then obtain m where m: "next_segment (ls_goal s1) seg max_seg r1 = Some m" by blast
    have "R (49 * fuel) s1 t"
      using Suc.IH [OF Suc.prems(1)] Suc.prems(2) p m False by simp
    then show ?thesis using R_trans [OF s1] by fastforce
  qed
qed simp

lemma R_injected: "R 0 s (emit_injected env P s)"
proof -
  have skills: "R 0 s (send env None (Skills_Injected names k) s)" for s names k
    by (rule R_send) (auto simp: loop_event_ok_def)
  have memory: "R 0 s (send env None (Memory_Injected ids k c) s)" for s ids k c
    by (rule R_send) (auto simp: loop_event_ok_def)
  show ?thesis
    using skills memory R_step [OF skills memory] R_refl
    by (auto simp: emit_injected_def Let_def split: option.splits)
qed

end

text \<open>A relation that also survives the start of the goal loop is respected by the whole reply.\<close>

locale reply_steps = loop_steps +
  assumes R_seed: "R 0 s (seed_run_goal_in env P0 s)"
begin

lemma R_with_goal_loop:
  assumes "run_with_goal_loop env fuel P0 input history s = Some (t, r)"
  shows "R (49 * fuel) s t"
proof -
  let ?s = "seed_run_goal_in env P0 s"
  let ?started = "env_now env (ls_world ?s)"
  obtain s1 d ok where c: "configure_deadline env ?started None 0 ?s = (s1, d, ok)"
    by (cases "configure_deadline env ?started None 0 ?s")
  have s1: "R 0 s s1" using R_step [OF R_seed R_deadline [OF c]] .
  show ?thesis
  proof (cases ok)
    case True
    then have "goal_loop env input ?started fuel 0 (first_segment_limit (ls_goal s1)) d P0 input history
        no_segment s1 = Some (t, r)"
      using assms c by (simp add: run_with_goal_loop_def Let_def)
    then show ?thesis by (rule R_step0 [OF s1 R_goal_loop [OF same_rights_refl]])
  next
    case False
    then show ?thesis
      using assms c R_mono [OF s1, of "49 * fuel"] by (auto simp: run_with_goal_loop_def Let_def)
  qed
qed

subsection \<open>The reply\<close>

lemma R_finish: "\<exists>u. R 0 s u \<and> closes env u (finish_reply env r s)"
proof -
  let ?de = "\<lambda>t. \<lparr>de_seq = ls_seq t, de_final = True, de_text = [], de_recovered = False, de_max_turns = None\<rparr>"
  let ?s1 = "if has_goal s
      then case check_ctx env None s of
             (t, None) \<Rightarrow> (case emit_event env None (Message_Delta (?de t)) t of
                 (t1, ok) \<Rightarrow> t1\<lparr>ls_seq := ls_seq t1 + 1\<rparr>)
           | (t, Some err) \<Rightarrow> t
      else s"
  let ?s2 = "?s1\<lparr>ls_goal := None, ls_todos := []\<rparr>"
  obtain t err where c: "check_ctx env None s = (t, err)" by fastforce
  obtain t1 ok where e: "emit_event env None (Message_Delta (?de t)) t = (t1, ok)" by fastforce
  have "R 0 s t" "R 0 s (t1\<lparr>ls_seq := ls_seq t1 + 1\<rparr>)"
    using R_check [OF c] R_step [OF R_check [OF c] R_send_delta [OF e]] by simp_all
  then have "R 0 s ?s1" using c e R_refl by (auto split: option.splits)
  moreover have "closes env ?s1 (finish_reply env r s)"
  proof -
    obtain s3 e3 where c3: "check_ctx env None ?s2 = (s3, e3)" by fastforce
    obtain s4 e4 where c4: "check_ctx env None s3 = (s4, e4)" by fastforce
    have tr: "ls_trace ?s1 = ls_trace ?s2" "ls_trace ?s1 = ls_trace s3" "ls_trace ?s1 = ls_trace s4"
      using check_ctx_keeps(1) [OF c3] check_ctx_keeps(1) [OF c4] by simp_all
    note ends = closes_cancelled [OF tr(1)] closes_cancelled [OF tr(2)] closes_cancelled [OF tr(3)]
      closes_send [OF tr(1)] closes_send [OF tr(3)]
    have "finish_reply env r s \<in> {emit_cancelled ?s2, emit_cancelled s3, emit_cancelled s4}
        \<or> (\<exists>f. finish_reply env r s = send env None (Reply_Finished f) ?s2)
        \<or> (\<exists>f. finish_reply env r s = send env None (Reply_Finished f) s4)"
      unfolding finish_reply_def Let_def c3 using c4
      by (auto simp: c3 split: option.splits)
    then show ?thesis using ends by auto
  qed
  ultimately show ?thesis by blast
qed

lemma R_continue:
  assumes "checked_continue env fuel P0 input history s = Some t"
  shows "\<exists>u. R (49 * fuel) s u \<and> closes env u t"
proof -
  obtain s1 r where l: "run_with_goal_loop env fuel P0 input history s = Some (s1, r)"
      and t: "t = finish_reply env r s1"
    using assms by (auto simp: checked_continue_def)
  obtain u where "R 0 s1 u" "closes env u t" using R_finish [of s1 r] t by blast
  then show ?thesis using R_step [OF R_with_goal_loop [OF l]] by blast
qed

lemma R_run_reply:
  assumes "run_reply env fuel P0 s = Some t"
  shows "\<exists>u. R (49 * fuel) s u \<and> closes env u t"
proof (cases "parse_tool_command (lp_text P0) (lp_run P0)")
  case None
  then show ?thesis using assms R_continue by (simp add: run_reply_def)
next
  case (Some invocation)
  obtain s1 res out ok where x: "execute_tool_in env None P0 invocation s = (s1, res, out, ok)"
    by (cases "execute_tool_in env None P0 invocation s")
  note s1 = R_execute_tool [OF same_rights_refl x]
  show ?thesis
  proof (cases ok)
    case True
    then show ?thesis
      using assms Some x R_continue R_step0 [OF s1] by (fastforce simp: run_reply_def)
  next
    case False
    obtain s2 err where c: "check_ctx env None s1 = (s2, err)" by fastforce
    let ?s3 = "send env None (Error_Sent (tr_error res) (tr_status res)) s2"
    have s2: "R 0 s s2" using R_step [OF s1 R_check [OF c]] .
    have "R 0 s ?s3" using R_step [OF s2 R_error] .
    then have "R (49 * fuel) s s2" "R (49 * fuel) s ?s3" using s2 R_mono by blast+
    moreover have "closes env s2 t \<or> closes env ?s3 t"
      using assms Some x False c closes_cancelled [of s2 s2 env] closes_send [of ?s3 ?s3 env]
      by (cases err) (auto simp: run_reply_def)
    ultimately show ?thesis by blast
  qed
qed

text \<open>
  The whole reply: what it records before its end respects the relation, and then it ends with a
  finish event, unless the checkpoint was not answered.
\<close>

lemma R_emit_run:
  assumes "emit_run env fuel P0 s = Some t"
  shows "\<exists>u. R (49 * fuel) s u
    \<and> (closes env u t
       \<or> ls_trace t = ls_trace u \<and> opt_require_permission (lp_options P0)
         \<and> (\<exists>w. snd (env_ask env (checkpoint_request P0) w) = None))"
proof (cases "opt_require_permission (lp_options P0)")
  case False
  then have "run_reply env fuel P0 (emit_injected env P0 s) = Some t"
    using assms by (simp add: emit_run_def Let_def)
  then show ?thesis using R_run_reply R_step0 [OF R_injected] by blast
next
  case True
  let ?req = "checkpoint_request P0"
  let ?s1 = "send env None (Tool_Event (Permission_Requested ?req)) (emit_injected env P0 s)"
  have s1: "R 0 s ?s1" by (rule R_step [OF R_injected], rule R_send) (auto simp: loop_event_ok_def)
  obtain w answer where a: "env_ask env ?req (ls_world ?s1) = (w, answer)" by fastforce
  have s2: "R 0 s (?s1\<lparr>ls_world := w\<rparr>)" using R_step [OF s1 R_ask [of ?s1 ?req]] a by simp
  note none = R_mono [OF _ le0, of _ _ "49 * fuel"]
  show ?thesis
  proof (cases answer)
    case None
    obtain s3 err where c: "check_ctx env None (?s1\<lparr>ls_world := w\<rparr>) = (s3, err)" by fastforce
    have s3: "R 0 s s3" using R_step [OF s2 R_check [OF c]] .
    have s4: "R 0 s (send env None (Error_Sent a b) s3)" for a b using R_step [OF s3 R_error] .
    have "\<exists>w. snd (env_ask env ?req w) = None" using a None by (metis snd_conv)
    then show ?thesis
      using assms True a None c none [OF s3] none [OF s4] closes_cancelled [of s3 s3 env]
      by (cases err) (auto simp: emit_run_def Let_def)
  next
    case (Some ans)
    show ?thesis
    proof (cases "ans = ''approve''")
      case False
      let ?s3 = "send env None (Error_Sent ''permission denied'' ''denied'') (?s1\<lparr>ls_world := w\<rparr>)"
      have "R (49 * fuel) s ?s3" by (rule none [OF R_step [OF s2 R_error]])
      moreover have "t = send env None (Reply_Finished (finish_event_of ''denied'')) ?s3"
        using assms True a Some False by (simp add: emit_run_def Let_def)
      then have "closes env ?s3 t" using closes_send by blast
      ultimately show ?thesis by blast
    next
      case approved: True
      let ?s2 = "?s1\<lparr>ls_world := w\<rparr>"
      let ?de = "\<lparr>de_seq = ls_seq ?s2, de_final = False, de_text = ''permission approved'' @ [CHR 0x0A],
          de_recovered = False, de_max_turns = None\<rparr>"
      let ?s3 = "send env None (Message_Delta ?de) ?s2"
      have "R 0 ?s2 (?s3\<lparr>ls_seq := ls_seq ?s3 + 1\<rparr>)"
        unfolding send_def by (rule R_send_delta) (auto simp: prod_eq_iff)
      then have s3: "R 0 s (?s3\<lparr>ls_seq := ls_seq ?s3 + 1\<rparr>)" using R_step [OF s2] by blast
      have "run_reply env fuel P0 (?s3\<lparr>ls_seq := ls_seq ?s3 + 1\<rparr>) = Some t"
        using assms True a Some approved by (simp add: emit_run_def Let_def)
      then show ?thesis using R_run_reply R_step0 [OF s3] by blast
    qed
  qed
qed

end

end
