(* ===== verification/Agent_Properties.thy ===== *)
theory Agent_Properties
  imports Agent_Steps
begin

text \<open>
  What a reply of the Agent Runtime records (\<^verbatim>\<open>runtime/runtime.go\<close>, \<^verbatim>\<open>runtime/goal_loop.go\<close>): it
  runs only permitted tools, numbers its answer upwards, calls the provider boundedly often, ends
  with one finish event; and its goal loop ends.
\<close>

subsection \<open>The trace of a reply\<close>

definition delta_seqs :: "loop_event list \<Rightarrow> int list" where
  "delta_seqs es = List.map_filter (\<lambda>e. case e of Message_Delta de \<Rightarrow> Some (de_seq de) | _ \<Rightarrow> None) es"

lemma delta_seqs_simps [simp]:
  "delta_seqs [] = []" "delta_seqs (es @ es') = delta_seqs es @ delta_seqs es'"
  "delta_seqs (Message_Delta de # es) = de_seq de # delta_seqs es"
  by (simp_all add: delta_seqs_def List.map_filter_def)

lemma delta_seqs_none [simp]: "\<not> is_delta e \<Longrightarrow> delta_seqs [e] = []"
  by (cases e) (simp_all add: delta_seqs_def List.map_filter_def)

definition grows :: "'w agent_env \<Rightarrow> loop_params \<Rightarrow> nat \<Rightarrow> 'w loop_state \<Rightarrow> 'w loop_state \<Rightarrow> bool" where
  "grows env P k s t \<longleftrightarrow>
     (\<exists>es. ls_trace t = ls_trace s @ es \<and> list_all (loop_event_ok env P) es
        \<and> length (filter is_provider_call es) \<le> k
        \<and> sorted_wrt (<) (delta_seqs es) \<and> (\<forall>x \<in> set (delta_seqs es). ls_seq s \<le> x \<and> x < ls_seq t))
     \<and> ls_seq s \<le> ls_seq t"

lemma grows_same: "ls_trace t = ls_trace s \<Longrightarrow> ls_seq s \<le> ls_seq t \<Longrightarrow> grows env P k s t"
  by (auto simp: grows_def)

lemma grows_trans:
  assumes "grows env P j s t" and "grows env P k t u"
  shows "grows env P (j + k) s u"
proof -
  from assms(1) obtain es where es: "ls_trace t = ls_trace s @ es" "list_all (loop_event_ok env P) es"
      "length (filter is_provider_call es) \<le> j" "sorted_wrt (<) (delta_seqs es)"
      "\<forall>x \<in> set (delta_seqs es). ls_seq s \<le> x \<and> x < ls_seq t" "ls_seq s \<le> ls_seq t"
    by (auto simp: grows_def)
  from assms(2) obtain fs where fs: "ls_trace u = ls_trace t @ fs" "list_all (loop_event_ok env P) fs"
      "length (filter is_provider_call fs) \<le> k" "sorted_wrt (<) (delta_seqs fs)"
      "\<forall>x \<in> set (delta_seqs fs). ls_seq t \<le> x \<and> x < ls_seq u" "ls_seq t \<le> ls_seq u"
    by (auto simp: grows_def)
  have "sorted_wrt (<) (delta_seqs (es @ fs))"
    using es(4,5) fs(4,5) by (fastforce simp: sorted_wrt_append)
  then show ?thesis
    unfolding grows_def using es fs by (intro conjI exI [of _ "es @ fs"]) fastforce+
qed

lemma grows_record:
  assumes "loop_event_ok env P e" "\<not> is_delta e"
  shows "grows env P (if is_provider_call e then 1 else 0) s (record_event e s)"
  using assms by (auto simp: grows_def record_event_def intro!: exI [of _ "[e]"])

lemma grows_delta:
  "de_seq de = ls_seq s \<Longrightarrow>
     grows env P 0 s ((record_event (Message_Delta de) s)\<lparr>ls_seq := ls_seq s + 1\<rparr>)"
  by (auto simp: grows_def record_event_def loop_event_ok_def intro!: exI [of _ "[Message_Delta de]"])

lemma keep_snapshots_keeps [simp]:
  "ls_trace (keep_snapshots c out s) = ls_trace s" "ls_seq (keep_snapshots c out s) = ls_seq s"
  "ls_world (keep_snapshots c out s) = ls_world s" "ls_panicked (keep_snapshots c out s) = ls_panicked s"
  by (auto simp: keep_snapshots_def Let_def split: option.splits)

lemma seed_keeps [simp]:
  "ls_trace (seed_run_goal_in env P s) = ls_trace s" "ls_seq (seed_run_goal_in env P s) = ls_seq s"
  "ls_world (seed_run_goal_in env P s) = ls_world s"
  by (auto simp: seed_run_goal_in_def split: option.splits)

interpretation grows: reply_steps env P "grows env P" for env :: "'w agent_env" and P
  by unfold_locales
    (erule (1) grows_trans | erule (1) grows_record | erule grows_delta
     | (rule grows_same; simp add: panic_def; fail) | (force simp: grows_def))+

text \<open>An uneventful reply, for the examples.\<close>

lemmas quiet_simps =
  quiet_env_def quiet_params_def quiet_state_def emit_injected_def run_reply_def checked_continue_def
  run_with_goal_loop_def seed_run_goal_in_def seed_run_goal_def configure_deadline_def
  first_segment_limit_def goal_pass_def check_ctx_def ctx_error_at_def refresh_contexts_def
  todo_context_for_run_def goal_context_for_run_def run_provider_loop_segment_def
  effective_provider_tool_turns_def default_provider_tool_turns_def acquire_provider_permit_def
  call_provider_def consume_provider_chunk_def emit_event_def record_event_def
  release_provider_permit_def has_goal_def finish_reply_def send_def next_segment_def
  segment_end_with_def flatten_tool_rounds_def witness_options_def

lemma quiet_reply:
  "\<exists>t. emit_run (quiet_env ''hello'') 4 (quiet_params ''hi'') quiet_state = Some t \<and> \<not> ls_panicked t"
proof -
  have "trim_space ''hello'' = ''hello''" "parse_tool_command ''hi'' ''r'' = None" by code_simp+
  moreover have "trim_space [] = []" by (simp add: trim_space_def)
  ultimately show ?thesis by (simp add: emit_run_def quiet_simps Let_def numeral_eq_Suc)
qed







text \<open>
  C18. A segment uses at most the turns of the reply, 48 in any case, and calls the provider at
  most once more than the turns it reports.
\<close>

theorem segment_bounded:
  assumes "run_provider_loop_segment env d P input history s = (t, r)"
  shows "int (sg_turns r) \<le> effective_provider_tool_turns (env_max_turns env) (lp_options P)
    \<and> sg_turns r \<le> 48
    \<and> (\<exists>es. ls_trace t = ls_trace s @ es \<and> length (filter is_provider_call es) \<le> sg_turns r + 1)"
proof -
  note seg = grows.R_segment [OF same_rights_refl assms]
  then have "int (sg_turns r) \<le> effective_provider_tool_turns (env_max_turns env) (lp_options P)"
    using effective_turns_bounds(1) [of "env_max_turns env" "lp_options P"] by linarith
  moreover from this have "sg_turns r \<le> 48"
    using effective_turns_bounds(2) [of "env_max_turns env" "lp_options P"] by linarith
  moreover have "\<exists>es. ls_trace t = ls_trace s @ es \<and> length (filter is_provider_call es) \<le> sg_turns r + 1"
    using seg unfolding grows_def by blast
  ultimately show ?thesis by blast
qed

theorem segment_bounded_witness:
  "\<exists>t r. run_provider_loop_segment (quiet_env ''hello'') None (quiet_params ''hi'') ''hi'' [] quiet_state = (t, r)
    \<and> sg_turns r \<le> 48"
proof -
  obtain t r where r:
    "run_provider_loop_segment (quiet_env ''hello'') None (quiet_params ''hi'') ''hi'' [] quiet_state = (t, r)"
    by fastforce
  then show ?thesis using segment_bounded [OF r] by blast
qed

subsection \<open>Parts of the answer\<close>

definition delta_texts :: "loop_event list \<Rightarrow> string list" where
  "delta_texts es = List.map_filter (\<lambda>e. case e of Message_Delta de \<Rightarrow> Some (de_text de) | _ \<Rightarrow> None) es"

lemma delta_texts_simps [simp]:
  "delta_texts [] = []" "delta_texts (es @ es') = delta_texts es @ delta_texts es'"
  "delta_texts (Message_Delta de # es) = de_text de # delta_texts es"
  by (simp_all add: delta_texts_def List.map_filter_def)

text \<open>
  On a context that does not end, the text a provider streams reaches the client without its
  blank parts: the parts sent are exactly the parts that are not white space, in order and
  numbered without a gap. A line break or a space that arrives as a part of its own is lost, so the
  answer shown and stored differs from the answer given.
\<close>

theorem blank_parts_dropped:
  assumes "consume_chunks env d chunks (s, c) = ((t, c'), ok)"
    and "\<forall>w. ctx_error_at env d w = None" and "\<forall>k \<in> set chunks. ck_tool_calls k = []"
    and "\<not> ls_panicked s"
  shows "ok \<and> (\<exists>es. ls_trace t = ls_trace s @ es
    \<and> delta_texts es = filter (\<lambda>x. trim_space x \<noteq> []) (map ck_delta chunks)
    \<and> delta_seqs es = map (\<lambda>i. ls_seq s + int i) [0 ..< length (delta_texts es)])"
  using assms(1,3,4)
proof (induction chunks arbitrary: s c)
  case (Cons k chunks)
  have check: "check_ctx env d u = (u\<lparr>ls_world := env_tick env (ls_world u)\<rparr>, None)" for u
    using assms(2) by (simp add: check_ctx_def Let_def)
  let ?s1 = "s\<lparr>ls_world := env_tick env (ls_world s)\<rparr>"
  show ?case
  proof (cases "trim_space (ck_delta k) = []")
    case True
    then have "consume_chunks env d chunks (?s1, c) = ((t, c'), ok)"
      using Cons.prems by (simp add: consume_provider_chunk_def check Let_def)
    then show ?thesis using Cons.IH [of ?s1 c] Cons.prems(2,3) True by simp
  next
    case False
    let ?de = "\<lparr>de_seq = ls_seq ?s1, de_final = (ck_final k \<and> \<not> has_goal ?s1), de_text = ck_delta k,
        de_recovered = False, de_max_turns = None\<rparr>"
    let ?s2 = "(?s1\<lparr>ls_world := env_tick env (ls_world ?s1), ls_trace := ls_trace s @ [Message_Delta ?de],
        ls_seq := ls_seq s + 1\<rparr>)"
    have "consume_chunks env d chunks (?s2, c\<lparr>cs_text := True\<rparr>) = ((t, c'), ok)"
      using Cons.prems False
      by (simp add: consume_provider_chunk_def emit_event_def record_event_def check Let_def)
    then obtain es where ok: "ok" and es: "ls_trace t = ls_trace ?s2 @ es"
        "delta_texts es = filter (\<lambda>x. trim_space x \<noteq> []) (map ck_delta chunks)"
        "delta_seqs es = map (\<lambda>i. ls_seq ?s2 + int i) [0 ..< length (delta_texts es)]"
      using Cons.IH [of ?s2 "c\<lparr>cs_text := True\<rparr>"] Cons.prems(2,3) by auto
    have "map (\<lambda>i. ls_seq s + int i) [0 ..< Suc n] = ls_seq s # map (\<lambda>i. ls_seq s + 1 + int i) [0 ..< n]" for n
      by (simp add: upt_conv_Cons map_Suc_upt [symmetric] comp_def del: upt_Suc)
    then show ?thesis
      using ok es False by (intro conjI exI [of _ "Message_Delta ?de # es"]) simp_all
  qed
qed simp

theorem blank_parts_dropped_witness:
  "let chunk = (\<lambda>x. \<lparr>ck_delta = x, ck_final = False, ck_tool_calls = []\<rparr>)
   in \<exists>t c ok. consume_chunks (quiet_env []) None (map chunk [''one'', [CHR 0x0A, CHR 0x0A], ''two''])
          (quiet_state, \<lparr>cs_calls = [], cs_text = False\<rparr>) = ((t, c), ok)
        \<and> concat (delta_texts (ls_trace t)) = ''onetwo''"
proof -
  let ?chunk = "\<lambda>x. \<lparr>ck_delta = x, ck_final = False, ck_tool_calls = []\<rparr>"
  let ?chunks = "map ?chunk [''one'', [CHR 0x0A, CHR 0x0A], ''two'']"
  obtain t c ok where r: "consume_chunks (quiet_env []) None ?chunks
      (quiet_state, \<lparr>cs_calls = [], cs_text = False\<rparr>) = ((t, c), ok)"
    by (metis surj_pair)
  have "filter (\<lambda>x. trim_space x \<noteq> []) [''one'', [CHR 0x0A, CHR 0x0A], ''two''] = [''one'', ''two'']"
    by code_simp
  then have "concat (delta_texts (ls_trace t)) = ''onetwo''"
    using blank_parts_dropped [OF r] by (auto simp: quiet_state_def)
  then show ?thesis using r by (auto simp: Let_def)
qed

end
