(* ===== verification/Agent_Termination.thy ===== *)
theory Agent_Termination
  imports Agent_Steps
begin

text \<open>
  The goal loop of a reply ends (\<^verbatim>\<open>runWithGoalLoop\<close> of \<^verbatim>\<open>runtime/goal_loop.go\<close>), provided the
  Gateway charges each reported segment to the goal.
\<close>

subsection \<open>A Gateway that keeps the books\<close>

text \<open>
  \<open>usage\<close> is what the goal has used in the Gateway, \<open>live\<close> says that the goal is active there.
  Usage never falls and a goal that has ended stays ended. A goal a tool call returns has an id
  and budgets within \<open>B\<close>, and if it is active, the usage of the Gateway. The same holds of the goal
  a segment report returns, and the turns of the segment have then been charged to it, if the goal
  was active before; the report may fail, but only for a goal that is not active.
\<close>

definition goal_within :: "('w \<Rightarrow> bool) \<Rightarrow> ('w \<Rightarrow> int) \<Rightarrow> int \<Rightarrow> 'w \<Rightarrow> loop_goal \<Rightarrow> bool" where
  "goal_within live usage B w g \<longleftrightarrow>
     lg_id g \<noteq> [] \<and> lg_max_total_tool_turns g \<le> B \<and> lg_max_segments_per_run g \<le> B
     \<and> (lg_status g = ''active'' \<longrightarrow> live w \<and> lg_used_tool_turns g = usage w)"

definition later :: "('w \<Rightarrow> bool) \<Rightarrow> ('w \<Rightarrow> int) \<Rightarrow> 'w \<Rightarrow> 'w \<Rightarrow> bool" where
  "later live usage w w' \<longleftrightarrow> usage w \<le> usage w' \<and> (live w' \<longrightarrow> live w)"

definition charging_gateway ::
  "'w agent_env \<Rightarrow> ('w \<Rightarrow> bool) \<Rightarrow> ('w \<Rightarrow> int) \<Rightarrow> int \<Rightarrow> bool" where
  "charging_gateway env live usage B \<longleftrightarrow>
     (\<forall>w. later live usage w (env_tick env w)) \<and> (\<forall>w. later live usage w (fst (env_permit env w)))
     \<and> (\<forall>w. later live usage w (env_release env w))
     \<and> (\<forall>q w. later live usage w (fst (env_complete env q w)))
     \<and> (\<forall>r w. later live usage w (fst (env_ask env r w)))
     \<and> (\<forall>c w. later live usage w (fst (env_dispatch env c w))
         \<and> (\<forall>g. do_goal (snd (env_dispatch env c w)) = Some g \<longrightarrow>
              goal_within live usage B (fst (env_dispatch env c w)) g))
     \<and> (\<forall>rp w. later live usage w (fst (env_segment_end env rp w))
         \<and> (case snd (env_segment_end env rp w) of
              None \<Rightarrow> \<not> live (fst (env_segment_end env rp w))
            | Some None \<Rightarrow> False
            | Some (Some g) \<Rightarrow>
                goal_within live usage B (fst (env_segment_end env rp w)) g
                \<and> (\<not> rp_exhausted rp \<and> live w \<longrightarrow>
                     usage w + int (rp_delta rp) \<le> usage (fst (env_segment_end env rp w)))))"

text \<open>
  What is known after \<open>n\<close> reported segments: usage is at least \<open>n\<close>, in the Gateway as long as the goal
  is active there and in the snapshot as long as the run is bound.
\<close>

definition books :: "('w \<Rightarrow> bool) \<Rightarrow> ('w \<Rightarrow> int) \<Rightarrow> int \<Rightarrow> nat \<Rightarrow> 'w loop_state \<Rightarrow> bool" where
  "books live usage B n s \<longleftrightarrow>
     (live (ls_world s) \<longrightarrow> int n \<le> usage (ls_world s))
     \<and> (\<forall>st. ls_goal s = Some st \<longrightarrow> lg_id (rgs_goal st) \<noteq> []
          \<and> (rgs_bound st \<longrightarrow> rgs_was_bound st \<and> int n \<le> lg_used_tool_turns (rgs_goal st)
               \<and> lg_max_total_tool_turns (rgs_goal st) \<le> B \<and> lg_max_segments_per_run (rgs_goal st) \<le> B))"

definition keeps_books ::
  "('w \<Rightarrow> bool) \<Rightarrow> ('w \<Rightarrow> int) \<Rightarrow> int \<Rightarrow> nat \<Rightarrow> 'w loop_state \<Rightarrow> 'w loop_state \<Rightarrow> bool" where
  "keeps_books live usage B k s t \<longleftrightarrow> (\<forall>n. books live usage B n s \<longrightarrow> books live usage B n t)"

lemma books_world:
  "books live usage B n s \<Longrightarrow> later live usage (ls_world s) w \<Longrightarrow> books live usage B n (s\<lparr>ls_world := w\<rparr>)"
  by (auto simp: books_def later_def)

lemma books_same:
  "books live usage B n s \<Longrightarrow> ls_world t = ls_world s \<Longrightarrow> ls_goal t = ls_goal s \<Longrightarrow> books live usage B n t"
  by (auto simp: books_def)

lemma applied_goal:
  "\<exists>st. apply_goal_tool_result tool (Some g) prev = Some st \<and> rgs_goal st = g
     \<and> (rgs_bound st \<longrightarrow> lg_status g = ''active'' \<and> rgs_was_bound st)"
  by (cases prev) (simp_all add: apply_goal_tool_result_def Let_def)

lemma books_applied:
  assumes "books live usage B n s" and "later live usage (ls_world s) w"
    and "goal_within live usage B w g" and "live w \<Longrightarrow> int m \<le> usage w"
  shows "books live usage B m (s\<lparr>ls_world := w, ls_goal := apply_goal_tool_result tool (Some g) (ls_goal s)\<rparr>)"
proof -
  obtain st where st: "apply_goal_tool_result tool (Some g) (ls_goal s) = Some st" "rgs_goal st = g"
      "rgs_bound st \<longrightarrow> lg_status g = ''active'' \<and> rgs_was_bound st"
    using applied_goal by blast
  show ?thesis
    using assms(3,4) st by (auto simp: books_def goal_within_def)
qed

lemma books_live: "books live usage B n s \<Longrightarrow> later live usage (ls_world s) w \<Longrightarrow> live w \<Longrightarrow> int n \<le> usage w"
  by (auto simp: books_def later_def)

lemma books_snapshots:
  assumes "books live usage B n s" and "later live usage (ls_world s) w"
    and "\<And>g. do_goal out = Some g \<Longrightarrow> goal_within live usage B w g"
  shows "books live usage B n (keep_snapshots call out (s\<lparr>ls_world := w\<rparr>))"
proof -
  have w: "books live usage B n (s\<lparr>ls_world := w\<rparr>)" by (rule books_world [OF assms(1,2)])
  have "books live usage B n (s\<lparr>ls_world := w,
      ls_goal := apply_goal_tool_result tool (do_goal out) (ls_goal s)\<rparr>)" for tool
  proof (cases "do_goal out")
    case None
    with w show ?thesis by (simp add: apply_goal_tool_result_def books_def)
  next
    case (Some g)
    then show ?thesis
      using books_applied [OF assms(1,2)] assms(3) books_live [OF assms(1,2)] by simp
  qed
  then show ?thesis
    using w by (auto simp: keep_snapshots_def Let_def books_def split: option.splits)
qed

lemma books_charged:
  "books live usage B n s \<Longrightarrow>
     books live usage B n (s\<lparr>ls_goal := map_option (charge_locally k) (ls_goal s)\<rparr>)"
  by (auto simp: books_def charge_locally_def Let_def split: if_splits)

text \<open>The hypotheses, one by one.\<close>

lemma charging_later:
  assumes "charging_gateway env live usage B"
  shows "later live usage w (env_tick env w)" "later live usage w (fst (env_permit env w))"
    "later live usage w (env_release env w)" "later live usage w (fst (env_complete env q w))"
    "later live usage w (fst (env_ask env r w))"
    "later live usage w (fst (env_dispatch env c w))"
    "later live usage w (fst (env_segment_end env rp w))"
  using assms by (simp_all add: charging_gateway_def)

lemma charging_dispatch:
  "charging_gateway env live usage B \<Longrightarrow> env_dispatch env c w = (w', out) \<Longrightarrow>
     later live usage w w' \<and> (\<forall>g. do_goal out = Some g \<longrightarrow> goal_within live usage B w' g)"
  unfolding charging_gateway_def by (metis fst_conv snd_conv)

lemma charging_report:
  assumes "charging_gateway env live usage B" and "env_segment_end env rp w = (w', r)"
  shows "later live usage w w'
    \<and> (case r of None \<Rightarrow> \<not> live w' | Some None \<Rightarrow> False
       | Some (Some g) \<Rightarrow> goal_within live usage B w' g
           \<and> (\<not> rp_exhausted rp \<and> live w \<longrightarrow> usage w + int (rp_delta rp) \<le> usage w'))"
proof -
  have "later live usage w (fst (env_segment_end env rp w))
      \<and> (case snd (env_segment_end env rp w) of None \<Rightarrow> \<not> live (fst (env_segment_end env rp w))
         | Some None \<Rightarrow> False
         | Some (Some g) \<Rightarrow> goal_within live usage B (fst (env_segment_end env rp w)) g
             \<and> (\<not> rp_exhausted rp \<and> live w \<longrightarrow>
                  usage w + int (rp_delta rp) \<le> usage (fst (env_segment_end env rp w))))"
    using assms(1) unfolding charging_gateway_def by blast
  then show ?thesis unfolding assms(2) fst_conv snd_conv .
qed

lemma keeps_refl: "ls_world t = ls_world s \<Longrightarrow> ls_goal t = ls_goal s \<Longrightarrow> keeps_books live usage B k s t"
  using books_same by (auto simp: keeps_books_def)

lemma keeps_world:
  "later live usage (ls_world s) w \<Longrightarrow> keeps_books live usage B k s (s\<lparr>ls_world := w\<rparr>)"
  using books_world by (auto simp: keeps_books_def)

lemma keeps_books_steps:
  assumes "charging_gateway env live usage B"
  shows "loop_steps env P (keeps_books live usage B)"
proof
  note gw = charging_later [OF assms]
  fix s t u :: "'a loop_state" and e :: loop_event and de :: delta_event and j k n :: nat
  show "keeps_books live usage B 0 s s" by (simp add: keeps_books_def)
  show "keeps_books live usage B (j + k) s u"
    if "keeps_books live usage B j s t" "keeps_books live usage B k t u"
    using that by (simp add: keeps_books_def)
  show "keeps_books live usage B k s t" if "keeps_books live usage B j s t" "j \<le> k"
    using that by (simp add: keeps_books_def)
  show "keeps_books live usage B 0 s (s\<lparr>ls_world := env_tick env (ls_world s)\<rparr>)"
    by (rule keeps_world, rule gw)
  show "keeps_books live usage B (if is_provider_call e then 1 else 0) s (record_event e s)"
    by (rule keeps_refl) (simp_all add: record_event_def)
  show "keeps_books live usage B 0 s ((record_event (Message_Delta de) s)\<lparr>ls_seq := ls_seq s + 1\<rparr>)"
    by (rule keeps_refl) (simp_all add: record_event_def)
  show "keeps_books live usage B 0 s (s\<lparr>ls_seq := ls_seq s + 1\<rparr>)" by (rule keeps_refl) simp_all
  show "keeps_books live usage B 0 s (panic s)" by (rule keeps_refl) (simp_all add: panic_def)
  show "keeps_books live usage B 0 s (s\<lparr>ls_world := fst (env_permit env (ls_world s))\<rparr>)"
    by (rule keeps_world, rule gw)
  show "keeps_books live usage B 0 s (s\<lparr>ls_world := env_release env (ls_world s)\<rparr>)"
    by (rule keeps_world, rule gw)
  show "keeps_books live usage B 0 s (s\<lparr>ls_world := fst (env_complete env q (ls_world s))\<rparr>)" for q
    by (rule keeps_world, rule gw)
  show "keeps_books live usage B 0 s (s\<lparr>ls_world := fst (env_ask env request (ls_world s))\<rparr>)" for request
    by (rule keeps_world, rule gw)
  show "keeps_books live usage B 0 s (keep_snapshots call out (s\<lparr>ls_world := w\<rparr>))"
    if "env_dispatch env call (ls_world s) = (w, out)" for call w out
    using charging_dispatch [OF assms that] by (auto simp: keeps_books_def intro: books_snapshots)
  show "keeps_books live usage B 0 s
      (s\<lparr>ls_world := w, ls_goal := apply_goal_tool_result ''segment_end'' g (ls_goal s)\<rparr>)"
    if "env_segment_end env rp (ls_world s) = (w, Some g)" for rp w g
  proof -
    note r = charging_report [OF assms that]
    obtain g' where g: "g = Some g'" "goal_within live usage B w g'" using r by (cases g) auto
    have l: "later live usage (ls_world s) w" using r by blast
    show ?thesis
      unfolding keeps_books_def g(1) using books_applied [OF _ l g(2)] books_live [OF _ l] by blast
  qed
  show "keeps_books live usage B 0 s (s\<lparr>ls_world := w\<rparr>)"
    if "env_segment_end env rp (ls_world s) = (w, None)" for rp w
    by (rule keeps_world) (use charging_report [OF assms that] in blast)
  show "keeps_books live usage B 0 s (s\<lparr>ls_goal := map_option (charge_locally n) (ls_goal s)\<rparr>)"
    using books_charged by (auto simp: keeps_books_def)
qed

subsection \<open>A pass of the loop\<close>

text \<open>A segment that ends softly has used a turn.\<close>

lemma soft_segment_turns:
  assumes "segment_turns env d input m left used P rounds s = (t, r)" and "0 < left + used"
    and "sg_reason r \<notin> {Loop_Cancelled, Loop_Failed, Loop_Budget}"
  shows "0 < sg_turns r"
  using assms
proof (induction left arbitrary: used P rounds s)
  case 0
  then show ?case by (auto simp: segment_end_with_def split: if_splits)
next
  case (Suc left)
  let ?P = "refresh_contexts s P"
  let ?q = "request_for ?P input (available_tools_for_options available_tools (lp_options ?P)) rounds"
  obtain s1 perr where a: "acquire_provider_permit env ?P s = (s1, perr)" by fastforce
  obtain s2 c err where call: "call_provider env d ?P ?q s1 = (s2, c, err)"
    by (cases "call_provider env d ?P ?q s1")
  obtain s3 cerr where x: "check_ctx env d s2 = (s3, cerr)" by fastforce
  obtain s4 exchanges cancelled where b:
    "execute_tool_batch env d ?P (cs_calls c) s3 = (s4, exchanges, cancelled)"
    by (cases "execute_tool_batch env d ?P (cs_calls c) s3")
  show ?case
  proof (cases "perr = None \<and> cerr = None \<and> err = None \<and> cs_calls c \<noteq> [] \<and> \<not> cancelled")
    case True
    then have "segment_turns env d input m left (Suc used) ?P
        (if exchanges \<noteq> [] then rounds @ [exchanges] else rounds) s4 = (t, r)"
      using Suc.prems(1) a call x b by (simp add: Let_def)
    then show ?thesis using Suc.IH Suc.prems(3) by blast
  next
    case False
    then show ?thesis
      using Suc.prems(1,3) a call x b
      by (auto simp: Let_def segment_end_with_def split: if_splits option.splits)
  qed
qed

lemma soft_segment:
  assumes "run_provider_loop_segment env d P input history s = (t, r)"
    and "sg_reason r \<notin> {Loop_Cancelled, Loop_Failed, Loop_Budget}"
  shows "0 < sg_turns r"
proof -
  have "0 < nat (effective_provider_tool_turns (env_max_turns env) (lp_options P))"
    using effective_turns_bounds(1) by simp
  then show ?thesis
    using assms soft_segment_turns [of env d input _ _ 0 P]
    by (fastforce simp: run_provider_loop_segment_def Let_def)
qed

text \<open>A report of a segment moves the books on.\<close>

lemma report_moves_on:
  assumes "charging_gateway env live usage B" and "books live usage B n s" and "0 < delta" "goal \<noteq> []"
  shows "books live usage B (Suc n) (report_segment_end env goal i delta s)"
proof -
  let ?rp = "\<lparr>rp_goal = goal, rp_index = i, rp_delta = delta, rp_exhausted = False\<rparr>"
  obtain w r where w: "env_segment_end env ?rp (ls_world s) = (w, r)" by fastforce
  note rep = charging_report [OF assms(1) w]
  show ?thesis
  proof (cases r)
    case None
    then have "\<not> live w" using rep by simp
    then have "books live usage B (Suc n)
        (s\<lparr>ls_world := w, ls_goal := map_option (charge_locally delta) (ls_goal s)\<rparr>)"
      using assms(2,3) by (auto simp: books_def charge_locally_def Let_def split: if_splits)
    then show ?thesis using w None assms(3,4) by (simp add: report_segment_end_def)
  next
    case (Some g)
    then obtain g' where g: "g = Some g'" using rep by (cases g) auto
    have l: "later live usage (ls_world s) w" and within: "goal_within live usage B w g'"
      and charged: "live (ls_world s) \<Longrightarrow> usage (ls_world s) + int delta \<le> usage w"
      using rep Some g by simp_all
    have "live w \<Longrightarrow> int (Suc n) \<le> usage w"
      using l charged assms(2,3) by (auto simp: later_def books_def)
    then show ?thesis
      using books_applied [OF assms(2) l within] w Some g assms(3,4)
      by (simp add: report_segment_end_def)
  qed
qed

lemma goal_pass_moves_on:
  assumes gw: "charging_gateway env live usage B" and bk: "books live usage B n s"
    and pass: "goal_pass env started d seg P segment_input history l s = (t, d1, r, False)"
    and cont: "next_segment (ls_goal t) seg max_seg r = Some m"
  shows "books live usage B (Suc n) t"
proof -
  note keep = loop_steps.R_check [OF keeps_books_steps [OF gw]]
    loop_steps.R_segment49 [OF keeps_books_steps [OF gw]] loop_steps.R_deadline [OF keeps_books_steps [OF gw]]
  obtain s1 err where c: "check_ctx env d s = (s1, err)" by fastforce
  have err: "err = None"
    using pass c by (auto simp: goal_pass_def split: option.splits ctx_error.splits prod.splits)
  let ?P1 = "refresh_contexts s1 P"
  let ?P2 = "case ls_goal s1 of
      Some st \<Rightarrow> if lg_max_tool_turns_seg (rgs_goal st) > 0
        then ?P1\<lparr>lp_options := (lp_options ?P1)\<lparr>opt_max_tool_turns := lg_max_tool_turns_seg (rgs_goal st)\<rparr>\<rparr>
        else ?P1
    | None \<Rightarrow> ?P1"
  obtain s2 r2 where g: "run_provider_loop_segment env d ?P2 segment_input history s1 = (s2, r2)" by fastforce
  let ?s3 = "case ls_goal s2 of
      Some st \<Rightarrow> if rgs_was_bound st \<and> lg_id (rgs_goal st) \<noteq> [] \<and> sg_turns r2 > 0
        then report_segment_end env (lg_id (rgs_goal st)) seg (sg_turns r2) s2 else s2
    | None \<Rightarrow> s2"
  obtain s4 e4 where c4: "check_ctx env d ?s3 = (s4, e4)" by fastforce
  obtain s5 e5 where c5: "check_ctx env None s4 = (s5, e5)" by fastforce
  obtain s6 d6 ok where dl: "configure_deadline env started d seg s5 = (s6, d6, ok)"
    by (cases "configure_deadline env started d seg s5")
  have res: "ok" "t = s6" "r = r2"
    using pass c err g c4 c5 dl by (auto simp: goal_pass_def Let_def split: if_splits)
  have s2: "books live usage B n s2"
    using bk keep(1) [OF c] keep(2) [OF same_rights_refl g] by (simp add: keeps_books_def)
  have same: "ls_goal t = ls_goal ?s3"
    using check_ctx_keeps(4) [OF c4] check_ctx_keeps(4) [OF c5] dl res(1,2)
    by (auto simp: configure_deadline_def Let_def split: option.splits if_splits)
  obtain st where st: "ls_goal t = Some st" "rgs_bound st"
      "sg_reason r2 \<notin> {Loop_Cancelled, Loop_Failed, Loop_Budget}"
    using cont res(3) by (auto simp: next_segment_def split: option.splits if_splits)
  have "books live usage B (Suc n) ?s3"
  proof (cases "\<exists>st2. ls_goal s2 = Some st2 \<and> rgs_was_bound st2")
    case True
    then obtain st2 where st2: "ls_goal s2 = Some st2" "rgs_was_bound st2" "lg_id (rgs_goal st2) \<noteq> []"
      using s2 by (auto simp: books_def)
    then show ?thesis
      using report_moves_on [OF gw s2] soft_segment [OF g st(3)] by simp
  next
    case False
    then have "ls_goal t = ls_goal s2" using same by (auto split: option.splits)
    then show ?thesis using False st(1,2) s2 by (auto simp: books_def)
  qed
  then show ?thesis
    using keep(1) [OF c4] keep(1) [OF c5] keep(3) [OF dl] res(2) by (simp add: keeps_books_def)
qed

lemma ceiling_div_le:
  fixes r p :: int
  assumes "0 < r" "0 < p"
  shows "(r + p - 1) div p \<le> r"
proof -
  have "0 \<le> (r - 1) * (p - 1)" using assms by simp
  then have "r + p - 1 \<le> r * p" by (simp add: algebra_simps)
  then have "(r + p - 1) div p \<le> (r * p) div p" using assms(2) by (rule zdiv_mono1)
  then show ?thesis using assms(2) by simp
qed

lemma segment_limit_bounded:
  assumes "completed \<le> lg_used_tool_turns g" "lg_max_total_tool_turns g \<le> B"
    and "lg_max_segments_per_run g \<le> B" "4 \<le> B"
  shows "goal_run_segment_limit g completed \<le> B"
proof -
  let ?rem = "lg_max_total_tool_turns g - lg_used_tool_turns g"
  let ?per = "first_positive [lg_max_tool_turns_seg g, 1]"
  have "0 < ?per" by simp
  then have "(?rem + ?per - 1) div ?per \<le> ?rem" if "0 < ?rem" using ceiling_div_le [OF that] by blast
  then show ?thesis
    using assms by (auto simp: goal_run_segment_limit_def default_goal_max_segments_per_run_def Let_def)
qed

lemma next_segment_bounded:
  assumes "books live usage B (Suc seg) s" and "next_segment (ls_goal s) seg max_seg r = Some m"
    and "max_seg \<le> B" "4 \<le> B"
  shows "m \<le> B \<and> int seg + 1 < m"
proof -
  obtain st where st: "ls_goal s = Some st" "rgs_bound st"
      "m = max (goal_run_segment_limit (rgs_goal st) (int seg + 1)) max_seg" "int seg + 1 < m"
    using assms(2) by (auto simp: next_segment_def Let_def split: option.splits if_splits)
  then have "goal_run_segment_limit (rgs_goal st) (int seg + 1) \<le> B"
    using assms(1,4) by (intro segment_limit_bounded) (auto simp: books_def)
  then show ?thesis using st(3,4) assms(3) by simp
qed

lemma goal_loop_returns:
  assumes "charging_gateway env live usage B" and "4 \<le> B"
    and "books live usage B seg s" and "max_seg \<le> B" and "B \<le> int seg + int fuel" and "0 < fuel"
  shows "goal_loop env input started fuel seg max_seg d P segment_input history l s \<noteq> None"
  using assms(3-)
proof (induction fuel arbitrary: seg max_seg d segment_input history l s)
  case (Suc fuel)
  obtain s1 d1 r fin where p: "goal_pass env started d seg P segment_input history l s = (s1, d1, r, fin)"
    by (cases "goal_pass env started d seg P segment_input history l s")
  show ?case
  proof (cases "\<not> fin \<and> next_segment (ls_goal s1) seg max_seg r \<noteq> None")
    case False
    then show ?thesis using p by (cases fin) auto
  next
    case True
    then obtain m where m: "next_segment (ls_goal s1) seg max_seg r = Some m" by blast
    have s1: "books live usage B (Suc seg) s1"
      using goal_pass_moves_on [OF assms(1) Suc.prems(1)] p m True by simp
    have "m \<le> B \<and> int seg + 1 < m"
      using next_segment_bounded [OF s1 m Suc.prems(2) assms(2)] .
    then have "goal_loop env input started fuel (Suc seg) m d1 P x h r s1 \<noteq> None" for x h
      using Suc.IH [OF s1] Suc.prems(3) by simp
    then show ?thesis using p m True by simp
  qed
qed simp

subsection \<open>The reply ends\<close>

definition seed_within :: "int \<Rightarrow> string \<Rightarrow> loop_params \<Rightarrow> bool" where
  "seed_within B env_text P \<longleftrightarrow>
     (case seed_run_goal env_text P of
        None \<Rightarrow> True
      | Some st \<Rightarrow> lg_id (rgs_goal st) \<noteq> [] \<and> 0 \<le> lg_used_tool_turns (rgs_goal st)
          \<and> lg_max_total_tool_turns (rgs_goal st) \<le> B \<and> lg_max_segments_per_run (rgs_goal st) \<le> B)"

lemma seeded_bound: "seed_run_goal env_text P = Some st \<Longrightarrow> rgs_was_bound st"
  by (auto simp: seed_run_goal_def Let_def split: option.splits if_splits)

lemma run_with_goal_loop_returns:
  assumes gw: "charging_gateway env live usage B" and "4 \<le> B" and "B \<le> int fuel"
    and "seed_within B (env_max_turns env) P" and "books live usage B 0 s"
  shows "run_with_goal_loop env fuel P input history s \<noteq> None"
proof -
  let ?s = "seed_run_goal_in env P s"
  have s: "books live usage B 0 ?s"
    using assms(4,5)
    using seeded_bound [of "env_max_turns env" P]
    by (auto simp: books_def seed_run_goal_in_def seed_within_def split: option.splits)
  obtain s1 d ok where c: "configure_deadline env (env_now env (ls_world ?s)) None 0 ?s = (s1, d, ok)"
    by (cases "configure_deadline env (env_now env (ls_world ?s)) None 0 ?s")
  have s1: "books live usage B 0 s1"
    using loop_steps.R_deadline [OF keeps_books_steps [OF gw] c] s by (simp add: keeps_books_def)
  have "first_segment_limit (ls_goal s1) \<le> B"
    using s1 assms(2)
    by (auto simp: first_segment_limit_def books_def intro!: segment_limit_bounded split: option.splits)
  then show ?thesis
    using goal_loop_returns [OF gw assms(2) s1] assms(2,3) c
    by (cases ok) (simp_all add: run_with_goal_loop_def Let_def)
qed



end
