(* ===== verification/Provider_Messages.thy ===== *)
theory Provider_Messages
  imports Agent_Loop Workers
begin

text \<open>
  The provider of a language model (\<^verbatim>\<open>runtime/provider.go\<close>): the messages and tools of a request, the
  call of an endpoint that speaks the OpenAI protocol, the assembly of its answer, streamed or not,
  and the echo provider used without a model. What the endpoint does and \<^verbatim>\<open>encoding/json\<close> are
  parameters.
\<close>

subsection \<open>Requests\<close>

text \<open>
  A request as the provider reads it: to what the loop passes on (\<open>provider_request\<close>) come the
  conversation of the session, the context of the skills, the flat tool history and the choice of
  the endpoint.
\<close>

record conversation_message =
  cm_role :: string
  cm_blocks :: "string list"

record endpoint_options =
  eo_provider_name :: string
  eo_base_url :: string
  eo_api_key :: string
  eo_model :: string

record completion_request = provider_request +
  cq_run_id :: string
  cq_conversation :: "conversation_message list"
  cq_skills_context :: "string option"
  cq_history :: "tool_exchange list"
  cq_endpoint :: endpoint_options

text \<open>The chunks of the provider, as its callback gets them.\<close>

definition delta_chunk :: "string \<Rightarrow> provider_chunk" where
  "delta_chunk t = \<lparr>ck_delta = t, ck_final = False, ck_tool_calls = []\<rparr>"

definition final_chunk :: provider_chunk where
  "final_chunk = \<lparr>ck_delta = [], ck_final = True, ck_tool_calls = []\<rparr>"

definition calls_chunk :: "tool_call list \<Rightarrow> provider_chunk" where
  "calls_chunk cs = \<lparr>ck_delta = [], ck_final = False, ck_tool_calls = cs\<rparr>"

subsection \<open>Names of tools\<close>

definition public_tool_name :: "string \<Rightarrow> string" where
  "public_tool_name n = replace_all n ''.'' ''__''"

definition internal_tool_name :: "string \<Rightarrow> string" where
  "internal_tool_name n = replace_all n ''__'' ''.''"

text \<open>Names in which no two of the characters \<^verbatim>\<open>.\<close> and \<^verbatim>\<open>_\<close> are neighbours.\<close>

fun separated_name :: "string \<Rightarrow> bool" where
  "separated_name (a # b # s) \<longleftrightarrow>
     \<not> (a \<in> {CHR ''.'', CHR ''_''} \<and> b \<in> {CHR ''.'', CHR ''_''}) \<and> separated_name (b # s)"
| "separated_name _ \<longleftrightarrow> True"

definition has_tool_named :: "tool_definition list \<Rightarrow> string \<Rightarrow> bool" where
  "has_tool_named defs n \<longleftrightarrow> list_ex (\<lambda>d. td_name d = n) defs"

subsection \<open>The time\<close>

text \<open>A local time: its fields, the weekday from Sunday, the name and the offset of its zone.\<close>

record local_time =
  lt_year :: nat
  lt_month :: nat
  lt_day :: nat
  lt_hour :: nat
  lt_minute :: nat
  lt_second :: nat
  lt_weekday :: nat
  lt_zone :: string
  lt_offset :: int

definition pad_zeros :: "nat \<Rightarrow> nat \<Rightarrow> string" where
  "pad_zeros w n = replicate (w - length (nat_digits n)) (CHR ''0'') @ nat_digits n"

text \<open>Go divides towards zero; the offset is made non-negative first.\<close>

definition format_utc_offset :: "int \<Rightarrow> string" where
  "format_utc_offset off =
     (let m = nat \<bar>off\<bar>
      in (if off < 0 then ''-'' else ''+'') @ pad_zeros 2 (m div 3600) @ '':'' @ pad_zeros 2 (m mod 3600 div 60))"

definition date_text :: "local_time \<Rightarrow> string" where
  "date_text t = pad_zeros 4 (lt_year t) @ ''-'' @ pad_zeros 2 (lt_month t) @ ''-'' @ pad_zeros 2 (lt_day t)"

definition clock_text :: "local_time \<Rightarrow> string" where
  "clock_text t = pad_zeros 2 (lt_hour t) @ '':'' @ pad_zeros 2 (lt_minute t) @ '':'' @ pad_zeros 2 (lt_second t)"

text \<open>\<^verbatim>\<open>time.RFC3339\<close> writes an offset of zero as \<^verbatim>\<open>Z\<close>.\<close>

definition rfc3339_text :: "local_time \<Rightarrow> string" where
  "rfc3339_text t =
     date_text t @ ''T'' @ clock_text t @ (if lt_offset t = 0 then ''Z''
        else format_utc_offset (if \<bar>lt_offset t\<bar> < 60 then 0 else lt_offset t))"

definition weekday_names :: "string list" where
  "weekday_names =
     [utf8 [0xE6, 0x98, 0x9F, 0xE6, 0x9C, 0x9F, 0xE6, 0x97, 0xA5],
      utf8 [0xE6, 0x98, 0x9F, 0xE6, 0x9C, 0x9F, 0xE4, 0xB8, 0x80],
      utf8 [0xE6, 0x98, 0x9F, 0xE6, 0x9C, 0x9F, 0xE4, 0xBA, 0x8C],
      utf8 [0xE6, 0x98, 0x9F, 0xE6, 0x9C, 0x9F, 0xE4, 0xB8, 0x89],
      utf8 [0xE6, 0x98, 0x9F, 0xE6, 0x9C, 0x9F, 0xE5, 0x9B, 0x9B],
      utf8 [0xE6, 0x98, 0x9F, 0xE6, 0x9C, 0x9F, 0xE4, 0xBA, 0x94],
      utf8 [0xE6, 0x98, 0x9F, 0xE6, 0x9C, 0x9F, 0xE5, 0x85, 0xAD]]"

definition current_time_context_message :: "local_time \<Rightarrow> string" where
  "current_time_context_message t =
     (let zone = (if lt_zone t = [] then ''Local'' else lt_zone t);
          off = format_utc_offset (lt_offset t)
      in utf8 [0xE5, 0xBD, 0x93, 0xE5, 0x89, 0x8D, 0xE6, 0x9D, 0x83, 0xE5, 0xA8, 0x81]
     @ utf8 [0xE6, 0x97, 0xB6, 0xE9, 0x97, 0xB4, 0xEF, 0xBC, 0x88, 0xE6, 0x9C, 0xAC]
     @ utf8 [0xE5, 0x9C, 0xB0, 0xE6, 0x97, 0xB6, 0xE5, 0x8C, 0xBA, 0xEF, 0xBC, 0x89]
     @ utf8 [0xEF, 0xBC, 0x9A]
     @ date_text t @ '' '' @ clock_text t @ '' '' @ (weekday_names ! lt_weekday t)
     @ utf8 [0xEF, 0xBC, 0x88] @ zone
     @ utf8 [0xEF, 0xBC, 0x8C]
     @ ''UTC'' @ off
     @ utf8 [0xEF, 0xBC, 0x89, 0xE3, 0x80, 0x82, 0x0A]
     @ ''Current local time: ''
     @ rfc3339_text t @ '' ('' @ zone @ '', UTC'' @ off
     @ '').''
     @ utf8 [0x0A, 0xE8, 0xAF, 0xB7, 0xE4, 0xBB, 0xA5, 0xE6, 0xAD, 0xA4, 0xE6, 0x97]
     @ utf8 [0xB6, 0xE9, 0x97, 0xB4, 0xE4, 0xB8, 0xBA, 0xE5, 0x87, 0x86, 0xE5, 0x9B]
     @ utf8 [0x9E, 0xE7, 0xAD, 0x94, 0xE6, 0x97, 0xA5, 0xE6, 0x9C, 0x9F]
     @ ''/''
     @ utf8 [0xE6, 0x97, 0xB6, 0xE9, 0x97, 0xB4, 0xE7, 0x9B, 0xB8, 0xE5, 0x85, 0xB3]
     @ utf8 [0xE9, 0x97, 0xAE, 0xE9, 0xA2, 0x98, 0xEF, 0xBC, 0x8C, 0xE4, 0xB8, 0x8D]
     @ utf8 [0xE8, 0xA6, 0x81, 0xE4, 0xBD, 0xBF, 0xE7, 0x94, 0xA8, 0xE8, 0xAE, 0xAD]
     @ utf8 [0xE7, 0xBB, 0x83, 0xE6, 0x95, 0xB0, 0xE6, 0x8D, 0xAE, 0xE4, 0xB8, 0xAD]
     @ utf8 [0xE7, 0x9A, 0x84, 0xE8, 0xBF, 0x87, 0xE6, 0x97, 0xB6, 0xE6, 0x97, 0xA5]
     @ utf8 [0xE6, 0x9C, 0x9F, 0xE3, 0x80, 0x82])"

subsection \<open>Policies\<close>

text \<open>The policies of the root agent; a backquote stands for a double quote (\<open>with_quotes\<close>).\<close>

definition root_agent_orchestration_policy :: string where
  "root_agent_orchestration_policy =
     with_quotes (join_with [CHR 0x0A]
        [''You are the red_panda root orchestrator.'',
         [],
         ''Survey-then-split policy (mandatory for analysis when tools include ''
           @ ''subagent.run):'',
         ''1. Before multi-file / multi-module analysis, call workspace.stats on the ''
           @ ''target roots to measure structure and file counts.'',
         ''2. Do NOT use a fixed small max_turns budget. After stats, set each ''
           @ ''specialist budget as:'',
         ''   max_turns = file_count + summary_turns'',
         ''   Use suggested_max_turns for a whole scope, or ''
           @ ''top_level[].recommended_max_turns / top_level[].files for each split.'',
         ''   Pass path and file_count into subagent.run (or max_turns = that formula). ''
           @ ''Runtime clamps the result to the Gateway-owned worker turn limit; never ''
           @ ''assume file count can raise that hard ceiling.'',
         ''3. Use suggested_splits / top_level:'',
         ''   - small_tree: root or one subagent.run'',
         ''   - medium/large: split by major directories and spawn multiple subagent.run ''
           @ ''calls IN ONE TURN (parallel process pool). Resize pool first if needed.'',
         ''4. Make coverage explicit and non-overlapping before dispatch:'',
         ''   - Assign root-level entrypoints, build manifests, dependency files, and ''
           @ ''project configuration (for example main.go, go.mod, package.json, wails.json) ''
           @ ''to one foundation specialist, or include them explicitly in one module ''
           @ ''specialist''
           @ utf8 [0x27]
           @ ''s task.'',
         ''   - Give every specialist a path boundary, concrete questions, and an ''
           @ ''expected evidence-based final report.'',
         ''   - Do not leave shared/root files unowned and then read them serially on ''
           @ ''the root agent after specialists finish.'',
         ''5. Never dump a large tree analysis onto yourself with serial greps or ''
           @ ''workspace.read_file calls when specialists are available. The root agent ''
           @ ''coordinates, resolves conflicts, and synthesizes.'',
         ''6. After specialists finish, treat successful reports as the evidence for ''
           @ ''their assigned scopes. Do not re-read files already covered merely to ''
           @ ''reconstruct their work. If a report has a specific missing fact, launch one ''
           @ ''narrow follow-up subagent for that gap; do not restart a broad scan.'',
         ''7. Manage workers with subagent.list / cancel / reset / pool_status / ''
           @ ''pool_resize / pool_reset. A failed or unusable specialist must be ''
           @ ''reset/reassigned or explicitly reported; it must never block unrelated ''
           @ ''completed work.'',
         ''8. After all required coverage is complete, synthesize the reports into the ''
           @ ''user-facing answer. Never claim subagents are unavailable when subagent.run ''
           @ ''is in your tool list.'',
         ''9. Trivial single-file Q&A or tiny edits may stay on the root agent without ''
           @ ''subagents.'',
         ''10. For multi-step work, maintain a session checklist with todo.write (see ''
           @ ''the dedicated todo policy when available). Do not track plans only in ''
           @ ''free-text.''])"

definition root_agent_post_delegation_policy :: string where
  "root_agent_post_delegation_policy =
     with_quotes (join_with [CHR 0x0A]
        [''Delegation results are now available.'',
         [],
         ''Post-delegation rule:'',
         ''1. Use successful subagent.run reports as the authoritative evidence for ''
           @ ''their assigned scopes.'',
         ''2. Synthesize completed reports before requesting any more workspace tools.'',
         ''3. Do not call workspace.read_file, workspace.list, or broad search tools ''
           @ ''just to repeat or verify work already covered by a successful specialist.'',
         ''4. If an exact fact is missing, identify that gap and issue one narrowly ''
           @ ''scoped follow-up subagent.run. Direct root-agent file reads are reserved for ''
           @ ''genuinely unassigned trivial scope or an explicit user request.'',
         ''5. Failed specialists do not invalidate successful reports from other ''
           @ ''specialists; reassign only the failed/missing scope and continue.''])"

definition root_agent_goal_pipeline_policy :: string where
  "root_agent_goal_pipeline_policy =
     with_quotes (join_with [CHR 0x0A]
        [''Goal pipeline (goal.* + todo.*) ''
           @ utf8 [0xE2, 0x80, 0x94]
           @ '' mandatory for multi-step user goals.'',
         [],
         ''For multi-step work you MUST use phase specialists via subagent.run with ''
           @ ''these exact names'',
         ''(unless the request is trivial one-shot Q&A with no Goal):'',
         [],
         ''| Phase | subagent.run name | Who writes goal/todo |'',
         ''| analyze | goal-analyst | root only |'',
         ''| plan | goal-planner (draft) then root goal.update + todo.write | root only |'',
         ''| execute | goal-implementer | root updates todos after |'',
         ''| verify | goal-verifier | root on pass/fail |'',
         ''| evaluate | goal-evaluator (report draft) | root goal.complete |'',
         [],
         ''Mandatory order:'',
         ''1. analyze ''
           @ utf8 [0xE2, 0x80, 0x94]
           @ '' subagent.run name=`goal-analyst`. If trivial=true, answer without Goal.'',
         ''2. plan ''
           @ utf8 [0xE2, 0x80, 0x94]
           @ '' optional goal-planner draft; then goal.update(success_criteria, ''
           @ ''pipeline_phase=`execute`) + todo.write (one in_progress).'',
         ''3. For EACH todo step:'',
         ''   a. execute ''
           @ utf8 [0xE2, 0x80, 0x94]
           @ '' subagent.run name=`goal-implementer` with current step in task'',
         ''   b. verify ''
           @ utf8 [0xE2, 0x80, 0x94]
           @ '' subagent.run name=`goal-verifier`; require evidence'',
         ''   c. on pass: todo.write complete step + next in_progress + goal.checkpoint'',
         ''   d. on fail: retry implementer or replan'',
         ''4. evaluate ''
           @ utf8 [0xE2, 0x80, 0x94]
           @ '' subagent.run name=`goal-evaluator`'',
         ''5. Publish completion report to the user, then goal.complete(status, summary, ''
           @ ''report_markdown).'',
         [],
         ''Hard rules:'',
         ''- Do NOT skip analyze/plan before large edits.'',
         ''- Do NOT put analyze+implement+verify into one generic worker.'',
         ''- Call exactly ONE specialist for the current pipeline_phase. Never dispatch ''
           @ ''later-phase specialists in the same tool batch.'',
         ''- After a specialist returns, update pipeline_phase before calling the next ''
           @ ''specialist; out-of-phase specialists are rejected by Runtime.'',
         ''- Do NOT goal.complete without a completion report summary.'',
         ''- Specialists cannot call goal.* / todo.* / nested subagent.*; root owns ''
           @ ''session state.'',
         ''- Prefer specialist names exactly: goal-analyst, goal-planner, ''
           @ ''goal-implementer, goal-verifier, goal-evaluator.''])"

definition root_agent_todo_policy :: string where
  "root_agent_todo_policy =
     with_quotes (join_with [CHR 0x0A]
        [''Session task list (todo.write / todo.list) ''
           @ utf8 [0xE2, 0x80, 0x94]
           @ '' mandatory for multi-step work:'',
         [],
         ''When to use:'',
         ''- Use todo.write whenever the user request needs 2+ sequential steps ''
           @ ''(investigate then fix, multi-file change, implement feature, debug then ''
           @ ''verify, plan then execute).'',
         ''- Skip todos only for trivial one-shot Q&A, pure greeting, or a single ''
           @ ''read/lookup with no follow-up work.'',
         ''- Never use memory.create with kind=task as a work queue; memory is durable ''
           @ ''knowledge, todos are the live checklist.'',
         [],
         ''How to use:'',
         ''1. At the start of multi-step work, call todo.write once with the full plan ''
           @ ''(merge=false or a complete list). Mark the first active item in_progress; ''
           @ ''others pending.'',
         ''2. Keep at most ONE item in_progress. Before switching work, mark the current ''
           @ ''item completed (or cancelled) and set the next to in_progress.'',
         ''3. Prefer sending the full active list each write. merge defaults to true: ''
           @ ''omitted items are KEPT (not deleted). To drop items, set status=cancelled or ''
           @ ''use merge=false.'',
         ''4. todos[].id may be your short key (`1`,`2`) or the Gateway id returned ''
           @ ''earlier. Prefer reusing the same short keys across turns so items update in ''
           @ ''place.'',
         ''5. Update the list when steps finish, fail, or the plan changes ''
           @ utf8 [0xE2, 0x80, 0x94]
           @ '' do not only describe progress in prose.'',
         ''6. Users see the list above the chat input; keep content short, concrete, and ''
           @ ''action-oriented (Chinese or English matching the user).'',
         ''7. Call todo.list only if you need to re-read the list; the current checklist ''
           @ ''is also injected as system context when present.'',
         [],
         ''Example first write:'',
         ''  todos: ['',
         ''    {id:`1`, content:`''
           @ utf8 [0xE5, 0xAE, 0x9A, 0xE4, 0xBD, 0x8D, 0xE5, 0xA4, 0xB1, 0xE8, 0xB4, 0xA5]
           @ utf8 [0xE7, 0x94, 0xA8, 0xE4, 0xBE, 0x8B]
           @ ''`, status:`in_progress`},'',
         ''    {id:`2`, content:`''
           @ utf8 [0xE4, 0xBF, 0xAE, 0xE5, 0xA4, 0x8D, 0xE5, 0xAE, 0x9E, 0xE7, 0x8E, 0xB0]
           @ ''`, status:`pending`},'',
         ''    {id:`3`, content:`''
           @ utf8 [0xE8, 0xB7, 0x91, 0xE6, 0xB5, 0x8B, 0xE8, 0xAF, 0x95, 0xE7, 0xA1, 0xAE]
           @ utf8 [0xE8, 0xAE, 0xA4]
           @ ''`, status:`pending`}'',
         ''  ]''])"

subsection \<open>Messages\<close>

text \<open>A message of a request; \<open>Assistant_Calls\<close> asks for tools, \<open>Tool_Reply\<close> answers one call.\<close>

record wire_call =
  wc_id :: string
  wc_name :: string
  wc_arguments :: string

datatype chat_message =
    Chat_Text string string
  | Assistant_Calls "wire_call list"
  | Tool_Reply string string string

definition conversation_message_text :: "conversation_message \<Rightarrow> string" where
  "conversation_message_text m =
     join_with [CHR 0x0A] (filter (\<lambda>t. t \<noteq> []) (map trim_space (cm_blocks m)))"

definition chat_role :: "string \<Rightarrow> string option" where
  "chat_role r = (if r \<in> {''user'', ''system'', ''assistant''} then Some r else None)"

definition conversation_messages :: "conversation_message list \<Rightarrow> chat_message list" where
  "conversation_messages ms =
     concat (map (\<lambda>m. let t = conversation_message_text m
                      in if t = [] then []
                         else case chat_role (cm_role m) of
                                Some r \<Rightarrow> [Chat_Text r t] | None \<Rightarrow> []) ms)"

definition has_successful_subagent_result :: "tool_exchange list \<Rightarrow> bool" where
  "has_successful_subagent_result history \<longleftrightarrow>
     list_ex (\<lambda>x. tc_name (te_call x) = ''subagent.run'' \<and> tr_status (te_result x) = ''completed'') history"

definition tool_rounds_for_request :: "completion_request \<Rightarrow> tool_exchange list list" where
  "tool_rounds_for_request q =
     (if pq_rounds q \<noteq> [] then pq_rounds q else map (\<lambda>x. [x]) (cq_history q))"

definition system_text :: "bool \<Rightarrow> string \<Rightarrow> chat_message list" where
  "system_text given t = (if given then [Chat_Text ''system'' t] else [])"

definition context_text :: "string option \<Rightarrow> chat_message list" where
  "context_text c = (case c of None \<Rightarrow> [] | Some t \<Rightarrow> system_text (trim_space t \<noteq> []) (trim_space t))"

definition bound_goal_note :: "string \<Rightarrow> string" where
  "bound_goal_note goal =
     ''A session Goal is already bound to this run (id='' @ goal @ ''). ''
     @ ''Do NOT call goal.write to create another. Use goal.update / goal.checkpoint / goal.complete and todo.write. ''
     @ ''Start from the current pipeline_phase (usually analyze) with the phase specialists.''"

definition goal_messages :: "reply_goal_context option \<Rightarrow> chat_message list" where
  "goal_messages g =
     (case g of
        None \<Rightarrow> []
      | Some gc \<Rightarrow>
          if trim_space (gc_context gc) = [] then []
          else Chat_Text ''system'' (trim_space (gc_context gc))
               # system_text (trim_space (gc_goal_id gc) \<noteq> []) (bound_goal_note (trim_space (gc_goal_id gc))))"

definition system_messages :: "local_time \<Rightarrow> completion_request \<Rightarrow> chat_message list" where
  "system_messages now q =
     (let pipeline = has_tool_named (pq_tools q) ''goal.write''
      in Chat_Text ''system'' (current_time_context_message now)
         # system_text (has_tool_named (pq_tools q) ''subagent.run'' \<and> \<not> pipeline) root_agent_orchestration_policy
         @ system_text (has_successful_subagent_result (cq_history q) \<and> \<not> pipeline)
             root_agent_post_delegation_policy
         @ system_text pipeline root_agent_goal_pipeline_policy
         @ system_text (has_tool_named (pq_tools q) ''todo.write'') root_agent_todo_policy
         @ context_text (map_option mc_context (opt_memory_context (pq_options q)))
         @ goal_messages (pq_goal_context q)
         @ context_text (map_option tx_context (pq_todo_context q))
         @ context_text (cq_skills_context q))"

text \<open>
  A nil map of arguments is written as \<^verbatim>\<open>null\<close>. The content of a reply may panic
  (\<open>model_facing_tool_content\<close>).
\<close>

definition arguments_value :: "go_map option \<Rightarrow> go_value" where
  "arguments_value a = (case a of None \<Rightarrow> GNil | Some m \<Rightarrow> GMap m)"

definition wire_call_of :: "go_library \<Rightarrow> tool_exchange \<Rightarrow> wire_call" where
  "wire_call_of L x =
     \<lparr>wc_id = tool_call.tc_id (te_call x), wc_name = public_tool_name (tc_name (te_call x)),
      wc_arguments = js_write_any L (arguments_value (tc_arguments (te_call x)))\<rparr>"

fun reply_messages :: "go_library \<Rightarrow> tool_exchange list \<Rightarrow> chat_message list option" where
  "reply_messages L [] = Some []"
| "reply_messages L (x # xs) =
     (case model_facing_tool_content L (te_result x) of
        None \<Rightarrow> None
      | Some content \<Rightarrow>
          map_option ((#) (Tool_Reply (tool_call.tc_id (te_call x)) (public_tool_name (tc_name (te_call x))) content))
            (reply_messages L xs))"

fun round_messages :: "go_library \<Rightarrow> tool_exchange list list \<Rightarrow> chat_message list option" where
  "round_messages L [] = Some []"
| "round_messages L (r # rs) =
     (if r = [] then round_messages L rs
      else case reply_messages L r of
             None \<Rightarrow> None
           | Some replies \<Rightarrow>
               map_option (\<lambda>rest. Assistant_Calls (map (wire_call_of L) r) # replies @ rest)
                 (round_messages L rs))"

definition openai_compatible_messages ::
  "go_library \<Rightarrow> local_time \<Rightarrow> completion_request \<Rightarrow> chat_message list option" where
  "openai_compatible_messages L now q =
     map_option (\<lambda>rounds. system_messages now q @ conversation_messages (cq_conversation q)
                   @ [Chat_Text ''user'' (pq_input q)] @ rounds)
       (round_messages L (tool_rounds_for_request q))"

definition openai_compatible_tools :: "tool_definition list \<Rightarrow> go_value list" where
  "openai_compatible_tools defs =
     map (\<lambda>d. GMap [(''type'', GStr ''function''),
                (''function'', GMap [(''name'', GStr (public_tool_name (td_name d))),
                   (''description'', GStr (td_description d)), (''parameters'', td_parameters d)])]) defs"

definition wire_call_value :: "wire_call \<Rightarrow> go_value" where
  "wire_call_value c =
     GMap [(''id'', GStr (wc_id c)), (''type'', GStr ''function''),
       (''function'', GMap [(''name'', GStr (wc_name c)), (''arguments'', GStr (wc_arguments c))])]"

fun message_value :: "chat_message \<Rightarrow> go_value" where
  "message_value (Chat_Text role t) = GMap [(''role'', GStr role), (''content'', GStr t)]"
| "message_value (Assistant_Calls cs) =
     GMap [(''role'', GStr ''assistant''), (''tool_calls'', GList (map wire_call_value cs))]"
| "message_value (Tool_Reply i n t) =
     GMap [(''role'', GStr ''tool''), (''tool_call_id'', GStr i), (''name'', GStr n), (''content'', GStr t)]"

subsection \<open>The endpoint\<close>

text \<open>
  An endpoint as \<^verbatim>\<open>HTTPCompatibleProvider\<close>. The reply of the server is an error, or a status with a
  body: its bytes and the error that ends them, if one does. \<open>endpoint_env\<close> is the outside: the
  exchange with the server, and how \<^verbatim>\<open>encoding/json\<close> decodes the two shapes of an answer.
\<close>

record http_provider =
  hp_base_url :: string
  hp_api_key :: string
  hp_model :: string
  hp_stream :: bool

record http_body =
  hb_bytes :: string
  hb_error :: "string option"

datatype http_reply = Http_Failed string | Http_Reply int http_body

record http_request =
  hq_url :: string
  hq_body :: string
  hq_authorization :: "string option"

text \<open>A call in an answer, and a fragment of a call in a streamed one, with its index.\<close>

record answer_call =
  ac_id :: string
  ac_name :: string
  ac_arguments :: string

record answer_message =
  am_content :: string
  am_calls :: "answer_call list"

record stream_delta =
  sd_content :: string
  sd_calls :: "(int \<times> answer_call) list"

record 'w endpoint_env =
  ep_send :: "http_request \<Rightarrow> 'w \<Rightarrow> 'w \<times> http_reply"
  ep_now :: "'w \<Rightarrow> local_time"
  ep_read_answer :: "string \<Rightarrow> answer_message list option"
  ep_read_stream :: "string \<Rightarrow> stream_delta list option"

definition trim_slashes :: "string \<Rightarrow> string" where
  "trim_slashes s = rev (dropWhile (\<lambda>c. c = CHR ''/'') (rev s))"

definition chat_completions_url :: "string \<Rightarrow> string" where
  "chat_completions_url u =
     (let b = trim_slashes (trim_space u)
      in if has_suffix b ''/chat/completions'' then b
         else if has_suffix b ''/v1'' then b @ ''/chat/completions''
         else b @ ''/v1/chat/completions'')"

definition provider_from_options :: "endpoint_options \<Rightarrow> bool \<Rightarrow> http_provider option" where
  "provider_from_options opts stream =
     (let base = trim_slashes (trim_space (eo_base_url opts));
          name = to_lower (trim_space (eo_provider_name opts));
          model = trim_space (eo_model opts)
      in if base = [] then None
         else if name \<notin> {[], ''openai_compatible'', ''http_compatible''} then None
         else Some \<lparr>hp_base_url = base, hp_api_key = trim_space (eo_api_key opts),
                hp_model = (if model = [] then ''default'' else model), hp_stream = stream\<rparr>)"

text \<open>
  Arguments that are not a JSON object leave the map nil; their error is dropped.
\<close>

definition read_arguments :: "go_library \<Rightarrow> string \<Rightarrow> go_map option" where
  "read_arguments L t =
     (if t = [] then None else case js_read_any L t of Some (GMap m) \<Rightarrow> Some m | _ \<Rightarrow> None)"

definition requested_call :: "go_library \<Rightarrow> string \<Rightarrow> string \<Rightarrow> string \<Rightarrow> tool_call" where
  "requested_call L i n args =
     tool_call.make i n [] [] (read_arguments L args)"

definition complete_http_response ::
  "go_library \<Rightarrow> 'w endpoint_env \<Rightarrow> string \<Rightarrow> provider_chunk list \<times> string option" where
  "complete_http_response L E raw =
     (case ep_read_answer E raw of
        None \<Rightarrow> ([], Some ''json: cannot unmarshal'')
      | Some [] \<Rightarrow> ([], Some ''provider returned no choices'')
      | Some (m # _) \<Rightarrow>
          (if am_calls m \<noteq> []
           then [calls_chunk (map (\<lambda>c. requested_call L (ac_id c) (internal_tool_name (ac_name c)) (ac_arguments c))
                                (am_calls m))]
           else [delta_chunk (am_content m), final_chunk], None))"

subsection \<open>A streamed answer\<close>

text \<open>
  \<^verbatim>\<open>bufio.Scanner\<close> with a buffer of one megabyte: the lines of the body up to the first that does
  not fit, and the scanner's error. A last line without a newline counts if it is not empty. (The
  carriage return it drops is trimmed by the loop anyway.) An error of the reader comes after the
  bytes before it, by itself.
\<close>

definition max_stream_line :: int where "max_stream_line = 1048576"

definition body_lines :: "string \<Rightarrow> string list" where
  "body_lines s =
     (let ls = split_on (CHR 0x0A) s in if last ls = [] then butlast ls else ls)"

definition scan_lines :: "http_body \<Rightarrow> string list \<times> string option" where
  "scan_lines b =
     (let ls = body_lines (hb_bytes b); fits = (\<lambda>l. int (length l) < max_stream_line)
      in if list_all fits ls then (ls, hb_error b)
         else (takeWhile fits ls, Some ''bufio.Scanner: token too long''))"

text \<open>What a line is to the loop: nothing, the end, or data.\<close>

datatype stream_line = Line_Skipped | Line_Done | Line_Data string

definition read_stream_line :: "string \<Rightarrow> stream_line" where
  "read_stream_line raw =
     (let line = trim_space raw
      in if line = [] \<or> has_prefix line '':'' \<or> \<not> has_prefix line ''data:'' then Line_Skipped
         else let data = trim_space (trim_prefix line ''data:'')
              in if data = ''[DONE]'' then Line_Done else Line_Data data)"

text \<open>\<^verbatim>\<open>toolCalls\<close>, a map from the index: an association list, in the order of the first fragments.\<close>

type_synonym stream_calls = "(int \<times> answer_call) list"

definition empty_call :: answer_call where
  "empty_call = \<lparr>ac_id = [], ac_name = [], ac_arguments = []\<rparr>"

definition merge_fragment :: "answer_call \<Rightarrow> answer_call \<Rightarrow> answer_call" where
  "merge_fragment c f =
     \<lparr>ac_id = (if ac_id f \<noteq> [] then ac_id f else ac_id c),
      ac_name = (if ac_name f \<noteq> [] then internal_tool_name (ac_name f) else ac_name c),
      ac_arguments = ac_arguments c @ ac_arguments f\<rparr>"

fun add_fragment :: "int \<times> answer_call \<Rightarrow> stream_calls \<Rightarrow> stream_calls" where
  "add_fragment (i, f) [] = [(i, merge_fragment empty_call f)]"
| "add_fragment (i, f) ((j, c) # calls) =
     (if j = i then (j, merge_fragment c f) # calls else (j, c) # add_fragment (i, f) calls)"

definition add_choice :: "stream_delta \<Rightarrow> provider_chunk list \<times> stream_calls \<Rightarrow> provider_chunk list \<times> stream_calls" where
  "add_choice d st =
     (fst st @ (if sd_content d = [] then [] else [delta_chunk (sd_content d)]),
      fold add_fragment (sd_calls d) (snd st))"

text \<open>The loop over the lines; an error stops it.\<close>

fun stream_loop ::
  "'w endpoint_env \<Rightarrow> string list \<Rightarrow> provider_chunk list \<times> stream_calls
    \<Rightarrow> (provider_chunk list \<times> stream_calls) \<times> bool \<times> string option" where
  "stream_loop E [] st = (st, False, None)"
| "stream_loop E (l # ls) st =
     (case read_stream_line l of
        Line_Skipped \<Rightarrow> stream_loop E ls st
      | Line_Done \<Rightarrow> (st, True, None)
      | Line_Data data \<Rightarrow>
          (case ep_read_stream E data of
             None \<Rightarrow> (st, False, Some ''json: cannot unmarshal'')
           | Some choices \<Rightarrow> stream_loop E ls (fold add_choice choices st)))"

text \<open>The calls at the end: the indices from 0 to the number of calls, those without a name left out.\<close>

definition finished_calls :: "go_library \<Rightarrow> stream_calls \<Rightarrow> tool_call list" where
  "finished_calls L calls =
     concat (map (\<lambda>k. case map_of calls (int k) of
                        None \<Rightarrow> []
                      | Some c \<Rightarrow> if ac_name c = [] then []
                                  else [requested_call L (ac_id c) (ac_name c) (ac_arguments c)])
               [0..<length calls])"

definition complete_stream ::
  "go_library \<Rightarrow> 'w endpoint_env \<Rightarrow> http_body \<Rightarrow> provider_chunk list \<times> string option" where
  "complete_stream L E b =
     (case scan_lines b of (ls, scan_err) \<Rightarrow>
      case stream_loop E ls ([], []) of
        ((chunks, calls), saw_done, Some err) \<Rightarrow> (chunks, Some err)
      | ((chunks, calls), saw_done, None) \<Rightarrow>
          if \<not> saw_done \<and> scan_err \<noteq> None then (chunks, scan_err)
          else (chunks @ (if finished_calls L calls \<noteq> [] then [calls_chunk (finished_calls L calls)]
                          else [final_chunk]), None))"

subsection \<open>A completion\<close>

definition max_answer_bytes :: int where "max_answer_bytes = 4194304"

text \<open>\<^verbatim>\<open>io.ReadAll\<close> of \<^verbatim>\<open>io.LimitReader\<close>: an error beyond the limit is not seen.\<close>

definition read_limited :: "http_body \<Rightarrow> string \<times> string option" where
  "read_limited b =
     (if int (length (hb_bytes b)) < max_answer_bytes then (hb_bytes b, hb_error b)
      else (take (nat max_answer_bytes) (hb_bytes b), None))"

definition request_body :: "http_provider \<Rightarrow> completion_request \<Rightarrow> chat_message list \<Rightarrow> go_value" where
  "request_body p q msgs =
     GMap ([(''model'', GStr (if eo_model (cq_endpoint q) = [] then hp_model p else eo_model (cq_endpoint q))),
            (''messages'', GList (map message_value msgs)),
            (''stream'', GBool (hp_stream p))]
           @ (if pq_tools q = [] then []
              else [(''tools'', GList (openai_compatible_tools (pq_tools q))), (''tool_choice'', GStr ''auto'')]))"

definition http_request_for :: "go_library \<Rightarrow> http_provider \<Rightarrow> completion_request \<Rightarrow> chat_message list \<Rightarrow> http_request" where
  "http_request_for L p q msgs =
     \<lparr>hq_url = chat_completions_url (hp_base_url p), hq_body = js_write_any L (request_body p q msgs),
      hq_authorization = (if hp_api_key p = [] then None else Some (''Bearer '' @ hp_api_key p))\<rparr>"

text \<open>\<open>None\<close> is a panic while the messages are made.\<close>

definition provider_complete ::
  "go_library \<Rightarrow> 'w endpoint_env \<Rightarrow> http_provider \<Rightarrow> completion_request \<Rightarrow> 'w
    \<Rightarrow> ('w \<times> provider_chunk list \<times> string option) option" where
  "provider_complete L E p q w =
     map_option (\<lambda>msgs.
       case ep_send E (http_request_for L p q msgs) w of
         (w1, Http_Failed err) \<Rightarrow> (w1, [], Some err)
       | (w1, Http_Reply status b) \<Rightarrow>
           (w1, if status < 200 \<or> status > 299
                then ([], Some (''provider returned HTTP '' @ int_dec status @ '': '' @ fst (read_limited b)))
                else if hp_stream p then complete_stream L E b
                else case read_limited b of
                       (raw, Some err) \<Rightarrow> ([], Some err)
                     | (raw, None) \<Rightarrow> complete_http_response L E raw))
       (openai_compatible_messages L (ep_now E w) q)"

text \<open>\<^verbatim>\<open>HTTPCompatibleProvider.Complete\<close>: the options may name another endpoint.\<close>

definition http_complete ::
  "go_library \<Rightarrow> 'w endpoint_env \<Rightarrow> http_provider \<Rightarrow> completion_request \<Rightarrow> 'w
    \<Rightarrow> ('w \<times> provider_chunk list \<times> string option) option" where
  "http_complete L E p q w =
     (case provider_from_options (cq_endpoint q) (hp_stream p) of
        Some override \<Rightarrow> provider_complete L E override q w
      | None \<Rightarrow> provider_complete L E p q w)"

subsection \<open>The echo provider\<close>

text \<open>
  Commands in the text of the user stand for calls of tools. The commands are recognised in the
  lower-case text, and the rest is cut from the text itself: \<open>slice_from\<close> panics beyond its end.
\<close>

definition model_call :: "string \<Rightarrow> string \<Rightarrow> string \<Rightarrow> string \<Rightarrow> string \<Rightarrow> go_map \<Rightarrow> tool_call" where
  "model_call run part name display risk args =
     tool_call.make (''tool_'' @ run @ part) name display risk (Some args)"

definition memory_create_model_call :: "string \<Rightarrow> string \<Rightarrow> string \<Rightarrow> tool_call" where
  "memory_create_model_call run scope content =
     model_call run ''_model_memory_create'' ''memory.create'' ''Create memory'' risk_high
       [(''scope'', GStr scope), (''content'', GStr content)]"

definition grep_model_call :: "string \<Rightarrow> string \<Rightarrow> tool_call" where
  "grep_model_call run rest =
     (case cut_at '' '' rest of (pattern, path, ok) \<Rightarrow>
        model_call run ''_model_grep'' ''workspace.grep'' ''Search files'' risk_low
          [(''pattern'', GStr pattern), (''path'', GStr (trim_space (if ok then path else ''.''))),
           (''max_matches'', GInt default_grep_matches)])"

definition edit_model_arguments :: "string \<Rightarrow> go_map" where
  "edit_model_arguments rest =
     (case cut_at '' '' rest of (path, replacement, ok) \<Rightarrow>
      case (if ok then cut_at ''=>'' replacement else ([], [], False)) of (old_text, new_text, _) \<Rightarrow>
        [(''path'', GStr (trim_space path)), (''old_text'', GStr (trim_space old_text)),
         (''new_text'', GStr (trim_space new_text)), (''replace_all'', GBool False)])"

definition edit_model_call :: "string \<Rightarrow> string \<Rightarrow> tool_call" where
  "edit_model_call run rest =
     model_call run ''_model_edit'' ''workspace.edit_file'' ''Edit file'' risk_high (edit_model_arguments rest)"

definition diff_model_call :: "string \<Rightarrow> string \<Rightarrow> tool_call" where
  "diff_model_call run rest =
     model_call run ''_model_diff'' ''workspace.diff_file'' ''Preview diff'' risk_low (edit_model_arguments rest)"

definition write_model_call :: "string \<Rightarrow> string \<Rightarrow> tool_call" where
  "write_model_call run rest =
     (case cut_at '' '' rest of (path, content, ok) \<Rightarrow>
        model_call run ''_model_write'' ''workspace.write_file'' ''Write file'' risk_high
          (if ok then [(''path'', GStr path), (''content'', GStr content)]
           else [(''path'', GStr rest), (''content'', GStr [])]))"

text \<open>The parts of \<^verbatim>\<open>todo a; b\<close>; an empty part keeps its number but is left out.\<close>

fun echo_todos :: "nat \<Rightarrow> string list \<Rightarrow> go_value list" where
  "echo_todos i [] = []"
| "echo_todos i (part # parts) =
     (if trim_space part = [] then echo_todos (i + 1) parts
      else GMap [(''id'', GStr (nat_digits (i + 1))), (''content'', GStr (trim_space part)),
             (''status'', GStr (if i = 0 then ''in_progress'' else ''pending''))]
           # echo_todos (i + 1) parts)"

definition todo_model_calls :: "string \<Rightarrow> string \<Rightarrow> tool_call list" where
  "todo_model_calls run rest =
     (let todos = echo_todos 0 (split_on (CHR '';'') rest)
      in if todos = [] then []
         else [model_call run ''_model_todo_write'' ''todo.write'' ''Update todos'' risk_low
                 [(''todos'', GList todos), (''merge'', GBool False)]])"

definition list_memory_arguments :: "string \<Rightarrow> go_map" where
  "list_memory_arguments scope =
     (''limit'', GInt 20) # (if scope = [] then [] else [(''scope'', GStr scope)])"

text \<open>The first command that fits, with what it makes of the rest of the text.\<close>

definition echo_commands :: "string \<Rightarrow> (bool \<times> string \<times> (string \<Rightarrow> string \<Rightarrow> tool_call list)) list" where
  "echo_commands lower =
     [(has_prefix lower ''read file '', ''read file '', \<lambda>run path.
         [model_call run ''_model_read'' ''workspace.read_file'' ''Read file'' risk_low [(''path'', GStr path)]]),
      (lower = ''list files'' \<or> has_prefix lower ''list files '', ''list files'', \<lambda>run path.
         [model_call run ''_model_list'' ''workspace.list'' ''List files'' risk_low
            [(''path'', GStr (if path = [] then ''.'' else path)), (''max_depth'', GInt default_list_depth)]]),
      (has_prefix lower ''grep '', ''grep '', \<lambda>run rest. [grep_model_call run rest]),
      (has_prefix lower ''search '', ''search '', \<lambda>run rest. [grep_model_call run rest]),
      (has_prefix lower ''run shell '', ''run shell '', \<lambda>run command.
         [model_call run ''_model_shell'' ''shell.exec'' ''Shell'' risk_high [(''command'', GStr command)]]),
      (has_prefix lower ''write file '', ''write file '', \<lambda>run rest. [write_model_call run rest]),
      (has_prefix lower ''edit file '', ''edit file '', \<lambda>run rest. [edit_model_call run rest]),
      (has_prefix lower ''diff file '', ''diff file '', \<lambda>run rest. [diff_model_call run rest]),
      (has_prefix lower ''apply patch '', ''apply patch '', \<lambda>run patch.
         [model_call run ''_model_patch'' ''workspace.apply_patch'' ''Apply patch'' risk_high [(''patch'', GStr patch)]]),
      (lower = ''list memory'' \<or> has_prefix lower ''list memory '', ''list memory'', \<lambda>run scope.
         [model_call run ''_model_memory_list'' ''memory.list'' ''List memory'' risk_medium
            (list_memory_arguments scope)]),
      (has_prefix lower ''remember session '', ''remember session '', \<lambda>run content.
         [memory_create_model_call run ''session'' content]),
      (has_prefix lower ''remember project '', ''remember project '', \<lambda>run content.
         [memory_create_model_call run ''project'' content]),
      (has_prefix lower ''delete memory '', ''delete memory '', \<lambda>run i.
         [model_call run ''_model_memory_delete'' ''memory.delete'' ''Delete memory'' risk_high [(''id'', GStr i)]]),
      (lower \<in> {''list todos'', ''list todo'', ''/todo list''}, [], \<lambda>run _.
         [model_call run ''_model_todo_list'' ''todo.list'' ''List todos'' risk_low [(''status'', GStr ''all'')]]),
      (has_prefix lower ''todo '', ''todo '', todo_model_calls),
      (lower = ''/todo'', [], \<lambda>run _. todo_model_calls run ''task'')]"

definition echo_tool_calls :: "string \<Rightarrow> string \<Rightarrow> tool_call list option" where
  "echo_tool_calls run input =
     (let t = trim_space input
      in case find fst (echo_commands (to_lower t)) of
           None \<Rightarrow> Some []
         | Some (_, command, calls) \<Rightarrow>
             map_option (\<lambda>rest. calls run (trim_space rest)) (slice_from t (length command)))"

definition echo_answer :: "tool_exchange \<Rightarrow> string" where
  "echo_answer x =
     (let r = te_result x
      in if tr_error r \<noteq> [] then ''Tool '' @ tr_name r @ '' failed: '' @ tr_error r
         else ''Tool '' @ tr_name r @ '' completed with status '' @ tr_status r @ ''.'' @ [CHR 0x0A] @ tr_output r)"

text \<open>\<open>cancelled\<close> is whether the context has ended; \<open>None\<close> is a panic.\<close>

definition echo_complete ::
  "go_library \<Rightarrow> 'w endpoint_env \<Rightarrow> bool \<Rightarrow> completion_request \<Rightarrow> 'w
    \<Rightarrow> ('w \<times> provider_chunk list \<times> string option) option" where
  "echo_complete L E cancelled q w =
     (case provider_from_options (cq_endpoint q) False of
        Some override \<Rightarrow> provider_complete L E override q w
      | None \<Rightarrow>
          if cq_history q \<noteq> []
          then Some (w, [delta_chunk (echo_answer (last (cq_history q))), final_chunk], None)
          else case echo_tool_calls (cq_run_id q) (pq_input q) of
                 None \<Rightarrow> None
               | Some [] \<Rightarrow>
                   Some (if cancelled then (w, [], Some ''context canceled'')
                         else (w, [delta_chunk (if pq_input q = [] then ''ok'' else pq_input q), final_chunk], None))
               | Some calls \<Rightarrow> Some (w, [calls_chunk calls], None))"

text \<open>The provider that the environment of the process selects; \<open>None\<close> is the echo provider.\<close>

definition truthy_text :: "string \<Rightarrow> bool" where
  "truthy_text v \<longleftrightarrow> to_lower (trim_space v) \<in> {''1'', ''true'', ''yes'', ''on''}"

definition provider_from_env :: "(string \<Rightarrow> string) \<Rightarrow> http_provider option" where
  "provider_from_env getenv =
     (let name = to_lower (trim_space (getenv ''RED_PANDA_PROVIDER''));
          base = trim_slashes (trim_space (getenv ''RED_PANDA_PROVIDER_BASE_URL''));
          model = trim_space (getenv ''RED_PANDA_PROVIDER_MODEL'')
      in if base = [] then None
         else Some \<lparr>hp_base_url = base, hp_api_key = trim_space (getenv ''RED_PANDA_PROVIDER_API_KEY''),
                hp_model = (if model = [] then ''default'' else model),
                hp_stream = truthy_text (getenv ''RED_PANDA_PROVIDER_STREAM'')\<rparr>)"

end
