(* ===== verification/Provider_Props.thy ===== *)
theory Provider_Props
  imports Provider_Messages
begin

text \<open>
  What the model is sent and what becomes of its answer: the tool rounds of a request follow the
  protocol, names of tools survive the way to the model and back, and a streamed answer is put
  together fragment by fragment, for the indices the loop at its end visits.
\<close>

subsection \<open>Names of tools\<close>

lemmas replace_all_Cons = replace_all.simps [of "c # s" for c s]

lemma public_name_Nil [simp]: "public_tool_name [] = []"
  by (simp add: public_tool_name_def replace_all.simps)

lemma public_name_Cons:
  "public_tool_name (c # s) = (if c = CHR ''.'' then ''__'' else [c]) @ public_tool_name s"
  by (simp add: public_tool_name_def replace_all_Cons has_prefix_def)

lemma internal_name_Nil [simp]: "internal_tool_name [] = []"
  by (simp add: internal_tool_name_def replace_all.simps)

lemma internal_name_dunder: "internal_tool_name (''__'' @ s) = CHR ''.'' # internal_tool_name s"
  by (simp add: internal_tool_name_def replace_all_Cons has_prefix_def)

lemma internal_name_other:
  "\<not> (c = CHR ''_'' \<and> s \<noteq> [] \<and> hd s = CHR ''_'') \<Longrightarrow> internal_tool_name (c # s) = c # internal_tool_name s"
  by (cases s) (auto simp: internal_tool_name_def replace_all_Cons has_prefix_def)

lemma public_name_head:
  "separated_name (CHR ''_'' # s) \<Longrightarrow> \<not> (public_tool_name s \<noteq> [] \<and> hd (public_tool_name s) = CHR ''_'')"
  by (cases s) (auto simp: public_name_Cons)

lemma separated_tail: "separated_name (c # s) \<Longrightarrow> separated_name s"
  by (cases s) auto

lemma tool_name_back: "separated_name n \<Longrightarrow> internal_tool_name (public_tool_name n) = n"
proof (induction n)
  case (Cons c n)
  have ih: "internal_tool_name (public_tool_name n) = n"
    using Cons separated_tail by blast
  show ?case
  proof (cases "c = CHR ''.''")
    case True
    then have "public_tool_name (c # n) = ''__'' @ public_tool_name n" by (simp add: public_name_Cons)
    then show ?thesis using True by (simp only: internal_name_dunder ih)
  next
    case False
    have "\<not> (c = CHR ''_'' \<and> public_tool_name n \<noteq> [] \<and> hd (public_tool_name n) = CHR ''_'')"
      using public_name_head Cons.prems by blast
    from internal_name_other [OF this] False ih show ?thesis by (simp add: public_name_Cons)
  qed
qed simp

lemma builtin_names_separated: "list_all (\<lambda>d. separated_name (td_name d)) available_tools"
  by code_simp

text \<open>
  The names the model sees of the built-in tools lead back to the tools, and so do all names in
  which no two of the characters \<^verbatim>\<open>.\<close> and \<^verbatim>\<open>_\<close> are neighbours. Other names may not come back.
\<close>

theorem tool_names_roundtrip:
  "map (\<lambda>d. internal_tool_name (public_tool_name (td_name d))) available_tools = map td_name available_tools"
  using builtin_names_separated by (simp add: list_all_iff tool_name_back)

lemma tool_name_lost: "internal_tool_name (public_tool_name ''mcp.a__b'') = ''mcp.a.b''"
  by code_simp

subsection \<open>Messages\<close>

text \<open>
  The protocol of the endpoint: a message that asks for tools is followed at once by one reply for
  each of its calls, in their order, and nothing else replies. \<open>pending\<close> are the ids still open.
\<close>

fun tool_protocol :: "string list \<Rightarrow> chat_message list \<Rightarrow> bool" where
  "tool_protocol pending [] \<longleftrightarrow> pending = []"
| "tool_protocol pending (Chat_Text r t # ms) \<longleftrightarrow> pending = [] \<and> tool_protocol [] ms"
| "tool_protocol pending (Assistant_Calls cs # ms) \<longleftrightarrow>
     pending = [] \<and> cs \<noteq> [] \<and> tool_protocol (map wc_id cs) ms"
| "tool_protocol pending (Tool_Reply i n t # ms) \<longleftrightarrow>
     (case pending of [] \<Rightarrow> False | p # ps \<Rightarrow> p = i \<and> tool_protocol ps ms)"

lemma replies_close_round:
  "reply_messages L xs = Some rs \<Longrightarrow>
     tool_protocol (map (\<lambda>x. tool_call.tc_id (te_call x)) xs) (rs @ ms) = tool_protocol [] ms"
  by (induction xs arbitrary: rs) (auto split: option.splits)

lemma rounds_follow_protocol: "round_messages L rs = Some ms \<Longrightarrow> tool_protocol [] ms"
proof (induction rs arbitrary: ms)
  case (Cons r rs)
  show ?case
  proof (cases "r = []")
    case False
    then obtain replies rest where "reply_messages L r = Some replies" "round_messages L rs = Some rest"
      "ms = Assistant_Calls (map (wire_call_of L) r) # replies @ rest"
      using Cons.prems by (auto split: option.splits)
    then show ?thesis
      using False Cons.IH replies_close_round [of L r replies rest]
      by (simp add: wire_call_of_def comp_def)
  qed (use Cons in simp)
qed simp

definition is_text :: "chat_message \<Rightarrow> bool" where
  "is_text m = (case m of Chat_Text _ _ \<Rightarrow> True | _ \<Rightarrow> False)"

lemma protocol_texts: "list_all is_text ts \<Longrightarrow> tool_protocol [] (ts @ ms) = tool_protocol [] ms"
  by (induction ts) (auto simp: is_text_def split: chat_message.splits)

lemma context_texts:
  "list_all is_text (system_text b t)" "list_all is_text (context_text c)" "list_all is_text (goal_messages g)"
  by (auto simp: system_text_def context_text_def goal_messages_def is_text_def split: option.splits)

lemma system_texts: "list_all is_text (system_messages now q)"
  by (simp add: system_messages_def Let_def context_texts) (simp add: is_text_def)

lemma conversation_texts: "list_all is_text (conversation_messages ms)"
  by (auto simp: conversation_messages_def is_text_def Let_def list_all_iff split: option.splits if_splits)

text \<open>
  C21. Every request the runtime makes follows the tool protocol, whatever calls ran before: each
  assistant message with tool calls is followed by exactly one reply per call, with the ids of the
  calls in their order. The request begins with the time, and the user's text is the last message
  before the tool rounds.
\<close>

theorem requests_follow_protocol:
  assumes "openai_compatible_messages L now q = Some msgs"
  shows "tool_protocol [] msgs
    \<and> hd msgs = Chat_Text ''system'' (current_time_context_message now)
    \<and> (\<exists>before rounds. msgs = before @ Chat_Text ''user'' (pq_input q) # rounds \<and> list_all is_text before
         \<and> round_messages L (tool_rounds_for_request q) = Some rounds)"
proof -
  obtain rounds where rounds: "round_messages L (tool_rounds_for_request q) = Some rounds"
    "msgs = (system_messages now q @ conversation_messages (cq_conversation q)) @ Chat_Text ''user'' (pq_input q) # rounds"
    using assms by (auto simp: openai_compatible_messages_def)
  have texts: "list_all is_text (system_messages now q @ conversation_messages (cq_conversation q))"
    by (simp add: system_texts conversation_texts)
  have "tool_protocol [] msgs"
    using rounds_follow_protocol [OF rounds(1)] protocol_texts [OF texts] by (simp add: rounds(2))
  moreover have "hd msgs = Chat_Text ''system'' (current_time_context_message now)"
    by (simp add: rounds(2) system_messages_def Let_def)
  ultimately show ?thesis using rounds texts by blast
qed

subsection \<open>Streamed calls\<close>

text \<open>What the fragments of one index mean, read on their own: the last id, the last name, all text.\<close>

definition fragments_of :: "int \<Rightarrow> (int \<times> answer_call) list \<Rightarrow> answer_call list" where
  "fragments_of i fs = map snd (filter (\<lambda>(j, _). j = i) fs)"

definition last_filled :: "string list \<Rightarrow> string" where
  "last_filled xs = (case rev (filter (\<lambda>x. x \<noteq> []) xs) of [] \<Rightarrow> [] | x # _ \<Rightarrow> x)"

definition assembled_call :: "answer_call list \<Rightarrow> answer_call" where
  "assembled_call fs =
     \<lparr>ac_id = last_filled (map ac_id fs), ac_name = internal_tool_name (last_filled (map ac_name fs)),
      ac_arguments = concat (map ac_arguments fs)\<rparr>"

lemma last_filled_snoc: "last_filled (xs @ [x]) = (if x = [] then last_filled xs else x)"
  by (simp add: last_filled_def)

lemma assembled_snoc: "assembled_call (fs @ [f]) = merge_fragment (assembled_call fs) f"
  by (simp add: assembled_call_def merge_fragment_def last_filled_snoc)

lemma assembled_Nil: "assembled_call [] = empty_call"
  by (simp add: assembled_call_def empty_call_def last_filled_def)

lemma add_fragment_lookup:
  "map_of (add_fragment (i, f) calls) j =
     (if j = i then Some (merge_fragment (case map_of calls i of None \<Rightarrow> empty_call | Some c \<Rightarrow> c) f)
      else map_of calls j)"
  by (induction calls) auto

lemma add_fragment_keys:
  "map fst (add_fragment (i, f) calls) = (if i \<in> fst ` set calls then map fst calls else map fst calls @ [i])"
  by (induction calls) force+

lemma assembled_lookup:
  "map_of (fold add_fragment fs []) i =
     (if fragments_of i fs = [] then None else Some (assembled_call (fragments_of i fs)))"
proof (induction fs rule: rev_induct)
  case Nil
  then show ?case by (simp add: fragments_of_def)
next
  case (snoc x fs)
  obtain j f where x: "x = (j, f)" by fastforce
  have step: "fragments_of i (fs @ [x]) = fragments_of i fs @ (if j = i then [f] else [])"
    by (simp add: fragments_of_def x)
  show ?case
  proof (cases "j = i")
    case True
    have "(case map_of (fold add_fragment fs []) i of None \<Rightarrow> empty_call | Some c \<Rightarrow> c)
            = assembled_call (fragments_of i fs)"
      by (simp add: snoc assembled_Nil)
    then show ?thesis using True step by (simp add: x add_fragment_lookup assembled_snoc)
  next
    case False
    then show ?thesis using step by (simp add: x add_fragment_lookup snoc)
  qed
qed

lemma assembled_keys:
  "distinct (map fst (fold add_fragment fs [])) \<and> set (map fst (fold add_fragment fs [])) = fst ` set fs"
proof (induction fs rule: rev_induct)
  case (snoc x fs)
  obtain j f where x: "x = (j, f)" by fastforce
  from snoc show ?case by (auto simp: x add_fragment_keys)
qed simp

lemma assembled_length: "length (fold add_fragment fs []) = card (fst ` set fs)"
  by (metis assembled_keys distinct_card length_map)

text \<open>
  C22. When the indices of a stream's fragments are \<open>0, \<dots>, n - 1\<close>, the calls the loop gets are, in
  the order of the indices, those the fragments of each index make on their own, however the
  fragments of different calls are interleaved; calls that never got a name are left out.
\<close>

theorem stream_calls_assembled:
  assumes "fst ` set fs = int ` {0..<n}"
  shows "finished_calls L (fold add_fragment fs []) =
    map (\<lambda>c. requested_call L (ac_id c) (ac_name c) (ac_arguments c))
      (filter (\<lambda>c. ac_name c \<noteq> []) (map (\<lambda>k. assembled_call (fragments_of (int k) fs)) [0..<n]))"
proof -
  have len: "length (fold add_fragment fs []) = n"
    by (simp add: assembled_length assms card_image)
  have some: "fragments_of (int k) fs \<noteq> []" if "k < n" for k
  proof -
    have "int k \<in> fst ` set fs" using that by (simp add: assms)
    then show ?thesis by (force simp: fragments_of_def filter_empty_conv)
  qed
  have "finished_calls L (fold add_fragment fs []) =
      concat (map (\<lambda>k. let c = assembled_call (fragments_of (int k) fs)
                       in if ac_name c = [] then [] else [requested_call L (ac_id c) (ac_name c) (ac_arguments c)])
                [0..<n])"
    unfolding finished_calls_def len
    by (rule arg_cong [where f = concat], rule map_cong) (auto simp: assembled_lookup some Let_def)
  also have "\<dots> = map (\<lambda>c. requested_call L (ac_id c) (ac_name c) (ac_arguments c))
      (filter (\<lambda>c. ac_name c \<noteq> []) (map (\<lambda>k. assembled_call (fragments_of (int k) fs)) [0..<n]))"
    by (induction n) (simp_all add: Let_def)
  finally show ?thesis .
qed

lemma finished_calls_single:
  assumes "fst ` set fs = {i}" "i \<noteq> 0"
  shows "finished_calls L (fold add_fragment fs []) = []"
proof -
  have "length (fold add_fragment fs []) = 1" by (simp add: assembled_length assms)
  moreover have "fragments_of 0 fs = []"
    using assms by (force simp: fragments_of_def filter_empty_conv)
  ultimately show ?thesis by (simp add: finished_calls_def assembled_lookup)
qed

text \<open>
  The loop over the indices stops at the number of distinct indices. A call whose index is not
  below that number is lost without a trace: the stream of a server that numbers its one call from 1
  ends as an answer without tool calls.
\<close>

theorem misnumbered_call_lost:
  assumes "scan_lines b = (ls, None)" "stream_loop E ls ([], []) = ((chunks, fold add_fragment fs []), saw_done, None)"
    "fst ` set fs = {i}" "i \<noteq> 0"
  shows "complete_stream L E b = (chunks @ [final_chunk], None)"
  using assms(1,2) by (simp add: complete_stream_def finished_calls_single [OF assms(3,4)])

subsection \<open>Witnesses\<close>

definition noon :: local_time where
  "noon = \<lparr>lt_year = 2025, lt_month = 3, lt_day = 9, lt_hour = 12, lt_minute = 5, lt_second = 0,
     lt_weekday = 0, lt_zone = ''UTC'', lt_offset = 0\<rparr>"

definition sample_call :: "string \<Rightarrow> tool_call" where
  "sample_call i = requested_call plain_library i ''workspace.list'' []"

definition sample_request :: completion_request where
  "sample_request =
     \<lparr>pq_input = ''hi'', pq_options = lp_options (quiet_params ''hi''), pq_goal_context = None,
      pq_todo_context = None, pq_tools = [],
      pq_rounds = [[\<lparr>te_call = sample_call ''c1'', te_result = plain_result ''a.txt''\<rparr>,
                    \<lparr>te_call = sample_call ''c2'', te_result = plain_result ''b.txt''\<rparr>]],
      cq_run_id = ''r'', cq_conversation = [], cq_skills_context = None, cq_history = [],
      cq_endpoint = \<lparr>eo_provider_name = [], eo_base_url = [], eo_api_key = [], eo_model = []\<rparr>\<rparr>"

lemma sample_trims: "trim_space ''a.txt'' = ''a.txt''" "trim_space ''b.txt'' = ''b.txt''"
  by code_simp+

lemma sample_messages: "\<exists>msgs. openai_compatible_messages plain_library noon sample_request = Some msgs"
  by (simp add: openai_compatible_messages_def tool_rounds_for_request_def sample_request_def
      model_facing_tool_content_def model_facing_envelope_def parse_standard_tool_result_def
      legacy_envelope_def plain_library_def plain_result_def Let_def sample_trims)

theorem requests_follow_protocol_witness:
  "\<exists>msgs. openai_compatible_messages plain_library noon sample_request = Some msgs
     \<and> tool_protocol [] msgs"
  using sample_messages requests_follow_protocol by blast

definition sample_fragments :: "(int \<times> answer_call) list" where
  "sample_fragments =
     [(1, \<lparr>ac_id = ''b'', ac_name = ''todo__list'', ac_arguments = []\<rparr>),
      (0, \<lparr>ac_id = ''a'', ac_name = ''workspace__list'', ac_arguments = ''{''\<rparr>),
      (0, \<lparr>ac_id = [], ac_name = [], ac_arguments = ''}''\<rparr>)]"

theorem stream_calls_assembled_witness:
  "finished_calls plain_library (fold add_fragment sample_fragments []) =
     [requested_call plain_library ''a'' ''workspace.list'' ''{}'', requested_call plain_library ''b'' ''todo.list'' []]"
proof -
  have "fst ` set sample_fragments = int ` {0..<2}"
    by (auto simp: sample_fragments_def)
  note stream_calls_assembled [OF this, of plain_library]
  moreover have "internal_tool_name ''workspace__list'' = ''workspace.list''"
    "internal_tool_name ''todo__list'' = ''todo.list''" by code_simp+
  ultimately show ?thesis
    by (simp add: sample_fragments_def fragments_of_def assembled_call_def last_filled_def upt_rec)
qed

definition misnumbered_stream :: "unit endpoint_env" where
  "misnumbered_stream =
     \<lparr>ep_send = (\<lambda>q w. (w, Http_Failed [])), ep_now = (\<lambda>w. noon), ep_read_answer = (\<lambda>t. None),
      ep_read_stream = (\<lambda>t. Some [\<lparr>sd_content = [],
         sd_calls = [(1, \<lparr>ac_id = ''a'', ac_name = ''todo__list'', ac_arguments = []\<rparr>)]\<rparr>])\<rparr>"

theorem misnumbered_call_lost_witness:
  "complete_stream plain_library misnumbered_stream \<lparr>hb_bytes = ''data: x'', hb_error = None\<rparr>
     = ([final_chunk], None)"
proof -
  let ?f = "(1 :: int, \<lparr>ac_id = ''a'', ac_name = ''todo__list'', ac_arguments = []\<rparr>)"
  have lines: "scan_lines \<lparr>hb_bytes = ''data: x'', hb_error = None\<rparr> = ([''data: x''], None)"
    by (simp add: scan_lines_def body_lines_def Let_def max_stream_line_def)
  have "read_stream_line ''data: x'' = Line_Data ''x''" by code_simp
  then have loop: "stream_loop misnumbered_stream [''data: x''] ([], [])
      = (([], fold add_fragment [?f] []), False, None)"
    by (simp add: misnumbered_stream_def add_choice_def)
  show ?thesis using misnumbered_call_lost [OF lines loop, of 1] by simp
qed

end
