(* ===== verification/Service_Db.thy ===== *)
theory Service_Db
  imports Run_Service Memory_Service
begin

text \<open>
  The tables behind the services of the Gateway that are not part of a run: compactions and lineage
  of sessions, profiles of providers, definitions of agents (\<^verbatim>\<open>model/models.go\<close>), beside the tables
  of \<open>gateway_db\<close> and the memories. A stored summary stands for its JSON text.
\<close>

record compact_summary =
  sm_summary :: string
  sm_decisions :: "string list"
  sm_open_tasks :: "string list"
  sm_workspace_context :: "string list"
  sm_risks :: "string list"

record compaction_row =
  cx_id :: string
  cx_source_session_id :: string
  cx_target_session_id :: string
  cx_status :: string
  cx_source_start_seq :: nat
  cx_source_end_seq :: nat
  cx_summary_message_id :: string
  cx_summary_json :: compact_summary
  cx_created_at :: int
  cx_updated_at :: int

record lineage_row =
  ln_id :: string
  ln_source_session_id :: string
  ln_target_session_id :: string
  ln_operation :: string
  ln_fork_point_seq :: nat
  ln_fork_point_run_id :: string
  ln_source_start_seq :: nat
  ln_source_end_seq :: nat
  ln_created_at :: int

record profile_row =
  pp_id :: string
  pp_name :: string
  pp_provider :: string
  pp_base_url :: string
  pp_model :: string
  pp_max_tokens :: int
  pp_api_key_secret :: string
  pp_is_default :: bool
  pp_active :: bool
  pp_created_at :: int
  pp_updated_at :: int
  pp_deleted_at :: "int option"

record agent_row =
  ad_id :: string
  ad_row_key :: string
  ad_row_name :: string
  ad_row_name_zh :: string
  ad_kind :: string
  ad_row_phase :: string
  ad_description :: string
  ad_row_prompt :: string
  ad_row_allowlist :: "string list"
  ad_row_denylist :: "string list"
  ad_row_max_turns :: int
  ad_row_enabled :: bool
  ad_row_builtin :: bool
  ad_sort_order :: int
  ad_metadata_json :: string
  ad_created_at :: int
  ad_updated_at :: int
  ad_deleted_at :: "int option"

record 'd service_db =
  sd_core :: "'d gateway_db"
  sd_memories :: "('d, memory_row) sql_table"
  sd_compactions :: "('d, compaction_row) sql_table"
  sd_lineage :: "('d, lineage_row) sql_table"
  sd_profiles :: "('d, profile_row) sql_table"
  sd_agents :: "('d, agent_row) sql_table"

record service_rows =
  vw_core :: gateway_rows
  vw_memories :: "memory_row list"
  vw_compactions :: "compaction_row list"
  vw_lineage :: "lineage_row list"
  vw_profiles :: "profile_row list"
  vw_agents :: "agent_row list"

text \<open>
  The key of an agent is unique among those not deleted. An upsert or a unique index of the other
  new tables is the primary key alone.
\<close>

definition unique_agent_keys :: "agent_row list \<Rightarrow> bool" where
  "unique_agent_keys rows \<longleftrightarrow> distinct (map ad_row_key (filter (\<lambda>r. ad_deleted_at r = None) rows))"

definition service_db_laws :: "'d service_db \<Rightarrow> ('d \<Rightarrow> service_rows) \<Rightarrow> bool" where
  "service_db_laws D V \<longleftrightarrow>
     gateway_db_laws (sd_core D) (\<lambda>d. vw_core (V d))
     \<and> sql_table_laws (sd_memories D) (\<lambda>d. vw_memories (V d)) me_id
     \<and> sql_frame (sd_memories D) (\<lambda>d. (V d)\<lparr>vw_memories := []\<rparr>)
     \<and> sql_table_laws (sd_compactions D) (\<lambda>d. vw_compactions (V d)) cx_id
     \<and> sql_frame (sd_compactions D) (\<lambda>d. (V d)\<lparr>vw_compactions := []\<rparr>)
     \<and> sql_table_laws (sd_lineage D) (\<lambda>d. vw_lineage (V d)) ln_id
     \<and> sql_frame (sd_lineage D) (\<lambda>d. (V d)\<lparr>vw_lineage := []\<rparr>)
     \<and> sql_table_laws (sd_profiles D) (\<lambda>d. vw_profiles (V d)) pp_id
     \<and> sql_conflict_laws (sd_profiles D) (\<lambda>d. vw_profiles (V d)) pp_id (\<lambda>r x. pp_id x = pp_id r)
     \<and> sql_frame (sd_profiles D) (\<lambda>d. (V d)\<lparr>vw_profiles := []\<rparr>)
     \<and> sql_table_laws (sd_agents D) (\<lambda>d. vw_agents (V d)) ad_id
     \<and> sql_conflict_laws (sd_agents D) (\<lambda>d. vw_agents (V d)) ad_id (\<lambda>r x. ad_id x = ad_id r)
     \<and> sql_constraint (sd_agents D) (\<lambda>d. vw_agents (V d)) unique_agent_keys
     \<and> sql_frame (sd_agents D) (\<lambda>d. (V d)\<lparr>vw_agents := []\<rparr>)
     \<and> sql_frame (db_runs (sd_core D)) (\<lambda>d. (V d)\<lparr>vw_core := empty_rows\<rparr>)
     \<and> sql_frame (db_goals (sd_core D)) (\<lambda>d. (V d)\<lparr>vw_core := empty_rows\<rparr>)
     \<and> sql_frame (db_todos (sd_core D)) (\<lambda>d. (V d)\<lparr>vw_core := empty_rows\<rparr>)
     \<and> sql_frame (db_messages (sd_core D)) (\<lambda>d. (V d)\<lparr>vw_core := empty_rows\<rparr>)
     \<and> sql_frame (db_sessions (sd_core D)) (\<lambda>d. (V d)\<lparr>vw_core := empty_rows\<rparr>)"

lemma service_db_lawsD:
  assumes "service_db_laws D V"
  shows "gateway_db_laws (sd_core D) (\<lambda>d. vw_core (V d))"
    "sql_table_laws (sd_memories D) (\<lambda>d. vw_memories (V d)) me_id"
    "sql_table_laws (sd_compactions D) (\<lambda>d. vw_compactions (V d)) cx_id"
    "sql_table_laws (sd_lineage D) (\<lambda>d. vw_lineage (V d)) ln_id"
    "sql_table_laws (sd_profiles D) (\<lambda>d. vw_profiles (V d)) pp_id"
    "sql_conflict_laws (sd_profiles D) (\<lambda>d. vw_profiles (V d)) pp_id (\<lambda>r x. pp_id x = pp_id r)"
    "sql_table_laws (sd_agents D) (\<lambda>d. vw_agents (V d)) ad_id"
    "sql_conflict_laws (sd_agents D) (\<lambda>d. vw_agents (V d)) ad_id (\<lambda>r x. ad_id x = ad_id r)"
    "sql_constraint (sd_agents D) (\<lambda>d. vw_agents (V d)) unique_agent_keys"
    "sql_frame (sd_memories D) (\<lambda>d. (V d)\<lparr>vw_memories := []\<rparr>)"
    "sql_frame (sd_compactions D) (\<lambda>d. (V d)\<lparr>vw_compactions := []\<rparr>)"
    "sql_frame (sd_lineage D) (\<lambda>d. (V d)\<lparr>vw_lineage := []\<rparr>)"
    "sql_frame (sd_profiles D) (\<lambda>d. (V d)\<lparr>vw_profiles := []\<rparr>)"
    "sql_frame (sd_agents D) (\<lambda>d. (V d)\<lparr>vw_agents := []\<rparr>)"
    "sql_frame (db_runs (sd_core D)) (\<lambda>d. (V d)\<lparr>vw_core := empty_rows\<rparr>)"
    "sql_frame (db_goals (sd_core D)) (\<lambda>d. (V d)\<lparr>vw_core := empty_rows\<rparr>)"
    "sql_frame (db_todos (sd_core D)) (\<lambda>d. (V d)\<lparr>vw_core := empty_rows\<rparr>)"
    "sql_frame (db_messages (sd_core D)) (\<lambda>d. (V d)\<lparr>vw_core := empty_rows\<rparr>)"
    "sql_frame (db_sessions (sd_core D)) (\<lambda>d. (V d)\<lparr>vw_core := empty_rows\<rparr>)"
  using assms unfolding service_db_laws_def by blast+

subsection \<open>The database in memory\<close>

definition widen_db :: "('s \<Rightarrow> 'd) \<Rightarrow> ('d \<Rightarrow> 's \<Rightarrow> 's) \<Rightarrow> 'd gateway_db \<Rightarrow> 's gateway_db" where
  "widen_db get put D =
     \<lparr>db_runs = embed_table get put (db_runs D), db_goals = embed_table get put (db_goals D),
      db_segments = embed_table get put (db_segments D), db_todos = embed_table get put (db_todos D),
      db_events = embed_table get put (db_events D), db_tool_calls = embed_table get put (db_tool_calls D),
      db_permissions = embed_table get put (db_permissions D),
      db_messages = embed_table get put (db_messages D), db_sessions = embed_table get put (db_sessions D)\<rparr>"

lemma embed_frame_part:
  "sql_frame T other \<Longrightarrow> (\<And>d s. get (put d s) = d) \<Longrightarrow> sql_frame (embed_table get put T) (\<lambda>s. other (get s))"
  unfolding sql_frame_def by (simp add: split_beta) fastforce

lemma widen_db_laws:
  assumes "gateway_db_laws D V" "\<And>d s. get (put d s) = d"
  shows "gateway_db_laws (widen_db get put D) (\<lambda>s. V (get s))"
  using assms(1) unfolding gateway_db_laws_def widen_db_def
  by (auto intro: embed_table_laws embed_table_conflict_laws embed_table_constraint embed_frame_part assms(2))

lemma widen_db_simps [simp]:
  "db_runs (widen_db get put D) = embed_table get put (db_runs D)"
  "db_goals (widen_db get put D) = embed_table get put (db_goals D)"
  "db_todos (widen_db get put D) = embed_table get put (db_todos D)"
  "db_messages (widen_db get put D) = embed_table get put (db_messages D)"
  "db_sessions (widen_db get put D) = embed_table get put (db_sessions D)"
  by (simp_all add: widen_db_def)

lemma mem_core_laws: "gateway_db_laws (widen_db vw_core (\<lambda>d s. s\<lparr>vw_core := d\<rparr>) mem_db) vw_core"
  using widen_db_laws [OF mem_db_laws, of vw_core "\<lambda>d s. s\<lparr>vw_core := d\<rparr>"] by simp

definition mem_service_db :: "service_rows service_db" where
  "mem_service_db =
     \<lparr>sd_core = widen_db vw_core (\<lambda>d s. s\<lparr>vw_core := d\<rparr>) mem_db,
      sd_memories = embed_table vw_memories (\<lambda>d s. s\<lparr>vw_memories := d\<rparr>) (mem_table me_id),
      sd_compactions = embed_table vw_compactions (\<lambda>d s. s\<lparr>vw_compactions := d\<rparr>) (mem_table cx_id),
      sd_lineage = embed_table vw_lineage (\<lambda>d s. s\<lparr>vw_lineage := d\<rparr>) (mem_table ln_id),
      sd_profiles = embed_table vw_profiles (\<lambda>d s. s\<lparr>vw_profiles := d\<rparr>)
        (list_table pp_id (\<lambda>_. True) (\<lambda>r x. pp_id x = pp_id r)),
      sd_agents = embed_table vw_agents (\<lambda>d s. s\<lparr>vw_agents := d\<rparr>)
        (list_table ad_id unique_agent_keys (\<lambda>r x. ad_id x = ad_id r))\<rparr>"

lemma mem_service_db_laws: "service_db_laws mem_service_db (\<lambda>d. d)"
  unfolding service_db_laws_def mem_service_db_def
  by (simp add: mem_core_laws embed_table_laws [OF list_table_laws]
      embed_table_laws [OF mem_table_laws] embed_table_conflict_laws [OF list_table_conflict_laws]
      embed_table_constraint [OF list_table_constraint] embed_table_frame)

definition empty_service_rows :: service_rows where
  "empty_service_rows = \<lparr>vw_core = empty_rows, vw_memories = [], vw_compactions = [], vw_lineage = [],
     vw_profiles = [], vw_agents = []\<rparr>"

end
