(* ===== verification/Provider_Profiles.thy ===== *)
theory Provider_Profiles
  imports Service_Db Provider_Messages
begin

text \<open>
  Profiles of model providers: \<^verbatim>\<open>repository/provider_profile.go\<close> and
  \<^verbatim>\<open>service/provider_profile.go\<close>. A profile that is deleted keeps its row, marked. The theorems
  hold for every sequence of calls of the service.
\<close>

subsection \<open>Repository\<close>

definition live_profile :: "profile_row \<Rightarrow> bool" where
  "live_profile r \<longleftrightarrow> pp_deleted_at r = None"

definition profile_defaults :: "int \<Rightarrow> profile_row \<Rightarrow> profile_row" where
  "profile_defaults now p0 =
     (let provider = (if pp_provider p0 = [] then ''openai_compatible'' else pp_provider p0)
      in p0\<lparr>pp_id := (if pp_id p0 = [] then ''provider_'' @ int_dec now else pp_id p0),
            pp_provider := provider, pp_name := (if pp_name p0 = [] then provider else pp_name p0),
            pp_active := True, pp_created_at := now, pp_updated_at := now\<rparr>)"

text \<open>GORM sets \<^verbatim>\<open>updated_at\<close> with every update of a model.\<close>

definition clear_defaults ::
  "'d service_db \<Rightarrow> int \<Rightarrow> 'd \<Rightarrow> (profile_row \<Rightarrow> bool) \<Rightarrow> 'd option" where
  "clear_defaults D now d P =
     map_option fst (sql_update (sd_profiles D) d (\<lambda>r. P r \<and> live_profile r)
       (\<lambda>r. r\<lparr>pp_is_default := False, pp_updated_at := now\<rparr>))"

definition create_profile :: "'d service_db \<Rightarrow> int \<Rightarrow> 'd \<Rightarrow> profile_row \<Rightarrow> ('d \<times> profile_row) option" where
  "create_profile D now d p0 =
     (let p = profile_defaults now p0
      in case (if pp_is_default p then clear_defaults D now d (\<lambda>_. True) else Some d) of
           None \<Rightarrow> None
         | Some d1 \<Rightarrow> map_option (\<lambda>d2. (d2, p)) (sql_insert (sd_profiles D) d1 [p]))"

definition get_profile :: "'d service_db \<Rightarrow> 'd \<Rightarrow> string \<Rightarrow> profile_row option" where
  "get_profile D d i =
     row_found (sql_first (sd_profiles D) d (\<lambda>r. pp_id r = i \<and> live_profile r) (\<lambda>r. [(0, pp_id r)]))"

text \<open>An empty text keeps the column; the token budget and the flags are always taken.\<close>

definition keep_if_empty :: "string \<Rightarrow> string \<Rightarrow> string" where
  "keep_if_empty new old = (if new \<noteq> [] then new else old)"

definition merged_profile :: "int \<Rightarrow> profile_row \<Rightarrow> profile_row \<Rightarrow> profile_row" where
  "merged_profile now current p = current
     \<lparr>pp_name := keep_if_empty (pp_name p) (pp_name current),
      pp_provider := keep_if_empty (pp_provider p) (pp_provider current),
      pp_base_url := keep_if_empty (pp_base_url p) (pp_base_url current),
      pp_model := keep_if_empty (pp_model p) (pp_model current),
      pp_max_tokens := pp_max_tokens p,
      pp_api_key_secret := keep_if_empty (pp_api_key_secret p) (pp_api_key_secret current),
      pp_is_default := pp_is_default p, pp_active := pp_active p, pp_updated_at := now\<rparr>"

definition update_profile :: "'d service_db \<Rightarrow> int \<Rightarrow> 'd \<Rightarrow> profile_row \<Rightarrow> ('d \<times> profile_row) option" where
  "update_profile D now d p =
     (case get_profile D d (pp_id p) of
        None \<Rightarrow> None
      | Some current \<Rightarrow>
          (let next_row = merged_profile now current p
           in case (if pp_is_default next_row then clear_defaults D now d (\<lambda>r. pp_id r \<noteq> pp_id current)
                    else Some d) of
                None \<Rightarrow> None
              | Some d1 \<Rightarrow> map_option (\<lambda>d2. (d2, next_row)) (sql_save (sd_profiles D) d1 next_row)))"

definition default_profile :: "'d service_db \<Rightarrow> 'd \<Rightarrow> profile_row option" where
  "default_profile D d =
     row_found (sql_first (sd_profiles D) d (\<lambda>r. pp_is_default r \<and> pp_active r \<and> live_profile r)
       (\<lambda>r. [(0, pp_id r)]))"

definition flag_rank :: "bool \<Rightarrow> int" where
  "flag_rank b = (if b then 0 else 1)"

definition list_profiles :: "'d service_db \<Rightarrow> 'd \<Rightarrow> int \<Rightarrow> profile_row list option" where
  "list_profiles D d n =
     sql_limit (sd_profiles D) d live_profile
       (\<lambda>r. [(flag_rank (pp_is_default r), []), (- pp_updated_at r, [])]) (page_size n 200 100)"

definition delete_profile :: "'d service_db \<Rightarrow> int \<Rightarrow> 'd \<Rightarrow> string \<Rightarrow> 'd option" where
  "delete_profile D now d i =
     map_option fst (sql_update (sd_profiles D) d (\<lambda>r. pp_id r = i \<and> live_profile r)
       (\<lambda>r. r\<lparr>pp_active := False, pp_is_default := False, pp_deleted_at := Some now, pp_updated_at := now\<rparr>))"

subsection \<open>Service\<close>

record profile_dto =
  pd_id :: string
  pd_name :: string
  pd_provider :: string
  pd_base_url :: string
  pd_model :: string
  pd_max_tokens :: int
  pd_api_key_set :: bool
  pd_api_key_masked :: string
  pd_is_default :: bool
  pd_active :: bool
  pd_created_at :: int
  pd_updated_at :: int

record profile_create =
  pc_name :: string
  pc_provider :: string
  pc_base_url :: string
  pc_model :: string
  pc_max_tokens :: int
  pc_api_key :: string
  pc_is_default :: bool

record profile_update =
  pu_name :: "string option"
  pu_provider :: "string option"
  pu_base_url :: "string option"
  pu_model :: "string option"
  pu_max_tokens :: "int option"
  pu_api_key :: "string option"
  pu_is_default :: "bool option"
  pu_active :: "bool option"

definition normalize_provider :: "string \<Rightarrow> svc_error + string" where
  "normalize_provider v =
     (if to_lower (trim_space v) \<in> {[], ''openai_compatible'', ''http_compatible''}
      then Inr ''openai_compatible''
      else Inl (Svc_Error (''unsupported provider '' @ go_quote v)))"

definition max_provider_context_tokens :: int where
  "max_provider_context_tokens = 2000000"

definition normalize_max_tokens :: "int \<Rightarrow> svc_error + int" where
  "normalize_max_tokens v =
     (if v < 0 then Inl (Svc_Error ''max_tokens must be >= 0'')
      else if v > max_provider_context_tokens
      then Inl (Svc_Error (''max_tokens must be <= '' @ int_dec max_provider_context_tokens))
      else Inr v)"

definition mask_secret :: "string \<Rightarrow> string" where
  "mask_secret v =
     (if v = [] then [] else if length v \<le> 4 then ''****'' else ''****'' @ drop (length v - 4) v)"

definition profile_dto_of :: "profile_row \<Rightarrow> profile_dto" where
  "profile_dto_of r =
     \<lparr>pd_id = pp_id r, pd_name = pp_name r, pd_provider = pp_provider r, pd_base_url = pp_base_url r,
      pd_model = pp_model r, pd_max_tokens = pp_max_tokens r,
      pd_api_key_set = (pp_api_key_secret r \<noteq> []), pd_api_key_masked = mask_secret (pp_api_key_secret r),
      pd_is_default = pp_is_default r, pd_active = pp_active r, pd_created_at = pp_created_at r,
      pd_updated_at = pp_updated_at r\<rparr>"

definition new_profile_row :: "profile_create \<Rightarrow> string \<Rightarrow> int \<Rightarrow> profile_row" where
  "new_profile_row inp provider tokens =
     \<lparr>pp_id = [], pp_name = trim_space (pc_name inp), pp_provider = provider,
      pp_base_url = trim_slashes (trim_space (pc_base_url inp)), pp_model = trim_space (pc_model inp),
      pp_max_tokens = tokens, pp_api_key_secret = pc_api_key inp, pp_is_default = pc_is_default inp,
      pp_active = False, pp_created_at = zero_time, pp_updated_at = zero_time, pp_deleted_at = None\<rparr>"

definition profile_service_create ::
  "'d service_db \<Rightarrow> int \<Rightarrow> 'd \<Rightarrow> profile_create \<Rightarrow> 'd \<times> (svc_error + profile_dto)" where
  "profile_service_create D now d inp =
     (case normalize_provider (pc_provider inp) of
        Inl e \<Rightarrow> (d, Inl e)
      | Inr provider \<Rightarrow>
          if trim_space (pc_base_url inp) = [] then (d, Inl (Svc_Error ''base_url is required''))
          else case normalize_max_tokens (pc_max_tokens inp) of
                 Inl e \<Rightarrow> (d, Inl e)
               | Inr tokens \<Rightarrow>
                   or_fail (create_profile D now d (new_profile_row inp provider tokens)) Db_Error d
                     (\<lambda>(d1, r). (d1, Inr (profile_dto_of r))))"

definition changed :: "'a option \<Rightarrow> ('a \<Rightarrow> svc_error + 'b) \<Rightarrow> 'b \<Rightarrow> svc_error + 'b" where
  "changed new f old = (case new of None \<Rightarrow> Inr old | Some v \<Rightarrow> f v)"

definition required_base_url :: "string \<Rightarrow> svc_error + string" where
  "required_base_url u =
     (let b = trim_slashes (trim_space u)
      in if b = [] then Inl (Svc_Error ''base_url is required'') else Inr b)"

text \<open>The row handed to the repository; the first invalid field decides the error.\<close>

definition updated_row :: "string \<Rightarrow> profile_row \<Rightarrow> profile_update \<Rightarrow> svc_error + profile_row" where
  "updated_row i current inp =
     bind_result (changed (pu_provider inp) normalize_provider (pp_provider current)) (\<lambda>provider.
     bind_result (changed (pu_base_url inp) required_base_url (pp_base_url current)) (\<lambda>base.
     bind_result (changed (pu_max_tokens inp) normalize_max_tokens (pp_max_tokens current)) (\<lambda>tokens.
       Inr (current
         \<lparr>pp_id := i,
          pp_name := (case pu_name inp of None \<Rightarrow> pp_name current | Some n \<Rightarrow> trim_space n),
          pp_provider := provider, pp_base_url := base,
          pp_model := (case pu_model inp of None \<Rightarrow> pp_model current | Some m \<Rightarrow> trim_space m),
          pp_max_tokens := tokens,
          pp_api_key_secret := (case pu_api_key inp of None \<Rightarrow> pp_api_key_secret current | Some k \<Rightarrow> k),
          pp_is_default := (case pu_is_default inp of None \<Rightarrow> pp_is_default current | Some b \<Rightarrow> b),
          pp_active := (case pu_active inp of None \<Rightarrow> pp_active current | Some b \<Rightarrow> b)\<rparr>))))"

definition profile_service_update ::
  "'d service_db \<Rightarrow> int \<Rightarrow> 'd \<Rightarrow> string \<Rightarrow> profile_update \<Rightarrow> 'd \<times> (svc_error + profile_dto)" where
  "profile_service_update D now d i inp =
     or_fail (get_profile D d i) Db_Error d (\<lambda>current.
       case updated_row i current inp of
         Inl e \<Rightarrow> (d, Inl e)
       | Inr p \<Rightarrow> or_fail (update_profile D now d p) Db_Error d (\<lambda>(d1, r). (d1, Inr (profile_dto_of r))))"

definition profile_service_get :: "'d service_db \<Rightarrow> 'd \<Rightarrow> string \<Rightarrow> profile_dto option" where
  "profile_service_get D d i = map_option profile_dto_of (get_profile D d i)"

definition profile_service_list :: "'d service_db \<Rightarrow> 'd \<Rightarrow> profile_dto list option" where
  "profile_service_list D d = map_option (map profile_dto_of) (list_profiles D d 100)"

datatype profile_call =
    Create_Profile profile_create
  | Update_Profile string profile_update
  | Delete_Profile string

fun run_profile_call :: "'d service_db \<Rightarrow> int \<Rightarrow> 'd \<Rightarrow> profile_call \<Rightarrow> 'd" where
  "run_profile_call D now d (Create_Profile inp) = fst (profile_service_create D now d inp)"
| "run_profile_call D now d (Update_Profile i inp) = fst (profile_service_update D now d i inp)"
| "run_profile_call D now d (Delete_Profile i) = ignoring d (delete_profile D now d i)"

end
