(* ===== verification/Profile_Props.thy ===== *)
theory Profile_Props
  imports Provider_Profiles
begin

text \<open>
  Properties of the profiles of providers: the rows stay well-formed and at most one live profile
  is the default, after every sequence of calls; a stored key cannot be removed by an update.
\<close>

definition profile_ok :: "profile_row \<Rightarrow> bool" where
  "profile_ok r \<longleftrightarrow>
     pp_provider r = ''openai_compatible'' \<and> pp_name r \<noteq> []
     \<and> 0 \<le> pp_max_tokens r \<and> pp_max_tokens r \<le> max_provider_context_tokens
     \<and> (live_profile r \<or> \<not> pp_is_default r \<and> \<not> pp_active r)"

definition one_default :: "profile_row list \<Rightarrow> bool" where
  "one_default rows \<longleftrightarrow>
     (\<forall>r \<in> set rows. \<forall>s \<in> set rows. pp_is_default r \<and> pp_is_default s \<longrightarrow> pp_id r = pp_id s)"

definition profiles_ok :: "profile_row list \<Rightarrow> bool" where
  "profiles_ok rows \<longleftrightarrow> (\<forall>r \<in> set rows. profile_ok r) \<and> one_default rows"

lemma profiles_okI:
  "(\<And>r. r \<in> set rows \<Longrightarrow> profile_ok r) \<Longrightarrow>
   (\<And>r s. r \<in> set rows \<Longrightarrow> s \<in> set rows \<Longrightarrow> pp_is_default r \<Longrightarrow> pp_is_default s \<Longrightarrow> pp_id r = pp_id s)
   \<Longrightarrow> profiles_ok rows"
  unfolding profiles_ok_def one_default_def by blast

text \<open>Changes that make no profile the default.\<close>

lemma profiles_ok_fewer:
  assumes "profiles_ok rows" "\<And>r. r \<in> set rows' \<Longrightarrow> profile_ok r"
    "\<And>r. r \<in> set rows' \<Longrightarrow> pp_is_default r \<Longrightarrow> r \<in> set rows"
  shows "profiles_ok rows'"
  using assms unfolding profiles_ok_def one_default_def by blast

subsection \<open>Statements\<close>

lemma clear_defaults_rows:
  assumes laws: "service_db_laws D V" and "clear_defaults D now d P = Some d1"
  shows "set (vw_profiles (V d1)) =
    (\<lambda>r. if P r \<and> live_profile r then r\<lparr>pp_is_default := False, pp_updated_at := now\<rparr> else r)
      ` set (vw_profiles (V d))"
proof -
  obtain n where "sql_update (sd_profiles D) d (\<lambda>r. P r \<and> live_profile r)
      (\<lambda>r. r\<lparr>pp_is_default := False, pp_updated_at := now\<rparr>) = Some (d1, n)"
    using assms(2) by (auto simp: clear_defaults_def)
  from sql_update_law [OF service_db_lawsD(5) [OF laws] this] show ?thesis
    by (metis (no_types, lifting) list.set_map mset_eq_setD)
qed

lemma get_profile_found:
  assumes "service_db_laws D V" "get_profile D d i = Some r"
  shows "r \<in> set (vw_profiles (V d))" "pp_id r = i" "live_profile r"
  using sql_first_Found [OF service_db_lawsD(5) [OF assms(1)], of d "\<lambda>r. pp_id r = i \<and> live_profile r"
      "\<lambda>r. [(0, pp_id r)]" r] assms(2)
  by (auto simp: get_profile_def)

lemma save_profile_rows:
  assumes "service_db_laws D V" "sql_save (sd_profiles D) d r = Some d1"
  shows "set (vw_profiles (V d1)) \<subseteq> insert r {x \<in> set (vw_profiles (V d)). pp_id x \<noteq> pp_id r}"
proof -
  note law = sql_upsert_law [OF service_db_lawsD(6) [OF assms(1)] assms(2) [unfolded sql_save_def]]
  show ?thesis
  proof (cases "pp_id r \<in> pp_id ` set (vw_profiles (V d))")
    case True
    with law have "set (vw_profiles (V d1)) = (\<lambda>x. if pp_id x = pp_id r then r else x) ` set (vw_profiles (V d))"
      by (metis (no_types, lifting) list.set_map mset_eq_setD)
    then show ?thesis by auto
  next
    case False
    with law have "set (vw_profiles (V d1)) = insert r (set (vw_profiles (V d)))"
      by (metis set_mset_add_mset_insert set_mset_mset)
    moreover have "pp_id x \<noteq> pp_id r" if "x \<in> set (vw_profiles (V d))" for x
      using False that by (metis imageI)
    ultimately show ?thesis by blast
  qed
qed

lemma insert_profile_rows:
  assumes "service_db_laws D V" "sql_insert (sd_profiles D) d [r] = Some d1"
  shows "set (vw_profiles (V d1)) = insert r (set (vw_profiles (V d)))"
  using sql_insert_law [OF service_db_lawsD(5) [OF assms(1)] assms(2)]
  by (metis (no_types, lifting) Un_insert_right list.simps(15) list.set(1) mset_append mset_eq_setD set_append sup_bot.right_neutral)

subsection \<open>Calls\<close>

lemma cleared_ok:
  assumes laws: "service_db_laws D V" and ok: "profiles_ok (vw_profiles (V d))"
    and clear: "clear_defaults D now d P = Some d1" and x: "x \<in> set (vw_profiles (V d1))"
  shows "profile_ok x" "pp_is_default x \<Longrightarrow> x \<in> set (vw_profiles (V d)) \<and> \<not> P x"
proof -
  obtain r where r: "r \<in> set (vw_profiles (V d))"
    "x = (if P r \<and> live_profile r then r\<lparr>pp_is_default := False, pp_updated_at := now\<rparr> else r)"
    using x unfolding clear_defaults_rows [OF laws clear] by auto
  moreover from r(1) ok have "profile_ok r" by (simp add: profiles_ok_def)
  ultimately show "profile_ok x" "pp_is_default x \<Longrightarrow> x \<in> set (vw_profiles (V d)) \<and> \<not> P x"
    by (auto simp: profile_ok_def live_profile_def split: if_splits)
qed

lemma create_profile_ok:
  assumes laws: "service_db_laws D V" and ok: "profiles_ok (vw_profiles (V d))"
    and new: "create_profile D now d p0 = Some (d', p)"
    and row: "profile_ok (profile_defaults now p0)"
  shows "profiles_ok (vw_profiles (V d'))"
proof -
  let ?p = "profile_defaults now p0"
  show ?thesis
  proof (cases "pp_is_default ?p")
    case True
    then obtain d1 where clear: "clear_defaults D now d (\<lambda>_. True) = Some d1"
      and ins: "sql_insert (sd_profiles D) d1 [?p] = Some d'"
      using new by (auto simp: create_profile_def Let_def split: option.splits)
    have "profile_ok r" if "r \<in> set (vw_profiles (V d'))" for r
      using that cleared_ok(1) [OF laws ok clear] row unfolding insert_profile_rows [OF laws ins] by blast
    moreover have "r = ?p" if "r \<in> set (vw_profiles (V d'))" "pp_is_default r" for r
      using that cleared_ok(2) [OF laws ok clear] unfolding insert_profile_rows [OF laws ins] by blast
    ultimately show ?thesis by (intro profiles_okI) blast+
  next
    case False
    then have ins: "sql_insert (sd_profiles D) d [?p] = Some d'"
      using new by (auto simp: create_profile_def Let_def)
    have ok_rows: "profile_ok r" if "r \<in> set (vw_profiles (V d'))" for r
      using that ok row unfolding insert_profile_rows [OF laws ins] profiles_ok_def by blast
    have "r \<in> set (vw_profiles (V d))" if "r \<in> set (vw_profiles (V d'))" "pp_is_default r" for r
      using that False unfolding insert_profile_rows [OF laws ins] by blast
    with ok_rows show ?thesis by (rule profiles_ok_fewer [OF ok])
  qed
qed

lemma update_profile_ok:
  assumes laws: "service_db_laws D V" and ok: "profiles_ok (vw_profiles (V d))"
    and upd: "update_profile D now d p = Some (d', r)"
    and row: "\<And>current. get_profile D d (pp_id p) = Some current \<Longrightarrow> profile_ok (merged_profile now current p)"
  shows "profiles_ok (vw_profiles (V d'))"
proof -
  obtain current where current: "get_profile D d (pp_id p) = Some current"
    using upd by (auto simp: update_profile_def split: option.splits)
  let ?n = "merged_profile now current p"
  have id: "pp_id ?n = pp_id current" by (simp add: merged_profile_def)
  note good = row [OF current]
  show ?thesis
  proof (cases "pp_is_default ?n")
    case True
    then obtain d1 where clear: "clear_defaults D now d (\<lambda>r. pp_id r \<noteq> pp_id current) = Some d1"
      and save: "sql_save (sd_profiles D) d1 ?n = Some d'"
      using upd current by (auto simp: update_profile_def Let_def split: option.splits)
    have rows: "r = ?n \<or> r \<in> set (vw_profiles (V d1)) \<and> pp_id r \<noteq> pp_id current"
      if "r \<in> set (vw_profiles (V d'))" for r
      using that save_profile_rows [OF laws save] id by auto
    have "profile_ok r" if "r \<in> set (vw_profiles (V d'))" for r
      using rows [OF that] good cleared_ok(1) [OF laws ok clear] by blast
    moreover have "r = ?n" if "r \<in> set (vw_profiles (V d'))" "pp_is_default r" for r
      using rows [OF that(1)] cleared_ok(2) [OF laws ok clear _ that(2)] by blast
    ultimately show ?thesis by (intro profiles_okI) blast+
  next
    case False
    then have save: "sql_save (sd_profiles D) d ?n = Some d'"
      using upd current by (auto simp: update_profile_def Let_def)
    have "r \<in> set (vw_profiles (V d))" if "r \<in> set (vw_profiles (V d'))" "pp_is_default r" for r
      using that save_profile_rows [OF laws save] False by blast
    moreover have "profile_ok r" if "r \<in> set (vw_profiles (V d'))" for r
      using that save_profile_rows [OF laws save] good ok unfolding profiles_ok_def by blast
    ultimately show ?thesis by (intro profiles_ok_fewer [OF ok])
  qed
qed

lemma delete_profile_ok:
  assumes laws: "service_db_laws D V" and ok: "profiles_ok (vw_profiles (V d))"
    and del: "delete_profile D now d i = Some d'"
  shows "profiles_ok (vw_profiles (V d'))"
proof -
  let ?f = "\<lambda>r. r\<lparr>pp_active := False, pp_is_default := False, pp_deleted_at := Some now, pp_updated_at := now\<rparr>"
  obtain n where "sql_update (sd_profiles D) d (\<lambda>r. pp_id r = i \<and> live_profile r) ?f = Some (d', n)"
    using del by (auto simp: delete_profile_def)
  from sql_update_law [OF service_db_lawsD(5) [OF laws] this]
  have "set (vw_profiles (V d')) =
      (\<lambda>r. if pp_id r = i \<and> live_profile r then ?f r else r) ` set (vw_profiles (V d))"
    by (metis (no_types, lifting) list.set_map mset_eq_setD)
  then have origin: "\<exists>r \<in> set (vw_profiles (V d)). x = (if pp_id r = i \<and> live_profile r then ?f r else r)"
    if "x \<in> set (vw_profiles (V d'))" for x
    using that by blast
  show ?thesis
  proof (rule profiles_ok_fewer [OF ok])
    fix x assume "x \<in> set (vw_profiles (V d'))"
    then obtain r where r: "r \<in> set (vw_profiles (V d))"
      "x = (if pp_id r = i \<and> live_profile r then ?f r else r)" using origin by blast
    have "profile_ok r" using r(1) ok by (simp add: profiles_ok_def)
    with r(2) show "profile_ok x" by (auto simp: profile_ok_def)
    show "x \<in> set (vw_profiles (V d))" if "pp_is_default x" using that r by (auto split: if_splits)
  qed
qed

lemma normalized_provider: "normalize_provider v = Inr p \<Longrightarrow> p = ''openai_compatible''"
  by (auto simp: normalize_provider_def split: if_splits)

lemma normalized_tokens: "normalize_max_tokens v = Inr t \<Longrightarrow> 0 \<le> t \<and> t \<le> max_provider_context_tokens"
  by (auto simp: normalize_max_tokens_def split: if_splits)

lemma changed_cases: "changed new f old = Inr x \<Longrightarrow> x = old \<or> (\<exists>v. f v = Inr x)"
  by (auto simp: changed_def split: option.splits)

lemma updated_row_ok:
  assumes upd: "updated_row i current inp = Inr p" and ok: "profile_ok current"
    and live: "live_profile current"
  shows "pp_id p = i" "profile_ok (merged_profile now current p)"
proof -
  have parts: "changed (pu_provider inp) normalize_provider (pp_provider current) = Inr (pp_provider p)"
    "changed (pu_max_tokens inp) normalize_max_tokens (pp_max_tokens current) = Inr (pp_max_tokens p)"
    "pp_id p = i"
    using upd by (auto simp: updated_row_def bind_result_def split: sum.splits)
  have provider: "pp_provider p = ''openai_compatible''"
    using changed_cases [OF parts(1)] ok normalized_provider by (auto simp: profile_ok_def)
  have tokens: "0 \<le> pp_max_tokens p \<and> pp_max_tokens p \<le> max_provider_context_tokens"
    using changed_cases [OF parts(2)] ok normalized_tokens by (auto simp: profile_ok_def)
  show "pp_id p = i" by (rule parts(3))
  show "profile_ok (merged_profile now current p)"
    using live ok provider tokens
    by (simp add: profile_ok_def merged_profile_def keep_if_empty_def live_profile_def)
qed

lemma new_row_ok:
  "normalize_provider v = Inr provider \<Longrightarrow> normalize_max_tokens t = Inr tokens \<Longrightarrow>
    profile_ok (profile_defaults now (new_profile_row inp provider tokens))"
  by (auto simp: profile_ok_def profile_defaults_def new_profile_row_def Let_def live_profile_def
      dest: normalized_provider normalized_tokens)

lemma profile_call_ok:
  assumes laws: "service_db_laws D V" and ok: "profiles_ok (vw_profiles (V d))"
  shows "profiles_ok (vw_profiles (V (run_profile_call D now d c)))"
proof (cases c)
  case (Create_Profile inp)
  then show ?thesis
    using ok create_profile_ok [OF laws ok] new_row_ok
    by (auto simp: profile_service_create_def or_fail_def split: sum.splits option.splits)
next
  case (Update_Profile i inp)
  have "profiles_ok (vw_profiles (V d'))"
    if got: "get_profile D d i = Some current" and row: "updated_row i current inp = Inr p"
      and upd: "update_profile D now d p = Some (d', r)" for current p d' r
  proof (rule update_profile_ok [OF laws ok upd])
    fix cur assume "get_profile D d (pp_id p) = Some cur"
    moreover have good: "profile_ok current" "live_profile current"
      using get_profile_found [OF laws got] ok by (auto simp: profiles_ok_def)
    ultimately show "profile_ok (merged_profile now cur p)"
      using updated_row_ok [OF row good] got by simp
  qed
  then show ?thesis
    using Update_Profile ok
    by (auto simp: profile_service_update_def or_fail_def split: sum.splits option.splits)
next
  case (Delete_Profile i)
  then show ?thesis
    using ok delete_profile_ok [OF laws ok] by (cases "delete_profile D now d i") auto
qed

text \<open>
  C33. The type of a stored profile and the default: whatever calls the service gets, every row keeps
  the one supported provider, a name and a token budget between 0 and two million, a deleted row is
  neither active nor the default, and no two profiles are the default.
\<close>

theorem profiles_stay_well_formed:
  assumes "service_db_laws D V" "profiles_ok (vw_profiles (V d))"
  shows "profiles_ok (vw_profiles (V (fold (\<lambda>(now, c) d. run_profile_call D now d c) calls d)))"
  using assms(2)
proof (induction calls arbitrary: d)
  case (Cons a calls)
  then show ?case using profile_call_ok [OF assms(1)] by (cases a) simp
qed simp

text \<open>An empty key in an update leaves the stored secret as it is.\<close>

theorem secret_not_cleared:
  assumes "pp_api_key_secret p = []"
  shows "pp_api_key_secret (merged_profile now current p) = pp_api_key_secret current"
  using assms by (simp add: merged_profile_def keep_if_empty_def)

text \<open>Creation takes a base URL of slashes alone, which it stores as empty; an update refuses it.\<close>

lemma slash_url_created:
  "pp_base_url (new_profile_row (inp\<lparr>pc_base_url := ''/''\<rparr>) provider tokens) = []"
  "trim_space ''/'' \<noteq> []" "required_base_url ''/'' = Inl (Svc_Error ''base_url is required'')"
proof -
  have t: "trim_space ''/'' = ''/''" by code_simp
  show "pp_base_url (new_profile_row (inp\<lparr>pc_base_url := ''/''\<rparr>) provider tokens) = []"
    by (simp add: new_profile_row_def t trim_slashes_def)
  show "trim_space ''/'' \<noteq> []" by (simp add: t)
  show "required_base_url ''/'' = Inl (Svc_Error ''base_url is required'')"
    by (simp add: required_base_url_def t trim_slashes_def)
qed

definition sample_profile :: profile_create where
  "sample_profile = \<lparr>pc_name = ''p'', pc_provider = [], pc_base_url = ''http'', pc_model = [],
     pc_max_tokens = 0, pc_api_key = ''k'', pc_is_default = True\<rparr>"

theorem profiles_stay_well_formed_witness:
  "profiles_ok (vw_profiles (fold (\<lambda>(now, c) d. run_profile_call mem_service_db now d c)
     [(1, Create_Profile sample_profile), (2, Create_Profile sample_profile)] empty_service_rows))"
  by (rule profiles_stay_well_formed [OF mem_service_db_laws])
     (simp add: profiles_ok_def one_default_def empty_service_rows_def)

end
