(* ===== verification/Session_Compaction.thy ===== *)
theory Session_Compaction
  imports Provider_Profiles Tool_Results
begin

text \<open>
  Compaction of a session: \<^verbatim>\<open>service/session_compact_summary.go\<close>, the compaction calls of
  \<^verbatim>\<open>service/session.go\<close>, \<^verbatim>\<open>repository/session_compaction.go\<close>, and the conversation of the next run
  (\<^verbatim>\<open>buildRunConversation\<close> of \<^verbatim>\<open>service/run.go\<close>). The older messages of a session are replaced, for
  the model, by a summary that a model writes or that is put together locally.
\<close>

subsection \<open>Repository of compactions\<close>

definition applied_in_place :: "string \<Rightarrow> compaction_row \<Rightarrow> bool" where
  "applied_in_place session r \<longleftrightarrow>
     cx_source_session_id r = session \<and> cx_target_session_id r = session \<and> cx_status r = ''applied''"

definition create_compaction ::
  "'d service_db \<Rightarrow> int \<Rightarrow> 'd \<Rightarrow> compaction_row \<Rightarrow> ('d \<times> compaction_row) option" where
  "create_compaction D now d row0 =
     (let row = row0\<lparr>cx_id := (if cx_id row0 = [] then ''compact_'' @ int_dec now else cx_id row0),
                     cx_created_at := (if cx_created_at row0 = zero_time then now else cx_created_at row0),
                     cx_updated_at := now\<rparr>
      in map_option (\<lambda>d'. (d', row)) (sql_insert (sd_compactions D) d [row]))"

definition compactions_for_session :: "'d service_db \<Rightarrow> 'd \<Rightarrow> string \<Rightarrow> compaction_row list option" where
  "compactions_for_session D d session =
     sql_select (sd_compactions D) d
       (\<lambda>r. cx_source_session_id r = session \<or> cx_target_session_id r = session)
       (\<lambda>r. [(cx_created_at r, [])])"

definition latest_applied_in_place :: "'d service_db \<Rightarrow> 'd \<Rightarrow> string \<Rightarrow> compaction_row first_result" where
  "latest_applied_in_place D d session =
     sql_first (sd_compactions D) d (applied_in_place session) (\<lambda>r. [(- cx_created_at r, []), (0, cx_id r)])"

definition supersede_applied_in_place :: "'d service_db \<Rightarrow> int \<Rightarrow> 'd \<Rightarrow> string \<Rightarrow> 'd option" where
  "supersede_applied_in_place D now d session =
     (if session = [] then Some d
      else map_option fst (sql_update (sd_compactions D) d (applied_in_place session)
             (\<lambda>r. r\<lparr>cx_status := ''superseded'', cx_updated_at := now\<rparr>)))"

subsection \<open>Plans\<close>

definition default_keep_tail_turns :: int where "default_keep_tail_turns = 3"

record compaction_plan =
  pl_start :: nat
  pl_end :: nat
  pl_keep_tail_messages :: int
  pl_keep_tail_turns :: int
  pl_summarize :: "message_row list"
  pl_tail :: "message_row list"

record source_range =
  sr_start :: nat
  sr_end :: nat

definition first_message_seq :: "message_row list \<Rightarrow> nat" where
  "first_message_seq ms = (case ms of [] \<Rightarrow> 0 | m # _ \<Rightarrow> mr_seq m)"

definition last_message_seq :: "message_row list \<Rightarrow> nat" where
  "last_message_seq ms = (if ms = [] then 0 else mr_seq (last ms))"

text \<open>A suffix of at most so many messages; \<open>all\<close> is not empty in what follows.\<close>

definition plan_by_message_count :: "message_row list \<Rightarrow> source_range \<Rightarrow> int \<Rightarrow> compaction_plan" where
  "plan_by_message_count all_msgs requested keep =
     (let latest = mr_seq (last all_msgs);
          first_seq = (if first_message_seq all_msgs = 0 then 1 else first_message_seq all_msgs);
          start_seq = (if sr_start requested = 0 then first_seq else sr_start requested);
          keep_tail = max keep 0;
          end0 = (if sr_end requested = 0
                  then if keep_tail > 0 \<and> keep_tail < int latest then latest - nat keep_tail else latest
                  else sr_end requested);
          end_seq = max end0 start_seq;
          tail0 = filter (\<lambda>m. mr_seq m > end_seq) all_msgs
      in \<lparr>pl_start = start_seq, pl_end = end_seq, pl_keep_tail_messages = keep_tail, pl_keep_tail_turns = 0,
          pl_summarize = filter (\<lambda>m. start_seq \<le> mr_seq m \<and> mr_seq m \<le> end_seq) all_msgs,
          pl_tail = (if keep_tail > 0 \<and> int (length tail0) > keep_tail
                     then drop (length tail0 - nat keep_tail) tail0 else tail0)\<rparr>)"

definition user_indices :: "message_row list \<Rightarrow> nat list" where
  "user_indices ms = filter (\<lambda>i. mr_role (ms ! i) = ''user'') [0..<length ms]"

text \<open>
  The index of the first message that is kept: \<open>None\<close> is the session with one turn alone. The
  product may wrap around; a negative number of messages keeps nothing.
\<close>

definition tail_index :: "message_row list \<Rightarrow> int \<Rightarrow> nat option" where
  "tail_index ms turns =
     (let users = user_indices ms
      in if users = []
         then let keep = wrap_int64 (turns * 2)
              in Some (if keep > int (length ms) then 0 else nat (min (int (length ms) - keep) (int (length ms))))
         else if int (length users) \<le> turns
         then if users = [0] then None else Some (if length users > 1 then last users else hd users)
         else Some (users ! (length users - nat turns)))"

text \<open>
  The messages before the requested start are left out of the summary; the filter writes into the
  array of all messages, but only behind what it has read.
\<close>

definition plan_by_turns :: "message_row list \<Rightarrow> nat \<Rightarrow> int \<Rightarrow> compaction_plan" where
  "plan_by_turns ms start_seq turns0 =
     (let turns = (if turns0 < 1 then default_keep_tail_turns else turns0)
      in case tail_index ms turns of
           None \<Rightarrow>
             \<lparr>pl_start = first_message_seq ms, pl_end = first_message_seq ms,
              pl_keep_tail_messages = int (length ms) - 1, pl_keep_tail_turns = turns,
              pl_summarize = take 1 ms, pl_tail = drop 1 ms\<rparr>
         | Some i \<Rightarrow>
             (let summarize = filter (\<lambda>m. start_seq > 0 \<longrightarrow> mr_seq m \<ge> start_seq) (take i ms);
                  tail_msgs = drop i ms;
                  start0 = (if first_message_seq summarize = 0 then first_message_seq ms
                            else first_message_seq summarize);
                  end0 = last_message_seq summarize;
                  bounds = (if end0 = 0 \<and> summarize = [] \<and> tail_msgs \<noteq> []
                            then if first_message_seq tail_msgs > 1
                                 then (first_message_seq tail_msgs - 1, first_message_seq tail_msgs - 1)
                                 else (first_message_seq tail_msgs, first_message_seq tail_msgs)
                            else (start0, end0))
              in \<lparr>pl_start = fst bounds, pl_end = snd bounds, pl_keep_tail_messages = int (length tail_msgs),
                  pl_keep_tail_turns = turns, pl_summarize = summarize, pl_tail = tail_msgs\<rparr>))"

text \<open>5000 messages are asked for; the repository then reads 200 (\<open>list_messages\<close>).\<close>

definition plan_compaction ::
  "'d service_db \<Rightarrow> 'd \<Rightarrow> string \<Rightarrow> source_range \<Rightarrow> int \<Rightarrow> int \<Rightarrow> svc_error + compaction_plan" where
  "plan_compaction D d session requested keep_messages keep_turns =
     bind_result (db_result (list_messages (sd_core D) d session 5000)) (\<lambda>ms.
       if ms = [] then Inl (Svc_Error ''session has no messages to compact'')
       else if sr_end requested > 0 \<or> keep_turns \<le> 0 \<and> keep_messages > 0
       then Inr (plan_by_message_count ms requested keep_messages)
       else Inr (plan_by_turns ms (sr_start requested)
                  (if keep_turns \<le> 0 then default_keep_tail_turns else keep_turns)))"

subsection \<open>The local summary\<close>

definition max_local_summary_runes :: nat where "max_local_summary_runes = 2400"
definition max_local_per_message_runes :: int where "max_local_per_message_runes = 280"
definition max_llm_transcript_runes :: nat where "max_llm_transcript_runes = 48000"

definition message_text :: "message_row \<Rightarrow> string" where
  "message_text m =
     join_with '' '' (filter (\<lambda>t. t \<noteq> []) (map (\<lambda>b. trim_space (cb_text b)) (mr_content_json m)))"

text \<open>The messages of user and assistant that have text, each with its role.\<close>

definition spoken :: "message_row list \<Rightarrow> (message_row \<times> string) list" where
  "spoken ms =
     filter (\<lambda>(m, t). t \<noteq> [])
       (map (\<lambda>m. (m, trim_space (message_text m))) (filter (\<lambda>m. mr_role m \<in> {''user'', ''assistant''}) ms))"

definition summary_bullets :: "message_row list \<Rightarrow> (string \<times> string) list" where
  "summary_bullets ms =
     map (\<lambda>(m, t). (mr_role m, truncate_runes t max_local_per_message_runes)) (spoken ms)"

definition bullet_line :: "string \<times> string \<Rightarrow> string" where
  "bullet_line b = ''- ['' @ fst b @ ''] '' @ snd b @ [CHR 0x0A]"

definition truncated_line :: string where
  "truncated_line = ''- '' @ ellipsis
     @ ''(earlier turns truncated in local fallback; enable LLM compact for fuller summary)'' @ [CHR 0x0A]"

fun bullet_lines :: "nat \<Rightarrow> (string \<times> string) list \<Rightarrow> string" where
  "bullet_lines used [] = []"
| "bullet_lines used (b # bs) =
     (if used + rune_count (bullet_line b) > max_local_summary_runes then truncated_line
      else bullet_line b @ bullet_lines (used + rune_count (bullet_line b)) bs)"

definition trim_punctuation :: "string \<Rightarrow> string" where
  "trim_punctuation t =
     (let drop_set = dropWhile (\<lambda>c. c \<in> set [CHR 0x60, CHR '','', CHR ''.'', CHR 0x22, CHR 0x27, CHR ''('',
                                CHR '')'', CHR ''['', CHR '']'', CHR ''{'', CHR ''}''])
      in rev (drop_set (rev (drop_set t))))"

definition looks_like_path :: "string \<Rightarrow> bool" where
  "looks_like_path v \<longleftrightarrow>
     3 \<le> length v \<and> length v \<le> 180 \<and> \<not> contains_sub v ''://''
     \<and> (list_ex (\<lambda>c. c = CHR ''/'' \<or> c = CHR 0x5C) v
        \<or> count_sub v ''.'' \<ge> 1 \<and> contains_sub v ''/'')"

fun path_hints :: "string list \<Rightarrow> string list \<Rightarrow> string list" where
  "path_hints [] out = out"
| "path_hints (t # ts) out =
     (let clean = trim_punctuation t
      in if \<not> looks_like_path clean \<or> clean \<in> set out then path_hints ts out
         else if length out + 1 \<ge> 12 then out @ [clean]
         else path_hints ts (out @ [clean]))"

definition extract_path_hints :: "string list \<Rightarrow> string list" where
  "extract_path_hints texts = path_hints (concat (map Tool_Results.fields texts)) []"

definition en_dash :: string where "en_dash = utf8 [0xE2, 0x80, 0x93]"

definition summary_of_text :: "string \<Rightarrow> compact_summary" where
  "summary_of_text t = \<lparr>sm_summary = t, sm_decisions = [], sm_open_tasks = [], sm_workspace_context = [],
     sm_risks = []\<rparr>"

definition summarize_messages_local :: "message_row list \<Rightarrow> nat \<Rightarrow> nat \<Rightarrow> compact_summary" where
  "summarize_messages_local ms start_seq end_seq =
     (let bullets = summary_bullets ms
      in if bullets = []
         then summary_of_text (''Compacted session messages '' @ nat_digits start_seq @ ''-'' @ nat_digits end_seq
                @ '' (no root conversation content).'')
         else (summary_of_text (trim_space (''Session history summary (messages '' @ nat_digits start_seq @ en_dash
                  @ nat_digits end_seq @ '', local heuristic):'' @ [CHR 0x0A] @ bullet_lines 0 bullets)))
              \<lparr>sm_workspace_context := extract_path_hints (map snd bullets)\<rparr>)"

subsection \<open>The summary of a model\<close>

definition transcript_line :: "message_row \<times> string \<Rightarrow> string" where
  "transcript_line x =
     ''[seq='' @ nat_digits (mr_seq (fst x)) @ '' role='' @ mr_role (fst x) @ '']'' @ [CHR 0x0A]
     @ truncate_runes (snd x) 4000 @ [CHR 0x0A, CHR 0x0A]"

fun transcript_lines :: "nat \<Rightarrow> string \<Rightarrow> (message_row \<times> string) list \<Rightarrow> string" where
  "transcript_lines budget written [] = written"
| "transcript_lines budget written (x # xs) =
     (if rune_count written + rune_count (transcript_line x) > budget
      then written @ ellipsis @ ''[transcript truncated for model context]'' @ [CHR 0x0A]
      else transcript_lines budget (written @ transcript_line x) xs)"

definition build_compact_transcript :: "message_row list \<Rightarrow> nat \<Rightarrow> string" where
  "build_compact_transcript ms budget = trim_space (transcript_lines budget [] (spoken ms))"

record compact_provider =
  cv_base_url :: string
  cv_model :: string
  cv_api_key :: string

fun first_non_empty_trimmed :: "string list \<Rightarrow> string" where
  "first_non_empty_trimmed [] = []"
| "first_non_empty_trimmed (v # vs) =
     (if trim_space v \<noteq> [] then trim_space v else first_non_empty_trimmed vs)"

definition compact_provider_of :: "profile_row \<Rightarrow> compact_provider" where
  "compact_provider_of r =
     \<lparr>cv_base_url = pp_base_url r, cv_model = first_non_empty_trimmed [pp_model r, ''default''],
      cv_api_key = pp_api_key_secret r\<rparr>"

text \<open>The first usable default, else the first usable profile.\<close>

definition choose_profile :: "profile_row list \<Rightarrow> profile_row option" where
  "choose_profile rows =
     (let usable = filter (\<lambda>r. pp_active r \<and> trim_space (pp_base_url r) \<noteq> []) rows
      in case find pp_is_default usable of
           Some r \<Rightarrow> Some r | None \<Rightarrow> (case usable of [] \<Rightarrow> None | r # _ \<Rightarrow> Some r))"

definition resolve_compact_provider :: "'d service_db \<Rightarrow> 'd \<Rightarrow> string \<Rightarrow> svc_error + compact_provider" where
  "resolve_compact_provider D d profile =
     (let i = trim_space profile
      in if i \<noteq> []
         then case get_profile D d i of
                None \<Rightarrow> Inl Db_Error
              | Some r \<Rightarrow>
                  if \<not> pp_active r then Inl (Svc_Error (''provider profile '' @ i @ '' is inactive''))
                  else Inr (compact_provider_of r)
         else bind_result (db_result (list_profiles D d 100)) (\<lambda>rows.
                case choose_profile rows of
                  None \<Rightarrow> Inl (Svc_Error ''no active provider profile configured for LLM compact'')
                | Some r \<Rightarrow> Inr (compact_provider_of r)))"

text \<open>
  The outside: the exchange with the server, JSON, and \<^verbatim>\<open>fmt.Sprint\<close> of a value that is neither nil
  nor text.
\<close>

record compact_env =
  ce_send :: "http_request \<Rightarrow> http_reply"
  ce_write :: "go_value \<Rightarrow> string"
  ce_read_contents :: "string \<Rightarrow> go_value list option"
  ce_read_summary :: "string \<Rightarrow> compact_summary option"
  ce_print :: "go_value \<Rightarrow> string"

fun text_parts :: "go_value list \<Rightarrow> string list" where
  "text_parts [] = []"
| "text_parts (v # vs) =
     (case v of
        GMap m \<Rightarrow> (case map_of m ''text'' of
                     Some (GStr t) \<Rightarrow> if trim_space t \<noteq> [] then t # text_parts vs else text_parts vs
                   | _ \<Rightarrow> text_parts vs)
      | _ \<Rightarrow> text_parts vs)"

definition content_to_string :: "compact_env \<Rightarrow> go_value \<Rightarrow> string" where
  "content_to_string E v =
     (case v of
        GStr t \<Rightarrow> t
      | GList vs \<Rightarrow> join_with [CHR 0x0A] (text_parts vs)
      | GNil \<Rightarrow> ''<nil>''
      | _ \<Rightarrow> ce_print E v)"

definition extract_chat_completion_text :: "compact_env \<Rightarrow> string \<Rightarrow> svc_error + string" where
  "extract_chat_completion_text E raw =
     (case ce_read_contents E raw of
        None \<Rightarrow> Inl (Svc_Error ''json: cannot unmarshal'')
      | Some [] \<Rightarrow> Inl (Svc_Error ''provider response missing choices'')
      | Some (c # _) \<Rightarrow> Inr (content_to_string E c))"

text \<open>\<^verbatim>\<open>strings.LastIndex\<close> as the text before the last occurrence.\<close>

fun last_index_of :: "string \<Rightarrow> string \<Rightarrow> nat option" where
  "last_index_of sub [] = (if sub = [] then Some 0 else None)"
| "last_index_of sub (c # cs) =
     (case last_index_of sub cs of
        Some i \<Rightarrow> Some (Suc i)
      | None \<Rightarrow> if has_prefix (c # cs) sub then Some 0 else None)"

definition fence :: string where "fence = [CHR 0x60, CHR 0x60, CHR 0x60]"

definition strip_fences :: "string \<Rightarrow> string" where
  "strip_fences raw =
     (if \<not> has_prefix raw fence then raw
      else let inner = trim_prefix (trim_prefix (trim_prefix raw (fence @ ''json'')) (fence @ ''JSON'')) fence
           in trim_space (case last_index_of fence inner of None \<Rightarrow> inner | Some i \<Rightarrow> take i inner))"

definition outermost_object :: "string \<Rightarrow> string" where
  "outermost_object raw =
     (if has_prefix raw ''{'' then raw
      else case (index_of ''{'' raw, last_index_of ''}'' raw) of
             (Some i, Some j) \<Rightarrow> if j > i then take (j + 1 - i) (drop i raw) else raw
           | _ \<Rightarrow> raw)"

definition parse_compact_summary_json :: "compact_env \<Rightarrow> string \<Rightarrow> compact_summary option" where
  "parse_compact_summary_json E raw0 =
     (let raw = trim_space raw0
      in if raw = [] then None else ce_read_summary E (outermost_object (strip_fences raw)))"

definition compact_system_prompt :: string where
  "compact_system_prompt = join_with [CHR 0x0A]
     [''You compress multi-turn coding-agent conversations into durable context.'',
      ''Return ONLY a JSON object with keys:'',
      ''- summary: string (2-8 sentences; goals, progress, current state)'',
      ''- decisions: string[] (decisions / chosen approaches)'',
      ''- open_tasks: string[] (unfinished work)'',
      ''- workspace_context: string[] (important files, commands, env notes)'',
      ''- risks: string[] (blockers, bugs, caveats)'',
      ''Rules:'',
      ''- Prefer facts useful for continuing work over narrative fluff.'',
      ''- Do not invent files, APIs, or outcomes not present in the transcript.'',
      ''- Ignore subagent-private chatter if present.'',
      ''- Keep paths and error messages accurate.'',
      ''- Chinese or English OK; match the transcript language.'']"

definition compact_request_body :: "compact_provider \<Rightarrow> string \<Rightarrow> nat \<Rightarrow> nat \<Rightarrow> go_value" where
  "compact_request_body p transcript start_seq end_seq =
     GMap [(''model'', GStr (cv_model p)),
       (''messages'', GList (map message_value
          [Chat_Text ''system'' compact_system_prompt,
           Chat_Text ''user'' (''Compress conversation messages seq '' @ nat_digits start_seq @ ''-''
             @ nat_digits end_seq @ '' into the JSON schema.'' @ [CHR 0x0A, CHR 0x0A] @ ''TRANSCRIPT:''
             @ [CHR 0x0A] @ transcript)])),
       (''temperature'', GFloat (1 / 5)), (''stream'', GBool False), (''max_tokens'', GInt 1200)]"

definition llm_answer :: "compact_env \<Rightarrow> http_reply \<Rightarrow> svc_error + string" where
  "llm_answer E reply =
     (case reply of
        Http_Failed e \<Rightarrow> Inl (Svc_Error e)
      | Http_Reply status b \<Rightarrow>
          case read_limited b of
            (raw, Some e) \<Rightarrow> Inl (Svc_Error e)
          | (raw, None) \<Rightarrow>
              if status < 200 \<or> status > 299
              then Inl (Svc_Error (''provider HTTP '' @ int_dec status @ '': '' @ truncate_runes raw 400))
              else extract_chat_completion_text E raw)"

definition summarize_messages_with_llm ::
  "'d service_db \<Rightarrow> compact_env \<Rightarrow> 'd \<Rightarrow> message_row list \<Rightarrow> nat \<Rightarrow> nat \<Rightarrow> string \<Rightarrow> svc_error + compact_summary" where
  "summarize_messages_with_llm D E d ms start_seq end_seq profile =
     bind_result (resolve_compact_provider D d profile) (\<lambda>p.
       let transcript = build_compact_transcript ms max_llm_transcript_runes
       in if trim_space transcript = [] then Inl (Svc_Error ''no transcript content to summarize'')
          else bind_result (llm_answer E (ce_send E
                 \<lparr>hq_url = chat_completions_url (cv_base_url p),
                  hq_body = ce_write E (compact_request_body p transcript start_seq end_seq),
                  hq_authorization = (if trim_space (cv_api_key p) = [] then None
                                      else Some (''Bearer '' @ trim_space (cv_api_key p)))\<rparr>)) (\<lambda>content.
            case parse_compact_summary_json E content of
              None \<Rightarrow> Inr (summary_of_text (trim_space content))
            | Some s \<Rightarrow>
                Inr (if trim_space (sm_summary s) = []
                     then s\<lparr>sm_summary := ''Compacted session messages '' @ nat_digits start_seq @ ''-''
                              @ nat_digits end_seq @ '' via LLM.''\<rparr>
                     else s)))"

subsection \<open>The summary\<close>

definition ensure_open_tasks :: "'d service_db \<Rightarrow> 'd \<Rightarrow> string \<Rightarrow> compact_summary \<Rightarrow> compact_summary" where
  "ensure_open_tasks D d session s =
     (if sm_open_tasks s \<noteq> [] then s
      else case list_open_todos (db_todos (sd_core D)) d session of
             None \<Rightarrow> s
           | Some rows \<Rightarrow> if rows = [] then s else s\<lparr>sm_open_tasks := map tr_content rows\<rparr>)"

text \<open>An empty summary of the model in the mode \<^verbatim>\<open>llm\<close> wraps an error that is nil.\<close>

definition build_compact_summary ::
  "'d service_db \<Rightarrow> compact_env \<Rightarrow> 'd \<Rightarrow> string \<Rightarrow> compaction_plan \<Rightarrow> string \<Rightarrow> string
    \<Rightarrow> svc_error + compact_summary \<times> string" where
  "build_compact_summary D E d session plan mode0 profile =
     (let m = to_lower (trim_space mode0); mode = (if m = [] then ''auto'' else m);
          locally = (ensure_open_tasks D d session
                       (summarize_messages_local (pl_summarize plan) (pl_start plan) (pl_end plan)), ''local'')
      in if mode \<in> {''auto'', ''llm'', ''summary''}
         then case summarize_messages_with_llm D E d (pl_summarize plan) (pl_start plan) (pl_end plan) profile of
                Inr s \<Rightarrow> if trim_space (sm_summary s) \<noteq> [] then Inr (ensure_open_tasks D d session s, ''llm'')
                         else if mode = ''llm'' then Inl (Svc_Error ''llm compact summary failed: %!w(<nil>)'')
                         else Inr locally
              | Inl e \<Rightarrow> if mode = ''llm'' then Inl e else Inr locally
         else Inr locally)"

definition summary_section :: "string \<Rightarrow> string list \<Rightarrow> string" where
  "summary_section title items =
     (if items = [] then []
      else [CHR 0x0A, CHR 0x0A] @ title @ '':'' @ [CHR 0x0A]
           @ concat (map (\<lambda>i. if trim_space i = [] then [] else ''- '' @ trim_space i @ [CHR 0x0A]) items))"

definition format_compact_summary_message :: "compact_summary \<Rightarrow> string" where
  "format_compact_summary_message s =
     trim_space (trim_space (sm_summary s) @ summary_section ''Decisions'' (sm_decisions s)
       @ summary_section ''Open tasks'' (sm_open_tasks s)
       @ summary_section ''Workspace context'' (sm_workspace_context s)
       @ summary_section ''Risks'' (sm_risks s))"

end
