(* ===== verification/Session_Service.thy ===== *)
theory Session_Service
  imports Session_Compaction
begin

text \<open>
  Sessions: \<^verbatim>\<open>service/session.go\<close> (creation, deletion, history, fork and compaction) with
  \<^verbatim>\<open>repository/session_lineage.go\<close>, and the conversation a run starts with
  (\<^verbatim>\<open>buildRunConversation\<close>). The DTOs are the rows themselves.
\<close>

subsection \<open>Creation, deletion, history\<close>

definition session_error :: "'d service_db \<Rightarrow> int \<Rightarrow> 'd \<Rightarrow> string \<Rightarrow> svc_error" where
  "session_error D now d session =
     (case sql_update (db_sessions (sd_core D)) d (\<lambda>s. ss_id s = session \<and> ss_deleted_at s = None)
             (deleted_session now) of
        None \<Rightarrow> Db_Error | Some _ \<Rightarrow> Svc_Error ''session not found'')"

definition session_delete :: "'d service_db \<Rightarrow> int \<Rightarrow> 'd \<Rightarrow> string \<Rightarrow> 'd \<times> (svc_error + unit)" where
  "session_delete D now d session =
     (if trim_space session = [] then (d, Inl (Svc_Error ''session id is required''))
      else or_fail (soft_delete_session (sd_core D) now d session) (session_error D now d session) d
             (\<lambda>d1. (ignoring d1 (delete_session_todos (db_todos (sd_core D)) d1 session), Inr ())))"

definition session_history :: "'d service_db \<Rightarrow> 'd \<Rightarrow> string \<Rightarrow> message_row list option" where
  "session_history D d session = list_messages (sd_core D) d session 200"

subsection \<open>Fork\<close>

definition create_lineage :: "'d service_db \<Rightarrow> int \<Rightarrow> 'd \<Rightarrow> lineage_row \<Rightarrow> ('d \<times> lineage_row) option" where
  "create_lineage D now d row0 =
     (let row = row0\<lparr>ln_id := (if ln_id row0 = [] then ''lineage_'' @ int_dec now else ln_id row0),
                     ln_created_at := (if ln_created_at row0 = zero_time then now else ln_created_at row0)\<rparr>
      in map_option (\<lambda>d'. (d', row)) (sql_insert (sd_lineage D) d [row]))"

definition lineage_for_session :: "'d service_db \<Rightarrow> 'd \<Rightarrow> string \<Rightarrow> lineage_row list option" where
  "lineage_for_session D d session =
     sql_select (sd_lineage D) d
       (\<lambda>r. ln_source_session_id r = session \<or> ln_target_session_id r = session)
       (\<lambda>r. [(ln_created_at r, [])])"

record fork_request =
  fk_name :: string
  fk_seq :: nat
  fk_run :: string

record fork_result =
  fo_session :: session_row
  fo_lineage :: lineage_row
  fo_copied :: nat

text \<open>
  The transaction of a fork. Its failure undoes the statements, but not the two counters behind the
  ids of messages and to-dos.
\<close>

definition fork_transaction ::
  "'d service_db \<Rightarrow> (nat \<Rightarrow> int) \<Rightarrow> nat \<times> nat \<Rightarrow> 'd \<Rightarrow> session_row \<Rightarrow> string \<Rightarrow> nat \<Rightarrow> string \<Rightarrow> message_row list
    \<Rightarrow> (nat \<times> nat) \<times> ('d \<times> fork_result) option" where
  "fork_transaction D clock counters d source name seq run msgs =
     (case create_derived_session (sd_core D) (clock 0) d name source ''fork'' seq run of
        None \<Rightarrow> (counters, None)
      | Some (d1, target) \<Rightarrow>
          (case copy_to_session (sd_core D) (clock 1) (fst counters) d1 msgs (ss_id target) 1 of
             (d2, counter, copied, False) \<Rightarrow> ((counter, snd counters), None)
           | (d2, counter, copied, True) \<Rightarrow>
               (case copy_session_todos (db_todos (sd_core D)) (clock 2) (snd counters) d2 (ss_id source)
                       (ss_id target) False of
                  (todo_counter, Inl _) \<Rightarrow> ((counter, todo_counter), None)
                | (todo_counter, Inr (d3, _)) \<Rightarrow>
                    ((counter, todo_counter),
                     map_option (\<lambda>(d4, lineage).
                         (d4, \<lparr>fo_session = target, fo_lineage = lineage, fo_copied = copied\<rparr>))
                       (create_lineage D (clock 3) d3
                         \<lparr>ln_id = [], ln_source_session_id = ss_id source, ln_target_session_id = ss_id target,
                          ln_operation = ''fork'', ln_fork_point_seq = seq, ln_fork_point_run_id = run,
                          ln_source_start_seq = first_message_seq msgs,
                          ln_source_end_seq = last_message_seq msgs, ln_created_at = zero_time\<rparr>)))))"

definition fork_session ::
  "'d service_db \<Rightarrow> (nat \<Rightarrow> int) \<Rightarrow> nat \<times> nat \<Rightarrow> 'd \<Rightarrow> string \<Rightarrow> fork_request
    \<Rightarrow> ('d \<times> nat \<times> nat) \<times> fork_result option" where
  "fork_session D clock counters d session req =
     (case get_session (sd_core D) d session of
        None \<Rightarrow> ((d, counters), None)
      | Some source \<Rightarrow>
          (case (if fk_seq req = 0 then latest_seq (sd_core D) d session else Some (fk_seq req)) of
             None \<Rightarrow> ((d, counters), None)
           | Some seq \<Rightarrow>
               (case list_through_seq (sd_core D) d session seq of
                  None \<Rightarrow> ((d, counters), None)
                | Some msgs \<Rightarrow>
                    (let run = (if fk_run req = [] \<and> msgs \<noteq> [] then mr_run_id (last msgs) else fk_run req)
                     in case fork_transaction D clock counters d source (fk_name req) seq run msgs of
                          (counters1, None) \<Rightarrow> ((d, counters1), None)
                        | (counters1, Some (d1, r)) \<Rightarrow> ((d1, counters1), Some r)))))"

subsection \<open>Pausing a session\<close>

text \<open>
  With a runtime, its runs are asked to stop and the count of active runs is polled for 20 seconds;
  \<open>wait\<close> is what happens to the database meanwhile and how the wait ends. Without one the records
  are finished at once.
\<close>

datatype wait_end = Wait_Idle | Wait_Over | Wait_Failed

definition cancel_records :: "'d service_db \<Rightarrow> int \<Rightarrow> run_row list \<Rightarrow> 'd \<Rightarrow> 'd" where
  "cancel_records D now runs d =
     fold (\<lambda>run d. ignoring d (finish_run (sd_core D) now d (rr_id run) ''cancelled''
             ''paused for session compact'')) runs d"

definition pause_session_for_compact ::
  "'d service_db \<Rightarrow> (nat \<Rightarrow> int) \<Rightarrow> ('d \<Rightarrow> 'd \<times> wait_end) option \<Rightarrow> 'd \<Rightarrow> string \<Rightarrow> 'd \<times> (svc_error + nat)" where
  "pause_session_for_compact D clock runtime d session =
     (let d1 = fst (pause_by_session (sd_core D) (clock 0) d session ''session_compact'')
      in or_fail (list_active_by_session (sd_core D) d1 session 50) Db_Error d1 (\<lambda>active.
           if active = [] then (d1, Inr 0)
           else case runtime of
                  None \<Rightarrow> (cancel_records D (clock 1) active d1, Inr (length active))
                | Some wait \<Rightarrow>
                    (case wait d1 of
                       (d2, Wait_Idle) \<Rightarrow> (d2, Inr (length active))
                     | (d2, Wait_Failed) \<Rightarrow> (d2, Inl Db_Error)
                     | (d2, Wait_Over) \<Rightarrow>
                         or_fail (list_active_by_session (sd_core D) d2 session 50) Db_Error d2 (\<lambda>remaining.
                           (cancel_records D (clock 1) remaining d2, Inr (length active))))))"

subsection \<open>Compaction\<close>

record compact_request =
  cq_range :: source_range
  cq_keep_messages :: int
  cq_keep_turns :: int
  cq_mode :: string
  cq_profile :: string
  cq_summary :: compact_summary

record compact_result =
  cr_session :: session_row
  cr_compaction :: compaction_row
  cr_summary :: compact_summary
  cr_keep_messages :: int
  cr_keep_turns :: int
  cr_paused :: nat

definition compact_preview ::
  "'d service_db \<Rightarrow> (nat \<Rightarrow> int) \<Rightarrow> ('d \<Rightarrow> 'd \<times> wait_end) option \<Rightarrow> compact_env \<Rightarrow> 'd \<Rightarrow> string \<Rightarrow> compact_request
    \<Rightarrow> 'd \<times> (svc_error + compaction_plan \<times> (compact_summary \<times> string) \<times> nat)" where
  "compact_preview D clock runtime E d session req =
     or_fail (get_session (sd_core D) d session) Db_Error d (\<lambda>_.
       case pause_session_for_compact D clock runtime d session of
         (d1, Inl e) \<Rightarrow> (d1, Inl e)
       | (d1, Inr paused) \<Rightarrow>
           (d1, bind_result (plan_compaction D d1 session (cq_range req) (cq_keep_messages req) (cq_keep_turns req))
                  (\<lambda>plan. bind_result (build_compact_summary D E d1 session plan (cq_mode req) (cq_profile req))
                     (\<lambda>s. Inr (plan, s, paused)))))"

definition compact_summary_for ::
  "'d service_db \<Rightarrow> compact_env \<Rightarrow> 'd \<Rightarrow> string \<Rightarrow> compaction_plan \<Rightarrow> compact_request \<Rightarrow> svc_error + compact_summary" where
  "compact_summary_for D E d session plan req =
     (if trim_space (sm_summary (cq_summary req)) = []
      then bind_result (build_compact_summary D E d session plan (cq_mode req) (cq_profile req)) (\<lambda>(s, _). Inr s)
      else Inr (ensure_open_tasks D d session (cq_summary req)))"

definition apply_compaction ::
  "'d service_db \<Rightarrow> (nat \<Rightarrow> int) \<Rightarrow> 'd \<Rightarrow> string \<Rightarrow> compaction_plan \<Rightarrow> compact_summary
    \<Rightarrow> ('d \<times> session_row \<times> compaction_row) option" where
  "apply_compaction D clock d session plan s =
     (case supersede_applied_in_place D (clock 2) d session of
        None \<Rightarrow> None
      | Some d1 \<Rightarrow>
          (case create_compaction D (clock 3) d1
                  \<lparr>cx_id = [], cx_source_session_id = session, cx_target_session_id = session,
                   cx_status = ''applied'', cx_source_start_seq = pl_start plan, cx_source_end_seq = pl_end plan,
                   cx_summary_message_id = [], cx_summary_json = s, cx_created_at = zero_time,
                   cx_updated_at = zero_time\<rparr> of
             None \<Rightarrow> None
           | Some (d2, row) \<Rightarrow>
               (case touch_session (sd_core D) (clock 4) d2 session of
                  None \<Rightarrow> None
                | Some d3 \<Rightarrow> map_option (\<lambda>updated. (d3, updated, row)) (get_session (sd_core D) d3 session))))"

definition compact_session ::
  "'d service_db \<Rightarrow> (nat \<Rightarrow> int) \<Rightarrow> ('d \<Rightarrow> 'd \<times> wait_end) option \<Rightarrow> compact_env \<Rightarrow> 'd \<Rightarrow> string \<Rightarrow> compact_request
    \<Rightarrow> 'd \<times> (svc_error + compact_result)" where
  "compact_session D clock runtime E d session req =
     or_fail (get_session (sd_core D) d session) Db_Error d (\<lambda>source.
       case pause_session_for_compact D clock runtime d session of
         (d1, Inl e) \<Rightarrow> (d1, Inl e)
       | (d1, Inr paused) \<Rightarrow>
           (case plan_compaction D d1 session (cq_range req) (cq_keep_messages req) (cq_keep_turns req) of
              Inl e \<Rightarrow> (d1, Inl e)
            | Inr plan \<Rightarrow>
                (case compact_summary_for D E d1 session plan req of
                   Inl e \<Rightarrow> (d1, Inl e)
                 | Inr s \<Rightarrow>
                     or_fail (apply_compaction D clock d1 (ss_id source) plan s) Db_Error d1 (\<lambda>(d2, updated, row).
                       (d2, Inr \<lparr>cr_session = updated, cr_compaction = row, cr_summary = s,
                              cr_keep_messages = pl_keep_tail_messages plan,
                              cr_keep_turns = pl_keep_tail_turns plan, cr_paused = paused\<rparr>)))))"

definition compaction_state :: "'d service_db \<Rightarrow> 'd \<Rightarrow> string \<Rightarrow> compaction_row option option" where
  "compaction_state D d session =
     (if get_session (sd_core D) d session = None then None
      else case latest_applied_in_place D d session of
             Found row \<Rightarrow> Some (Some row) | Not_Found \<Rightarrow> Some None | Read_Error \<Rightarrow> None)"

subsection \<open>The conversation of the next run\<close>

definition conversation_of_row :: "message_row \<Rightarrow> conversation_message" where
  "conversation_of_row m = \<lparr>cm_role = mr_role m, cm_blocks = map cb_text (mr_content_json m)\<rparr>"

definition summary_message :: "compaction_row \<Rightarrow> conversation_message" where
  "summary_message row =
     \<lparr>cm_role = ''system'',
      cm_blocks = [''Conversation summary covering original messages '' @ nat_digits (cx_source_start_seq row)
        @ ''-'' @ nat_digits (cx_source_end_seq row)
        @ ''. Use it as prior context; the full original history remains stored in the session.''
        @ [CHR 0x0A, CHR 0x0A] @ format_compact_summary_message (cx_summary_json row)]\<rparr>"

definition build_run_conversation :: "'d service_db \<Rightarrow> 'd \<Rightarrow> string \<Rightarrow> conversation_message list option" where
  "build_run_conversation D d session =
     (case list_latest_conversation (sd_core D) d session 200 of
        None \<Rightarrow> None
      | Some history \<Rightarrow>
          (case latest_applied_in_place D d session of
             Read_Error \<Rightarrow> None
           | Not_Found \<Rightarrow> Some (map conversation_of_row history)
           | Found row \<Rightarrow>
               map_option (\<lambda>tail_msgs. summary_message row # map conversation_of_row tail_msgs)
                 (list_conversation_after (sd_core D) d session (cx_source_end_seq row) 200)))"

end
