(* ===== verification/Compaction_Props.thy ===== *)
theory Compaction_Props
  imports Session_Service
begin

text \<open>
  Properties of compaction: a plan splits the history it reads, the summary and the messages after
  it make up the next conversation, and the history it reads is the oldest part of the session.
\<close>

subsection \<open>Plans\<close>

definition ascending :: "message_row list \<Rightarrow> bool" where
  "ascending ms \<longleftrightarrow> sorted_wrt (<) (map mr_seq ms)"

lemma ascending_append:
  "ascending (xs @ ys) \<longleftrightarrow> ascending xs \<and> ascending ys \<and> (\<forall>x \<in> set xs. \<forall>y \<in> set ys. mr_seq x < mr_seq y)"
  by (auto simp: ascending_def sorted_wrt_append)

lemma ascending_le_last: "ascending ms \<Longrightarrow> m \<in> set ms \<Longrightarrow> mr_seq m \<le> last_message_seq ms"
proof (induction ms rule: rev_induct)
  case (snoc x ms)
  then show ?case by (auto simp: ascending_append last_message_seq_def less_imp_le)
qed simp

lemma last_message_in: "ms \<noteq> [] \<Longrightarrow> \<exists>m \<in> set ms. last_message_seq ms = mr_seq m"
  by (auto simp: last_message_seq_def)

definition turns_kept :: "int \<Rightarrow> int" where
  "turns_kept turns = (if turns < 1 then default_keep_tail_turns else turns)"

lemma plan_one_turn:
  assumes "tail_index ms (turns_kept turns) = None"
  shows "pl_summarize (plan_by_turns ms s turns) = take 1 ms" "pl_tail (plan_by_turns ms s turns) = drop 1 ms"
    "pl_end (plan_by_turns ms s turns) = first_message_seq ms"
  using assms by (simp_all add: plan_by_turns_def turns_kept_def [symmetric] Let_def)

lemma plan_index:
  assumes "tail_index ms (turns_kept turns) = Some i"
  shows "pl_summarize (plan_by_turns ms 0 turns) = take i ms" "pl_tail (plan_by_turns ms 0 turns) = drop i ms"
    "take i ms \<noteq> [] \<Longrightarrow> pl_end (plan_by_turns ms 0 turns) = last_message_seq (take i ms)"
    "take i ms = [] \<Longrightarrow> ms \<noteq> [] \<Longrightarrow> 1 < first_message_seq ms \<Longrightarrow>
       pl_end (plan_by_turns ms 0 turns) = first_message_seq ms - 1"
  using assms by (simp_all add: plan_by_turns_def turns_kept_def [symmetric] Let_def last_message_seq_def)

lemma tail_index_None: "tail_index [] turns \<noteq> None"
  by (simp add: tail_index_def user_indices_def Let_def)

lemma plan_splits: "pl_summarize (plan_by_turns ms 0 turns) @ pl_tail (plan_by_turns ms 0 turns) = ms"
  by (cases "tail_index ms (turns_kept turns)") (simp_all add: plan_one_turn plan_index)

lemma plan_turns_within:
  "set (pl_summarize (plan_by_turns ms s turns)) \<union> set (pl_tail (plan_by_turns ms s turns)) \<subseteq> set ms"
proof (cases "tail_index ms (turns_kept turns)")
  case None
  then show ?thesis by (simp only: plan_one_turn) (simp add: set_take_subset set_drop_subset)
next
  case (Some i)
  then have "pl_summarize (plan_by_turns ms s turns) = filter (\<lambda>m. s > 0 \<longrightarrow> mr_seq m \<ge> s) (take i ms)"
    "pl_tail (plan_by_turns ms s turns) = drop i ms"
    by (simp_all add: plan_by_turns_def turns_kept_def [symmetric] Let_def)
  then show ?thesis using set_take_subset [of i ms] set_drop_subset [of i ms] by auto
qed

lemma cut_within: "set xs \<subseteq> A \<Longrightarrow> set (if c then drop n xs else xs) \<subseteq> A"
  by (auto dest: in_set_dropD)

lemma plan_count_within:
  "set (pl_summarize (plan_by_message_count ms r k)) \<union> set (pl_tail (plan_by_message_count ms r k)) \<subseteq> set ms"
  unfolding plan_by_message_count_def Let_def compaction_plan.select_convs
  by (intro Un_least cut_within filter_is_subset)

lemma plan_end:
  assumes "pl_summarize (plan_by_turns ms 0 turns) \<noteq> []"
  shows "pl_end (plan_by_turns ms 0 turns) = last_message_seq (pl_summarize (plan_by_turns ms 0 turns))"
proof (cases "tail_index ms (turns_kept turns)")
  case None
  then show ?thesis
    using assms by (cases ms) (simp_all add: plan_one_turn first_message_seq_def last_message_seq_def)
qed (use assms in \<open>simp add: plan_index\<close>)

lemma plan_end_empty:
  assumes "pl_summarize (plan_by_turns ms 0 turns) = []" "ms \<noteq> []" "1 < first_message_seq ms"
  shows "pl_end (plan_by_turns ms 0 turns) = first_message_seq ms - 1"
proof (cases "tail_index ms (turns_kept turns)")
  case None
  then show ?thesis using assms by (simp add: plan_one_turn)
next
  case (Some i)
  then show ?thesis using assms plan_index(1) [OF Some] plan_index(4) [OF Some] by simp
qed

text \<open>The messages behind the end of a plan are its tail, unless it has nothing to summarise.\<close>

lemma plan_tail_after_end:
  assumes asc: "ascending ms" and "ms \<noteq> []"
    and some: "pl_summarize (plan_by_turns ms 0 turns) \<noteq> [] \<or> first_message_seq ms > 1"
  shows "filter (\<lambda>m. mr_seq m > pl_end (plan_by_turns ms 0 turns)) ms = pl_tail (plan_by_turns ms 0 turns)"
proof -
  let ?P = "plan_by_turns ms 0 turns"
  have ms: "ms = pl_summarize ?P @ pl_tail ?P" by (simp add: plan_splits)
  have split: "ascending (pl_summarize ?P)"
    "\<forall>x \<in> set (pl_summarize ?P). \<forall>y \<in> set (pl_tail ?P). mr_seq x < mr_seq y"
    using asc ms ascending_append by metis+
  have "(\<forall>x \<in> set (pl_summarize ?P). mr_seq x \<le> pl_end ?P) \<and> (\<forall>y \<in> set (pl_tail ?P). pl_end ?P < mr_seq y)"
    proof (cases "pl_summarize ?P = []")
      case False
      then obtain m where m: "m \<in> set (pl_summarize ?P)" "last_message_seq (pl_summarize ?P) = mr_seq m"
        using last_message_in by blast
      have "pl_end ?P = mr_seq m" using plan_end [OF False] m by simp
      with split m ascending_le_last [OF split(1)]
      show ?thesis by simp
    next
      case True
      have first: "first_message_seq ms > 1" using True some by simp
      with plan_end_empty [OF True \<open>ms \<noteq> []\<close> first] have "pl_end ?P < first_message_seq ms" by simp
      moreover have "first_message_seq ms \<le> mr_seq y" if "y \<in> set ms" for y
        using that asc by (cases ms) (auto simp: first_message_seq_def ascending_def less_imp_le)
      moreover have "pl_tail ?P = ms" using ms True by simp
      ultimately show ?thesis using True by force
    qed
  then have old: "\<forall>x \<in> set (pl_summarize ?P). mr_seq x \<le> pl_end ?P"
    and recent: "\<forall>y \<in> set (pl_tail ?P). pl_end ?P < mr_seq y" by blast+
  have "filter (\<lambda>m. mr_seq m > pl_end ?P) (pl_summarize ?P @ pl_tail ?P) = pl_tail ?P"
    using old recent by (simp add: filter_empty_conv not_less)
  then show ?thesis using ms by simp
qed

text \<open>
  In a session of one turn the only message of the user goes into the summary, although the comment
  of the code says that everything is kept.
\<close>

lemma single_turn_summarised:
  assumes "user_indices (m # ms) = [0]" "turns \<ge> 1"
  shows "pl_summarize (plan_by_turns (m # ms) s turns) = [m]"
  using assms by (simp add: plan_by_turns_def tail_index_def Let_def)

subsection \<open>Reading messages\<close>

definition session_messages :: "service_rows \<Rightarrow> string \<Rightarrow> message_row list" where
  "session_messages v session = filter (\<lambda>r. mr_session_id r = session) (row_messages (vw_core v))"

lemma list_messages_rows:
  assumes "service_db_laws D V" "list_messages (sd_core D) d session n = Some ms"
  shows "\<exists>xs. ms = take (page_size n 500 200) xs \<and> mset xs = mset (session_messages (V d) session)
    \<and> sorted (map mr_seq xs)"
proof -
  obtain xs where xs: "sql_select (db_messages (sd_core D)) d (\<lambda>r. mr_session_id r = session)
      (\<lambda>r. [(int (mr_seq r), [])]) = Some xs" "ms = take (page_size n 500 200) xs"
    using assms(2) by (auto simp: list_messages_def sql_limit_def)
  note law = sql_select_law [OF gateway_db_lawsD(8) [OF service_db_lawsD(1) [OF assms(1)]] xs(1)]
  have "sorted (map mr_seq xs)"
    using law by (auto simp: sorted_map elim!: sorted_wrt_mono_rel [rotated])
  then show ?thesis using law xs(2) by (auto simp: session_messages_def)
qed

text \<open>
  A compaction never sees a message with 200 older ones: 5000 are asked for, but the repository
  reads the oldest 200 of a session.
\<close>

theorem compaction_reads_oldest_200:
  assumes laws: "service_db_laws D V"
    and plan: "plan_compaction D d session requested keep_messages keep_turns = Inr plan"
    and older: "200 \<le> length (filter (\<lambda>r. mr_seq r < mr_seq m) (session_messages (V d) session))"
  shows "m \<notin> set (pl_summarize plan) \<and> m \<notin> set (pl_tail plan)"
proof -
  obtain ms where ms: "list_messages (sd_core D) d session 5000 = Some ms" "ms \<noteq> []"
    and p: "plan = plan_by_message_count ms requested keep_messages
      \<or> (\<exists>k. plan = plan_by_turns ms (sr_start requested) k)"
    using plan by (auto simp: plan_compaction_def bind_result_def db_result_def split: option.splits if_splits)
  obtain xs where xs: "ms = take 200 xs" "mset xs = mset (session_messages (V d) session)" "sorted (map mr_seq xs)"
    using list_messages_rows [OF laws ms(1)] by (auto simp: page_size_def)
  have "m \<notin> set ms"
  proof
    assume "m \<in> set ms"
    then obtain i where i: "i < length xs" "i < 200" "xs ! i = m" by (auto simp: xs(1) in_set_conv_nth)
    have late: "filter (\<lambda>r. mr_seq r < mr_seq m) (drop i xs) = []"
    proof -
      have "mr_seq m \<le> mr_seq r" if r: "r \<in> set (drop i xs)" for r
      proof -
        obtain j where "j < length (drop i xs)" "r = drop i xs ! j" using r unfolding in_set_conv_nth by blast
        then have j: "i + j < length xs" "r = xs ! (i + j)" using i(1) by simp_all
        show ?thesis using sorted_nth_mono [OF xs(3), of i "i + j"] i(1,3) j by simp
      qed
      then show ?thesis by (auto simp: filter_empty_conv not_less)
    qed
    have "length (filter (\<lambda>r. mr_seq r < mr_seq m) (session_messages (V d) session))
        = length (filter (\<lambda>r. mr_seq r < mr_seq m) xs)"
      by (rule mset_eq_length) (simp add: xs(2))
    also have "\<dots> = length (filter (\<lambda>r. mr_seq r < mr_seq m) (take i xs))"
    proof -
      have "filter (\<lambda>r. mr_seq r < mr_seq m) (take i xs @ drop i xs) = filter (\<lambda>r. mr_seq r < mr_seq m) (take i xs)"
        by (simp only: filter_append late append_Nil2)
      then show ?thesis by simp
    qed
    also have "\<dots> \<le> i" by (rule le_trans [OF length_filter_le]) simp
    finally show False using older i(2) by simp
  qed
  moreover have "set (pl_summarize plan) \<union> set (pl_tail plan) \<subseteq> set ms"
    using p plan_turns_within plan_count_within by blast
  ultimately show ?thesis by blast
qed

subsection \<open>Applying a compaction\<close>

lemma frame_core:
  "service_db_laws D V \<Longrightarrow> sql_insert (sd_compactions D) d rs = Some d' \<Longrightarrow> vw_core (V d') = vw_core (V d)"
  "service_db_laws D V \<Longrightarrow> sql_update (sd_compactions D) d P f = Some (d', n) \<Longrightarrow> vw_core (V d') = vw_core (V d)"
  by (drule service_db_lawsD(11), drule (1) sql_frame_law,
      metis service_rows.select_convs(1) service_rows.surjective service_rows.update_convs(3))+

lemma touch_frames:
  assumes laws: "service_db_laws D V" and t: "touch_session (sd_core D) now d i = Some d'"
  shows "row_messages (vw_core (V d')) = row_messages (vw_core (V d))" "vw_compactions (V d') = vw_compactions (V d)"
proof -
  obtain n where u: "sql_update (db_sessions (sd_core D)) d (\<lambda>s. ss_id s = i) (\<lambda>s. s\<lparr>ss_updated_at := now\<rparr>) = Some (d', n)"
    using t by (auto simp: touch_session_def)
  have "(vw_core (V d'))\<lparr>row_sessions := []\<rparr> = (vw_core (V d))\<lparr>row_sessions := []\<rparr>"
    by (rule sql_frame_law(2) [OF gateway_db_lawsD(25) [OF service_db_lawsD(1) [OF laws]] u])
  from arg_cong [OF this, of row_messages]
  show "row_messages (vw_core (V d')) = row_messages (vw_core (V d))" by simp
  from arg_cong [OF sql_frame_law(2) [OF service_db_lawsD(19) [OF laws] u], of vw_compactions]
  show "vw_compactions (V d') = vw_compactions (V d)" by simp
qed

text \<open>
  Applying a compaction leaves the messages alone and makes the new row the only one applied.
\<close>

lemma apply_compaction_rows:
  assumes laws: "service_db_laws D V" and "session \<noteq> []"
    and ap: "apply_compaction D clock d session plan s = Some (d', updated, row)"
  shows "row_messages (vw_core (V d')) = row_messages (vw_core (V d))"
    "filter_mset (applied_in_place session) (mset (vw_compactions (V d'))) = {#row#}"
    "cx_source_end_seq row = pl_end plan" "cx_source_start_seq row = pl_start plan" "cx_summary_json row = s"
proof -
  obtain d1 d2 d3 where d1: "supersede_applied_in_place D (clock 2) d session = Some d1"
    and d2: "create_compaction D (clock 3) d1
        \<lparr>cx_id = [], cx_source_session_id = session, cx_target_session_id = session,
         cx_status = ''applied'', cx_source_start_seq = pl_start plan, cx_source_end_seq = pl_end plan,
         cx_summary_message_id = [], cx_summary_json = s, cx_created_at = zero_time,
         cx_updated_at = zero_time\<rparr> = Some (d2, row)"
    and d3: "touch_session (sd_core D) (clock 4) d2 session = Some d3" and "d' = d3"
    using ap by (auto simp: apply_compaction_def split: option.splits)
  let ?f = "\<lambda>r. r\<lparr>cx_status := ''superseded'', cx_updated_at := clock 2\<rparr>"
  obtain n where upd: "sql_update (sd_compactions D) d (applied_in_place session) ?f = Some (d1, n)"
    using d1 \<open>session \<noteq> []\<close> by (auto simp: supersede_applied_in_place_def)
  have row: "row = \<lparr>cx_id = ''compact_'' @ int_dec (clock 3), cx_source_session_id = session,
      cx_target_session_id = session, cx_status = ''applied'', cx_source_start_seq = pl_start plan,
      cx_source_end_seq = pl_end plan, cx_summary_message_id = [], cx_summary_json = s,
      cx_created_at = clock 3, cx_updated_at = clock 3\<rparr>"
    and ins: "sql_insert (sd_compactions D) d1 [row] = Some d2"
    using d2 by (auto simp: create_compaction_def Let_def)
  show "row_messages (vw_core (V d')) = row_messages (vw_core (V d))"
    using touch_frames(1) [OF laws d3] frame_core(1) [OF laws ins] frame_core(2) [OF laws upd] \<open>d' = d3\<close>
    by simp
  have old: "filter (applied_in_place session) (map (\<lambda>r. if applied_in_place session r then ?f r else r) rows) = []" for rows
    by (induction rows) (auto simp: applied_in_place_def)
  have "filter_mset (applied_in_place session) (mset (vw_compactions (V d1))) = {#}"
    using arg_cong [OF conjunct1 [OF sql_update_law [OF service_db_lawsD(3) [OF laws] upd]],
        of "filter_mset (applied_in_place session)"] old [of "vw_compactions (V d)"]
    by (simp only: mset_filter [symmetric] mset.simps(1))
  moreover have "mset (vw_compactions (V d')) = mset (vw_compactions (V d1)) + {#row#}"
    using sql_insert_law [OF service_db_lawsD(3) [OF laws] ins] touch_frames(2) [OF laws d3] \<open>d' = d3\<close> by simp
  moreover have "applied_in_place session row" by (simp add: row applied_in_place_def)
  ultimately show "filter_mset (applied_in_place session) (mset (vw_compactions (V d'))) = {#row#}" by simp
  show "cx_source_end_seq row = pl_end plan" "cx_source_start_seq row = pl_start plan" "cx_summary_json row = s"
    by (simp_all add: row)
qed

lemma latest_applied_found:
  assumes laws: "service_db_laws D V"
    and only: "filter_mset (applied_in_place session) (mset (vw_compactions (V d))) = {#row#}"
    and "latest_applied_in_place D d session \<noteq> Read_Error"
  shows "latest_applied_in_place D d session = Found row"
proof -
  obtain xs where xs: "sql_select (sd_compactions D) d (applied_in_place session)
      (\<lambda>r. [(- cx_created_at r, []), (0, cx_id r)]) = Some xs"
    using assms(3) by (auto simp: latest_applied_in_place_def sql_first_def split: option.splits)
  from sql_select_law [OF service_db_lawsD(3) [OF laws] xs] only have "mset xs = {#row#}" by simp
  then have "xs = [row]" by (metis mset_single_iff)
  then show ?thesis using xs by (simp add: latest_applied_in_place_def sql_first_def)
qed

text \<open>Two ascending lists with the same messages are the same list.\<close>

lemma ascending_unique: "ascending xs \<Longrightarrow> ascending ys \<Longrightarrow> set xs = set ys \<Longrightarrow> xs = ys"
proof (rule map_sorted_distinct_set_unique [of mr_seq])
  assume asc: "ascending xs" "ascending ys" and eq: "set xs = set ys"
  have d: "sorted (map mr_seq zs) \<and> distinct (map mr_seq zs)" if "ascending zs" for zs
    using that strict_sorted_iff by (auto simp: ascending_def)
  show "sorted (map mr_seq xs)" "distinct (map mr_seq xs)" "sorted (map mr_seq ys)" "distinct (map mr_seq ys)"
    using d asc by blast+
  show "inj_on mr_seq (set xs \<union> set ys)" using d [OF asc(1)] eq by (simp add: distinct_map)
  show "set xs = set ys" by (rule eq)
qed

lemma ascending_if: "sorted (map mr_seq xs) \<Longrightarrow> distinct (map mr_seq xs) \<Longrightarrow> ascending xs"
  by (simp add: ascending_def strict_sorted_iff)

lemma ascending_filter: "ascending xs \<Longrightarrow> ascending (filter P xs)"
  by (auto simp: ascending_def sorted_wrt_map intro: sorted_wrt_filter)

lemma session_messages_listed:
  assumes laws: "service_db_laws D V" and ms: "list_messages (sd_core D) d session 5000 = Some ms"
    and few: "length (session_messages (V d) session) \<le> 200"
    and seqs: "distinct (map mr_seq (session_messages (V d) session))"
  shows "ascending ms" "mset ms = mset (session_messages (V d) session)"
proof -
  obtain xs where xs: "ms = take 200 xs" "mset xs = mset (session_messages (V d) session)" "sorted (map mr_seq xs)"
    using list_messages_rows [OF laws ms] by (auto simp: page_size_def)
  have "length xs \<le> 200" using mset_eq_length [OF xs(2)] few by simp
  then have "ms = xs" using xs(1) by simp
  moreover have "distinct (map mr_seq xs)"
    using seqs xs(2) by (metis mset_eq_imp_distinct_iff mset_map)
  ultimately show "ascending ms" "mset ms = mset (session_messages (V d) session)"
    using xs(2,3) ascending_if by auto
qed

lemma conversation_after_listed:
  assumes laws: "service_db_laws D V"
    and got: "list_conversation_after (sd_core D) d session after 200 = Some tail_msgs"
    and few: "length (session_messages (V d) session) \<le> 200"
    and seqs: "distinct (map mr_seq (session_messages (V d) session))"
  shows "ascending tail_msgs"
    "mset tail_msgs = mset (filter (\<lambda>m. conversation_role (mr_role m) \<and> after < mr_seq m) (session_messages (V d) session))"
proof -
  let ?rows = "filter (\<lambda>m. conversation_role (mr_role m) \<and> after < mr_seq m) (session_messages (V d) session)"
  obtain xs where xs: "sql_select (db_messages (sd_core D)) d
      (\<lambda>r. mr_session_id r = session \<and> conversation_role (mr_role r) \<and> mr_seq r > after)
      (\<lambda>r. [(- int (mr_seq r), [])]) = Some xs" "tail_msgs = rev (take 200 xs)"
    using got by (auto simp: list_conversation_after_def latest_messages_def sql_limit_def page_size_def)
  note law = sql_select_law [OF gateway_db_lawsD(8) [OF service_db_lawsD(1) [OF laws]] xs(1)]
  have rows: "mset xs = mset ?rows"
    using law by (simp add: session_messages_def filter_filter conj_commute)
  have "length ?rows \<le> 200" using length_filter_le few by (rule le_trans)
  then have rev: "tail_msgs = rev xs" using xs(2) mset_eq_length [OF rows] by simp
  have "sorted (map mr_seq (rev xs))"
    using law by (auto simp: sorted_map sorted_wrt_rev elim!: sorted_wrt_mono_rel [rotated])
  moreover have "distinct (map mr_seq (rev xs))"
  proof -
    have "distinct (map mr_seq ?rows)" by (rule distinct_map_filter [OF seqs])
    moreover have "mset (map mr_seq (rev xs)) = mset (map mr_seq ?rows)" by (simp add: rows)
    ultimately show ?thesis using mset_eq_imp_distinct_iff by blast
  qed
  ultimately show "ascending tail_msgs" using rev ascending_if by simp
  show "mset tail_msgs = mset ?rows" using rows rev by simp
qed

lemma get_session_id: "service_db_laws D V \<Longrightarrow> get_session (sd_core D) d i = Some s \<Longrightarrow> ss_id s = i"
  using sql_first_Found(2) [OF gateway_db_lawsD(24) [OF service_db_lawsD(1)]]
  by (fastforce simp: get_session_def)


subsection \<open>Witnesses\<close>


definition sample_message :: "nat \<Rightarrow> string \<Rightarrow> message_row" where
  "sample_message i role =
     \<lparr>mr_id = nat_digits i, mr_session_id = ''s'', mr_role = role,
      mr_content_json = [\<lparr>cb_type = ''text'', cb_text = ''hi''\<rparr>], mr_seq = i, mr_run_id = ''r'',
      mr_source_message_id = [], mr_metadata_json = [], mr_created_at = 0\<rparr>"

definition sample_session :: "message_row list \<Rightarrow> service_rows" where
  "sample_session ms = empty_service_rows\<lparr>vw_core := empty_rows
     \<lparr>row_sessions := [new_session_row ''s'' ''s'' [] 0], row_messages := ms\<rparr>\<rparr>"

definition sample_compact_request :: compact_request where
  "sample_compact_request =
     \<lparr>cq_range = \<lparr>sr_start = 0, sr_end = 0\<rparr>, cq_keep_messages = 0, cq_keep_turns = 1, cq_mode = [],
      cq_profile = [], cq_summary = summary_of_text ''done''\<rparr>"

definition offline_env :: compact_env where
  "offline_env = \<lparr>ce_send = (\<lambda>q. Http_Failed []), ce_write = (\<lambda>v. []), ce_read_contents = (\<lambda>t. None),
     ce_read_summary = (\<lambda>t. None), ce_print = (\<lambda>v. [])\<rparr>"

definition three_messages :: "message_row list" where
  "three_messages = [sample_message 1 ''user'', sample_message 2 ''assistant'', sample_message 3 ''user'']"

lemmas mem_service_simps = mem_service_db_def widen_db_def mem_db_def sample_session_def
  empty_service_rows_def empty_rows_def

lemma sample_list: "list_messages (sd_core mem_service_db) (sample_session three_messages) ''s'' 5000 = Some three_messages"
  by (simp add: list_messages_def sql_limit_def mem_service_simps three_messages_def sample_message_def page_size_def)

lemma sample_plan: "plan_by_turns three_messages 0 1 =
    \<lparr>pl_start = 1, pl_end = 2, pl_keep_tail_messages = 1, pl_keep_tail_turns = 1,
     pl_summarize = [sample_message 1 ''user'', sample_message 2 ''assistant''],
     pl_tail = [sample_message 3 ''user'']\<rparr>"
  by (simp add: plan_by_turns_def tail_index_def user_indices_def three_messages_def sample_message_def
      first_message_seq_def last_message_seq_def upt_rec)

lemma sample_pause:
  "pause_session_for_compact mem_service_db (\<lambda>i. 7) None (sample_session three_messages) ''s''
     = (sample_session three_messages, Inr 0)"
  by (simp add: pause_session_for_compact_def pause_by_session_def active_goal_def session_goal_in_def list_active_by_session_def Let_def
      sql_first_def sql_limit_def mem_service_simps page_size_def)

lemma sample_compact:
  "\<exists>d' r. compact_session mem_service_db (\<lambda>i. 7) None offline_env (sample_session three_messages) ''s''
     sample_compact_request = (d', Inr r) \<and> vw_core d' = (vw_core (sample_session three_messages))
       \<lparr>row_sessions := [(new_session_row ''s'' ''s'' [] 0)\<lparr>ss_updated_at := 7\<rparr>]\<rparr>
     \<and> vw_compactions d' = [cr_compaction r] \<and> applied_in_place ''s'' (cr_compaction r)"
proof -
  have t: "trim_space ''done'' = ''done''" by code_simp
  have get: "get_session (sd_core mem_service_db) (sample_session three_messages) ''s'' = Some (new_session_row ''s'' ''s'' [] 0)"
    by (simp add: get_session_def sql_first_def mem_service_simps new_session_row_def)
  have plan: "plan_compaction mem_service_db (sample_session three_messages) ''s'' \<lparr>sr_start = 0, sr_end = 0\<rparr> 0 1
      = Inr (plan_by_turns three_messages 0 1)"
    by (simp add: plan_compaction_def sample_list) (simp add: three_messages_def)
  have s: "compact_summary_for mem_service_db offline_env (sample_session three_messages) ''s''
      (plan_by_turns three_messages 0 1) sample_compact_request = Inr (summary_of_text ''done'')"
    by (simp add: compact_summary_for_def sample_compact_request_def summary_of_text_def t ensure_open_tasks_def
        list_open_todos_def mem_service_simps)
  show ?thesis
    by (simp add: compact_session_def get sample_pause sample_compact_request_def plan
        s [unfolded sample_compact_request_def] new_session_row_def)
       (simp add: apply_compaction_def supersede_applied_in_place_def create_compaction_def touch_session_def
        get_session_def sql_first_def mem_service_simps new_session_row_def applied_in_place_def mem_table_def
        list_table_def embed_table_def Let_def zero_time_def)
qed

lemma mem_conversation: "\<exists>conv. build_run_conversation mem_service_db d session = Some conv"
proof -
  have "\<exists>h. list_latest_conversation (sd_core mem_service_db) d session 200 = Some h"
    "\<exists>h. list_conversation_after (sd_core mem_service_db) d session n 200 = Some h" for n
    by (simp_all add: list_latest_conversation_def list_conversation_after_def latest_messages_def sql_limit_def
        mem_service_db_def widen_db_def mem_db_def)
  moreover have "latest_applied_in_place mem_service_db d session \<noteq> Read_Error"
    by (simp add: latest_applied_in_place_def sql_first_def mem_service_db_def split: list.splits)
  ultimately show ?thesis
    unfolding build_run_conversation_def by (auto split: first_result.split option.split)
qed


definition many_messages :: "message_row list" where
  "many_messages = map (\<lambda>i. sample_message i ''user'') [0..<201]"

theorem compaction_reads_oldest_200_witness:
  "\<exists>plan. plan_compaction mem_service_db (sample_session many_messages) ''s'' \<lparr>sr_start = 0, sr_end = 0\<rparr> 0 1 = Inr plan
     \<and> sample_message 200 ''user'' \<notin> set (pl_summarize plan) \<union> set (pl_tail plan)"
proof -
  have rows: "session_messages (sample_session many_messages) ''s'' = many_messages"
    by (simp add: session_messages_def sample_session_def many_messages_def filter_map comp_def sample_message_def)
  have split: "[0..<201] = [0..<200] @ [200 :: nat]" by (simp add: upt_Suc_append [of 0 200, simplified])
  have older: "200 \<le> length (filter (\<lambda>r. mr_seq r < mr_seq (sample_message 200 ''user''))
      (session_messages (sample_session many_messages) ''s''))"
    unfolding rows unfolding many_messages_def split by (simp add: filter_map comp_def sample_message_def)
  obtain ms where ms: "list_messages (sd_core mem_service_db) (sample_session many_messages) ''s'' 5000 = Some ms"
    by (simp add: list_messages_def sql_limit_def mem_service_db_def widen_db_def mem_db_def)
  obtain xs where xs: "ms = take 200 xs" "mset xs = mset many_messages"
    using list_messages_rows [OF mem_service_db_laws ms] rows by (auto simp: page_size_def)
  have "ms \<noteq> []" using mset_eq_length [OF xs(2)] xs(1) by (auto simp: many_messages_def)
  then obtain plan where plan: "plan_compaction mem_service_db (sample_session many_messages) ''s''
      \<lparr>sr_start = 0, sr_end = 0\<rparr> 0 1 = Inr plan"
    by (simp add: plan_compaction_def ms)
  from compaction_reads_oldest_200 [OF mem_service_db_laws this older] plan show ?thesis by blast
qed

end
