(* ===== verification/Agent_Definitions.thy ===== *)
theory Agent_Definitions
  imports Service_Db
begin

text \<open>
  Definitions of agents: \<^verbatim>\<open>repository/agent_definition.go\<close> and \<^verbatim>\<open>service/agent_definition.go\<close>. The
  specialists of the goal pipeline are seeded again before every read; other agents are custom. The
  DTO of an agent is its row.
\<close>

subsection \<open>Repository\<close>

definition live_agent :: "agent_row \<Rightarrow> bool" where
  "live_agent r \<longleftrightarrow> ad_deleted_at r = None"

definition create_agent :: "'d service_db \<Rightarrow> int \<Rightarrow> 'd \<Rightarrow> agent_row \<Rightarrow> ('d \<times> agent_row) option" where
  "create_agent D now d row0 =
     (let key = trim_space (ad_row_key row0);
          row = row0\<lparr>ad_id := (if trim_space (ad_id row0) = [] then ''agent_'' @ int_dec now else ad_id row0),
                     ad_row_key := key,
                     ad_row_name := (if trim_space (ad_row_name row0) = [] then key else ad_row_name row0),
                     ad_kind := (if ad_kind row0 = [] then ''custom'' else ad_kind row0),
                     ad_row_phase := (if ad_row_phase row0 = [] then ''custom'' else ad_row_phase row0),
                     ad_created_at := now, ad_updated_at := now, ad_deleted_at := None\<rparr>
      in if key = [] then None
         else map_option (\<lambda>d'. (d', row)) (sql_insert (sd_agents D) d [row]))"

definition first_agent :: "'d service_db \<Rightarrow> 'd \<Rightarrow> (agent_row \<Rightarrow> bool) \<Rightarrow> agent_row first_result" where
  "first_agent D d P = sql_first (sd_agents D) d (\<lambda>r. P r \<and> live_agent r) (\<lambda>r. [(0, ad_id r)])"

definition get_agent :: "'d service_db \<Rightarrow> 'd \<Rightarrow> string \<Rightarrow> agent_row option" where
  "get_agent D d i = row_found (first_agent D d (\<lambda>r. ad_id r = i))"

definition get_agent_by_key :: "'d service_db \<Rightarrow> 'd \<Rightarrow> string \<Rightarrow> agent_row option" where
  "get_agent_by_key D d key = row_found (first_agent D d (\<lambda>r. ad_row_key r = trim_space key))"

text \<open>
  What seeding keeps of a stored builtin: the switch, and all edits if the prompt was edited.
\<close>

definition reseeded :: "int \<Rightarrow> agent_row \<Rightarrow> agent_row \<Rightarrow> agent_row" where
  "reseeded now current row0 =
     (let row = row0\<lparr>ad_id := ad_id current, ad_created_at := ad_created_at current, ad_updated_at := now\<rparr>
      in if \<not> ad_row_builtin row0 then row
         else let kept = row\<lparr>ad_row_enabled := ad_row_enabled current\<rparr>
              in if trim_space (ad_row_prompt current) \<noteq> [] \<and> ad_row_prompt current \<noteq> ad_row_prompt row0
                 then kept\<lparr>ad_row_prompt := ad_row_prompt current, ad_row_max_turns := ad_row_max_turns current,
                           ad_description := ad_description current, ad_row_name := ad_row_name current,
                           ad_row_name_zh := ad_row_name_zh current,
                           ad_row_allowlist := ad_row_allowlist current,
                           ad_row_denylist := ad_row_denylist current\<rparr>
                 else kept)"

definition upsert_agent_by_key :: "'d service_db \<Rightarrow> int \<Rightarrow> 'd \<Rightarrow> agent_row \<Rightarrow> ('d \<times> agent_row) option" where
  "upsert_agent_by_key D now d row0 =
     (let row = row0\<lparr>ad_row_key := trim_space (ad_row_key row0)\<rparr>
      in if ad_row_key row = [] then None
         else case first_agent D d (\<lambda>r. ad_row_key r = ad_row_key row) of
                Not_Found \<Rightarrow> create_agent D now d row
              | Read_Error \<Rightarrow> None
              | Found current \<Rightarrow>
                  map_option (\<lambda>d'. (d', reseeded now current row))
                    (sql_save (sd_agents D) d (reseeded now current row)))"

definition merged_agent :: "int \<Rightarrow> agent_row \<Rightarrow> agent_row \<Rightarrow> agent_row" where
  "merged_agent now current row = current
     \<lparr>ad_row_name := ad_row_name row, ad_row_name_zh := ad_row_name_zh row, ad_row_phase := ad_row_phase row,
      ad_description := ad_description row, ad_row_prompt := ad_row_prompt row,
      ad_row_allowlist := ad_row_allowlist row, ad_row_denylist := ad_row_denylist row,
      ad_row_max_turns := ad_row_max_turns row, ad_row_enabled := ad_row_enabled row,
      ad_sort_order := ad_sort_order row, ad_metadata_json := ad_metadata_json row, ad_updated_at := now\<rparr>"

definition update_agent :: "'d service_db \<Rightarrow> int \<Rightarrow> 'd \<Rightarrow> agent_row \<Rightarrow> ('d \<times> agent_row) option" where
  "update_agent D now d row =
     (case get_agent D d (ad_id row) of
        None \<Rightarrow> None
      | Some current \<Rightarrow>
          map_option (\<lambda>d'. (d', merged_agent now current row))
            (sql_save (sd_agents D) d (merged_agent now current row)))"

definition agent_order :: "agent_row \<Rightarrow> order_key" where
  "agent_order r = [(ad_sort_order r, []), (ad_created_at r, [])]"

definition list_agents :: "'d service_db \<Rightarrow> 'd \<Rightarrow> int \<Rightarrow> agent_row list option" where
  "list_agents D d n = sql_limit (sd_agents D) d live_agent agent_order (page_size n 500 200)"

definition list_enabled_agents :: "'d service_db \<Rightarrow> 'd \<Rightarrow> int \<Rightarrow> agent_row list option" where
  "list_enabled_agents D d n =
     sql_limit (sd_agents D) d (\<lambda>r. live_agent r \<and> ad_row_enabled r) agent_order (page_size n 500 200)"

definition soft_delete_agent :: "'d service_db \<Rightarrow> int \<Rightarrow> 'd \<Rightarrow> string \<Rightarrow> 'd \<times> (svc_error + unit)" where
  "soft_delete_agent D now d i =
     (case get_agent D d i of
        None \<Rightarrow> (d, Inl Db_Error)
      | Some current \<Rightarrow>
          if ad_row_builtin current
          then (d, Inl (Svc_Error (''builtin agent '' @ go_quote (ad_row_key current) @ '' cannot be deleted'')))
          else or_fail (sql_update (sd_agents D) d (\<lambda>r. ad_id r = i)
                  (\<lambda>r. r\<lparr>ad_deleted_at := Some now, ad_updated_at := now\<rparr>)) Db_Error d (\<lambda>(d', _). (d', Inr ())))"

subsection \<open>Normalisation\<close>

definition agent_max_prompt_runes :: nat where "agent_max_prompt_runes = 20000"
definition agent_max_desc_runes :: nat where "agent_max_desc_runes = 2000"
definition agent_max_turns_cap :: int where "agent_max_turns_cap = 48"

definition agent_key_char :: "char \<Rightarrow> bool" where
  "agent_key_char c \<longleftrightarrow>
     (CHR ''a'' \<le> c \<and> c \<le> CHR ''z'') \<or> (CHR ''0'' \<le> c \<and> c \<le> CHR ''9'') \<or> c = CHR ''-''"

definition normalize_agent_key :: "string \<Rightarrow> svc_error + string" where
  "normalize_agent_key raw =
     (let key = replace_all (replace_all (trim_space (to_lower raw)) ''_'' ''-'') '' '' ''-''
      in if key = [] then Inl (Svc_Error ''key is required'')
         else if \<not> list_all agent_key_char key
         then Inl (Svc_Error ''key must be lowercase letters, digits, or hyphens'')
         else if length key > 64 then Inl (Svc_Error ''key too long'')
         else Inr key)"

definition agent_phases :: "string list" where
  "agent_phases = [''analyze'', ''plan'', ''execute'', ''verify'', ''evaluate'', ''general'', ''custom'']"

definition normalize_agent_phase :: "string \<Rightarrow> string" where
  "normalize_agent_phase raw =
     (let p = to_lower (trim_space raw) in if p \<in> set agent_phases then p else ''custom'')"

definition normalize_agent_max_turns :: "int \<Rightarrow> int" where
  "normalize_agent_max_turns n = (if n \<le> 0 then 12 else if n > agent_max_turns_cap then agent_max_turns_cap else n)"

fun clean_items :: "string list \<Rightarrow> string list \<Rightarrow> string list" where
  "clean_items [] out = out"
| "clean_items (i # is) out =
     (if trim_space i = [] \<or> trim_space i \<in> set out then clean_items is out
      else clean_items is (out @ [trim_space i]))"

definition clean_string_list :: "string list \<Rightarrow> string list" where
  "clean_string_list items = clean_items items []"

definition default_agent_denylist :: "string list" where
  "default_agent_denylist =
     [''goal.write'', ''goal.update'', ''goal.checkpoint'', ''goal.complete'', ''goal.list'',
      ''todo.write'', ''todo.list'',
      ''subagent.run'', ''subagent.list'', ''subagent.cancel'', ''subagent.reset'']"

definition append_default_agent_denylist :: "string list \<Rightarrow> string list" where
  "append_default_agent_denylist items = clean_string_list (items @ default_agent_denylist)"

definition clamp_runes :: "string \<Rightarrow> nat \<Rightarrow> svc_error + string" where
  "clamp_runes v m =
     (if m = 0 \<or> rune_count v \<le> m then Inr v
      else Inl (Svc_Error (''text exceeds '' @ nat_digits m @ '' runes'')))"

subsection \<open>Builtin agents\<close>

definition readonly_deny :: "string list" where
  "readonly_deny =
     [''workspace.write_file'', ''workspace.edit_file'', ''workspace.apply_patch'',
      ''goal.write'', ''goal.update'', ''goal.checkpoint'', ''goal.complete'', ''goal.list'',
      ''todo.write'', ''todo.list'',
      ''subagent.run'', ''subagent.list'', ''subagent.cancel'', ''subagent.reset'',
      ''skill.run'', ''skill.create'', ''skill.update'']"

definition implement_deny :: "string list" where
  "implement_deny =
     [''goal.write'', ''goal.update'', ''goal.checkpoint'', ''goal.complete'', ''goal.list'',
      ''todo.write'', ''todo.list'',
      ''subagent.run'', ''subagent.list'', ''subagent.cancel'', ''subagent.reset'',
      ''skill.run'', ''skill.create'', ''skill.update'',
      ''web.search'', ''web.fetch'']"

definition seed_row ::
  "string \<Rightarrow> string \<Rightarrow> string \<Rightarrow> string \<Rightarrow> string \<Rightarrow> int \<Rightarrow> int \<Rightarrow> string \<Rightarrow> string \<Rightarrow> string list \<Rightarrow> agent_row" where
  "seed_row i key name zh stage order turns description prompt deny =
     \<lparr>ad_id = i, ad_row_key = key, ad_row_name = name, ad_row_name_zh = zh, ad_kind = ''builtin'',
      ad_row_phase = stage, ad_description = description, ad_row_prompt = prompt, ad_row_allowlist = [],
      ad_row_denylist = deny, ad_row_max_turns = turns, ad_row_enabled = True, ad_row_builtin = True,
      ad_sort_order = order, ad_metadata_json = [], ad_created_at = zero_time, ad_updated_at = zero_time,
      ad_deleted_at = None\<rparr>"

definition seed_goal_analyst :: agent_row where
  "seed_goal_analyst = seed_row ''agent_builtin_goal_analyst'' ''goal-analyst'' ''Goal Analyst''
     (utf8 [0xE7, 0x9B, 0xAE, 0xE6, 0xA0, 0x87, 0xE5, 0x88, 0x86, 0xE6, 0x9E, 0x90, 0xE5, 0xB8]
        @ utf8 [0x88])
     ''analyze'' 10 12
     (utf8 [0xE5, 0x88, 0x86, 0xE6, 0x9E, 0x90, 0xE7, 0x94, 0xA8, 0xE6, 0x88, 0xB7, 0xE8, 0xBE]
        @ utf8 [0x93, 0xE5, 0x85, 0xA5, 0xE4, 0xB8, 0x8E, 0xE5, 0xB7, 0xA5, 0xE4, 0xBD, 0x9C, 0xE5]
        @ utf8 [0x8C, 0xBA, 0xEF, 0xBC, 0x9A, 0xE6, 0x84, 0x8F, 0xE5, 0x9B, 0xBE, 0xE3, 0x80, 0x81]
        @ utf8 [0xE8, 0x8C, 0x83, 0xE5, 0x9B, 0xB4, 0xE3, 0x80, 0x81, 0xE7, 0xBA, 0xA6, 0xE6, 0x9D]
        @ utf8 [0x9F, 0xE4, 0xB8, 0x8E, 0xE6, 0x88, 0x90, 0xE5, 0x8A, 0x9F, 0xE4, 0xBF, 0xA1, 0xE5]
        @ utf8 [0x8F, 0xB7, 0xE3, 0x80, 0x82, 0xE5, 0x8F, 0xAA, 0xE8, 0xAF, 0xBB, 0xEF, 0xBC, 0x8C]
        @ utf8 [0xE4, 0xB8, 0x8D, 0xE6, 0x94, 0xB9, 0xE4, 0xBB, 0x93, 0xE5, 0xBA, 0x93, 0xE3, 0x80]
        @ utf8 [0x82])
     (''You are goal-analyst for red_panda. Read-only. Produce structured ''
        @ ''AnalysisReport JSON: intent, in_scope, out_of_scope, constraints, ''
        @ ''success_signals, risks, suggested_approach, trivial, key_paths. Do not ''
        @ ''modify files. Do not claim work is done.'')
     (''shell.exec'' # readonly_deny)"

definition seed_goal_planner :: agent_row where
  "seed_goal_planner = seed_row ''agent_builtin_goal_planner'' ''goal-planner'' ''Goal Planner''
     (utf8 [0xE7, 0x9B, 0xAE, 0xE6, 0xA0, 0x87, 0xE8, 0xA7, 0x84, 0xE5, 0x88, 0x92, 0xE5, 0xB8]
        @ utf8 [0x88])
     ''plan'' 20 8
     (utf8 [0xE5, 0xB0, 0x86, 0xE5, 0x88, 0x86, 0xE6, 0x9E, 0x90, 0xE7, 0xBB, 0x93, 0xE6, 0x9E]
        @ utf8 [0x9C, 0xE6, 0x8B, 0x86, 0xE6, 0x88, 0x90, 0xE5, 0x8F, 0xAF, 0xE9, 0xAA, 0x8C, 0xE8]
        @ utf8 [0xAF, 0x81, 0xE6, 0xAD, 0xA5, 0xE9, 0xAA, 0xA4, 0xE4, 0xB8, 0x8E, 0xE6, 0x88, 0x90]
        @ utf8 [0xE5, 0x8A, 0x9F, 0xE6, 0xA0, 0x87, 0xE5, 0x87, 0x86, 0xE8, 0x8D, 0x89, 0xE6, 0xA1]
        @ utf8 [0x88, 0xE3, 0x80, 0x82, 0xE5, 0x8F, 0xAA, 0xE8, 0xAF, 0xBB, 0xEF, 0xBC, 0x9B, 0xE7]
        @ utf8 [0x94, 0xB1]
        @ '' root ''
        @ utf8 [0xE5, 0x86, 0x99, 0xE5, 0x85, 0xA5]
        @ '' goal/todo''
        @ utf8 [0xE3, 0x80, 0x82])
     (''You are goal-planner. Read-only. Output PlanReport JSON: title, objective, ''
        @ ''success_criteria, steps[{id,content,verify_hint}], notes. Do not write ''
        @ ''files or call goal/todo tools.'')
     (''shell.exec'' # readonly_deny)"

definition seed_goal_implementer :: agent_row where
  "seed_goal_implementer = seed_row ''agent_builtin_goal_implementer'' ''goal-implementer'' ''Goal Implementer''
     (utf8 [0xE7, 0x9B, 0xAE, 0xE6, 0xA0, 0x87, 0xE5, 0xAE, 0x9E, 0xE6, 0x96, 0xBD, 0xE8, 0x80]
        @ utf8 [0x85])
     ''execute'' 30 24
     (utf8 [0xE4, 0xBB, 0x85, 0xE6, 0x89, 0xA7, 0xE8, 0xA1, 0x8C, 0xE5, 0xBD, 0x93, 0xE5, 0x89]
        @ utf8 [0x8D]
        @ '' in_progress ''
        @ utf8 [0xE6, 0xAD, 0xA5, 0xE9, 0xAA, 0xA4, 0xEF, 0xBC, 0x9B, 0xE6, 0x9C, 0x80, 0xE5, 0xB0]
        @ utf8 [0x8F, 0xE6, 0x94, 0xB9, 0xE5, 0x8A, 0xA8, 0xE5, 0xB9, 0xB6, 0xE6, 0x8A, 0xA5, 0xE5]
        @ utf8 [0x91, 0x8A, 0xE5, 0x8F, 0x98, 0xE6, 0x9B, 0xB4, 0xE3, 0x80, 0x82])
     (''You are goal-implementer. Do ONLY the assigned current step. Prefer minimal ''
        @ ''diffs. End with ImplementationReport JSON: step_id, done_claim, changes, ''
        @ ''commands_run, blockers, notes_for_verifier.'')
     (implement_deny)"

definition seed_goal_verifier :: agent_row where
  "seed_goal_verifier = seed_row ''agent_builtin_goal_verifier'' ''goal-verifier'' ''Goal Verifier''
     (utf8 [0xE7, 0x9B, 0xAE, 0xE6, 0xA0, 0x87, 0xE9, 0xAA, 0x8C, 0xE8, 0xAF, 0x81, 0xE8, 0x80]
        @ utf8 [0x85])
     ''verify'' 40 12
     (utf8 [0xE7, 0x94, 0xA8, 0xE6, 0xB5, 0x8B, 0xE8, 0xAF, 0x95]
        @ ''/''
        @ utf8 [0xE8, 0xAF, 0xBB, 0xE5, 0x9B, 0x9E, 0xE9, 0xAA, 0x8C, 0xE8, 0xAF, 0x81, 0xE5, 0xBD]
        @ utf8 [0x93, 0xE5, 0x89, 0x8D, 0xE6, 0xAD, 0xA5, 0xE9, 0xAA, 0xA4, 0xEF, 0xBC, 0x9B, 0xE9]
        @ utf8 [0xBB, 0x98, 0xE8, 0xAE, 0xA4, 0xE4, 0xB8, 0x8D, 0xE6, 0x94, 0xB9, 0xE4, 0xB8, 0x9A]
        @ utf8 [0xE5, 0x8A, 0xA1, 0xE4, 0xBB, 0xA3, 0xE7, 0xA0, 0x81, 0xE3, 0x80, 0x82])
     (''You are goal-verifier. Be skeptical. Gather evidence via read/tests. Output ''
        @ ''VerifyReport JSON: step_id, passed, evidence, failures, retry_suggestion. ''
        @ ''Do not edit product source in v1.'')
     ([''workspace.write_file'', ''workspace.edit_file'', ''workspace.apply_patch''] @ readonly_deny)"

definition seed_goal_evaluator :: agent_row where
  "seed_goal_evaluator = seed_row ''agent_builtin_goal_evaluator'' ''goal-evaluator'' ''Goal Evaluator''
     (utf8 [0xE7, 0x9B, 0xAE, 0xE6, 0xA0, 0x87, 0xE7, 0xBB, 0x88, 0xE8, 0xAF, 0x84, 0xE5, 0xAE]
        @ utf8 [0x98])
     ''evaluate'' 50 8
     (utf8 [0xE5, 0xAF, 0xB9, 0xE7, 0x85, 0xA7, 0xE6, 0x88, 0x90, 0xE5, 0x8A, 0x9F, 0xE6, 0xA0]
        @ utf8 [0x87, 0xE5, 0x87, 0x86, 0xE7, 0xBB, 0x88, 0xE8, 0xAF, 0x84, 0xE5, 0xB9, 0xB6, 0xE8]
        @ utf8 [0xB5, 0xB7, 0xE8, 0x8D, 0x89, 0xE5, 0xAE, 0x8C, 0xE6, 0x88, 0x90, 0xE6, 0x8A, 0xA5]
        @ utf8 [0xE5, 0x91, 0x8A]
        @ '' Markdown''
        @ utf8 [0xE3, 0x80, 0x82])
     (''You are goal-evaluator. Compare all evidence to success_criteria. Output ''
        @ ''EvaluationReport JSON: verdict(succeeded|partial|failed), criteria[], ''
        @ ''steps_summary[], risks, followups, report_markdown. Do not write files.'')
     (''shell.exec'' # readonly_deny)"

definition builtin_agent_seeds :: "agent_row list" where
  "builtin_agent_seeds = [seed_goal_analyst, seed_goal_planner, seed_goal_implementer, seed_goal_verifier, seed_goal_evaluator]"

fun upsert_agents :: "'d service_db \<Rightarrow> int \<Rightarrow> 'd \<Rightarrow> agent_row list \<Rightarrow> 'd \<times> bool" where
  "upsert_agents D now d [] = (d, True)"
| "upsert_agents D now d (seed # seeds) =
     (case upsert_agent_by_key D now d seed of
        None \<Rightarrow> (d, False)
      | Some (d1, _) \<Rightarrow> upsert_agents D now d1 seeds)"

definition ensure_builtins :: "'d service_db \<Rightarrow> int \<Rightarrow> 'd \<Rightarrow> 'd \<times> bool" where
  "ensure_builtins D now d = upsert_agents D now d builtin_agent_seeds"

subsection \<open>Service\<close>

record agent_create =
  ac_key :: string
  ac_create_name :: string
  ac_name_zh :: string
  ac_phase :: string
  ac_description :: string
  ac_prompt :: string
  ac_allowlist :: "string list"
  ac_denylist :: "string list"
  ac_max_turns :: int
  ac_enabled :: "bool option"
  ac_sort_order :: int

record agent_update =
  au_name :: "string option"
  au_name_zh :: "string option"
  au_phase :: "string option"
  au_description :: "string option"
  au_prompt :: "string option"
  au_allowlist :: "string list option"
  au_denylist :: "string list option"
  au_max_turns :: "int option"
  au_enabled :: "bool option"
  au_sort_order :: "int option"

definition option_or :: "'a \<Rightarrow> 'a option \<Rightarrow> 'a" where
  "option_or old new = (case new of None \<Rightarrow> old | Some v \<Rightarrow> v)"

definition new_agent_row :: "agent_create \<Rightarrow> string \<Rightarrow> string \<Rightarrow> string \<Rightarrow> agent_row" where
  "new_agent_row inp key description prompt =
     \<lparr>ad_id = [], ad_row_key = key, ad_row_name = trim_space (ac_create_name inp),
      ad_row_name_zh = trim_space (ac_name_zh inp), ad_kind = ''custom'',
      ad_row_phase = normalize_agent_phase (ac_phase inp), ad_description = description,
      ad_row_prompt = prompt, ad_row_allowlist = clean_string_list (ac_allowlist inp),
      ad_row_denylist = append_default_agent_denylist (clean_string_list (ac_denylist inp)),
      ad_row_max_turns = normalize_agent_max_turns (ac_max_turns inp),
      ad_row_enabled = option_or True (ac_enabled inp), ad_row_builtin = False,
      ad_sort_order = ac_sort_order inp, ad_metadata_json = [], ad_created_at = zero_time,
      ad_updated_at = zero_time, ad_deleted_at = None\<rparr>"

definition agent_service_create ::
  "'d service_db \<Rightarrow> int \<Rightarrow> 'd \<Rightarrow> agent_create \<Rightarrow> 'd \<times> (svc_error + agent_row)" where
  "agent_service_create D now d inp =
     (case normalize_agent_key (ac_key inp) of
        Inl e \<Rightarrow> (d, Inl e)
      | Inr key \<Rightarrow>
          if has_prefix key ''goal-''
          then (d, Inl (Svc_Error ''key prefix goal- is reserved for builtin specialists''))
          else case clamp_runes (trim_space (ac_description inp)) agent_max_desc_runes of
                 Inl e \<Rightarrow> (d, Inl e)
               | Inr description \<Rightarrow>
                   (case clamp_runes (trim_space (ac_prompt inp)) agent_max_prompt_runes of
                      Inl e \<Rightarrow> (d, Inl e)
                    | Inr prompt \<Rightarrow>
                        or_fail (create_agent D now d (new_agent_row inp key description prompt)) Db_Error d
                          (\<lambda>(d1, r). (d1, Inr r))))"

definition clamped_change :: "string option \<Rightarrow> nat \<Rightarrow> string \<Rightarrow> svc_error + string" where
  "clamped_change new m old = (case new of None \<Rightarrow> Inr old | Some v \<Rightarrow> clamp_runes (trim_space v) m)"

definition updated_agent :: "agent_row \<Rightarrow> agent_update \<Rightarrow> svc_error + agent_row" where
  "updated_agent current inp =
     bind_result (clamped_change (au_description inp) agent_max_desc_runes (ad_description current)) (\<lambda>description.
     bind_result (clamped_change (au_prompt inp) agent_max_prompt_runes (ad_row_prompt current)) (\<lambda>prompt.
       Inr (current
         \<lparr>ad_row_name := option_or (ad_row_name current) (map_option trim_space (au_name inp)),
          ad_row_name_zh := option_or (ad_row_name_zh current) (map_option trim_space (au_name_zh inp)),
          ad_row_phase := (if ad_row_builtin current then ad_row_phase current
                           else option_or (ad_row_phase current) (map_option normalize_agent_phase (au_phase inp))),
          ad_description := description, ad_row_prompt := prompt,
          ad_row_allowlist := option_or (ad_row_allowlist current) (map_option clean_string_list (au_allowlist inp)),
          ad_row_denylist := option_or (ad_row_denylist current)
            (map_option (\<lambda>l. append_default_agent_denylist (clean_string_list l)) (au_denylist inp)),
          ad_row_max_turns := option_or (ad_row_max_turns current)
            (map_option normalize_agent_max_turns (au_max_turns inp)),
          ad_row_enabled := option_or (ad_row_enabled current) (au_enabled inp),
          ad_sort_order := option_or (ad_sort_order current) (au_sort_order inp)\<rparr>)))"

definition agent_service_update ::
  "'d service_db \<Rightarrow> int \<Rightarrow> 'd \<Rightarrow> string \<Rightarrow> agent_update \<Rightarrow> 'd \<times> (svc_error + agent_row)" where
  "agent_service_update D now d i inp =
     or_fail (get_agent D d i) Db_Error d (\<lambda>current.
       case updated_agent current inp of
         Inl e \<Rightarrow> (d, Inl e)
       | Inr row \<Rightarrow> or_fail (update_agent D now d row) Db_Error d (\<lambda>(d1, r). (d1, Inr r)))"

text \<open>Each read seeds the builtin agents first.\<close>

definition seeded_read :: "'d service_db \<Rightarrow> int \<Rightarrow> 'd \<Rightarrow> ('d \<Rightarrow> 'a option) \<Rightarrow> 'd \<times> 'a option" where
  "seeded_read D now d read =
     (case ensure_builtins D now d of (d1, ok) \<Rightarrow> (d1, if ok then read d1 else None))"

definition agent_service_list :: "'d service_db \<Rightarrow> int \<Rightarrow> 'd \<Rightarrow> 'd \<times> agent_row list option" where
  "agent_service_list D now d = seeded_read D now d (\<lambda>d1. list_agents D d1 200)"

definition agent_service_list_enabled :: "'d service_db \<Rightarrow> int \<Rightarrow> 'd \<Rightarrow> 'd \<times> agent_row list option" where
  "agent_service_list_enabled D now d = seeded_read D now d (\<lambda>d1. list_enabled_agents D d1 200)"

definition agent_service_get :: "'d service_db \<Rightarrow> int \<Rightarrow> 'd \<Rightarrow> string \<Rightarrow> 'd \<times> agent_row option" where
  "agent_service_get D now d i = seeded_read D now d (\<lambda>d1. get_agent D d1 i)"

definition agent_service_get_by_key :: "'d service_db \<Rightarrow> int \<Rightarrow> 'd \<Rightarrow> string \<Rightarrow> 'd \<times> agent_row option" where
  "agent_service_get_by_key D now d key = seeded_read D now d (\<lambda>d1. get_agent_by_key D d1 key)"

datatype agent_call =
    Agent_List
  | Agent_List_Enabled
  | Agent_Get string
  | Agent_Get_By_Key string
  | Agent_Create agent_create
  | Agent_Update string agent_update
  | Agent_Delete string

fun run_agent_call :: "'d service_db \<Rightarrow> int \<Rightarrow> 'd \<Rightarrow> agent_call \<Rightarrow> 'd" where
  "run_agent_call D now d Agent_List = fst (agent_service_list D now d)"
| "run_agent_call D now d Agent_List_Enabled = fst (agent_service_list_enabled D now d)"
| "run_agent_call D now d (Agent_Get i) = fst (agent_service_get D now d i)"
| "run_agent_call D now d (Agent_Get_By_Key key) = fst (agent_service_get_by_key D now d key)"
| "run_agent_call D now d (Agent_Create inp) = fst (agent_service_create D now d inp)"
| "run_agent_call D now d (Agent_Update i inp) = fst (agent_service_update D now d i inp)"
| "run_agent_call D now d (Agent_Delete i) = fst (soft_delete_agent D now d i)"

end
