(* ===== verification/Run_Start.thy ===== *)
theory Run_Start
  imports Workers Session_Service Agent_Definitions
begin

text \<open>
  The start of a run after its admission, and the two requests that start a run for a goal
  (\<^verbatim>\<open>Start\<close>, \<^verbatim>\<open>StartGoal\<close> and \<^verbatim>\<open>ContinueGoal\<close> of \<^verbatim>\<open>service/run.go\<close>): the conversation, the options of the
  reply from the request, the environment and the tables, and the call of the runtime. The runtime is
  a parameter, with what the other handlers do to the database during the call.
\<close>

subsection \<open>Parameters of a reply\<close>

record run_memory_item =
  rm_id :: string
  rm_scope :: string
  rm_kind :: string
  rm_title :: string
  rm_content :: string

record run_options =
  ro_profile_id :: string
  ro_provider_name :: string
  ro_base_url :: string
  ro_api_key :: string
  ro_model :: string
  ro_permission_mode :: string
  ro_tool_policy :: string
  ro_allowlist :: "string list"
  ro_denylist :: "string list"
  ro_emit_tool_events :: bool
  ro_require_permission :: bool
  ro_spawn_subagents :: bool
  ro_subagent_backend :: string
  ro_memory :: "(run_memory_item list \<times> string) option"
  ro_todo :: "(todo_dto list \<times> string) option"
  ro_goal_context :: "goal_context option"
  ro_goals_enabled :: "bool option"
  ro_goal_id :: string
  ro_web_search_max :: int
  ro_web_fetch_max :: int
  ro_web_provider :: string
  ro_tavily_key :: string
  ro_http_proxy :: string
  ro_max_tool_turns :: int
  ro_log_requests :: bool
  ro_worker_permit :: bool
  ro_provider_permit :: bool
  ro_worker_max_turns :: int
  ro_worker_max_wall :: int
  ro_worker_fan_out :: int
  ro_agents :: "agent_definition list"

record run_params =
  rp_run_id :: string
  rp_session_id :: string
  rp_session_name :: string
  rp_working_dir :: string
  rp_conversation :: "conversation_message list"
  rp_text :: string
  rp_options :: run_options

text \<open>
  Outside of the service: the owner of the process, environment variables, the text of a database
  error, and the runtime client, which may be missing.
\<close>

record 'd start_env =
  se_owner :: string
  se_concurrency :: string
  se_worker_turns :: string
  se_worker_wall :: string
  se_worker_fan_out :: string
  se_db_error :: string
  se_runtime :: "(string \<Rightarrow> run_params \<Rightarrow> 'd \<Rightarrow> 'd \<times> (string + string \<times> bool)) option"

definition error_text :: "'d start_env \<Rightarrow> svc_error \<Rightarrow> string" where
  "error_text E e = (case e of Svc_Error m \<Rightarrow> m | Db_Error \<Rightarrow> se_db_error E)"

definition worker_turns_default :: int where "worker_turns_default = 48"
definition worker_wall_default :: int where "worker_wall_default = 10 * 60 * 1000"
definition worker_fan_out_default :: int where "worker_fan_out_default = 8"

definition options_of_request :: "'d start_env \<Rightarrow> go_map \<Rightarrow> run_options" where
  "options_of_request E opts =
     \<lparr>ro_profile_id = string_option opts ''provider_profile_id'', ro_provider_name = [], ro_base_url = [],
      ro_api_key = [], ro_model = string_option opts ''model'',
      ro_permission_mode = string_option opts ''permission_mode'',
      ro_tool_policy = string_option opts ''tool_policy'',
      ro_allowlist = string_slice_option opts ''tool_allowlist'',
      ro_denylist = string_slice_option opts ''tool_denylist'',
      ro_emit_tool_events = True, ro_require_permission = bool_option opts ''require_permission'',
      ro_spawn_subagents = bool_option opts ''spawn_subagents'',
      ro_subagent_backend = string_option opts ''subagent_backend'',
      ro_memory = None, ro_todo = None, ro_goal_context = None, ro_goals_enabled = None, ro_goal_id = [],
      ro_web_search_max = int_option opts ''web_search_max_results'',
      ro_web_fetch_max = int_option opts ''web_fetch_max_bytes'',
      ro_web_provider = string_option opts ''web_search_provider'',
      ro_tavily_key = string_option opts ''web_tavily_api_key'',
      ro_http_proxy = string_option opts ''web_http_proxy'',
      ro_max_tool_turns = int_option opts ''max_tool_turns'',
      ro_log_requests = bool_option opts ''log_llm_requests'',
      ro_worker_permit = True, ro_provider_permit = True,
      ro_worker_max_turns = env_bounded_int (se_worker_turns E) worker_turns_default 1 128,
      ro_worker_max_wall = env_bounded_int (se_worker_wall E) worker_wall_default 1000 (60 * 60 * 1000),
      ro_worker_fan_out = env_bounded_int (se_worker_fan_out E) worker_fan_out_default 1 64,
      ro_agents = []\<rparr>"

definition map_options :: "(run_options \<Rightarrow> run_options) \<Rightarrow> run_params \<Rightarrow> run_params" where
  "map_options f p = p\<lparr>rp_options := f (rp_options p)\<rparr>"

subsection \<open>What the tables add to the options\<close>

definition agent_snapshot :: "agent_row \<Rightarrow> agent_definition" where
  "agent_snapshot r =
     \<lparr>ad_key = ad_row_key r, ad_name = ad_row_name r, ad_name_zh = ad_row_name_zh r,
      ad_phase = ad_row_phase r, ad_system_prompt = ad_row_prompt r,
      ad_tool_allowlist = (if ad_row_allowlist r = [] then None else Some (ad_row_allowlist r)),
      ad_tool_denylist = (if ad_row_denylist r = [] then None else Some (ad_row_denylist r)),
      ad_default_max_turns = ad_row_max_turns r, ad_enabled = ad_row_enabled r,
      ad_builtin = ad_row_builtin r\<rparr>"

definition apply_agent_definitions ::
  "'d service_db \<Rightarrow> 'd start_env \<Rightarrow> int \<Rightarrow> 'd \<Rightarrow> run_params \<Rightarrow> 'd \<times> (svc_error + run_params)" where
  "apply_agent_definitions D E now d p =
     (case agent_service_list D now d of
        (d1, None) \<Rightarrow> (d1, Inl (Svc_Error (''load agent definitions: '' @ se_db_error E)))
      | (d1, Some rows) \<Rightarrow> (d1, Inr (map_options (\<lambda>opts. opts\<lparr>ro_agents := map agent_snapshot rows\<rparr>) p)))"

definition apply_provider_profile ::
  "'d service_db \<Rightarrow> 'd start_env \<Rightarrow> 'd \<Rightarrow> run_params \<Rightarrow> svc_error + run_params" where
  "apply_provider_profile D E d p =
     (let i = ro_profile_id (rp_options p)
      in if i = [] then Inr p
         else case get_profile D d i of
                None \<Rightarrow> Inl (Svc_Error (''provider profile '' @ i @ '' not found: '' @ se_db_error E))
              | Some r \<Rightarrow>
                  if \<not> pp_active r then Inl (Svc_Error (''provider profile '' @ i @ '' is inactive''))
                  else Inr (map_options (\<lambda>opts. opts
                    \<lparr>ro_provider_name := pp_provider r, ro_base_url := pp_base_url r,
                     ro_api_key := pp_api_key_secret r,
                     ro_model := (if ro_model opts = [] then pp_model r else ro_model opts)\<rparr>) p))"

definition run_memory_of :: "memory_row \<Rightarrow> run_memory_item" where
  "run_memory_of m = \<lparr>rm_id = me_id m, rm_scope = me_scope m, rm_kind = me_kind m,
     rm_title = me_title m, rm_content = me_content m\<rparr>"

definition apply_memory_context ::
  "'d service_db \<Rightarrow> 'd \<Rightarrow> run_params \<Rightarrow> svc_error + run_params" where
  "apply_memory_context D d p =
     (case preview_run (sd_memories D) d (rp_session_id p) (rp_working_dir p) of
        None \<Rightarrow> Inl Db_Error
      | Some (items, ctx) \<Rightarrow>
          Inr (if items = [] \<or> ctx = [] then p
               else map_options (\<lambda>opts. opts\<lparr>ro_memory := Some (map run_memory_of items, ctx)\<rparr>) p))"

definition apply_todo_context ::
  "'d service_db \<Rightarrow> 'd \<Rightarrow> run_params \<Rightarrow> svc_error + run_params" where
  "apply_todo_context D d p =
     bind_result (format_todo_context (db_todos (sd_core D)) d (rp_session_id p)) (\<lambda>r.
       case r of
         None \<Rightarrow> Inr p
       | Some (items, ctx) \<Rightarrow>
           Inr (if trim_space ctx = [] then p
                else map_options (\<lambda>opts. opts\<lparr>ro_todo := Some (items, ctx)\<rparr>) p))"

subsection \<open>The goal of a run\<close>

definition later :: "nat \<Rightarrow> (nat \<Rightarrow> int) \<Rightarrow> nat \<Rightarrow> int" where
  "later k clock n = clock (k + n)"

definition limit_turns :: "int \<Rightarrow> int \<Rightarrow> int" where
  "limit_turns segment turns =
     (if segment > 0 \<and> (turns \<le> 0 \<or> turns > segment) then segment else turns)"

definition bind_run_goal ::
  "'d service_db \<Rightarrow> (nat \<Rightarrow> int) \<Rightarrow> 'd \<Rightarrow> run_params \<Rightarrow> string \<Rightarrow> bool \<Rightarrow> 'd \<times> (svc_error + run_params)" where
  "bind_run_goal D clock d p goal_id continue =
     (case bind_to_run (sd_core D) clock d (rp_session_id p) (rp_run_id p) goal_id continue of
        (d1, Inl e) \<Rightarrow> (d1, Inl e)
      | (d1, Inr bound) \<Rightarrow>
          (d1, Inr (map_options (\<lambda>opts. opts
             \<lparr>ro_goal_id := gd_id bound,
              ro_goal_context := format_goal_context (sd_core D) d1 (rp_session_id p) (gd_id bound),
              ro_max_tool_turns := limit_turns (gd_max_tool_turns_seg bound) (ro_max_tool_turns opts)\<rparr>) p)))"

definition goal_to_create :: "go_map \<Rightarrow> run_params \<Rightarrow> string" where
  "goal_to_create opts p =
     (let objective = trim_space (string_option opts ''goal_objective'')
      in if objective = [] then trim_space (rp_text p) else objective)"

definition apply_goal_binding ::
  "'d service_db \<Rightarrow> (nat \<Rightarrow> int) \<Rightarrow> 'd \<Rightarrow> run_params \<Rightarrow> go_map \<Rightarrow> 'd \<times> (svc_error + run_params)" where
  "apply_goal_binding D clock d p opts =
     (let d1 = fst (repair_stale_active (sd_core D) (clock 0) d (rp_session_id p));
          goal_id = string_option opts ''goal_id'';
          continue = bool_option opts ''continue_goal'';
          create = bool_option opts ''create_goal''
      in if ro_goals_enabled (rp_options p) = Some False
         then (d1, if goal_id \<noteq> [] \<or> continue \<or> create then Inl (Svc_Error ''goals are disabled'') else Inr p)
         else if create \<and> goal_id = []
         then if goal_to_create opts p = []
              then (d1, Inl (Svc_Error ''create_goal requires goal_objective or input text''))
              else (case create_user_initiated (sd_core D) (later 1 clock) d1 (rp_session_id p)
                           (goal_to_create opts p) (string_option opts ''goal_title'')
                           (string_option opts ''goal_success_criteria'') of
                      (d2, Inl e) \<Rightarrow> (d2, Inl e)
                    | (d2, Inr created) \<Rightarrow>
                        if gd_id created \<noteq> [] \<or> continue
                        then bind_run_goal D (later 10 clock) d2 p (gd_id created) continue
                        else (d2, Inr p))
         else if goal_id \<noteq> [] \<or> continue then bind_run_goal D (later 10 clock) d1 p goal_id continue
         else (d1, Inr p))"

subsection \<open>Start\<close>

record start_result =
  sr_run_id :: string
  sr_session_id :: string
  sr_accepted :: bool
  sr_subscribed :: bool
  sr_runtime_mode :: string

text \<open>The failure of an admitted run: its row is finished, and an error of that is dropped.\<close>

definition fail_run :: "'d service_db \<Rightarrow> 'd start_env \<Rightarrow> int \<Rightarrow> 'd \<Rightarrow> string \<Rightarrow> svc_error \<Rightarrow> 'd \<times> (svc_error + 'a)" where
  "fail_run D E now d run e =
     (ignoring d (finish_run (sd_core D) now d run ''failed'' (error_text E e)), Inl e)"

definition or_fail_run ::
  "'d service_db \<Rightarrow> 'd start_env \<Rightarrow> int \<Rightarrow> string \<Rightarrow> 'd \<times> (svc_error + 'a)
    \<Rightarrow> ('d \<Rightarrow> 'a \<Rightarrow> 'd \<times> (svc_error + 'b)) \<Rightarrow> 'd \<times> (svc_error + 'b)" where
  "or_fail_run D E now run r k =
     (case r of (d, Inl e) \<Rightarrow> fail_run D E now d run e | (d, Inr x) \<Rightarrow> k d x)"

definition run_params_of ::
  "'d start_env \<Rightarrow> start_payload \<Rightarrow> string \<Rightarrow> session_row \<Rightarrow> conversation_message list \<Rightarrow> run_params" where
  "run_params_of E payload run session conversation =
     \<lparr>rp_run_id = run, rp_session_id = ss_id session, rp_session_name = ss_name session,
      rp_working_dir = ss_workspace_root session, rp_conversation = conversation,
      rp_text = string_arg (sp_input payload) ''text'',
      rp_options = options_of_request E (sp_options payload)\<rparr>"

definition goals_flag :: "go_map \<Rightarrow> run_params \<Rightarrow> run_params" where
  "goals_flag opts = map_options (\<lambda>r. r\<lparr>ro_goals_enabled := Some (bool_option opts ''goals_enabled'')\<rparr>)"

definition prepare_run ::
  "'d service_db \<Rightarrow> 'd start_env \<Rightarrow> (nat \<Rightarrow> int) \<Rightarrow> 'd \<Rightarrow> go_map \<Rightarrow> run_params \<Rightarrow> 'd \<times> (svc_error + run_params)" where
  "prepare_run D E clock d opts p =
     (case apply_agent_definitions D E (clock 0) d p of
        (d1, Inl e) \<Rightarrow> (d1, Inl e)
      | (d1, Inr p1) \<Rightarrow>
          (case bind_result (apply_provider_profile D E d1 (goals_flag opts p1)) (\<lambda>p2.
                bind_result (apply_memory_context D d1 p2) (apply_todo_context D d1)) of
             Inl e \<Rightarrow> (d1, Inl e)
           | Inr p3 \<Rightarrow> apply_goal_binding D (later 1 clock) d1 p3 opts))"

definition call_runtime ::
  "'d service_db \<Rightarrow> 'd start_env \<Rightarrow> (nat \<Rightarrow> int) \<Rightarrow> 'd \<Rightarrow> start_payload \<Rightarrow> session_row \<Rightarrow> run_params
    \<Rightarrow> (string \<Rightarrow> run_params \<Rightarrow> 'd \<Rightarrow> 'd \<times> (string + string \<times> bool)) \<Rightarrow> 'd \<times> (svc_error + start_result)" where
  "call_runtime D E clock d payload session p runtime =
     (let mode = normalized_runtime_mode (string_option (sp_options payload) ''runtime_mode'')
      in case runtime mode p d of
           (d1, Inl message) \<Rightarrow>
             fail_run D E (clock 1) (fst (pause_by_run (sd_core D) (clock 0) d1 (rp_run_id p) ''run_failed''))
               (rp_run_id p) (Svc_Error message)
         | (d1, Inr (accepted_id, accepted)) \<Rightarrow>
             (ignoring d1 (touch_session (sd_core D) (clock 0) d1 (ss_id session)),
              Inr \<lparr>sr_run_id = first_non_blank [accepted_id, rp_run_id p], sr_session_id = ss_id session,
                   sr_accepted = accepted, sr_subscribed = sp_subscribe payload, sr_runtime_mode = mode\<rparr>))"

definition launch_run ::
  "'d service_db \<Rightarrow> 'd start_env \<Rightarrow> (nat \<Rightarrow> int) \<Rightarrow> 'd \<Rightarrow> nat \<Rightarrow> start_payload \<Rightarrow> string \<Rightarrow> session_row
    \<Rightarrow> (string \<Rightarrow> run_params \<Rightarrow> 'd \<Rightarrow> 'd \<times> (string + string \<times> bool)) \<Rightarrow> ('d \<times> (svc_error + start_result)) \<times> nat" where
  "launch_run D E clock d counter payload run session runtime =
     (case build_run_conversation D d (ss_id session) of
        None \<Rightarrow> (fail_run D E (clock 1) d run Db_Error, counter)
      | Some conversation \<Rightarrow>
          (case add_message (sd_core D) (clock 0) counter d (ss_id session) ''user''
                  (string_arg (sp_input payload) ''text'') run of
             (None, c) \<Rightarrow> (fail_run D E (clock 1) d run Db_Error, c)
           | (Some (d1, _), c) \<Rightarrow>
               (or_fail_run D E (clock 1) run
                  (prepare_run D E (later 2 clock) d1 (sp_options payload)
                     (run_params_of E payload run session conversation))
                  (\<lambda>d2 p. call_runtime D E (later 40 clock) d2 payload session p runtime), c)))"

definition start_service ::
  "'d service_db \<Rightarrow> 'd start_env \<Rightarrow> (nat \<Rightarrow> int) \<Rightarrow> 'd \<times> nat \<Rightarrow> start_payload
    \<Rightarrow> ('d \<times> nat) \<times> (svc_error + start_result)" where
  "start_service D E clock s payload =
     (case se_runtime E of
        None \<Rightarrow> (s, Inl (Svc_Error ''runtime client not configured''))
      | Some runtime \<Rightarrow>
          (case admit_run (sd_core D) (se_owner E) (se_concurrency E) clock (fst s) payload of
             (d1, Inl e) \<Rightarrow> ((d1, snd s), Inl e)
           | (d1, Inr (run, session)) \<Rightarrow>
               (case launch_run D E (later 4 clock) d1 (snd s) payload run session runtime of
                  ((d2, r), c) \<Rightarrow> ((d2, c), r))))"

subsection \<open>Runs for a goal\<close>

definition put_option :: "string \<Rightarrow> go_value \<Rightarrow> go_map \<Rightarrow> go_map" where
  "put_option k v m = (k, v) # filter (\<lambda>e. fst e \<noteq> k) m"

definition drop_option :: "string \<Rightarrow> go_map \<Rightarrow> go_map" where
  "drop_option k m = filter (\<lambda>e. fst e \<noteq> k) m"

definition goal_run_payload :: "string \<Rightarrow> string \<Rightarrow> go_map \<Rightarrow> start_payload" where
  "goal_run_payload session txt opts =
     \<lparr>sp_session_id = session, sp_input = [(''text'', GStr txt)], sp_options = opts, sp_subscribe = True\<rparr>"

definition shown_title :: "goal_dto \<Rightarrow> string" where
  "shown_title g = (if gd_title g = [] then truncate_runes (gd_objective g) 40 else gd_title g)"

definition criteria_unless_given :: string where
  "criteria_unless_given =
     utf8 [0xE5, 0xAE, 0x8C, 0xE6, 0x88, 0x90, 0xE7, 0x94, 0xA8, 0xE6, 0x88, 0xB7]
     @ utf8 [0xE6, 0x89, 0x80, 0xE8, 0xBF, 0xB0, 0xE7, 0x9B, 0xAE, 0xE6, 0xA0, 0x87]
     @ utf8 [0xEF, 0xBC, 0x8C, 0xE5, 0xB9, 0xB6, 0xE9, 0x80, 0x9A, 0xE8, 0xBF, 0x87]
     @ utf8 [0xE5, 0x90, 0x88, 0xE7, 0x90, 0x86, 0xE9, 0xAA, 0x8C, 0xE8, 0xAF, 0x81]
     @ utf8 [0xEF, 0xBC, 0x88, 0xE6, 0xB5, 0x8B, 0xE8, 0xAF, 0x95] @ ''/''
     @ utf8 [0xE6, 0xA3, 0x80, 0xE6, 0x9F, 0xA5] @ ''/''
     @ utf8 [0xE5, 0x8F, 0xAF, 0xE6, 0xBC, 0x94, 0xE7, 0xA4, 0xBA, 0xE7, 0xBB, 0x93]
     @ utf8 [0xE6, 0x9E, 0x9C, 0xEF, 0xBC, 0x89, 0xE3, 0x80, 0x82]"

definition goal_prompt :: "goal_dto \<Rightarrow> string" where
  "goal_prompt g =
     ''['' @ utf8 [0xE5, 0x90, 0xAF, 0xE5, 0x8A, 0xA8, 0xE7, 0x9B, 0xAE, 0xE6, 0xA0, 0x87]
     @ ''] ''
     @ shown_title g
     @ utf8 [0x0A, 0xE7, 0x9B, 0xAE, 0xE6, 0xA0, 0x87, 0xEF, 0xBC, 0x9A]
     @ gd_objective g
     @ utf8 [0x0A, 0xE6, 0x88, 0x90, 0xE5, 0x8A, 0x9F, 0xE6, 0xA0, 0x87]
     @ utf8 [0xE5, 0x87, 0x86, 0xEF, 0xBC, 0x9A]
     @ (if gd_success_criteria g = [] then criteria_unless_given else gd_success_criteria g)
     @ utf8 [0x0A, 0xE9, 0x98, 0xB6, 0xE6, 0xAE, 0xB5, 0xEF, 0xBC, 0x9A] @ ''analyze''
     @ utf8 [0x0A, 0x0A]
     @ utf8 [0xE6, 0x9C, 0xAC] @ '' Goal ''
     @ utf8 [0xE5, 0xB7, 0xB2, 0xE7, 0x94, 0xB1, 0xE7, 0x94, 0xA8, 0xE6, 0x88, 0xB7]
     @ utf8 [0xE6, 0x8C, 0x87, 0xE4, 0xBB, 0xA4, 0xE5, 0x88, 0x9B, 0xE5, 0xBB, 0xBA]
     @ utf8 [0xE5, 0xB9, 0xB6, 0xE7, 0xBB, 0x91, 0xE5, 0xAE, 0x9A, 0xE5, 0x88, 0xB0]
     @ utf8 [0xE6, 0x9C, 0xAC, 0xE6, 0xAC, 0xA1] @ '' run''
     @ utf8 [0xE3, 0x80, 0x82, 0xE8, 0xAF, 0xB7, 0xE6, 0x8C, 0x89] @ '' Goal ''
     @ utf8 [0xE6, 0xB5, 0x81, 0xE6, 0xB0, 0xB4, 0xE7, 0xBA, 0xBF, 0xE6, 0x89, 0xA7]
     @ utf8 [0xE8, 0xA1, 0x8C, 0xEF, 0xBC, 0x9A, 0x0A]
     @ ''1. '' @ utf8 [0xE7, 0x94, 0xA8] @ '' goal-analyst ''
     @ utf8 [0xE5, 0x81, 0x9A, 0xE8, 0x8C, 0x83, 0xE5, 0x9B, 0xB4, 0xE5, 0x88, 0x86]
     @ utf8 [0xE6, 0x9E, 0x90, 0xEF, 0xBC, 0x88, 0xE8, 0x8B, 0xA5] @ '' trivial ''
     @ utf8 [0xE5, 0x8F, 0xAF, 0xE7, 0x9B, 0xB4, 0xE6, 0x8E, 0xA5, 0xE8, 0xAF, 0xB4]
     @ utf8 [0xE6, 0x98, 0x8E, 0xE5, 0x90, 0x8E] @ '' goal.complete''
     @ utf8 [0xEF, 0xBC, 0x89, 0x0A]
     @ ''2. '' @ utf8 [0xE7, 0x94, 0xA8] @ '' goal.update ''
     @ utf8 [0xE8, 0xA1, 0xA5, 0xE5, 0x85, 0x85]
     @ '' analysis_summary / success_criteria / pipeline_phase''
     @ utf8 [0xEF, 0xBC, 0x8C, 0xE5, 0xB9, 0xB6, 0xE7, 0x94, 0xA8] @ '' todo.write ''
     @ utf8 [0xE5, 0x86, 0x99, 0xE5, 0x87, 0xBA, 0xE6, 0xAD, 0xA5, 0xE9, 0xAA, 0xA4]
     @ utf8 [0x0A]
     @ ''3. '' @ utf8 [0xE9, 0x80, 0x90, 0xE6, 0xAD, 0xA5] @ '' execute ''
     @ utf8 [0xE2, 0x86, 0x92] @ '' verify'' @ utf8 [0xEF, 0xBC, 0x8C] @ ''goal.checkpoint ''
     @ utf8 [0xE8, 0xAE, 0xB0, 0xE5, 0xBD, 0x95, 0xE8, 0xBF, 0x9B, 0xE5, 0xBA, 0xA6]
     @ utf8 [0x0A]
     @ ''4. evaluate '' @ utf8 [0xE5, 0x90, 0x8E] @ '' goal.complete''
     @ utf8 [0xEF, 0xBC, 0x8C, 0xE5, 0xB9, 0xB6, 0xE7, 0xBB, 0x99, 0xE7, 0x94, 0xA8]
     @ utf8 [0xE6, 0x88, 0xB7, 0xE5, 0xAE, 0x8C, 0xE6, 0x95, 0xB4, 0xE6, 0x8A, 0xA5]
     @ utf8 [0xE5, 0x91, 0x8A, 0x0A]
     @ utf8 [0xE4, 0xB8, 0x8D, 0xE8, 0xA6, 0x81, 0xE9, 0x87, 0x8D, 0xE6, 0x96, 0xB0]
     @ '' goal.write ''
     @ utf8 [0xE6, 0x96, 0xB0, 0xE5, 0xBB, 0xBA, 0xE7, 0x9B, 0xAE, 0xE6, 0xA0, 0x87]
     @ utf8 [0xEF, 0xBC, 0x9B, 0xE5, 0xBD, 0x93, 0xE5, 0x89, 0x8D, 0xE4, 0xBC, 0x9A]
     @ utf8 [0xE8, 0xAF, 0x9D, 0xE5, 0xB7, 0xB2, 0xE7, 0xBB, 0x91, 0xE5, 0xAE, 0x9A]
     @ utf8 [0xE6, 0x9C, 0xAC] @ '' Goal'' @ utf8 [0xE3, 0x80, 0x82, 0x0A]"

definition start_goal ::
  "'d service_db \<Rightarrow> 'd start_env \<Rightarrow> (nat \<Rightarrow> int) \<Rightarrow> 'd \<times> nat \<Rightarrow> string \<Rightarrow> string \<Rightarrow> string \<Rightarrow> string \<Rightarrow> go_map
    \<Rightarrow> ('d \<times> nat) \<times> (svc_error + start_result)" where
  "start_goal D E clock s session objective0 title criteria options =
     (let objective = trim_space objective0
      in if Option.is_none (se_runtime E) then (s, Inl (Svc_Error ''runtime client not configured''))
         else if objective = [] then (s, Inl (Svc_Error ''objective is required''))
         else case create_user_initiated (sd_core D) clock (fst s) session objective title criteria of
                (d1, Inl e) \<Rightarrow> ((d1, snd s), Inl e)
              | (d1, Inr goal) \<Rightarrow>
                  start_service D E (later 10 clock) (d1, snd s)
                    (goal_run_payload session (goal_prompt goal)
                       (drop_option ''create_goal''
                          (put_option ''goals_enabled'' (GBool True)
                             (put_option ''goal_id'' (GStr (gd_id goal)) options)))))"

definition resume_line :: "string \<Rightarrow> string \<Rightarrow> string" where
  "resume_line label v = (if v = [] then [] else label @ v @ [CHR 0x0A])"

definition resume_prompt :: "goal_dto \<Rightarrow> string \<Rightarrow> string" where
  "resume_prompt g extra =
     ''['' @ utf8 [0xE7, 0xBB, 0xA7, 0xE7, 0xBB, 0xAD, 0xE7, 0x9B, 0xAE, 0xE6, 0xA0, 0x87]
     @ ''] ''
     @ shown_title g @ [CHR 0x0A]
     @ resume_line (utf8 [0xE6, 0xA3, 0x80, 0xE6, 0x9F, 0xA5, 0xE7, 0x82, 0xB9, 0xEF, 0xBC, 0x9A])
         (gd_checkpoint_summary g)
     @ resume_line (utf8 [0xE6, 0x88, 0x90, 0xE5, 0x8A, 0x9F, 0xE6, 0xA0, 0x87, 0xE5, 0x87, 0x86]
     @ utf8 [0xEF, 0xBC, 0x9A])
         (gd_success_criteria g)
     @ resume_line (utf8 [0xE9, 0x98, 0xB6, 0xE6, 0xAE, 0xB5, 0xEF, 0xBC, 0x9A]) (gd_pipeline_phase g)
     @ utf8 [0xE8, 0xAF, 0xB7, 0xE4, 0xBB, 0x8E, 0xE6, 0xA3, 0x80, 0xE6, 0x9F, 0xA5]
     @ utf8 [0xE7, 0x82, 0xB9, 0xE7, 0xBB, 0xA7, 0xE7, 0xBB, 0xAD, 0xEF, 0xBC, 0x8C]
     @ utf8 [0xE4, 0xB8, 0x8D, 0xE8, 0xA6, 0x81, 0xE6, 0x97, 0xA0, 0xE6, 0x95, 0x85]
     @ utf8 [0xE6, 0x95, 0xB4, 0xE5, 0x8D, 0x95, 0xE9, 0x87, 0x8D, 0xE5, 0x81, 0x9A]
     @ utf8 [0xE5, 0x88, 0x86, 0xE6, 0x9E, 0x90, 0xEF, 0xBC, 0x8C, 0xE9, 0x99, 0xA4]
     @ utf8 [0xE9, 0x9D, 0x9E, 0xE8, 0x8C, 0x83, 0xE5, 0x9B, 0xB4, 0xE5, 0xB7, 0xB2]
     @ utf8 [0xE5, 0x8F, 0x98, 0xE5, 0x8C, 0x96, 0xE3, 0x80, 0x82, 0x0A]
     @ resume_line (utf8 [0xE7, 0x94, 0xA8, 0xE6, 0x88, 0xB7, 0xE8, 0xA1, 0xA5, 0xE5, 0x85, 0x85]
     @ utf8 [0xEF, 0xBC, 0x9A])
         (trim_space extra)"

definition continue_goal ::
  "'d service_db \<Rightarrow> 'd start_env \<Rightarrow> (nat \<Rightarrow> int) \<Rightarrow> 'd \<times> nat \<Rightarrow> string \<Rightarrow> string \<Rightarrow> string \<Rightarrow> go_map
    \<Rightarrow> ('d \<times> nat) \<times> (svc_error + start_result)" where
  "continue_goal D E clock s session goal_id extra options =
     (if Option.is_none (se_runtime E) then (s, Inl (Svc_Error ''runtime client not configured''))
      else case repair_stale_active (sd_core D) (clock 0) (fst s) session of
             (d1, Inl e) \<Rightarrow> ((d1, snd s), Inl e)
           | (d1, Inr _) \<Rightarrow>
               (case read_goal (sd_core D) d1 session goal_id of
                  Inl e \<Rightarrow> ((d1, snd s), Inl e)
                | Inr g \<Rightarrow>
                    if gd_status g = Goal_Active
                    then ((d1, snd s),
                      Inl (Svc_Error ''goal is already active; wait for the current run or cancel it''))
                    else if gd_status g \<noteq> Goal_Paused \<and> gd_status g \<noteq> Goal_Pending
                    then ((d1, snd s), Inl (Svc_Error
                      (''goal status '' @ go_quote (goal_status_text (gd_status g)) @ '' cannot continue'')))
                    else start_service D E (later 1 clock) (d1, snd s)
                           (goal_run_payload session (resume_prompt g extra)
                              (put_option ''goals_enabled'' (GBool True)
                                 (put_option ''continue_goal'' (GBool True)
                                    (put_option ''goal_id'' (GStr (gd_id g)) options))))))"

end
