(* ===== verification/Agent_Props.thy ===== *)
theory Agent_Props
  imports Agent_Definitions
begin

text \<open>
  Properties of the definitions of agents: after every sequence of calls the rows are well-formed and
  every agent stays below its owner; a read leaves the five specialists in place; an edit of a
  specialist that keeps its prompt is undone by the next read.
\<close>

definition agent_ok :: "agent_row \<Rightarrow> bool" where
  "agent_ok r \<longleftrightarrow>
     1 \<le> ad_row_max_turns r \<and> ad_row_max_turns r \<le> agent_max_turns_cap
     \<and> set default_agent_denylist \<subseteq> set (ad_row_denylist r)
     \<and> (ad_row_builtin r \<longleftrightarrow> has_prefix (ad_row_key r) ''goal-'')
     \<and> (ad_row_builtin r \<longrightarrow> live_agent r)"

definition agents_ok :: "agent_row list \<Rightarrow> bool" where
  "agents_ok rows \<longleftrightarrow> (\<forall>r \<in> set rows. agent_ok r)"

lemma agent_okD:
  assumes "agents_ok rows" "r \<in> set rows"
  shows "agent_ok r"
  using assms by (simp add: agents_ok_def)

subsection \<open>Keys and lists\<close>

lemma agent_key_char_ascii:
  assumes "agent_key_char c"
  shows "byte_in 0x00 0x7F c" "\<not> ascii_space c"
  using assms
  by (auto simp: agent_key_char_def byte_in_def ascii_space_def less_eq_char_def)

lemma trim_agent_key:
  assumes "list_all agent_key_char key"
  shows "trim_space key = key"
proof (rule trim_space_tight)
  show "ascii_text key"
    using assms unfolding ascii_text_def list_all_iff by (blast intro: agent_key_char_ascii)
  show "\<not> ascii_space (hd key) \<and> \<not> ascii_space (last key)" if "key \<noteq> []"
    using assms that agent_key_char_ascii(2) unfolding list_all_iff by simp
qed

lemma normalized_key:
  assumes "normalize_agent_key raw = Inr key"
  shows "list_all agent_key_char key" "key \<noteq> []" "length key \<le> 64" "trim_space key = key"
proof -
  show chars: "list_all agent_key_char key" and "key \<noteq> []" "length key \<le> 64"
    using assms by (auto simp: normalize_agent_key_def Let_def split: if_splits)
  show "trim_space key = key" by (rule trim_agent_key [OF chars])
qed

lemma clean_items_set: "set (clean_items items out) = set out \<union> (trim_space ` set items - {[]})"
  by (induction items out rule: clean_items.induct) auto

lemma clean_items_distinct: "distinct out \<Longrightarrow> distinct (clean_items items out)"
  by (induction items out rule: clean_items.induct) auto

lemma trim_denied:
  assumes "t \<in> set default_agent_denylist"
  shows "trim_space t = t" "t \<noteq> []"
proof -
  have "list_all (\<lambda>t. trim_space t = t \<and> t \<noteq> []) default_agent_denylist" by code_simp
  with assms show "trim_space t = t" "t \<noteq> []" by (auto simp: list_all_iff)
qed

lemma denylist_appended: "set default_agent_denylist \<subseteq> set (append_default_agent_denylist items)"
proof
  fix t assume "t \<in> set default_agent_denylist"
  with trim_denied [OF this] show "t \<in> set (append_default_agent_denylist items)"
    unfolding append_default_agent_denylist_def clean_string_list_def clean_items_set
    by (auto intro: rev_image_eqI)
qed

lemma turns_normalized: "1 \<le> normalize_agent_max_turns n \<and> normalize_agent_max_turns n \<le> agent_max_turns_cap"
  by (simp add: normalize_agent_max_turns_def agent_max_turns_cap_def)

subsection \<open>The seeds\<close>

lemmas seed_defs = seed_row_def seed_goal_analyst_def seed_goal_planner_def seed_goal_implementer_def
  seed_goal_verifier_def seed_goal_evaluator_def

lemma seed_keys:
  "map ad_row_key builtin_agent_seeds =
     [''goal-analyst'', ''goal-planner'', ''goal-implementer'', ''goal-verifier'', ''goal-evaluator'']"
  by (simp add: builtin_agent_seeds_def seed_defs)

lemma seeds_ok:
  assumes "seed \<in> set builtin_agent_seeds"
  shows "agent_ok seed" "ad_row_builtin seed" "trim_space (ad_row_key seed) = ad_row_key seed"
    "ad_row_key seed \<noteq> []" "trim_space (ad_id seed) \<noteq> []" "ad_deleted_at seed = None"
    "trim_space (ad_row_name seed) \<noteq> []" "ad_kind seed \<noteq> []" "ad_row_phase seed \<noteq> []"
proof -
  have keys: "list_all (\<lambda>k. list_all agent_key_char k \<and> k \<noteq> [] \<and> has_prefix k ''goal-'')
      (map ad_row_key builtin_agent_seeds)"
    unfolding seed_keys by code_simp
  then have key: "list_all agent_key_char (ad_row_key seed)" "ad_row_key seed \<noteq> []"
    "has_prefix (ad_row_key seed) ''goal-''"
    using assms by (auto simp: list_all_iff)
  show "trim_space (ad_row_key seed) = ad_row_key seed" by (rule trim_agent_key [OF key(1)])
  show "ad_row_key seed \<noteq> []" by (rule key(2))
  show built: "ad_row_builtin seed" and live: "ad_deleted_at seed = None"
    and "ad_kind seed \<noteq> []" "ad_row_phase seed \<noteq> []"
    using assms by (auto simp: builtin_agent_seeds_def seed_defs)
  have ids: "list_all (\<lambda>i. trim_space i \<noteq> [])
     [''agent_builtin_goal_analyst'', ''agent_builtin_goal_planner'', ''agent_builtin_goal_implementer'',
      ''agent_builtin_goal_verifier'', ''agent_builtin_goal_evaluator'',
      ''Goal Analyst'', ''Goal Planner'', ''Goal Implementer'', ''Goal Verifier'', ''Goal Evaluator'']"
    by code_simp
  then show "trim_space (ad_id seed) \<noteq> []" "trim_space (ad_row_name seed) \<noteq> []"
    using assms by (auto simp: builtin_agent_seeds_def seed_defs)
  have "1 \<le> ad_row_max_turns seed \<and> ad_row_max_turns seed \<le> agent_max_turns_cap"
    "set default_agent_denylist \<subseteq> set (ad_row_denylist seed)"
    using assms by (auto simp: builtin_agent_seeds_def seed_defs agent_max_turns_cap_def
        default_agent_denylist_def readonly_deny_def implement_deny_def)
  with key(3) built live show "agent_ok seed" by (simp add: agent_ok_def live_agent_def)
qed

subsection \<open>Statements\<close>

lemma agent_found:
  assumes "service_db_laws D V" "first_agent D d P = Found r"
  shows "r \<in> set (vw_agents (V d))" "P r" "live_agent r"
  using sql_first_Found [OF service_db_lawsD(7) [OF assms(1)] assms(2) [unfolded first_agent_def]] by simp_all

lemma get_agent_found:
  assumes "service_db_laws D V" "get_agent D d i = Some r"
  shows "r \<in> set (vw_agents (V d))" "ad_id r = i" "live_agent r"
  using agent_found [OF assms(1), of d "\<lambda>r. ad_id r = i" r] assms(2) by (auto simp: get_agent_def)

lemma save_agent_rows:
  assumes "service_db_laws D V" "sql_save (sd_agents D) d r = Some d1"
  shows "set (vw_agents (V d1)) = insert r {x \<in> set (vw_agents (V d)). ad_id x \<noteq> ad_id r}"
proof -
  note law = sql_upsert_law [OF service_db_lawsD(8) [OF assms(1)] assms(2) [unfolded sql_save_def]]
  show ?thesis
  proof (cases "ad_id r \<in> ad_id ` set (vw_agents (V d))")
    case True
    with law have "set (vw_agents (V d1)) = (\<lambda>x. if ad_id x = ad_id r then r else x) ` set (vw_agents (V d))"
      by (metis (no_types, lifting) list.set_map mset_eq_setD)
    with True show ?thesis by (auto simp: image_iff)
  next
    case False
    with law have "set (vw_agents (V d1)) = insert r (set (vw_agents (V d)))"
      by (metis set_mset_add_mset_insert set_mset_mset)
    moreover have "ad_id x \<noteq> ad_id r" if "x \<in> set (vw_agents (V d))" for x
      using False that by (metis imageI)
    ultimately show ?thesis by blast
  qed
qed

lemma insert_agent_rows:
  assumes "service_db_laws D V" "sql_insert (sd_agents D) d [r] = Some d1"
  shows "set (vw_agents (V d1)) = insert r (set (vw_agents (V d)))"
  using sql_insert_law [OF service_db_lawsD(7) [OF assms(1)] assms(2)]
  by (metis (no_types, lifting) Un_insert_right list.simps(15) list.set(1) mset_append mset_eq_setD set_append sup_bot.right_neutral)

lemma agents_ok_more:
  "agents_ok rows \<Longrightarrow> agent_ok r \<Longrightarrow> set rows' \<subseteq> insert r (set rows) \<Longrightarrow> agents_ok rows'"
  by (auto simp: agents_ok_def)

subsection \<open>Seeding\<close>

definition live_key :: "string \<Rightarrow> agent_row list \<Rightarrow> bool" where
  "live_key key rows \<longleftrightarrow> (\<exists>r \<in> set rows. ad_row_key r = key \<and> live_agent r \<and> ad_row_builtin r)"

lemma reseeded_ok:
  assumes "agent_ok seed" "ad_row_builtin seed" "live_agent seed" "agent_ok current"
  shows "agent_ok (reseeded now current seed)"
  using assms by (auto simp: reseeded_def agent_ok_def Let_def live_agent_def)

lemma reseeded_same [simp]:
  "ad_id (reseeded now current seed) = ad_id current"
  "ad_row_key (reseeded now current seed) = ad_row_key seed"
  "ad_row_builtin (reseeded now current seed) = ad_row_builtin seed"
  "ad_deleted_at (reseeded now current seed) = ad_deleted_at seed"
  by (simp_all add: reseeded_def Let_def)

lemma upsert_agent_rows:
  assumes laws: "service_db_laws D V" and ok: "agents_ok (vw_agents (V d))"
    and keys: "distinct (map ad_id (vw_agents (V d)))"
    and seed: "seed \<in> set builtin_agent_seeds"
    and upsert: "upsert_agent_by_key D now d seed = Some (d', r)"
  shows "agents_ok (vw_agents (V d'))" "live_key (ad_row_key seed) (vw_agents (V d'))"
    "live_key k (vw_agents (V d)) \<Longrightarrow> live_key k (vw_agents (V d'))"
    "distinct (map ad_id (vw_agents (V d')))"
proof -
  note s = seeds_ok [OF seed]
  have keep: "seed\<lparr>ad_row_key := ad_row_key seed\<rparr> = seed" by simp
  have "(agents_ok (vw_agents (V d')) \<and> live_key (ad_row_key seed) (vw_agents (V d'))
    \<and> (live_key k (vw_agents (V d)) \<longrightarrow> live_key k (vw_agents (V d'))))
    \<and> distinct (map ad_id (vw_agents (V d')))"
  proof (cases "first_agent D d (\<lambda>r. ad_row_key r = ad_row_key seed)")
    case (Found current)
    let ?n = "reseeded now current seed"
    have save: "sql_save (sd_agents D) d ?n = Some d'"
      using upsert Found s by (auto simp: upsert_agent_by_key_def)
    note rows = save_agent_rows [OF laws save]
    note cur = agent_found [OF laws Found]
    have good: "agent_ok ?n"
      using reseeded_ok s(1,2,6) agent_okD [OF ok cur(1)] by (simp add: live_agent_def)
    have new: "ad_row_key ?n = ad_row_key seed" "live_agent ?n" "ad_row_builtin ?n" "ad_id ?n = ad_id current"
      using s by (simp_all add: live_agent_def)
    have "live_key k (vw_agents (V d'))" if k: "live_key k (vw_agents (V d))"
    proof -
      obtain x where x: "x \<in> set (vw_agents (V d))" "ad_row_key x = k" "live_agent x" "ad_row_builtin x"
        using k by (auto simp: live_key_def)
      show ?thesis
      proof (cases "ad_id x = ad_id current")
        case True
        then have "x = current" using keys cur(1) x(1) by (metis eq_key_imp_eq_value inj_onD distinct_map)
        then have "ad_row_key ?n = k" using x(2) cur(2) new(1) by simp
        then show ?thesis unfolding live_key_def rows using new by blast
      next
        case False
        then show ?thesis unfolding live_key_def rows using x new(4) by auto
      qed
    qed
    moreover have "distinct (map ad_id (vw_agents (V d')))"
      using service_db_lawsD(8) [OF laws] save unfolding sql_save_def sql_conflict_laws_def by blast
    moreover have "agents_ok (vw_agents (V d'))"
      by (rule agents_ok_more [OF ok good]) (auto simp: rows)
    moreover have "live_key (ad_row_key seed) (vw_agents (V d'))"
      unfolding live_key_def rows using new by blast
    ultimately show ?thesis by blast
  next
    case Not_Found
    let ?n = "seed\<lparr>ad_created_at := now, ad_updated_at := now\<rparr>"
    have "create_agent D now d seed = map_option (\<lambda>d'. (d', ?n)) (sql_insert (sd_agents D) d [?n])"
      using s(3-9) by (cases seed) (simp add: create_agent_def Let_def)
    then have ins: "sql_insert (sd_agents D) d [?n] = Some d'"
      using upsert Not_Found by (auto simp: upsert_agent_by_key_def s(3,4))
    note rows = insert_agent_rows [OF laws ins]
    have good: "agent_ok ?n" using s(1) by (simp add: agent_ok_def live_agent_def)
    have "agents_ok (vw_agents (V d'))"
      by (rule agents_ok_more [OF ok good]) (simp add: rows)
    moreover have "live_key (ad_row_key seed) (vw_agents (V d'))"
      unfolding live_key_def rows using s(2,6) by (auto simp: live_agent_def)
    moreover have "live_key k (vw_agents (V d'))" if "live_key k (vw_agents (V d))"
      using that unfolding live_key_def rows by auto
    moreover have "distinct (map ad_id (vw_agents (V d')))"
      using sql_insert_law [OF service_db_lawsD(7) [OF laws] ins] by blast
    ultimately show ?thesis by blast
  next
    case Read_Error
    then show ?thesis using upsert s by (auto simp: upsert_agent_by_key_def Let_def)
  qed
  then show "agents_ok (vw_agents (V d'))" "live_key (ad_row_key seed) (vw_agents (V d'))"
    "live_key k (vw_agents (V d)) \<Longrightarrow> live_key k (vw_agents (V d'))"
    "distinct (map ad_id (vw_agents (V d')))"
    by blast+
qed

text \<open>A seeding that succeeds leaves each of the specialists in place.\<close>

lemma upsert_agents_rows:
  assumes laws: "service_db_laws D V"
  shows "agents_ok (vw_agents (V d)) \<Longrightarrow> distinct (map ad_id (vw_agents (V d))) \<Longrightarrow>
    set seeds \<subseteq> set builtin_agent_seeds \<Longrightarrow> upsert_agents D now d seeds = (d', done_all) \<Longrightarrow>
    agents_ok (vw_agents (V d')) \<and> distinct (map ad_id (vw_agents (V d')))
    \<and> (\<forall>k. live_key k (vw_agents (V d)) \<longrightarrow> live_key k (vw_agents (V d')))
    \<and> (done_all \<longrightarrow> (\<forall>seed \<in> set seeds. live_key (ad_row_key seed) (vw_agents (V d'))))"
proof (induction seeds arbitrary: d)
  case Nil
  then show ?case by simp
next
  case (Cons seed seeds)
  show ?case
  proof (cases "upsert_agent_by_key D now d seed")
    case None
    then have "d' = d" "\<not> done_all" using Cons.prems(4) by auto
    then show ?thesis using Cons.prems by simp
  next
    case (Some a)
    obtain d1 r where a: "a = (d1, r)" by (cases a)
    have seed: "seed \<in> set builtin_agent_seeds" using Cons.prems(3) by simp
    note step = upsert_agent_rows [OF laws Cons.prems(1,2) seed Some [unfolded a]]
    have rest: "upsert_agents D now d1 seeds = (d', done_all)" using Cons.prems(4) Some a by simp
    have "set seeds \<subseteq> set builtin_agent_seeds" using Cons.prems(3) by simp
    from Cons.IH [OF step(1,4) this rest] show ?thesis using step(2,3) by auto
  qed
qed

lemma ensure_builtins_rows:
  assumes "service_db_laws D V" "agents_ok (vw_agents (V d))" "distinct (map ad_id (vw_agents (V d)))"
    "ensure_builtins D now d = (d', done_all)"
  shows "agents_ok (vw_agents (V d'))" "distinct (map ad_id (vw_agents (V d')))"
    "done_all \<Longrightarrow> seed \<in> set builtin_agent_seeds \<Longrightarrow> live_key (ad_row_key seed) (vw_agents (V d'))"
  using upsert_agents_rows [OF assms(1-3) order_refl assms(4) [unfolded ensure_builtins_def]] by blast+

subsection \<open>Calls\<close>

definition agents_sound :: "agent_row list \<Rightarrow> bool" where
  "agents_sound rows \<longleftrightarrow> agents_ok rows \<and> distinct (map ad_id rows)"

lemma seeded_read_sound:
  assumes "service_db_laws D V" "agents_sound (vw_agents (V d))"
  shows "agents_sound (vw_agents (V (fst (seeded_read D now d read))))"
proof -
  obtain d1 b where "ensure_builtins D now d = (d1, b)" by fastforce
  moreover from ensure_builtins_rows [OF assms(1) _ _ this] assms(2)
  have "agents_sound (vw_agents (V d1))" by (simp add: agents_sound_def)
  ultimately show ?thesis by (simp add: seeded_read_def)
qed

lemma create_agent_sound:
  assumes laws: "service_db_laws D V" and ok: "agents_sound (vw_agents (V d))"
    and good: "agent_ok row" and key: "trim_space (ad_row_key row) = ad_row_key row"
    and create: "create_agent D now d row = Some (d', r)"
  shows "agents_sound (vw_agents (V d'))"
proof -
  obtain n where ins: "sql_insert (sd_agents D) d [n] = Some d'"
    and n: "ad_row_key n = ad_row_key row" "ad_row_max_turns n = ad_row_max_turns row"
      "ad_row_denylist n = ad_row_denylist row" "ad_row_builtin n = ad_row_builtin row" "ad_deleted_at n = None"
    using create key by (auto simp: create_agent_def Let_def split: if_splits)
  have "agent_ok n" using good n by (simp add: agent_ok_def live_agent_def)
  then have "agents_ok (vw_agents (V d'))"
    using ok insert_agent_rows [OF laws ins] by (auto simp: agents_sound_def agents_ok_def)
  moreover have "distinct (map ad_id (vw_agents (V d')))"
    using sql_insert_law [OF service_db_lawsD(7) [OF laws] ins] by blast
  ultimately show ?thesis by (simp add: agents_sound_def)
qed

lemma created_agent_ok:
  assumes "normalize_agent_key raw = Inr key" "\<not> has_prefix key ''goal-''"
  shows "agent_ok (new_agent_row inp key description prompt)"
  using assms turns_normalized denylist_appended by (simp add: agent_ok_def new_agent_row_def)

lemma updated_agent_ok:
  assumes upd: "updated_agent current inp = Inr row" and ok: "agent_ok current" and live: "live_agent current"
  shows "ad_id row = ad_id current" "agent_ok (merged_agent now current row)"
    "ad_id (merged_agent now current row) = ad_id current"
proof -
  have parts: "ad_id row = ad_id current"
    "ad_row_max_turns row = option_or (ad_row_max_turns current) (map_option normalize_agent_max_turns (au_max_turns inp))"
    "ad_row_denylist row = option_or (ad_row_denylist current)
       (map_option (\<lambda>l. append_default_agent_denylist (clean_string_list l)) (au_denylist inp))"
    using upd by (auto simp: updated_agent_def bind_result_def split: sum.splits)
  have "1 \<le> ad_row_max_turns row \<and> ad_row_max_turns row \<le> agent_max_turns_cap"
    using parts(2) ok turns_normalized by (cases "au_max_turns inp") (auto simp: option_or_def agent_ok_def)
  moreover have "set default_agent_denylist \<subseteq> set (ad_row_denylist row)"
    using parts(3) ok denylist_appended by (cases "au_denylist inp") (auto simp: option_or_def agent_ok_def)
  ultimately show "agent_ok (merged_agent now current row)"
    using ok live by (simp add: merged_agent_def agent_ok_def live_agent_def)
  show "ad_id row = ad_id current" by (rule parts(1))
  show "ad_id (merged_agent now current row) = ad_id current" by (simp add: merged_agent_def)
qed

lemma save_agent_sound:
  assumes laws: "service_db_laws D V" and ok: "agents_sound (vw_agents (V d))" and good: "agent_ok r"
    and save: "sql_save (sd_agents D) d r = Some d'"
  shows "agents_sound (vw_agents (V d'))"
proof -
  have "distinct (map ad_id (vw_agents (V d')))"
    using service_db_lawsD(8) [OF laws] save unfolding sql_save_def sql_conflict_laws_def by blast
  moreover have "agents_ok (vw_agents (V d'))"
    using ok good save_agent_rows [OF laws save] by (auto simp: agents_sound_def agents_ok_def)
  ultimately show ?thesis by (simp add: agents_sound_def)
qed

lemma soft_delete_sound:
  assumes laws: "service_db_laws D V" and ok: "agents_sound (vw_agents (V d))"
  shows "agents_sound (vw_agents (V (fst (soft_delete_agent D now d i))))"
proof (cases "get_agent D d i")
  case (Some current)
  note cur = get_agent_found [OF laws Some]
  show ?thesis
  proof (cases "ad_row_builtin current")
    case False
    let ?f = "\<lambda>r. r\<lparr>ad_deleted_at := Some now, ad_updated_at := now\<rparr>"
    show ?thesis
    proof (cases "sql_update (sd_agents D) d (\<lambda>r. ad_id r = i) ?f")
      case None
      then show ?thesis using ok Some False by (simp add: soft_delete_agent_def)
    next
      case (Some a)
      obtain d1 n where a: "a = (d1, n)" by (cases a)
      note law = sql_update_law [OF service_db_lawsD(7) [OF laws] Some [unfolded a]]
      then have rows: "set (vw_agents (V d1)) =
          (\<lambda>r. if ad_id r = i then ?f r else r) ` set (vw_agents (V d))"
        by (metis (no_types, lifting) list.set_map mset_eq_setD)
      have same: "r = current" if "r \<in> set (vw_agents (V d))" "ad_id r = i" for r
        using that cur(1,2) ok unfolding agents_sound_def by (metis distinct_map inj_onD)
      have "agent_ok (?f current)"
        using False cur(1) ok by (auto simp: agents_sound_def agents_ok_def agent_ok_def)
      then have "agents_ok (vw_agents (V d1))"
        using ok same unfolding agents_ok_def rows agents_sound_def by auto
      then show ?thesis
        using law Some a \<open>get_agent D d i = Some current\<close> False
        by (simp add: soft_delete_agent_def agents_sound_def)
    qed
  qed (use ok Some in \<open>simp add: soft_delete_agent_def\<close>)
qed (use ok in \<open>simp add: soft_delete_agent_def\<close>)

lemma agent_call_sound:
  assumes laws: "service_db_laws D V" and ok: "agents_sound (vw_agents (V d))"
  shows "agents_sound (vw_agents (V (run_agent_call D now d c)))"
proof (cases c)
  case (Agent_Create inp)
  have "agents_sound (vw_agents (V d'))"
    if key: "normalize_agent_key (ac_key inp) = Inr key" and custom: "\<not> has_prefix key ''goal-''"
      and new: "create_agent D now d (new_agent_row inp key description prompt) = Some (d', r)"
    for key description prompt d' r
    using create_agent_sound [OF laws ok created_agent_ok [OF key custom] _ new] normalized_key(4) [OF key]
    by (simp add: new_agent_row_def)
  then show ?thesis
    using Agent_Create ok
    by (auto simp: agent_service_create_def or_fail_def split: sum.splits option.splits)
next
  case (Agent_Update i inp)
  have "agents_sound (vw_agents (V d'))"
    if got: "get_agent D d i = Some current" and row: "updated_agent current inp = Inr row"
      and upd: "update_agent D now d row = Some (d', r)" for current row d' r
  proof -
    note cur = get_agent_found [OF laws got]
    have good: "agent_ok current" using ok cur(1) by (simp add: agents_sound_def agents_ok_def)
    note new = updated_agent_ok [OF row good cur(3)]
    have "get_agent D d (ad_id row) = Some current" using got new(1) cur(2) by simp
    then have "sql_save (sd_agents D) d (merged_agent now current row) = Some d'"
      using upd by (auto simp: update_agent_def)
    from save_agent_sound [OF laws ok new(2) this] show ?thesis .
  qed
  then show ?thesis
    using Agent_Update ok
    by (auto simp: agent_service_update_def or_fail_def split: sum.splits option.splits)
next
  case (Agent_Delete i)
  then show ?thesis using soft_delete_sound [OF laws ok] by simp
qed (use seeded_read_sound [OF laws ok] in
    \<open>simp_all add: agent_service_list_def agent_service_list_enabled_def agent_service_get_def
      agent_service_get_by_key_def\<close>)

definition run_agent_calls :: "'d service_db \<Rightarrow> (int \<times> agent_call) list \<Rightarrow> 'd \<Rightarrow> 'd" where
  "run_agent_calls D calls d = fold (\<lambda>(now, c) d. run_agent_call D now d c) calls d"

lemma run_agent_calls_sound:
  assumes "service_db_laws D V" "agents_sound (vw_agents (V d))"
  shows "agents_sound (vw_agents (V (run_agent_calls D calls d)))"
  using assms(2)
proof (induction calls arbitrary: d)
  case (Cons a calls)
  then show ?case using agent_call_sound [OF assms(1)] by (cases a) (simp add: run_agent_calls_def)
qed (simp add: run_agent_calls_def)

text \<open>
  C34. Whatever calls the service of agents gets, every stored agent has between 1 and 48 turns, is
  denied the tools of goals, checklists and workers, and is builtin exactly if its key begins with
  \<^verbatim>\<open>goal-\<close>; no builtin agent is deleted, and after a read that succeeds all five specialists are there.
\<close>

theorem agents_stay_sound:
  assumes "service_db_laws D V" "agents_sound (vw_agents (V d))"
  shows "agents_sound (vw_agents (V (run_agent_calls D calls d)))
    \<and> (snd (agent_service_list D now (run_agent_calls D calls d)) \<noteq> None \<longrightarrow>
        list_all (\<lambda>seed. live_key (ad_row_key seed)
           (vw_agents (V (fst (agent_service_list D now (run_agent_calls D calls d)))))) builtin_agent_seeds)"
proof (intro conjI impI)
  show sound: "agents_sound (vw_agents (V (run_agent_calls D calls d)))"
    by (rule run_agent_calls_sound [OF assms])
  assume "snd (agent_service_list D now (run_agent_calls D calls d)) \<noteq> None"
  then obtain e where "ensure_builtins D now (run_agent_calls D calls d) = (e, True)"
    and e: "fst (agent_service_list D now (run_agent_calls D calls d)) = e"
    by (auto simp: agent_service_list_def seeded_read_def split: prod.splits if_splits)
  from ensure_builtins_rows(3) [OF assms(1) _ _ this(1)] sound
  show "list_all (\<lambda>seed. live_key (ad_row_key seed)
      (vw_agents (V (fst (agent_service_list D now (run_agent_calls D calls d)))))) builtin_agent_seeds"
    unfolding e list_all_iff by (auto simp: agents_sound_def)
qed

text \<open>
  The edits of a specialist whose prompt is that of its seed do not survive the next read: its turns,
  its lists of tools, its name and its description are those of the seed again.
\<close>

theorem edit_without_prompt_reset:
  assumes "ad_row_prompt current = ad_row_prompt seed" "ad_row_builtin seed"
  shows "reseeded now current seed = seed
    \<lparr>ad_id := ad_id current, ad_created_at := ad_created_at current, ad_updated_at := now,
     ad_row_enabled := ad_row_enabled current\<rparr>"
  using assms by (simp add: reseeded_def Let_def)

definition sample_agent :: agent_create where
  "sample_agent = \<lparr>ac_key = ''a'', ac_create_name = ''A'', ac_name_zh = [], ac_phase = [],
     ac_description = [], ac_prompt = [], ac_allowlist = [], ac_denylist = [], ac_max_turns = 90,
     ac_enabled = None, ac_sort_order = 1\<rparr>"

definition sample_calls :: "(int \<times> agent_call) list" where
  "sample_calls = [(1, Agent_Create sample_agent)]"

lemma mem_agents: "sd_agents mem_service_db = embed_table vw_agents (\<lambda>d s. s\<lparr>vw_agents := d\<rparr>)
    (list_table ad_id unique_agent_keys (\<lambda>r x. ad_id x = ad_id r))"
  by (simp add: mem_service_db_def)

lemma mem_upsert_new:
  fixes now :: int
  assumes seed: "seed \<in> set builtin_agent_seeds"
    and ids: "distinct (map ad_id (vw_agents d @ [seed]))"
    and keys: "distinct (map ad_row_key (vw_agents d @ [seed]))"
  defines "n \<equiv> seed\<lparr>ad_created_at := now, ad_updated_at := now\<rparr>"
  shows "upsert_agent_by_key mem_service_db now d seed = Some (d\<lparr>vw_agents := vw_agents d @ [n]\<rparr>, n)"
proof -
  note s = seeds_ok [OF seed]
  have create: "create_agent mem_service_db now d seed =
      map_option (\<lambda>d'. (d', n)) (sql_insert (sd_agents mem_service_db) d [n])"
    using s(3-9) unfolding n_def by (cases seed) (simp add: create_agent_def Let_def)
  have "ad_row_key r \<noteq> ad_row_key seed" if "r \<in> set (vw_agents d)" for r
    using keys that by (auto simp: image_iff)
  then have "first_agent mem_service_db d (\<lambda>r. ad_row_key r = ad_row_key seed) = Not_Found"
    by (simp add: first_agent_def sql_first_def mem_agents filter_False cong: conj_cong)
  moreover have "unique_agent_keys (vw_agents d @ [n])"
    using keys by (auto simp: unique_agent_keys_def n_def distinct_map_filter)
  ultimately show ?thesis
    using ids create s(3,4) by (simp add: upsert_agent_by_key_def mem_agents n_def)
qed

lemma mem_upserts:
  "set seeds \<subseteq> set builtin_agent_seeds \<Longrightarrow> distinct (map ad_id (vw_agents d @ seeds)) \<Longrightarrow>
    distinct (map ad_row_key (vw_agents d @ seeds)) \<Longrightarrow> snd (upsert_agents mem_service_db now d seeds)"
proof (induction seeds arbitrary: d)
  case (Cons seed seeds)
  let ?n = "seed\<lparr>ad_created_at := now, ad_updated_at := now\<rparr>"
  have "upsert_agent_by_key mem_service_db now d seed = Some (d\<lparr>vw_agents := vw_agents d @ [?n]\<rparr>, ?n)"
    by (rule mem_upsert_new) (use Cons.prems in auto)
  moreover have "snd (upsert_agents mem_service_db now (d\<lparr>vw_agents := vw_agents d @ [?n]\<rparr>) seeds)"
    by (rule Cons.IH) (use Cons.prems in auto)
  ultimately show ?case by simp
qed simp

lemma sample_facts:
  "normalize_agent_key ''a'' = Inr ''a''" "trim_space ''a'' = ''a''" "trim_space ''A'' = ''A''"
  "int_dec 1 = ''1''" "rune_count [] = 0"
  by code_simp+

lemma sample_rows: "map (\<lambda>r. (ad_id r, ad_row_key r))
    (vw_agents (run_agent_calls mem_service_db sample_calls empty_service_rows)) = [(''agent_1'', ''a'')]"
  by (simp add: run_agent_calls_def sample_calls_def sample_agent_def agent_service_create_def sample_facts
      clamp_runes_def new_agent_row_def create_agent_def Let_def mem_agents empty_service_rows_def
      has_prefix_def unique_agent_keys_def del: upsert_agents.simps)

lemma sample_read: "snd (agent_service_list mem_service_db 4
    (run_agent_calls mem_service_db sample_calls empty_service_rows)) \<noteq> None"
proof -
  let ?d = "run_agent_calls mem_service_db sample_calls empty_service_rows"
  from arg_cong [OF sample_rows, of "map fst"] arg_cong [OF sample_rows, of "map snd"]
  have rows: "map ad_id (vw_agents ?d) = [''agent_1'']" "map ad_row_key (vw_agents ?d) = [''a'']"
    by (simp_all add: comp_def)
  have "snd (ensure_builtins mem_service_db 4 ?d)"
    unfolding ensure_builtins_def
    by (rule mem_upserts) (simp_all add: rows seed_keys, simp add: builtin_agent_seeds_def seed_defs)
  then show ?thesis
    by (cases "ensure_builtins mem_service_db 4 ?d")
      (simp add: agent_service_list_def seeded_read_def list_agents_def sql_limit_def mem_agents)
qed

theorem agents_stay_sound_witness:
  "agents_sound (vw_agents (run_agent_calls mem_service_db sample_calls empty_service_rows))
    \<and> list_all (\<lambda>seed. live_key (ad_row_key seed) (vw_agents
        (fst (agent_service_list mem_service_db 4
           (run_agent_calls mem_service_db sample_calls empty_service_rows))))) builtin_agent_seeds"
proof -
  have "agents_sound (vw_agents empty_service_rows)"
    by (simp add: agents_sound_def agents_ok_def empty_service_rows_def)
  from agents_stay_sound [OF mem_service_db_laws this, of sample_calls 4] sample_read
  show ?thesis by simp
qed

end
