(* ===== verification/Start_Props.thy ===== *)
theory Start_Props
  imports Run_Start Agent_Props Run_Properties
begin

text \<open>
  Properties of the start of a run: a start that fails after the admission frees its session, what the
  runtime gets is what the request asked for and the tables hold, and a start for a goal that is
  refused leaves the goal behind.
\<close>

subsection \<open>Failures after the admission\<close>

definition run_failed :: "run_row list \<Rightarrow> string \<Rightarrow> bool" where
  "run_failed rows run \<longleftrightarrow> (\<forall>r \<in> set rows. rr_id r = run \<longrightarrow> rr_status r = ''failed'')"

lemma finish_run_failed:
  assumes laws: "gateway_db_laws D V" and "finish_run D now d run ''failed'' err = Some d'" "run \<noteq> []"
  shows "run_failed (row_runs (V d')) run"
proof -
  let ?f = "\<lambda>r. r\<lparr>rr_status := ''failed'', rr_finished_at := Some now, rr_updated_at := now,
     rr_error := (if err \<noteq> [] then err else rr_error r)\<rparr>"
  have "map_option fst (sql_update (db_runs D) d (\<lambda>r. rr_id r = run) ?f) = Some d'"
    using assms(2,3) by (simp add: finish_run_def)
  then obtain n where "sql_update (db_runs D) d (\<lambda>r. rr_id r = run) ?f = Some (d', n)"
    by (cases "sql_update (db_runs D) d (\<lambda>r. rr_id r = run) ?f") auto
  from conjunct1 [OF sql_update_law [OF gateway_db_lawsD(1) [OF laws] this]]
  have rows: "set (row_runs (V d')) = (\<lambda>r. if rr_id r = run then ?f r else r) ` set (row_runs (V d))"
    by (simp only: set_map flip: set_mset_mset) simp
  have "rr_status (if rr_id r = run then ?f r else r) = ''failed''"
    if "rr_id (if rr_id r = run then ?f r else r) = run" for r
    using that by (cases "rr_id r = run") simp_all
  then show ?thesis unfolding run_failed_def rows ball_simps by (intro ballI impI)
qed

text \<open>The row is failed, or it was the statement that fails it which failed.\<close>

definition freed :: "'d service_db \<Rightarrow> ('d \<Rightarrow> service_rows) \<Rightarrow> 'd start_env \<Rightarrow> string \<Rightarrow> svc_error \<Rightarrow> 'd \<Rightarrow> bool" where
  "freed D V E run e d \<longleftrightarrow>
     run_failed (row_runs (vw_core (V d))) run
     \<or> (\<exists>now. finish_run (sd_core D) now d run ''failed'' (error_text E e) = None)"

lemma fail_run_freed:
  assumes laws: "service_db_laws D V" and "run \<noteq> []" and fail: "fail_run D E now d run e0 = (d', Inl e)"
  shows "freed D V E run e d'"
proof (cases "finish_run (sd_core D) now d run ''failed'' (error_text E e0)")
  case None
  then have "d' = d" "e = e0" using fail by (simp_all add: fail_run_def)
  with None show ?thesis unfolding freed_def by blast
next
  case (Some d1)
  then have "d' = d1" using fail by (simp add: fail_run_def)
  with finish_run_failed [OF service_db_lawsD(1) [OF laws] Some assms(2)] show ?thesis
    by (simp add: freed_def)
qed

lemma call_runtime_freed:
  assumes "service_db_laws D V" "rp_run_id p \<noteq> []"
    "call_runtime D E clock d payload session p runtime = (d', Inl e)"
  shows "freed D V E (rp_run_id p) e d'"
  using assms(3) fail_run_freed [OF assms(1,2)]
  by (auto simp: call_runtime_def Let_def split: prod.splits sum.splits)

lemma bind_result_Inr: "bind_result r k = Inr x \<Longrightarrow> \<exists>y. r = Inr y \<and> k y = Inr x"
  by (auto simp: bind_result_def split: sum.splits)

text \<open>What the steps of the preparation leave alone, and what they add.\<close>

lemma map_options_simps [simp]:
  "rp_run_id (map_options f p) = rp_run_id p" "rp_session_id (map_options f p) = rp_session_id p"
  "rp_options (map_options f p) = f (rp_options p)" "rp_text (map_options f p) = rp_text p"
  "rp_conversation (map_options f p) = rp_conversation p" "rp_working_dir (map_options f p) = rp_working_dir p"
  by (simp_all add: map_options_def)

definition same_request :: "run_params \<Rightarrow> run_params \<Rightarrow> bool" where
  "same_request p q \<longleftrightarrow>
     rp_run_id q = rp_run_id p \<and> rp_session_id q = rp_session_id p \<and> rp_text q = rp_text p
     \<and> rp_conversation q = rp_conversation p \<and> rp_working_dir q = rp_working_dir p
     \<and> ro_permission_mode (rp_options q) = ro_permission_mode (rp_options p)
     \<and> ro_tool_policy (rp_options q) = ro_tool_policy (rp_options p)
     \<and> ro_allowlist (rp_options q) = ro_allowlist (rp_options p)
     \<and> ro_denylist (rp_options q) = ro_denylist (rp_options p)
     \<and> ro_require_permission (rp_options q) = ro_require_permission (rp_options p)
     \<and> ro_profile_id (rp_options q) = ro_profile_id (rp_options p)
     \<and> ro_worker_permit (rp_options q) = ro_worker_permit (rp_options p)
     \<and> ro_provider_permit (rp_options q) = ro_provider_permit (rp_options p)"

lemma same_request_refl [simp]: "same_request p p"
  by (simp add: same_request_def)

lemma same_request_trans: "same_request p q \<Longrightarrow> same_request q r \<Longrightarrow> same_request p r"
  by (simp add: same_request_def)

text \<open>The fields that only the tables of agents and profiles set.\<close>

definition same_tables :: "run_params \<Rightarrow> run_params \<Rightarrow> bool" where
  "same_tables p q \<longleftrightarrow>
     ro_agents (rp_options q) = ro_agents (rp_options p)
     \<and> ro_goals_enabled (rp_options q) = ro_goals_enabled (rp_options p)
     \<and> ro_api_key (rp_options q) = ro_api_key (rp_options p)
     \<and> ro_base_url (rp_options q) = ro_base_url (rp_options p)"

definition same_goal :: "run_params \<Rightarrow> run_params \<Rightarrow> bool" where
  "same_goal p q \<longleftrightarrow>
     ro_goal_id (rp_options q) = ro_goal_id (rp_options p)
     \<and> ro_goal_context (rp_options q) = ro_goal_context (rp_options p)
     \<and> ro_max_tool_turns (rp_options q) = ro_max_tool_turns (rp_options p)"

lemmas same_defs = same_request_def same_tables_def same_goal_def

lemma memory_step:
  "apply_memory_context D d p = Inr q \<Longrightarrow> same_request p q \<and> same_tables p q \<and> same_goal p q"
  by (auto simp: apply_memory_context_def same_defs split: option.splits if_splits)

lemma todo_step:
  assumes "apply_todo_context D d p = Inr q"
  shows "same_request p q \<and> same_tables p q \<and> same_goal p q"
proof -
  obtain r where "(case r of None \<Rightarrow> Inr p | Some (items, ctx) \<Rightarrow>
      Inr (if trim_space ctx = [] then p
           else map_options (\<lambda>opts. opts\<lparr>ro_todo := Some (items, ctx)\<rparr>) p)) = (Inr q :: svc_error + run_params)"
    using bind_result_Inr [OF assms [unfolded apply_todo_context_def]] by blast
  then have "q = p \<or> (\<exists>x. q = map_options (\<lambda>opts. opts\<lparr>ro_todo := x\<rparr>) p)"
    by (cases r) (auto split: if_splits)
  then show ?thesis by (elim disjE exE) (simp_all add: same_defs)
qed

lemma bind_step:
  "bind_run_goal D clock d p i c = (d', Inr q) \<Longrightarrow> same_request p q \<and> same_tables p q"
  by (auto simp: bind_run_goal_def same_defs split: prod.splits sum.splits)

lemma goal_step_cases:
  assumes "apply_goal_binding D clock d p opts = (d', Inr q)"
  shows "q = p \<or> ro_goals_enabled (rp_options p) \<noteq> Some False
      \<and> (\<exists>ck dd i c. bind_run_goal D ck dd p i c = (d', Inr q))"
proof (cases "ro_goals_enabled (rp_options p) = Some False")
  case True
  then show ?thesis using assms by (simp add: apply_goal_binding_def Let_def split: if_splits)
next
  case False
  let ?d1 = "fst (repair_stale_active (sd_core D) (clock 0) d (rp_session_id p))"
  let ?i = "string_option opts ''goal_id''" and ?c = "bool_option opts ''continue_goal''"
  show ?thesis
  proof (cases "bool_option opts ''create_goal'' \<and> ?i = []")
    case True
    then show ?thesis
      using assms False
      by (cases "create_user_initiated (sd_core D) (later 1 clock) ?d1 (rp_session_id p)
            (goal_to_create opts p) (string_option opts ''goal_title'')
            (string_option opts ''goal_success_criteria'')")
        (auto simp: apply_goal_binding_def Let_def split: if_splits sum.splits)
  next
    case no: False
    show ?thesis
      using assms False no
      unfolding apply_goal_binding_def Let_def if_not_P [OF False] if_not_P [OF no]
      by (cases "?i \<noteq> [] \<or> ?c") auto
  qed
qed

lemma goal_step:
  assumes "apply_goal_binding D clock d p opts = (d', Inr q)"
  shows "same_request p q \<and> same_tables p q"
    "ro_goals_enabled (rp_options p) = Some False \<Longrightarrow> q = p"
proof -
  note c = goal_step_cases [OF assms]
  show "ro_goals_enabled (rp_options p) = Some False \<Longrightarrow> q = p" using c by blast
  have "same_request p p \<and> same_tables p p" by (simp add: same_tables_def)
  with c show "same_request p q \<and> same_tables p q" by (metis bind_step)
qed

text \<open>The profile of a request names an active, stored profile.\<close>

lemma profile_step:
  assumes laws: "service_db_laws D V" and step: "apply_provider_profile D E d p = Inr q"
  shows "same_request p q" "same_goal p q" "ro_agents (rp_options q) = ro_agents (rp_options p)"
    "ro_goals_enabled (rp_options q) = ro_goals_enabled (rp_options p)"
    "ro_profile_id (rp_options p) \<noteq> [] \<Longrightarrow> \<exists>r \<in> set (vw_profiles (V d)).
       pp_id r = ro_profile_id (rp_options p) \<and> live_profile r \<and> pp_active r
       \<and> ro_api_key (rp_options q) = pp_api_key_secret r \<and> ro_base_url (rp_options q) = pp_base_url r"
    "ro_profile_id (rp_options p) = [] \<Longrightarrow> q = p"
proof -
  show "same_request p q" "same_goal p q" "ro_agents (rp_options q) = ro_agents (rp_options p)"
    "ro_goals_enabled (rp_options q) = ro_goals_enabled (rp_options p)"
    "ro_profile_id (rp_options p) = [] \<Longrightarrow> q = p"
    using step by (auto simp: apply_provider_profile_def Let_def same_defs split: option.splits if_splits)
  assume "ro_profile_id (rp_options p) \<noteq> []"
  then obtain r where r: "get_profile D d (ro_profile_id (rp_options p)) = Some r" "pp_active r"
    "ro_api_key (rp_options q) = pp_api_key_secret r" "ro_base_url (rp_options q) = pp_base_url r"
    using step by (auto simp: apply_provider_profile_def Let_def split: option.splits if_splits)
  have "r \<in> set (vw_profiles (V d))" "pp_id r = ro_profile_id (rp_options p)" "live_profile r"
    using sql_first_Found [OF service_db_lawsD(5) [OF laws],
        of d "\<lambda>x. pp_id x = ro_profile_id (rp_options p) \<and> live_profile x" "\<lambda>x. [(0, pp_id x)]" r] r(1)
    by (auto simp: get_profile_def)
  with r show "\<exists>r \<in> set (vw_profiles (V d)).
       pp_id r = ro_profile_id (rp_options p) \<and> live_profile r \<and> pp_active r
       \<and> ro_api_key (rp_options q) = pp_api_key_secret r \<and> ro_base_url (rp_options q) = pp_base_url r"
    by blast
qed

text \<open>The whole preparation.\<close>

definition sent_sound :: "('d \<Rightarrow> service_rows) \<Rightarrow> 'd \<Rightarrow> go_map \<Rightarrow> run_params \<Rightarrow> run_params \<Rightarrow> bool" where
  "sent_sound V d opts p q \<longleftrightarrow>
     same_request p q
     \<and> ro_goals_enabled (rp_options q) = Some (bool_option opts ''goals_enabled'')
     \<and> (\<not> bool_option opts ''goals_enabled'' \<longrightarrow> same_goal p q)
     \<and> (\<forall>a \<in> set (ro_agents (rp_options q)).
          1 \<le> ad_default_max_turns a \<and> ad_default_max_turns a \<le> agent_max_turns_cap
          \<and> set default_agent_denylist \<subseteq> set (list_of_slice (ad_tool_denylist a)))
     \<and> (ro_profile_id (rp_options p) \<noteq> [] \<longrightarrow>
          (\<exists>r \<in> set (vw_profiles (V d)). pp_id r = ro_profile_id (rp_options p) \<and> live_profile r \<and> pp_active r
             \<and> ro_api_key (rp_options q) = pp_api_key_secret r \<and> ro_base_url (rp_options q) = pp_base_url r))"

lemma snapshot_sound:
  assumes "agent_ok r"
  shows "1 \<le> ad_default_max_turns (agent_snapshot r) \<and> ad_default_max_turns (agent_snapshot r) \<le> agent_max_turns_cap
    \<and> set default_agent_denylist \<subseteq> set (list_of_slice (ad_tool_denylist (agent_snapshot r)))"
  using assms by (auto simp: agent_ok_def agent_snapshot_def list_of_slice_def)

lemma agents_step:
  assumes laws: "service_db_laws D V" and ok: "agents_sound (vw_agents (V d))"
    and step: "apply_agent_definitions D E now d p = (d1, Inr q)"
  shows "\<exists>rows. (\<forall>r \<in> set rows. agent_ok r) \<and> q = map_options (\<lambda>opts. opts\<lparr>ro_agents := map agent_snapshot rows\<rparr>) p"
proof -
  obtain rows where rows: "agent_service_list D now d = (d1, Some rows)"
    "q = map_options (\<lambda>opts. opts\<lparr>ro_agents := map agent_snapshot rows\<rparr>) p"
    using step by (auto simp: apply_agent_definitions_def split: prod.splits option.splits)
  have "agents_sound (vw_agents (V d1))"
    using seeded_read_sound [OF laws ok, of now "\<lambda>d1. list_agents D d1 200"] rows(1)
    by (simp add: agent_service_list_def)
  moreover have "list_agents D d1 200 = Some rows"
    using rows(1) by (auto simp: agent_service_list_def seeded_read_def split: prod.splits if_splits)
  then obtain xs where "sql_select (sd_agents D) d1 live_agent agent_order = Some xs" "set rows \<subseteq> set xs"
    by (auto simp: list_agents_def sql_limit_def dest: in_set_takeD)
  moreover from sql_select_law [OF service_db_lawsD(7) [OF laws] this(1)]
  have "set xs \<subseteq> set (vw_agents (V d1))"
    by (metis filter_is_subset mset_eq_setD)
  ultimately have "\<forall>r \<in> set rows. agent_ok r" by (auto simp: agents_sound_def agents_ok_def)
  with rows(2) show ?thesis by blast
qed

lemma profiles_kept:
  assumes laws: "service_db_laws D V" and "agent_service_list D now d = (d1, r)"
  shows "vw_profiles (V d1) = vw_profiles (V d)"
proof -
  have frame: "sql_frame (sd_agents D) (\<lambda>d. vw_profiles (V d))"
    by (rule sql_frame_part [OF service_db_lawsD(14) [OF laws], where h = vw_profiles]) simp
  have one: "vw_profiles (V e1) = vw_profiles (V e)"
    if "upsert_agent_by_key D now e seed = Some (e1, x)" for e e1 seed x
    using that sql_frame_law(1,5) [OF frame]
    by (auto simp: upsert_agent_by_key_def create_agent_def sql_save_def Let_def
        split: if_splits first_result.splits)
  have "vw_profiles (V (fst (upsert_agents D now e seeds))) = vw_profiles (V e)" for e seeds
  proof (induction seeds arbitrary: e)
    case (Cons seed seeds)
    then show ?case using one by (auto split: option.splits)
  qed simp
  then show ?thesis
    using assms(2) unfolding agent_service_list_def seeded_read_def ensure_builtins_def
    by (auto split: prod.splits) (metis fst_conv)+
qed


lemma prepared_request:
  assumes "prepare_run D E clock d opts p = (d', Inr q)"
  shows "rp_run_id q = rp_run_id p"
proof -
  obtain d1 p1 where agents: "apply_agent_definitions D E (clock 0) d p = (d1, Inr p1)"
    using assms by (auto simp: prepare_run_def split: prod.splits sum.splits)
  then have "rp_run_id (goals_flag opts p1) = rp_run_id p"
    by (auto simp: apply_agent_definitions_def goals_flag_def split: prod.splits option.splits)
  moreover obtain p3 where mid: "bind_result (apply_provider_profile D E d1 (goals_flag opts p1)) (\<lambda>p2.
        bind_result (apply_memory_context D d1 p2) (apply_todo_context D d1)) = Inr p3"
    and goal: "apply_goal_binding D (later 1 clock) d1 p3 opts = (d', Inr q)"
    using assms agents by (auto simp: prepare_run_def split: sum.splits)
  obtain p2 where prof: "apply_provider_profile D E d1 (goals_flag opts p1) = Inr p2"
    and rest: "bind_result (apply_memory_context D d1 p2) (apply_todo_context D d1) = Inr p3"
    using bind_result_Inr [OF mid] by blast
  obtain pm where pm: "apply_memory_context D d1 p2 = Inr pm" "apply_todo_context D d1 pm = Inr p3"
    using bind_result_Inr [OF rest] by blast
  have "rp_run_id q = rp_run_id p2"
    using memory_step [OF pm(1)] todo_step [OF pm(2)] goal_step(1) [OF goal] unfolding same_request_def by metis
  moreover have "rp_run_id p2 = rp_run_id (goals_flag opts p1)"
    using prof by (auto simp: apply_provider_profile_def Let_def split: option.splits if_splits)
  ultimately show ?thesis by simp
qed

lemma launch_freed:
  assumes laws: "service_db_laws D V" and run: "run \<noteq> []"
    and launch: "launch_run D E clock d counter payload run session runtime = ((d', Inl e), c)"
  shows "freed D V E run e d'"
proof (cases "build_run_conversation D d (ss_id session)")
  case None
  then show ?thesis using launch fail_run_freed [OF laws run] by (auto simp: launch_run_def)
next
  case (Some conversation)
  let ?add = "add_message (sd_core D) (clock 0) counter d (ss_id session) ''user''
      (string_arg (sp_input payload) ''text'') run"
  show ?thesis
  proof (cases "fst ?add")
    case None
    then show ?thesis using launch Some fail_run_freed [OF laws run]
      by (cases ?add) (auto simp: launch_run_def)
  next
    case (Some a)
    obtain d1 m where a: "a = (d1, m)" by (cases a)
    let ?p = "run_params_of E payload run session conversation"
    have step: "or_fail_run D E (clock 1) run (prepare_run D E (later 2 clock) d1 (sp_options payload) ?p)
        (\<lambda>d2 p. call_runtime D E (later 40 clock) d2 payload session p runtime) = (d', Inl e)"
      using launch Some a \<open>build_run_conversation D d (ss_id session) = Some conversation\<close>
      by (cases ?add) (auto simp: launch_run_def)
    show ?thesis
    proof (cases "prepare_run D E (later 2 clock) d1 (sp_options payload) ?p")
      case (Pair d2 r)
      show ?thesis
      proof (cases r)
        case (Inl e0)
        then show ?thesis using step Pair fail_run_freed [OF laws run] by (simp add: or_fail_run_def)
      next
        case (Inr q)
        have "rp_run_id q = run"
          using prepared_request [OF Pair [unfolded Inr]] by (simp add: run_params_of_def)
        with step Pair Inr call_runtime_freed [OF laws, of q] run show ?thesis
          by (auto simp: or_fail_run_def)
      qed
    qed
  qed
qed

text \<open>
  C36. A start that fails after its admission, at whatever step and whatever the runtime or the other
  handlers did to the database meanwhile, leaves its run failed and with it its session free, unless
  the very statement that fails the run is refused.
\<close>

theorem failed_start_frees_session:
  assumes laws: "service_db_laws D V"
    and admit: "admit_run (sd_core D) (se_owner E) (se_concurrency E) clock (fst s) payload = (d1, Inr (run, session))"
    and start: "start_service D E clock s payload = ((d', c), Inl e)" and client: "se_runtime E \<noteq> None"
  shows "run_failed (row_runs (vw_core (V d'))) run
    \<or> (\<exists>now. finish_run (sd_core D) now d' run ''failed'' (error_text E e) = None)"
proof -
  have "run = new_run_id (clock 0)"
    using admit by (auto simp: admit_run_def Let_def or_fail_def split: option.splits if_splits prod.splits)
  then have "run \<noteq> []" by (simp add: new_run_id_def)
  moreover obtain runtime where r: "se_runtime E = Some runtime" using client by auto
  obtain d2 x c2 where "launch_run D E (later 4 clock) d1 (snd s) payload run session runtime = ((d2, x), c2)"
    by (metis prod.exhaust)
  with start r admit have
    "launch_run D E (later 4 clock) d1 (snd s) payload run session runtime = ((d', Inl e), c)"
    by (simp add: start_service_def)
  ultimately show ?thesis using launch_freed [OF laws] unfolding freed_def by blast
qed

subsection \<open>Goals\<close>

lemma created_goal_pending:
  assumes laws: "gateway_db_laws D V"
    and create: "create_user_initiated D clock d session objective title criteria = (d', Inr g)"
  shows "\<exists>r \<in> set (row_goals (V d')). gr_id r = gd_id g \<and> gr_status r = Goal_Pending
    \<and> gr_session_id r = trim_space session"
proof -
  obtain d1 t c created where new: "create_goal D (clock 2) d1 (zero_goal_row
        \<lparr>gr_session_id := trim_space session, gr_title := t, gr_objective := trim_space objective,
         gr_success_criteria := c, gr_status := Goal_Pending, gr_pipeline_phase := ''analyze'',
         gr_created_at := clock 1, gr_updated_at := clock 1\<rparr>) = Some (d', created)"
    and g: "g = goal_dto_of created"
    using create unfolding create_user_initiated_def Let_def or_fail_def
    by (auto split: if_splits prod.splits sum.splits option.splits)
  define row where "row = zero_goal_row
        \<lparr>gr_session_id := trim_space session, gr_title := t, gr_objective := trim_space objective,
         gr_success_criteria := c, gr_status := Goal_Pending, gr_pipeline_phase := ''analyze'',
         gr_created_at := clock 1, gr_updated_at := clock 1\<rparr>"
  have row: "gr_status row = Goal_Pending" "gr_session_id row = trim_space session"
    by (simp_all add: row_def)
  have c: "create_goal D (clock 2) d1 row = Some (d', prepare_goal (clock 2) row)"
    and g: "g = goal_dto_of (prepare_goal (clock 2) row)"
    using new g unfolding row_def by (auto simp: create_goal_def)
  let ?n = "prepare_goal (clock 2) row"
  have "sql_insert (db_goals D) d1 [?n] = Some d'" using c by (auto simp: create_goal_def)
  from sql_insert_law [OF gateway_db_lawsD(2) [OF laws] this]
  have "?n \<in> set (row_goals (V d'))"
    by (metis list.set_intros(1) mset_append mset_eq_setD UnCI set_append)
  moreover have "gr_status ?n = Goal_Pending" "gr_session_id ?n = trim_space session"
    using row by (simp_all add: prepare_goal_def apply_budget_defaults_def)
  moreover have "gr_id ?n = gd_id g" using g by (simp add: goal_dto_of_def)
  ultimately show ?thesis by blast
qed

lemma admit_refused:
  assumes laws: "gateway_db_laws D V" and "r \<in> set (row_runs (V d))" "live_run_status (rr_status r)"
    and "rr_session_id r = sp_session_id payload" "sp_session_id payload \<noteq> []"
    and admit: "admit_run D owner env clock d payload = (d', x)"
  shows "\<exists>e. x = Inl e" "row_goals (V d') = row_goals (V d)"
proof -
  let ?i = "sp_session_id payload"
  let ?ensure = "ensure_session D (clock 1) d ?i ?i (string_option (sp_options payload) ''working_dir'')"
  have frame: "sql_frame (db_sessions D) (\<lambda>d. row_goals (V d))"
    by (rule sql_frame_part [OF gateway_db_lawsD(25) [OF laws], where h = row_goals]) simp
  have "(\<exists>e. x = Inl e) \<and> row_goals (V d') = row_goals (V d)"
  proof (cases ?ensure)
    case None
    then show ?thesis using admit assms(5) by (auto simp: admit_run_def)
  next
    case (Some a)
    obtain d1 session where e: "?ensure = Some (d1, session)" using Some by (cases a) auto
    have goals: "row_goals (V d1) = row_goals (V d)"
      using e assms(5) sql_frame_law(1) [OF frame]
      by (auto simp: ensure_session_def insert_session_def split: first_result.splits)
    have id: "ss_id session = ?i"
      using e assms(5) sql_first_Found(2) [OF gateway_db_lawsD(24) [OF laws]]
      by (auto simp: ensure_session_def insert_session_def new_session_row_def split: first_result.splits)
    have runs: "row_runs (V d1) = row_runs (V d)" by (rule ensure_session_runs [OF laws e])
    have "count_active_by_session D d1 ?i \<noteq> Some 0"
    proof
      assume "count_active_by_session D d1 ?i = Some 0"
      from sql_count_law [OF gateway_db_lawsD(1) [OF laws] this [unfolded count_active_by_session_def]]
      have "filter (\<lambda>r. rr_session_id r = ?i \<and> live_run_status (rr_status r)) (row_runs (V d1)) = []" by simp
      with assms(2-4) runs show False by (auto simp: filter_empty_conv)
    qed
    then have "d' = d1 \<and> (\<exists>e. x = Inl e)"
      using admit e id assms(5)
      by (cases "count_active_by_session D d1 ?i") (auto simp: admit_run_def Let_def)
    with goals show ?thesis by simp
  qed
  then show "\<exists>e. x = Inl e" "row_goals (V d') = row_goals (V d)" by blast+
qed

text \<open>
  A goal the user starts while a run of the session is live is stored before the start is
  refused: the request fails and a pending goal that no run works on stays behind.
\<close>

theorem refused_start_leaves_goal:
  assumes laws: "service_db_laws D V" and client: "se_runtime E \<noteq> None" and objective: "trim_space objective \<noteq> []"
    and create: "create_user_initiated (sd_core D) clock (fst s) session (trim_space objective) title criteria
      = (d1, Inr goal)"
    and live: "r \<in> set (row_runs (vw_core (V d1)))" "rr_session_id r = session" "live_run_status (rr_status r)"
  shows "\<exists>d' e. start_goal D E clock s session objective title criteria opts = ((d', snd s), Inl e)
    \<and> (\<exists>g \<in> set (row_goals (vw_core (V d'))). gr_id g = gd_id goal \<and> gr_status g = Goal_Pending)"
proof -
  note core = service_db_lawsD(1) [OF laws]
  obtain runtime where runtime: "se_runtime E = Some runtime" using client by auto
  have "session \<noteq> []"
  proof
    assume "session = []"
    with create show False by (simp add: create_user_initiated_def)
  qed
  let ?p = "goal_run_payload session (goal_prompt goal) (drop_option ''create_goal''
      (put_option ''goals_enabled'' (GBool True) (put_option ''goal_id'' (GStr (gd_id goal)) opts)))"
  obtain d2 x where admit: "admit_run (sd_core D) (se_owner E) (se_concurrency E) (later 10 clock) d1 ?p = (d2, x)"
    by fastforce
  note refused = admit_refused [OF core live(1,3) _ _ admit]
  have "sp_session_id ?p = session" by (simp add: goal_run_payload_def)
  with refused live(2) \<open>session \<noteq> []\<close> obtain e where e: "x = Inl e"
    and goals: "row_goals (vw_core (V d2)) = row_goals (vw_core (V d1))" by auto
  have "start_goal D E clock s session objective title criteria opts = ((d2, snd s), Inl e)"
    using runtime objective create admit e by (simp add: start_goal_def start_service_def Let_def)
  moreover have "\<exists>g \<in> set (row_goals (vw_core (V d2))). gr_id g = gd_id goal \<and> gr_status g = Goal_Pending"
    using created_goal_pending [OF core create] goals by auto
  ultimately show ?thesis by blast
qed

subsection \<open>Witnesses\<close>

definition down_env :: "service_rows start_env" where
  "down_env = \<lparr>se_owner = ''gw'', se_concurrency = [], se_worker_turns = [], se_worker_wall = [],
     se_worker_fan_out = [], se_db_error = ''db'', se_runtime = Some (\<lambda>_ _ d. (d, Inl ''down''))\<rparr>"

definition sample_payload :: start_payload where
  "sample_payload = \<lparr>sp_session_id = ''s'', sp_input = [], sp_options = [], sp_subscribe = True\<rparr>"

definition sample_clock :: "nat \<Rightarrow> int" where
  "sample_clock i = 5 + int i"

lemma mem_core: "sd_core mem_service_db = widen_db vw_core (\<lambda>d s. s\<lparr>vw_core := d\<rparr>) mem_db"
  by (simp add: mem_service_db_def)

lemma or_fail_run_Inl:
  assumes "\<And>d x. \<exists>d' e. k d x = (d', Inl e)"
  shows "\<exists>d' e. or_fail_run D E now run r k = (d', Inl e)"
proof -
  obtain d x where r: "r = (d, x)" by (cases r)
  show ?thesis using assms by (cases x) (simp_all add: r or_fail_run_def fail_run_def)
qed

lemma down_call_fails: "\<exists>d' e. call_runtime D E ck d pl session p (\<lambda>_ _ d. (d, Inl ''down'')) = (d', Inl e)"
  by (simp add: call_runtime_def fail_run_def)

lemma down_launch_fails:
  "\<exists>d' e c'. launch_run D E ck d c pl run session (\<lambda>_ _ d. (d, Inl ''down'')) = ((d', Inl e), c')"
proof (cases "build_run_conversation D d (ss_id session)")
  case None
  then show ?thesis by (simp add: launch_run_def fail_run_def)
next
  case (Some conversation)
  obtain x c' where add: "add_message (sd_core D) (ck 0) c d (ss_id session) ''user''
      (string_arg (sp_input pl) ''text'') run = (x, c')" by fastforce
  show ?thesis
  proof (cases x)
    case None
    then show ?thesis using Some add by (simp add: launch_run_def fail_run_def)
  next
    case (Some a)
    obtain d1 m where "a = (d1, m)" by (cases a)
    moreover have "\<exists>d' e. or_fail_run D E (ck 1) run
        (prepare_run D E (later 2 ck) d1 (sp_options pl) (run_params_of E pl run session conversation))
        (\<lambda>d2 p. call_runtime D E (later 40 ck) d2 pl session p (\<lambda>_ _ d. (d, Inl ''down''))) = (d', Inl e)"
      by (rule or_fail_run_Inl) (rule down_call_fails)
    ultimately show ?thesis
      using Some add \<open>build_run_conversation D d (ss_id session) = Some conversation\<close>
      by (simp add: launch_run_def)
  qed
qed

lemma down_start_fails: "\<exists>d' c e. start_service mem_service_db down_env clock s payload = ((d', c), Inl e)"
proof (cases "admit_run (sd_core mem_service_db) (se_owner down_env) (se_concurrency down_env) clock (fst s) payload")
  case (Pair d1 x)
  show ?thesis
  proof (cases x)
    case (Inl e)
    then show ?thesis using Pair by (simp add: start_service_def down_env_def)
  next
    case (Inr a)
    obtain run session where a: "a = (run, session)" by (cases a)
    obtain d' e c' where "launch_run mem_service_db down_env (later 4 clock) d1 (snd s) payload run session
        (\<lambda>_ _ d. (d, Inl ''down'')) = ((d', Inl e), c')"
      using down_launch_fails [of mem_service_db down_env "later 4 clock" d1 "snd s" payload run session] by auto
    then show ?thesis using Pair Inr a by (simp add: start_service_def down_env_def)
  qed
qed

lemma sample_admitted: "\<exists>d1 run session. admit_run (sd_core mem_service_db) (se_owner down_env)
    (se_concurrency down_env) sample_clock empty_service_rows sample_payload = (d1, Inr (run, session))"
  by (auto simp: admit_run_def Let_def default_max mem_core mem_db_def empty_rows_def empty_service_rows_def
      ensure_session_def insert_session_def sql_first_def count_active_by_session_def count_active_def
      sql_count_def start_run_def sample_payload_def down_env_def)

theorem failed_start_frees_session_witness:
  "\<exists>d' c e run. start_service mem_service_db down_env sample_clock (empty_service_rows, 0) sample_payload
      = ((d', c), Inl e)
    \<and> (run_failed (row_runs (vw_core d')) run
       \<or> (\<exists>now. finish_run (sd_core mem_service_db) now d' run ''failed'' (error_text down_env e) = None))"
proof -
  obtain d1 run session where a: "admit_run (sd_core mem_service_db) (se_owner down_env)
      (se_concurrency down_env) sample_clock (fst (empty_service_rows, 0::nat)) sample_payload = (d1, Inr (run, session))"
    using sample_admitted by auto
  obtain d' c e where s: "start_service mem_service_db down_env sample_clock (empty_service_rows, 0) sample_payload
      = ((d', c), Inl e)"
    using down_start_fails by blast
  have "se_runtime down_env \<noteq> None" by (simp add: down_env_def)
  from failed_start_frees_session [OF mem_service_db_laws a s this] s show ?thesis by blast
qed

definition busy_rows :: service_rows where
  "busy_rows = empty_service_rows\<lparr>vw_core := empty_rows
     \<lparr>row_runs := [zero_run_row\<lparr>rr_id := ''r'', rr_session_id := ''s'', rr_status := ''running''\<rparr>],
      row_sessions := [new_session_row ''s'' ''s'' [] 0]\<rparr>\<rparr>"

lemma sample_goal_facts:
  "trim_space ''s'' = ''s''" "trim_space ''o'' = ''o''" "trim_space ''t'' = ''t''" "trim_space ''c'' = ''c''"
  "rune_count ''o'' = 1" "rune_count ''t'' = 1" "rune_count ''c'' = 1"
  by code_simp+

lemma sample_goal_created: "\<exists>d1 goal. create_user_initiated (sd_core mem_service_db) sample_clock
    (fst (busy_rows, 0::nat)) ''s'' (trim_space ''o'') ''t'' ''c'' = (d1, Inr goal)
    \<and> row_runs (vw_core d1) = row_runs (vw_core busy_rows)"
  by (simp add: create_user_initiated_def Let_def sample_goal_facts busy_rows_def empty_service_rows_def
      goal_max_objective_rune_def goal_max_criteria_rune_def goal_max_title_rune_def goal_max_session_rows_def
      get_session_def sql_first_def mem_core mem_db_def empty_rows_def new_session_row_def repair_stale_active_def
      active_goal_def session_goal_in_def count_goals_def sql_count_def create_goal_def one_active_goal_def
      prepare_goal_def apply_budget_defaults_def)

theorem refused_start_leaves_goal_witness:
  "\<exists>d' e (goal :: goal_dto). start_goal mem_service_db down_env sample_clock (busy_rows, 0) ''s'' ''o'' ''t'' ''c'' [] = ((d', 0), Inl e)
    \<and> (\<exists>g \<in> set (row_goals (vw_core d')). gr_id g = gd_id goal \<and> gr_status g = Goal_Pending)"
proof -
  obtain d1 goal where c: "create_user_initiated (sd_core mem_service_db) sample_clock
      (fst (busy_rows, 0::nat)) ''s'' (trim_space ''o'') ''t'' ''c'' = (d1, Inr goal)"
    and r: "row_runs (vw_core d1) = row_runs (vw_core busy_rows)" using sample_goal_created by blast
  let ?r = "zero_run_row\<lparr>rr_id := ''r'', rr_session_id := ''s'', rr_status := ''running''\<rparr>"
  have mem: "?r \<in> set (row_runs (vw_core d1))" by (simp add: r busy_rows_def)
  have live: "rr_session_id ?r = ''s''" "live_run_status (rr_status ?r)" by (simp_all add: live_run_status_def)
  have env: "se_runtime down_env \<noteq> None" "trim_space ''o'' \<noteq> []"
    by (simp_all add: down_env_def sample_goal_facts)
  show ?thesis
    using refused_start_leaves_goal [OF mem_service_db_laws env c mem live, of "[]"]
    unfolding snd_conv by blast
qed

definition plain_params :: run_params where
  "plain_params = run_params_of down_env sample_payload ''run_5'' (new_session_row ''s'' ''s'' [] 0) []"

lemma mem_upserts_frame:
  "set seeds \<subseteq> set builtin_agent_seeds \<Longrightarrow> distinct (map ad_id (vw_agents d @ seeds)) \<Longrightarrow>
    distinct (map ad_row_key (vw_agents d @ seeds)) \<Longrightarrow>
    \<exists>rows. upsert_agents mem_service_db now d seeds = (d\<lparr>vw_agents := rows\<rparr>, True)"
proof (induction seeds arbitrary: d)
  case (Cons seed seeds)
  let ?n = "seed\<lparr>ad_created_at := now, ad_updated_at := now\<rparr>"
  have one: "upsert_agent_by_key mem_service_db now d seed = Some (d\<lparr>vw_agents := vw_agents d @ [?n]\<rparr>, ?n)"
    by (rule mem_upsert_new) (use Cons.prems in auto)
  have "\<exists>rows. upsert_agents mem_service_db now (d\<lparr>vw_agents := vw_agents d @ [?n]\<rparr>) seeds
      = (d\<lparr>vw_agents := vw_agents d @ [?n]\<rparr>\<lparr>vw_agents := rows\<rparr>, True)"
    by (rule Cons.IH) (use Cons.prems in auto)
  then show ?case using one by auto
next
  case Nil
  have "d = d\<lparr>vw_agents := vw_agents d\<rparr>" by simp
  then show ?case unfolding upsert_agents.simps by blast
qed

lemma empty_agents_listed: "\<exists>rows shown. agent_service_list mem_service_db now empty_service_rows
    = (empty_service_rows\<lparr>vw_agents := rows\<rparr>, Some shown)"
proof -
  have "\<exists>rows. ensure_builtins mem_service_db now empty_service_rows = (empty_service_rows\<lparr>vw_agents := rows\<rparr>, True)"
    unfolding ensure_builtins_def
    by (rule mem_upserts_frame)
      (simp_all add: empty_service_rows_def seed_keys, simp add: builtin_agent_seeds_def seed_defs)
  then show ?thesis
    by (auto simp: agent_service_list_def seeded_read_def list_agents_def sql_limit_def mem_agents)
qed

lemma plain_prepared: "\<exists>d' q. prepare_run mem_service_db down_env sample_clock empty_service_rows [] plain_params
    = (d', Inr q)"
proof -
  obtain rows shown where list: "agent_service_list mem_service_db (sample_clock 0) empty_service_rows
      = (empty_service_rows\<lparr>vw_agents := rows\<rparr>, Some shown)" using empty_agents_listed by blast
  let ?d = "empty_service_rows\<lparr>vw_agents := rows\<rparr>"
  have memory: "apply_memory_context mem_service_db ?d p = Inr p" for p
    by (simp add: apply_memory_context_def preview_run_def select_for_run_def mem_service_db_def
        empty_service_rows_def sql_limit_def Let_def)
  have todo: "apply_todo_context mem_service_db ?d p = Inr p" for p
    by (simp add: apply_todo_context_def format_todo_context_def list_todos_def mem_core mem_db_def
        empty_service_rows_def empty_rows_def bind_result_def)
  show ?thesis
    by (simp add: prepare_run_def apply_agent_definitions_def list memory todo apply_provider_profile_def
        goals_flag_def plain_params_def run_params_of_def options_of_request_def sample_payload_def
        bind_result_def apply_goal_binding_def Let_def string_option_def bool_option_def)
qed


end
