(* ===== verification/Spec2Isabelle.thy ===== *)
theory Spec2Isabelle
  imports Resource_Budget Subagent_Pool Workers Workspace_Tree Goal_Properties Run_Properties
    Memory_Service Agent_Batch Agent_Properties Agent_Termination
    Provider_Props Profile_Props Compaction_Props Start_Props
begin

text \<open>
  Verification library of RedPanda, a desktop agent: a Gateway (\<^verbatim>\<open>src/modules/gateway\<close>) that keeps
  sessions, runs, checklists, goals and memories in a database and serves clients over websockets,
  and an Agent Runtime (\<^verbatim>\<open>src/modules/agent\<close>), a process of its own, that drives a language model
  and executes its tool calls. The Gateway admits a run, starts the runtime, stores the events the
  runtime sends back, projects them to rows and messages, and publishes them to clients.

  Theories and code (paths under \<^verbatim>\<open>gateway/internal/gateway\<close> and \<^verbatim>\<open>agent/internal/runtime\<close>):

  \<^item> \<open>Prelude\<close>: results, lists, and the interfaces on queues of blocked goroutines
    (\<open>fifo_dispatch\<close>) and on capacity. \<open>Go_Strings\<close>: the part of Go's string library in use,
    over byte strings, and dynamic values (\<^verbatim>\<open>map[string]any\<close>).
  \<^item> \<open>Resource_Budget\<close>: \<^verbatim>\<open>service/resource_budget.go\<close>, permits with a queue of callers.
  \<^item> \<open>Subagent_Pool\<close>: \<^verbatim>\<open>subagent_pool.go\<close>, a pool of child processes with grants and hand-offs.
  \<^item> \<open>Tool_Table\<close>, \<open>Tool_Policy\<close>, \<open>Workers\<close>: the tool table and slash commands of \<^verbatim>\<open>tools.go\<close>,
    the policy of \<^verbatim>\<open>policy.go\<close> with \<^verbatim>\<open>executeTool\<close> of \<^verbatim>\<open>runtime.go\<close>, and the options of workers
    (\<^verbatim>\<open>goal_specialists.go\<close>, \<^verbatim>\<open>subagent_tools.go\<close>, \<^verbatim>\<open>skill_subagent.go\<close>).
  \<^item> \<open>Patch_Engine\<close>, \<open>Workspace_Files\<close>, \<open>Workspace_Tree\<close>: diffs and patches, path resolution,
    the tools on one
    file and the tools that walk a directory, of \<^verbatim>\<open>tools.go\<close>.
  \<^item> \<open>Sql_Table\<close>: the interface of a database table, its laws as locales. \<open>Todo_Service\<close>,
    \<open>Goal_Service\<close> with \<open>Goal_Lifecycle\<close> and \<open>Goal_Properties\<close>, \<open>Memory_Service\<close>: the
    repositories and services of checklists, goals and memories, with the tools the runtime calls
    back for. \<open>Gateway_Db\<close>, \<open>Run_Store\<close>: the rows, and the repositories of runs, events, tool
    calls, permissions, messages and sessions.
  \<^item> \<open>Event_Delivery\<close>: \<^verbatim>\<open>infra/eventhub/hub.go\<close> and \<^verbatim>\<open>controller/websocket.go\<close>. \<open>Run_Service\<close>,
    \<open>Run_Properties\<close>: \<^verbatim>\<open>service/run.go\<close>, admission of runs and the handler of runtime events.

  How the model corresponds to the code. Structs are records, tagged values datatypes, an error
  result a sum whose left side names the message. A method is a function from the state to the new
  state and the result; a method that blocks is split at the points where it waits, and the
  interleavings of goroutines are sequences of such steps (an inductive relation), each step being
  what the code does under its lock. Database tables are parameters: a table is given by its
  operations, and the theorems assume only the laws of \<open>Sql_Table\<close>, which state what SQLite
  documents of the statements used; every witness instantiates them with a list of rows. Instants
  are integers, generated ids come from a counter.

  What the lemma groups show: queues lose no caller and keep their order, budgets and pools keep
  their limits; the policy decides what a model call may do and workers never exceed their
  parents except where their allowlists are disjoint; patches mean what the reference relation
  \<open>hunks_fit\<close> says; the stored checklist, goals and runs keep their invariants over all sequences
  of calls; events are handled once, stored as one message and delivered in order.

  Bounds and fuel: no definition uses fuel. Loops are recursions on their data with a measure; the
  walk of a path ends because it follows at most 40 (the kernel) or 255 (Go) links.

  Not modelled: the desktop front end and its bindings, the command line client, transport and
  process start-up (ipc, runtimeclient), HTTP controllers, migration of the database, providers of
  language models, web and search tools, skills and MCP servers, the goal loop of the front end;
  pure input and output around the modelled operations. The manifest lists them.
\<close>

end
